(* ===== verification/Transit_Prelude.thy ===== *)
theory Transit_Prelude
  imports Main "HOL-Library.Word"
begin

text \<open>
  Shared ground of the development: the Go values the components exchange (a Go string and a
  byte slice are both a \<^typ>\<open>string\<close>, since a HOL \<^typ>\<open>char\<close> is exactly one byte), the outcome of
  a computation that may panic or never return, the pieces of Go's standard library the sources
  call, and generic list lemmas.
\<close>

section \<open>Types\<close>

type_synonym bytes = string
type_synonym header = "string \<times> string"
type_synonym uint32 = "32 word"
type_synonym uint64 = "64 word"

text \<open>A Go computation stops with a panic, or does not return at all.\<close>

datatype stop = Panic string | Hang

type_synonym 'a outcome = "stop + 'a"

definition obind :: "'a outcome \<Rightarrow> ('a \<Rightarrow> 'b outcome) \<Rightarrow> 'b outcome" where
  "obind m k = (case m of Inl e \<Rightarrow> Inl e | Inr x \<Rightarrow> k x)"

named_theorems go_simps \<open>computation rules of the modelled Go library functions\<close>

lemma obind_simps [simp]:
  "obind (Inl e) k = Inl e"
  "obind (Inr x) k = k x"
  by (simp_all add: obind_def)

lemma obind_eq_Inr: "obind m k = Inr y \<longleftrightarrow> (\<exists>x. m = Inr x \<and> k x = Inr y)"
  by (cases m) auto

lemma obind_assoc: "obind (obind m k) l = obind m (\<lambda>x. obind (k x) l)"
  by (cases m) auto

text \<open>\<^verbatim>\<open>strings.HasPrefix\<close> and \<^verbatim>\<open>bytes.HasPrefix\<close>.\<close>

definition HasPrefix :: "string \<Rightarrow> string \<Rightarrow> bool" where
  "HasPrefix s pre \<longleftrightarrow> take (length pre) s = pre"

section \<open>The last bytes of a sequence\<close>

definition last_n :: "nat \<Rightarrow> 'a list \<Rightarrow> 'a list" where
  "last_n n xs = drop (length xs - n) xs"

lemma length_last_n [simp]: "length (last_n n xs) = min n (length xs)"
  by (simp add: last_n_def)

lemma last_n_short: "length xs \<le> n \<Longrightarrow> last_n n xs = xs"
  by (simp add: last_n_def)

lemma last_n_append_long: "n \<le> length ys \<Longrightarrow> last_n n (xs @ ys) = last_n n ys"
  by (simp add: last_n_def)

lemma last_n_last_n_append [simp]: "last_n n (last_n n xs @ ys) = last_n n (xs @ ys)"
proof (cases "length xs \<le> n")
  case False
  then have "length xs + length ys - (n + length ys) = length xs - n" by simp
  with False show ?thesis
    by (cases "n \<le> length ys") (auto simp: last_n_def add.commute)
qed (simp add: last_n_short)

lemma take_take_append: "take n (take n xs @ ys) = take n (xs @ ys)"
  by (cases "length xs \<le> n") simp_all

section \<open>Go's copy\<close>

text \<open>
  \<^verbatim>\<open>copy(dst[pos:], src)\<close> overwrites \<open>dst\<close> from \<open>pos\<close> on with as much of \<open>src\<close> as fits and
  returns the number of bytes copied.
\<close>

definition go_copy_n :: "bytes \<Rightarrow> nat \<Rightarrow> bytes \<Rightarrow> nat" where
  "go_copy_n dst pos src = min (length dst - pos) (length src)"

definition go_copy :: "bytes \<Rightarrow> nat \<Rightarrow> bytes \<Rightarrow> bytes" where
  "go_copy dst pos src =
     take pos dst @ take (go_copy_n dst pos src) src @ drop (pos + go_copy_n dst pos src) dst"

lemma length_go_copy [simp]: "pos \<le> length dst \<Longrightarrow> length (go_copy dst pos src) = length dst"
  by (simp add: go_copy_def go_copy_n_def)


section \<open>Decimal integers\<close>

text \<open>\<^verbatim>\<open>strconv.Itoa\<close> on a non-negative number, and its inverse on digit strings.\<close>

definition digit :: "nat \<Rightarrow> char" where
  "digit d = char_of (48 + d)"

fun Itoa :: "nat \<Rightarrow> string" where
  "Itoa n = (if n < 10 then [digit n] else Itoa (n div 10) @ [digit (n mod 10)])"

declare Itoa.simps [simp del]

definition is_digit :: "char \<Rightarrow> bool" where
  "is_digit c \<longleftrightarrow> 48 \<le> (of_char c :: nat) \<and> (of_char c :: nat) \<le> 57"

definition digits_value :: "string \<Rightarrow> nat" where
  "digits_value s = foldl (\<lambda>a c. 10 * a + (of_char c - 48)) 0 s"

lemma of_char_digit: "d < 10 \<Longrightarrow> of_char (digit d) = (48 + d :: nat)"
  by (simp add: digit_def)

lemma is_digit_digit [simp]: "d < 10 \<Longrightarrow> is_digit (digit d)"
  by (simp add: is_digit_def of_char_digit)

lemma Itoa_digits: "list_all is_digit (Itoa n) \<and> Itoa n \<noteq> []"
proof (induction n rule: Itoa.induct)
  case (1 n)
  then show ?case
    by (subst (1 2) Itoa.simps) auto
qed

lemma digits_value_Itoa [simp]: "digits_value (Itoa n) = n"
proof (induction n rule: Itoa.induct)
  case (1 n)
  then show ?case
    by (cases "n < 10")
       (simp_all add: Itoa.simps [of n] digits_value_def of_char_digit)
qed

lemma Itoa_inject [simp]: "Itoa m = Itoa n \<longleftrightarrow> m = n"
  by (metis digits_value_Itoa)

section \<open>Numbers and durations\<close>

text \<open>Wrap-around of signed 64-bit arithmetic, and the units of \<^verbatim>\<open>time.Duration\<close>.\<close>

definition int64 :: "int \<Rightarrow> int" where
  "int64 x = sint (word_of_int x :: 64 word)"

definition Second :: int where "Second = 1000000000"
definition Millisecond :: int where "Millisecond = 1000000"

lemma int64_id: "- (2 ^ 63) \<le> x \<Longrightarrow> x < 2 ^ 63 \<Longrightarrow> int64 x = x"
  by (simp add: int64_def signed_of_int word_size signed_take_bit_int_eq_self)

section \<open>Hexadecimal digits and nil pointers\<close>

definition hex_digit :: "nat \<Rightarrow> char" where
  "hex_digit d = (if d < 10 then char_of (48 + d) else char_of (87 + d))"

definition nil_dereference :: stop where
  "nil_dereference = Panic ''runtime error: invalid memory address or nil pointer dereference''"

end
