(* ===== verification/Ring_Buffer.thy ===== *)
theory Ring_Buffer
  imports Transit_Prelude
begin

text \<open>
  The stream buffers of \<^verbatim>\<open>src/up/buffer/buffer.go\<close>: \<open>Ring\<close> keeps the last \<open>size\<close> bytes written,
  \<open>HeadTail\<close> the first \<open>headSize\<close> and the last \<open>tailSize\<close>. \<open>Ring_Write\<close> is the Go loop as a
  partial function: its value \<^const>\<open>None\<close> says that the loop does not return.
\<close>

section \<open>Ring\<close>

record ring =
  data :: bytes
  size :: nat
  pos :: nat
  full :: bool

definition NewRing :: "int \<Rightarrow> ring outcome" where
  "NewRing n =
     (if n < 0 then Inl (Panic ''runtime error: makeslice: len out of range'')
      else Inr \<lparr>data = replicate (nat n) (CHR 0x00), size = nat n, pos = 0, full = False\<rparr>)"

text \<open>One iteration of the loop of \<open>Write\<close>: the ring after it and the bytes still to write.\<close>

definition Ring_Write_body :: "bytes \<Rightarrow> ring \<Rightarrow> bytes \<times> ring" where
  "Ring_Write_body p rb =
     (let n = go_copy_n (data rb) (pos rb) p;
          rb1 = rb\<lparr>data := go_copy (data rb) (pos rb) p, pos := pos rb + n\<rparr>;
          rb2 = (if pos rb1 \<ge> size rb1 then rb1\<lparr>pos := 0, full := True\<rparr> else rb1)
      in (drop n p, rb2))"

partial_function (option) Ring_Write :: "bytes \<Rightarrow> ring \<Rightarrow> ring option" where
  "Ring_Write p rb =
     (if length p > 0
      then Ring_Write (fst (Ring_Write_body p rb)) (snd (Ring_Write_body p rb))
      else Some rb)"

definition Ring_Bytes :: "ring \<Rightarrow> bytes \<times> ring" where
  "Ring_Bytes rb =
     (if \<not> full rb then (take (pos rb) (data rb), rb)
      else
        (let d1 = rev (take (pos rb) (data rb)) @ drop (pos rb) (data rb);
             d2 = take (pos rb) d1 @ rev (take (size rb - pos rb) (drop (pos rb) d1)) @ drop (size rb) d1;
             d3 = rev (take (size rb) d2) @ drop (size rb) d2
         in (take (size rb) d3, rb\<lparr>data := d3, pos := 0, full := False\<rparr>)))"

definition Ring_Reset :: "ring \<Rightarrow> ring" where
  "Ring_Reset rb = rb\<lparr>pos := 0, full := False\<rparr>"

definition Ring_Len :: "ring \<Rightarrow> nat" where
  "Ring_Len rb = (if full rb then size rb else pos rb)"

section \<open>HeadTail\<close>

record headtail =
  head :: bytes
  headN :: nat
  headSize :: nat
  tail :: ring

definition NewHeadTail :: "int \<Rightarrow> int \<Rightarrow> headtail outcome" where
  "NewHeadTail hs ts =
     (if hs < 0 then Inl (Panic ''runtime error: makeslice: len out of range'')
      else obind (NewRing ts) (\<lambda>r.
        Inr \<lparr>head = replicate (nat hs) (CHR 0x00), headN = 0, headSize = nat hs, tail = r\<rparr>))"

definition HeadTail_Write :: "bytes \<Rightarrow> headtail \<Rightarrow> headtail option" where
  "HeadTail_Write p ht =
     (let ht1 = (if headN ht < headSize ht
                 then ht\<lparr>head := go_copy (head ht) (headN ht) p,
                         headN := headN ht + go_copy_n (head ht) (headN ht) p\<rparr>
                 else ht)
      in map_option (\<lambda>t. ht1\<lparr>tail := t\<rparr>) (Ring_Write p (tail ht1)))"

definition HeadTail_Head :: "headtail \<Rightarrow> bytes" where
  "HeadTail_Head ht = take (headN ht) (head ht)"

definition HeadTail_Tail :: "headtail \<Rightarrow> bytes \<times> headtail" where
  "HeadTail_Tail ht = (let (b, t) = Ring_Bytes (tail ht) in (b, ht\<lparr>tail := t\<rparr>))"

definition HeadTail_Reset :: "headtail \<Rightarrow> headtail" where
  "HeadTail_Reset ht = ht\<lparr>headN := 0, tail := Ring_Reset (tail ht)\<rparr>"

section \<open>The contract of a bounded sink\<close>

text \<open>
  What \<open>HeadTail\<close> relies on: writing a slice to a sink in a good state returns, and what the sink
  then holds is the last \<open>cap\<close> bytes of what it held followed by the slice.
\<close>

locale bounded_sink =
  fixes put :: "bytes \<Rightarrow> 'r \<Rightarrow> 'r option"
    and contents :: "'r \<Rightarrow> bytes"
    and cap :: "'r \<Rightarrow> nat"
    and invar :: "'r \<Rightarrow> bool"
  assumes put_returns: "invar r \<Longrightarrow> \<exists>r'. put p r = Some r'"
    and put_invar: "invar r \<Longrightarrow> put p r = Some r' \<Longrightarrow> invar r'"
    and put_cap: "invar r \<Longrightarrow> put p r = Some r' \<Longrightarrow> cap r' = cap r"
    and put_contents:
      "invar r \<Longrightarrow> put p r = Some r' \<Longrightarrow> contents r' = last_n (cap r) (contents r @ p)"
begin

fun writes :: "bytes list \<Rightarrow> 'r \<Rightarrow> 'r option" where
  "writes [] r = Some r"
| "writes (p # ps) r = Option.bind (put p r) (writes ps)"

lemma writes_total:
  assumes "invar r" "length (contents r) \<le> cap r"
  shows "\<exists>r'. writes ps r = Some r' \<and> invar r' \<and> cap r' = cap r
              \<and> contents r' = last_n (cap r) (contents r @ concat ps)"
  using assms
proof (induction ps arbitrary: r)
  case Nil
  then show ?case by (simp add: last_n_short)
next
  case (Cons p ps)
  from Cons.prems(1) obtain r1 where r1: "put p r = Some r1" using put_returns by blast
  from put_contents [OF Cons.prems(1) r1] put_cap [OF Cons.prems(1) r1]
  have c: "contents r1 = last_n (cap r) (contents r @ p)" "cap r1 = cap r" .
  have "\<exists>r'. writes ps r1 = Some r' \<and> invar r' \<and> cap r' = cap r1
              \<and> contents r' = last_n (cap r1) (contents r1 @ concat ps)"
    by (rule Cons.IH) (use c put_invar [OF Cons.prems(1) r1] in auto)
  then show ?case by (auto simp: r1 c)
qed

end

section \<open>Ring meets the contract\<close>

definition ring_contents :: "ring \<Rightarrow> bytes" where
  "ring_contents rb =
     (if full rb then drop (pos rb) (data rb) @ take (pos rb) (data rb) else take (pos rb) (data rb))"

definition ring_ok :: "ring \<Rightarrow> bool" where
  "ring_ok rb \<longleftrightarrow> 0 < size rb \<and> length (data rb) = size rb \<and> pos rb < size rb"

lemma Ring_Write_body_rest:
  assumes "ring_ok rb" "p \<noteq> []"
  shows "length (fst (Ring_Write_body p rb)) < length p"
  using assms by (simp add: Ring_Write_body_def Let_def go_copy_n_def ring_ok_def)

lemma Ring_Write_body_ok:
  assumes "ring_ok rb"
  shows "ring_ok (snd (Ring_Write_body p rb))" "size (snd (Ring_Write_body p rb)) = size rb"
  using assms by (simp_all add: Ring_Write_body_def Let_def ring_ok_def)

lemma Ring_Write_body_contents:
  assumes "ring_ok rb"
  shows "last_n (size rb) (ring_contents (snd (Ring_Write_body p rb)) @ fst (Ring_Write_body p rb))
       = last_n (size rb) (ring_contents rb @ p)"
proof -
  let ?n = "go_copy_n (data rb) (pos rb) p"
  have len: "length (data rb) = size rb" "pos rb < size rb" using assms by (auto simp: ring_ok_def)
  have step: "ring_contents (snd (Ring_Write_body p rb)) = last_n (size rb) (ring_contents rb @ take ?n p)"
    using len
    by (auto simp: Ring_Write_body_def Let_def ring_contents_def go_copy_def go_copy_n_def
        last_n_def min_def not_le add.commute)
  have "fst (Ring_Write_body p rb) = drop ?n p"
    by (simp add: Ring_Write_body_def Let_def)
  with step show ?thesis by simp
qed


lemma Ring_Write_Nil [simp]: "Ring_Write [] rb = Some rb"
  by (simp add: Ring_Write.simps)

lemma Ring_Write_total:
  assumes "ring_ok rb"
  shows "\<exists>rb'. Ring_Write p rb = Some rb' \<and> ring_ok rb' \<and> size rb' = size rb
               \<and> last_n (size rb) (ring_contents rb') = last_n (size rb) (ring_contents rb @ p)"
  using assms
proof (induction p arbitrary: rb rule: length_induct)
  case (1 p)
  show ?case
  proof (cases "p = []")
    case False
    let ?b = "Ring_Write_body p rb"
    from "1.prems" have ok: "ring_ok (snd ?b)" "size (snd ?b) = size rb"
      by (rule Ring_Write_body_ok)+
    from "1.prems" False have "length (fst ?b) < length p" by (rule Ring_Write_body_rest)
    with "1.IH" ok(1) have "\<exists>rb'. Ring_Write (fst ?b) (snd ?b) = Some rb' \<and> ring_ok rb'
        \<and> size rb' = size (snd ?b)
        \<and> last_n (size (snd ?b)) (ring_contents rb')
            = last_n (size (snd ?b)) (ring_contents (snd ?b) @ fst ?b)"
      by blast
    with ok(2) Ring_Write_body_contents [OF "1.prems", of p] False show ?thesis
      by (simp add: Ring_Write.simps [of p rb])
  qed (use "1.prems" in simp)
qed

lemma length_ring_contents: "ring_ok rb \<Longrightarrow> length (ring_contents rb) \<le> size rb"
  by (auto simp: ring_contents_def ring_ok_def)

lemma Ring_Write_SomeD:
  assumes "ring_ok rb" "Ring_Write p rb = Some rb'"
  shows "ring_ok rb'" "size rb' = size rb" "ring_contents rb' = last_n (size rb) (ring_contents rb @ p)"
  using Ring_Write_total [OF assms(1), of p] assms(2) length_ring_contents [of rb']
  by (auto simp: last_n_short)

interpretation ring_sink: bounded_sink Ring_Write ring_contents size ring_ok
  by unfold_locales (use Ring_Write_total Ring_Write_SomeD in blast)+

lemma NewRing_ok:
  "0 < n \<Longrightarrow> NewRing n = Inr rb \<Longrightarrow> ring_ok rb \<and> size rb = nat n \<and> ring_contents rb = []"
  by (auto simp: NewRing_def ring_ok_def ring_contents_def)

lemma Ring_Bytes_fst: "ring_ok rb \<Longrightarrow> fst (Ring_Bytes rb) = ring_contents rb"
  by (simp add: Ring_Bytes_def ring_contents_def ring_ok_def Let_def)

lemma Ring_Bytes_ok: "ring_ok rb \<Longrightarrow> ring_ok (snd (Ring_Bytes rb)) \<and> size (snd (Ring_Bytes rb)) = size rb"
  by (simp add: Ring_Bytes_def ring_ok_def Let_def)

lemma ring_contents_after_Bytes:
  "ring_ok rb \<Longrightarrow> ring_contents (snd (Ring_Bytes rb)) = (if full rb then [] else ring_contents rb)"
  by (simp add: Ring_Bytes_def ring_contents_def ring_ok_def Let_def)

fun Ring_Writes :: "bytes list \<Rightarrow> ring \<Rightarrow> ring option" where
  "Ring_Writes [] rb = Some rb"
| "Ring_Writes (p # ps) rb = Option.bind (Ring_Write p rb) (Ring_Writes ps)"

lemma Ring_Writes_sink: "Ring_Writes ps = ring_sink.writes ps"
proof (induction ps)
  case (Cons p ps)
  show ?case by (rule ext) (simp add: Cons.IH)
qed auto

fun HeadTail_Writes :: "bytes list \<Rightarrow> headtail \<Rightarrow> headtail option" where
  "HeadTail_Writes [] ht = Some ht"
| "HeadTail_Writes (p # ps) ht = Option.bind (HeadTail_Write p ht) (HeadTail_Writes ps)"

definition headtail_ok :: "headtail \<Rightarrow> bool" where
  "headtail_ok ht \<longleftrightarrow> ring_ok (tail ht) \<and> length (head ht) = headSize ht \<and> headN ht \<le> headSize ht"

lemma HeadTail_Write_total:
  assumes "headtail_ok ht"
  shows "\<exists>ht'. HeadTail_Write p ht = Some ht' \<and> headtail_ok ht'
     \<and> headSize ht' = headSize ht \<and> Ring_Write p (tail ht) = Some (tail ht')
     \<and> HeadTail_Head ht' = take (headSize ht) (HeadTail_Head ht @ p)"
proof -
  obtain t where t: "Ring_Write p (tail ht) = Some t"
    using assms Ring_Write_total unfolding headtail_ok_def by blast
  with assms have "ring_ok t" unfolding headtail_ok_def by (blast dest: Ring_Write_SomeD)
  with t assms show ?thesis
    by (auto simp: HeadTail_Write_def headtail_ok_def HeadTail_Head_def go_copy_def go_copy_n_def
        Let_def min_def not_less)
qed

lemma HeadTail_Writes_total:
  assumes "headtail_ok ht"
  shows "\<exists>ht'. HeadTail_Writes ps ht = Some ht' \<and> headtail_ok ht'
     \<and> Ring_Writes ps (tail ht) = Some (tail ht')
     \<and> HeadTail_Head ht' = take (headSize ht) (HeadTail_Head ht @ concat ps)"
  using assms
proof (induction ps arbitrary: ht)
  case Nil
  then show ?case by (simp add: HeadTail_Head_def headtail_ok_def)
next
  case (Cons p ps)
  from HeadTail_Write_total [OF Cons.prems, of p] obtain ht1 where ht1:
    "HeadTail_Write p ht = Some ht1" "headtail_ok ht1" "headSize ht1 = headSize ht"
    "Ring_Write p (tail ht) = Some (tail ht1)"
    "HeadTail_Head ht1 = take (headSize ht) (HeadTail_Head ht @ p)" by blast
  from Cons.IH [OF ht1(2)] show ?case
    by (simp add: ht1 take_take_append del: take_append)
qed

section \<open>Properties\<close>

text \<open>A ring of positive capacity \<open>n\<close> accepts any sequence of writes, every write loop returns,
  and \<open>Bytes\<close> then yields exactly the last \<open>n\<close> bytes of everything written, oldest first.\<close>

lemma ring_keeps_last_bytes:
  assumes "0 < n" and "NewRing n = Inr rb"
  shows "\<exists>rb'. Ring_Writes ps rb = Some rb'
            \<and> fst (Ring_Bytes rb') = last_n (nat n) (concat ps)
            \<and> Ring_Len rb' = min (nat n) (length (concat ps))"
proof -
  from NewRing_ok [OF assms] have ok: "ring_ok rb" "size rb = nat n" "ring_contents rb = []" by auto
  from ring_sink.writes_total [OF ok(1), of ps] ok obtain rb' where rb':
    "Ring_Writes ps rb = Some rb'" "ring_ok rb'" "size rb' = nat n"
    "ring_contents rb' = last_n (nat n) (concat ps)"
    by (auto simp: Ring_Writes_sink)
  have "Ring_Len rb' = length (ring_contents rb')"
    using rb'(2) by (auto simp: Ring_Len_def ring_contents_def ring_ok_def)
  with rb' show ?thesis by (simp add: Ring_Bytes_fst)
qed

lemma ring_keeps_last_bytes_example:
  "\<exists>rb rb'. NewRing 4 = Inr rb \<and> Ring_Writes [''abc'', ''de''] rb = Some rb'
          \<and> fst (Ring_Bytes rb') = ''bcde''"
proof -
  obtain rb where rb: "NewRing 4 = Inr rb" by (simp add: NewRing_def)
  have "last_n 4 ''abcde'' = ''bcde''" by code_simp
  with ring_keeps_last_bytes [OF _ rb, of "[''abc'', ''de'']"] rb show ?thesis by auto
qed


text \<open>A \<open>HeadTail\<close> with a positive tail capacity returns from every write and holds the first
  \<open>headSize\<close> and the last \<open>tailSize\<close> bytes of the whole stream, however it was cut into chunks.\<close>

lemma headtail_keeps_both_ends:
  assumes "0 \<le> hs" and "0 < ts" and "NewHeadTail hs ts = Inr ht"
  shows "\<exists>ht'. HeadTail_Writes ps ht = Some ht'
            \<and> HeadTail_Head ht' = take (nat hs) (concat ps)
            \<and> fst (HeadTail_Tail ht') = last_n (nat ts) (concat ps)"
proof -
  from assms obtain r where r: "NewRing ts = Inr r"
    and ht: "ht = \<lparr>head = replicate (nat hs) (CHR 0x00), headN = 0, headSize = nat hs, tail = r\<rparr>"
    by (auto simp: NewHeadTail_def NewRing_def)
  from NewRing_ok [OF assms(2) r] have ok: "ring_ok r" "size r = nat ts" "ring_contents r = []" by auto
  from ok ht have "headtail_ok ht" "HeadTail_Head ht = []"
    by (auto simp: headtail_ok_def HeadTail_Head_def)
  with HeadTail_Writes_total [of ht ps] ht obtain ht' where ht':
    "HeadTail_Writes ps ht = Some ht'" "Ring_Writes ps r = Some (tail ht')"
    "headtail_ok ht'" "HeadTail_Head ht' = take (nat hs) (concat ps)" by auto
  from ring_sink.writes_total [OF ok(1), of ps] ok ht'(2)
  have "ring_contents (tail ht') = last_n (nat ts) (concat ps)" by (auto simp: Ring_Writes_sink)
  with ht'(3) have "fst (HeadTail_Tail ht') = last_n (nat ts) (concat ps)"
    by (simp add: HeadTail_Tail_def headtail_ok_def Ring_Bytes_fst split: prod.splits) (metis fst_conv Ring_Bytes_fst)
  with ht' show ?thesis by blast
qed

lemma headtail_keeps_both_ends_example:
  "\<exists>ht ht'. NewHeadTail 3 2 = Inr ht \<and> HeadTail_Writes [''abcd'', ''efg''] ht = Some ht'
          \<and> HeadTail_Head ht' = ''abc'' \<and> fst (HeadTail_Tail ht') = ''fg''"
proof -
  obtain ht where ht: "NewHeadTail 3 2 = Inr ht" by (simp add: NewHeadTail_def NewRing_def)
  have "last_n 2 ''abcdefg'' = ''fg''" "take 3 ''abcdefg'' = ''abc''" by code_simp+
  with headtail_keeps_both_ends [OF _ _ ht, of "[''abcd'', ''efg'']"] ht show ?thesis by auto
qed

text \<open>\<open>Bytes\<close> empties a full ring: once a ring that has wrapped has been read, a second read
  yields nothing, and the bytes written afterwards are all it holds; reading a ring that has not
  wrapped keeps its content.\<close>

lemma ring_bytes_drains_full:
  assumes "ring_ok rb"
  shows "fst (Ring_Bytes (snd (Ring_Bytes rb))) = (if full rb then [] else fst (Ring_Bytes rb))
       \<and> (\<exists>rb'. Ring_Write p (snd (Ring_Bytes rb)) = Some rb'
            \<and> fst (Ring_Bytes rb') = last_n (size rb) ((if full rb then [] else fst (Ring_Bytes rb)) @ p))"
proof -
  let ?b = "snd (Ring_Bytes rb)"
  from assms have ok: "ring_ok ?b" "size ?b = size rb" by (auto dest: Ring_Bytes_ok)
  from Ring_Write_total [OF ok(1), of p] obtain rb' where w: "Ring_Write p ?b = Some rb'" by blast
  note rb' = Ring_Write_SomeD [OF ok(1) w]
  have c: "ring_contents ?b = (if full rb then [] else ring_contents rb)"
    using assms by (rule ring_contents_after_Bytes)
  have "fst (Ring_Bytes ?b) = (if full rb then [] else fst (Ring_Bytes rb))"
    by (simp add: Ring_Bytes_fst ok(1) assms c)
  moreover have "fst (Ring_Bytes rb') = last_n (size rb) ((if full rb then [] else fst (Ring_Bytes rb)) @ p)"
    using rb' by (simp add: Ring_Bytes_fst assms c ok(2))
  ultimately show ?thesis using w by blast
qed

lemma ring_bytes_drains_full_example:
  "let rb = \<lparr>data = ''ebcd'', size = 4, pos = 1, full = True\<rparr>
   in fst (Ring_Bytes rb) = ''bcde'' \<and> fst (Ring_Bytes (snd (Ring_Bytes rb))) = []"
proof -
  let ?rb = "\<lparr>data = ''ebcd'', size = 4, pos = 1, full = True\<rparr>"
  have "ring_ok ?rb" by (simp add: ring_ok_def)
  from ring_bytes_drains_full [OF this] have "fst (Ring_Bytes (snd (Ring_Bytes ?rb))) = []" by simp
  moreover have "fst (Ring_Bytes ?rb) = ''bcde''" by code_simp
  ultimately show ?thesis by (simp only: Let_def)
qed

text \<open>With capacity zero the write loop never returns on a non-empty slice.\<close>

lemma ring_zero_capacity_diverges:
  assumes "NewRing 0 = Inr rb" and "p \<noteq> []"
  shows "Ring_Write p rb = None"
proof (rule ccontr)
  assume "Ring_Write p rb \<noteq> None"
  then obtain r where "Ring_Write p rb = Some r" by blast
  then have "data rb \<noteq> [] \<or> p = []"
  proof (rule Ring_Write.raw_induct [where P = "\<lambda>p rb _. data rb \<noteq> [] \<or> p = []", rotated])
    fix f p rb r
    assume IH: "\<And>p rb r. f p rb = Some r \<Longrightarrow> data rb \<noteq> [] \<or> p = []"
      and eq: "(if 0 < length p then f (fst (Ring_Write_body p rb)) (snd (Ring_Write_body p rb))
                else Some rb) = Some r"
    show "data rb \<noteq> [] \<or> p = []"
    proof (cases "data rb = []")
      case True
      then have "fst (Ring_Write_body p rb) = p" "data (snd (Ring_Write_body p rb)) = []"
        by (simp_all add: Ring_Write_body_def Let_def go_copy_def go_copy_n_def)
      with IH [of "fst (Ring_Write_body p rb)" "snd (Ring_Write_body p rb)" r] eq show ?thesis
        by (cases "p = []") simp_all
    qed simp
  qed
  with assms show False by (auto simp: NewRing_def)
qed

lemma ring_zero_capacity_diverges_example:
  "\<exists>rb. NewRing 0 = Inr rb \<and> Ring_Write ''a'' rb = None"
proof -
  obtain rb where rb: "NewRing 0 = Inr rb" by (simp add: NewRing_def)
  then show ?thesis using ring_zero_capacity_diverges [OF rb, of "''a''"] by auto
qed

end
