(* ===== verification/Background_Group.thy ===== *)
theory Background_Group
  imports Transit_Prelude
begin

text \<open>
  Background goroutines with a common lifecycle: \<open>Group\<close> (\<^verbatim>\<open>src/up/group.go\<close>), \<open>ClusterGroup\<close>
  (\<^verbatim>\<open>src/up/cluster_group.go\<close>) and \<open>RunRetry\<close> (\<^verbatim>\<open>src/up/watch.go\<close>). The actors, the goroutine that
  waits for the first of them to finish, and the callers of \<open>Stop\<close> interleave: a state says how far
  each of them is, and an operation is split where another goroutine can run in between. \<open>Start\<close> is one
  step: the goroutines it launches touch nothing the rest of its loop reads.
\<close>

section \<open>Actors and groups\<close>

text \<open>An actor of \<open>Add\<close> has its own stop function; that of \<open>AddGoroutine\<close> is empty.\<close>

datatype 'f groupActor = Actor 'f | CtxActor 'f

text \<open>How \<open>execute\<close> ends; \<open>groupWrapPanic\<close> turns a panic into an error.\<close>

datatype exec_end = Returns "string option" | Panics string string

fun groupWrapPanic :: "exec_end \<Rightarrow> string option" where
  "groupWrapPanic (Returns err) = err"
| "groupWrapPanic (Panics r stack) = Some (''panic: '' @ r @ [CHR 0x0A] @ take 4096 stack)"

text \<open>The goroutine of an actor: in \<open>execute\<close>, after it, after the send on \<open>errc\<close>, after \<open>wg.Done\<close>.\<close>

datatype actor_phase = Executing | Executed "string option" | Signalled | Exited

text \<open>The goroutine that waits on \<open>errc\<close>: waiting, about to call \<open>Stop\<close>, inside it, gone.\<close>

datatype watcher_phase = WaitErr | CallsStop | InStop | WatcherExited

record launch =
  phases :: "actor_phase list"
  signals :: nat
  watcher :: watcher_phase

text \<open>The \<open>sync.Once\<close> of \<open>Stop\<close>: not entered, calling the stop functions, in \<open>wg.Wait\<close>, over.\<close>

datatype 'f once_phase = OnceFree | OnceStopping "'f groupActor list" | OnceWaiting | OnceDone

record 'f group =
  actors :: "'f groupActor list"
  ctx_done :: bool
  once :: "'f once_phase"
  launches :: "launch list"
  stop_calls :: "'f groupActor list"
  callers :: nat
  returned :: nat

definition NewGroup :: "'f group" where
  "NewGroup = \<lparr>actors = [], ctx_done = False, once = OnceFree, launches = [], stop_calls = [], callers = 0, returned = 0\<rparr>"

definition Group_Add :: "'f groupActor \<Rightarrow> 'f group \<Rightarrow> 'f group" where
  "Group_Add a g = g\<lparr>actors := actors g @ [a]\<rparr>"

definition AddGoroutine :: "'f \<Rightarrow> 'f group \<Rightarrow> 'f group" where
  "AddGoroutine fn g = Group_Add (CtxActor fn) g"

definition Group_Start :: "'f group \<Rightarrow> 'f group" where
  "Group_Start g =
     (if actors g = [] then g
      else g\<lparr>launches := launches g @
               [\<lparr>phases = replicate (length (actors g)) Executing, signals = 0, watcher = WaitErr\<rparr>]\<rparr>)"

definition wg_count :: "'f group \<Rightarrow> nat" where
  "wg_count g = (\<Sum>l\<leftarrow>launches g. length (filter (\<lambda>p. p \<noteq> Exited) (phases l)))"

section \<open>Steps\<close>

definition on_launch :: "nat \<Rightarrow> (launch \<Rightarrow> launch) \<Rightarrow> 'f group \<Rightarrow> 'f group" where
  "on_launch j f g = g\<lparr>launches := (launches g)[j := f (launches g ! j)]\<rparr>"

definition actor_phase_of :: "nat \<Rightarrow> nat \<Rightarrow> 'f group \<Rightarrow> actor_phase option" where
  "actor_phase_of j i g =
     (if j < length (launches g) \<and> i < length (phases (launches g ! j)) then Some (phases (launches g ! j) ! i) else None)"

definition actor_returns :: "nat \<Rightarrow> nat \<Rightarrow> exec_end \<Rightarrow> 'f group \<Rightarrow> 'f group" where
  "actor_returns j i r = on_launch j (\<lambda>l. l\<lparr>phases := (phases l)[i := Executed (groupWrapPanic r)]\<rparr>)"

definition errc_send :: "nat \<Rightarrow> nat \<Rightarrow> 'f group \<Rightarrow> 'f group" where
  "errc_send j i = on_launch j (\<lambda>l. l\<lparr>phases := (phases l)[i := Signalled], signals := Suc (signals l)\<rparr>)"

definition wg_Done :: "nat \<Rightarrow> nat \<Rightarrow> 'f group \<Rightarrow> 'f group" where
  "wg_Done j i = on_launch j (\<lambda>l. l\<lparr>phases := (phases l)[i := Exited]\<rparr>)"

definition errc_receive :: "nat \<Rightarrow> 'f group \<Rightarrow> 'f group" where
  "errc_receive j = on_launch j (\<lambda>l. l\<lparr>signals := signals l - 1, watcher := CallsStop\<rparr>)"

text \<open>\<open>once.Do\<close>: the first caller cancels the context and starts on the stop functions.\<close>

definition once_enter :: "'f group \<Rightarrow> 'f group" where
  "once_enter g = (if once g = OnceFree then g\<lparr>ctx_done := True, once := OnceStopping (actors g)\<rparr> else g)"

definition once_next :: "'f group \<Rightarrow> 'f group option" where
  "once_next g =
     (case once g of
        OnceStopping (a # as) \<Rightarrow> Some (g\<lparr>once := OnceStopping as, stop_calls := stop_calls g @ [a]\<rparr>)
      | OnceStopping [] \<Rightarrow> Some (g\<lparr>once := OnceWaiting\<rparr>)
      | OnceWaiting \<Rightarrow> if wg_count g = 0 then Some (g\<lparr>once := OnceDone\<rparr>) else None
      | _ \<Rightarrow> None)"

text \<open>A caller of \<open>Stop\<close> from outside, and its return.\<close>

definition Stop_call :: "'f group \<Rightarrow> 'f group" where
  "Stop_call g = (once_enter g)\<lparr>callers := Suc (callers g)\<rparr>"

definition Stop_returns :: "'f group \<Rightarrow> 'f group option" where
  "Stop_returns g =
     (if once g = OnceDone \<and> 0 < callers g then Some (g\<lparr>callers := callers g - 1, returned := Suc (returned g)\<rparr>) else None)"

definition watcher_stops :: "nat \<Rightarrow> 'f group \<Rightarrow> 'f group" where
  "watcher_stops j g = on_launch j (\<lambda>l. l\<lparr>watcher := InStop\<rparr>) (once_enter g)"

definition watcher_exits :: "nat \<Rightarrow> 'f group \<Rightarrow> 'f group" where
  "watcher_exits j = on_launch j (\<lambda>l. l\<lparr>watcher := WatcherExited\<rparr>)"

text \<open>A send on \<open>errc\<close> needs room in its buffer, one slot per actor.\<close>

inductive group_step :: "'f group \<Rightarrow> 'f group \<Rightarrow> bool" where
  execute: "actor_phase_of j i g = Some Executing \<Longrightarrow> group_step g (actor_returns j i r g)"
| send: "actor_phase_of j i g = Some (Executed err) \<Longrightarrow> signals (launches g ! j) < length (phases (launches g ! j)) \<Longrightarrow>
    group_step g (errc_send j i g)"
| finish: "actor_phase_of j i g = Some Signalled \<Longrightarrow> group_step g (wg_Done j i g)"
| receive: "j < length (launches g) \<Longrightarrow> watcher (launches g ! j) = WaitErr \<Longrightarrow> 0 < signals (launches g ! j) \<Longrightarrow>
    group_step g (errc_receive j g)"
| watch_stop: "j < length (launches g) \<Longrightarrow> watcher (launches g ! j) = CallsStop \<Longrightarrow> group_step g (watcher_stops j g)"
| watch_exit: "j < length (launches g) \<Longrightarrow> watcher (launches g ! j) = InStop \<Longrightarrow> once g = OnceDone \<Longrightarrow>
    group_step g (watcher_exits j g)"
| once_step: "once_next g = Some g' \<Longrightarrow> group_step g g'"
| return: "Stop_returns g = Some g' \<Longrightarrow> group_step g g'"

text \<open>A started group, with calls of \<open>Stop\<close> from outside at any time.\<close>

inductive group_run :: "'f group \<Rightarrow> 'f group \<Rightarrow> bool" where
  group_refl: "group_run g g"
| group_more: "group_run g g' \<Longrightarrow> group_step g' g'' \<Longrightarrow> group_run g g''"
| group_call: "group_run g g' \<Longrightarrow> group_run g (Stop_call g')"

definition started :: "'f groupActor list \<Rightarrow> 'f group" where
  "started as = Group_Start (foldl (\<lambda>g a. Group_Add a g) NewGroup as)"

section \<open>Invariant\<close>

definition signalled :: "actor_phase \<Rightarrow> bool" where
  "signalled p \<longleftrightarrow> p = Signalled \<or> p = Exited"

text \<open>
  Every actor past its send is either buffered in \<open>errc\<close> or was the one received, so the buffer never
  overflows; the waiting goroutine is inside \<open>Stop\<close> only once it has been entered.
\<close>

definition launch_inv :: "nat \<Rightarrow> 'f once_phase \<Rightarrow> launch \<Rightarrow> bool" where
  "launch_inv n ph l \<longleftrightarrow>
     length (phases l) = n \<and>
     signals l + of_bool (watcher l \<noteq> WaitErr) = length (filter signalled (phases l)) \<and>
     (watcher l \<in> {InStop, WatcherExited} \<longrightarrow> ph \<noteq> OnceFree)"

fun once_inv :: "'f groupActor list \<Rightarrow> 'f group \<Rightarrow> 'f once_phase \<Rightarrow> bool" where
  "once_inv as g OnceFree \<longleftrightarrow> \<not> ctx_done g \<and> stop_calls g = [] \<and> callers g = 0 \<and> returned g = 0"
| "once_inv as g (OnceStopping rest) \<longleftrightarrow> ctx_done g \<and> stop_calls g @ rest = as \<and> returned g = 0"
| "once_inv as g OnceWaiting \<longleftrightarrow> ctx_done g \<and> stop_calls g = as \<and> returned g = 0"
| "once_inv as g OnceDone \<longleftrightarrow> ctx_done g \<and> stop_calls g = as \<and> wg_count g = 0"

definition group_inv :: "nat \<Rightarrow> 'f groupActor list \<Rightarrow> 'f group \<Rightarrow> bool" where
  "group_inv n as g \<longleftrightarrow> actors g = as \<and> length (launches g) = n \<and> (as = [] \<longrightarrow> n = 0) \<and>
     (\<forall>l \<in> set (launches g). launch_inv (length as) (once g) l) \<and> once_inv as g (once g)"

lemma wg_count_zero: "wg_count g = 0 \<longleftrightarrow> (\<forall>l \<in> set (launches g). \<forall>p \<in> set (phases l). p = Exited)"
  by (auto simp: wg_count_def filter_empty_conv)

lemma adds: "foldl (\<lambda>g a. Group_Add a g) g as = g\<lparr>actors := actors g @ as\<rparr>"
  by (induction as arbitrary: g) (simp_all add: Group_Add_def)

lemma started_inv: "group_inv (of_bool (as \<noteq> [])) as (started as)"
  by (simp add: started_def adds Group_Start_def NewGroup_def group_inv_def launch_inv_def signalled_def
      filter_empty_conv)

lemma once_enter_inv: "group_inv n as g \<Longrightarrow> group_inv n as (once_enter g)"
  by (auto simp: group_inv_def once_enter_def launch_inv_def)

lemma on_launch_sel [simp]:
  "actors (on_launch j f g) = actors g" "ctx_done (on_launch j f g) = ctx_done g" "once (on_launch j f g) = once g"
  "stop_calls (on_launch j f g) = stop_calls g" "callers (on_launch j f g) = callers g"
  "returned (on_launch j f g) = returned g"
  by (simp_all add: on_launch_def)

text \<open>A step of one goroutine keeps the invariant when it keeps that of its launch and revives no actor.\<close>

lemma on_launch_inv:
  assumes "group_inv n as g" "j < length (launches g)"
    and "launch_inv (length as) (once g) (f (launches g ! j))"
    and "(\<forall>p \<in> set (phases (launches g ! j)). p = Exited) \<longrightarrow> (\<forall>p \<in> set (phases (f (launches g ! j))). p = Exited)"
  shows "group_inv n as (on_launch j f g)"
proof -
  have sub: "set (launches (on_launch j f g)) \<subseteq> insert (f (launches g ! j)) (set (launches g))"
    by (simp add: on_launch_def set_update_subset_insert)
  have "wg_count g = 0 \<Longrightarrow> wg_count (on_launch j f g) = 0"
    using sub assms(2,4) by (force simp: wg_count_zero)
  then have "once_inv as g (once g) \<Longrightarrow> once_inv as (on_launch j f g) (once g)"
    by (cases "once g") simp_all
  with assms sub show ?thesis
    by (auto simp: group_inv_def on_launch_def)
qed

lemma filter_update_length:
  "i < length xs \<Longrightarrow> length (filter P (xs[i := x])) + of_bool (P (xs ! i)) = length (filter P xs) + of_bool (P x)"
proof (induction xs arbitrary: i)
  case (Cons y ys)
  then show ?case using Cons.IH [of "i - 1"] by (cases i) auto
qed simp

lemma launch_inv_phase:
  assumes "launch_inv n ph l" "i < length (phases l)" "\<not> signalled (phases l ! i)"
  shows "\<not> signalled p \<Longrightarrow> launch_inv n ph (l\<lparr>phases := (phases l)[i := p]\<rparr>)"
    and "signalled p \<Longrightarrow> launch_inv n ph (l\<lparr>phases := (phases l)[i := p], signals := Suc (signals l)\<rparr>)"
  using assms filter_update_length [of i "phases l" signalled p] by (auto simp: launch_inv_def)

lemma launch_inv_exit:
  assumes "launch_inv n ph l" "i < length (phases l)" "phases l ! i = Signalled"
  shows "launch_inv n ph (l\<lparr>phases := (phases l)[i := Exited]\<rparr>)"
  using assms filter_update_length [of i "phases l" signalled Exited]
  by (auto simp: launch_inv_def signalled_def)

lemma actor_phase_ofD:
  assumes "actor_phase_of j i g = Some p"
  shows "j < length (launches g)" "i < length (phases (launches g ! j))" "phases (launches g ! j) ! i = p"
  using assms by (auto simp: actor_phase_of_def split: if_splits)

lemma group_inv_launch: "group_inv n as g \<Longrightarrow> j < length (launches g) \<Longrightarrow> launch_inv (length as) (once g) (launches g ! j)"
  by (simp add: group_inv_def)

lemma launch_inv_entered: "launch_inv n ph l \<Longrightarrow> ph' \<noteq> OnceFree \<Longrightarrow> launch_inv n ph' l"
  by (simp add: launch_inv_def)

lemma once_next_inv: "group_inv n as g \<Longrightarrow> once_next g = Some g' \<Longrightarrow> group_inv n as g'"
  by (fastforce simp: once_next_def group_inv_def wg_count_def intro: launch_inv_entered
      split: once_phase.splits list.splits if_splits)

lemma group_step_inv: "group_step g g' \<Longrightarrow> group_inv n as g \<Longrightarrow> group_inv n as g'"
proof (induction rule: group_step.induct)
  case (execute j i g r)
  note p = actor_phase_ofD [OF execute(1)]
  show ?case unfolding actor_returns_def
    by (rule on_launch_inv [OF execute(2) p(1)])
       (use launch_inv_phase(1) [OF group_inv_launch [OF execute(2) p(1)] p(2)] nth_mem [OF p(2)] p(3) in
        \<open>auto simp: signalled_def\<close>)
next
  case (send j i g err)
  note p = actor_phase_ofD [OF send(1)]
  show ?case unfolding errc_send_def
    by (rule on_launch_inv [OF send(3) p(1)])
       (use launch_inv_phase(2) [OF group_inv_launch [OF send(3) p(1)] p(2)] nth_mem [OF p(2)] p(3) in
        \<open>auto simp: signalled_def\<close>)
next
  case (finish j i g)
  note p = actor_phase_ofD [OF finish(1)]
  show ?case unfolding wg_Done_def
    by (rule on_launch_inv [OF finish(2) p(1)])
       (use launch_inv_exit [OF group_inv_launch [OF finish(2) p(1)] p(2,3)] nth_mem [OF p(2)] p(3) in auto)
next
  case (receive j g)
  show ?case unfolding errc_receive_def
    by (rule on_launch_inv [OF receive(4,1)])
       (use group_inv_launch [OF receive(4,1)] receive in \<open>auto simp: launch_inv_def\<close>)
next
  case (watch_stop j g)
  have j: "j < length (launches (once_enter g))" "launches (once_enter g) = launches g"
    using watch_stop by (simp_all add: once_enter_def)
  show ?case unfolding watcher_stops_def
    by (rule on_launch_inv [OF once_enter_inv [OF watch_stop(3)] j(1)])
       (use group_inv_launch [OF watch_stop(3,1)] watch_stop j in \<open>auto simp: launch_inv_def once_enter_def\<close>)
next
  case (watch_exit j g)
  show ?case unfolding watcher_exits_def
    by (rule on_launch_inv [OF watch_exit(4,1)])
       (use group_inv_launch [OF watch_exit(4,1)] watch_exit in \<open>auto simp: launch_inv_def\<close>)
next
  case (once_step g g')
  then show ?case by (blast intro: once_next_inv)
next
  case (return g g')
  then show ?case by (auto simp: Stop_returns_def group_inv_def wg_count_def split: if_splits)
qed

lemma Stop_call_inv: "group_inv n as g \<Longrightarrow> group_inv n as (Stop_call g)"
  using once_enter_inv [of n as g]
  by (cases "once (once_enter g)") (auto simp: Stop_call_def group_inv_def wg_count_def once_enter_def split: if_splits)

lemma group_run_inv: "group_run g g' \<Longrightarrow> group_inv n as g \<Longrightarrow> group_inv n as g'"
  by (induction rule: group_run.induct) (blast intro: group_step_inv Stop_call_inv)+

text \<open>A further \<open>Start\<close>, as a second load of the filter configuration makes it, adds a launch of every actor.\<close>

lemma Group_Start_inv:
  assumes "group_inv n as g" "once g = OnceFree" "as \<noteq> []"
  shows "group_inv (Suc n) as (Group_Start g)"
  using assms
  by (auto simp: group_inv_def Group_Start_def launch_inv_def signalled_def filter_empty_conv)

section \<open>Progress\<close>

fun phase_weight :: "actor_phase \<Rightarrow> nat" where
  "phase_weight Executing = 3" | "phase_weight (Executed err) = 2" | "phase_weight Signalled = 1" | "phase_weight Exited = 0"

fun watcher_weight :: "watcher_phase \<Rightarrow> nat" where
  "watcher_weight WaitErr = 3" | "watcher_weight CallsStop = 2" | "watcher_weight InStop = 1" | "watcher_weight WatcherExited = 0"

fun once_weight :: "nat \<Rightarrow> 'f once_phase \<Rightarrow> nat" where
  "once_weight n OnceFree = n + 3" | "once_weight n (OnceStopping rest) = length rest + 2"
| "once_weight n OnceWaiting = 1" | "once_weight n OnceDone = 0"

definition launch_weight :: "launch \<Rightarrow> nat" where
  "launch_weight l = (\<Sum>p\<leftarrow>phases l. phase_weight p) + watcher_weight (watcher l)"

definition group_weight :: "'f group \<Rightarrow> nat" where
  "group_weight g = once_weight (length (actors g)) (once g) + callers g + (\<Sum>l\<leftarrow>launches g. launch_weight l)"

lemma sum_update_less:
  assumes "j < length xs" "w (y :: 'a) < w (xs ! j)"
  shows "(\<Sum>x\<leftarrow>xs[j := y]. w x) < (\<Sum>x\<leftarrow>xs. w x :: nat)"
  using assms elem_le_sum_list [of j "map w xs"] by (simp add: map_update sum_list_update)

lemma on_launch_less:
  assumes "j < length (launches g)" "launch_weight (f (launches g ! j)) < launch_weight (launches g ! j)"
  shows "group_weight (on_launch j f g) < group_weight g"
  using sum_update_less [OF assms(1), of launch_weight, OF assms(2)] by (simp add: group_weight_def on_launch_def)

lemma phase_less:
  assumes "i < length (phases l)" "phase_weight p < phase_weight (phases l ! i)"
  shows "launch_weight (l\<lparr>phases := (phases l)[i := p]\<rparr>) < launch_weight l"
    "launch_weight (l\<lparr>phases := (phases l)[i := p], signals := n\<rparr>) < launch_weight l"
  using sum_update_less [OF assms(1), of phase_weight, OF assms(2)] by (simp_all add: launch_weight_def)

lemma once_enter_weight: "group_weight (once_enter g) \<le> group_weight g"
  by (simp add: group_weight_def once_enter_def)

lemma group_step_less: "group_step g g' \<Longrightarrow> group_weight g' < group_weight g"
proof (induction rule: group_step.induct)
  case (execute j i g r)
  from actor_phase_ofD [OF execute] show ?case
    unfolding actor_returns_def by (simp add: on_launch_less phase_less)
next
  case (send j i g err)
  from actor_phase_ofD [OF send(1)] show ?case
    unfolding errc_send_def by (simp add: on_launch_less phase_less)
next
  case (finish j i g)
  from actor_phase_ofD [OF finish] show ?case
    unfolding wg_Done_def by (simp add: on_launch_less phase_less)
next
  case (receive j g)
  then show ?case unfolding errc_receive_def by (intro on_launch_less) (simp_all add: launch_weight_def)
next
  case (watch_stop j g)
  then have "group_weight (watcher_stops j g) < group_weight (once_enter g)"
    unfolding watcher_stops_def by (intro on_launch_less) (simp_all add: launch_weight_def once_enter_def)
  also have "\<dots> \<le> group_weight g" by (rule once_enter_weight)
  finally show ?case .
next
  case (watch_exit j g)
  then show ?case unfolding watcher_exits_def by (intro on_launch_less) (simp_all add: launch_weight_def)
next
  case (once_step g g')
  then show ?case
    by (auto simp: once_next_def group_weight_def split: once_phase.splits list.splits if_splits)
next
  case (return g g')
  then show ?case by (auto simp: Stop_returns_def group_weight_def split: if_splits)
qed

text \<open>Where nothing can move, every actor has exited, which has made the waiting goroutine stop the group.\<close>

lemma stuck_phases:
  assumes "group_inv n as g" "\<nexists>g'. group_step g g'" "l \<in> set (launches g)" "p \<in> set (phases l)"
  shows "p = Exited"
proof -
  from assms(3) obtain j where j: "j < length (launches g)" "l = launches g ! j" by (metis in_set_conv_nth)
  from assms(4) obtain i where i: "i < length (phases l)" "p = phases l ! i" by (metis in_set_conv_nth)
  have at: "actor_phase_of j i g = Some p" using i j by (simp add: actor_phase_of_def)
  show ?thesis
  proof (cases p)
    case (Executed err)
    have "length (filter signalled (phases l)) < length (phases l)"
      using i Executed by (intro length_filter_less [of p]) (auto simp: signalled_def)
    with group_inv_launch [OF assms(1) j(1)] j have "signals l < length (phases l)" by (simp add: launch_inv_def)
    with at Executed j assms(2) show ?thesis by (metis group_step.send)
  qed (use at assms(2) in \<open>metis group_step.execute group_step.finish\<close>)+
qed

lemma stuck_once:
  assumes "group_inv n as g" "\<nexists>g'. group_step g g'" "once g \<noteq> OnceFree"
  shows "once g = OnceDone"
proof -
  have "wg_count g = 0" using stuck_phases [OF assms(1,2)] by (auto simp: wg_count_zero)
  moreover have "once_next g = None" using assms(2) group_step.once_step by (cases "once_next g") auto
  ultimately show ?thesis
    using assms(3) by (auto simp: once_next_def split: once_phase.splits list.splits)
qed

lemma stuck_watcher:
  assumes "group_inv n as g" "\<nexists>g'. group_step g g'" "l \<in> set (launches g)"
  shows "watcher l = WatcherExited"
proof -
  from assms(3) obtain j where j: "j < length (launches g)" "l = launches g ! j" by (metis in_set_conv_nth)
  have inv: "launch_inv (length as) (once g) l" using group_inv_launch [OF assms(1) j(1)] j by simp
  have ex: "\<forall>p \<in> set (phases l). p = Exited" using stuck_phases [OF assms] by blast
  then have "filter signalled (phases l) = phases l" by (simp add: signalled_def filter_id_conv)
  moreover have "as \<noteq> []" using assms(1) j by (auto simp: group_inv_def)
  ultimately have sig: "watcher l = WaitErr \<Longrightarrow> 0 < signals l" using inv by (auto simp: launch_inv_def)
  have "once g = OnceDone" if "once g \<noteq> OnceFree"
    using stuck_once [OF assms(1,2) that] .
  with inv sig j assms(2) show ?thesis
    by (cases "watcher l") (auto simp: launch_inv_def dest: group_step.receive group_step.watch_stop group_step.watch_exit)
qed

section \<open>ClusterGroup\<close>

record 'f cluster_group =
  cg_g :: "'f group option"
  cg_pending :: "'f list"

definition new_cluster_group :: "'f cluster_group" where
  "new_cluster_group = \<lparr>cg_g = None, cg_pending = []\<rparr>"

definition cg_Go :: "'f \<Rightarrow> 'f cluster_group \<Rightarrow> 'f cluster_group outcome" where
  "cg_Go fn cg =
     (if cg_g cg \<noteq> None then Inl (Panic ''up: ClusterGroup.Go called after Start'')
      else Inr (cg\<lparr>cg_pending := cg_pending cg @ [fn]\<rparr>))"

definition cg_Start :: "'f cluster_group \<Rightarrow> 'f cluster_group" where
  "cg_Start cg =
     (if cg_g cg \<noteq> None \<or> cg_pending cg = [] then cg
      else \<lparr>cg_g = Some (Group_Start (foldl (\<lambda>g fn. AddGoroutine fn g) NewGroup (cg_pending cg))), cg_pending = []\<rparr>)"

text \<open>\<open>Stop\<close> reads the group under the mutex and calls its \<open>Stop\<close> outside; without a group it returns at once.\<close>

definition cg_Stop :: "'f cluster_group \<Rightarrow> 'f cluster_group" where
  "cg_Stop cg = cg\<lparr>cg_g := map_option Stop_call (cg_g cg)\<rparr>"

inductive cg_run :: "'f list \<Rightarrow> 'f cluster_group \<Rightarrow> bool" where
  cg_new: "cg_run [] new_cluster_group"
| cg_go: "cg_run fs cg \<Longrightarrow> cg_Go fn cg = Inr cg' \<Longrightarrow> cg_run (fs @ [fn]) cg'"
| cg_start: "cg_run fs cg \<Longrightarrow> cg_run fs (cg_Start cg)"
| cg_stop: "cg_run fs cg \<Longrightarrow> cg_run fs (cg_Stop cg)"
| cg_inner: "cg_run fs cg \<Longrightarrow> cg_g cg = Some g \<Longrightarrow> group_step g g' \<Longrightarrow> cg_run fs (cg\<lparr>cg_g := Some g'\<rparr>)"

lemma AddGoroutines: "foldl (\<lambda>g fn. AddGoroutine fn g) g fs = foldl (\<lambda>g a. Group_Add a g) g (map CtxActor fs)"
  by (induction fs arbitrary: g) (simp_all add: AddGoroutine_def)

text \<open>The registered functions are pending, or are the actors of a group that was started once.\<close>

lemma cg_run_inv:
  "cg_run fs cg \<Longrightarrow>
     (case cg_g cg of
        None \<Rightarrow> cg_pending cg = fs
      | Some g \<Rightarrow> cg_pending cg = [] \<and> fs \<noteq> [] \<and> group_run (started (map CtxActor fs)) g)"
proof (induction rule: cg_run.induct)
  case (cg_start fs cg)
  then show ?case
    by (auto simp: cg_Start_def started_def AddGoroutines intro: group_refl split: option.splits)
next
  case (cg_stop fs cg)
  then show ?case by (auto simp: cg_Stop_def intro: group_call split: option.splits)
next
  case (cg_inner fs cg g g')
  then show ?case by (auto intro: group_more)
qed (auto simp: new_cluster_group_def cg_Go_def split: option.splits if_splits)

section \<open>RunRetry\<close>

text \<open>
  Iteration \<open>i\<close> gives the error of \<open>fn\<close> and whether the context is cancelled at the two reads of
  \<open>ctx.Err()\<close>. The result is the number of calls of \<open>fn\<close> and the logged errors; \<open>None\<close> when the loop
  never ends.
\<close>

partial_function (option) RunRetry :: "(nat \<Rightarrow> string option \<times> bool \<times> bool) \<Rightarrow> nat \<Rightarrow> string list \<Rightarrow> (nat \<times> string list) option" where
  "RunRetry it i logged =
     (case it i of (err, c1, c2) \<Rightarrow>
        let logged = (case err of Some e \<Rightarrow> if c1 then logged else logged @ [e] | None \<Rightarrow> logged)
        in if c2 then Some (Suc i, logged) else RunRetry it (Suc i) logged)"

definition retry_log :: "(nat \<Rightarrow> string option \<times> bool \<times> bool) \<Rightarrow> nat \<Rightarrow> string list" where
  "retry_log it i = (case it i of (Some e, False, c2) \<Rightarrow> [e] | _ \<Rightarrow> [])"

abbreviation cancelled_at :: "(nat \<Rightarrow> string option \<times> bool \<times> bool) \<Rightarrow> nat \<Rightarrow> bool" where
  "cancelled_at it i \<equiv> snd (snd (it i))"

lemma RunRetry_step:
  "RunRetry it i logged =
     (if cancelled_at it i then Some (Suc i, logged @ retry_log it i) else RunRetry it (Suc i) (logged @ retry_log it i))"
  by (subst RunRetry.simps) (auto simp: retry_log_def Let_def split: prod.splits option.splits bool.splits)

lemma RunRetry_until:
  assumes "\<And>m. i \<le> m \<Longrightarrow> m < i + n \<Longrightarrow> \<not> cancelled_at it m" "cancelled_at it (i + n)"
  shows "RunRetry it i logged = Some (Suc (i + n), logged @ concat (map (retry_log it) [i..<Suc (i + n)]))"
  using assms
proof (induction n arbitrary: i logged)
  case 0
  then show ?case by (subst RunRetry_step) simp
next
  case (Suc n)
  have "\<not> cancelled_at it i" using Suc.prems(1) [of i] by simp
  then have "RunRetry it i logged = RunRetry it (Suc i) (logged @ retry_log it i)" by (subst RunRetry_step) simp
  also have "\<dots> = Some (Suc (Suc i + n), (logged @ retry_log it i) @ concat (map (retry_log it) [Suc i..<Suc (Suc i + n)]))"
    by (rule Suc.IH) (use Suc.prems in auto)
  finally show ?case using upt_conv_Cons [of i "Suc (i + Suc n)"] by simp
qed

lemma RunRetry_returns: "RunRetry it i logged = Some r \<Longrightarrow> \<exists>n. cancelled_at it n"
  by (rule RunRetry.raw_induct [where P = "\<lambda>it _ _ _. \<exists>n. cancelled_at it n", rotated])
     (auto simp: Let_def split: prod.splits if_splits, metis snd_conv)

section \<open>Properties\<close>

text \<open>C25. When a \<open>Stop\<close> of a cluster group has returned, every function passed to \<open>Go\<close> has been
  launched and has exited, its context was cancelled, the stop function of each actor was called exactly
  once in order, and a further \<open>Go\<close> panics. This holds in every interleaving of \<open>Go\<close>, \<open>Start\<close>, \<open>Stop\<close>
  and the goroutines.\<close>

theorem cluster_group_stop_waits:
  assumes "cg_run fs cg" "cg_g cg = Some g" "0 < returned g"
  shows "ctx_done g \<and> stop_calls g = map CtxActor fs \<and>
    (\<exists>l. launches g = [l] \<and> phases l = replicate (length fs) Exited) \<and>
    cg_Go fn cg = Inl (Panic ''up: ClusterGroup.Go called after Start'')"
proof -
  from cg_run_inv [OF assms(1)] assms(2) have fs: "fs \<noteq> []" and run: "group_run (started (map CtxActor fs)) g" by auto
  have inv: "group_inv 1 (map CtxActor fs) g" using group_run_inv [OF run started_inv] fs by simp
  with assms(3) have once: "once g = OnceDone" by (cases "once g") (auto simp: group_inv_def)
  from inv fs obtain l where l: "launches g = [l]" by (auto simp: group_inv_def length_Suc_conv)
  have "wg_count g = 0" using inv once by (simp add: group_inv_def)
  then have "phases l = replicate (length fs) Exited"
    using inv l by (intro replicate_eqI) (auto simp: wg_count_zero group_inv_def launch_inv_def)
  with inv once l assms(2) show ?thesis by (auto simp: group_inv_def cg_Go_def)
qed

definition demo_stopped :: "nat group" where
  "demo_stopped = the (Stop_returns (the (once_next (the (once_next (the (once_next
     (wg_Done 0 0 (errc_send 0 0 (actor_returns 0 0 (Panics ''boom'' '''') (Stop_call (started [CtxActor 7]))))))))))))"

lemma group_step_the:
  "once_next g \<noteq> None \<Longrightarrow> group_step g (the (once_next g))"
  "Stop_returns g \<noteq> None \<Longrightarrow> group_step g (the (Stop_returns g))"
  by (auto intro: once_step group_step.return)

lemma demo_stopped_run: "group_run (started [CtxActor 7]) demo_stopped"
  unfolding demo_stopped_def
  by (rule group_more [OF group_more [OF group_more [OF group_more [OF group_more [OF group_more [OF group_more
        [OF group_call [OF group_refl] execute] send] finish] group_step_the(1)] group_step_the(1)] group_step_the(1)]
        group_step_the(2)]) code_simp+

lemma cg_run_inner:
  "group_run g g' \<Longrightarrow> cg_run fs cg \<Longrightarrow> cg_g cg = Some g \<Longrightarrow> cg_run fs (cg\<lparr>cg_g := Some g'\<rparr>)"
proof (induction rule: group_run.induct)
  case (group_refl g)
  then show ?case by (metis (full_types) cluster_group.surjective cluster_group.update_convs(1))
next
  case (group_more g g' g'')
  then show ?case using cg_inner [of fs "cg\<lparr>cg_g := Some g'\<rparr>" g' g''] by simp
next
  case (group_call g g')
  then show ?case using cg_stop [of fs "cg\<lparr>cg_g := Some g'\<rparr>"] by (simp add: cg_Stop_def)
qed

theorem cluster_group_stop_waits_witness:
  "returned demo_stopped = 1 \<and> stop_calls demo_stopped = [CtxActor 7] \<and>
     (\<exists>l. launches demo_stopped = [l] \<and> phases l = [Exited])"
proof -
  define cg where "cg = cg_Start (new_cluster_group\<lparr>cg_pending := [7 :: nat]\<rparr>)"
  have "cg_run [7] (new_cluster_group\<lparr>cg_pending := [7 :: nat]\<rparr>)"
    using cg_go [OF cg_new, of "7 :: nat"] by (simp add: cg_Go_def new_cluster_group_def)
  then have run: "cg_run [7] cg" unfolding cg_def by (rule cg_start)
  have g: "cg_g cg = Some (started [CtxActor 7])"
    by (simp add: cg_def cg_Start_def new_cluster_group_def started_def AddGoroutine_def)
  have ret: "returned demo_stopped = 1" by code_simp
  then have pos: "0 < returned demo_stopped" by (simp only: zero_less_one)
  from cluster_group_stop_waits [OF cg_run_inner [OF demo_stopped_run run g] _ pos]
  have "stop_calls demo_stopped = map CtxActor [7]"
    "\<exists>l. launches demo_stopped = [l] \<and> phases l = replicate (length [7 :: nat]) Exited"
    by simp_all
  then show ?thesis unfolding ret by simp
qed

text \<open>C27. A started group always comes to rest: whatever its actors and the callers of \<open>Stop\<close> have done,
  every further step (an actor returning, which its contract demands after the stop signal, or a step of the
  library) brings the end nearer, and where no step is left every caller of \<open>Stop\<close> has returned, every
  goroutine including the waiting one is gone, and the group is stopped. No order of events deadlocks.\<close>

theorem group_comes_to_rest:
  assumes "group_run (started as) g"
  shows "(\<forall>g'. group_step g g' \<longrightarrow> group_weight g' < group_weight g) \<and>
    ((\<nexists>g'. group_step g g') \<longrightarrow> callers g = 0 \<and>
       (\<forall>l \<in> set (launches g). watcher l = WatcherExited \<and> (\<forall>p \<in> set (phases l). p = Exited)) \<and>
       (as \<noteq> [] \<longrightarrow> once g = OnceDone \<and> stop_calls g = as))"
proof (intro conjI impI)
  show "\<forall>g'. group_step g g' \<longrightarrow> group_weight g' < group_weight g" by (blast intro: group_step_less)
  have inv: "group_inv (of_bool (as \<noteq> [])) as g" by (rule group_run_inv [OF assms started_inv])
  assume stuck: "\<nexists>g'. group_step g g'"
  show "\<forall>l \<in> set (launches g). watcher l = WatcherExited \<and> (\<forall>p \<in> set (phases l). p = Exited)"
    using stuck_watcher [OF inv stuck] stuck_phases [OF inv stuck] by blast
  have "Stop_returns g = None" using stuck group_step.return by (cases "Stop_returns g") auto
  then show "callers g = 0"
    using inv stuck_once [OF inv stuck] by (cases "once g = OnceFree") (auto simp: Stop_returns_def group_inv_def split: if_splits)
  assume "as \<noteq> []"
  then obtain l where l: "l \<in> set (launches g)" using inv by (auto simp: group_inv_def length_Suc_conv)
  with inv stuck_watcher [OF inv stuck l] have "once g \<noteq> OnceFree" by (auto simp: group_inv_def launch_inv_def)
  then show "once g = OnceDone" by (rule stuck_once [OF inv stuck])
  with inv show "stop_calls g = as" by (simp add: group_inv_def)
qed

theorem group_comes_to_rest_witness:
  "once (watcher_exits 0 (watcher_stops 0 (errc_receive 0 demo_stopped))) = OnceDone \<and>
     stop_calls (watcher_exits 0 (watcher_stops 0 (errc_receive 0 demo_stopped))) = [CtxActor 7]"
proof -
  let ?g = "watcher_exits 0 (watcher_stops 0 (errc_receive 0 demo_stopped))"
  have run: "group_run (started [CtxActor 7]) ?g"
    by (rule group_more [OF group_more [OF group_more [OF demo_stopped_run receive] watch_stop] watch_exit]) code_simp+
  have "group_weight ?g = 0" by code_simp
  with group_comes_to_rest [OF run] show ?thesis by auto
qed

text \<open>C38. \<open>RunRetry\<close> returns exactly when the context is found cancelled after some call of \<open>fn\<close>: at the
  first such call, having logged, in order, the errors of the calls after which the context was still alive.
  A function that returns no error is called again all the same.\<close>

theorem run_retry_returns_iff_cancelled:
  "(case RunRetry it 0 [] of
      None \<Rightarrow> \<forall>n. \<not> cancelled_at it n
    | Some (calls, logged) \<Rightarrow> \<exists>n. calls = Suc n \<and> cancelled_at it n \<and> (\<forall>m < n. \<not> cancelled_at it m) \<and>
        logged = concat (map (retry_log it) [0..<Suc n]))"
proof (cases "\<exists>n. cancelled_at it n")
  case True
  define n where "n = (LEAST n. cancelled_at it n)"
  from True have n: "cancelled_at it n" unfolding n_def by (rule LeastI_ex)
  have less: "\<not> cancelled_at it m" if "m < n" for m using that unfolding n_def by (blast dest: not_less_Least)
  have "RunRetry it 0 [] = Some (Suc n, concat (map (retry_log it) [0..<Suc n]))"
    using RunRetry_until [of 0 n it "[]"] n less by simp
  with n less show ?thesis by auto
next
  case False
  then have "RunRetry it 0 [] = None" using RunRetry_returns [of it 0 "[]"] by (cases "RunRetry it 0 []") auto
  with False show ?thesis by simp
qed

theorem run_retry_returns_iff_cancelled_witness:
  "(case RunRetry (\<lambda>i. (Some ''eof'', 2 \<le> i, 2 \<le> i)) 0 [] of
      None \<Rightarrow> False | Some (calls, logged) \<Rightarrow> calls = 3 \<and> logged = [''eof'', ''eof''])"
proof -
  let ?it = "\<lambda>i :: nat. (Some ''eof'', 2 \<le> i, 2 \<le> i)"
  have "n = 2" if "2 \<le> n" "\<forall>m < n. \<not> 2 \<le> m" for n :: nat using that by (metis le_antisym le_refl nat_neq_iff not_le)
  moreover have "concat (map (retry_log ?it) [0..<3]) = [''eof'', ''eof'']" by (simp add: retry_log_def upt_rec)
  ultimately show ?thesis
    using run_retry_returns_iff_cancelled [of ?it] by (fastforce simp del: upt_Suc split: option.splits prod.splits)
qed

end
