(* ===== verification/Pipeline_Config.thy ===== *)
theory Pipeline_Config
  imports Transit_Prelude
begin

text \<open>
  Configuration snapshots that are polled from a source: \<open>PipelineConfig\<close>
  (\<^verbatim>\<open>src/up/pipeline_config.go\<close>), its polling loop (\<^verbatim>\<open>src/up/pipeline_config_poll.go\<close>) and the file
  source (\<^verbatim>\<open>src/up/pipeline_config_file.go\<close>). What the source answers and what the decoder makes of it
  are arguments, as is the SHA-256 function, of which the code only uses the first eight bytes. The
  stores to the two atomics are separate steps, since two refreshes may run at the same time.
\<close>

section \<open>Data\<close>

record ConfigEvent =
  Version :: string
  ce_Duration :: int
  ce_Err :: "string option"

record PollOptions =
  po_Interval :: int
  po_Timeout :: int
  po_Jitter :: int
  po_Observe :: bool

record 'v pipeline_config =
  opts :: PollOptions
  current :: "'v option"
  lastVersion :: string
  isStatic :: bool
  refreshNow :: bool
  events :: "ConfigEvent list"

definition DefaultPollInterval :: int where "DefaultPollInterval = 30 * Second"
definition DefaultPollTimeout :: int where "DefaultPollTimeout = 5 * Second"

definition NewStaticConfig :: "'v \<Rightarrow> 'v pipeline_config" where
  "NewStaticConfig v =
     \<lparr>opts = \<lparr>po_Interval = 0, po_Timeout = 0, po_Jitter = 0, po_Observe = False\<rparr>, current = Some v,
      lastVersion = '''', isStatic = True, refreshNow = False, events = []\<rparr>"

definition NewPollingConfig :: "PollOptions \<Rightarrow> 'v pipeline_config" where
  "NewPollingConfig o' =
     \<lparr>opts = o'\<lparr>po_Interval := (if po_Interval o' = 0 then DefaultPollInterval else po_Interval o'),
                po_Timeout := (if po_Timeout o' = 0 then DefaultPollTimeout else po_Timeout o')\<rparr>,
      current = None, lastVersion = '''', isStatic = False, refreshNow = False, events = []\<rparr>"

definition Snapshot :: "'v \<Rightarrow> 'v pipeline_config \<Rightarrow> 'v" where
  "Snapshot zero p = (case current p of None \<Rightarrow> zero | Some v \<Rightarrow> v)"

text \<open>The channel of a static configuration is nil: a send on it never succeeds.\<close>

definition SignalRefresh :: "'v pipeline_config \<Rightarrow> 'v pipeline_config" where
  "SignalRefresh p = (if isStatic p then p else p\<lparr>refreshNow := True\<rparr>)"

section \<open>One refresh\<close>

definition EncodeToString :: "bytes \<Rightarrow> string" where
  "EncodeToString bs = concat (map (\<lambda>c. [hex_digit (of_char c div 16), hex_digit (of_char c mod 16)]) bs)"

definition version_of :: "(bytes \<Rightarrow> bytes) \<Rightarrow> bytes \<Rightarrow> string" where
  "version_of sha256 dat = EncodeToString (take 8 (sha256 dat))"

definition observe_event :: "ConfigEvent \<Rightarrow> 'v pipeline_config \<Rightarrow> 'v pipeline_config" where
  "observe_event e p = (if po_Observe (opts p) then p\<lparr>events := events p @ [e]\<rparr> else p)"

text \<open>
  Up to the stores: the refresh ends with its error and event, or goes on with the decoded value and
  its version.
\<close>

definition fetch_decide ::
    "(bytes \<Rightarrow> bytes) \<Rightarrow> (bytes \<Rightarrow> string + 'v) \<Rightarrow> int \<Rightarrow> string + bytes \<Rightarrow> 'v pipeline_config \<Rightarrow>
      (string option \<times> 'v pipeline_config) + ('v \<times> string)" where
  "fetch_decide sha256 decoder dur res p =
     (case res of
        Inl err \<Rightarrow> Inl (Some err, observe_event \<lparr>Version = '''', ce_Duration = dur, ce_Err = Some err\<rparr> p)
      | Inr dat \<Rightarrow>
          let version = version_of sha256 dat in
          if lastVersion p = version
          then Inl (None, observe_event \<lparr>Version = '''', ce_Duration = dur, ce_Err = None\<rparr> p)
          else
            case decoder dat of
              Inl err \<Rightarrow> Inl (Some err, observe_event \<lparr>Version = '''', ce_Duration = dur, ce_Err = Some err\<rparr> p)
            | Inr v \<Rightarrow> Inr (v, version))"

definition store_current :: "'v \<Rightarrow> 'v pipeline_config \<Rightarrow> 'v pipeline_config" where
  "store_current v p = p\<lparr>current := Some v\<rparr>"

definition store_version :: "int \<Rightarrow> string \<Rightarrow> 'v pipeline_config \<Rightarrow> 'v pipeline_config" where
  "store_version dur version p =
     observe_event \<lparr>Version = version, ce_Duration = dur, ce_Err = None\<rparr> (p\<lparr>lastVersion := version\<rparr>)"

text \<open>A refresh that nothing interrupts. A static configuration has no source: calling it panics.\<close>

definition fetchAndStore ::
    "(bytes \<Rightarrow> bytes) \<Rightarrow> (bytes \<Rightarrow> string + 'v) \<Rightarrow> int \<Rightarrow> string + bytes \<Rightarrow> 'v pipeline_config \<Rightarrow>
      (string option \<times> 'v pipeline_config) outcome" where
  "fetchAndStore sha256 decoder dur res p =
     (if isStatic p then Inl nil_dereference
      else case fetch_decide sha256 decoder dur res p of
             Inl r \<Rightarrow> Inr r
           | Inr (v, version) \<Rightarrow> Inr (None, store_version dur version (store_current v p)))"

definition RefreshOnce ::
    "(bytes \<Rightarrow> bytes) \<Rightarrow> (bytes \<Rightarrow> string + 'v) \<Rightarrow> int \<Rightarrow> string + bytes \<Rightarrow> 'v pipeline_config \<Rightarrow>
      (string option \<times> 'v pipeline_config) outcome" where
  "RefreshOnce = fetchAndStore"

section \<open>The polling loop\<close>

definition poll_tick :: "(int \<Rightarrow> int) \<Rightarrow> PollOptions \<Rightarrow> int" where
  "poll_tick rnd o' =
     (if 0 < po_Jitter o' then int64 (po_Interval o' + rnd (po_Jitter o')) else po_Interval o')"

text \<open>What the \<open>select\<close> of the loop takes; \<open>None\<close> where that case is not ready.\<close>

datatype poll_case = CtxDone | RefreshNow | TimerFired

definition poll_select :: "poll_case \<Rightarrow> bool \<Rightarrow> 'v pipeline_config \<Rightarrow> (bool \<times> 'v pipeline_config) option" where
  "poll_select c ctx_done p =
     (case c of
        CtxDone \<Rightarrow> if ctx_done then Some (False, p) else None
      | RefreshNow \<Rightarrow> if refreshNow p then Some (True, p\<lparr>refreshNow := False\<rparr>) else None
      | TimerFired \<Rightarrow> Some (True, p))"

text \<open>
  A polling goroutine alone with its configuration, with signals at any time. The list holds what the
  source answered to each fetch: the first is immediate, the others follow the select.
\<close>

inductive poll_run :: "(bytes \<Rightarrow> bytes) \<Rightarrow> (bytes \<Rightarrow> string + 'v) \<Rightarrow> PollOptions \<Rightarrow> (string + bytes) list \<Rightarrow> 'v pipeline_config \<Rightarrow> bool"
  for sha256 :: "bytes \<Rightarrow> bytes" and decoder :: "bytes \<Rightarrow> string + 'v" and o' :: PollOptions where
  poll_new: "poll_run sha256 decoder o' [] (NewPollingConfig o')"
| poll_signal: "poll_run sha256 decoder o' rs p \<Longrightarrow> poll_run sha256 decoder o' rs (SignalRefresh p)"
| poll_first: "poll_run sha256 decoder o' rs p \<Longrightarrow> fetchAndStore sha256 decoder dur r p = Inr (err, p') \<Longrightarrow>
    poll_run sha256 decoder o' (rs @ [r]) p'"
| poll_next: "poll_run sha256 decoder o' rs p \<Longrightarrow> poll_select c ctx_done p = Some (True, p') \<Longrightarrow>
    fetchAndStore sha256 decoder dur r p' = Inr (err, p'') \<Longrightarrow> poll_run sha256 decoder o' (rs @ [r]) p''"

section \<open>The file source\<close>

text \<open>Times are nanoseconds after Go's zero time.\<close>

record file_cache =
  lastModTime :: int
  lastSize :: int
  lastData :: bytes

definition cachedFileSource :: file_cache where
  "cachedFileSource = \<lparr>lastModTime = 0, lastSize = 0, lastData = []\<rparr>"

definition file_fetch ::
    "string \<Rightarrow> string + int \<times> int \<Rightarrow> string + bytes \<Rightarrow> file_cache \<Rightarrow> (string + bytes) \<times> file_cache" where
  "file_fetch path stat read_file c =
     (case stat of
        Inl err \<Rightarrow>
          (if lastData c \<noteq> [] then (Inr (lastData c), c)
           else (Inl (''orange/config: stat '' @ path @ '': '' @ err), c))
      | Inr (modTime, fsize) \<Rightarrow>
          if modTime = lastModTime c \<and> fsize = lastSize c \<and> lastData c \<noteq> [] then (Inr (lastData c), c)
          else case read_file of
                 Inl err \<Rightarrow> (Inl (''orange/config: read '' @ path @ '': '' @ err), c)
               | Inr dat \<Rightarrow> (Inr dat, \<lparr>lastModTime = modTime, lastSize = fsize, lastData = dat\<rparr>))"

text \<open>The watcher's filter: \<open>op\<close> is the event's operation set, \<open>write_op\<close> and \<open>chmod_op\<close> fsnotify's bits.\<close>

unbundle bit_operations_syntax

definition watch_event :: "uint32 \<Rightarrow> uint32 \<Rightarrow> string \<Rightarrow> string \<times> uint32 \<Rightarrow> 'v pipeline_config \<Rightarrow> 'v pipeline_config" where
  "watch_event write_op chmod_op absPath ev p =
     (let (nm, ev_op) = ev in
      if nm = absPath \<and> (ev_op AND write_op \<noteq> 0 \<or> ev_op AND chmod_op \<noteq> 0) then SignalRefresh p else p)"

definition watch_error :: "string \<Rightarrow> 'v pipeline_config \<Rightarrow> 'v pipeline_config" where
  "watch_error err p =
     observe_event \<lparr>Version = '''', ce_Duration = 0, ce_Err = Some (''file watch error: '' @ err)\<rparr> p"

section \<open>The reference: every fetch decoded, the last good value kept\<close>

definition good_values :: "(bytes \<Rightarrow> string + 'v) \<Rightarrow> string + bytes \<Rightarrow> 'v list" where
  "good_values decoder r =
     (case r of Inl err \<Rightarrow> [] | Inr dat \<Rightarrow> (case decoder dat of Inl err \<Rightarrow> [] | Inr v \<Rightarrow> [v]))"

definition good_list :: "(bytes \<Rightarrow> string + 'v) \<Rightarrow> (string + bytes) list \<Rightarrow> 'v list" where
  "good_list decoder rs = concat (map (good_values decoder) rs)"

definition fetch_error :: "(bytes \<Rightarrow> string + 'v) \<Rightarrow> string + bytes \<Rightarrow> string option" where
  "fetch_error decoder r =
     (case r of Inl err \<Rightarrow> Some err | Inr dat \<Rightarrow> (case decoder dat of Inl err \<Rightarrow> Some err | Inr v \<Rightarrow> None))"

lemma good_list_simps [simp]:
  "good_list decoder [] = []"
  "good_list decoder (rs @ [Inl err]) = good_list decoder rs"
  "decoder dat = Inl err \<Longrightarrow> good_list decoder (rs @ [Inr dat]) = good_list decoder rs"
  "decoder dat = Inr v \<Longrightarrow> good_list decoder (rs @ [Inr dat]) = good_list decoder rs @ [v]"
  by (simp_all add: good_list_def good_values_def)

lemma fetch_error_simps [simp]:
  "fetch_error decoder (Inl err) = Some err"
  "decoder dat = Inl err \<Longrightarrow> fetch_error decoder (Inr dat) = Some err"
  "decoder dat = Inr v \<Longrightarrow> fetch_error decoder (Inr dat) = None"
  by (simp_all add: fetch_error_def)

text \<open>The truncated checksums of what was fetched distinguish contents that decode differently.\<close>

definition no_collision :: "(bytes \<Rightarrow> bytes) \<Rightarrow> (bytes \<Rightarrow> string + 'v) \<Rightarrow> (string + bytes) list \<Rightarrow> bool" where
  "no_collision sha256 decoder rs \<longleftrightarrow>
     (\<forall>r1 \<in> set rs. \<forall>r2 \<in> set rs. \<forall>d1 d2. r1 = Inr d1 \<longrightarrow> r2 = Inr d2 \<longrightarrow>
        version_of sha256 d1 = version_of sha256 d2 \<longrightarrow> decoder d1 = decoder d2)"

definition config_inv :: "(bytes \<Rightarrow> bytes) \<Rightarrow> (bytes \<Rightarrow> string + 'v) \<Rightarrow> PollOptions \<Rightarrow> (string + bytes) list \<Rightarrow> 'v pipeline_config \<Rightarrow> bool" where
  "config_inv sha256 decoder o' rs p \<longleftrightarrow>
     \<not> isStatic p \<and> po_Observe (opts p) = po_Observe o' \<and>
     map ce_Err (events p) = (if po_Observe o' then map (fetch_error decoder) rs else []) \<and>
     (let good = good_list decoder rs in
      if good = [] then current p = None \<and> lastVersion p = ''''
      else current p = Some (last good) \<and>
        (\<exists>dat. Inr dat \<in> set rs \<and> decoder dat = Inr (last good) \<and> lastVersion p = version_of sha256 dat))"

lemma version_nonempty: "length (sha256 dat) = 32 \<Longrightarrow> version_of sha256 dat \<noteq> ''''"
  by (cases "sha256 dat") (simp_all add: version_of_def EncodeToString_def)

lemma no_collision_prefix: "no_collision sha256 decoder (rs @ [r]) \<Longrightarrow> no_collision sha256 decoder rs"
  unfolding no_collision_def set_append by blast

lemma observe_event_sel [simp]:
  "current (observe_event e p) = current p" "lastVersion (observe_event e p) = lastVersion p"
  "isStatic (observe_event e p) = isStatic p" "opts (observe_event e p) = opts p"
  "events (observe_event e p) = events p @ (if po_Observe (opts p) then [e] else [])"
  by (simp_all add: observe_event_def)

lemma store_sel [simp]:
  "current (store_current v p) = Some v" "lastVersion (store_current v p) = lastVersion p"
  "isStatic (store_current v p) = isStatic p" "opts (store_current v p) = opts p" "events (store_current v p) = events p"
  "current (store_version dur ver p) = current p" "lastVersion (store_version dur ver p) = ver"
  "isStatic (store_version dur ver p) = isStatic p" "opts (store_version dur ver p) = opts p"
  "events (store_version dur ver p) =
     events p @ (if po_Observe (opts p) then [\<lparr>Version = ver, ce_Duration = dur, ce_Err = None\<rparr>] else [])"
  by (simp_all add: store_current_def store_version_def)

text \<open>
  One refresh against the reference. Only a checksum that was seen before cuts the refresh short, and
  then the value it stands for is the current one.
\<close>

lemma fetchAndStore_inv:
  assumes inv: "config_inv sha256 decoder o' rs p" and run: "fetchAndStore sha256 decoder dur r p = Inr (err, p')"
    and len: "\<forall>dat. length (sha256 dat) = 32" and nc: "no_collision sha256 decoder (rs @ [r])"
  shows "config_inv sha256 decoder o' (rs @ [r]) p'" and "err = fetch_error decoder r"
proof -
  let ?good = "good_list decoder rs"
  have "config_inv sha256 decoder o' (rs @ [r]) p' \<and> err = fetch_error decoder r"
  proof (cases r)
    case (Inl e)
    with inv run show ?thesis
      by (auto simp: fetchAndStore_def fetch_decide_def config_inv_def Let_def split: if_splits)
  next
    case (Inr dat)
    show ?thesis
    proof (cases "lastVersion p = version_of sha256 dat")
      case True
      with len have "?good \<noteq> []" using inv version_nonempty [of sha256 dat] by (auto simp: config_inv_def Let_def)
      then obtain d where d: "Inr d \<in> set rs" "decoder d = Inr (last ?good)" "lastVersion p = version_of sha256 d"
        using inv by (auto simp: config_inv_def Let_def)
      have "Inr dat \<in> set (rs @ [r])" "Inr d \<in> set (rs @ [r])" using d(1) Inr by simp_all
      then have "decoder dat = decoder d" using nc d(3) True unfolding no_collision_def by metis
      then have dec: "decoder dat = Inr (last ?good)" using d(2) by simp
      with Inr True run inv d \<open>?good \<noteq> []\<close> show ?thesis
        by (auto simp: fetchAndStore_def fetch_decide_def config_inv_def Let_def split: if_splits)
    next
      case False
      with Inr run inv show ?thesis
        by (cases "decoder dat")
           (auto simp: fetchAndStore_def fetch_decide_def config_inv_def Let_def split: if_splits)
    qed
  qed
  then show "config_inv sha256 decoder o' (rs @ [r]) p'" "err = fetch_error decoder r" by simp_all
qed

lemma SignalRefresh_inv: "config_inv sha256 decoder o' rs p \<Longrightarrow> config_inv sha256 decoder o' rs (SignalRefresh p)"
  by (simp add: config_inv_def SignalRefresh_def Let_def)

lemma poll_select_inv:
  "poll_select c ctx p = Some (b, p') \<Longrightarrow> config_inv sha256 decoder o' rs p \<Longrightarrow> config_inv sha256 decoder o' rs p'"
  by (auto simp: poll_select_def config_inv_def Let_def split: poll_case.splits if_splits)

lemma poll_run_inv:
  "poll_run sha256 decoder o' rs p \<Longrightarrow> \<forall>dat. length (sha256 dat) = 32 \<Longrightarrow> no_collision sha256 decoder rs \<Longrightarrow>
     config_inv sha256 decoder o' rs p"
proof (induction rule: poll_run.induct)
  case poll_new
  show ?case by (simp add: config_inv_def NewPollingConfig_def)
next
  case (poll_signal rs p)
  then show ?case by (simp add: SignalRefresh_inv)
next
  case (poll_first rs p dur r err p')
  then show ?case by (metis fetchAndStore_inv(1) no_collision_prefix)
next
  case (poll_next rs p c ctx_done p' dur r err p'')
  then show ?case by (metis fetchAndStore_inv(1) no_collision_prefix poll_select_inv)
qed

section \<open>Properties\<close>

text \<open>C15. A polled configuration is always the last good one: whatever the source and the decoder answered,
  the snapshot is the value of the last fetch that decoded (the zero value before the first), as if every
  fetch were decoded, and an observer hears of every fetch with exactly its error. The checksum only saves
  decoding, as long as no two contents with different values share the first eight bytes of their SHA-256.\<close>

theorem snapshot_is_last_good:
  assumes "poll_run sha256 decoder o' rs p" "\<forall>dat. length (sha256 dat) = 32" "no_collision sha256 decoder rs"
  shows "Snapshot zero p = last (zero # good_list decoder rs) \<and>
    (po_Observe o' \<longrightarrow> map ce_Err (events p) = map (fetch_error decoder) rs)"
  using poll_run_inv [OF assms] by (auto simp: config_inv_def Snapshot_def Let_def)

text \<open>Any sequence of answers of the source is the history of some run.\<close>

lemma poll_run_exists: "\<exists>p. poll_run sha256 decoder o' rs p \<and> \<not> isStatic p"
proof (induction rs rule: rev_induct)
  case Nil
  show ?case by (intro exI [of _ "NewPollingConfig o'"]) (simp add: poll_new, simp add: NewPollingConfig_def)
next
  case (snoc r rs)
  then obtain p where p: "poll_run sha256 decoder o' rs p" "\<not> isStatic p" by blast
  obtain err p' where f: "fetchAndStore sha256 decoder 0 r p = Inr (err, p')" "\<not> isStatic p'"
    using p(2) by (cases "fetch_decide sha256 decoder 0 r p")
      (auto simp: fetchAndStore_def fetch_decide_def Let_def split: sum.splits if_splits)
  with poll_first [OF p(1) f(1)] show ?case by blast
qed

definition demo_sha256 :: "bytes \<Rightarrow> bytes" where
  "demo_sha256 dat = take 32 (dat @ replicate 32 CHR 0x00)"

lemma length_demo_sha256 [simp]: "length (demo_sha256 dat) = 32"
  by (simp add: demo_sha256_def min_def)

definition demo_decoder :: "bytes \<Rightarrow> string + string" where
  "demo_decoder dat = (if dat = ''{'' then Inl ''unexpected end of input'' else Inr dat)"

definition demo_options :: PollOptions where
  "demo_options = \<lparr>po_Interval = 0, po_Timeout = 0, po_Jitter = 0, po_Observe = True\<rparr>"

theorem snapshot_is_last_good_witness:
  "\<exists>p. Snapshot '''' p = ''on'' \<and>
     map ce_Err (events p) = [None, None, Some ''timeout'', Some ''unexpected end of input'']"
proof -
  let ?rs = "[Inr ''off'', Inr ''on'', Inl ''timeout'', Inr ''{''] :: (string + bytes) list"
  obtain p where p: "poll_run demo_sha256 demo_decoder demo_options ?rs p" using poll_run_exists by blast
  have "no_collision demo_sha256 demo_decoder ?rs"
    by (simp add: no_collision_def demo_sha256_def version_of_def EncodeToString_def hex_digit_def)
  with snapshot_is_last_good [OF p, of "''''"] show ?thesis
    by (intro exI [of _ p]) (simp add: demo_options_def good_values_def fetch_error_def demo_decoder_def good_list_def)
qed

text \<open>C40. Two refreshes at the same time can leave the configuration stale for good. If one stores its
  value, the other then stores both its value and its version, and the first stores its version last, the
  snapshot is the second value under the first's version: from then on a source that serves the first content
  is taken for unchanged, and every refresh reports success while the snapshot stays the other value.\<close>

theorem concurrent_refresh_strands_snapshot:
  assumes "\<not> isStatic p" "lastVersion p \<notin> {version_of sha256 d1, version_of sha256 d2}"
    and "decoder d1 = Inr v1" "decoder d2 = Inr v2"
  shows "fetch_decide sha256 decoder t (Inr d1) p = Inr (v1, version_of sha256 d1) \<and>
    fetch_decide sha256 decoder t (Inr d2) (store_current v1 p) = Inr (v2, version_of sha256 d2) \<and>
    (let stale = store_version t (version_of sha256 d1) (store_version t (version_of sha256 d2)
                   (store_current v2 (store_current v1 p)))
     in Snapshot zero stale = v2 \<and>
        (\<exists>p'. fetchAndStore sha256 decoder t (Inr d1) stale = Inr (None, p') \<and>
           current p' = current stale \<and> lastVersion p' = lastVersion stale))"
  using assms by (simp add: fetch_decide_def fetchAndStore_def Let_def Snapshot_def)

theorem concurrent_refresh_strands_snapshot_witness:
  "Snapshot '''' (store_version 0 (version_of demo_sha256 ''new'') (store_version 0 (version_of demo_sha256 ''old'')
     (store_current ''old'' (store_current ''new'' (NewPollingConfig demo_options))))) = ''old''"
proof -
  have "lastVersion (NewPollingConfig demo_options) \<notin> {version_of demo_sha256 ''new'', version_of demo_sha256 ''old''}"
    using version_nonempty [of demo_sha256 "''new''"] version_nonempty [of demo_sha256 "''old''"]
    by (simp add: NewPollingConfig_def)
  then show ?thesis
    using concurrent_refresh_strands_snapshot
      [of "NewPollingConfig demo_options" demo_sha256 "''new''" "''old''" demo_decoder "''new''" "''old''" 0 "''''"]
    by (simp add: demo_decoder_def NewPollingConfig_def Let_def)
qed

section \<open>Other facts\<close>

text \<open>A static configuration has no source to refresh from: \<open>RefreshOnce\<close> on it panics.\<close>

lemma static_refresh_panics: "RefreshOnce sha256 decoder dur r (NewStaticConfig v) = Inl nil_dereference"
  by (simp add: RefreshOnce_def fetchAndStore_def NewStaticConfig_def)

text \<open>
  The tick lies in the interval and the jitter above it, never below it, although the comments of
  \<open>NewPollingConfig\<close> and \<open>Start\<close> speak of plus or minus the jitter.
\<close>

lemma poll_tick_bounds:
  assumes "0 < po_Interval o'" "po_Interval o' + max 0 (po_Jitter o') < 2 ^ 63"
    and "\<And>n. 0 < n \<Longrightarrow> 0 \<le> rnd n \<and> rnd n < n"
  shows "po_Interval o' \<le> poll_tick rnd o'" "poll_tick rnd o' < po_Interval o' + max 1 (po_Jitter o')"
proof -
  have "po_Interval o' \<le> poll_tick rnd o' \<and> poll_tick rnd o' < po_Interval o' + max 1 (po_Jitter o')"
  proof (cases "0 < po_Jitter o'")
    case True
    note r = assms(3) [OF True]
    with True assms(1,2) have "int64 (po_Interval o' + rnd (po_Jitter o')) = po_Interval o' + rnd (po_Jitter o')"
      by (intro int64_id) auto
    with True r show ?thesis by (simp add: poll_tick_def)
  qed (simp add: poll_tick_def)
  then show "po_Interval o' \<le> poll_tick rnd o'" "poll_tick rnd o' < po_Interval o' + max 1 (po_Jitter o')" by simp_all
qed

text \<open>A signal is not lost: it makes the select ready, and any number of signals make one refresh.\<close>

lemma signal_makes_ready:
  "\<not> isStatic p \<Longrightarrow> poll_select RefreshNow ctx (SignalRefresh (SignalRefresh p)) = Some (True, p\<lparr>refreshNow := False\<rparr>)"
  by (simp add: SignalRefresh_def poll_select_def)

text \<open>
  The file source: as long as equal modification time and size mean equal content, an answer that is not
  an error is the content of the file at the time of the \<open>Stat\<close>. A file that cannot be examined is not
  read: the last content is served.
\<close>

definition cache_fresh :: "(int \<times> int \<Rightarrow> bytes) \<Rightarrow> file_cache \<Rightarrow> bool" where
  "cache_fresh content c \<longleftrightarrow> lastData c = [] \<or> lastData c = content (lastModTime c, lastSize c)"

lemma file_fetch_fresh:
  assumes "cache_fresh content c" "read_file = Inr (content st)"
  shows "fst (file_fetch path (Inr st) read_file c) = Inr (content st)"
    and "cache_fresh content (snd (file_fetch path (Inr st) read_file c))"
  using assms by (cases st; auto simp: file_fetch_def cache_fresh_def)+

lemma file_fetch_stat_error:
  "lastData c \<noteq> [] \<Longrightarrow> file_fetch path (Inl err) read_file c = (Inr (lastData c), c)"
  by (simp add: file_fetch_def)

end
