(* ===== verification/Content_Encoding.thy ===== *)
theory Content_Encoding
  imports Transit_Prelude
begin

text \<open>
  Content encodings (\<^verbatim>\<open>src/up/compress/compress.go\<close>). The four compression libraries are parameters: a
  \<open>codec\<close> says what opening a reader, reading it to the end, and writing and closing a writer answer. The
  names of encodings go through \<^verbatim>\<open>strings.TrimSpace\<close> and \<^verbatim>\<open>strings.ToLower\<close>, modelled on UTF-8 bytes:
  the white space is Unicode's, and lowering is exact on every string that can become an ASCII name (a
  rune other than those shown stays outside ASCII, and so outside the names compared with).
\<close>

section \<open>Names of encodings\<close>

definition space_runes :: "bytes list" where
  "space_runes =
     map (map char_of)
      ([[9], [10], [11], [12], [13], [32], [0xC2, 0x85], [0xC2, 0xA0], [0xE1, 0x9A, 0x80]] @
       map (\<lambda>n. [0xE2, 0x80, n]) ([0x80..<0x8B] @ [0xA8, 0xA9, 0xAF]) @ [[0xE2, 0x81, 0x9F], [0xE3, 0x80, 0x80 :: nat]])"

function TrimLeft :: "bytes \<Rightarrow> bytes" where
  "TrimLeft s =
     (case find (\<lambda>r. take (length r) s = r) space_runes of
        Some r \<Rightarrow> TrimLeft (drop (length r) s)
      | None \<Rightarrow> s)"
  by pat_completeness auto

lemma space_runes_nonempty: "r \<in> set space_runes \<Longrightarrow> 0 < length r"
  by (auto simp: space_runes_def)

termination TrimLeft
proof (relation "measure length")
  fix s r assume f: "find (\<lambda>r. take (length r) s = r) space_runes = Some r"
  then have "r \<in> set space_runes" "take (length r) s = r" by (auto simp: find_Some_iff)
  then have "0 < length r" "length r \<le> length s" using space_runes_nonempty length_take by (auto, metis min.cobounded1)
  then show "(drop (length r) s, s) \<in> measure length" by (auto intro!: diff_less)
qed simp

declare TrimLeft.simps [simp del]

function TrimRight :: "bytes \<Rightarrow> bytes" where
  "TrimRight s =
     (case find (\<lambda>r. r \<noteq> [] \<and> length r \<le> length s \<and> drop (length s - length r) s = r) space_runes of
        Some r \<Rightarrow> TrimRight (take (length s - length r) s)
      | None \<Rightarrow> s)"
  by pat_completeness auto
termination TrimRight
  by (relation "measure length") (auto simp: find_Some_iff intro!: diff_less)

declare TrimRight.simps [simp del]

definition TrimSpace :: "bytes \<Rightarrow> bytes" where
  "TrimSpace s = TrimRight (TrimLeft s)"

definition lower_byte :: "char \<Rightarrow> char" where
  "lower_byte c = (if 65 \<le> (of_char c :: nat) \<and> (of_char c :: nat) \<le> 90 then char_of (of_char c + 32 :: nat) else c)"

text \<open>Besides the ASCII letters, U+0130 becomes i and U+212A becomes k.\<close>

fun ToLower :: "bytes \<Rightarrow> bytes" where
  "ToLower (a # b # c # s) =
     (if [a, b] = [char_of (0xC4 :: nat), char_of (0xB0 :: nat)] then CHR ''i'' # ToLower (c # s)
      else if [a, b, c] = [char_of (0xE2 :: nat), char_of (0x84 :: nat), char_of (0xAA :: nat)] then CHR ''k'' # ToLower s
      else lower_byte a # ToLower (b # c # s))"
| "ToLower [a, b] =
     (if [a, b] = [char_of (0xC4 :: nat), char_of (0xB0 :: nat)] then [CHR ''i''] else [lower_byte a, lower_byte b])"
| "ToLower [a] = [lower_byte a]"
| "ToLower [] = []"

section \<open>Compression libraries\<close>

record codec =
  reader_error :: "bytes \<Rightarrow> string option"
  read_all :: "bytes \<Rightarrow> string + bytes"
  writer_error :: "string option"
  write_error :: "bytes \<Rightarrow> string option"
  close_bytes :: "bytes \<Rightarrow> string + bytes"

record codecs =
  c_gzip :: codec
  c_zlib :: codec
  c_brotli :: codec
  c_zstd :: codec

datatype compress_error =
    Unsupported string
  | ReaderError string string
  | ReadError string string
  | WriterError string string
  | WriteError string string
  | CloseError string string

definition decode_stream :: "string \<Rightarrow> codec \<Rightarrow> bytes \<Rightarrow> compress_error + bytes" where
  "decode_stream nm c dat =
     (case reader_error c dat of
        Some err \<Rightarrow> Inl (ReaderError nm err)
      | None \<Rightarrow> (case read_all c dat of Inl err \<Rightarrow> Inl (ReadError nm err) | Inr out \<Rightarrow> Inr out))"

definition encode_stream :: "string \<Rightarrow> codec \<Rightarrow> bytes \<Rightarrow> compress_error + bytes" where
  "encode_stream nm c dat =
     (case write_error c dat of
        Some err \<Rightarrow> Inl (WriteError nm err)
      | None \<Rightarrow> (case close_bytes c dat of Inl err \<Rightarrow> Inl (CloseError nm err) | Inr out \<Rightarrow> Inr out))"

definition decodeGzip :: "codecs \<Rightarrow> bytes \<Rightarrow> compress_error + bytes" where
  "decodeGzip cs = decode_stream ''gzip'' (c_gzip cs)"
definition encodeGzip :: "codecs \<Rightarrow> bytes \<Rightarrow> compress_error + bytes" where
  "encodeGzip cs = encode_stream ''gzip'' (c_gzip cs)"
definition decodeDeflate :: "codecs \<Rightarrow> bytes \<Rightarrow> compress_error + bytes" where
  "decodeDeflate cs = decode_stream ''deflate'' (c_zlib cs)"
definition encodeDeflate :: "codecs \<Rightarrow> bytes \<Rightarrow> compress_error + bytes" where
  "encodeDeflate cs = encode_stream ''deflate'' (c_zlib cs)"

text \<open>A brotli reader is opened without an error; a zstd writer may fail to open.\<close>

definition decodeBrotli :: "codecs \<Rightarrow> bytes \<Rightarrow> compress_error + bytes" where
  "decodeBrotli cs dat = (case read_all (c_brotli cs) dat of Inl err \<Rightarrow> Inl (ReadError ''brotli'' err) | Inr out \<Rightarrow> Inr out)"
definition encodeBrotli :: "codecs \<Rightarrow> bytes \<Rightarrow> compress_error + bytes" where
  "encodeBrotli cs = encode_stream ''brotli'' (c_brotli cs)"
definition decodeZstd :: "codecs \<Rightarrow> bytes \<Rightarrow> compress_error + bytes" where
  "decodeZstd cs = decode_stream ''zstd'' (c_zstd cs)"
definition encodeZstd :: "codecs \<Rightarrow> bytes \<Rightarrow> compress_error + bytes" where
  "encodeZstd cs dat =
     (case writer_error (c_zstd cs) of
        Some err \<Rightarrow> Inl (WriterError ''zstd'' err)
      | None \<Rightarrow> encode_stream ''zstd'' (c_zstd cs) dat)"

section \<open>Decode, Encode and Accept-Encoding\<close>

definition Decode :: "codecs \<Rightarrow> string \<Rightarrow> bytes \<Rightarrow> compress_error + bytes" where
  "Decode cs encoding dat =
     (let enc = ToLower (TrimSpace encoding) in
      if enc = '''' \<or> enc = ''identity'' then Inr dat
      else if enc = ''gzip'' then decodeGzip cs dat
      else if enc = ''deflate'' then decodeDeflate cs dat
      else if enc = ''br'' then decodeBrotli cs dat
      else if enc = ''zstd'' then decodeZstd cs dat
      else Inl (Unsupported encoding))"

definition Encode :: "codecs \<Rightarrow> string \<Rightarrow> bytes \<Rightarrow> compress_error + bytes" where
  "Encode cs encoding dat =
     (let enc = ToLower (TrimSpace encoding) in
      if enc = '''' \<or> enc = ''identity'' then Inr dat
      else if enc = ''gzip'' then encodeGzip cs dat
      else if enc = ''deflate'' then encodeDeflate cs dat
      else if enc = ''br'' then encodeBrotli cs dat
      else if enc = ''zstd'' then encodeZstd cs dat
      else Inl (Unsupported encoding))"

definition RequestIdentity :: "(string \<Rightarrow> string \<Rightarrow> 'h \<Rightarrow> 'h) \<Rightarrow> 'h \<Rightarrow> 'h" where
  "RequestIdentity SetRequestHeader h = SetRequestHeader ''accept-encoding'' ''identity'' h"

definition supportedEncodings :: "string list" where
  "supportedEncodings = ['''', ''identity'', ''gzip'', ''deflate'', ''br'', ''zstd'']"

fun split_at :: "char \<Rightarrow> string \<Rightarrow> string list" where
  "split_at sep [] = [[]]"
| "split_at sep (c # s) =
     (if c = sep then [] # split_at sep s
      else case split_at sep s of [] \<Rightarrow> [[c]] | w # ws \<Rightarrow> (c # w) # ws)"

definition accepted_name :: "string \<Rightarrow> string" where
  "accepted_name part = ToLower (TrimSpace (takeWhile (\<lambda>c. c \<noteq> CHR '';'') (TrimSpace part)))"

definition AcceptEncodingAllSupported :: "string \<Rightarrow> bool" where
  "AcceptEncodingAllSupported acceptEncoding \<longleftrightarrow>
     acceptEncoding = '''' \<or>
     list_all (\<lambda>part. \<not> (accepted_name part = ''*'' \<or> accepted_name part \<notin> set supportedEncodings))
       (split_at CHR '','' acceptEncoding)"

section \<open>Decoding\<close>

lemma TrimSpace_id:
  assumes "s \<noteq> []" "hd s \<notin> hd ` set space_runes" "last s \<notin> last ` set space_runes"
  shows "TrimSpace s = s"
proof -
  have "take (length r) s \<noteq> r" if "r \<in> set space_runes" for r
    using that assms(1,2) space_runes_nonempty [OF that] by (metis hd_take imageI)
  then have "TrimLeft s = s" by (subst TrimLeft.simps) (auto simp: find_Some_iff split: option.split)
  moreover have "drop (length s - length r) s \<noteq> r" if "r \<in> set space_runes" "length r \<le> length s" for r
    using that assms(1,3) space_runes_nonempty [OF that(1)]
    by (metis diff_less imageI last_drop length_greater_0_conv)
  then have "TrimRight s = s" by (subst TrimRight.simps) (auto simp: find_Some_iff split: option.split)
  ultimately show ?thesis by (simp add: TrimSpace_def)
qed

lemma TrimSpace_Nil [simp]: "TrimSpace [] = []"
proof -
  have "TrimLeft [] = []"
    by (subst TrimLeft.simps) (auto simp: find_Some_iff dest: space_runes_nonempty [OF nth_mem] split: option.split)
  moreover have "TrimRight [] = []"
    by (subst TrimRight.simps) (auto simp: find_Some_iff split: option.split)
  ultimately show ?thesis by (simp add: TrimSpace_def)
qed

lemma stream_not_unsupported [simp]:
  "decode_stream nm c dat \<noteq> Inl (Unsupported e)" "decodeBrotli cs dat \<noteq> Inl (Unsupported e)"
  by (auto simp: decode_stream_def decodeBrotli_def split: option.splits sum.splits)

lemmas decoder_defs = decodeGzip_def decodeDeflate_def decodeZstd_def
lemmas encoder_defs = encodeGzip_def encodeDeflate_def encodeBrotli_def encodeZstd_def

lemma Decode_unsupported_iff:
  "Decode cs encoding dat = Inl (Unsupported e) \<longleftrightarrow>
     e = encoding \<and> ToLower (TrimSpace encoding) \<notin> set supportedEncodings"
  by (auto simp: Decode_def Let_def decoder_defs supportedEncodings_def)

text \<open>A codec is lossless when what a writer produced reads back.\<close>

definition lossless :: "codec \<Rightarrow> bool" where
  "lossless c \<longleftrightarrow> (\<forall>dat out. write_error c dat = None \<longrightarrow> close_bytes c dat = Inr out \<longrightarrow>
     reader_error c out = None \<and> read_all c out = Inr dat)"

lemma stream_roundtrip:
  "lossless c \<Longrightarrow> encode_stream nm c dat = Inr out \<Longrightarrow> reader_error c out = None \<and> read_all c out = Inr dat"
  by (auto simp: lossless_def encode_stream_def split: option.splits sum.splits)

lemma Encode_Decode:
  assumes "lossless (c_gzip cs)" "lossless (c_zlib cs)" "lossless (c_brotli cs)" "lossless (c_zstd cs)"
    and "Encode cs encoding dat = Inr out"
  shows "Decode cs encoding out = Inr dat"
  using assms(5) stream_roundtrip [OF assms(1)] stream_roundtrip [OF assms(2)] stream_roundtrip [OF assms(3)]
    stream_roundtrip [OF assms(4)]
  by (fastforce simp: Encode_def Decode_def Let_def encoder_defs decoder_defs decodeBrotli_def decode_stream_def
      split: if_splits option.splits)

section \<open>Properties\<close>

text \<open>An Accept-Encoding header passes the check exactly when \<open>Decode\<close> knows every encoding it names,
  parameters, letter case and white space aside: then no name in it can make \<open>Decode\<close> answer that the
  encoding is unsupported. The extra tests for the empty header and for the wildcard change nothing.\<close>

lemma accept_encoding_means_decodable:
  "AcceptEncodingAllSupported acceptEncoding \<longleftrightarrow>
     list_all (\<lambda>part. Decode cs (takeWhile (\<lambda>c. c \<noteq> CHR '';'') (TrimSpace part)) dat \<noteq>
         Inl (Unsupported (takeWhile (\<lambda>c. c \<noteq> CHR '';'') (TrimSpace part))))
       (split_at CHR '','' acceptEncoding)"
proof -
  have empty: "accepted_name '''' \<in> set supportedEncodings" by (simp add: accepted_name_def supportedEncodings_def)
  have star: "accepted_name part \<in> set supportedEncodings \<Longrightarrow> accepted_name part \<noteq> ''*''" for part
    by (auto simp: supportedEncodings_def)
  have dec: "Decode cs (takeWhile (\<lambda>c. c \<noteq> CHR '';'') (TrimSpace part)) dat \<noteq>
      Inl (Unsupported (takeWhile (\<lambda>c. c \<noteq> CHR '';'') (TrimSpace part)))
    \<longleftrightarrow> accepted_name part \<in> set supportedEncodings" for part
    by (simp only: Decode_unsupported_iff accepted_name_def simp_thms not_not)
  show ?thesis
    unfolding dec
    using empty star by (cases "acceptEncoding = ''''") (auto simp: AcceptEncodingAllSupported_def list_all_iff)
qed

end
