(* ===== verification/Stream_Objects.thy ===== *)
theory Stream_Objects
  imports Transit_Prelude
begin

text \<open>
  Process-wide registries keyed by strings. The bags of typed per-stream objects of
  \<^verbatim>\<open>src/down/stream_object.go\<close>: a registry maps a nonce to a bag, a bag maps a key to a value.
  The Go code hands out pointers to bags; a bag is only ever reached through the registry, so
  the model updates it in place there. The loop of \<open>getOrCreateBag\<close>
  (\<^verbatim>\<open>src/up/stream_object.go\<close>) that draws nonces until one is unused runs on fuel here, and
  \<open>mint_bag_enough\<close> says how much is enough.
\<close>

section \<open>Go values stored in an interface\<close>

text \<open>
  The dynamic types the sources distinguish: strings, booleans, integers with their width
  (64 stands for \<^verbatim>\<open>int\<close> and \<^verbatim>\<open>int64\<close>), and floats. A float carries its bit pattern and a value of
  any other type its string rendering, the only things the code ever uses of them.
\<close>

datatype go_value =
    VString string
  | VBool bool
  | VInt nat int
  | VUint nat nat
  | VFloat nat uint64
  | VOther string

type_synonym bag = "string \<rightharpoonup> go_value"
type_synonym bags = "string \<rightharpoonup> bag"

definition StreamObjectIDKey :: string where
  "StreamObjectIDKey = ''up.stream_object_id''"

definition StreamObjects_Set :: "string \<Rightarrow> go_value \<Rightarrow> bag \<Rightarrow> bag" where
  "StreamObjects_Set key v b = b(key \<mapsto> v)"

definition StreamObjects_Get :: "string \<Rightarrow> bag \<Rightarrow> go_value option" where
  "StreamObjects_Get key b = b key"

definition LookupStreamObjectBag :: "string \<Rightarrow> bags \<Rightarrow> bag option" where
  "LookupStreamObjectBag nonce m = (if nonce = '''' then None else m nonce)"

text \<open>The second component is Go's \<open>loaded\<close>: whether the nonce was already present.\<close>

definition InsertStreamObjectBag :: "string \<Rightarrow> bags \<Rightarrow> bags \<times> bool" where
  "InsertStreamObjectBag nonce m =
     (case m nonce of Some existing \<Rightarrow> (m, True) | None \<Rightarrow> (m(nonce \<mapsto> Map.empty), False))"

definition DropStreamObjectBag :: "string \<Rightarrow> bags \<Rightarrow> bags" where
  "DropStreamObjectBag nonce m = (if nonce = '''' then m else m(nonce := None))"

definition StreamObjectBagCount :: "bags \<Rightarrow> nat" where
  "StreamObjectBagCount m = card (dom m)"

section \<open>Minting a bag\<close>

text \<open>
  \<open>rand k\<close> is the \<open>k\<close>-th nonce the process's random source yields (\<open>mintStreamObjectNonce\<close>).
  The loop returns the registry with the new empty bag, its nonce, and the next index.
\<close>

fun mint_bag :: "nat \<Rightarrow> (nat \<Rightarrow> string) \<Rightarrow> nat \<Rightarrow> bags \<Rightarrow> (bags \<times> string \<times> nat) option" where
  "mint_bag 0 rand k m = None"
| "mint_bag (Suc fuel) rand k m =
     (let nonce = rand k; (m', loaded) = InsertStreamObjectBag nonce m
      in if loaded then mint_bag fuel rand (Suc k) m else Some (m', nonce, Suc k))"

lemma mint_bag_SomeD:
  "mint_bag fuel rand k m = Some (m', nonce, k') \<Longrightarrow>
     m nonce = None \<and> m' = m(nonce \<mapsto> Map.empty) \<and> nonce \<in> range rand \<and> k < k'"
  by (induction fuel arbitrary: k)
     (auto simp: InsertStreamObjectBag_def Let_def split: option.splits, force)

lemma mint_bag_finds:
  "k \<le> i \<Longrightarrow> i < k + fuel \<Longrightarrow> m (rand i) = None \<Longrightarrow> \<exists>r. mint_bag fuel rand k m = Some r"
proof (induction fuel arbitrary: k)
  case (Suc fuel)
  show ?case
  proof (cases "m (rand k)")
    case (Some b)
    with Suc.prems have "Suc k \<le> i" by (cases "k = i") auto
    with Suc.IH [of "Suc k"] Suc.prems Some show ?thesis
      by (simp add: InsertStreamObjectBag_def Let_def)
  qed (simp add: InsertStreamObjectBag_def Let_def)
qed simp

text \<open>With distinct nonces, one more draw than there are live bags always finds a fresh one.\<close>

lemma mint_bag_enough:
  assumes "inj rand" "finite (dom m)" "StreamObjectBagCount m < fuel"
  shows "\<exists>m' nonce k'. mint_bag fuel rand k m = Some (m', nonce, k')"
proof -
  have "\<exists>i\<in>{k..<k + fuel}. m (rand i) = None"
  proof (rule ccontr)
    assume "\<not> ?thesis"
    then have "rand ` {k..<k + fuel} \<subseteq> dom m" by auto
    then have "card (rand ` {k..<k + fuel}) \<le> card (dom m)" by (rule card_mono [OF assms(2)])
    moreover have "card (rand ` {k..<k + fuel}) = fuel"
      using assms(1) by (subst card_image) (auto intro: inj_on_subset)
    ultimately show False using assms(3) by (simp add: StreamObjectBagCount_def)
  qed
  then obtain i where "k \<le> i" "i < k + fuel" "m (rand i) = None" by auto
  from mint_bag_finds [where rand = rand and m = m, OF this] show ?thesis by auto
qed

end
