(* ===== verification/Filter_State.thy ===== *)
theory Filter_State
  imports Stream_Objects
begin

text \<open>
  The data of the HTTP filter: the callout types and queued mutations of \<^verbatim>\<open>src/up/async.go\<close>, the
  per-stream \<open>filter\<close> of \<^verbatim>\<open>src/up/filter.go\<close> and the \<open>Writer\<close> view of \<^verbatim>\<open>src/up/writer.go\<close>.

  Envoy's SDK is not part of the repository. Its handle is modelled by what passes over it: every
  call the code makes on the handle is appended to the stream's \<open>events\<close>, and every answer
  is given by a parameter, the record \<open>envoy\<close>, whose fields take the events so far. User
  callbacks are scripts of Writer calls; their invocations are events too. All statements
  quantify over the scripts, so a callback may in effect depend on anything it can observe.
\<close>

section \<open>Callout data (async.go)\<close>

record callout_request =
  Cluster :: string
  Headers :: "header list"
  Body :: bytes
  TimeoutMillis :: uint64

datatype HTTPCalloutInitResult =
    HTTPCalloutInitSuccess
  | HTTPCalloutInitMissingRequiredHeaders
  | HTTPCalloutInitClusterNotFound
  | HTTPCalloutInitDuplicateCalloutID
  | HTTPCalloutInitCannotCreateRequest
  | HTTPCalloutInitUnknown uint32

datatype HTTPCalloutResult =
    HTTPCalloutSuccess
  | HTTPCalloutReset
  | HTTPCalloutExceedResponseBufferLimit
  | HTTPCalloutUnknown uint32

fun errCalloutInitResult :: "HTTPCalloutInitResult \<Rightarrow> string option" where
  "errCalloutInitResult HTTPCalloutInitSuccess = None"
| "errCalloutInitResult HTTPCalloutInitMissingRequiredHeaders =
     Some ''up: HTTP callout: missing required headers''"
| "errCalloutInitResult HTTPCalloutInitClusterNotFound = Some ''up: HTTP callout: cluster not found''"
| "errCalloutInitResult HTTPCalloutInitDuplicateCalloutID = Some ''up: HTTP callout: duplicate callout ID''"
| "errCalloutInitResult HTTPCalloutInitCannotCreateRequest =
     Some ''up: HTTP callout: cannot create request''"
| "errCalloutInitResult (HTTPCalloutInitUnknown r) =
     Some (''up: HTTP callout: unknown init result '' @ Itoa (unat r))"

fun errCalloutResult :: "HTTPCalloutResult \<Rightarrow> string option" where
  "errCalloutResult HTTPCalloutSuccess = None"
| "errCalloutResult HTTPCalloutReset = Some ''up: HTTP callout: reset''"
| "errCalloutResult HTTPCalloutExceedResponseBufferLimit =
     Some ''up: HTTP callout: response buffer limit exceeded''"
| "errCalloutResult (HTTPCalloutUnknown r) = Some (''up: HTTP callout: unknown result '' @ Itoa (unat r))"

text \<open>What a callout callback receives: the result, the response headers and the body chunks.\<close>

type_synonym callout_done = "HTTPCalloutResult \<times> header list \<times> bytes list"

record settled_response =
  Result :: HTTPCalloutResult
  Init :: HTTPCalloutInitResult
  Err :: "string option"
  RHeaders :: "header list"
  RBody :: "bytes list"

definition settled_OK :: "settled_response \<Rightarrow> bool" where
  "settled_OK r \<longleftrightarrow> Err r = None \<and> Init r = HTTPCalloutInitSuccess \<and> Result r = HTTPCalloutSuccess"

definition settled_Failed :: "settled_response \<Rightarrow> bool" where
  "settled_Failed r \<longleftrightarrow> \<not> settled_OK r"

text \<open>The zero value of a response slot: Go's zero of both enumerations is the success code.\<close>

definition settled_zero :: settled_response where
  "settled_zero = \<lparr>Result = HTTPCalloutSuccess, Init = HTTPCalloutInitSuccess, Err = None,
                   RHeaders = [], RBody = []\<rparr>"

definition settled_of_done :: "callout_done \<Rightarrow> settled_response" where
  "settled_of_done d = (case d of (r, hs, b) \<Rightarrow>
     \<lparr>Result = r, Init = HTTPCalloutInitSuccess, Err = errCalloutResult r, RHeaders = hs, RBody = b\<rparr>)"

definition settled_of_init :: "HTTPCalloutInitResult \<Rightarrow> settled_response" where
  "settled_of_init r = settled_zero\<lparr>Init := r, Err := errCalloutInitResult r\<rparr>"

record grpc_request =
  G_Cluster :: string
  G_Authority :: string
  G_Method :: string
  G_Message :: bytes
  G_TimeoutMillis :: uint64

record grpc_response =
  G_Result :: HTTPCalloutResult
  GRPCStatus :: uint32
  GRPCMessage :: string
  G_Body :: "bytes option"

section \<open>Queued mutations (async.go)\<close>

record requestHeaderMutation =
  m_name :: string
  m_value :: string
  m_del :: bool
  m_add :: bool

record localResponse =
  status :: uint32
  lr_headers :: "header list"
  lr_body :: bytes

datatype gaugeOp = gaugeOpSet | gaugeOpIncrement | gaugeOpDecrement

type_synonym filterStateMutation = "string \<times> bytes"
type_synonym counterMutation = "uint64 \<times> uint64 \<times> string list"
type_synonym gaugeMutation = "uint64 \<times> uint64 \<times> gaugeOp"
type_synonym histogramMutation = "uint64 \<times> uint64 \<times> string list"
type_synonym upstreamOverrideMutation = "string \<times> bool"
type_synonym dynamicMetadataMutation = "string \<times> string \<times> go_value"

section \<open>Callout handoff states (writer.go)\<close>

datatype calloutState = calloutStateActive | calloutStatePaused | calloutStateDone | calloutStateFlushed

fun calloutState_int :: "calloutState \<Rightarrow> nat" where
  "calloutState_int calloutStateActive = 0"
| "calloutState_int calloutStatePaused = 1"
| "calloutState_int calloutStateDone = 2"
| "calloutState_int calloutStateFlushed = 3"

instantiation calloutState :: linorder
begin

definition less_eq_calloutState :: "calloutState \<Rightarrow> calloutState \<Rightarrow> bool" where
  "less_eq_calloutState a b \<longleftrightarrow> calloutState_int a \<le> calloutState_int b"

definition less_calloutState :: "calloutState \<Rightarrow> calloutState \<Rightarrow> bool" where
  "less_calloutState a b \<longleftrightarrow> calloutState_int a < calloutState_int b"

instance
proof
  fix x y :: calloutState
  show "x \<le> y \<Longrightarrow> y \<le> x \<Longrightarrow> x = y"
    by (cases x; cases y) (simp_all add: less_eq_calloutState_def)
qed (auto simp: less_eq_calloutState_def less_calloutState_def)

end

section \<open>What passes over the handle\<close>

datatype hdrmap = RequestHdrs | ResponseHdrs
datatype bufref = BufferedRequest | CurrentBody | BufferedResponse

datatype call =
    CHdrSet hdrmap string string
  | CHdrAdd hdrmap string string
  | CHdrRemove hdrmap string
  | CSetFilterState string bytes
  | CIncrementCounter uint64 uint64 "string list"
  | CSetGauge uint64 uint64
  | CIncrementGauge uint64 uint64
  | CDecrementGauge uint64 uint64
  | CRecordHistogram uint64 uint64 "string list"
  | CSetMetadata string string go_value
  | CSetUpstreamOverrideHost string bool
  | CSendLocalResponse uint32 "header list" bytes string
  | CContinueRequest
  | CDrain bufref nat
  | CAppend bufref bytes
  | CHttpCallout callout_request
  | CStartHttpStream string "header list" bytes bool uint64
  | CGetScheduler
  | CLog nat string

record request =
  Method :: string
  Path :: string
  Host :: string
  FilterName :: string

record body_chunk =
  BC_Data :: bytes
  BC_EndStream :: bool
  BC_ContentEncoding :: string
  BC_ContentType :: string

record response_chunk =
  RC_StatusCode :: int
  RC_HasHeaders :: bool
  RC_Data :: bytes
  RC_EndStream :: bool
  RC_ContentEncoding :: string
  RC_ContentType :: string

datatype user_call =
    UHandler request
  | UBody body_chunk
  | UResponse response_chunk
  | UCallout callout_done
  | USettled "settled_response list"
  | USequenceNext nat
  | USequenceDone "settled_response list"
  | UGrpc grpc_response
  | UStreamComplete
  | UStreamFinalized

datatype event = Handle call | User user_call

type_synonym events = "event list"

section \<open>Writer calls a callback can make\<close>

datatype wop =
    OpSetRequestHeader string string
  | OpAddRequestHeader string string
  | OpRemoveRequestHeader string
  | OpSetFilterState string string
  | OpSetStreamObject string go_value
  | OpGetStreamObject string
  | OpSetUpstreamOverrideHost string bool
  | OpSetResponseHeader string string
  | OpAddResponseHeader string string
  | OpRemoveResponseHeader string
  | OpSetRequestBody bytes
  | OpSetResponseBody bytes
  | OpIncrementCounterLabels uint64 uint64 "string list"
  | OpIncrementGauge uint64 uint64
  | OpDecrementGauge uint64 uint64
  | OpSetGauge uint64 uint64
  | OpRecordHistogramLabels uint64 uint64 "string list"
  | OpSetMetadata string string go_value
  | OpAddLogAttrs "go_value list"
  | OpSendLocalResponse int bytes "header list"
  | OpLog nat string
  | OpHTTPCallout callout_request "callout_done \<Rightarrow> wop list"
  | OpHTTPCalloutAllSettled "callout_request list" "(settled_response list \<Rightarrow> wop list) option"
  | OpHTTPCalloutSequence
      "(nat \<Rightarrow> settled_response option \<Rightarrow> wop list \<times> callout_request option) option"
      "(settled_response list \<Rightarrow> wop list) option"
  | OpGRPCCallout grpc_request "(grpc_response \<Rightarrow> wop list) option"
  | OpGo

section \<open>The Writer and the filter\<close>

record writer =
  calloutCB :: bool
  calloutStarted :: bool
  w_goStarted :: bool
  directWrite :: bool

record allSettledBatch =
  b_fn :: "settled_response list \<Rightarrow> wop list"
  b_responses :: "settled_response list"
  b_remaining :: int
  b_flushed :: bool
  b_writer :: writer

record calloutSequence =
  s_next :: "nat \<Rightarrow> settled_response option \<Rightarrow> wop list \<times> callout_request option"
  s_done :: "settled_response list \<Rightarrow> wop list"
  s_responses :: "settled_response list"
  s_finished :: bool
  s_writer :: writer

record grpcStreamCallback =
  g_fn :: "grpc_response \<Rightarrow> wop list"
  g_once :: bool
  g_resp :: grpc_response
  g_body :: bytes
  g_writer :: writer

text \<open>
  A goroutine started by \<open>Writer.Go\<close>: still inside the user's function (with the Writer it
  captured), returned with its finish scheduled on the worker thread, or finished.
\<close>

datatype goroutine = GoRunning writer | GoScheduled | GoExited

text \<open>
  The fields of Go's \<open>filter\<close>, in its order. \<open>self\<close> stands for the address of the struct, which
  \<open>registerFinalized\<close> hands out; \<open>goCancelled\<close> says whether the context \<open>goCancel\<close> belongs to has
  been cancelled; the lists at the end are the heap objects the callout closures of this
  stream point to and the goroutines it started, and \<open>events\<close> is what has passed over the handle.
\<close>

record http_filter =
  f_name :: string
  handler :: "request \<Rightarrow> wop list"
  responseHandler :: "(response_chunk \<Rightarrow> wop list) option"
  requestBodyHandler :: "(body_chunk \<Rightarrow> wop list) option"
  onStreamComplete :: bool
  onStreamFinalized :: bool
  bufferBody :: bool
  mutableRequestBody :: bool
  logAttrs :: "(string \<times> go_value) list"
  logMetadataNS :: string
  reqID :: string
  reqLogAttrs :: "(string \<times> go_value) list"
  finalizedKey :: string
  streamObjectNonce :: string
  requestContentType :: string
  requestContentEncoding :: string
  responseContentType :: string
  responseContentEncoding :: string
  goStarted :: bool
  goScheduler :: bool
  goCancelled :: bool
  goCompleted :: bool
  stopped :: bool
  reqHeaders :: "requestHeaderMutation list"
  filterState :: "filterStateMutation list"
  counters :: "counterMutation list"
  gauges :: "gaugeMutation list"
  histograms :: "histogramMutation list"
  dynamicMetadata :: "dynamicMetadataMutation list"
  override :: "upstreamOverrideMutation option"
  localReply :: "localResponse option"
  stripFramingOnResume :: bool
  requestBodyReplacement :: bytes
  hasRequestBodyReplacement :: bool
  responseBodyReplacement :: bytes
  hasResponseBodyReplacement :: bool
  calloutFn :: "(callout_done \<Rightarrow> wop list) option"
  calloutWriter :: writer
  calloutState :: calloutState
  responseEndSeen :: bool
  streamDone :: bool
  localReplyBody :: string
  batches :: "allSettledBatch list"
  sequences :: "calloutSequence list"
  grpcs :: "grpcStreamCallback list"
  goroutines :: "goroutine list"
  self :: nat
  events :: events

text \<open>Process-wide state: the stream-object bags, the finalized registry, the random source.\<close>

record streamFinalizedEntry =
  e_fn :: bool
  e_ctx :: nat
  e_streamObjectNonce :: nat
  e_localReplyBody :: nat

record process =
  streamObjectBags :: bags
  streamFinalizedEntries :: "string \<rightharpoonup> streamFinalizedEntry"
  randIndex :: nat

record sys =
  fl :: http_filter
  pr :: process

section \<open>Envoy's answers\<close>

datatype stream_event =
    SHeaders "header list" bool
  | SData "bytes list" bool
  | STrailers "header list"
  | SComplete
  | SReset

record envoy =
  env_all_headers :: "events \<Rightarrow> header list"
  env_request_id :: "events \<Rightarrow> string option"
  env_filter_state :: "events \<Rightarrow> string \<Rightarrow> string option"
  env_buffered_request :: "events \<Rightarrow> bytes list option"
  env_buffered_response :: "events \<Rightarrow> bytes list"
  env_callout :: "events \<Rightarrow> callout_request \<Rightarrow> HTTPCalloutInitResult \<times> callout_done option"
  env_stream :: "events \<Rightarrow> call \<Rightarrow> HTTPCalloutInitResult \<times> stream_event list"
  env_rand :: "nat \<Rightarrow> string"
  env_fuel :: nat

end
