(* ===== verification/Writer_Ops.thy ===== *)
theory Writer_Ops
  imports Filter_State
begin

text \<open>
  The Writer's mutation methods (\<^verbatim>\<open>src/up/writer.go\<close>, \<^verbatim>\<open>src/up/metadata.go\<close>) and \<open>flush\<close>
  (\<^verbatim>\<open>src/up/filter.go\<close>). On the request path every mutation is queued on the filter and applied to
  Envoy by \<open>flush\<close> alone; a direct Writer applies it at once.
\<close>

named_theorems flush_defs \<open>the stages of flush\<close>
named_theorems op_defs \<open>the Writer's mutation methods\<close>

section \<open>Emitting calls\<close>

definition emit :: "call list \<Rightarrow> http_filter \<Rightarrow> http_filter" where
  "emit cs f = f\<lparr>events := events f @ map Handle cs\<rparr>"

definition user :: "user_call \<Rightarrow> http_filter \<Rightarrow> http_filter" where
  "user u f = f\<lparr>events := events f @ [User u]\<rparr>"

lemma events_emit [simp]: "events (emit cs f) = events f @ map Handle cs"
  by (simp add: emit_def)

lemma events_user [simp]: "events (user u f) = events f @ [User u]"
  by (simp add: user_def)

lemma emit_Nil [simp]: "emit [] f = f"
  by (simp add: emit_def)

lemma emit_emit [simp]: "emit ds (emit cs f) = emit (cs @ ds) f"
  by (simp add: emit_def)

section \<open>Queued or direct\<close>

definition queued :: "writer \<Rightarrow> http_filter \<Rightarrow> bool" where
  "queued w f \<longleftrightarrow> \<not> directWrite w \<or> goStarted f \<or> calloutStarted w"

definition SetRequestHeader :: "string \<Rightarrow> string \<Rightarrow> writer \<Rightarrow> http_filter \<Rightarrow> http_filter" where [op_defs]:
  "SetRequestHeader nm v w f =
     (if queued w f
      then f\<lparr>reqHeaders := reqHeaders f @ [\<lparr>m_name = nm, m_value = v, m_del = False, m_add = False\<rparr>]\<rparr>
      else emit [CHdrSet RequestHdrs nm v] f)"

definition AddRequestHeader :: "string \<Rightarrow> string \<Rightarrow> writer \<Rightarrow> http_filter \<Rightarrow> http_filter" where [op_defs]:
  "AddRequestHeader nm v w f =
     (if queued w f
      then f\<lparr>reqHeaders := reqHeaders f @ [\<lparr>m_name = nm, m_value = v, m_del = False, m_add = True\<rparr>]\<rparr>
      else emit [CHdrAdd RequestHdrs nm v] f)"

definition RemoveRequestHeader :: "string \<Rightarrow> writer \<Rightarrow> http_filter \<Rightarrow> http_filter" where [op_defs]:
  "RemoveRequestHeader nm w f =
     (if queued w f
      then f\<lparr>reqHeaders := reqHeaders f @ [\<lparr>m_name = nm, m_value = '''', m_del = True, m_add = False\<rparr>]\<rparr>
      else emit [CHdrRemove RequestHdrs nm] f)"

definition SetFilterState :: "string \<Rightarrow> string \<Rightarrow> writer \<Rightarrow> http_filter \<Rightarrow> http_filter" where [op_defs]:
  "SetFilterState k v w f =
     (if queued w f then f\<lparr>filterState := filterState f @ [(k, v)]\<rparr> else emit [CSetFilterState k v] f)"

definition GetFilterState :: "envoy \<Rightarrow> string \<Rightarrow> http_filter \<Rightarrow> string option" where
  "GetFilterState env k f = env_filter_state env (events f) k"

definition SetUpstreamOverrideHost :: "string \<Rightarrow> bool \<Rightarrow> writer \<Rightarrow> http_filter \<Rightarrow> http_filter" where [op_defs]:
  "SetUpstreamOverrideHost h strict w f =
     (if queued w f then f\<lparr>override := Some (h, strict)\<rparr> else emit [CSetUpstreamOverrideHost h strict] f)"

definition SetResponseHeader :: "string \<Rightarrow> string \<Rightarrow> http_filter \<Rightarrow> http_filter" where [op_defs]:
  "SetResponseHeader nm v f = emit [CHdrSet ResponseHdrs nm v] f"

definition AddResponseHeader :: "string \<Rightarrow> string \<Rightarrow> http_filter \<Rightarrow> http_filter" where [op_defs]:
  "AddResponseHeader nm v f = emit [CHdrAdd ResponseHdrs nm v] f"

definition RemoveResponseHeader :: "string \<Rightarrow> http_filter \<Rightarrow> http_filter" where [op_defs]:
  "RemoveResponseHeader nm f = emit [CHdrRemove ResponseHdrs nm] f"

definition SetRequestBody :: "bytes \<Rightarrow> http_filter \<Rightarrow> http_filter" where [op_defs]:
  "SetRequestBody d f =
     (if \<not> mutableRequestBody f then f
      else f\<lparr>requestBodyReplacement := d, hasRequestBodyReplacement := True\<rparr>)"

definition SetResponseBody :: "bytes \<Rightarrow> http_filter \<Rightarrow> http_filter" where [op_defs]:
  "SetResponseBody d f = f\<lparr>responseBodyReplacement := d, hasResponseBodyReplacement := True\<rparr>"

definition IncrementCounterLabels ::
    "uint64 \<Rightarrow> uint64 \<Rightarrow> string list \<Rightarrow> writer \<Rightarrow> http_filter \<Rightarrow> http_filter" where [op_defs]:
  "IncrementCounterLabels i d ls w f =
     (if queued w f then f\<lparr>counters := counters f @ [(i, d, ls)]\<rparr> else emit [CIncrementCounter i d ls] f)"

definition IncrementGauge :: "uint64 \<Rightarrow> uint64 \<Rightarrow> writer \<Rightarrow> http_filter \<Rightarrow> http_filter" where [op_defs]:
  "IncrementGauge i d w f =
     (if queued w f then f\<lparr>gauges := gauges f @ [(i, d, gaugeOpIncrement)]\<rparr> else emit [CIncrementGauge i d] f)"

definition DecrementGauge :: "uint64 \<Rightarrow> uint64 \<Rightarrow> writer \<Rightarrow> http_filter \<Rightarrow> http_filter" where [op_defs]:
  "DecrementGauge i d w f =
     (if queued w f then f\<lparr>gauges := gauges f @ [(i, d, gaugeOpDecrement)]\<rparr> else emit [CDecrementGauge i d] f)"

definition SetGauge :: "uint64 \<Rightarrow> uint64 \<Rightarrow> writer \<Rightarrow> http_filter \<Rightarrow> http_filter" where [op_defs]:
  "SetGauge i d w f =
     (if queued w f then f\<lparr>gauges := gauges f @ [(i, d, gaugeOpSet)]\<rparr> else emit [CSetGauge i d] f)"

definition RecordHistogramLabels ::
    "uint64 \<Rightarrow> uint64 \<Rightarrow> string list \<Rightarrow> writer \<Rightarrow> http_filter \<Rightarrow> http_filter" where [op_defs]:
  "RecordHistogramLabels i v ls w f =
     (if queued w f then f\<lparr>histograms := histograms f @ [(i, v, ls)]\<rparr> else emit [CRecordHistogram i v ls] f)"

definition Log :: "nat \<Rightarrow> string \<Rightarrow> http_filter \<Rightarrow> http_filter" where [op_defs]:
  "Log lvl msg f = emit [CLog lvl msg] f"

text \<open>
  \<open>SetMetadata\<close> panics on a value that is neither a string, a boolean nor a number.
\<close>

fun metadata_supported :: "go_value \<Rightarrow> bool" where
  "metadata_supported (VOther s) = False"
| "metadata_supported v = True"

definition SetMetadata :: "string \<Rightarrow> string \<Rightarrow> go_value \<Rightarrow> writer \<Rightarrow> http_filter \<Rightarrow> http_filter outcome" where [op_defs]:
  "SetMetadata ns k v w f =
     (if \<not> metadata_supported v
      then Inl (Panic ''up: SetMetadata: unsupported value type; use string, bool, or a numeric type'')
      else if queued w f then Inr (f\<lparr>dynamicMetadata := dynamicMetadata f @ [(ns, k, v)]\<rparr>)
      else Inr (emit [CSetMetadata ns k v] f))"

text \<open>
  Alternating keys and values; pairs whose key is not a string are skipped and a trailing key
  without a value is dropped.
\<close>

fun argsToAttrs :: "go_value list \<Rightarrow> (string \<times> go_value) list" where
  "argsToAttrs (VString k # v # kvs) = (k, v) # argsToAttrs kvs"
| "argsToAttrs (_ # _ # kvs) = argsToAttrs kvs"
| "argsToAttrs _ = []"

text \<open>
  \<open>slog\<close> stores every integer as \<^verbatim>\<open>int64\<close> or \<^verbatim>\<open>uint64\<close> and every float as \<^verbatim>\<open>float64\<close>; any other value
  falls back to its string rendering.
\<close>

fun attrToMetadataValue :: "go_value \<Rightarrow> go_value" where
  "attrToMetadataValue (VString s) = VString s"
| "attrToMetadataValue (VBool b) = VBool b"
| "attrToMetadataValue (VInt n i) = VInt 64 i"
| "attrToMetadataValue (VUint n i) = VUint 64 i"
| "attrToMetadataValue (VFloat n b) = VFloat 64 b"
| "attrToMetadataValue (VOther s) = VString s"

fun set_metadata_all :: "string \<Rightarrow> (string \<times> go_value) list \<Rightarrow> writer \<Rightarrow> http_filter \<Rightarrow> http_filter outcome" where
  "set_metadata_all ns [] w f = Inr f"
| "set_metadata_all ns ((k, v) # as) w f =
     obind (SetMetadata ns k (attrToMetadataValue v) w f) (set_metadata_all ns as w)"

definition AddLogAttrs :: "go_value list \<Rightarrow> writer \<Rightarrow> http_filter \<Rightarrow> http_filter outcome" where [op_defs]:
  "AddLogAttrs kvs w f =
     (let attrs = argsToAttrs kvs; f1 = f\<lparr>reqLogAttrs := reqLogAttrs f @ attrs\<rparr>
      in if logMetadataNS f \<noteq> '''' then set_metadata_all (logMetadataNS f) attrs w f1 else Inr f1)"

text \<open>Only the first local response of a stream takes effect.\<close>

definition SendLocalResponse :: "int \<Rightarrow> bytes \<Rightarrow> header list \<Rightarrow> writer \<Rightarrow> http_filter \<Rightarrow> http_filter" where [op_defs]:
  "SendLocalResponse st b hs w f =
     (if queued w f
      then (if localReply f = None
            then f\<lparr>localReplyBody := b,
                   localReply := Some \<lparr>status = word_of_int st, lr_headers = hs, lr_body = b\<rparr>,
                   stopped := True\<rparr>
            else f\<lparr>stopped := True\<rparr>)
      else if stopped f then f
      else (emit [CSendLocalResponse (word_of_int st) hs b ''''] (f\<lparr>localReplyBody := b\<rparr>))\<lparr>stopped := True\<rparr>)"

section \<open>Reading the request headers through the queue\<close>

text \<open>
  \<^verbatim>\<open>strings.EqualFold\<close> on header names, which HTTP restricts to ASCII: equality up to the case of
  the letters.
\<close>

definition lower_char :: "char \<Rightarrow> char" where
  "lower_char c = (if 65 \<le> (of_char c :: nat) \<and> (of_char c :: nat) \<le> 90 then char_of (of_char c + 32 :: nat) else c)"

definition ToLower :: "string \<Rightarrow> string" where
  "ToLower s = map lower_char s"

definition EqualFold :: "string \<Rightarrow> string \<Rightarrow> bool" where
  "EqualFold a b \<longleftrightarrow> ToLower a = ToLower b"

definition removeRequestHeader :: "header list \<Rightarrow> string \<Rightarrow> header list" where
  "removeRequestHeader hs nm = filter (\<lambda>h. \<not> EqualFold (fst h) nm) hs"

definition applyRequestHeaderMutation :: "header list \<Rightarrow> requestHeaderMutation \<Rightarrow> header list" where
  "applyRequestHeaderMutation hs m =
     (if m_del m then removeRequestHeader hs (m_name m)
      else if m_add m then hs @ [(m_name m, m_value m)]
      else removeRequestHeader hs (m_name m) @ [(m_name m, m_value m)])"

definition RequestHeaders :: "envoy \<Rightarrow> http_filter \<Rightarrow> header list" where
  "RequestHeaders env f =
     foldl applyRequestHeaderMutation (env_all_headers env (events f)) (reqHeaders f)"

definition RequestHeader :: "envoy \<Rightarrow> http_filter \<Rightarrow> string \<Rightarrow> string" where
  "RequestHeader env f nm =
     (case find (\<lambda>h. EqualFold (fst h) nm) (RequestHeaders env f) of Some h \<Rightarrow> snd h | None \<Rightarrow> '''')"

section \<open>flush\<close>

definition header_call :: "requestHeaderMutation \<Rightarrow> call" where
  "header_call m =
     (if m_del m then CHdrRemove RequestHdrs (m_name m)
      else if m_add m then CHdrAdd RequestHdrs (m_name m) (m_value m)
      else CHdrSet RequestHdrs (m_name m) (m_value m))"

fun gauge_call :: "gaugeMutation \<Rightarrow> call" where
  "gauge_call (i, v, gaugeOpSet) = CSetGauge i v"
| "gauge_call (i, v, gaugeOpIncrement) = CIncrementGauge i v"
| "gauge_call (i, v, gaugeOpDecrement) = CDecrementGauge i v"

definition buf_size :: "bytes list \<Rightarrow> nat" where
  "buf_size chunks = length (concat chunks)"

text \<open>
  Which buffer a replacement goes to, and its current size; \<open>current\<close> is the body argument of the
  running callback, if there is one.
\<close>

definition requestBodyReplacementBuffer ::
    "envoy \<Rightarrow> bytes list option \<Rightarrow> http_filter \<Rightarrow> (bufref \<times> nat) option" where
  "requestBodyReplacementBuffer env current f =
     (case env_buffered_request env (events f) of
        Some b \<Rightarrow> if buf_size b > 0 then Some (BufferedRequest, buf_size b)
                  else (case current of Some c \<Rightarrow> Some (CurrentBody, buf_size c)
                                      | None \<Rightarrow> Some (BufferedRequest, buf_size b))
      | None \<Rightarrow> (case current of Some c \<Rightarrow> Some (CurrentBody, buf_size c) | None \<Rightarrow> None))"

definition replace_calls :: "bufref \<times> nat \<Rightarrow> bytes \<Rightarrow> call list" where
  "replace_calls b d =
     [CDrain (fst b) (snd b), CAppend (fst b) d, CHdrSet RequestHdrs ''content-length'' (Itoa (length d))]"

definition flush_headers :: "http_filter \<Rightarrow> http_filter" where [flush_defs]:
  "flush_headers f = (emit (map header_call (reqHeaders f)) f)\<lparr>reqHeaders := []\<rparr>"

definition flush_strip :: "http_filter \<Rightarrow> http_filter" where [flush_defs]:
  "flush_strip f =
     (if stripFramingOnResume f
      then (emit [CHdrRemove RequestHdrs ''content-length'', CHdrRemove RequestHdrs ''transfer-encoding''] f)
             \<lparr>stripFramingOnResume := False\<rparr>
      else f)"

definition flush_state :: "http_filter \<Rightarrow> http_filter" where [flush_defs]:
  "flush_state f = (emit (map (\<lambda>(k, v). CSetFilterState k v) (filterState f)) f)\<lparr>filterState := []\<rparr>"

definition flush_metrics :: "http_filter \<Rightarrow> http_filter" where [flush_defs]:
  "flush_metrics f =
     (let f1 = (emit (map (\<lambda>(i, d, ls). CIncrementCounter i d ls) (counters f)) f)\<lparr>counters := []\<rparr>;
          f2 = (emit (map gauge_call (gauges f1)) f1)\<lparr>gauges := []\<rparr>
      in (emit (map (\<lambda>(i, v, ls). CRecordHistogram i v ls) (histograms f2)) f2)\<lparr>histograms := []\<rparr>)"

definition flush_metadata :: "http_filter \<Rightarrow> http_filter" where [flush_defs]:
  "flush_metadata f =
     (emit (map (\<lambda>(ns, k, v). CSetMetadata ns k v) (dynamicMetadata f)) f)\<lparr>dynamicMetadata := []\<rparr>"

definition flush_override :: "http_filter \<Rightarrow> http_filter" where [flush_defs]:
  "flush_override f =
     (case override f of
        Some (h, strict) \<Rightarrow> (emit [CSetUpstreamOverrideHost h strict] f)\<lparr>override := None\<rparr>
      | None \<Rightarrow> f)"

definition flush_body :: "envoy \<Rightarrow> http_filter \<Rightarrow> http_filter" where [flush_defs]:
  "flush_body env f =
     (if hasRequestBodyReplacement f
      then (let f1 = (case requestBodyReplacementBuffer env None f of
                        Some b \<Rightarrow> emit (replace_calls b (requestBodyReplacement f)) f
                      | None \<Rightarrow> f)
            in f1\<lparr>hasRequestBodyReplacement := False, requestBodyReplacement := []\<rparr>)
      else f)"

definition flush_resume :: "bool \<Rightarrow> http_filter \<Rightarrow> http_filter" where [flush_defs]:
  "flush_resume continueReq f =
     (let f1 = f\<lparr>stopped := False\<rparr> in if continueReq then emit [CContinueRequest] f1 else f1)"

definition flush :: "envoy \<Rightarrow> bool \<Rightarrow> http_filter \<Rightarrow> http_filter" where
  "flush env continueReq f =
     (case localReply f of
        Some r \<Rightarrow> (emit [CSendLocalResponse (status r) (lr_headers r) (lr_body r) ''''] f)\<lparr>localReply := None\<rparr>
      | None \<Rightarrow>
          flush_resume continueReq (flush_body env (flush_override (flush_metadata (flush_metrics
            (flush_state (flush_strip (flush_headers f))))))))"

section \<open>What flush does\<close>

text \<open>The calls flush makes when no local reply is pending, in order.\<close>

definition body_calls :: "envoy \<Rightarrow> events \<Rightarrow> http_filter \<Rightarrow> call list" where
  "body_calls env ev f =
     (if hasRequestBodyReplacement f
      then (case requestBodyReplacementBuffer env None (f\<lparr>events := ev\<rparr>) of
              Some b \<Rightarrow> replace_calls b (requestBodyReplacement f) | None \<Rightarrow> [])
      else [])"

definition queue_calls :: "http_filter \<Rightarrow> call list" where
  "queue_calls f =
     map header_call (reqHeaders f)
     @ (if stripFramingOnResume f
        then [CHdrRemove RequestHdrs ''content-length'', CHdrRemove RequestHdrs ''transfer-encoding'']
        else [])
     @ map (\<lambda>(k, v). CSetFilterState k v) (filterState f)
     @ map (\<lambda>(i, d, ls). CIncrementCounter i d ls) (counters f)
     @ map gauge_call (gauges f)
     @ map (\<lambda>(i, v, ls). CRecordHistogram i v ls) (histograms f)
     @ map (\<lambda>(ns, k, v). CSetMetadata ns k v) (dynamicMetadata f)
     @ (case override f of Some (h, strict) \<Rightarrow> [CSetUpstreamOverrideHost h strict] | None \<Rightarrow> [])"

definition flush_calls :: "envoy \<Rightarrow> bool \<Rightarrow> http_filter \<Rightarrow> call list" where
  "flush_calls env continueReq f =
     queue_calls f @ body_calls env (events f @ map Handle (queue_calls f)) f
     @ (if continueReq then [CContinueRequest] else [])"

definition drained :: "http_filter \<Rightarrow> http_filter" where
  "drained f = f\<lparr>reqHeaders := [], stripFramingOnResume := False, filterState := [], counters := [],
     gauges := [], histograms := [], dynamicMetadata := [], override := None,
     hasRequestBodyReplacement := False,
     requestBodyReplacement := (if hasRequestBodyReplacement f then [] else requestBodyReplacement f),
     stopped := False\<rparr>"

lemma flush_local_reply:
  "localReply f = Some r \<Longrightarrow>
     flush env c f = (emit [CSendLocalResponse (status r) (lr_headers r) (lr_body r) ''''] f)\<lparr>localReply := None\<rparr>"
  by (simp add: flush_def)

lemma flush_no_reply:
  assumes "localReply f = None"
  shows "flush env c f = emit (flush_calls env c f) (drained f)"
proof -
  let ?g = "flush_override (flush_metadata (flush_metrics (flush_state (flush_strip (flush_headers f)))))"
  have g: "?g = (emit (queue_calls f) f)\<lparr>reqHeaders := [], stripFramingOnResume := False, filterState := [],
     counters := [], gauges := [], histograms := [], dynamicMetadata := [], override := None\<rparr>"
    by (cases "stripFramingOnResume f"; cases "override f")
       (auto simp: flush_headers_def flush_strip_def flush_state_def flush_metrics_def flush_metadata_def
         flush_override_def queue_calls_def emit_def Let_def)
  have "flush env c f = flush_resume c (flush_body env ?g)"
    using assms by (simp add: flush_def)
  also have "\<dots> = emit (flush_calls env c f) (drained f)"
    unfolding g
    by (cases "hasRequestBodyReplacement f"; cases c)
       (auto simp: flush_body_def flush_resume_def flush_calls_def body_calls_def drained_def emit_def Let_def
          requestBodyReplacementBuffer_def split: option.splits)
  finally show ?thesis .
qed

end
