(* ===== verification/Grpc_Codec.thy ===== *)
theory Grpc_Codec
  imports Transit_Prelude
begin

text \<open>
  The gRPC framing and header parsing of \<^verbatim>\<open>src/up/grpc.go\<close>: the 5-byte length-prefix frame, the
  \<^verbatim>\<open>grpc-status\<close> and \<^verbatim>\<open>grpc-message\<close> headers, and the standard library functions they call
  (\<^verbatim>\<open>binary.BigEndian\<close>, \<^verbatim>\<open>strconv.ParseUint\<close>, \<^verbatim>\<open>url.QueryUnescape\<close>). Go's \<^verbatim>\<open>int\<close> has 64 bits on the
  platforms Envoy runs on, so \<open>5 + int(msgLen)\<close> does not wrap and is an \<^typ>\<open>int\<close> here.
\<close>

section \<open>Big-endian words\<close>

definition PutUint32 :: "uint32 \<Rightarrow> bytes" where
  "PutUint32 v = [char_of (unat v div 2 ^ 24), char_of (unat v div 2 ^ 16), char_of (unat v div 2 ^ 8), char_of (unat v)]"

definition Uint32 :: "bytes \<Rightarrow> uint32" where
  "Uint32 b = word_of_nat (of_char (b ! 0) * 2 ^ 24 + of_char (b ! 1) * 2 ^ 16 + of_char (b ! 2) * 2 ^ 8 + of_char (b ! 3))"

lemma length_PutUint32 [simp]: "length (PutUint32 v) = 4"
  by (simp add: PutUint32_def)

lemma be_digits: "(n::nat) div 2 ^ 24 mod 256 * 2 ^ 24 + n div 2 ^ 16 mod 256 * 2 ^ 16 + n div 2 ^ 8 mod 256 * 2 ^ 8 + n mod 256
    = n mod 2 ^ 32"
proof -
  have "n mod 2 ^ 32 = n mod 2 ^ 24 + n div 2 ^ 24 mod 256 * 2 ^ 24"
    using mod_mult2_eq [of n "2 ^ 24" 256] by simp
  moreover have "n mod 2 ^ 24 = n mod 2 ^ 16 + n div 2 ^ 16 mod 256 * 2 ^ 16"
    using mod_mult2_eq [of n "2 ^ 16" 256] by simp
  moreover have "n mod 2 ^ 16 = n mod 2 ^ 8 + n div 2 ^ 8 mod 256 * 2 ^ 8"
    using mod_mult2_eq [of n "2 ^ 8" 256] by simp
  ultimately show ?thesis by simp
qed

lemma Uint32_PutUint32 [simp]: "Uint32 (PutUint32 v @ rest) = v"
proof -
  have "Uint32 (PutUint32 v @ rest) = word_of_nat (unat v mod 2 ^ 32)"
    unfolding Uint32_def PutUint32_def by (simp only: be_digits [symmetric]) (simp add: of_char_of)
  also have "\<dots> = v" by (simp add: unsigned_less [of v, simplified])
  finally show ?thesis .
qed

lemma of_char_bound: "(of_char c :: nat) < 256"
  by (metis char_of_char of_char_of mod_less_divisor zero_less_numeral)

lemma PutUint32_Uint32:
  assumes "length b = 4"
  shows "PutUint32 (Uint32 b) = b"
proof -
  from assms obtain c0 c1 c2 c3 where b: "b = [c0, c1, c2, c3]"
    by (auto simp: numeral_eq_Suc length_Suc_conv)
  define a0 a1 a2 a3 :: nat
    where a: "a0 = of_char c0" "a1 = of_char c1" "a2 = of_char c2" "a3 = of_char c3"
  have lt: "a0 < 256" "a1 < 256" "a2 < 256" "a3 < 256" by (simp_all add: a of_char_bound)
  let ?n = "a0 * 2 ^ 24 + a1 * 2 ^ 16 + a2 * 2 ^ 8 + a3"
  have n: "unat (Uint32 b) = ?n"
    unfolding Uint32_def unsigned_of_nat
    using lt by (subst take_bit_nat_eq_self) (simp_all add: b a [symmetric])
  have d: "?n div 2 ^ 24 = a0" "?n div 2 ^ 16 = a0 * 256 + a1" "?n div 2 ^ 8 = (a0 * 256 + a1) * 256 + a2"
    using lt by (auto intro!: div_nat_eqI)
  have c: "char_of (k * 256 + m) = (char_of m :: char)" for k m :: nat
    by (simp add: char_of_eq_iff of_char_of take_bit_eq_mod)
  have e: "?n = (a0 * 2 ^ 16 + a1 * 2 ^ 8 + a2) * 256 + a3" by simp
  have "char_of ?n = (char_of a3 :: char)" unfolding e by (rule c)
  then have "PutUint32 (Uint32 b) = [char_of a0, char_of a1, char_of a2, char_of a3]"
    unfolding PutUint32_def n d c by simp
  then show ?thesis by (simp add: b a)
qed

section \<open>Frames\<close>

definition encodeGRPCFrame :: "bytes \<Rightarrow> bytes" where
  "encodeGRPCFrame msg = [CHR 0x00] @ PutUint32 (word_of_nat (length msg)) @ msg"

text \<open>\<^const>\<open>None\<close> is Go's nil slice.\<close>

definition decodeGRPCFrame :: "bytes \<Rightarrow> bytes option" where
  "decodeGRPCFrame raw =
     (if length raw < 5 then None
      else if raw ! 0 \<noteq> CHR 0x00 then None
      else let msgLen = Uint32 (take 4 (drop 1 raw)); end' = 5 + uint msgLen
           in if end' < 5 \<or> end' > int (length raw) then None
              else Some (take (nat end' - 5) (drop 5 raw)))"

definition decodeGRPCBody :: "bytes list \<Rightarrow> bytes option" where
  "decodeGRPCBody chunks = decodeGRPCFrame (concat chunks)"

section \<open>Status and message headers\<close>

text \<open>\<^verbatim>\<open>strconv.ParseUint(s, 10, 32)\<close>.\<close>

definition ParseUint32 :: "string \<Rightarrow> uint32 option" where
  "ParseUint32 s =
     (if s \<noteq> [] \<and> list_all is_digit s \<and> digits_value s < 2 ^ 32 then Some (word_of_nat (digits_value s)) else None)"

definition hex_value :: "char \<Rightarrow> nat option" where
  "hex_value c =
     (let n = of_char c :: nat in
      if 48 \<le> n \<and> n \<le> 57 then Some (n - 48)
      else if 97 \<le> n \<and> n \<le> 102 then Some (n - 87)
      else if 65 \<le> n \<and> n \<le> 70 then Some (n - 55)
      else None)"

text \<open>\<^verbatim>\<open>url.QueryUnescape\<close>: percent escapes, and a plus sign for a space.\<close>

fun QueryUnescape :: "string \<Rightarrow> string option" where
  "QueryUnescape [] = Some []"
| "QueryUnescape (c # s) =
     (if c = CHR ''%''
      then (case s of
              a # b # rest \<Rightarrow>
                (case (hex_value a, hex_value b) of
                   (Some x, Some y) \<Rightarrow> map_option ((#) (char_of (16 * x + y))) (QueryUnescape rest)
                 | _ \<Rightarrow> None)
            | _ \<Rightarrow> None)
      else map_option ((#) (if c = CHR ''+'' then CHR '' '' else c)) (QueryUnescape s))"

definition decodeGRPCMessage :: "string \<Rightarrow> string" where
  "decodeGRPCMessage msg = (case QueryUnescape msg of Some d \<Rightarrow> d | None \<Rightarrow> msg)"

fun parseGRPCHeaders_from :: "header list \<Rightarrow> uint32 \<times> string \<Rightarrow> uint32 \<times> string" where
  "parseGRPCHeaders_from [] sm = sm"
| "parseGRPCHeaders_from ((k, v) # hs) (st, msg) =
     parseGRPCHeaders_from hs
       (if k = ''grpc-status'' then (case ParseUint32 v of Some n \<Rightarrow> n | None \<Rightarrow> st, msg)
        else if k = ''grpc-message'' then (st, decodeGRPCMessage v)
        else (st, msg))"

definition parseGRPCHeaders :: "header list \<Rightarrow> uint32 \<times> string" where
  "parseGRPCHeaders hs = parseGRPCHeaders_from hs (0, '''')"

section \<open>Properties\<close>

text \<open>A message shorter than 4 GiB survives the frame: decoding an encoded message, however the
  transport cut it into chunks and whatever follows it, gives it back.\<close>

lemma grpc_frame_roundtrip:
  assumes "length msg < 2 ^ 32" and "concat chunks = encodeGRPCFrame msg @ rest"
  shows "decodeGRPCBody chunks = Some msg"
proof -
  have "uint (word_of_nat (length msg) :: uint32) = int (length msg)"
    using assms(1) by (simp add: uint_word_of_int of_nat_mod take_bit_nat_eq_self unsigned_of_nat)
  moreover have "take 4 (drop 1 (encodeGRPCFrame msg @ rest)) = PutUint32 (word_of_nat (length msg))"
    by (simp add: encodeGRPCFrame_def)
  ultimately show ?thesis
    using Uint32_PutUint32 [of _ "[]"]
    by (simp add: decodeGRPCBody_def decodeGRPCFrame_def assms(2) Let_def)
       (simp add: encodeGRPCFrame_def)
qed

lemma grpc_frame_roundtrip_example:
  "concat [encodeGRPCFrame ''hello'', ''xy''] = encodeGRPCFrame ''hello'' @ ''xy''
   \<and> decodeGRPCBody [encodeGRPCFrame ''hello'', ''xy''] = Some ''hello''"
  using grpc_frame_roundtrip [of "''hello''" "[encodeGRPCFrame ''hello'', ''xy'']" "''xy''"] by simp

text \<open>Decoding accepts exactly the frames with a clear compression flag whose announced length
  is available; the result is the announced number of bytes after the prefix.\<close>

lemma decode_frame_sound:
  "decodeGRPCFrame raw = Some msg \<longleftrightarrow>
     (\<exists>v rest. raw = [CHR 0x00] @ PutUint32 v @ msg @ rest \<and> length msg = unat v)"
proof
  assume dec: "decodeGRPCFrame raw = Some msg"
  define v where "v = Uint32 (take 4 (drop 1 raw))"
  from dec have len: "\<not> length raw < 5" and z: "raw ! 0 = CHR 0x00"
    and le: "5 + uint v \<le> int (length raw)" and m: "msg = take (unat v) (drop 5 raw)"
    by (auto simp: decodeGRPCFrame_def v_def Let_def nat_add_distrib split: if_splits)
  define rest where "rest = drop (unat v) (drop 5 raw)"
  have h1: "take 4 (drop 1 raw) = PutUint32 v"
    unfolding v_def using len by (simp add: PutUint32_Uint32)
  have h2: "drop 5 raw = msg @ rest"
    unfolding m rest_def by (rule append_take_drop_id [symmetric])
  have "raw = [raw ! 0] @ take 4 (drop 1 raw) @ drop 5 raw"
    using len append_take_drop_id [of 4 "drop 1 raw"] by (cases raw) (simp_all add: drop_drop)
  also have "\<dots> = [CHR 0x00] @ PutUint32 v @ msg @ rest" by (simp only: z h1 h2)
  finally have raw: "raw = [CHR 0x00] @ PutUint32 v @ msg @ rest" .
  have "uint v = int (unat v)" by simp
  with le len have "unat v \<le> length raw - 5" by linarith
  then have "length msg = unat v" by (simp add: m)
  with raw show "\<exists>v rest. raw = [CHR 0x00] @ PutUint32 v @ msg @ rest \<and> length msg = unat v" by blast
next
  assume "\<exists>v rest. raw = [CHR 0x00] @ PutUint32 v @ msg @ rest \<and> length msg = unat v"
  then obtain v rest where "raw = [CHR 0x00] @ PutUint32 v @ msg @ rest" "length msg = unat v" by blast
  then show "decodeGRPCFrame raw = Some msg"
    using Uint32_PutUint32 [of v "[]"] by (simp add: decodeGRPCFrame_def Let_def nat_add_distrib)
qed

end
