(* ===== verification/Callouts.thy ===== *)
theory Callouts
  imports Writer_Ops Grpc_Codec
begin

text \<open>
  The asynchronous part of the Writer: \<open>HTTPCallout\<close>, \<open>HTTPCalloutAllSettled\<close>,
  \<open>HTTPCalloutSequence\<close> and \<open>Go\<close> of \<^verbatim>\<open>src/up/writer.go\<close>, \<open>GRPCCallout\<close> of \<^verbatim>\<open>src/up/grpc.go\<close>, the
  stream objects of \<^verbatim>\<open>src/up/stream_object.go\<close>, and \<open>OnHttpCalloutDone\<close> with the
  Active/Paused/Done/Flushed handoff of \<^verbatim>\<open>src/up/filter.go\<close>. Envoy may answer a callout inside the
  call that starts it; the answer then arrives before that call returns.

  A callback of a callout runs with the Writer that started it, whose \<open>calloutStarted\<close> is set, so
  starting another callout or a goroutine from it panics; \<open>run_mut\<close> runs scripts in that position.
  \<open>HTTPCalloutSequence\<close> may step forever when Envoy answers every callout at once; its recursion
  is bounded by the fuel \<open>env_fuel\<close>, and running out is the outcome \<^const>\<open>Hang\<close>.
\<close>

section \<open>Stream objects\<close>

definition getOrCreateBag :: "envoy \<Rightarrow> writer \<Rightarrow> sys \<Rightarrow> sys outcome" where
  "getOrCreateBag env w s =
     (let f = fl s; p = pr s in
      if streamObjectNonce f \<noteq> '''' \<and> LookupStreamObjectBag (streamObjectNonce f) (streamObjectBags p) \<noteq> None
      then Inr s
      else (case mint_bag (env_fuel env) (env_rand env) (randIndex p) (streamObjectBags p) of
              None \<Rightarrow> Inl Hang
            | Some (m, nonce, k) \<Rightarrow>
                Inr \<lparr>fl = SetFilterState StreamObjectIDKey nonce w (f\<lparr>streamObjectNonce := nonce\<rparr>),
                     pr = p\<lparr>streamObjectBags := m, randIndex := k\<rparr>\<rparr>))"

definition SetStreamObject :: "envoy \<Rightarrow> string \<Rightarrow> go_value \<Rightarrow> writer \<Rightarrow> sys \<Rightarrow> sys outcome" where
  "SetStreamObject env k v w s =
     obind (getOrCreateBag env w s) (\<lambda>s1.
       let n = streamObjectNonce (fl s1); m = streamObjectBags (pr s1) in
       Inr (s1\<lparr>pr := (pr s1)\<lparr>streamObjectBags :=
         m(n := map_option (StreamObjects_Set k v) (m n))\<rparr>\<rparr>))"

definition GetStreamObject :: "envoy \<Rightarrow> string \<Rightarrow> sys \<Rightarrow> go_value option \<times> sys" where
  "GetStreamObject env k s =
     (let look = (\<lambda>s. (case LookupStreamObjectBag (streamObjectNonce (fl s)) (streamObjectBags (pr s)) of
                         None \<Rightarrow> None | Some b \<Rightarrow> StreamObjects_Get k b))
      in if streamObjectNonce (fl s) = ''''
         then (case GetFilterState env StreamObjectIDKey (fl s) of
                 None \<Rightarrow> (None, s)
               | Some nonce \<Rightarrow>
                   if nonce = '''' then (None, s)
                   else (let s1 = s\<lparr>fl := (fl s)\<lparr>streamObjectNonce := nonce\<rparr>\<rparr> in (look s1, s1)))
         else (look s, s))"

definition dropBag :: "string \<Rightarrow> process \<Rightarrow> process" where
  "dropBag nonce p = p\<lparr>streamObjectBags := DropStreamObjectBag nonce (streamObjectBags p)\<rparr>"

section \<open>Scripts that only mutate\<close>

definition on_fl :: "(http_filter \<Rightarrow> http_filter) \<Rightarrow> sys \<Rightarrow> sys" where
  "on_fl g s = s\<lparr>fl := g (fl s)\<rparr>"

definition try_fl :: "(http_filter \<Rightarrow> http_filter outcome) \<Rightarrow> sys \<Rightarrow> sys outcome" where
  "try_fl g s = obind (g (fl s)) (\<lambda>f. Inr (s\<lparr>fl := f\<rparr>))"

lemma fl_on_fl [simp]: "fl (on_fl g s) = g (fl s)" "pr (on_fl g s) = pr s"
  by (simp_all add: on_fl_def)

text \<open>The panic of a call that may not follow \<open>Go\<close> or another callout on the same Writer.\<close>

fun start_panic :: "wop \<Rightarrow> writer \<Rightarrow> string" where
  "start_panic OpGo w =
     (if w_goStarted w then ''up: Go called twice on the same request''
      else ''up: Go cannot be started after HTTPCallout'')"
| "start_panic (OpHTTPCallout r fn) w = ''up: HTTPCallout cannot be started after Go or another HTTPCallout''"
| "start_panic (OpHTTPCalloutAllSettled rs fn) w =
     ''up: HTTPCalloutAllSettled cannot be started after Go or another HTTPCallout''"
| "start_panic (OpHTTPCalloutSequence nx dn) w =
     ''up: HTTPCalloutSequence cannot be started after Go or another HTTPCallout''"
| "start_panic (OpGRPCCallout r fn) w =
     (if fn = None then ''up: GRPCCallout called with nil callback''
      else ''up: GRPCCallout cannot be started after Go or another callout'')"
| "start_panic _ w = ''''"

fun run_mut :: "envoy \<Rightarrow> writer \<Rightarrow> wop \<Rightarrow> sys \<Rightarrow> sys outcome" where
  "run_mut env w (OpSetRequestHeader n v) s = Inr (on_fl (SetRequestHeader n v w) s)"
| "run_mut env w (OpAddRequestHeader n v) s = Inr (on_fl (AddRequestHeader n v w) s)"
| "run_mut env w (OpRemoveRequestHeader n) s = Inr (on_fl (RemoveRequestHeader n w) s)"
| "run_mut env w (OpSetFilterState k v) s = Inr (on_fl (SetFilterState k v w) s)"
| "run_mut env w (OpSetStreamObject k v) s = SetStreamObject env k v w s"
| "run_mut env w (OpGetStreamObject k) s = Inr (snd (GetStreamObject env k s))"
| "run_mut env w (OpSetUpstreamOverrideHost h b) s = Inr (on_fl (SetUpstreamOverrideHost h b w) s)"
| "run_mut env w (OpSetResponseHeader n v) s = Inr (on_fl (SetResponseHeader n v) s)"
| "run_mut env w (OpAddResponseHeader n v) s = Inr (on_fl (AddResponseHeader n v) s)"
| "run_mut env w (OpRemoveResponseHeader n) s = Inr (on_fl (RemoveResponseHeader n) s)"
| "run_mut env w (OpSetRequestBody d) s = Inr (on_fl (SetRequestBody d) s)"
| "run_mut env w (OpSetResponseBody d) s = Inr (on_fl (SetResponseBody d) s)"
| "run_mut env w (OpIncrementCounterLabels i d ls) s = Inr (on_fl (IncrementCounterLabels i d ls w) s)"
| "run_mut env w (OpIncrementGauge i d) s = Inr (on_fl (IncrementGauge i d w) s)"
| "run_mut env w (OpDecrementGauge i d) s = Inr (on_fl (DecrementGauge i d w) s)"
| "run_mut env w (OpSetGauge i d) s = Inr (on_fl (SetGauge i d w) s)"
| "run_mut env w (OpRecordHistogramLabels i v ls) s = Inr (on_fl (RecordHistogramLabels i v ls w) s)"
| "run_mut env w (OpSetMetadata ns k v) s = try_fl (SetMetadata ns k v w) s"
| "run_mut env w (OpAddLogAttrs kvs) s = try_fl (AddLogAttrs kvs w) s"
| "run_mut env w (OpSendLocalResponse st b hs) s = Inr (on_fl (SendLocalResponse st b hs w) s)"
| "run_mut env w (OpLog l m) s = Inr (on_fl (Log l m) s)"
| "run_mut env w op s = Inl (Panic (start_panic op w))"

fun run_script :: "envoy \<Rightarrow> writer \<Rightarrow> wop list \<Rightarrow> sys \<Rightarrow> sys outcome" where
  "run_script env w [] s = Inr s"
| "run_script env w (op # ops) s = obind (run_mut env w op s) (run_script env w ops)"

section \<open>The handoff\<close>

definition calloutCAS :: "calloutState \<Rightarrow> calloutState \<Rightarrow> http_filter \<Rightarrow> bool \<times> http_filter" where
  "calloutCAS old new f =
     (if calloutState f = old then (True, f\<lparr>calloutState := new\<rparr>) else (False, f))"

text \<open>
  What every callout completion does after the user's callback: resume a paused stream, or leave
  the flush to the request callback that is still running.
\<close>

definition settle_callout :: "envoy \<Rightarrow> http_filter \<Rightarrow> http_filter" where
  "settle_callout env f =
     (let (won, f1) = calloutCAS calloutStatePaused calloutStateFlushed f
      in if won then flush env True f1
         else snd (calloutCAS calloutStateActive calloutStateDone f1))"

definition OnHttpCalloutDone :: "envoy \<Rightarrow> callout_done \<Rightarrow> sys \<Rightarrow> sys outcome" where
  "OnHttpCalloutDone env d s =
     (case calloutFn (fl s) of
        None \<Rightarrow> Inr s
      | Some fn \<Rightarrow>
          if streamDone (fl s) then Inr s
          else obind (run_script env (calloutWriter (fl s)) (fn d)
                       (on_fl (\<lambda>f. user (UCallout d) (f\<lparr>calloutFn := None\<rparr>)) s))
                 (\<lambda>s1. Inr (on_fl (settle_callout env) s1)))"

definition pausePendingCallout :: "bool \<Rightarrow> http_filter \<Rightarrow> bool \<times> http_filter" where
  "pausePendingCallout started f =
     (if \<not> started then (False, f) else calloutCAS calloutStateActive calloutStatePaused f)"

definition flushCompletedCallout :: "bool \<Rightarrow> http_filter \<Rightarrow> http_filter" where
  "flushCompletedCallout started f =
     (if \<not> started then f else snd (calloutCAS calloutStateDone calloutStateFlushed f))"

section \<open>HTTPCallout\<close>

definition HTTPCallout ::
    "envoy \<Rightarrow> callout_request \<Rightarrow> (callout_done \<Rightarrow> wop list) \<Rightarrow> writer \<times> sys \<Rightarrow> (writer \<times> sys) outcome" where
  "HTTPCallout env req fn ws =
     (let (w, s) = ws in
      if calloutStarted w \<or> w_goStarted w then Inl (Panic (start_panic (OpHTTPCallout req fn) w))
      else
        let w1 = w\<lparr>calloutStarted := True\<rparr>;
            s1 = on_fl (\<lambda>f. f\<lparr>calloutFn := Some fn, calloutWriter := w1, calloutState := calloutStateActive\<rparr>) s;
            (init, immediate) = env_callout env (events (fl s1)) req;
            s2 = on_fl (emit [CHttpCallout req]) s1
        in obind (case immediate of
                    Some d \<Rightarrow> if calloutCB w then OnHttpCalloutDone env d s2 else Inr s2
                  | None \<Rightarrow> Inr s2)
             (\<lambda>s3. if init \<noteq> HTTPCalloutInitSuccess
                   then Inr (w, on_fl (\<lambda>f. f\<lparr>calloutFn := None, calloutState := calloutStateActive\<rparr>) s3)
                   else Inr (w1, s3)))"

section \<open>HTTPCalloutAllSettled\<close>

definition batch_finish :: "envoy \<Rightarrow> nat \<Rightarrow> nat \<Rightarrow> settled_response \<Rightarrow> sys \<Rightarrow> sys outcome" where
  "batch_finish env bid i resp s =
     (if bid \<ge> length (batches (fl s)) then Inr s
      else
        let b = batches (fl s) ! bid in
        if b_flushed b then Inr s
        else
          let b1 = b\<lparr>b_responses := (b_responses b)[i := resp], b_remaining := b_remaining b - 1\<rparr> in
          if b_remaining b1 > 0 then Inr (on_fl (\<lambda>f. f\<lparr>batches := (batches f)[bid := b1]\<rparr>) s)
          else
            let s1 = on_fl (\<lambda>f. f\<lparr>batches := (batches f)[bid := b1\<lparr>b_flushed := True\<rparr>]\<rparr>) s in
            if streamDone (fl s1) then Inr s1
            else obind (run_script env (b_writer b) (b_fn b (b_responses b1))
                         (on_fl (user (USettled (b_responses b1))) s1))
                   (\<lambda>s2. if streamDone (fl s2) then Inr s2 else Inr (on_fl (settle_callout env) s2)))"

fun batch_start :: "envoy \<Rightarrow> nat \<Rightarrow> nat \<Rightarrow> callout_request list \<Rightarrow> sys \<Rightarrow> sys outcome" where
  "batch_start env bid i [] s = Inr s"
| "batch_start env bid i (req # reqs) s =
     (let (init, immediate) = env_callout env (events (fl s)) req;
          s1 = on_fl (emit [CHttpCallout req]) s
      in obind (case immediate of
                  Some d \<Rightarrow> batch_finish env bid i (settled_of_done d) s1
                | None \<Rightarrow> Inr s1) (\<lambda>s2.
         obind (if init \<noteq> HTTPCalloutInitSuccess
                then batch_finish env bid i (settled_of_init init) s2
                else Inr s2)
           (batch_start env bid (Suc i) reqs)))"

text \<open>The part of \<open>HTTPCalloutAllSettled\<close> after its guards, for a non-empty request list.\<close>

definition start_batch ::
    "envoy \<Rightarrow> callout_request list \<Rightarrow> (settled_response list \<Rightarrow> wop list) \<Rightarrow> writer \<times> sys \<Rightarrow> (writer \<times> sys) outcome" where
  "start_batch env reqs fn ws =
     (let (w, s) = ws;
          w1 = w\<lparr>calloutStarted := True\<rparr>;
          bid = length (batches (fl s));
          b = \<lparr>b_fn = fn, b_responses = replicate (length reqs) settled_zero,
               b_remaining = int (length reqs), b_flushed = False, b_writer = w1\<rparr>;
          s1 = on_fl (\<lambda>f. f\<lparr>calloutState := calloutStateActive, batches := batches f @ [b]\<rparr>) s
      in obind (batch_start env bid 0 reqs s1) (\<lambda>s2. Inr (w1, s2)))"

section \<open>HTTPCalloutSequence\<close>

definition sequence_finish :: "envoy \<Rightarrow> nat \<Rightarrow> sys \<Rightarrow> sys outcome" where
  "sequence_finish env qid s =
     (let q = sequences (fl s) ! qid in
      if s_finished q \<or> streamDone (fl s) then Inr s
      else
        let s1 = on_fl (\<lambda>f. user (USequenceDone (s_responses q))
                               (f\<lparr>sequences := (sequences f)[qid := q\<lparr>s_finished := True\<rparr>]\<rparr>)) s
        in obind (run_script env (s_writer q) (s_done q (s_responses q)) s1)
             (\<lambda>s2. if streamDone (fl s2) then Inr s2 else Inr (on_fl (settle_callout env) s2)))"

definition sequence_record :: "nat \<Rightarrow> settled_response \<Rightarrow> sys \<Rightarrow> sys" where
  "sequence_record qid resp s =
     on_fl (\<lambda>f. let q = sequences f ! qid in
              f\<lparr>sequences := (sequences f)[qid := q\<lparr>s_responses := s_responses q @ [resp]\<rparr>]\<rparr>) s"

fun sequence_step :: "nat \<Rightarrow> envoy \<Rightarrow> nat \<Rightarrow> settled_response option \<Rightarrow> sys \<Rightarrow> sys outcome" where
  "sequence_step 0 env qid previous s = Inl Hang"
| "sequence_step (Suc fuel) env qid previous s =
     (if qid \<ge> length (sequences (fl s)) then Inr s
      else
        let q = sequences (fl s) ! qid in
        if s_finished q \<or> streamDone (fl s) then Inr s
        else
          let (ops, reqo) = s_next q (length (s_responses q)) previous in
          obind (run_script env (s_writer q) ops (on_fl (user (USequenceNext (length (s_responses q)))) s)) (\<lambda>s1.
            case reqo of
              None \<Rightarrow> sequence_finish env qid s1
            | Some req \<Rightarrow>
                let (init, immediate) = env_callout env (events (fl s1)) req;
                    s2 = on_fl (emit [CHttpCallout req]) s1
                in obind (case immediate of
                            Some d \<Rightarrow> sequence_step fuel env qid (Some (settled_of_done d))
                                        (sequence_record qid (settled_of_done d) s2)
                          | None \<Rightarrow> Inr s2) (\<lambda>s3.
                     if init \<noteq> HTTPCalloutInitSuccess
                     then sequence_step fuel env qid (Some (settled_of_init init))
                            (sequence_record qid (settled_of_init init) s3)
                     else Inr s3)))"

text \<open>A later answer of Envoy to a callout of the sequence.\<close>

definition sequence_done :: "envoy \<Rightarrow> nat \<Rightarrow> callout_done \<Rightarrow> sys \<Rightarrow> sys outcome" where
  "sequence_done env qid d s =
     (if qid \<ge> length (sequences (fl s)) then Inr s
      else sequence_step (env_fuel env) env qid (Some (settled_of_done d))
             (sequence_record qid (settled_of_done d) s))"

definition start_sequence ::
    "envoy \<Rightarrow> (nat \<Rightarrow> settled_response option \<Rightarrow> wop list \<times> callout_request option)
       \<Rightarrow> (settled_response list \<Rightarrow> wop list) \<Rightarrow> writer \<times> sys \<Rightarrow> (writer \<times> sys) outcome" where
  "start_sequence env nx dn ws =
     (let (w, s) = ws;
          w1 = w\<lparr>calloutStarted := True\<rparr>;
          qid = length (sequences (fl s));
          q = \<lparr>s_next = nx, s_done = dn, s_responses = [], s_finished = False, s_writer = w1\<rparr>;
          s1 = on_fl (\<lambda>f. f\<lparr>calloutState := calloutStateActive, sequences := sequences f @ [q]\<rparr>) s
      in obind (sequence_step (env_fuel env) env qid None s1) (\<lambda>s2. Inr (w1, s2)))"

section \<open>GRPCCallout\<close>

definition applyGRPCHeaders :: "header list \<Rightarrow> grpcStreamCallback \<Rightarrow> grpcStreamCallback" where
  "applyGRPCHeaders hs c =
     (let (st, msg) = parseGRPCHeaders hs;
          r1 = (g_resp c)\<lparr>GRPCStatus := st\<rparr>
      in c\<lparr>g_resp := (if msg \<noteq> '''' then r1\<lparr>GRPCMessage := msg\<rparr> else r1)\<rparr>)"

definition grpc_finish :: "envoy \<Rightarrow> nat \<Rightarrow> HTTPCalloutResult \<Rightarrow> sys \<Rightarrow> sys outcome" where
  "grpc_finish env gid result s =
     (let c = grpcs (fl s) ! gid in
      if g_once c then Inr s
      else
        let resp0 = (g_resp c)\<lparr>G_Result := result\<rparr>;
            resp = (if result = HTTPCalloutSuccess then resp0\<lparr>G_Body := decodeGRPCFrame (g_body c)\<rparr> else resp0);
            s1 = on_fl (\<lambda>f. f\<lparr>grpcs := (grpcs f)[gid := c\<lparr>g_once := True\<rparr>]\<rparr>) s
        in if streamDone (fl s1) then Inr s1
           else obind (run_script env (g_writer c) (g_fn c resp) (on_fl (user (UGrpc resp)) s1))
                  (\<lambda>s2. Inr (on_fl (settle_callout env) s2)))"

fun grpc_event :: "envoy \<Rightarrow> nat \<Rightarrow> stream_event \<Rightarrow> sys \<Rightarrow> sys outcome" where
  "grpc_event env gid (SHeaders hs eos) s =
     Inr (on_fl (\<lambda>f. f\<lparr>grpcs := (grpcs f)[gid := applyGRPCHeaders hs (grpcs f ! gid)]\<rparr>) s)"
| "grpc_event env gid (SData chunks eos) s =
     Inr (on_fl (\<lambda>f. f\<lparr>grpcs := (grpcs f)[gid := (grpcs f ! gid)\<lparr>g_body := g_body (grpcs f ! gid) @ concat chunks\<rparr>]\<rparr>) s)"
| "grpc_event env gid (STrailers hs) s =
     Inr (on_fl (\<lambda>f. f\<lparr>grpcs := (grpcs f)[gid := applyGRPCHeaders hs (grpcs f ! gid)]\<rparr>) s)"
| "grpc_event env gid SComplete s = grpc_finish env gid HTTPCalloutSuccess s"
| "grpc_event env gid SReset s = grpc_finish env gid HTTPCalloutReset s"

fun grpc_events :: "envoy \<Rightarrow> nat \<Rightarrow> stream_event list \<Rightarrow> sys \<Rightarrow> sys outcome" where
  "grpc_events env gid [] s = Inr s"
| "grpc_events env gid (e # es) s = obind (grpc_event env gid e s) (grpc_events env gid es)"

definition grpc_headers :: "grpc_request \<Rightarrow> header list" where
  "grpc_headers req =
     [('':method'', ''POST''), ('':path'', G_Method req), ('':scheme'', ''http''),
      (''host'', if G_Authority req = '''' then G_Cluster req else G_Authority req),
      (''content-type'', ''application/grpc+proto''), (''te'', ''trailers'')]"

definition GRPCCallout ::
    "envoy \<Rightarrow> grpc_request \<Rightarrow> (grpc_response \<Rightarrow> wop list) option \<Rightarrow> writer \<times> sys \<Rightarrow> (writer \<times> sys) outcome" where
  "GRPCCallout env req fno ws =
     (let (w, s) = ws in
      case fno of
        None \<Rightarrow> Inl (Panic ''up: GRPCCallout called with nil callback'')
      | Some fn \<Rightarrow>
          if calloutStarted w \<or> w_goStarted w then Inl (Panic (start_panic (OpGRPCCallout req fno) w))
          else
            let w1 = w\<lparr>calloutStarted := True\<rparr>;
                gid = length (grpcs (fl s));
                c = \<lparr>g_fn = fn, g_once = False,
                     g_resp = \<lparr>G_Result = HTTPCalloutSuccess, GRPCStatus = 0, GRPCMessage = '''', G_Body = None\<rparr>,
                     g_body = [], g_writer = w1\<rparr>;
                s1 = on_fl (\<lambda>f. f\<lparr>calloutState := calloutStateActive, grpcs := grpcs f @ [c]\<rparr>) s;
                cl = CStartHttpStream (G_Cluster req) (grpc_headers req) (encodeGRPCFrame (G_Message req)) True
                       (G_TimeoutMillis req);
                (init, immediate) = env_stream env (events (fl s1)) cl;
                s2 = on_fl (emit [cl]) s1
            in obind (grpc_events env gid immediate s2) (\<lambda>s3.
                 if init \<noteq> HTTPCalloutInitSuccess
                 then Inr (w, on_fl (\<lambda>f. f\<lparr>calloutState := calloutStateActive\<rparr>) s3)
                 else Inr (w1, s3)))"

section \<open>Go\<close>

definition Writer_Go :: "writer \<times> sys \<Rightarrow> (writer \<times> sys) outcome" where
  "Writer_Go ws =
     (let (w, s) = ws in
      if w_goStarted w \<or> calloutStarted w then Inl (Panic (start_panic OpGo w))
      else
        let w1 = w\<lparr>w_goStarted := True\<rparr> in
        Inr (w1, on_fl (\<lambda>f. (emit [CGetScheduler] f)
                   \<lparr>goScheduler := True, goCancelled := False, goCompleted := False, goStarted := True,
                    goroutines := goroutines f @ [GoRunning w1]\<rparr>) s))"

section \<open>Running a request callback's script\<close>

fun in_order :: "('a \<Rightarrow> 'a outcome) list \<Rightarrow> 'a \<Rightarrow> 'a outcome" where
  "in_order [] x = Inr x"
| "in_order (g # gs) x = obind (g x) (in_order gs)"

text \<open>
  One Writer call made by the handler itself. \<open>HTTPCalloutAllSettled\<close> without requests calls its
  callback at once with the Writer as it is, so that callback may start callouts of its own: the
  recursion follows the structure of the script.
\<close>

primrec run_op :: "wop \<Rightarrow> envoy \<Rightarrow> writer \<times> sys \<Rightarrow> (writer \<times> sys) outcome" where
  "run_op (OpSetRequestHeader n v) env ws =
     obind (run_mut env (fst ws) (OpSetRequestHeader n v) (snd ws)) (\<lambda>s. Inr (fst ws, s))"
| "run_op (OpAddRequestHeader n v) env ws =
     obind (run_mut env (fst ws) (OpAddRequestHeader n v) (snd ws)) (\<lambda>s. Inr (fst ws, s))"
| "run_op (OpRemoveRequestHeader n) env ws =
     obind (run_mut env (fst ws) (OpRemoveRequestHeader n) (snd ws)) (\<lambda>s. Inr (fst ws, s))"
| "run_op (OpSetFilterState k v) env ws =
     obind (run_mut env (fst ws) (OpSetFilterState k v) (snd ws)) (\<lambda>s. Inr (fst ws, s))"
| "run_op (OpSetStreamObject k v) env ws =
     obind (run_mut env (fst ws) (OpSetStreamObject k v) (snd ws)) (\<lambda>s. Inr (fst ws, s))"
| "run_op (OpGetStreamObject k) env ws =
     obind (run_mut env (fst ws) (OpGetStreamObject k) (snd ws)) (\<lambda>s. Inr (fst ws, s))"
| "run_op (OpSetUpstreamOverrideHost h b) env ws =
     obind (run_mut env (fst ws) (OpSetUpstreamOverrideHost h b) (snd ws)) (\<lambda>s. Inr (fst ws, s))"
| "run_op (OpSetResponseHeader n v) env ws =
     obind (run_mut env (fst ws) (OpSetResponseHeader n v) (snd ws)) (\<lambda>s. Inr (fst ws, s))"
| "run_op (OpAddResponseHeader n v) env ws =
     obind (run_mut env (fst ws) (OpAddResponseHeader n v) (snd ws)) (\<lambda>s. Inr (fst ws, s))"
| "run_op (OpRemoveResponseHeader n) env ws =
     obind (run_mut env (fst ws) (OpRemoveResponseHeader n) (snd ws)) (\<lambda>s. Inr (fst ws, s))"
| "run_op (OpSetRequestBody d) env ws =
     obind (run_mut env (fst ws) (OpSetRequestBody d) (snd ws)) (\<lambda>s. Inr (fst ws, s))"
| "run_op (OpSetResponseBody d) env ws =
     obind (run_mut env (fst ws) (OpSetResponseBody d) (snd ws)) (\<lambda>s. Inr (fst ws, s))"
| "run_op (OpIncrementCounterLabels i d ls) env ws =
     obind (run_mut env (fst ws) (OpIncrementCounterLabels i d ls) (snd ws)) (\<lambda>s. Inr (fst ws, s))"
| "run_op (OpIncrementGauge i d) env ws =
     obind (run_mut env (fst ws) (OpIncrementGauge i d) (snd ws)) (\<lambda>s. Inr (fst ws, s))"
| "run_op (OpDecrementGauge i d) env ws =
     obind (run_mut env (fst ws) (OpDecrementGauge i d) (snd ws)) (\<lambda>s. Inr (fst ws, s))"
| "run_op (OpSetGauge i d) env ws =
     obind (run_mut env (fst ws) (OpSetGauge i d) (snd ws)) (\<lambda>s. Inr (fst ws, s))"
| "run_op (OpRecordHistogramLabels i v ls) env ws =
     obind (run_mut env (fst ws) (OpRecordHistogramLabels i v ls) (snd ws)) (\<lambda>s. Inr (fst ws, s))"
| "run_op (OpSetMetadata ns k v) env ws =
     obind (run_mut env (fst ws) (OpSetMetadata ns k v) (snd ws)) (\<lambda>s. Inr (fst ws, s))"
| "run_op (OpAddLogAttrs kvs) env ws =
     obind (run_mut env (fst ws) (OpAddLogAttrs kvs) (snd ws)) (\<lambda>s. Inr (fst ws, s))"
| "run_op (OpSendLocalResponse st b hs) env ws =
     obind (run_mut env (fst ws) (OpSendLocalResponse st b hs) (snd ws)) (\<lambda>s. Inr (fst ws, s))"
| "run_op (OpLog l m) env ws =
     obind (run_mut env (fst ws) (OpLog l m) (snd ws)) (\<lambda>s. Inr (fst ws, s))"
| "run_op (OpHTTPCallout req fn) env ws = HTTPCallout env req fn ws"
| "run_op (OpHTTPCalloutAllSettled reqs fno) env ws =
     (if calloutStarted (fst ws) \<or> w_goStarted (fst ws)
      then Inl (Panic ''up: HTTPCalloutAllSettled cannot be started after Go or another HTTPCallout'')
      else (case map_option ((\<circ>) (map run_op)) fno of
              None \<Rightarrow> Inl (Panic ''up: HTTPCalloutAllSettled called with nil callback'')
            | Some rfn \<Rightarrow>
                if reqs = []
                then in_order (map (\<lambda>r. r env) (rfn [])) (fst ws, on_fl (user (USettled [])) (snd ws))
                else start_batch env reqs (the fno) ws))"
| "run_op (OpHTTPCalloutSequence nxo dno) env ws =
     (if calloutStarted (fst ws) \<or> w_goStarted (fst ws)
      then Inl (Panic ''up: HTTPCalloutSequence cannot be started after Go or another HTTPCallout'')
      else (case nxo of
              None \<Rightarrow> Inl (Panic ''up: HTTPCalloutSequence called with nil next callback'')
            | Some nx \<Rightarrow>
                (case dno of
                   None \<Rightarrow> Inl (Panic ''up: HTTPCalloutSequence called with nil done callback'')
                 | Some dn \<Rightarrow> start_sequence env nx dn ws)))"
| "run_op (OpGRPCCallout req fno) env ws = GRPCCallout env req fno ws"
| "run_op OpGo env ws = Writer_Go ws"

fun run_ops :: "envoy \<Rightarrow> wop list \<Rightarrow> writer \<times> sys \<Rightarrow> (writer \<times> sys) outcome" where
  "run_ops env [] ws = Inr ws"
| "run_ops env (op # ops) ws = obind (run_op op env ws) (run_ops env ops)"

end
