(* ===== verification/Filter_Callbacks.thy ===== *)
theory Filter_Callbacks
  imports Callouts
begin

text \<open>
  The stream callbacks of \<open>filter\<close> (\<^verbatim>\<open>src/up/filter.go\<close>), the deposit of the finalized-registry entry
  (\<^verbatim>\<open>src/up/stream_finalized.go\<close>), and the steps of a goroutine started by \<open>Writer.Go\<close>
  (\<^verbatim>\<open>src/up/writer.go\<close>). A callback takes Envoy's arguments and the state and returns the status it
  answers Envoy with.
\<close>

datatype HeadersStatus = HeadersStatusContinue | HeadersStatusStop
datatype BodyStatus = BodyStatusContinue | BodyStatusStopAndBuffer
datatype TrailersStatus = TrailersStatusContinue | TrailersStatusStop

definition request_writer :: writer where
  "request_writer = \<lparr>calloutCB = True, calloutStarted = False, w_goStarted = False, directWrite = False\<rparr>"

definition direct_writer :: writer where
  "direct_writer = \<lparr>calloutCB = False, calloutStarted = False, w_goStarted = False, directWrite = True\<rparr>"

definition newRequestWithContext :: "(string \<Rightarrow> string) \<Rightarrow> string \<Rightarrow> request" where
  "newRequestWithContext headers nm =
     \<lparr>Method = headers '':method'', Path = headers '':path'', Host = headers '':authority'', FilterName = nm\<rparr>"

section \<open>The finalized registry\<close>

definition streamFinalizedKey :: "string \<Rightarrow> string \<Rightarrow> string" where
  "streamFinalizedKey nm streamKey = nm @ [CHR 0x00] @ streamKey"

definition finalizedFallbackKeyHeader :: string where
  "finalizedFallbackKeyHeader = ''x-transit-stream-id''"

definition putFinalizedEntry :: "string \<Rightarrow> streamFinalizedEntry \<Rightarrow> process \<Rightarrow> process" where
  "putFinalizedEntry key e p = p\<lparr>streamFinalizedEntries := (streamFinalizedEntries p)(key \<mapsto> e)\<rparr>"

definition takeFinalizedEntry :: "string \<Rightarrow> process \<Rightarrow> streamFinalizedEntry option \<times> process" where
  "takeFinalizedEntry key p =
     (case streamFinalizedEntries p key of
        Some e \<Rightarrow> (Some e, p\<lparr>streamFinalizedEntries := (streamFinalizedEntries p)(key := None)\<rparr>)
      | None \<Rightarrow> (None, p))"

definition registerFinalized :: "envoy \<Rightarrow> sys \<Rightarrow> sys" where
  "registerFinalized env s =
     (if \<not> onStreamFinalized (fl s) \<or> finalizedKey (fl s) \<noteq> '''' then s
      else
        let rid = (case env_request_id env (events (fl s)) of Some v \<Rightarrow> v | None \<Rightarrow> '''');
            (streamKey, s1) =
              (if rid \<noteq> '''' then (rid, s)
               else let n = env_rand env (randIndex (pr s)) in
                    (n, \<lparr>fl = emit [CHdrSet RequestHdrs finalizedFallbackKeyHeader n] (fl s),
                         pr = (pr s)\<lparr>randIndex := Suc (randIndex (pr s))\<rparr>\<rparr>));
            key = streamFinalizedKey (f_name (fl s)) streamKey;
            a = self (fl s)
        in \<lparr>fl = (fl s1)\<lparr>finalizedKey := key\<rparr>,
            pr = putFinalizedEntry key \<lparr>e_fn = True, e_ctx = a, e_streamObjectNonce = a, e_localReplyBody = a\<rparr> (pr s1)\<rparr>)"

section \<open>Request callbacks\<close>

text \<open>The last steps of a request-header callback that neither paused nor started a goroutine.\<close>

definition finish_headers :: "envoy \<Rightarrow> bool \<Rightarrow> bool \<Rightarrow> sys \<Rightarrow> HeadersStatus \<times> sys" where
  "finish_headers env started stopForBody s =
     (let s1 = on_fl (\<lambda>f. flush env False (flushCompletedCallout started f)) s
      in (if stopped (fl s1) then HeadersStatusStop
          else if stopForBody then HeadersStatusStop else HeadersStatusContinue, s1))"

text \<open>The synthetic body call of a request without a body.\<close>

definition end_of_request_body :: "envoy \<Rightarrow> writer \<times> sys \<Rightarrow> (writer \<times> sys) outcome" where
  "end_of_request_body env ws =
     (case requestBodyHandler (fl (snd ws)) of
        Some h \<Rightarrow>
          let c = \<lparr>BC_Data = [], BC_EndStream = True,
                   BC_ContentEncoding = requestContentEncoding (fl (snd ws)),
                   BC_ContentType = requestContentType (fl (snd ws))\<rparr>
          in run_ops env (h c) (fst ws, on_fl (user (UBody c)) (snd ws))
      | None \<Rightarrow> Inr ws)"

text \<open>The end of a request-header callback: pause, wait for the goroutine, or flush.\<close>

definition headers_exit :: "envoy \<Rightarrow> bool \<Rightarrow> writer \<times> sys \<Rightarrow> HeadersStatus \<times> sys" where
  "headers_exit env stopForBody ws =
     (let (paused, f) = pausePendingCallout (calloutStarted (fst ws)) (fl (snd ws)); s = (snd ws)\<lparr>fl := f\<rparr>
      in if paused then (HeadersStatusStop, s)
         else if goStarted (fl s) then (HeadersStatusStop, s)
         else finish_headers env (calloutStarted (fst ws)) stopForBody s)"

text \<open>The request-header callback once the handler has returned, with the Writer it used.\<close>

definition after_request_handler :: "envoy \<Rightarrow> bool \<Rightarrow> writer \<times> sys \<Rightarrow> (HeadersStatus \<times> sys) outcome" where
  "after_request_handler env endOfStream ws =
     (let (w, s3) = ws;
          s4 = registerFinalized env s3;
          stopForBufferedBody = (\<not> endOfStream \<and> bufferBody (fl s4) \<and> requestBodyHandler (fl s4) \<noteq> None);
          s5 = on_fl (\<lambda>f. if stopForBufferedBody \<and> mutableRequestBody f
                          then f\<lparr>stripFramingOnResume := True\<rparr> else f) s4;
          (paused, f6) = pausePendingCallout (calloutStarted w) (fl s5);
          s6 = s5\<lparr>fl := f6\<rparr>
      in if paused then Inr (HeadersStatusStop, s6)
         else if goStarted (fl s6) then Inr (HeadersStatusStop, s6)
         else if endOfStream
         then obind (end_of_request_body env (w, s6)) (\<lambda>ws7. Inr (headers_exit env False ws7))
         else Inr (finish_headers env (calloutStarted w) stopForBufferedBody s6))"

definition OnRequestHeaders ::
    "envoy \<Rightarrow> (string \<Rightarrow> string) \<Rightarrow> bool \<Rightarrow> sys \<Rightarrow> (HeadersStatus \<times> sys) outcome" where
  "OnRequestHeaders env headers endOfStream s0 =
     (let s1 = on_fl (\<lambda>f. if reqID f = '''' then f\<lparr>reqID := headers ''x-request-id''\<rparr> else f) s0;
          s2 = on_fl (\<lambda>f. if requestBodyHandler f \<noteq> None
                          then f\<lparr>requestContentType := headers ''content-type'',
                                 requestContentEncoding := headers ''content-encoding''\<rparr>
                          else f) s1;
          r = newRequestWithContext headers (f_name (fl s2))
      in obind (run_ops env (handler (fl s2) r) (request_writer, on_fl (user (UHandler r)) s2))
           (after_request_handler env endOfStream))"

definition request_body_source :: "envoy \<Rightarrow> bytes list \<Rightarrow> http_filter \<Rightarrow> bytes list" where
  "request_body_source env body f =
     (if bufferBody f
      then (case env_buffered_request env (events f) of
              Some b \<Rightarrow> if buf_size b > 0 then b else body
            | None \<Rightarrow> body)
      else body)"

text \<open>The synchronous end of a request-body callback, after the handler has run.\<close>

definition finish_body :: "envoy \<Rightarrow> bytes list \<Rightarrow> bytes \<Rightarrow> http_filter \<Rightarrow> BodyStatus \<times> http_filter" where
  "finish_body env body dat f =
     (if bufferBody f \<and> mutableRequestBody f \<and> hasRequestBodyReplacement f
      then let replacement = requestBodyReplacement f;
               f1 = flush env False (f\<lparr>hasRequestBodyReplacement := False, requestBodyReplacement := []\<rparr>)
           in if stopped f1 then (BodyStatusStopAndBuffer, f1)
              else (BodyStatusContinue,
                    case requestBodyReplacementBuffer env (Some body) f1 of
                      Some b \<Rightarrow> emit (replace_calls b replacement) f1
                    | None \<Rightarrow> f1)
      else let f1 = flush env False f
           in if stopped f1 then (BodyStatusStopAndBuffer, f1)
              else if bufferBody f1 \<and> mutableRequestBody f1
              then (BodyStatusContinue, emit [CHdrSet RequestHdrs ''content-length'' (Itoa (length dat))] f1)
              else (BodyStatusContinue, f1))"

definition request_chunk :: "envoy \<Rightarrow> bytes list \<Rightarrow> bool \<Rightarrow> http_filter \<Rightarrow> body_chunk" where
  "request_chunk env body endOfStream f =
     \<lparr>BC_Data = concat (request_body_source env body f), BC_EndStream = endOfStream,
      BC_ContentEncoding = requestContentEncoding f, BC_ContentType = requestContentType f\<rparr>"

text \<open>A request-body callback once its handler has returned: pause, wait for the goroutine, or flush.\<close>

definition body_exit :: "envoy \<Rightarrow> bytes list \<Rightarrow> bytes \<Rightarrow> writer \<times> sys \<Rightarrow> BodyStatus \<times> sys" where
  "body_exit env body dat ws =
     (let (paused, f2) = pausePendingCallout (calloutStarted (fst ws)) (fl (snd ws))
      in if paused then (BodyStatusStopAndBuffer, (snd ws)\<lparr>fl := f2\<rparr>)
         else if goStarted f2 then (BodyStatusStopAndBuffer, (snd ws)\<lparr>fl := f2\<rparr>)
         else let (st, f3) = finish_body env body dat (flushCompletedCallout (calloutStarted (fst ws)) f2)
              in (st, (snd ws)\<lparr>fl := f3\<rparr>))"

definition OnRequestBody ::
    "envoy \<Rightarrow> bytes list \<Rightarrow> bool \<Rightarrow> sys \<Rightarrow> (BodyStatus \<times> sys) outcome" where
  "OnRequestBody env body endOfStream s =
     (case requestBodyHandler (fl s) of
        None \<Rightarrow>
          if calloutState (fl s) = calloutStatePaused \<or> stopped (fl s)
          then Inr (BodyStatusStopAndBuffer, s) else Inr (BodyStatusContinue, s)
      | Some h \<Rightarrow>
          if bufferBody (fl s) \<and> \<not> endOfStream then Inr (BodyStatusStopAndBuffer, s)
          else
            let c = request_chunk env body endOfStream (fl s)
            in obind (run_ops env (h c) (request_writer, on_fl (user (UBody c)) s))
                 (\<lambda>ws. Inr (body_exit env body (BC_Data c) ws)))"

definition OnRequestTrailers :: "http_filter \<Rightarrow> TrailersStatus" where
  "OnRequestTrailers f =
     (if calloutState f = calloutStatePaused \<or> stopped f then TrailersStatusStop else TrailersStatusContinue)"

section \<open>Response callbacks\<close>

text \<open>The value of \<^verbatim>\<open>strconv.Atoi\<close>, zero on a syntax error and clamped to 64 bits.\<close>

definition Atoi :: "string \<Rightarrow> int" where
  "Atoi s =
     (let (neg, ds) = (case s of c # cs \<Rightarrow> if c = CHR ''-'' then (True, cs)
                                           else if c = CHR ''+'' then (False, cs) else (False, s)
                                | [] \<Rightarrow> (False, []))
      in if ds = [] \<or> \<not> list_all is_digit ds then 0
         else if neg then - min (2 ^ 63) (int (digits_value ds)) else min (2 ^ 63 - 1) (int (digits_value ds)))"

definition response_end_chunk :: "http_filter \<Rightarrow> response_chunk" where
  "response_end_chunk f =
     \<lparr>RC_StatusCode = 0, RC_HasHeaders = False, RC_Data = [], RC_EndStream = True,
      RC_ContentEncoding = responseContentEncoding f, RC_ContentType = responseContentType f\<rparr>"

definition call_response :: "envoy \<Rightarrow> (response_chunk \<Rightarrow> wop list) \<Rightarrow> response_chunk \<Rightarrow> writer \<times> sys
    \<Rightarrow> (writer \<times> sys) outcome" where
  "call_response env h c ws = run_ops env (h c) (fst ws, on_fl (user (UResponse c)) (snd ws))"

definition OnResponseHeaders ::
    "envoy \<Rightarrow> (string \<Rightarrow> string) \<Rightarrow> bool \<Rightarrow> sys \<Rightarrow> (HeadersStatus \<times> sys) outcome" where
  "OnResponseHeaders env headers endOfStream s =
     (case responseHandler (fl s) of
        None \<Rightarrow> Inr (HeadersStatusContinue, s)
      | Some h \<Rightarrow>
          let s1 = on_fl (\<lambda>f. f\<lparr>responseContentType := headers ''content-type'',
                                responseContentEncoding := headers ''content-encoding''\<rparr>) s;
              s2 = (if bufferBody (fl s1) then on_fl (emit [CHdrRemove ResponseHdrs ''content-length'']) s1 else s1);
              statusCode = (if headers '':status'' \<noteq> '''' then Atoi (headers '':status'') else 0);
              c = \<lparr>RC_StatusCode = statusCode, RC_HasHeaders = True, RC_Data = [], RC_EndStream = endOfStream,
                   RC_ContentEncoding = responseContentEncoding (fl s2),
                   RC_ContentType = responseContentType (fl s2)\<rparr>
          in obind (call_response env h c (direct_writer, s2)) (\<lambda>(w, s3).
             if endOfStream
             then let s4 = on_fl (\<lambda>f. f\<lparr>responseEndSeen := True\<rparr>) s3
                  in obind (call_response env h (response_end_chunk (fl s4)) (w, s4))
                       (\<lambda>(w5, s5). Inr (HeadersStatusContinue, s5))
             else Inr (HeadersStatusContinue, s3)))"

definition apply_response_body :: "envoy \<Rightarrow> http_filter \<Rightarrow> http_filter" where
  "apply_response_body env f =
     (if bufferBody f \<and> hasResponseBodyReplacement f
      then (emit [CDrain BufferedResponse (buf_size (env_buffered_response env (events f))),
                  CAppend BufferedResponse (responseBodyReplacement f),
                  CHdrSet ResponseHdrs ''content-length'' (Itoa (length (responseBodyReplacement f)))] f)
             \<lparr>hasResponseBodyReplacement := False, responseBodyReplacement := []\<rparr>
      else f)"

definition OnResponseBody :: "envoy \<Rightarrow> bytes list \<Rightarrow> bool \<Rightarrow> sys \<Rightarrow> (BodyStatus \<times> sys) outcome" where
  "OnResponseBody env body endOfStream s =
     (case responseHandler (fl s) of
        None \<Rightarrow> Inr (BodyStatusContinue, s)
      | Some h \<Rightarrow>
          if bufferBody (fl s) \<and> \<not> endOfStream then Inr (BodyStatusStopAndBuffer, s)
          else
            let src = (if bufferBody (fl s) then env_buffered_response env (events (fl s)) else body);
                c = \<lparr>RC_StatusCode = 0, RC_HasHeaders = False, RC_Data = concat src, RC_EndStream = endOfStream,
                     RC_ContentEncoding = responseContentEncoding (fl s),
                     RC_ContentType = responseContentType (fl s)\<rparr>
            in obind (call_response env h c (direct_writer, s)) (\<lambda>(w, s1).
               let s2 = on_fl (\<lambda>f. if endOfStream then f\<lparr>responseEndSeen := True\<rparr> else f) s1
               in Inr (BodyStatusContinue, on_fl (apply_response_body env) s2)))"

section \<open>Stream completion\<close>

definition OnStreamComplete :: "envoy \<Rightarrow> sys \<Rightarrow> sys outcome" where
  "OnStreamComplete env s =
     obind (case responseHandler (fl s) of
              Some h \<Rightarrow>
                if \<not> responseEndSeen (fl s)
                then obind (call_response env h (response_end_chunk (fl s)) (direct_writer, s))
                       (\<lambda>(w, s1). Inr (on_fl (\<lambda>f. f\<lparr>responseEndSeen := True\<rparr>) s1))
                else Inr s
            | None \<Rightarrow> Inr s) (\<lambda>s2.
       let s3 = (if onStreamComplete (fl s2) then on_fl (user UStreamComplete) s2 else s2);
           s4 = (if \<not> onStreamFinalized (fl s3) then s3\<lparr>pr := dropBag (streamObjectNonce (fl s3)) (pr s3)\<rparr> else s3)
       in Inr (on_fl (\<lambda>f. let f1 = f\<lparr>streamDone := True\<rparr>
                          in if goStarted f1 then f1\<lparr>goCompleted := True, goCancelled := True\<rparr> else f1) s4))"

section \<open>Steps of a goroutine\<close>

text \<open>A Writer call made inside the goroutine's function.\<close>

definition go_op :: "envoy \<Rightarrow> nat \<Rightarrow> wop \<Rightarrow> sys \<Rightarrow> sys outcome" where
  "go_op env i op s =
     (case goroutines (fl s) ! i of GoRunning w \<Rightarrow> run_mut env w op s | _ \<Rightarrow> Inr s)"

text \<open>The function returns: the goroutine schedules its finish unless the stream is already dead.\<close>

definition go_return :: "nat \<Rightarrow> sys \<Rightarrow> sys" where
  "go_return i s =
     on_fl (\<lambda>f. f\<lparr>goroutines := (goroutines f)[i := (if goCompleted f then GoExited else GoScheduled)]\<rparr>) s"

text \<open>The scheduled closure on the worker thread.\<close>

definition go_finish :: "envoy \<Rightarrow> nat \<Rightarrow> sys \<Rightarrow> sys" where
  "go_finish env i s =
     on_fl (\<lambda>f. let f1 = f\<lparr>goroutines := (goroutines f)[i := GoExited]\<rparr>
                in if goCompleted f1 then f1
                   else flush env True (f1\<lparr>goCompleted := True, goStarted := False\<rparr>)) s"

end
