(* ===== verification/Script_Frames.thy ===== *)
theory Script_Frames
  imports Filter_Callbacks
begin

text \<open>
  What scripts of Writer calls can and cannot change. \<open>core\<close> erases the fields the mutation methods
  and \<open>flush\<close> write, \<open>base\<close> erases the callout and goroutine state as well; a frame lemma says
  that an operation keeps one of them. \<open>passive\<close> calls are those that do not touch the request on
  its way upstream (\<open>quiet_call\<close>); \<open>extends P f f'\<close> says that between two states of a filter only
  events with \<open>P\<close> were recorded.
\<close>

named_theorems frame_simps \<open>fields kept by an operation\<close>

section \<open>Frames\<close>

definition core :: "http_filter \<Rightarrow> http_filter" where
  "core f = f\<lparr>reqLogAttrs := [], streamObjectNonce := '''', stopped := False, reqHeaders := [],
     filterState := [], counters := [], gauges := [], histograms := [], dynamicMetadata := [],
     override := None, localReply := None, stripFramingOnResume := False,
     requestBodyReplacement := [], hasRequestBodyReplacement := False,
     responseBodyReplacement := [], hasResponseBodyReplacement := False, localReplyBody := '''',
     events := []\<rparr>"

definition base :: "http_filter \<Rightarrow> http_filter" where
  "base f = (core f)\<lparr>goStarted := False, goScheduler := False, goCancelled := False, goCompleted := False,
     calloutFn := None, calloutWriter := request_writer, calloutState := calloutStateActive,
     batches := [], sequences := [], grpcs := [], goroutines := []\<rparr>"

lemma core_sels:
    "calloutState (core f) = calloutState f" "calloutFn (core f) = calloutFn f"
    "calloutWriter (core f) = calloutWriter f" "streamDone (core f) = streamDone f"
    "goStarted (core f) = goStarted f" "goCompleted (core f) = goCompleted f"
    "goroutines (core f) = goroutines f" "batches (core f) = batches f"
    "sequences (core f) = sequences f" "grpcs (core f) = grpcs f"
  by (simp_all add: core_def)

lemma base_sels:
    "bufferBody (base f) = bufferBody f" "mutableRequestBody (base f) = mutableRequestBody f"
    "requestBodyHandler (base f) = requestBodyHandler f"
    "responseHandler (base f) = responseHandler f" "handler (base f) = handler f"
    "onStreamComplete (base f) = onStreamComplete f"
    "onStreamFinalized (base f) = onStreamFinalized f" "streamDone (base f) = streamDone f"
    "self (base f) = self f" "f_name (base f) = f_name f" "finalizedKey (base f) = finalizedKey f"
    "responseEndSeen (base f) = responseEndSeen f"
  by (simp_all add: base_def core_def)

lemma core_fields:
  assumes "core f' = core f"
  shows "calloutState f' = calloutState f" "calloutFn f' = calloutFn f"
    "calloutWriter f' = calloutWriter f" "streamDone f' = streamDone f" "goStarted f' = goStarted f"
    "goCompleted f' = goCompleted f" "goroutines f' = goroutines f" "batches f' = batches f"
    "sequences f' = sequences f" "grpcs f' = grpcs f" "base f' = base f"
  using arg_cong [OF assms, of calloutState, unfolded core_sels]
    arg_cong [OF assms, of calloutFn, unfolded core_sels]
    arg_cong [OF assms, of calloutWriter, unfolded core_sels]
    arg_cong [OF assms, of streamDone, unfolded core_sels]
    arg_cong [OF assms, of goStarted, unfolded core_sels]
    arg_cong [OF assms, of goCompleted, unfolded core_sels]
    arg_cong [OF assms, of goroutines, unfolded core_sels]
    arg_cong [OF assms, of batches, unfolded core_sels]
    arg_cong [OF assms, of sequences, unfolded core_sels]
    arg_cong [OF assms, of grpcs, unfolded core_sels]
  by (simp_all add: base_def assms)

lemma base_fields:
  assumes "base f' = base f"
  shows "bufferBody f' = bufferBody f" "mutableRequestBody f' = mutableRequestBody f"
    "requestBodyHandler f' = requestBodyHandler f" "responseHandler f' = responseHandler f"
    "handler f' = handler f" "onStreamComplete f' = onStreamComplete f"
    "onStreamFinalized f' = onStreamFinalized f" "streamDone f' = streamDone f" "self f' = self f"
    "f_name f' = f_name f" "finalizedKey f' = finalizedKey f"
    "responseEndSeen f' = responseEndSeen f"
  using arg_cong [OF assms, of bufferBody, unfolded base_sels]
    arg_cong [OF assms, of mutableRequestBody, unfolded base_sels]
    arg_cong [OF assms, of requestBodyHandler, unfolded base_sels]
    arg_cong [OF assms, of responseHandler, unfolded base_sels]
    arg_cong [OF assms, of handler, unfolded base_sels]
    arg_cong [OF assms, of onStreamComplete, unfolded base_sels]
    arg_cong [OF assms, of onStreamFinalized, unfolded base_sels]
    arg_cong [OF assms, of streamDone, unfolded base_sels]
    arg_cong [OF assms, of self, unfolded base_sels]
    arg_cong [OF assms, of f_name, unfolded base_sels]
    arg_cong [OF assms, of finalizedKey, unfolded base_sels]
    arg_cong [OF assms, of responseEndSeen, unfolded base_sels]
  by simp_all

section \<open>Passive calls\<close>

fun quiet_call :: "call \<Rightarrow> bool" where
  "quiet_call (CHdrSet m n v) = (m = ResponseHdrs)"
| "quiet_call (CHdrAdd m n v) = (m = ResponseHdrs)"
| "quiet_call (CHdrRemove m n) = (m = ResponseHdrs)"
| "quiet_call (CHttpCallout r) = True"
| "quiet_call (CStartHttpStream c hs b e t) = True"
| "quiet_call CGetScheduler = True"
| "quiet_call (CLog l m) = True"
| "quiet_call _ = False"

fun quiet_event :: "event \<Rightarrow> bool" where
  "quiet_event (Handle c) = quiet_call c"
| "quiet_event (User u) = True"

definition extends :: "(event \<Rightarrow> bool) \<Rightarrow> http_filter \<Rightarrow> http_filter \<Rightarrow> bool" where
  "extends P f f' \<longleftrightarrow> (\<exists>evs. events f' = events f @ evs \<and> list_all P evs)"

lemma extendsI: "events f' = events f @ evs \<Longrightarrow> list_all P evs \<Longrightarrow> extends P f f'"
  by (auto simp: extends_def)

lemma extends_refl [simp, intro]: "extends P f f"
  by (simp add: extends_def)

lemma extends_same: "events f' = events f \<Longrightarrow> extends P f f'"
  by (simp add: extends_def)

lemma extends_trans [trans]: "extends P f g \<Longrightarrow> extends P g h \<Longrightarrow> extends P f h"
  by (force simp: extends_def)

lemma extends_emit: "list_all (\<lambda>c. P (Handle c)) cs \<Longrightarrow> extends P f (emit cs f)"
  by (auto simp: extends_def list_all_iff)

lemma extends_mono: "extends P f g \<Longrightarrow> (\<And>e. P e \<Longrightarrow> Q e) \<Longrightarrow> extends Q f g"
  by (auto simp: extends_def list_all_iff)

lemma extends_filter:
  "extends P f g \<Longrightarrow> (\<And>e. P e \<Longrightarrow> \<not> Q e) \<Longrightarrow> filter Q (events g) = filter Q (events f)"
  by (auto simp: extends_def list_all_iff filter_empty_conv)

section \<open>Mutation methods\<close>

text \<open>
  The calls a Writer method can make: anything but resuming the request; only passive ones while
  mutations are queued.
\<close>

fun never_resumes :: "event \<Rightarrow> bool" where
  "never_resumes (Handle c) = (c \<noteq> CContinueRequest)"
| "never_resumes (User u) = False"

lemma core_emit [simp]: "core (emit cs f) = core f"
  by (simp add: core_def emit_def)

lemma core_user [simp]: "core (user u f) = core f"
  by (simp add: core_def user_def)

lemma core_updates [simp]:
  "core (f\<lparr>reqLogAttrs := a1\<rparr>) = core f" "core (f\<lparr>streamObjectNonce := a2\<rparr>) = core f"
  "core (f\<lparr>stopped := a3\<rparr>) = core f" "core (f\<lparr>reqHeaders := a4\<rparr>) = core f"
  "core (f\<lparr>filterState := a5\<rparr>) = core f" "core (f\<lparr>counters := a6\<rparr>) = core f"
  "core (f\<lparr>gauges := a7\<rparr>) = core f" "core (f\<lparr>histograms := a8\<rparr>) = core f"
  "core (f\<lparr>dynamicMetadata := a9\<rparr>) = core f" "core (f\<lparr>override := a10\<rparr>) = core f"
  "core (f\<lparr>localReply := a11\<rparr>) = core f" "core (f\<lparr>stripFramingOnResume := a12\<rparr>) = core f"
  "core (f\<lparr>requestBodyReplacement := a13\<rparr>) = core f" "core (f\<lparr>hasRequestBodyReplacement := a14\<rparr>) = core f"
  "core (f\<lparr>responseBodyReplacement := a15\<rparr>) = core f" "core (f\<lparr>hasResponseBodyReplacement := a16\<rparr>) = core f"
  "core (f\<lparr>localReplyBody := a17\<rparr>) = core f"
  by (simp_all add: core_def)

text \<open>
  \<open>mutates w f f'\<close>: the filter went from \<open>f\<close> to \<open>f'\<close> by Writer calls on \<open>w\<close> that mutate only.
\<close>

definition mutates :: "writer \<Rightarrow> http_filter \<Rightarrow> http_filter \<Rightarrow> bool" where
  "mutates w f f' \<longleftrightarrow> core f' = core f \<and> (queued w f \<longrightarrow> extends quiet_event f f') \<and> extends never_resumes f f'"

lemma queued_core: "core f' = core f \<Longrightarrow> queued w f' = queued w f"
  using core_fields(5) [of f' f] by (simp add: queued_def)

lemma mutates_trans: "mutates w f g \<Longrightarrow> mutates w g h \<Longrightarrow> mutates w f h"
  unfolding mutates_def using queued_core [of g f w] by (auto intro: extends_trans)

lemma mutates_silent: "core f' = core f \<Longrightarrow> events f' = events f \<Longrightarrow> mutates w f f'"
  by (simp add: mutates_def extends_same)

lemma mutates_emit:
  "core f' = core f \<Longrightarrow> events f' = events f @ map Handle cs \<Longrightarrow> CContinueRequest \<notin> set cs \<Longrightarrow>
     (queued w f \<longrightarrow> list_all quiet_call cs) \<Longrightarrow> mutates w f f'"
  by (force simp: mutates_def extends_def list_all_iff)

lemma mutates_emits:
  "CContinueRequest \<notin> set cs \<Longrightarrow> (queued w f \<longrightarrow> list_all quiet_call cs) \<Longrightarrow> mutates w f (emit cs f)"
  by (rule mutates_emit) simp_all

lemma mutates_SetFilterState: "mutates w f (SetFilterState k v w f)"
  by (cases "queued w f") (simp_all add: SetFilterState_def mutates_silent mutates_emits)

lemma mutates_SetMetadata: "SetMetadata ns k v w f = Inr f' \<Longrightarrow> mutates w f f'"
  by (auto simp: SetMetadata_def mutates_silent mutates_emits split: if_splits)

lemma mutates_set_metadata_all: "set_metadata_all ns as w f = Inr f' \<Longrightarrow> mutates w f f'"
proof (induction as arbitrary: f)
  case Nil
  then show ?case by (simp add: mutates_silent)
next
  case (Cons a as)
  obtain k v where a: "a = (k, v)" by (cases a)
  from Cons.prems obtain g where g: "SetMetadata ns k (attrToMetadataValue v) w f = Inr g"
      and rest: "set_metadata_all ns as w g = Inr f'"
    by (auto simp: a obind_eq_Inr)
  show ?case by (rule mutates_trans [OF mutates_SetMetadata [OF g] Cons.IH [OF rest]])
qed

lemma mutates_AddLogAttrs:
  assumes "AddLogAttrs kvs w f = Inr f'"
  shows "mutates w f f'"
proof -
  let ?g = "f\<lparr>reqLogAttrs := reqLogAttrs f @ argsToAttrs kvs\<rparr>"
  have "mutates w f ?g" by (simp add: mutates_silent)
  moreover have "mutates w ?g f'"
    using assms mutates_set_metadata_all [of "logMetadataNS f" "argsToAttrs kvs" w ?g f']
    by (auto simp: AddLogAttrs_def Let_def mutates_silent split: if_splits)
  ultimately show ?thesis by (rule mutates_trans)
qed

lemma mutates_SendLocalResponse: "mutates w f (SendLocalResponse st b hs w f)"
  by (cases "queued w f"; cases "stopped f")
     (auto simp: SendLocalResponse_def mutates_silent
       intro!: mutates_emit [where cs = "[CSendLocalResponse (word_of_int st) hs b '''']"])

lemma mutates_getOrCreateBag:
  assumes "getOrCreateBag env w s = Inr s'"
  shows "mutates w (fl s) (fl s')"
proof (cases "fl s' = fl s")
  case False
  with assms obtain nonce where
    "fl s' = SetFilterState StreamObjectIDKey nonce w ((fl s)\<lparr>streamObjectNonce := nonce\<rparr>)"
    by (auto simp: getOrCreateBag_def Let_def split: if_splits option.splits)
  then show ?thesis
    using mutates_trans [OF mutates_silent mutates_SetFilterState, of "(fl s)\<lparr>streamObjectNonce := nonce\<rparr>" "fl s"]
    by simp
qed (simp add: mutates_silent)

lemma mutates_SetStreamObject:
  "SetStreamObject env k v w s = Inr s' \<Longrightarrow> mutates w (fl s) (fl s')"
  by (auto simp: SetStreamObject_def obind_eq_Inr Let_def dest: mutates_getOrCreateBag)

lemma mutates_GetStreamObject: "mutates w (fl s) (fl (snd (GetStreamObject env k s)))"
  by (rule mutates_silent) (auto simp: GetStreamObject_def Let_def split: option.splits)

lemmas plain_op_defs =
  SetRequestHeader_def AddRequestHeader_def RemoveRequestHeader_def SetUpstreamOverrideHost_def
  SetResponseHeader_def AddResponseHeader_def RemoveResponseHeader_def SetRequestBody_def SetResponseBody_def
  IncrementCounterLabels_def IncrementGauge_def DecrementGauge_def SetGauge_def RecordHistogramLabels_def
  Log_def

lemma run_mut_mutates:
  assumes "run_mut env w op s = Inr s'"
  shows "mutates w (fl s) (fl s')"
  using assms
proof (cases op)
  case (OpSetMetadata ns k v)
  with assms show ?thesis by (auto simp: try_fl_def obind_eq_Inr dest: mutates_SetMetadata)
next
  case (OpAddLogAttrs kvs)
  with assms show ?thesis by (auto simp: try_fl_def obind_eq_Inr dest: mutates_AddLogAttrs)
next
  case (OpSetStreamObject k v)
  with assms show ?thesis by (auto dest: mutates_SetStreamObject)
next
  case (OpGetStreamObject k)
  with assms show ?thesis by (auto simp: mutates_GetStreamObject)
next
  case (OpSendLocalResponse st b hs)
  with assms show ?thesis by (auto simp: mutates_SendLocalResponse)
next
  case (OpSetFilterState k v)
  with assms show ?thesis by (auto simp: mutates_SetFilterState)
qed (auto simp: plain_op_defs mutates_silent mutates_emits)

lemma run_script_mutates:
  "run_script env w ops s = Inr s' \<Longrightarrow> mutates w (fl s) (fl s')"
proof (induction ops arbitrary: s)
  case Nil
  then show ?case by (simp add: mutates_silent)
next
  case (Cons op ops)
  then show ?case
    by (auto simp: obind_eq_Inr intro: mutates_trans dest: run_mut_mutates)
qed

lemma core_flush [simp]: "core (flush env c f) = core f"
proof (cases "localReply f")
  case None
  then show ?thesis by (simp add: flush_no_reply drained_def)
qed (simp add: flush_local_reply)

section \<open>The handoff state does not matter to a script\<close>

definition with_cs :: "calloutState \<Rightarrow> sys \<Rightarrow> sys" where
  "with_cs c s = on_fl (\<lambda>f. f\<lparr>calloutState := c\<rparr>) s"

lemma queued_with_cs [simp]: "queued w (f\<lparr>calloutState := c\<rparr>) = queued w f"
  by (simp add: queued_def)

lemma emit_with_cs: "emit cs (f\<lparr>calloutState := c\<rparr>) = (emit cs f)\<lparr>calloutState := c\<rparr>"
  by (simp add: emit_def)

definition outcome_map :: "('a \<Rightarrow> 'b) \<Rightarrow> 'a outcome \<Rightarrow> 'b outcome" where
  "outcome_map g r = obind r (\<lambda>x. Inr (g x))"

lemma outcome_map_simps [simp]: "outcome_map g (Inr x) = Inr (g x)" "outcome_map g (Inl e) = Inl e"
  by (simp_all add: outcome_map_def)

lemma SetMetadata_with_cs:
  "SetMetadata ns k v w (f\<lparr>calloutState := c\<rparr>) = outcome_map (\<lambda>f. f\<lparr>calloutState := c\<rparr>) (SetMetadata ns k v w f)"
  by (simp add: SetMetadata_def emit_with_cs)

lemma set_metadata_all_with_cs:
  "set_metadata_all ns as w (f\<lparr>calloutState := c\<rparr>) =
     outcome_map (\<lambda>f. f\<lparr>calloutState := c\<rparr>) (set_metadata_all ns as w f)"
proof (induction as arbitrary: f)
  case (Cons a as)
  obtain k v where a: "a = (k, v)" by (cases a)
  show ?case
  proof (cases "SetMetadata ns k (attrToMetadataValue v) w f")
    case (Inl e)
    then show ?thesis by (simp add: a SetMetadata_with_cs)
  next
    case (Inr g)
    then show ?thesis using Cons.IH [of g] by (simp add: a SetMetadata_with_cs)
  qed
qed simp

lemma cs_reqLogAttrs: "f\<lparr>calloutState := c, reqLogAttrs := x\<rparr> = f\<lparr>reqLogAttrs := x, calloutState := c\<rparr>"
  by simp

lemma AddLogAttrs_with_cs:
  "AddLogAttrs kvs w (f\<lparr>calloutState := c\<rparr>) = outcome_map (\<lambda>f. f\<lparr>calloutState := c\<rparr>) (AddLogAttrs kvs w f)"
  using set_metadata_all_with_cs [of "logMetadataNS f" "argsToAttrs kvs" w c "f\<lparr>reqLogAttrs := reqLogAttrs f @ argsToAttrs kvs\<rparr>"]
  by (simp add: AddLogAttrs_def Let_def cs_reqLogAttrs)

lemma getOrCreateBag_with_cs:
  "getOrCreateBag env w (with_cs c s) = outcome_map (with_cs c) (getOrCreateBag env w s)"
  by (cases "mint_bag (env_fuel env) (env_rand env) (randIndex (pr s)) (streamObjectBags (pr s))")
     (auto simp: getOrCreateBag_def Let_def with_cs_def on_fl_def SetFilterState_def queued_def emit_def
        simp del: queued_with_cs)

lemma run_mut_with_cs:
  "run_mut env w op (with_cs c s) = outcome_map (with_cs c) (run_mut env w op s)"
proof (cases op)
  case (OpSetMetadata ns k v)
  then show ?thesis
    by (cases "SetMetadata ns k v w (fl s)") (simp_all add: try_fl_def with_cs_def SetMetadata_with_cs on_fl_def)
next
  case (OpAddLogAttrs kvs)
  then show ?thesis
    by (cases "AddLogAttrs kvs w (fl s)") (simp_all add: try_fl_def with_cs_def AddLogAttrs_with_cs on_fl_def)
next
  case (OpSetStreamObject k v)
  then show ?thesis
    by (cases "getOrCreateBag env w s")
       (simp_all add: SetStreamObject_def getOrCreateBag_with_cs, simp add: with_cs_def on_fl_def Let_def)
next
  case (OpGetStreamObject k)
  then show ?thesis
    by (auto simp: GetStreamObject_def Let_def with_cs_def on_fl_def GetFilterState_def split: option.split)
next
  case (OpSendLocalResponse st b hs)
  then show ?thesis by (simp add: with_cs_def on_fl_def SendLocalResponse_def emit_def)
qed (simp_all add: with_cs_def on_fl_def plain_op_defs SetFilterState_def emit_with_cs)

lemma run_script_with_cs:
  "run_script env w ops (with_cs c s) = outcome_map (with_cs c) (run_script env w ops s)"
proof (induction ops arbitrary: s)
  case (Cons op ops)
  then show ?case by (cases "run_mut env w op s") (simp_all add: run_mut_with_cs)
qed simp

section \<open>A queued local reply stays\<close>

definition replied :: "localResponse \<Rightarrow> http_filter \<Rightarrow> bool" where
  "replied r f \<longleftrightarrow> localReply f = Some r \<and> stopped f"

lemma replied_SetMetadata:
  "SetMetadata ns k v w f = Inr f' \<Longrightarrow> replied r f \<Longrightarrow> replied r f'"
  by (auto simp: SetMetadata_def replied_def emit_def split: if_splits)

lemma replied_set_metadata_all:
  "set_metadata_all ns as w f = Inr f' \<Longrightarrow> replied r f \<Longrightarrow> replied r f'"
  by (induction as arbitrary: f) (auto simp: obind_eq_Inr, metis replied_SetMetadata)

lemma replied_AddLogAttrs:
  "AddLogAttrs kvs w f = Inr f' \<Longrightarrow> replied r f \<Longrightarrow> replied r f'"
  by (auto simp: AddLogAttrs_def Let_def split: if_splits dest!: replied_set_metadata_all [where r = r])
     (auto simp: replied_def)

lemma replied_run_mut:
  assumes "run_mut env w op s = Inr s'" "queued w (fl s)" "replied r (fl s)"
  shows "replied r (fl s')"
  using assms
proof (cases op)
  case (OpSetMetadata ns k v)
  with assms show ?thesis by (auto simp: try_fl_def obind_eq_Inr dest: replied_SetMetadata)
next
  case (OpAddLogAttrs kvs)
  with assms show ?thesis by (auto simp: try_fl_def obind_eq_Inr dest: replied_AddLogAttrs)
next
  case (OpSetStreamObject k v)
  with assms show ?thesis
    by (auto simp: SetStreamObject_def getOrCreateBag_def Let_def SetFilterState_def obind_eq_Inr replied_def emit_def
        split: if_splits option.splits)
next
  case (OpGetStreamObject k)
  with assms show ?thesis by (auto simp: GetStreamObject_def Let_def replied_def split: option.splits)
qed (auto simp: replied_def plain_op_defs SetFilterState_def SendLocalResponse_def emit_def)

lemma replied_run_script:
  "run_script env w ops s = Inr s' \<Longrightarrow> queued w (fl s) \<Longrightarrow> replied r (fl s) \<Longrightarrow> replied r (fl s')"
proof (induction ops arbitrary: s)
  case (Cons op ops)
  then obtain t where t: "run_mut env w op s = Inr t" "run_script env w ops t = Inr s'" by (auto simp: obind_eq_Inr)
  have "core (fl t) = core (fl s)" using run_mut_mutates [OF t(1)] by (simp add: mutates_def)
  then have "queued w (fl t)" using Cons.prems(2) queued_core by blast
  then show ?case by (rule Cons.IH [OF t(2)]) (rule replied_run_mut [OF t(1) Cons.prems(2,3)])
qed simp

end
