(* ===== verification/Handoff.thy ===== *)
theory Handoff
  imports Script_Frames
begin

text \<open>
  The handoff between a request callback and the completion of its callout. The stored writers of
  every pending callout have \<open>calloutStarted\<close> set (\<open>writers_ok\<close>), so their callbacks only queue; as
  long as the stream is not paused no completion flushes (\<open>completes\<close>). Both together give that a
  callback's script, however Envoy answers its callouts, records only quiet events until the
  callback itself flushes (\<open>scripted\<close>).
\<close>

section \<open>Stored writers\<close>

lemma obind_InrE:
  assumes "obind m k = Inr y"
  obtains x where "m = Inr x" "k x = Inr y"
  using assms by (auto simp: obind_eq_Inr)

lemma if_Inr: "(if b then Inr x else Inr y) = Inr (if b then x else y)"
  by simp

definition writers_ok :: "http_filter \<Rightarrow> bool" where
  "writers_ok f \<longleftrightarrow>
     (calloutFn f \<noteq> None \<longrightarrow> calloutStarted (calloutWriter f)) \<and>
     (\<forall>b\<in>set (batches f). calloutStarted (b_writer b)) \<and>
     (\<forall>q\<in>set (sequences f). calloutStarted (s_writer q)) \<and>
     (\<forall>g\<in>set (grpcs f). calloutStarted (g_writer g))"

lemma writers_ok_core: "core f' = core f \<Longrightarrow> writers_ok f \<Longrightarrow> writers_ok f'"
  using core_fields [of f' f] by (simp add: writers_ok_def)

lemma writers_ok_batches:
  "writers_ok f \<Longrightarrow> calloutStarted (b_writer b) \<Longrightarrow> writers_ok (f\<lparr>batches := (batches f)[i := b]\<rparr>)"
  using set_update_subset_insert [of "batches f" i b] by (auto simp: writers_ok_def)

lemma writers_ok_sequences:
  "writers_ok f \<Longrightarrow> i < length (sequences f) \<longrightarrow> calloutStarted (s_writer q) \<Longrightarrow>
     writers_ok (f\<lparr>sequences := (sequences f)[i := q]\<rparr>)"
  using set_update_subset_insert [of "sequences f" i q]
  by (cases "i < length (sequences f)") (auto simp: writers_ok_def list_update_beyond)

lemma writers_ok_grpcs:
  "writers_ok f \<Longrightarrow> i < length (grpcs f) \<longrightarrow> calloutStarted (g_writer q) \<Longrightarrow>
     writers_ok (f\<lparr>grpcs := (grpcs f)[i := q]\<rparr>)"
  using set_update_subset_insert [of "grpcs f" i q]
  by (cases "i < length (grpcs f)") (auto simp: writers_ok_def list_update_beyond)

lemma writers_ok_nth:
  "writers_ok f \<Longrightarrow> i < length (batches f) \<Longrightarrow> calloutStarted (b_writer (batches f ! i))"
  "writers_ok f \<Longrightarrow> i < length (sequences f) \<Longrightarrow> calloutStarted (s_writer (sequences f ! i))"
  "writers_ok f \<Longrightarrow> i < length (grpcs f) \<Longrightarrow> calloutStarted (g_writer (grpcs f ! i))"
  by (simp_all add: writers_ok_def)

lemma writers_ok_updates [simp]:
  "writers_ok (f\<lparr>calloutState := c\<rparr>) = writers_ok f"
  by (simp_all add: writers_ok_def)

section \<open>Completions of callouts\<close>

definition resumes :: "http_filter \<Rightarrow> nat" where
  "resumes f = length (filter (\<lambda>e. e = Handle CContinueRequest) (events f))"

text \<open>
  \<open>completes f f'\<close>: the filter went from \<open>f\<close> to \<open>f'\<close> by answers to callouts. The handoff state only
  moves forward; on a stream that is not paused nothing but quiet events is recorded, and on a
  paused stream the request is resumed at most once, by the step from Paused to Flushed.
\<close>

definition completes :: "http_filter \<Rightarrow> http_filter \<Rightarrow> bool" where
  "completes f f' \<longleftrightarrow> base f' = base f \<and> goStarted f' = goStarted f \<and>
     goCompleted f' = goCompleted f \<and> goroutines f' = goroutines f \<and>
     (writers_ok f \<longrightarrow> writers_ok f') \<and>
     (calloutState f \<noteq> calloutStatePaused \<longrightarrow>
        extends quiet_event f f' \<and> calloutState f' \<noteq> calloutStatePaused) \<and>
     calloutState f \<le> calloutState f' \<and>
     (resumes f' = resumes f \<or>
      resumes f' = Suc (resumes f) \<and> calloutState f = calloutStatePaused \<and> calloutState f' = calloutStateFlushed) \<and>
     length (batches f') = length (batches f) \<and> length (sequences f') = length (sequences f) \<and>
     length (grpcs f') = length (grpcs f)"

lemma resumes_extends: "extends P f f' \<Longrightarrow> \<not> P (Handle CContinueRequest) \<Longrightarrow> resumes f' = resumes f"
  by (auto simp: extends_def resumes_def list_all_iff filter_empty_conv)

lemma resumes_events: "events f' = events f \<Longrightarrow> resumes f' = resumes f"
  by (simp add: resumes_def)

lemma resumes_updates [simp]:
  "resumes (f\<lparr>calloutFn := x1\<rparr>) = resumes f" "resumes (f\<lparr>calloutState := x2\<rparr>) = resumes f"
  "resumes (f\<lparr>batches := x3\<rparr>) = resumes f" "resumes (f\<lparr>sequences := x4\<rparr>) = resumes f"
  "resumes (f\<lparr>grpcs := x5\<rparr>) = resumes f" "resumes (user u f) = resumes f"
  by (simp_all add: resumes_def)

lemma Flushed_top: "calloutStateFlushed \<le> c \<longleftrightarrow> c = calloutStateFlushed"
  by (cases c) (simp_all add: less_eq_calloutState_def)

lemma gauge_call_resume [simp]: "CContinueRequest \<noteq> gauge_call g"
  by (cases g rule: gauge_call.cases) simp_all

lemma replace_calls_resume: "CContinueRequest \<notin> set (replace_calls b d)"
  by (simp add: replace_calls_def)

lemma body_calls_resume: "CContinueRequest \<notin> set (body_calls env evs f)"
proof (cases "hasRequestBodyReplacement f")
  case True
  then show ?thesis
  proof (cases "requestBodyReplacementBuffer env None (f\<lparr>events := evs\<rparr>)")
    case None
    show ?thesis unfolding body_calls_def None if_P [OF True] by simp
  next
    case (Some b)
    show ?thesis unfolding body_calls_def Some if_P [OF True] using replace_calls_resume by simp
  qed
qed (simp add: body_calls_def)

lemma resumes_flush_calls: "resumes (emit (flush_calls env c f) g) = resumes g + (if c then 1 else 0)"
proof -
  have "CContinueRequest \<notin> set (queue_calls f)"
    by (simp add: queue_calls_def header_call_def split_def image_iff split: option.split)
  moreover note body_calls_resume
  ultimately show ?thesis
    by (auto simp: flush_calls_def resumes_def filter_empty_conv)
qed

lemma resumes_flush: "resumes (flush env c f) = resumes f + (if c \<and> localReply f = None then 1 else 0)"
proof (cases "localReply f")
  case None
  moreover have "resumes (drained f) = resumes f" by (simp add: resumes_def drained_def)
  ultimately show ?thesis by (simp add: flush_no_reply resumes_flush_calls)
next
  case (Some r)
  then show ?thesis by (simp add: flush_local_reply resumes_def)
qed

lemma completes_refl [simp, intro]: "completes f f"
  by (simp add: completes_def)

lemma completes_trans [trans]:
  assumes "completes f g" "completes g h"
  shows "completes f h"
proof -
  have "calloutState f \<noteq> calloutStatePaused \<longrightarrow> extends quiet_event f h \<and> calloutState h \<noteq> calloutStatePaused"
    using assms extends_trans [of quiet_event f g h] by (simp add: completes_def)
  moreover have "resumes h = resumes f \<or>
      resumes h = Suc (resumes f) \<and> calloutState f = calloutStatePaused \<and> calloutState h = calloutStateFlushed"
    proof (cases "resumes g = resumes f")
    case True
    then show ?thesis using assms unfolding completes_def by (cases "calloutState f = calloutStatePaused") auto
  next
    case False
    then have "resumes g = Suc (resumes f)" "calloutState f = calloutStatePaused" "calloutState g = calloutStateFlushed"
      using assms(1) by (auto simp: completes_def)
    then show ?thesis using assms(2) Flushed_top [of "calloutState h"] by (simp add: completes_def)
  qed
  moreover have "calloutState f \<le> calloutState h" using assms unfolding completes_def by (meson order_trans)
  ultimately show ?thesis using assms unfolding completes_def by simp
qed

lemma completes_core:
  assumes "core f' = core f" "extends quiet_event f f'"
  shows "completes f f'"
  using core_fields [OF assms(1)] assms(2) resumes_extends [OF assms(2)]
  by (simp add: completes_def writers_ok_def)

lemma completes_mutates: "mutates w f f' \<Longrightarrow> calloutStarted w \<Longrightarrow> completes f f'"
  by (simp add: mutates_def queued_def completes_core)

lemma completes_script: "run_script env w ops s = Inr s' \<Longrightarrow> calloutStarted w \<Longrightarrow> completes (fl s) (fl s')"
  by (rule completes_mutates [OF run_script_mutates])

lemma completes_emit: "list_all quiet_call cs \<Longrightarrow> completes f (emit cs f)"
  by (rule completes_core) (auto intro: extends_emit simp: list_all_iff)

lemma completes_user: "completes f (user u f)"
  by (rule completes_core) (auto simp: extends_def)

lemma base_updates [simp]:
  "base (f\<lparr>calloutFn := x1\<rparr>) = base f" "base (f\<lparr>calloutState := x2\<rparr>) = base f"
  "base (f\<lparr>batches := x3\<rparr>) = base f" "base (f\<lparr>sequences := x4\<rparr>) = base f"
  "base (f\<lparr>grpcs := x5\<rparr>) = base f" "base (f\<lparr>calloutWriter := x6\<rparr>) = base f"
  "base (f\<lparr>goStarted := x7\<rparr>) = base f" "base (f\<lparr>goCompleted := x8\<rparr>) = base f"
  "base (f\<lparr>goCancelled := x9\<rparr>) = base f" "base (f\<lparr>goScheduler := x10\<rparr>) = base f"
  "base (f\<lparr>goroutines := x11\<rparr>) = base f"
  by (simp_all add: base_def core_def)

lemma base_emit [simp]: "base (emit cs f) = base f" "base (user u f) = base f"
  by (simp_all add: base_def)

lemma completes_batches: "calloutStarted (b_writer b) \<Longrightarrow> completes f (f\<lparr>batches := (batches f)[i := b]\<rparr>)"
  by (simp add: completes_def extends_same writers_ok_batches resumes_def)

lemma completes_sequences:
  "i < length (sequences f) \<longrightarrow> calloutStarted (s_writer q) \<Longrightarrow> completes f (f\<lparr>sequences := (sequences f)[i := q]\<rparr>)"
  by (simp add: completes_def extends_same writers_ok_sequences resumes_def)

lemma completes_grpcs:
  "i < length (grpcs f) \<longrightarrow> calloutStarted (g_writer q) \<Longrightarrow> completes f (f\<lparr>grpcs := (grpcs f)[i := q]\<rparr>)"
  by (simp add: completes_def extends_same writers_ok_grpcs resumes_def)

lemma settle_not_paused:
  "calloutState f \<noteq> calloutStatePaused \<Longrightarrow>
     settle_callout env f =
       (if calloutState f = calloutStateActive then f\<lparr>calloutState := calloutStateDone\<rparr> else f)"
  by (simp add: settle_callout_def calloutCAS_def)

lemma completes_settle: "completes f (settle_callout env f)"
proof (cases "calloutState f = calloutStatePaused")
  case True
  let ?g = "f\<lparr>calloutState := calloutStateFlushed\<rparr>"
  have eq: "settle_callout env f = flush env True ?g" using True by (simp add: settle_callout_def calloutCAS_def)
  have r: "resumes ?g = resumes f" by (simp add: resumes_def)
  show ?thesis
    unfolding eq using core_fields [OF core_flush, of env True ?g] writers_ok_core [OF core_flush, of ?g env True]
    by (simp add: completes_def True resumes_flush r less_eq_calloutState_def)
next
  case False
  then show ?thesis
    by (simp add: settle_not_paused) (simp add: completes_def extends_same less_eq_calloutState_def resumes_def)
qed

lemma completes_settled: "completes f g \<Longrightarrow> completes f (settle_callout env g)"
  by (rule completes_trans [OF _ completes_settle])

lemma completes_OnHttpCalloutDone:
  assumes "OnHttpCalloutDone env d s = Inr s'" "writers_ok (fl s)"
  shows "completes (fl s) (fl s')"
proof (cases "fl s' = fl s")
  case False
  with assms(1) obtain fn s1 where fn: "calloutFn (fl s) = Some fn"
    and run: "run_script env (calloutWriter (fl s)) (fn d)
                (on_fl (\<lambda>f. user (UCallout d) (f\<lparr>calloutFn := None\<rparr>)) s) = Inr s1"
    and s': "s' = on_fl (settle_callout env) s1"
    by (auto simp: OnHttpCalloutDone_def obind_eq_Inr split: option.splits if_splits)
  have w: "calloutStarted (calloutWriter (fl s))" using assms(2) fn by (simp add: writers_ok_def)
  have "completes (fl s) ((fl s)\<lparr>calloutFn := None\<rparr>)"
    using assms(2) by (simp add: completes_def extends_same writers_ok_def resumes_def)
  also have "completes \<dots> (user (UCallout d) \<dots>)" by (rule completes_user)
  also have "completes \<dots> (fl s1)" using completes_script [OF run w] by simp
  finally show ?thesis unfolding s' fl_on_fl by (rule completes_settled)
qed simp

lemma completes_batch_finish:
  assumes "batch_finish env bid i r s = Inr s'" "writers_ok (fl s)"
  shows "completes (fl s) (fl s')"
proof (cases "bid < length (batches (fl s)) \<and> \<not> b_flushed (batches (fl s) ! bid)")
  case True
  let ?b = "batches (fl s) ! bid"
  let ?b1 = "?b\<lparr>b_responses := (b_responses ?b)[i := r], b_remaining := b_remaining ?b - 1\<rparr>"
  let ?s1 = "on_fl (\<lambda>f. f\<lparr>batches := (batches f)[bid := ?b1\<lparr>b_flushed := True\<rparr>]\<rparr>) s"
  have w: "calloutStarted (b_writer ?b)" using True assms(2) by (simp add: writers_ok_nth)
  have 1: "completes (fl s) (fl ?s1)" using w by (simp add: completes_batches)
  consider "b_remaining ?b1 > 0" | "b_remaining ?b1 \<le> 0" "streamDone (fl ?s1)"
    | "b_remaining ?b1 \<le> 0" "\<not> streamDone (fl ?s1)" by linarith
  then show ?thesis
  proof cases
    case 1
    then have "s' = on_fl (\<lambda>f. f\<lparr>batches := (batches f)[bid := ?b1]\<rparr>) s"
      using True assms(1) by (simp add: batch_finish_def Let_def)
    then show ?thesis using w by (simp add: completes_batches)
  next
    case 2
    then have "s' = ?s1" using True assms(1) by (simp add: batch_finish_def Let_def)
    then show ?thesis using 1 by simp
  next
    case 3
    then obtain s2 where run: "run_script env (b_writer ?b) (b_fn ?b (b_responses ?b1))
        (on_fl (user (USettled (b_responses ?b1))) ?s1) = Inr s2"
      and s': "s' = (if streamDone (fl s2) then s2 else on_fl (settle_callout env) s2)"
      using True assms(1) by (auto simp: batch_finish_def Let_def obind_eq_Inr if_Inr)
    note 1
    also have "completes (fl ?s1) (user (USettled (b_responses ?b1)) (fl ?s1))" by (rule completes_user)
    also have "completes \<dots> (fl s2)" using completes_script [OF run w] by simp
    finally have "completes (fl s) (fl s2)" .
    then show ?thesis using completes_settled [of "fl s" "fl s2" env] by (simp add: s')
  qed
qed (use assms(1) in \<open>auto simp: batch_finish_def Let_def split: if_splits\<close>)

lemma completes_kept:
  "completes f g \<Longrightarrow> writers_ok f \<Longrightarrow> writers_ok g"
  by (simp add: completes_def)

lemma completes_batch_start:
  assumes "batch_start env bid i reqs s = Inr s'" "writers_ok (fl s)"
  shows "completes (fl s) (fl s')"
  using assms
proof (induction reqs arbitrary: i s)
  case (Cons req reqs)
  obtain init immediate where a: "env_callout env (events (fl s)) req = (init, immediate)" by fastforce
  let ?s1 = "on_fl (emit [CHttpCallout req]) s"
  from Cons.prems(1) a obtain s2 s3 where
    2: "(case immediate of Some d \<Rightarrow> batch_finish env bid i (settled_of_done d) ?s1 | None \<Rightarrow> Inr ?s1) = Inr s2"
    and 3: "(if init \<noteq> HTTPCalloutInitSuccess then batch_finish env bid i (settled_of_init init) s2 else Inr s2) = Inr s3"
    and rest: "batch_start env bid (Suc i) reqs s3 = Inr s'"
    by (auto simp: Let_def obind_eq_Inr)
  have c1: "completes (fl s) (fl ?s1)" by (simp add: completes_emit)
  note k1 = completes_kept [OF c1 Cons.prems(2)]
  have c2: "completes (fl ?s1) (fl s2)"
    using 2 k1 completes_batch_finish [of env bid i _ ?s1 s2] by (auto split: option.splits)
  note k2 = completes_kept [OF c2 k1]
  have c3: "completes (fl s2) (fl s3)"
    using 3 k2 completes_batch_finish [of env bid i _ s2 s3] by (auto split: if_splits)
  note k3 = completes_kept [OF c3 k2]
  show ?case
    by (rule completes_trans [OF c1 completes_trans [OF c2 completes_trans [OF c3 Cons.IH [OF rest]]]]) (use k3 in auto)
qed simp

lemma completes_sequence_finish:
  assumes "sequence_finish env qid s = Inr s'" "qid < length (sequences (fl s))"
    "writers_ok (fl s)"
  shows "completes (fl s) (fl s')"
proof (cases "s_finished (sequences (fl s) ! qid) \<or> streamDone (fl s)")
  case False
  let ?q = "sequences (fl s) ! qid"
  let ?s1 = "on_fl (\<lambda>f. user (USequenceDone (s_responses ?q))
                      (f\<lparr>sequences := (sequences f)[qid := ?q\<lparr>s_finished := True\<rparr>]\<rparr>)) s"
  from assms False obtain s2 where run: "run_script env (s_writer ?q) (s_done ?q (s_responses ?q)) ?s1 = Inr s2"
    and s': "s' = (if streamDone (fl s2) then s2 else on_fl (settle_callout env) s2)"
    by (auto simp: sequence_finish_def Let_def obind_eq_Inr if_Inr)
  have w: "calloutStarted (s_writer ?q)" using assms(2,3) by (simp add: writers_ok_nth)
  have "completes (fl s) ((fl s)\<lparr>sequences := (sequences (fl s))[qid := ?q\<lparr>s_finished := True\<rparr>]\<rparr>)"
    by (rule completes_sequences) (simp add: w)
  also have "completes \<dots> (fl ?s1)" by (simp add: completes_user)
  also have "completes \<dots> (fl s2)" by (rule completes_script [OF run w])
  finally have "completes (fl s) (fl s2)" .
  then show ?thesis using completes_settled [of "fl s" "fl s2" env] by (simp add: s')
qed (use assms(1) in \<open>auto simp: sequence_finish_def\<close>)

lemma completes_sequence_record: "writers_ok (fl s) \<Longrightarrow> completes (fl s) (fl (sequence_record qid r s))"
  by (simp add: sequence_record_def Let_def completes_sequences writers_ok_nth)

text \<open>A callout of a sequence that may be answered on the spot: \<open>k\<close> stands for the step that follows an answer.\<close>

lemma completes_sequence_callout:
  assumes k: "\<And>r t t'. k (Some r) (sequence_record qid r t) = Inr t' \<Longrightarrow> writers_ok (fl (sequence_record qid r t)) \<Longrightarrow>
      completes (fl (sequence_record qid r t)) (fl t')"
    and run: "obind (case immediate of
          Some d \<Rightarrow> k (Some (settled_of_done d)) (sequence_record qid (settled_of_done d) s) | None \<Rightarrow> Inr s) (\<lambda>s1.
        if init \<noteq> HTTPCalloutInitSuccess
        then k (Some (settled_of_init init)) (sequence_record qid (settled_of_init init) s1) else Inr s1) = Inr s'"
    and ok: "writers_ok (fl s)"
  shows "completes (fl s) (fl s')"
proof -
  have step: "completes (fl t) (fl t')" if "k (Some r) (sequence_record qid r t) = Inr t'" "writers_ok (fl t)" for r t t'
  proof -
    note c = completes_sequence_record [OF that(2), of qid r]
    show ?thesis using completes_trans [OF c k [OF that(1)]] completes_kept [OF c that(2)] by auto
  qed
  from run obtain s1 where
    1: "(case immediate of Some d \<Rightarrow> k (Some (settled_of_done d)) (sequence_record qid (settled_of_done d) s)
          | None \<Rightarrow> Inr s) = Inr s1"
    and 2: "(if init \<noteq> HTTPCalloutInitSuccess
             then k (Some (settled_of_init init)) (sequence_record qid (settled_of_init init) s1) else Inr s1) = Inr s'"
    by (auto simp: obind_eq_Inr)
  have c1: "completes (fl s) (fl s1)" using 1 ok step [of _ s s1] by (auto split: option.splits)
  have "completes (fl s1) (fl s')"
    using 2 completes_kept [OF c1 ok] step [of _ s1 s'] by (auto split: if_splits)
  with c1 show ?thesis by (rule completes_trans)
qed

lemma completes_sequence_step:
  assumes "sequence_step fuel env qid prev s = Inr s'" "writers_ok (fl s)"
  shows "completes (fl s) (fl s')"
  using assms
proof (induction fuel arbitrary: prev s s')
  case (Suc fuel)
  let ?q = "sequences (fl s) ! qid"
  show ?case
  proof (cases "qid \<ge> length (sequences (fl s)) \<or> s_finished ?q \<or> streamDone (fl s)")
    case False
    then have qid: "qid < length (sequences (fl s))" and w: "calloutStarted (s_writer ?q)"
      using Suc.prems(2) by (auto simp: writers_ok_nth)
    obtain ops reqo where nx: "s_next ?q (length (s_responses ?q)) prev = (ops, reqo)" by fastforce
    let ?s0 = "on_fl (user (USequenceNext (length (s_responses ?q)))) s"
    from Suc.prems(1) False nx obtain s1 where run: "run_script env (s_writer ?q) ops ?s0 = Inr s1"
      and rest: "(case reqo of None \<Rightarrow> sequence_finish env qid s1
            | Some req \<Rightarrow>
                let (init, immediate) = env_callout env (events (fl s1)) req;
                    s2 = on_fl (emit [CHttpCallout req]) s1
                in obind (case immediate of
                            Some d \<Rightarrow> sequence_step fuel env qid (Some (settled_of_done d))
                                        (sequence_record qid (settled_of_done d) s2)
                          | None \<Rightarrow> Inr s2) (\<lambda>s3.
                     if init \<noteq> HTTPCalloutInitSuccess
                     then sequence_step fuel env qid (Some (settled_of_init init))
                            (sequence_record qid (settled_of_init init) s3)
                     else Inr s3)) = Inr s'"
      by (auto simp: Let_def obind_eq_Inr)
    have "completes (fl s) (fl ?s0)" by (simp add: completes_user)
    also have "completes \<dots> (fl s1)" by (rule completes_script [OF run w])
    finally have c1: "completes (fl s) (fl s1)" .
    note k1 = completes_kept [OF c1 Suc.prems(2)]
    show ?thesis
    proof (cases reqo)
      case None
      have "qid < length (sequences (fl s1))" using c1 qid by (simp add: completes_def)
      with None rest k1 have "completes (fl s1) (fl s')" by (auto intro: completes_sequence_finish)
      with c1 show ?thesis by (rule completes_trans)
    next
      case (Some req)
      obtain init immediate where a: "env_callout env (events (fl s1)) req = (init, immediate)" by fastforce
      let ?s2 = "on_fl (emit [CHttpCallout req]) s1"
      have c2: "completes (fl s) (fl ?s2)" using completes_trans [OF c1 completes_emit] by simp
      have "completes (fl ?s2) (fl s')"
        by (rule completes_sequence_callout [where k = "sequence_step fuel env qid" and qid = qid, OF Suc.IH])
           (use rest Some a completes_kept [OF c2 Suc.prems(2)] in \<open>auto simp: Let_def\<close>)
      with c2 show ?thesis by (rule completes_trans)
    qed
  qed (use Suc.prems(1) in \<open>auto simp: Let_def split: if_splits\<close>)
qed simp

lemma completes_grpc_finish:
  assumes "grpc_finish env gid r s = Inr s'" "gid < length (grpcs (fl s))"
    "writers_ok (fl s)"
  shows "completes (fl s) (fl s')"
proof (cases "g_once (grpcs (fl s) ! gid)")
  case False
  let ?c = "grpcs (fl s) ! gid"
  let ?s1 = "on_fl (\<lambda>f. f\<lparr>grpcs := (grpcs f)[gid := ?c\<lparr>g_once := True\<rparr>]\<rparr>) s"
  have w: "calloutStarted (g_writer ?c)" using assms(2,3) by (simp add: writers_ok_nth)
  have c1: "completes (fl s) (fl ?s1)" by (simp add: completes_grpcs w)
  show ?thesis
  proof (cases "streamDone (fl s)")
    case True
    with assms(1) False have "s' = ?s1" by (simp add: grpc_finish_def Let_def)
    with c1 show ?thesis by simp
  next
    case notdone: False
    with assms(1) False obtain resp s2 where
      run: "run_script env (g_writer ?c) (g_fn ?c resp) (on_fl (user (UGrpc resp)) ?s1) = Inr s2"
      and s': "s' = on_fl (settle_callout env) s2"
      by (auto simp: grpc_finish_def Let_def obind_eq_Inr)
    note c1
    also have "completes (fl ?s1) (user (UGrpc resp) (fl ?s1))" by (rule completes_user)
    also have "completes \<dots> (fl s2)" using completes_script [OF run w] by simp
    finally show ?thesis unfolding s' fl_on_fl by (rule completes_settled)
  qed
qed (use assms(1) in \<open>simp add: grpc_finish_def\<close>)

lemma g_writer_applyGRPCHeaders [simp]: "g_writer (applyGRPCHeaders hs c) = g_writer c"
  by (simp add: applyGRPCHeaders_def Let_def split_def)

lemma completes_grpc_event:
  assumes "grpc_event env gid e s = Inr s'" "gid < length (grpcs (fl s))"
    "writers_ok (fl s)"
  shows "completes (fl s) (fl s')"
  using assms by (cases e) (auto simp: completes_grpcs writers_ok_nth intro: completes_grpc_finish)

lemma completes_grpc_events:
  assumes "grpc_events env gid es s = Inr s'" "gid < length (grpcs (fl s))"
    "writers_ok (fl s)"
  shows "completes (fl s) (fl s')"
  using assms
proof (induction es arbitrary: s)
  case (Cons e es)
  then obtain s1 where 1: "grpc_event env gid e s = Inr s1" and rest: "grpc_events env gid es s1 = Inr s'"
    by (auto simp: obind_eq_Inr)
  note c = completes_grpc_event [OF 1 Cons.prems(2,3)]
  have "completes (fl s1) (fl s')"
    by (rule Cons.IH [OF rest]) (use c Cons.prems in \<open>auto simp: completes_def\<close>)
  with c show ?case by (rule completes_trans)
qed simp

section \<open>Running a callback's script\<close>

fun no_continue :: "event \<Rightarrow> bool" where
  "no_continue (Handle c) = (c \<noteq> CContinueRequest)"
| "no_continue (User u) = True"

lemma never_resumes_no_continue: "never_resumes e \<Longrightarrow> no_continue e"
  by (cases e) auto

lemma quiet_no_continue: "quiet_event e \<Longrightarrow> no_continue e"
  by (cases e) auto

text \<open>The writer and the stream agree: what is stored queues, and a started callout is not paused.\<close>

definition handoff :: "writer \<Rightarrow> http_filter \<Rightarrow> bool" where
  "handoff w f \<longleftrightarrow> writers_ok f \<and> (calloutStarted w \<longrightarrow> calloutState f \<noteq> calloutStatePaused)"

text \<open>A goroutine that has not exited keeps \<open>goStarted\<close> or has lost to whoever set \<open>goCompleted\<close>.\<close>

definition gos_ok :: "http_filter \<Rightarrow> bool" where
  "gos_ok f \<longleftrightarrow> (\<exists>g\<in>set (goroutines f). g \<noteq> GoExited) \<longrightarrow> goStarted f \<or> goCompleted f"

definition scripted :: "writer \<times> http_filter \<Rightarrow> writer \<times> http_filter \<Rightarrow> bool" where
  "scripted a b \<longleftrightarrow> (case (a, b) of ((w, f), (w', f')) \<Rightarrow>
     base f' = base f \<and> extends no_continue f f' \<and>
     (queued w f \<longrightarrow> extends quiet_event f f' \<and> queued w' f') \<and>
     (handoff w f \<longrightarrow> handoff w' f') \<and> (gos_ok f \<longrightarrow> gos_ok f') \<and>
     (calloutState f \<noteq> calloutStatePaused \<longrightarrow> calloutState f' \<noteq> calloutStatePaused) \<and>
     directWrite w' = directWrite w)"

lemma scripted_refl: "scripted a a"
  by (simp add: scripted_def split: prod.splits)

lemma scripted_trans: "scripted a b \<Longrightarrow> scripted b c \<Longrightarrow> scripted a c"
  unfolding scripted_def by (auto split: prod.splits intro: extends_trans)

lemma scripted_mutates:
  assumes "mutates w f f'"
  shows "scripted (w, f) (w, f')"
proof -
  from assms have c: "core f' = core f" by (simp add: mutates_def)
  show ?thesis
    using assms core_fields [OF c] writers_ok_core [OF c]
    by (auto simp: scripted_def mutates_def handoff_def gos_ok_def queued_def
        intro: extends_mono [OF _ never_resumes_no_continue])
qed

text \<open>A callout that was started from \<open>f\<close> with the filter set up as \<open>g\<close>, completes from there on.\<close>

lemma scripted_started:
  assumes "completes g f'" "base g = base f" "events g = events f" "writers_ok f \<longrightarrow> writers_ok g"
    "calloutState g \<noteq> calloutStatePaused" "goStarted g = goStarted f" "goCompleted g = goCompleted f"
    "goroutines g = goroutines f" "directWrite w' = directWrite w" "calloutStarted w \<longrightarrow> calloutStarted w'"
  shows "scripted (w, f) (w', f')"
proof -
  have q: "extends quiet_event f f'" using assms(1,3,5) by (simp add: completes_def extends_def)
  show ?thesis
    using assms q extends_mono [OF q quiet_no_continue]
    by (auto simp: scripted_def completes_def handoff_def gos_ok_def queued_def)
qed

lemma writers_ok_reset: "writers_ok f \<Longrightarrow> writers_ok (f\<lparr>calloutFn := None, calloutState := c\<rparr>)"
  by (simp add: writers_ok_def)

lemma completes_reset:
  assumes "completes g f" "calloutState g = calloutStateActive"
  shows "completes g (f\<lparr>calloutFn := None, calloutState := calloutStateActive\<rparr>)"
  using assms writers_ok_reset [of f] unfolding completes_def extends_def by simp

lemma scripted_HTTPCallout:
  assumes "HTTPCallout env req fn (w, s) = Inr (w', s')"
    and "writers_ok (fl s)"
  shows "scripted (w, fl s) (w', fl s')"
proof -
  let ?w1 = "w\<lparr>calloutStarted := True\<rparr>"
  let ?g = "(fl s)\<lparr>calloutFn := Some fn, calloutWriter := ?w1, calloutState := calloutStateActive\<rparr>"
  let ?s1 = "on_fl (\<lambda>f. f\<lparr>calloutFn := Some fn, calloutWriter := ?w1, calloutState := calloutStateActive\<rparr>) s"
  let ?s2 = "on_fl (emit [CHttpCallout req]) ?s1"
  obtain init immediate where a: "env_callout env (events (fl s)) req = (init, immediate)" by fastforce
  have ok: "writers_ok ?g" using assms(2) by (simp add: writers_ok_def)
  have ns: "\<not> calloutStarted w" using assms(1) by (auto simp: HTTPCallout_def split: if_splits)
  have "obind (case immediate of Some d \<Rightarrow> if calloutCB w then OnHttpCalloutDone env d ?s2 else Inr ?s2
             | None \<Rightarrow> Inr ?s2)
      (\<lambda>s3. if init \<noteq> HTTPCalloutInitSuccess
             then Inr (w, on_fl (\<lambda>f. f\<lparr>calloutFn := None, calloutState := calloutStateActive\<rparr>) s3)
             else Inr (?w1, s3)) = Inr (w', s')"
    using assms(1) a by (simp add: HTTPCallout_def Let_def split: if_split_asm)
  then obtain s3 where
    3: "(case immediate of Some d \<Rightarrow> if calloutCB w then OnHttpCalloutDone env d ?s2 else Inr ?s2
             | None \<Rightarrow> Inr ?s2) = Inr s3"
    and 4: "(if init \<noteq> HTTPCalloutInitSuccess
             then Inr (w, on_fl (\<lambda>f. f\<lparr>calloutFn := None, calloutState := calloutStateActive\<rparr>) s3)
             else Inr (?w1, s3)) = (Inr (w', s') :: (writer \<times> sys) outcome)"
    by (rule obind_InrE) (rule that)
  have c2: "completes ?g (fl ?s2)" by (simp add: completes_emit)
  have k2: "writers_ok (fl ?s2)" by (rule completes_kept [OF c2 ok])
  have "completes (fl ?s2) (fl s3)"
    using 3 k2 completes_OnHttpCalloutDone [of env _ ?s2 s3] by (auto split: option.splits if_splits)
  with c2 have c3: "completes ?g (fl s3)" by (rule completes_trans)
  have c4: "completes ?g (fl s')"
    using 4 c3 completes_reset [OF c3] by (cases "init = HTTPCalloutInitSuccess") auto
  show ?thesis
    by (rule scripted_started [OF c4]) (use 4 ns ok in \<open>auto split: if_split_asm\<close>)
qed

lemma scripted_batch:
  assumes "start_batch env reqs fn (w, s) = Inr (w', s')" "writers_ok (fl s)" "\<not> calloutStarted w"
  shows "scripted (w, fl s) (w', fl s')"
proof -
  let ?w1 = "w\<lparr>calloutStarted := True\<rparr>"
  let ?b = "\<lparr>b_fn = fn, b_responses = replicate (length reqs) settled_zero,
               b_remaining = int (length reqs), b_flushed = False, b_writer = ?w1\<rparr>"
  let ?s1 = "on_fl (\<lambda>f. f\<lparr>calloutState := calloutStateActive, batches := batches f @ [?b]\<rparr>) s"
  have ok: "writers_ok (fl ?s1)" using assms(2) by (simp add: writers_ok_def)
  from assms(1) have w': "w' = ?w1" and run: "batch_start env (length (batches (fl s))) 0 reqs ?s1 = Inr s'"
    by (auto simp: start_batch_def Let_def elim: obind_InrE)
  show ?thesis
    by (rule scripted_started [OF completes_batch_start [OF run ok]]) (use ok w' in auto)
qed

lemma scripted_sequence:
  assumes "start_sequence env nx dn (w, s) = Inr (w', s')" "writers_ok (fl s)" "\<not> calloutStarted w"
  shows "scripted (w, fl s) (w', fl s')"
proof -
  let ?w1 = "w\<lparr>calloutStarted := True\<rparr>"
  let ?q = "\<lparr>s_next = nx, s_done = dn, s_responses = [], s_finished = False, s_writer = ?w1\<rparr>"
  let ?s1 = "on_fl (\<lambda>f. f\<lparr>calloutState := calloutStateActive, sequences := sequences f @ [?q]\<rparr>) s"
  have ok: "writers_ok (fl ?s1)" using assms(2) by (simp add: writers_ok_def)
  from assms(1) have w': "w' = ?w1"
    and run: "sequence_step (env_fuel env) env (length (sequences (fl s))) None ?s1 = Inr s'"
    by (auto simp: start_sequence_def Let_def elim: obind_InrE)
  show ?thesis
    by (rule scripted_started [OF completes_sequence_step [OF run ok]]) (use ok w' in auto)
qed

lemma scripted_GRPCCallout:
  assumes "GRPCCallout env req fno (w, s) = Inr (w', s')" "writers_ok (fl s)"
  shows "scripted (w, fl s) (w', fl s')"
proof -
  obtain fn where fn: "fno = Some fn" and ns: "\<not> calloutStarted w"
    using assms(1) by (auto simp: GRPCCallout_def split: option.splits if_splits)
  let ?w1 = "w\<lparr>calloutStarted := True\<rparr>"
  let ?c = "\<lparr>g_fn = fn, g_once = False,
       g_resp = \<lparr>G_Result = HTTPCalloutSuccess, GRPCStatus = 0, GRPCMessage = '''', G_Body = None\<rparr>,
       g_body = [], g_writer = ?w1\<rparr>"
  let ?s1 = "on_fl (\<lambda>f. f\<lparr>calloutState := calloutStateActive, grpcs := grpcs f @ [?c]\<rparr>) s"
  let ?cl = "CStartHttpStream (G_Cluster req) (grpc_headers req) (encodeGRPCFrame (G_Message req)) True
               (G_TimeoutMillis req)"
  let ?s2 = "on_fl (emit [?cl]) ?s1"
  obtain init immediate where a: "env_stream env (events (fl s)) ?cl = (init, immediate)" by fastforce
  have ok: "writers_ok (fl ?s1)" using assms(2) by (simp add: writers_ok_def)
  have "obind (grpc_events env (length (grpcs (fl s))) immediate ?s2)
      (\<lambda>s3. if init \<noteq> HTTPCalloutInitSuccess
             then Inr (w, on_fl (\<lambda>f. f\<lparr>calloutState := calloutStateActive\<rparr>) s3)
             else Inr (?w1, s3)) = Inr (w', s')"
    using assms(1) a fn by (simp add: GRPCCallout_def Let_def split: if_split_asm)
  then obtain s3 where 3: "grpc_events env (length (grpcs (fl s))) immediate ?s2 = Inr s3"
    and 4: "(if init \<noteq> HTTPCalloutInitSuccess
             then Inr (w, on_fl (\<lambda>f. f\<lparr>calloutState := calloutStateActive\<rparr>) s3)
             else Inr (?w1, s3)) = (Inr (w', s') :: (writer \<times> sys) outcome)"
    by (rule obind_InrE) (rule that)
  have c2: "completes (fl ?s1) (fl ?s2)" by (simp add: completes_emit)
  have k2: "writers_ok (fl ?s2)" by (rule completes_kept [OF c2 ok])
  have "completes (fl ?s2) (fl s3)"
    by (rule completes_grpc_events [OF 3 _ k2]) (simp add: emit_def)
  with c2 have c3: "completes (fl ?s1) (fl s3)" by (rule completes_trans)
  have "completes (fl ?s1) ((fl s3)\<lparr>calloutState := calloutStateActive\<rparr>)"
    using c3 unfolding completes_def extends_def by simp
  then have c4: "completes (fl ?s1) (fl s')"
    using 4 c3 by (cases "init = HTTPCalloutInitSuccess") auto
  show ?thesis
    by (rule scripted_started [OF c4]) (use 4 ns ok in \<open>auto split: if_split_asm\<close>)
qed

lemma scripted_Go:
  assumes "Writer_Go (w, s) = Inr (w', s')"
  shows "scripted (w, fl s) (w', fl s')"
proof -
  from assms have ns: "\<not> calloutStarted w" and w': "w' = w\<lparr>w_goStarted := True\<rparr>"
    and s': "s' = on_fl (\<lambda>f. (emit [CGetScheduler] f)
                   \<lparr>goScheduler := True, goCancelled := False, goCompleted := False, goStarted := True,
                    goroutines := goroutines f @ [GoRunning w']\<rparr>) s"
    by (auto simp: Writer_Go_def Let_def split: if_splits)
  show ?thesis
    by (auto simp: scripted_def s' w' ns handoff_def gos_ok_def queued_def writers_ok_def extends_def)
       (simp_all add: emit_def)
qed

lemma scripted_user: "scripted (w, f) (w, user u f)"
  using core_fields [OF core_user, of u f] writers_ok_core [OF core_user, of f u]
  by (auto simp: scripted_def extends_def handoff_def gos_ok_def queued_def)

text \<open>Every Writer call of a callback, through the structure of the script.\<close>

lemma in_order_run_ops: "in_order (map (\<lambda>op. run_op op env) ops) ws = run_ops env ops ws"
proof (induction ops arbitrary: ws)
  case (Cons op ops)
  have "in_order (map (\<lambda>op. run_op op env) ops) = run_ops env ops" by (rule ext) (rule Cons.IH)
  then show ?case by simp
qed simp

lemma scripted_run_ops:
  assumes "\<And>op w s w' s'. op \<in> set ops \<Longrightarrow> run_op op env (w, s) = Inr (w', s') \<Longrightarrow> handoff w (fl s) \<Longrightarrow>
      scripted (w, fl s) (w', fl s')"
    and "run_ops env ops (w, s) = Inr (w', s')" "handoff w (fl s)"
  shows "scripted (w, fl s) (w', fl s')"
  using assms
proof (induction ops arbitrary: w s)
  case Nil
  then show ?case by (simp add: scripted_refl)
next
  case (Cons op ops)
  from Cons.prems(2) obtain w1 s1 where 1: "run_op op env (w, s) = Inr (w1, s1)"
    and rest: "run_ops env ops (w1, s1) = Inr (w', s')" by (auto elim: obind_InrE)
  have c: "scripted (w, fl s) (w1, fl s1)" by (rule Cons.prems(1) [OF _ 1 Cons.prems(3)]) simp
  then have h: "handoff w1 (fl s1)" using Cons.prems(3) by (simp add: scripted_def)
  have "scripted (w1, fl s1) (w', fl s')"
    by (rule Cons.IH [OF _ rest h]) (rule Cons.prems(1), simp_all)
  with c show ?case by (rule scripted_trans)
qed

lemma run_op_scripted:
  "run_op op env (w, s) = Inr (w', s') \<Longrightarrow> handoff w (fl s) \<Longrightarrow> scripted (w, fl s) (w', fl s')"
proof (induction op arbitrary: w s w' s')
  case (OpHTTPCallout req fn)
  then show ?case by (auto simp: handoff_def intro: scripted_HTTPCallout)
next
  case (OpHTTPCalloutAllSettled reqs fno)
  from OpHTTPCalloutAllSettled.prems obtain fn where fn: "fno = Some fn" and ns: "\<not> calloutStarted w"
    by (cases fno) (auto split: if_splits)
  show ?case
  proof (cases "reqs = []")
    case True
    with OpHTTPCalloutAllSettled.prems fn have
      "in_order (map (\<lambda>op. run_op op env) (fn [])) (w, on_fl (user (USettled [])) s) = Inr (w', s')"
      by (simp add: comp_def split: if_split_asm)
    then have run: "run_ops env (fn []) (w, on_fl (user (USettled [])) s) = Inr (w', s')"
      by (simp only: in_order_run_ops)
    have h: "handoff w (fl (on_fl (user (USettled [])) s))"
      using OpHTTPCalloutAllSettled.prems(2) scripted_user [of w "fl s" "USettled []"] by (simp add: scripted_def)
    have "scripted (w, fl (on_fl (user (USettled [])) s)) (w', fl s')"
      by (rule scripted_run_ops [OF _ run h]) (rule OpHTTPCalloutAllSettled.IH [of fn "fn []"], simp_all add: fn)
    then show ?thesis unfolding fl_on_fl by (rule scripted_trans [OF scripted_user])
  next
    case False
    with OpHTTPCalloutAllSettled.prems fn have "start_batch env reqs fn (w, s) = Inr (w', s')"
      by (auto split: if_splits)
    then show ?thesis using ns OpHTTPCalloutAllSettled.prems(2) by (auto simp: handoff_def intro: scripted_batch)
  qed
next
  case (OpHTTPCalloutSequence nxo dno)
  then show ?case by (auto simp: handoff_def split: if_splits option.splits intro: scripted_sequence)
next
  case (OpGRPCCallout req fno)
  then show ?case by (auto simp: handoff_def intro: scripted_GRPCCallout)
next
  case OpGo
  then show ?case by (auto intro: scripted_Go)
qed (auto elim!: obind_InrE dest: run_mut_mutates intro: scripted_mutates simp del: run_mut.simps)

lemma run_ops_scripted:
  "run_ops env ops (w, s) = Inr (w', s') \<Longrightarrow> handoff w (fl s) \<Longrightarrow> scripted (w, fl s) (w', fl s')"
  by (rule scripted_run_ops [OF run_op_scripted])

end
