(* ===== verification/Registries.thy ===== *)
theory Registries
  imports Transit_Prelude
begin

text \<open>
  The name registries of the ABI layer: clusters (\<^verbatim>\<open>src/down/cluster.go\<close>), load-balancing policies
  (\<^verbatim>\<open>src/down/lb.go\<close>) and access loggers (\<^verbatim>\<open>src/down/access_logger.go\<close>). Each panics on a duplicate
  name; the locale \<open>name_registry\<close> states what clients rely on, once for all three.
\<close>

type_synonym 'f registry_map = "string \<rightharpoonup> 'f"

definition RegisterCluster :: "string \<Rightarrow> 'f \<Rightarrow> 'f registry_map \<Rightarrow> 'f registry_map outcome" where
  "RegisterCluster nm f m =
     (if m nm \<noteq> None then Inl (Panic (''down: cluster already registered: '' @ nm)) else Inr (m(nm \<mapsto> f)))"

definition GetClusterFactory :: "string \<Rightarrow> 'f registry_map \<Rightarrow> 'f option" where
  "GetClusterFactory nm m = m nm"

definition RegisterLBPolicy :: "string \<Rightarrow> 'f \<Rightarrow> 'f registry_map \<Rightarrow> 'f registry_map outcome" where
  "RegisterLBPolicy nm f m =
     (if m nm \<noteq> None then Inl (Panic (''down: LB policy already registered: '' @ nm)) else Inr (m(nm \<mapsto> f)))"

definition GetLBPolicyFactory :: "string \<Rightarrow> 'f registry_map \<Rightarrow> 'f option" where
  "GetLBPolicyFactory nm m = m nm"

definition RegisterAccessLoggerConfigFactory :: "string \<Rightarrow> 'f \<Rightarrow> 'f registry_map \<Rightarrow> 'f registry_map outcome" where
  "RegisterAccessLoggerConfigFactory nm f m =
     (if m nm \<noteq> None then Inl (Panic (''down: access logger already registered: '' @ nm)) else Inr (m(nm \<mapsto> f)))"

definition GetAccessLoggerConfigFactory :: "string \<Rightarrow> 'f registry_map \<Rightarrow> 'f option" where
  "GetAccessLoggerConfigFactory nm m = m nm"

section \<open>The contract\<close>

locale name_registry =
  fixes register :: "string \<Rightarrow> 'f \<Rightarrow> 's \<Rightarrow> 's outcome"
    and lookup :: "string \<Rightarrow> 's \<Rightarrow> 'f option"
  assumes register_taken: "lookup nm s \<noteq> None \<Longrightarrow> \<exists>msg. register nm f s = Inl (Panic msg)"
    and register_fresh: "lookup nm s = None \<Longrightarrow> \<exists>s'. register nm f s = Inr s'"
    and lookup_register: "register nm f s = Inr s' \<Longrightarrow> lookup k s' = (if k = nm then Some f else lookup k s)"
begin

text \<open>The registrations of a program's \<open>init\<close> functions, in order.\<close>

fun register_all :: "(string \<times> 'f) list \<Rightarrow> 's \<Rightarrow> 's outcome" where
  "register_all [] s = Inr s"
| "register_all ((nm, f) # rs) s = obind (register nm f s) (register_all rs)"

lemma register_all_taken:
  "lookup nm s \<noteq> None \<Longrightarrow> nm \<in> fst ` set rs \<Longrightarrow> register_all rs s \<noteq> Inr s'"
proof (induction rs arbitrary: s)
  case (Cons r rs)
  obtain k g where r: "r = (k, g)" by (cases r)
  show ?case
  proof (cases "k = nm")
    case True
    then show ?thesis using register_taken [OF Cons.prems(1), of g] by (auto simp: r)
  next
    case False
    with Cons show ?thesis by (auto simp: r obind_eq_Inr lookup_register)
  qed
qed simp

lemma register_all_lookup:
  "register_all rs s = Inr s' \<Longrightarrow>
     lookup k s' = (case map_of rs k of Some f \<Rightarrow> Some f | None \<Rightarrow> lookup k s)"
proof (induction rs arbitrary: s)
  case (Cons r rs)
  obtain nm f where r: "r = (nm, f)" by (cases r)
  from Cons.prems obtain t where t: "register nm f s = Inr t" "register_all rs t = Inr s'"
    by (auto simp: r obind_eq_Inr)
  have "map_of rs nm = None"
    using register_all_taken [of nm t rs s'] t(2) lookup_register [OF t(1), of nm] by (auto simp: map_of_eq_None_iff)
  with Cons.IH [OF t(2)] show ?case by (auto simp: r lookup_register [OF t(1)] split: option.split)
qed simp

lemma register_all_succeeds:
  "distinct (map fst rs) \<Longrightarrow> (\<And>nm. nm \<in> fst ` set rs \<Longrightarrow> lookup nm s = None) \<Longrightarrow> \<exists>s'. register_all rs s = Inr s'"
proof (induction rs arbitrary: s)
  case (Cons r rs)
  obtain nm f where r: "r = (nm, f)" by (cases r)
  obtain t where t: "register nm f s = Inr t" using register_fresh [of nm s] Cons.prems(2) by (auto simp: r)
  have "\<exists>s'. register_all rs t = Inr s'"
    by (rule Cons.IH) (use Cons.prems in \<open>auto simp: r lookup_register [OF t]\<close>)
  with t show ?case by (simp add: r)
qed simp

lemma register_all_distinct:
  "register_all rs s = Inr s' \<Longrightarrow> distinct (map fst rs) \<and> (\<forall>nm\<in>fst ` set rs. lookup nm s = None)"
proof (induction rs arbitrary: s)
  case (Cons r rs)
  obtain nm f where r: "r = (nm, f)" by (cases r)
  from Cons.prems obtain t where t: "register nm f s = Inr t" "register_all rs t = Inr s'"
    by (auto simp: r obind_eq_Inr)
  have "lookup nm s = None" using register_taken [of nm s f] t(1) by fastforce
  moreover have "nm \<notin> fst ` set rs"
    using register_all_taken [of nm t rs s'] t(2) lookup_register [OF t(1), of nm] by auto
  moreover have "distinct (map fst rs)" "\<forall>k\<in>fst ` set rs. (if k = nm then Some f else lookup k s) = None"
    using Cons.IH [OF t(2)] by (simp_all add: lookup_register [OF t(1)])
  ultimately show ?case by (simp add: r) (metis image_eqI option.distinct(1))
qed simp

end

interpretation cluster_registry: name_registry RegisterCluster GetClusterFactory
  by unfold_locales (auto simp: RegisterCluster_def GetClusterFactory_def split: if_splits)

interpretation lb_registry: name_registry RegisterLBPolicy GetLBPolicyFactory
  by unfold_locales (auto simp: RegisterLBPolicy_def GetLBPolicyFactory_def split: if_splits)

interpretation logger_registry: name_registry RegisterAccessLoggerConfigFactory GetAccessLoggerConfigFactory
  by unfold_locales (auto simp: RegisterAccessLoggerConfigFactory_def GetAccessLoggerConfigFactory_def split: if_splits)

end
