(* ===== verification/Filter_Factory.thy ===== *)
theory Filter_Factory
  imports Filter_Callbacks Registries
begin

text \<open>
  Registration and creation of filters: the options of \<^verbatim>\<open>src/up/up.go\<close>, \<open>configFactory\<close> and
  \<open>filterFactory\<close> of \<^verbatim>\<open>src/up/filter.go\<close>. The group of background goroutines is attached by its
  address; \<open>Create\<close> reports that it has to be started.
\<close>

type_synonym handler_func = "request \<Rightarrow> wop list"
type_synonym response_func = "response_chunk \<Rightarrow> wop list"
type_synonym body_func = "body_chunk \<Rightarrow> wop list"

text \<open>
  A config callback sees the config handle, that is the metric definitions and the raw config
  bytes, and may fail.
\<close>

datatype metric_kind = MetricCounter | MetricGauge | MetricHistogram

type_synonym config_func = "(metric_kind \<Rightarrow> string \<Rightarrow> string + nat) \<Rightarrow> bytes \<Rightarrow> string option"

record configFactory =
  cf_name :: string
  cf_configFn :: "config_func option"
  cf_handler :: handler_func
  cf_responseHandler :: "response_func option"
  cf_requestBodyHandler :: "body_func option"
  cf_onStreamComplete :: bool
  cf_onStreamFinalized :: bool
  cf_bufferBody :: bool
  cf_mutableRequestBody :: bool
  cf_group :: "nat option"
  cf_logAttrs :: "(string \<times> go_value) list"
  cf_logMetadataNS :: string

record filterFactory =
  ff_name :: string
  ff_handler :: handler_func
  ff_responseHandler :: "response_func option"
  ff_requestBodyHandler :: "body_func option"
  ff_onStreamComplete :: bool
  ff_onStreamFinalized :: bool
  ff_bufferBody :: bool
  ff_mutableRequestBody :: bool
  ff_stop :: "nat option"
  ff_logAttrs :: "(string \<times> go_value) list"
  ff_logMetadataNS :: string

section \<open>Filter options\<close>

type_synonym FilterOption = "configFactory \<Rightarrow> configFactory"

definition WithConfig :: "config_func \<Rightarrow> FilterOption" where
  "WithConfig fn cf = cf\<lparr>cf_configFn := Some fn\<rparr>"

definition WithResponse :: "response_func \<Rightarrow> FilterOption" where
  "WithResponse r cf = cf\<lparr>cf_responseHandler := Some r\<rparr>"

definition WithStreamingBody :: "body_func option \<Rightarrow> FilterOption" where
  "WithStreamingBody rb cf =
     cf\<lparr>cf_requestBodyHandler := rb, cf_bufferBody := False, cf_mutableRequestBody := False\<rparr>"

definition WithBody :: "body_func option \<Rightarrow> FilterOption" where
  "WithBody rb cf =
     cf\<lparr>cf_requestBodyHandler := rb, cf_bufferBody := True, cf_mutableRequestBody := False\<rparr>"

definition WithMutableBody :: "body_func option \<Rightarrow> FilterOption" where
  "WithMutableBody rb cf =
     cf\<lparr>cf_requestBodyHandler := rb, cf_bufferBody := True, cf_mutableRequestBody := True\<rparr>"

definition WithGroup :: "nat \<Rightarrow> FilterOption" where
  "WithGroup g cf = cf\<lparr>cf_group := Some g\<rparr>"

definition WithOnStreamComplete :: FilterOption where
  "WithOnStreamComplete cf = cf\<lparr>cf_onStreamComplete := True\<rparr>"

definition WithOnStreamFinalized :: FilterOption where
  "WithOnStreamFinalized cf = cf\<lparr>cf_onStreamFinalized := True\<rparr>"

definition WithAttributes :: "go_value list \<Rightarrow> FilterOption" where
  "WithAttributes kvs cf = cf\<lparr>cf_logAttrs := argsToAttrs kvs\<rparr>"

definition WithLogMetadata :: "string \<Rightarrow> FilterOption" where
  "WithLogMetadata ns cf = cf\<lparr>cf_logMetadataNS := ns\<rparr>"

fun applyFilterOptions :: "configFactory \<Rightarrow> FilterOption option list \<Rightarrow> configFactory" where
  "applyFilterOptions cf [] = cf"
| "applyFilterOptions cf (Some opt # opts) = applyFilterOptions (opt cf) opts"
| "applyFilterOptions cf (None # opts) = applyFilterOptions cf opts"

definition new_configFactory :: "string \<Rightarrow> handler_func \<Rightarrow> configFactory" where
  "new_configFactory nm h =
     \<lparr>cf_name = nm, cf_configFn = None, cf_handler = h, cf_responseHandler = None,
      cf_requestBodyHandler = None, cf_onStreamComplete = False, cf_onStreamFinalized = False,
      cf_bufferBody = False, cf_mutableRequestBody = False, cf_group = None, cf_logAttrs = [],
      cf_logMetadataNS = ''''\<rparr>"

text \<open>Middleware: the first of the list is outermost.\<close>

fun Chain_from :: "('h \<Rightarrow> 'h) list \<Rightarrow> nat \<Rightarrow> 'h \<Rightarrow> 'h" where
  "Chain_from mw 0 h = h"
| "Chain_from mw (Suc i) h = Chain_from mw i ((mw ! i) h)"

definition Chain :: "'h \<Rightarrow> ('h \<Rightarrow> 'h) list \<Rightarrow> 'h" where
  "Chain h mw = Chain_from mw (length mw) h"

lemma Chain_from_foldr: "i \<le> length mw \<Longrightarrow> Chain_from mw i h = foldr (\<lambda>m k. m k) (take i mw) h"
  by (induction i arbitrary: h) (simp_all add: take_Suc_conv_app_nth)

lemma Chain_foldr: "Chain h mw = foldr (\<lambda>m k. m k) mw h"
  by (simp add: Chain_def Chain_from_foldr)

section \<open>Register\<close>

text \<open>
  The registries Register writes: \<open>registry\<close> of up.go, the factories handed to the SDK in order
  (\<open>down.RegisterHttpFilter\<close>), and the access loggers of the ABI layer. An access logger is either
  the internal one that delivers finalized streams or one a module registered itself.
\<close>

datatype logger_factory = FinalizedLoggerConfigFactory string | UserLoggerConfigFactory nat

record registries =
  registry :: "string \<rightharpoonup> handler_func"
  sdk_filters :: "(string \<times> configFactory) list"
  accessLoggerRegistry :: "logger_factory registry_map"

definition registerStreamFinalizedAccessLogger :: "string \<Rightarrow> registries \<Rightarrow> registries outcome" where
  "registerStreamFinalizedAccessLogger nm r =
     obind (RegisterAccessLoggerConfigFactory nm (FinalizedLoggerConfigFactory nm) (accessLoggerRegistry r))
       (\<lambda>m. Inr (r\<lparr>accessLoggerRegistry := m\<rparr>))"

definition Register :: "string \<Rightarrow> handler_func \<Rightarrow> FilterOption option list \<Rightarrow> registries \<Rightarrow> registries outcome" where
  "Register nm h opts r =
     (if registry r nm \<noteq> None then Inl (Panic (''up: filter already registered: '' @ nm))
      else
        let cf = applyFilterOptions (new_configFactory nm h) opts;
            r1 = r\<lparr>registry := (registry r)(nm \<mapsto> h), sdk_filters := sdk_filters r @ [(nm, cf)]\<rparr>
        in if cf_onStreamFinalized cf then registerStreamFinalizedAccessLogger nm r1 else Inr r1)"

section \<open>configFactory and filterFactory\<close>

text \<open>
  \<open>sdk\<close> is what the SDK answers to a metric definition: an id and a result code, zero for success.
  Every other code becomes an error that quotes the metric's name (names need no escaping).
\<close>

definition metric_define_name :: "metric_kind \<Rightarrow> string" where
  "metric_define_name k =
     (case k of MetricCounter \<Rightarrow> ''DefineCounter'' | MetricGauge \<Rightarrow> ''DefineGauge''
              | MetricHistogram \<Rightarrow> ''DefineHistogram'')"

definition define_metric :: "(metric_kind \<Rightarrow> string \<Rightarrow> nat \<times> nat) \<Rightarrow> metric_kind \<Rightarrow> string \<Rightarrow> string + nat" where
  "define_metric sdk k nm =
     (let (ident, res) = sdk k nm in
      if res \<noteq> 0 then Inl (''up: '' @ metric_define_name k @ '' '' @ [CHR 0x22] @ nm @ [CHR 0x22] @ '' failed (result='' @ Itoa res @ '')'')
      else Inr ident)"

text \<open>
  \<open>Create\<close>: the config callback may veto the filter; then the group, if there is one, is started
  and its \<open>Stop\<close> becomes the factory's. The second component says which group to start.
\<close>

definition configFactory_Create ::
    "(metric_kind \<Rightarrow> string \<Rightarrow> nat \<times> nat) \<Rightarrow> bytes \<Rightarrow> configFactory \<Rightarrow> string + (filterFactory \<times> nat option)" where
  "configFactory_Create sdk raw f =
     (case (case cf_configFn f of Some fn \<Rightarrow> fn (define_metric sdk) raw | None \<Rightarrow> None) of
        Some err \<Rightarrow> Inl err
      | None \<Rightarrow>
          Inr (\<lparr>ff_name = cf_name f, ff_handler = cf_handler f, ff_responseHandler = cf_responseHandler f,
                ff_requestBodyHandler = cf_requestBodyHandler f, ff_onStreamComplete = cf_onStreamComplete f,
                ff_onStreamFinalized = cf_onStreamFinalized f, ff_bufferBody = cf_bufferBody f,
                ff_mutableRequestBody = cf_mutableRequestBody f, ff_stop = cf_group f,
                ff_logAttrs = cf_logAttrs f, ff_logMetadataNS = cf_logMetadataNS f\<rparr>, cf_group f))"

definition filterFactory_Create :: "nat \<Rightarrow> filterFactory \<Rightarrow> http_filter" where
  "filterFactory_Create addr f =
     \<lparr>f_name = ff_name f, handler = ff_handler f, responseHandler = ff_responseHandler f,
      requestBodyHandler = ff_requestBodyHandler f, onStreamComplete = ff_onStreamComplete f,
      onStreamFinalized = ff_onStreamFinalized f, bufferBody = ff_bufferBody f,
      mutableRequestBody = ff_mutableRequestBody f, logAttrs = ff_logAttrs f,
      logMetadataNS = ff_logMetadataNS f, reqID = '''', reqLogAttrs = [], finalizedKey = '''',
      streamObjectNonce = '''', requestContentType = '''', requestContentEncoding = '''',
      responseContentType = '''', responseContentEncoding = '''', goStarted = False,
      goScheduler = False, goCancelled = False, goCompleted = False, stopped = False,
      reqHeaders = [], filterState = [], counters = [], gauges = [], histograms = [],
      dynamicMetadata = [], override = None, localReply = None, stripFramingOnResume = False,
      requestBodyReplacement = [], hasRequestBodyReplacement = False, responseBodyReplacement = [],
      hasResponseBodyReplacement = False, calloutFn = None, calloutWriter = request_writer,
      calloutState = calloutStateActive, responseEndSeen = False, streamDone = False,
      localReplyBody = '''', batches = [], sequences = [], grpcs = [], goroutines = [],
      self = addr, events = []\<rparr>"

text \<open>The group a factory stops when Envoy destroys it.\<close>

definition filterFactory_OnDestroy :: "filterFactory \<Rightarrow> nat option" where
  "filterFactory_OnDestroy f = ff_stop f"

section \<open>What registration gives\<close>

text \<open>The body options are exclusive: the last one decides the body mode, and a mutable body is buffered.\<close>

definition body_mode_ok :: "configFactory \<Rightarrow> bool" where
  "body_mode_ok cf \<longleftrightarrow> (cf_mutableRequestBody cf \<longrightarrow> cf_bufferBody cf)"

lemma Register_Inr_cases:
  assumes "Register nm h opts r = Inr r'"
  shows "registry r nm = None" "registry r' = (registry r)(nm \<mapsto> h)"
    "sdk_filters r' = sdk_filters r @ [(nm, applyFilterOptions (new_configFactory nm h) opts)]"
    "accessLoggerRegistry r' =
       (if cf_onStreamFinalized (applyFilterOptions (new_configFactory nm h) opts)
        then (accessLoggerRegistry r)(nm \<mapsto> FinalizedLoggerConfigFactory nm) else accessLoggerRegistry r)"
  using assms
  by (auto simp: Register_def Let_def registerStreamFinalizedAccessLogger_def RegisterAccessLoggerConfigFactory_def
      split: if_splits)

end
