(* ===== verification/Stream_Steps.thy ===== *)
theory Stream_Steps
  imports Handoff Filter_Factory
begin

text \<open>
  One stream as a state machine: the callbacks Envoy makes, the answers to its callouts and the
  steps of its goroutines, in any order. The user's functions are closures that may keep state of
  their own between invocations, so a step may also replace them. Envoy makes no request or
  response callback after \<open>OnStreamComplete\<close>; answers to callouts and goroutine steps may still
  arrive then. The invariant \<open>stream_inv\<close> holds in every reachable state.
\<close>

inductive stream_step :: "envoy \<Rightarrow> sys \<Rightarrow> sys \<Rightarrow> bool" for env where
  request_headers:
    "\<not> streamDone (fl s) \<Longrightarrow> OnRequestHeaders env hs eos s = Inr (st, s') \<Longrightarrow> stream_step env s s'"
| request_body:
    "\<not> streamDone (fl s) \<Longrightarrow> OnRequestBody env body eos s = Inr (bst, s') \<Longrightarrow> stream_step env s s'"
| response_headers:
    "\<not> streamDone (fl s) \<Longrightarrow> OnResponseHeaders env hs eos s = Inr (st, s') \<Longrightarrow> stream_step env s s'"
| response_body:
    "\<not> streamDone (fl s) \<Longrightarrow> OnResponseBody env body eos s = Inr (bst, s') \<Longrightarrow> stream_step env s s'"
| stream_complete:
    "\<not> streamDone (fl s) \<Longrightarrow> OnStreamComplete env s = Inr s' \<Longrightarrow> stream_step env s s'"
| callout_done:
    "OnHttpCalloutDone env d s = Inr s' \<Longrightarrow> stream_step env s s'"
| batch_done:
    "batch_finish env bid i (settled_of_done d) s = Inr s' \<Longrightarrow> stream_step env s s'"
| sequence_answer:
    "sequence_done env qid d s = Inr s' \<Longrightarrow> stream_step env s s'"
| grpc_stream:
    "gid < length (grpcs (fl s)) \<Longrightarrow> grpc_event env gid e s = Inr s' \<Longrightarrow> stream_step env s s'"
| goroutine_op:
    "i < length (goroutines (fl s)) \<Longrightarrow> go_op env i op s = Inr s' \<Longrightarrow> stream_step env s s'"
| goroutine_return:
    "i < length (goroutines (fl s)) \<Longrightarrow> goroutines (fl s) ! i = GoRunning w \<Longrightarrow> stream_step env s (go_return i s)"
| goroutine_finish:
    "i < length (goroutines (fl s)) \<Longrightarrow> goroutines (fl s) ! i = GoScheduled \<Longrightarrow> stream_step env s (go_finish env i s)"
| closures:
    "(rh = None) = (responseHandler (fl s) = None) \<Longrightarrow> (bh = None) = (requestBodyHandler (fl s) = None) \<Longrightarrow>
     stream_step env s (on_fl (\<lambda>f. f\<lparr>handler := h, responseHandler := rh, requestBodyHandler := bh\<rparr>) s)"

definition stream_start :: "sys \<Rightarrow> bool" where
  "stream_start s \<longleftrightarrow> (\<exists>addr ff. fl s = filterFactory_Create addr ff)"

inductive reachable :: "envoy \<Rightarrow> sys \<Rightarrow> bool" for env where
  start: "stream_start s \<Longrightarrow> reachable env s"
| step: "reachable env s \<Longrightarrow> stream_step env s s' \<Longrightarrow> reachable env s'"

inductive_cases stream_stepE: "stream_step env s s'"

section \<open>The invariant\<close>

definition stream_inv :: "http_filter \<Rightarrow> bool" where
  "stream_inv f \<longleftrightarrow> writers_ok f \<and> gos_ok f \<and> (streamDone f \<longrightarrow> goStarted f \<longrightarrow> goCompleted f)"

text \<open>
  \<open>progress f f'\<close>: one callback took the filter from \<open>f\<close> to \<open>f'\<close>, keeping the invariant and resuming
  the request at most once, for a reason.
\<close>

definition resume_owner :: "http_filter \<Rightarrow> http_filter \<Rightarrow> bool" where
  "resume_owner f f' \<longleftrightarrow> \<not> streamDone f \<and>
     (calloutState f = calloutStatePaused \<and> calloutState f' = calloutStateFlushed \<or>
      \<not> goCompleted f \<and> goCompleted f')"

definition progress :: "http_filter \<Rightarrow> http_filter \<Rightarrow> bool" where
  "progress f f' \<longleftrightarrow> (stream_inv f \<longrightarrow> stream_inv f') \<and>
     (resumes f' = resumes f \<or> resumes f' = Suc (resumes f) \<and> resume_owner f f')"

lemma handoff_request_writer [simp]: "handoff request_writer f = writers_ok f"
  by (simp add: handoff_def request_writer_def)

lemma handoff_direct_writer [simp]: "handoff direct_writer f = writers_ok f"
  by (simp add: handoff_def direct_writer_def)

lemma queued_request_writer [simp]: "queued request_writer f"
  by (simp add: queued_def request_writer_def)

lemma scripted_resumes: "scripted (w, f) (w', f') \<Longrightarrow> resumes f' = resumes f"
  by (auto simp: scripted_def intro: resumes_extends)

lemma scripted_progress:
  assumes "scripted (w, f) (w', f')" "handoff w f" "\<not> streamDone f"
  shows "progress f f' \<and> handoff w' f' \<and> \<not> streamDone f'"
  using assms scripted_resumes [OF assms(1)] base_fields(8) [of f' f]
  by (auto simp: progress_def stream_inv_def scripted_def handoff_def)

lemma inv_core: "core f' = core f \<Longrightarrow> stream_inv f' = stream_inv f"
  using core_fields [of f' f] by (simp add: stream_inv_def writers_ok_def gos_ok_def)

text \<open>\<open>keeps f f'\<close>: the invariant and the termination flag are kept and the request is not resumed.\<close>

definition keeps :: "http_filter \<Rightarrow> http_filter \<Rightarrow> bool" where
  "keeps f f' \<longleftrightarrow> (stream_inv f \<longrightarrow> stream_inv f') \<and> resumes f' = resumes f \<and> streamDone f' = streamDone f"

lemma keeps_refl [simp, intro]: "keeps f f"
  by (simp add: keeps_def)

lemma keeps_trans [trans]: "keeps f g \<Longrightarrow> keeps g h \<Longrightarrow> keeps f h"
  by (simp add: keeps_def)

lemma keeps_progress: "keeps f f' \<Longrightarrow> progress f f'"
  by (simp add: keeps_def progress_def)

lemma keeps_core: "core f' = core f \<Longrightarrow> resumes f' = resumes f \<Longrightarrow> keeps f f'"
  using inv_core [of f' f] core_fields(4) [of f' f] by (simp add: keeps_def)

lemma resumes_emit: "CContinueRequest \<notin> set cs \<Longrightarrow> resumes (emit cs f) = resumes f"
  by (auto simp: resumes_def filter_empty_conv)

lemma keeps_emit: "CContinueRequest \<notin> set cs \<Longrightarrow> keeps f (emit cs f)"
  by (rule keeps_core) (simp_all add: resumes_emit)

lemma keeps_user: "keeps f (user u f)"
  by (rule keeps_core) simp_all

lemma keeps_flush: "keeps f (flush env False f)"
  by (rule keeps_core) (simp_all add: resumes_flush)

lemma stream_inv_unrelated [simp]:
  "stream_inv (f\<lparr>reqID := x1\<rparr>) = stream_inv f" "stream_inv (f\<lparr>requestContentType := x2\<rparr>) = stream_inv f"
  "stream_inv (f\<lparr>requestContentEncoding := x3\<rparr>) = stream_inv f" "stream_inv (f\<lparr>finalizedKey := x4\<rparr>) = stream_inv f"
  "stream_inv (f\<lparr>calloutState := x5\<rparr>) = stream_inv f" "stream_inv (f\<lparr>responseEndSeen := x6\<rparr>) = stream_inv f"
  "stream_inv (f\<lparr>responseContentType := x7\<rparr>) = stream_inv f"
  "stream_inv (f\<lparr>responseContentEncoding := x8\<rparr>) = stream_inv f"
  "stream_inv (f\<lparr>handler := x9\<rparr>) = stream_inv f" "stream_inv (f\<lparr>responseHandler := x10\<rparr>) = stream_inv f"
  "stream_inv (f\<lparr>requestBodyHandler := x11\<rparr>) = stream_inv f"
  by (simp_all add: stream_inv_def writers_ok_def gos_ok_def)

lemma resumes_unrelated [simp]:
  "resumes (f\<lparr>reqID := x1\<rparr>) = resumes f" "resumes (f\<lparr>requestContentType := x2\<rparr>) = resumes f"
  "resumes (f\<lparr>requestContentEncoding := x3\<rparr>) = resumes f" "resumes (f\<lparr>finalizedKey := x4\<rparr>) = resumes f"
  "resumes (f\<lparr>responseEndSeen := x6\<rparr>) = resumes f" "resumes (f\<lparr>responseContentType := x7\<rparr>) = resumes f"
  "resumes (f\<lparr>responseContentEncoding := x8\<rparr>) = resumes f"
  "resumes (f\<lparr>handler := x9\<rparr>) = resumes f" "resumes (f\<lparr>responseHandler := x10\<rparr>) = resumes f"
  "resumes (f\<lparr>requestBodyHandler := x11\<rparr>) = resumes f" "resumes (f\<lparr>stripFramingOnResume := x12\<rparr>) = resumes f"
  "resumes (f\<lparr>hasRequestBodyReplacement := x13\<rparr>) = resumes f" "resumes (f\<lparr>requestBodyReplacement := x14\<rparr>) = resumes f"
  "resumes (f\<lparr>hasResponseBodyReplacement := x15\<rparr>) = resumes f" "resumes (f\<lparr>responseBodyReplacement := x16\<rparr>) = resumes f"
  "resumes (f\<lparr>goStarted := x17\<rparr>) = resumes f" "resumes (f\<lparr>goCompleted := x18\<rparr>) = resumes f"
  "resumes (f\<lparr>goroutines := x19\<rparr>) = resumes f" "resumes (f\<lparr>streamDone := x20\<rparr>) = resumes f"
  "resumes (f\<lparr>goCancelled := x21\<rparr>) = resumes f"
  by (simp_all add: resumes_def)

lemma keeps_CAS: "keeps f (snd (calloutCAS a b f))"
  by (simp add: calloutCAS_def keeps_def)

lemma keeps_pause: "pausePendingCallout started f = (p, f') \<Longrightarrow> keeps f f'"
  using keeps_CAS [of f calloutStateActive calloutStatePaused] by (auto simp: pausePendingCallout_def split: if_splits)

lemma keeps_flushCompleted: "keeps f (flushCompletedCallout started f)"
  by (simp add: flushCompletedCallout_def keeps_CAS)

text \<open>A failed pause leaves the filter as it is: the callout of this callback is already over.\<close>

lemma pause_handoff:
  assumes "pausePendingCallout (calloutStarted w) f = (False, f')" "handoff w f"
  shows "f' = f \<and> handoff w f'"
  using assms by (auto simp: pausePendingCallout_def calloutCAS_def split: if_splits)

lemma keeps_registerFinalized: "keeps (fl s) (fl (registerFinalized env s))"
  by (simp add: registerFinalized_def Let_def) (auto simp: keeps_def keeps_emit [unfolded keeps_def])

lemma handoff_registerFinalized: "handoff w (fl s) \<Longrightarrow> handoff w (fl (registerFinalized env s))"
  by (simp add: registerFinalized_def Let_def handoff_def writers_ok_def emit_def)

lemma keeps_finish_headers: "finish_headers env started b s = (st, s') \<Longrightarrow> keeps (fl s) (fl s')"
  using keeps_trans [OF keeps_flushCompleted keeps_flush] by (auto simp: finish_headers_def Let_def)

lemma keeps_scripted:
  assumes "run_ops env ops (w, s) = Inr (w', s')" "handoff w (fl s)" "\<not> streamDone (fl s)"
  shows "keeps (fl s) (fl s') \<and> handoff w' (fl s')"
proof -
  note sc = run_ops_scripted [OF assms(1,2)]
  show ?thesis
    using scripted_progress [OF sc assms(2,3)] scripted_resumes [OF sc] assms(3)
    by (auto simp: progress_def keeps_def)
qed

lemma inv_handoff: "stream_inv f \<Longrightarrow> writers_ok f"
  by (simp add: stream_inv_def)

section \<open>Every step keeps the invariant\<close>

lemma keeps_end_of_request_body:
  assumes "end_of_request_body env (w, s) = Inr (w', s')" "handoff w (fl s)" "\<not> streamDone (fl s)"
  shows "keeps (fl s) (fl s')"
proof (cases "requestBodyHandler (fl s)")
  case (Some h)
  let ?c = "\<lparr>BC_Data = [], BC_EndStream = True, BC_ContentEncoding = requestContentEncoding (fl s),
               BC_ContentType = requestContentType (fl s)\<rparr>"
  have run: "run_ops env (h ?c) (w, on_fl (user (UBody ?c)) s) = Inr (w', s')"
    using assms(1) Some by (simp add: end_of_request_body_def Let_def)
  have "keeps (user (UBody ?c) (fl s)) (fl s')"
    using keeps_scripted [OF run] assms(2,3) scripted_user [of w "fl s" "UBody ?c"]
      core_fields(4) [OF core_user, of "UBody ?c" "fl s"]
    by (simp add: scripted_def)
  with keeps_user show ?thesis by (rule keeps_trans)
qed (use assms(1) in \<open>auto simp: end_of_request_body_def\<close>)

lemma keeps_headers_exit:
  assumes "headers_exit env b (w, s) = (st, s')"
  shows "keeps (fl s) (fl s')"
proof -
  obtain paused f where p: "pausePendingCallout (calloutStarted w) (fl s) = (paused, f)" by fastforce
  note k = keeps_pause [OF p]
  have "keeps f (fl s')"
  proof (cases "paused \<or> goStarted f")
    case True
    then show ?thesis using assms p by (auto simp: headers_exit_def Let_def split: if_splits)
  next
    case False
    then have "finish_headers env (calloutStarted w) b (s\<lparr>fl := f\<rparr>) = (st, s')"
      using assms p by (simp add: headers_exit_def)
    from keeps_finish_headers [OF this] show ?thesis by simp
  qed
  with k show ?thesis by (rule keeps_trans)
qed

lemma keeps_after_handler:
  assumes "after_request_handler env eos (w, s3) = Inr (st, s')" "handoff w (fl s3)" "\<not> streamDone (fl s3)"
  shows "keeps (fl s3) (fl s')"
proof -
  define s4 where "s4 = registerFinalized env s3"
  define b where "b = (\<not> eos \<and> bufferBody (fl s4) \<and> requestBodyHandler (fl s4) \<noteq> None)"
  define s5 where "s5 = on_fl (\<lambda>f. if b \<and> mutableRequestBody f then f\<lparr>stripFramingOnResume := True\<rparr> else f) s4"
  obtain paused f6 where p: "pausePendingCallout (calloutStarted w) (fl s5) = (paused, f6)" by fastforce
  define s6 where "s6 = s5\<lparr>fl := f6\<rparr>"
  have "keeps (fl s3) (fl s4)" unfolding s4_def by (rule keeps_registerFinalized)
  also have "keeps (fl s4) (fl s5)" by (simp add: s5_def keeps_core)
  finally have k5: "keeps (fl s3) (fl s5)" .
  have h5: "handoff w (fl s5)"
    using handoff_registerFinalized [OF assms(2), of env]
    by (simp add: s5_def s4_def [symmetric] handoff_def writers_ok_def)
  from k5 keeps_pause [OF p] have k6: "keeps (fl s3) (fl s6)" by (simp add: s6_def keeps_def)
  have eq: "(if paused then Inr (HeadersStatusStop, s6)
         else if goStarted (fl s6) then Inr (HeadersStatusStop, s6)
         else if eos then obind (end_of_request_body env (w, s6)) (\<lambda>ws7. Inr (headers_exit env False ws7))
         else Inr (finish_headers env (calloutStarted w) b s6)) = Inr (st, s')"
    using assms(1) unfolding after_request_handler_def Let_def s4_def b_def s5_def s6_def
    using p [unfolded s5_def b_def s4_def] by simp
  consider (stop) "s' = s6" | (eos) w7 s7 where "end_of_request_body env (w, s6) = Inr (w7, s7)"
      "headers_exit env False (w7, s7) = (st, s')" "\<not> paused"
    | (finish) "finish_headers env (calloutStarted w) b s6 = (st, s')"
    using eq by (auto simp: obind_eq_Inr split: if_splits)
  then show ?thesis
  proof cases
    case stop
    with k6 show ?thesis by simp
  next
    case eos
    have h6: "handoff w (fl s6)" using pause_handoff [of w "fl s5" f6] p h5 eos(3) by (simp add: s6_def)
    have nd: "\<not> streamDone (fl s6)" using k6 assms(3) by (simp add: keeps_def)
    show ?thesis
      by (rule keeps_trans [OF k6 keeps_trans [OF keeps_end_of_request_body [OF eos(1) h6 nd] keeps_headers_exit [OF eos(2)]]])
  next
    case finish
    from keeps_trans [OF k6 keeps_finish_headers [OF this]] show ?thesis .
  qed
qed

lemma keeps_OnRequestHeaders:
  assumes "OnRequestHeaders env hs eos s = Inr (st, s')" "stream_inv (fl s)" "\<not> streamDone (fl s)"
  shows "keeps (fl s) (fl s')"
proof -
  define s2 where "s2 = on_fl (\<lambda>f. if requestBodyHandler f \<noteq> None
       then f\<lparr>requestContentType := hs ''content-type'', requestContentEncoding := hs ''content-encoding''\<rparr> else f)
     (on_fl (\<lambda>f. if reqID f = '''' then f\<lparr>reqID := hs ''x-request-id''\<rparr> else f) s)"
  define r where "r = newRequestWithContext hs (f_name (fl s2))"
  let ?s2 = "on_fl (user (UHandler r)) s2"
  from assms(1) obtain w3 s3 where run: "run_ops env (handler (fl s2) r) (request_writer, ?s2) = Inr (w3, s3)"
    and rest: "after_request_handler env eos (w3, s3) = Inr (st, s')"
    by (auto simp: OnRequestHeaders_def Let_def s2_def r_def obind_eq_Inr)
  have "keeps (fl s) (fl s2)" by (simp add: keeps_def s2_def)
  also have "keeps (fl s2) (fl ?s2)" by (simp add: keeps_user)
  finally have k2: "keeps (fl s) (fl ?s2)" .
  then have i2: "stream_inv (fl ?s2)" "\<not> streamDone (fl ?s2)" using assms(2,3) by (auto simp: keeps_def)
  then have "keeps (fl ?s2) (fl s3) \<and> handoff w3 (fl s3)"
    using keeps_scripted [OF run] inv_handoff by simp
  then have k3: "keeps (fl s) (fl s3)" "handoff w3 (fl s3)" using keeps_trans [OF k2] by auto
  then have "\<not> streamDone (fl s3)" using assms(3) by (simp add: keeps_def)
  from keeps_trans [OF k3(1) keeps_after_handler [OF rest k3(2) this]] show ?thesis .
qed

lemma keeps_finish_body: "finish_body env body dat f = (st, f') \<Longrightarrow> keeps f f'"
proof -
  let ?g = "f\<lparr>hasRequestBodyReplacement := False, requestBodyReplacement := []\<rparr>"
  have k: "keeps f (flush env False f)" "keeps f (flush env False ?g)"
    using keeps_flush [of f env] keeps_trans [OF keeps_core keeps_flush, of ?g f env] by simp_all
  have e: "keeps g (emit (replace_calls b d) g)" for g b d by (rule keeps_emit) (rule replace_calls_resume)
  have c: "keeps g (emit [CHdrSet RequestHdrs n v] g)" for g n v by (rule keeps_emit) simp
  show "finish_body env body dat f = (st, f') \<Longrightarrow> keeps f f'"
    using k keeps_trans [OF k(1) c] keeps_trans [OF k(2) e]
    by (auto simp: finish_body_def Let_def split: if_splits option.splits)
qed

lemma keeps_body_exit:
  assumes "body_exit env body dat (w, s) = (st, s')"
  shows "keeps (fl s) (fl s')"
proof -
  obtain paused f2 where p: "pausePendingCallout (calloutStarted w) (fl s) = (paused, f2)" by fastforce
  obtain st3 f3 where f3: "finish_body env body dat (flushCompletedCallout (calloutStarted w) f2) = (st3, f3)" by fastforce
  have k2: "keeps (fl s) f2" by (rule keeps_pause [OF p])
  have k3: "keeps (fl s) f3" by (rule keeps_trans [OF k2 keeps_trans [OF keeps_flushCompleted keeps_finish_body [OF f3]]])
  show ?thesis using assms k2 k3 by (auto simp: body_exit_def p f3 Let_def split: if_splits)
qed

lemma keeps_OnRequestBody:
  assumes "OnRequestBody env body eos s = Inr (st, s')" "stream_inv (fl s)" "\<not> streamDone (fl s)"
  shows "keeps (fl s) (fl s')"
proof (cases "requestBodyHandler (fl s) = None \<or> bufferBody (fl s) \<and> \<not> eos")
  case True
  then show ?thesis using assms(1) by (auto simp: OnRequestBody_def split: option.splits if_splits)
next
  case False
  then obtain h where h: "requestBodyHandler (fl s) = Some h" by auto
  define c where "c = request_chunk env body eos (fl s)"
  from assms(1) h False obtain w s1 where
    run: "run_ops env (h c) (request_writer, on_fl (user (UBody c)) s) = Inr (w, s1)"
    and rest: "body_exit env body (BC_Data c) (w, s1) = (st, s')"
    by (auto simp: OnRequestBody_def Let_def obind_eq_Inr c_def)
  have u: "keeps (fl s) (user (UBody c) (fl s))" by (rule keeps_user)
  then have "keeps (user (UBody c) (fl s)) (fl s1)"
    using keeps_scripted [OF run] assms(2,3) inv_handoff by (simp add: keeps_def)
  with u have k1: "keeps (fl s) (fl s1)" by (rule keeps_trans)
  from keeps_trans [OF k1 keeps_body_exit [OF rest]] show ?thesis .
qed

lemma keeps_call_response:
  assumes "call_response env h c (w, s) = Inr (w', s')" "handoff w (fl s)" "\<not> streamDone (fl s)"
  shows "keeps (fl s) (fl s') \<and> handoff w' (fl s')"
proof -
  have run: "run_ops env (h c) (w, on_fl (user (UResponse c)) s) = Inr (w', s')"
    using assms(1) by (simp add: call_response_def)
  have "handoff w (user (UResponse c) (fl s))"
    using scripted_user [of w "fl s" "UResponse c"] assms(2) by (simp add: scripted_def)
  with keeps_scripted [OF run] keeps_user [of "fl s" "UResponse c"] assms(3)
  show ?thesis by (simp add: keeps_def)
qed

lemma keeps_OnResponseHeaders:
  assumes "OnResponseHeaders env hs eos s = Inr (st, s')" "stream_inv (fl s)" "\<not> streamDone (fl s)"
  shows "keeps (fl s) (fl s')"
proof (cases "responseHandler (fl s)")
  case (Some h)
  define s1 where "s1 = on_fl (\<lambda>f. f\<lparr>responseContentType := hs ''content-type'',
                                responseContentEncoding := hs ''content-encoding''\<rparr>) s"
  define s2 where "s2 = (if bufferBody (fl s1) then on_fl (emit [CHdrRemove ResponseHdrs ''content-length'']) s1 else s1)"
  from assms(1) Some obtain c w3 s3 where 3: "call_response env h c (direct_writer, s2) = Inr (w3, s3)"
    and rest: "(if eos then let s4 = on_fl (\<lambda>f. f\<lparr>responseEndSeen := True\<rparr>) s3
                  in obind (call_response env h (response_end_chunk (fl s4)) (w3, s4))
                       (\<lambda>(w5, s5). Inr (HeadersStatusContinue, s5))
             else Inr (HeadersStatusContinue, s3)) = (Inr (st, s') :: (HeadersStatus \<times> sys) outcome)"
    by (auto simp: OnResponseHeaders_def Let_def obind_eq_Inr s1_def [symmetric] s2_def [symmetric])
  have "keeps (fl s) (fl s1)" by (simp add: s1_def keeps_def)
  also have "keeps (fl s1) (fl s2)" by (simp add: s2_def keeps_emit)
  finally have k2: "keeps (fl s) (fl s2)" .
  then have i2: "stream_inv (fl s2)" "\<not> streamDone (fl s2)" using assms(2,3) by (auto simp: keeps_def)
  have k3: "keeps (fl s2) (fl s3) \<and> handoff w3 (fl s3)"
    by (rule keeps_call_response [OF 3 _ i2(2)]) (simp add: inv_handoff i2)
  then have k: "keeps (fl s) (fl s3)" using keeps_trans [OF k2] by blast
  show ?thesis
  proof (cases eos)
    case True
    let ?s4 = "on_fl (\<lambda>f. f\<lparr>responseEndSeen := True\<rparr>) s3"
    from True rest obtain w5 where 5: "call_response env h (response_end_chunk (fl ?s4)) (w3, ?s4) = Inr (w5, s')"
      by (auto simp: Let_def obind_eq_Inr)
    have k4: "keeps (fl s) (fl ?s4)" using k by (simp add: keeps_def)
    have "handoff w3 (fl ?s4)" using k3 by (simp add: handoff_def writers_ok_def)
    moreover have "\<not> streamDone (fl ?s4)" using k4 assms(3) by (simp add: keeps_def)
    ultimately have "keeps (fl ?s4) (fl s')" using keeps_call_response [OF 5] by blast
    with k4 show ?thesis by (rule keeps_trans)
  qed (use rest k in auto)
qed (use assms(1) in \<open>auto simp: OnResponseHeaders_def\<close>)

lemma keeps_apply_response_body: "keeps f (apply_response_body env f)"
  by (rule keeps_core) (simp_all add: apply_response_body_def resumes_emit)

lemma keeps_OnResponseBody:
  assumes "OnResponseBody env body eos s = Inr (st, s')" "stream_inv (fl s)" "\<not> streamDone (fl s)"
  shows "keeps (fl s) (fl s')"
proof (cases "responseHandler (fl s) = None \<or> bufferBody (fl s) \<and> \<not> eos")
  case True
  then show ?thesis using assms(1) by (auto simp: OnResponseBody_def split: option.splits if_splits)
next
  case False
  then obtain h where h: "responseHandler (fl s) = Some h" by auto
  from assms(1) h False obtain c w s1 where 1: "call_response env h c (direct_writer, s) = Inr (w, s1)"
    and s': "s' = on_fl (apply_response_body env) (on_fl (\<lambda>f. if eos then f\<lparr>responseEndSeen := True\<rparr> else f) s1)"
    by (auto simp: OnResponseBody_def Let_def obind_eq_Inr)
  have "keeps (fl s) (fl s1)" using keeps_call_response [OF 1] assms(2,3) inv_handoff by simp
  also have "keeps (fl s1) (fl (on_fl (\<lambda>f. if eos then f\<lparr>responseEndSeen := True\<rparr> else f) s1))"
    by (simp add: keeps_def)
  also have "keeps \<dots> (fl s')" unfolding s' fl_on_fl by (rule keeps_apply_response_body)
  finally show ?thesis .
qed

lemma keeps_OnStreamComplete:
  assumes "OnStreamComplete env s = Inr s'" "stream_inv (fl s)" "\<not> streamDone (fl s)"
  shows "resumes (fl s') = resumes (fl s) \<and> stream_inv (fl s') \<and> streamDone (fl s')"
proof -
  from assms(1) obtain s2 where
    2: "(case responseHandler (fl s) of
              Some h \<Rightarrow>
                if \<not> responseEndSeen (fl s)
                then obind (call_response env h (response_end_chunk (fl s)) (direct_writer, s))
                       (\<lambda>(w, s1). Inr (on_fl (\<lambda>f. f\<lparr>responseEndSeen := True\<rparr>) s1))
                else Inr s
            | None \<Rightarrow> Inr s) = Inr s2"
    and rest: "(let s3 = (if onStreamComplete (fl s2) then on_fl (user UStreamComplete) s2 else s2);
           s4 = (if \<not> onStreamFinalized (fl s3) then s3\<lparr>pr := dropBag (streamObjectNonce (fl s3)) (pr s3)\<rparr> else s3)
       in Inr (on_fl (\<lambda>f. let f1 = f\<lparr>streamDone := True\<rparr>
                          in if goStarted f1 then f1\<lparr>goCompleted := True, goCancelled := True\<rparr> else f1) s4))
         = (Inr s' :: sys outcome)"
    unfolding OnStreamComplete_def by (rule obind_InrE) (rule that)
  have k2: "keeps (fl s) (fl s2)"
  proof (cases "fl s2 = fl s")
    case False
    with 2 obtain h w s1 where 1: "call_response env h (response_end_chunk (fl s)) (direct_writer, s) = Inr (w, s1)"
      and s2: "s2 = on_fl (\<lambda>f. f\<lparr>responseEndSeen := True\<rparr>) s1"
      by (auto simp: obind_eq_Inr split: option.splits if_splits)
    show ?thesis using keeps_call_response [OF 1] assms(2,3) inv_handoff by (simp add: s2 keeps_def)
  qed simp
  define f3 where "f3 = (if onStreamComplete (fl s2) then user UStreamComplete (fl s2) else fl s2)"
  have k3: "keeps (fl s) f3" using keeps_trans [OF k2 keeps_user] k2 by (simp add: f3_def)
  have s': "fl s' = (if goStarted f3 then f3\<lparr>streamDone := True, goCompleted := True, goCancelled := True\<rparr>
                 else f3\<lparr>streamDone := True\<rparr>)"
    using rest by (auto simp: f3_def Let_def on_fl_def split: if_splits)
  have r3: "resumes f3 = resumes (fl s)" "stream_inv f3" using k3 assms(2) by (auto simp: keeps_def)
  then have "resumes (fl s') = resumes (fl s)" by (simp add: s')
  moreover have "stream_inv (fl s')"
    using r3(2) by (cases "goStarted f3") (simp_all add: s' stream_inv_def writers_ok_def gos_ok_def)
  moreover have "streamDone (fl s')" by (simp add: s')
  ultimately show ?thesis by blast
qed

section \<open>After the stream is complete\<close>

lemma dead_sequence_step:
  "sequence_step fuel env qid prev s = Inr s' \<Longrightarrow> streamDone (fl s) \<Longrightarrow> s' = s"
  by (cases fuel) (auto simp: Let_def split: if_splits)

lemma dead_completions:
  assumes "streamDone (fl s)"
  shows "OnHttpCalloutDone env d s = Inr s' \<Longrightarrow> events (fl s') = events (fl s)"
    and "batch_finish env bid i r s = Inr s' \<Longrightarrow> events (fl s') = events (fl s)"
    and "sequence_done env qid d s = Inr s' \<Longrightarrow> events (fl s') = events (fl s)"
    and "grpc_event env gid e s = Inr s' \<Longrightarrow> events (fl s') = events (fl s)"
  subgoal using assms by (auto simp: OnHttpCalloutDone_def split: option.splits)
  subgoal using assms by (auto simp: batch_finish_def Let_def split: if_splits)
  subgoal using assms
    by (auto simp: sequence_done_def sequence_record_def Let_def split: if_splits dest!: dead_sequence_step)
  subgoal using assms by (cases e) (auto simp: grpc_finish_def Let_def split: if_splits)
  done

lemma completes_progress:
  assumes "completes f f'" "streamDone f \<Longrightarrow> events f' = events f"
  shows "progress f f'"
proof -
  have d: "streamDone f' = streamDone f" using assms(1) base_fields(8) [of f' f] by (simp add: completes_def)
  have inv: "stream_inv f \<longrightarrow> stream_inv f'"
    using assms(1) d by (simp add: completes_def stream_inv_def gos_ok_def)
  show ?thesis
  proof (cases "streamDone f")
    case True
    then have "resumes f' = resumes f" using assms(2) resumes_events [of f' f] by simp
    with inv show ?thesis by (simp add: progress_def)
  next
    case False
    with inv assms(1) show ?thesis by (auto simp: progress_def completes_def resume_owner_def)
  qed
qed

lemma completes_sequence_done:
  assumes "sequence_done env qid d s = Inr s'" "writers_ok (fl s)"
  shows "completes (fl s) (fl s')"
proof (cases "qid < length (sequences (fl s))")
  case True
  let ?s1 = "sequence_record qid (settled_of_done d) s"
  have run: "sequence_step (env_fuel env) env qid (Some (settled_of_done d)) ?s1 = Inr s'"
    using True assms(1) by (simp add: sequence_done_def)
  have c: "completes (fl s) (fl ?s1)" by (rule completes_sequence_record [OF assms(2)])
  from completes_trans [OF c completes_sequence_step [OF run completes_kept [OF c assms(2)]]] show ?thesis .
qed (use assms(1) in \<open>simp add: sequence_done_def\<close>)

section \<open>Goroutines\<close>

lemma keeps_go_op:
  assumes "go_op env i op s = Inr s'"
  shows "keeps (fl s) (fl s') \<and> extends never_resumes (fl s) (fl s')"
proof (cases "goroutines (fl s) ! i")
  case (GoRunning w)
  with assms have "run_mut env w op s = Inr s'" by (simp add: go_op_def)
  note m = run_mut_mutates [OF this]
  then show ?thesis
    using keeps_core [of "fl s'" "fl s"] resumes_extends [of never_resumes "fl s" "fl s'"]
    by (simp add: mutates_def)
qed (use assms in \<open>simp_all add: go_op_def\<close>)

lemma set_update_iff: "(\<exists>x\<in>set (xs[i := y]). P x) \<Longrightarrow> \<not> P y \<or> P (xs ! i) \<Longrightarrow> i < length xs \<Longrightarrow> \<exists>x\<in>set xs. P x"
  using set_update_subset_insert [of xs i y] by (auto dest: nth_mem)

lemma keeps_go_return:
  assumes "i < length (goroutines (fl s))" "goroutines (fl s) ! i = GoRunning w"
  shows "keeps (fl s) (fl (go_return i s))"
proof -
  have "gos_ok (fl s) \<longrightarrow> gos_ok (fl (go_return i s))"
    using assms set_update_iff [of "goroutines (fl s)" i _ "\<lambda>g. g \<noteq> GoExited"] by (auto simp: gos_ok_def go_return_def)
  then show ?thesis by (auto simp: keeps_def stream_inv_def go_return_def writers_ok_def)
qed

lemma progress_go_finish:
  assumes "i < length (goroutines (fl s))" "goroutines (fl s) ! i = GoScheduled" "stream_inv (fl s)"
  shows "progress (fl s) (fl (go_finish env i s))"
proof -
  let ?f1 = "(fl s)\<lparr>goroutines := (goroutines (fl s))[i := GoExited]\<rparr>"
  have live: "goStarted (fl s) \<or> goCompleted (fl s)"
    using assms nth_mem [OF assms(1)] by (force simp: stream_inv_def gos_ok_def)
  show ?thesis
  proof (cases "goCompleted (fl s)")
    case True
    then have eq: "fl (go_finish env i s) = ?f1" by (simp add: go_finish_def)
    have "stream_inv (fl s) \<longrightarrow> stream_inv ?f1" using True by (simp add: stream_inv_def gos_ok_def writers_ok_def)
    then show ?thesis unfolding eq by (simp add: progress_def)
  next
    case False
    let ?g = "?f1\<lparr>goCompleted := True, goStarted := False\<rparr>"
    have eq: "fl (go_finish env i s) = flush env True ?g" using False by (simp add: go_finish_def)
    have nd: "\<not> streamDone (fl s)" using False live assms(3) by (auto simp: stream_inv_def)
    have "stream_inv ?g" using assms(3) by (simp add: stream_inv_def gos_ok_def writers_ok_def)
    then have "stream_inv (flush env True ?g)" using inv_core [OF core_flush, of env True ?g] by simp
    moreover have "goCompleted (flush env True ?g)" using core_fields(6) [OF core_flush, of env True ?g] by simp
    ultimately show ?thesis
      unfolding eq using False nd by (simp add: progress_def resumes_flush resume_owner_def)
  qed
qed

section \<open>Reachable states\<close>

lemma step_progress:
  assumes "stream_step env s s'" "stream_inv (fl s)"
  shows "progress (fl s) (fl s')"
  using assms
proof cases
  case (request_headers hs eos st)
  with assms(2) show ?thesis by (blast intro: keeps_progress keeps_OnRequestHeaders)
next
  case (request_body body eos bst)
  with assms(2) show ?thesis by (blast intro: keeps_progress keeps_OnRequestBody)
next
  case (response_headers hs eos st)
  with assms(2) show ?thesis by (blast intro: keeps_progress keeps_OnResponseHeaders)
next
  case (response_body body eos bst)
  with assms(2) show ?thesis by (blast intro: keeps_progress keeps_OnResponseBody)
next
  case stream_complete
  with keeps_OnStreamComplete [OF stream_complete(2) assms(2) stream_complete(1)] show ?thesis
    by (simp add: progress_def)
next
  case (callout_done d)
  from completes_OnHttpCalloutDone [OF this inv_handoff [OF assms(2)]] dead_completions(1) [OF _ this]
  show ?thesis by (rule completes_progress)
next
  case (batch_done bid i d)
  from completes_batch_finish [OF this inv_handoff [OF assms(2)]] dead_completions(2) [OF _ this]
  show ?thesis by (rule completes_progress)
next
  case (sequence_answer qid d)
  from completes_sequence_done [OF this inv_handoff [OF assms(2)]] dead_completions(3) [OF _ this]
  show ?thesis by (rule completes_progress)
next
  case (grpc_stream gid e)
  from completes_grpc_event [OF grpc_stream(2,1) inv_handoff [OF assms(2)]] dead_completions(4) [OF _ grpc_stream(2)]
  show ?thesis by (rule completes_progress)
next
  case (goroutine_op i op)
  with keeps_go_op show ?thesis by (blast intro: keeps_progress)
next
  case (goroutine_return i w)
  with keeps_go_return show ?thesis by (blast intro: keeps_progress)
next
  case (goroutine_finish i)
  with progress_go_finish assms(2) show ?thesis by blast
next
  case (closures rh bh h)
  then show ?thesis by (simp add: progress_def)
qed

lemma start_inv: "stream_start s \<Longrightarrow> stream_inv (fl s)"
  by (auto simp: stream_start_def filterFactory_Create_def stream_inv_def writers_ok_def gos_ok_def)

lemma reachable_inv: "reachable env s \<Longrightarrow> stream_inv (fl s)"
proof (induction rule: reachable.induct)
  case (start s)
  then show ?case by (rule start_inv)
next
  case (step s s')
  then show ?case using step_progress by (simp add: progress_def)
qed

text \<open>Once the stream is complete only answers to callouts and goroutine steps are left.\<close>

lemma completes_done: "completes f f' \<Longrightarrow> streamDone f' = streamDone f"
  using base_fields(8) [of f' f] by (simp add: completes_def)

lemma dead_step:
  assumes "stream_step env s s'" "streamDone (fl s)" "stream_inv (fl s)"
  shows "extends never_resumes (fl s) (fl s') \<and> streamDone (fl s')"
  using assms
proof cases
  case (callout_done d)
  with dead_completions(1) [OF assms(2) this] completes_OnHttpCalloutDone [OF this inv_handoff [OF assms(3)]]
  show ?thesis using assms(2) by (simp add: extends_same completes_done)
next
  case (batch_done bid i d)
  with dead_completions(2) [OF assms(2) this] completes_batch_finish [OF this inv_handoff [OF assms(3)]]
  show ?thesis using assms(2) by (simp add: extends_same completes_done)
next
  case (sequence_answer qid d)
  with dead_completions(3) [OF assms(2) this] completes_sequence_done [OF this inv_handoff [OF assms(3)]]
  show ?thesis using assms(2) by (simp add: extends_same completes_done)
next
  case (grpc_stream gid e)
  with dead_completions(4) [OF assms(2) grpc_stream(2)]
    completes_grpc_event [OF grpc_stream(2,1) inv_handoff [OF assms(3)]]
  show ?thesis using assms(2) by (simp add: extends_same completes_done)
next
  case (goroutine_op i op)
  with keeps_go_op [OF goroutine_op(2)] assms(2) show ?thesis by (simp add: keeps_def)
next
  case (goroutine_return i w)
  then show ?thesis using assms(2) by (simp add: go_return_def extends_same)
next
  case (goroutine_finish i)
  have "goStarted (fl s) \<or> goCompleted (fl s)"
    using goroutine_finish(2,3) assms(3) nth_mem [OF goroutine_finish(2)]
    by (force simp: stream_inv_def gos_ok_def)
  then have "goCompleted (fl s)" using assms(2,3) by (auto simp: stream_inv_def)
  then show ?thesis using assms(2) goroutine_finish by (simp add: go_finish_def extends_same)
qed (use assms(2) in \<open>simp_all add: extends_same\<close>)

end
