(* ===== verification/Stream_Theorems.thy ===== *)
theory Stream_Theorems
  imports Stream_Steps
begin

text \<open>
  The properties of the HTTP filter that span its callbacks: who may resume a request and when,
  that a request callback applies nothing before it flushes, that the two orders of a callout and
  the end of its request callback agree, and what happens after the stream is complete. The
  streams of the witnesses are at the beginning.
\<close>

section \<open>Example streams\<close>

definition demo_env :: envoy where
  "demo_env = \<lparr>env_all_headers = \<lambda>ev. [], env_request_id = \<lambda>ev. None, env_filter_state = \<lambda>ev k. None,
     env_buffered_request = \<lambda>ev. None, env_buffered_response = \<lambda>ev. [],
     env_callout = \<lambda>ev r. (HTTPCalloutInitSuccess, None), env_stream = \<lambda>ev c. (HTTPCalloutInitSuccess, []),
     env_rand = \<lambda>n. ''n'' @ Itoa n, env_fuel = 8\<rparr>"

definition demo_request :: callout_request where
  "demo_request = \<lparr>Cluster = ''auth'', Headers = [], Body = [], TimeoutMillis = 100\<rparr>"

definition demo_done :: callout_done where
  "demo_done = (HTTPCalloutSuccess, [], [])"

text \<open>A filter whose handler admits a request by a callout, with or without a body handler.\<close>

definition demo_factory :: "body_func option \<Rightarrow> filterFactory" where
  "demo_factory bh =
     \<lparr>ff_name = ''demo'',
      ff_handler = \<lambda>r. [OpSetRequestHeader ''a'' ''1'', OpHTTPCallout demo_request (\<lambda>d. [OpSetRequestHeader ''b'' ''2''])],
      ff_responseHandler = None, ff_requestBodyHandler = bh, ff_onStreamComplete = False,
      ff_onStreamFinalized = False, ff_bufferBody = False, ff_mutableRequestBody = False, ff_stop = None,
      ff_logAttrs = [], ff_logMetadataNS = ''''\<rparr>"

definition demo_process :: process where
  "demo_process = \<lparr>streamObjectBags = Map.empty, streamFinalizedEntries = Map.empty, randIndex = 0\<rparr>"

definition demo_start :: "body_func option \<Rightarrow> sys" where
  "demo_start bh = \<lparr>fl = filterFactory_Create 0 (demo_factory bh), pr = demo_process\<rparr>"

definition result_or :: "'a \<Rightarrow> 'a outcome \<Rightarrow> 'a" where
  "result_or x r = (case r of Inr y \<Rightarrow> y | Inl e \<Rightarrow> x)"

lemma result_or_Inr: "\<not> isl r \<Longrightarrow> r = Inr (result_or x r)"
  by (cases r) (simp_all add: result_or_def)

definition demo_paused :: "body_func option \<Rightarrow> sys" where
  "demo_paused bh = snd (result_or (HeadersStatusStop, demo_start bh)
     (OnRequestHeaders demo_env (\<lambda>n. '''') False (demo_start bh)))"

definition demo_resumed :: "body_func option \<Rightarrow> sys" where
  "demo_resumed bh = result_or (demo_start bh) (OnHttpCalloutDone demo_env demo_done (demo_paused bh))"

definition demo_complete :: "body_func option \<Rightarrow> sys" where
  "demo_complete bh = result_or (demo_start bh) (OnStreamComplete demo_env (demo_paused bh))"

lemma demo_start_reachable: "reachable demo_env (demo_start bh)"
  by (rule reachable.start) (auto simp: stream_start_def demo_start_def)

lemma demo_headers: "OnRequestHeaders demo_env (\<lambda>n. '''') False (demo_start None) = Inr (HeadersStatusStop, demo_paused None)"
proof -
  let ?r = "OnRequestHeaders demo_env (\<lambda>n. '''') False (demo_start None)"
  have 1: "\<not> isl ?r" by code_simp
  have "fst (result_or (HeadersStatusContinue, demo_start None) ?r) = HeadersStatusStop" by code_simp
  with result_or_Inr [OF 1] show ?thesis unfolding demo_paused_def result_or_def by (auto split: sum.splits)
qed

lemma demo_callout: "OnHttpCalloutDone demo_env demo_done (demo_paused None) = Inr (demo_resumed None)"
proof -
  have "\<not> isl (OnHttpCalloutDone demo_env demo_done (demo_paused None))" by code_simp
  from result_or_Inr [OF this] show ?thesis unfolding demo_resumed_def .
qed

lemma demo_completion: "OnStreamComplete demo_env (demo_paused None) = Inr (demo_complete None)"
proof -
  have "\<not> isl (OnStreamComplete demo_env (demo_paused None))" by code_simp
  from result_or_Inr [OF this] show ?thesis unfolding demo_complete_def .
qed

lemma demo_not_done: "\<not> streamDone (fl (demo_start None))" "\<not> streamDone (fl (demo_paused None))"
  by code_simp+

lemma demo_paused_reachable: "reachable demo_env (demo_paused None)"
  by (rule reachable.step [OF demo_start_reachable stream_step.request_headers [OF demo_not_done(1) demo_headers]])

lemma demo_resumed_step: "stream_step demo_env (demo_paused None) (demo_resumed None)"
  by (rule stream_step.callout_done [OF demo_callout])

lemma demo_complete_reachable: "reachable demo_env (demo_complete None)"
  by (rule reachable.step [OF demo_paused_reachable stream_step.stream_complete [OF demo_not_done(2) demo_completion]])

section \<open>Resuming the request\<close>

text \<open>C1. A request is resumed by at most one \<open>ContinueRequest\<close> per step, only before the stream is
  complete, and only by the side that won the handoff: the completion that moves the callout from
  Paused to Flushed, or the goroutine finish that sets \<open>goCompleted\<close>.\<close>

theorem resume_has_owner:
  assumes "reachable env s" "stream_step env s s'"
  shows "resumes (fl s') = resumes (fl s) \<or>
     resumes (fl s') = Suc (resumes (fl s)) \<and> \<not> streamDone (fl s) \<and>
     (calloutState (fl s) = calloutStatePaused \<and> calloutState (fl s') = calloutStateFlushed \<or>
      \<not> goCompleted (fl s) \<and> goCompleted (fl s'))"
  using step_progress [OF assms(2) reachable_inv [OF assms(1)]] by (simp add: progress_def resume_owner_def)

theorem resume_has_owner_witness:
  "resumes (fl (demo_resumed None)) = Suc (resumes (fl (demo_paused None))) \<and>
   calloutState (fl (demo_paused None)) = calloutStatePaused \<and>
   calloutState (fl (demo_resumed None)) = calloutStateFlushed"
proof -
  have "resumes (fl (demo_resumed None)) \<noteq> resumes (fl (demo_paused None))" by code_simp
  moreover have "\<not> goCompleted (fl (demo_resumed None))" by code_simp
  ultimately show ?thesis using resume_has_owner [OF demo_paused_reachable demo_resumed_step] by blast
qed

text \<open>C2. After \<open>OnStreamComplete\<close> nothing resumes the request and no user callback runs any more:
  whatever answers to callouts, batches, sequences and gRPC streams still arrive and however the
  goroutines of the stream go on, the handle sees no \<open>ContinueRequest\<close> and the log of user
  callbacks stays as it is.\<close>

theorem complete_is_final:
  assumes "reachable env s" "streamDone (fl s)" "(stream_step env)\<^sup>*\<^sup>* s s'"
  shows "\<exists>evs. events (fl s') = events (fl s) @ evs \<and> list_all never_resumes evs"
proof -
  have "reachable env s' \<and> streamDone (fl s') \<and> extends never_resumes (fl s) (fl s')"
    using assms(3)
  proof (induction rule: rtranclp_induct)
    case base
    then show ?case using assms(1,2) by simp
  next
    case (step t u)
    then have t: "streamDone (fl t)" "stream_inv (fl t)" by (auto intro: reachable_inv)
    from step(2) t have "extends never_resumes (fl t) (fl u) \<and> streamDone (fl u)" by (rule dead_step)
    with step show ?case by (blast intro: reachable.step extends_trans)
  qed
  then show ?thesis by (simp add: extends_def)
qed

definition demo_late :: sys where
  "demo_late = result_or (demo_start None) (OnHttpCalloutDone demo_env demo_done (demo_complete None))"

theorem complete_is_final_witness:
  "streamDone (fl (demo_complete None)) \<and>
   (\<exists>evs. events (fl demo_late) = events (fl (demo_complete None)) @ evs \<and> list_all never_resumes evs)"
proof -
  have dn: "streamDone (fl (demo_complete None))" by code_simp
  have "\<not> isl (OnHttpCalloutDone demo_env demo_done (demo_complete None))" by code_simp
  from result_or_Inr [OF this] have "stream_step demo_env (demo_complete None) demo_late"
    unfolding demo_late_def by (rule stream_step.callout_done)
  with complete_is_final [OF demo_complete_reachable dn r_into_rtranclp] dn show ?thesis by blast
qed

section \<open>Request callbacks apply nothing before they flush\<close>

text \<open>C7. Whatever Writer calls a request callback makes, callouts that Envoy answers on the spot and
  their callbacks included, nothing of it reaches the request before the callback flushes: the
  handle sees only callouts, logs, scheduler requests and response-header calls.\<close>

theorem request_script_is_isolated:
  assumes "reachable env s" "run_ops env ops (request_writer, s) = Inr (w, s')"
  shows "\<exists>evs. events (fl s') = events (fl s) @ evs \<and> list_all quiet_event evs"
  using run_ops_scripted [OF assms(2)] inv_handoff [OF reachable_inv [OF assms(1)]]
  by (simp add: scripted_def extends_def)

definition demo_script :: "wop list" where
  "demo_script = [OpSetRequestHeader ''a'' ''1'', OpIncrementCounterLabels 1 2 [], OpLog 1 ''m'',
     OpSendLocalResponse 403 ''no'' [], OpHTTPCallout demo_request (\<lambda>d. [OpRemoveRequestHeader ''a''])]"

definition demo_sync_env :: envoy where
  "demo_sync_env = demo_env\<lparr>env_callout := \<lambda>ev r. (HTTPCalloutInitSuccess, Some demo_done)\<rparr>"

definition demo_scripted :: "writer \<times> sys" where
  "demo_scripted = result_or (request_writer, demo_start None)
     (run_ops demo_sync_env demo_script (request_writer, demo_start None))"

lemma demo_start_reachable_sync: "reachable demo_sync_env (demo_start bh)"
  by (rule reachable.start) (auto simp: stream_start_def demo_start_def)

theorem request_script_is_isolated_witness:
  "length (events (fl (snd demo_scripted))) = 3 \<and> length (reqHeaders (fl (snd demo_scripted))) = 2 \<and>
   (\<exists>evs. events (fl (snd demo_scripted)) = events (fl (demo_start None)) @ evs \<and> list_all quiet_event evs)"
proof -
  have "\<not> isl (run_ops demo_sync_env demo_script (request_writer, demo_start None))" by code_simp
  from result_or_Inr [OF this, of "(request_writer, demo_start None)"]
  have "run_ops demo_sync_env demo_script (request_writer, demo_start None) = Inr (fst demo_scripted, snd demo_scripted)"
    by (simp add: demo_scripted_def)
  from request_script_is_isolated [OF demo_start_reachable_sync this]
  have "\<exists>evs. events (fl (snd demo_scripted)) = events (fl (demo_start None)) @ evs \<and> list_all quiet_event evs" .
  moreover have "length (events (fl (snd demo_scripted))) = 3" by code_simp
  moreover have "length (reqHeaders (fl (snd demo_scripted))) = 2" by code_simp
  ultimately show ?thesis by blast
qed

section \<open>flush\<close>

text \<open>C8. \<open>flush\<close>, on both of its paths. Without a pending local reply it applies exactly the queued mutations, in
  the order headers, framing strip, filter state, counters, gauges, histograms, metadata, override, body, then
  resumes if asked to; it leaves every queue empty, so a second flush records nothing. With a pending local reply its
  only call is that reply, with its status, headers and body: whatever it is asked, it does not resume the request,
  it applies none of the queued mutations and leaves them queued, the stream stays stopped, and the reply is not
  sent again.\<close>

theorem flush_applies_and_drains:
  "(case localReply f of
      None \<Rightarrow>
        events (flush env c f) = events f @ map Handle (flush_calls env c f) \<and>
        queue_calls (flush env c f) = [] \<and> \<not> hasRequestBodyReplacement (flush env c f) \<and>
        \<not> stopped (flush env c f) \<and>
        events (flush env False (flush env c f)) = events (flush env c f)
    | Some r \<Rightarrow>
        events (flush env c f) = events f @ [Handle (CSendLocalResponse (status r) (lr_headers r) (lr_body r) '''')] \<and>
        queue_calls (flush env c f) = queue_calls f \<and>
        hasRequestBodyReplacement (flush env c f) = hasRequestBodyReplacement f \<and>
        requestBodyReplacement (flush env c f) = requestBodyReplacement f \<and>
        stopped (flush env c f) = stopped f \<and> localReply (flush env c f) = None)"
proof (cases "localReply f")
  case None
  let ?g = "flush env c f"
  have g: "?g = emit (flush_calls env c f) (drained f)" using None by (rule flush_no_reply)
  have q: "queue_calls ?g = []" "\<not> hasRequestBodyReplacement ?g" "localReply ?g = None" "\<not> stopped ?g"
    using None by (simp_all add: g queue_calls_def drained_def emit_def)
  then have "events (flush env False ?g) = events ?g"
    by (simp add: flush_no_reply flush_calls_def body_calls_def drained_def)
  moreover have "events ?g = events f @ map Handle (flush_calls env c f)" by (simp add: g drained_def)
  ultimately show ?thesis using q None by simp
next
  case (Some r)
  then show ?thesis by (simp add: flush_local_reply emit_def queue_calls_def)
qed

theorem flush_applies_and_drains_witness:
  "localReply (fl (demo_paused None)) = None \<and>
   events (flush demo_env True (fl (demo_paused None))) =
     events (fl (demo_paused None)) @ [Handle (CHdrSet RequestHdrs ''a'' ''1''), Handle CContinueRequest]"
proof -
  have n: "localReply (fl (demo_paused None)) = None" by code_simp
  have "flush_calls demo_env True (fl (demo_paused None)) = [CHdrSet RequestHdrs ''a'' ''1'', CContinueRequest]"
    by code_simp
  with flush_applies_and_drains [where f="fl (demo_paused None)" and env=demo_env and c=True] n show ?thesis by simp
qed

end
