(* ===== verification/Callout_Theorems.thy ===== *)
theory Callout_Theorems
  imports Stream_Theorems
begin

text \<open>
  The properties of callouts and of the request callbacks around them: the two orders of the
  handoff agree, the handoff state is a ratchet, an answer counts once, a batch delivers its slots
  in request order, a local reply excludes everything else, a paused request stays paused, and the
  content length a body callback leaves.
\<close>

section \<open>The two orders of the handoff\<close>

lemma OnHttpCalloutDone_cases:
  assumes "calloutFn (fl s) = Some fn" "\<not> streamDone (fl s)"
  shows "OnHttpCalloutDone env d s =
     outcome_map (on_fl (settle_callout env))
       (run_script env (calloutWriter (fl s)) (fn d) (on_fl (\<lambda>f. user (UCallout d) (f\<lparr>calloutFn := None\<rparr>)) s))"
  using assms by (simp add: OnHttpCalloutDone_def outcome_map_def)

lemma with_cs_start:
  "on_fl (\<lambda>f. user u (f\<lparr>calloutFn := None\<rparr>)) (with_cs c s) = with_cs c (on_fl (\<lambda>f. user u (f\<lparr>calloutFn := None\<rparr>)) s)"
  by (simp add: with_cs_def on_fl_def user_def)

lemma flush_resume_last:
  "flush env True f = (if localReply f = None then emit [CContinueRequest] (flush env False f) else flush env False f)"
proof (cases "localReply f")
  case None
  then show ?thesis by (simp add: flush_no_reply flush_calls_def)
next
  case (Some r)
  then show ?thesis by (simp add: flush_local_reply)
qed

lemma answered_active:
  assumes "calloutFn (fl s) = Some fn" "calloutState (fl s) = calloutStateActive" "\<not> streamDone (fl s)"
    "OnHttpCalloutDone env d s = Inr e"
  obtains t where
    "run_script env (calloutWriter (fl s)) (fn d) (on_fl (\<lambda>f. user (UCallout d) (f\<lparr>calloutFn := None\<rparr>)) s) = Inr t"
    "e = on_fl (\<lambda>f. f\<lparr>calloutState := calloutStateDone\<rparr>) t" "core (fl t) = core ((fl s)\<lparr>calloutFn := None\<rparr>)"
proof -
  let ?s0 = "on_fl (\<lambda>f. user (UCallout d) (f\<lparr>calloutFn := None\<rparr>)) s"
  from assms(4) obtain t where t: "run_script env (calloutWriter (fl s)) (fn d) ?s0 = Inr t" and e: "e = on_fl (settle_callout env) t"
    by (auto simp: OnHttpCalloutDone_cases [OF assms(1,3)] outcome_map_def obind_eq_Inr)
  have core: "core (fl t) = core ((fl s)\<lparr>calloutFn := None\<rparr>)"
    using run_script_mutates [OF t] core_user by (simp add: mutates_def)
  then have "calloutState (fl t) = calloutStateActive" using core_fields(1) [OF core] assms(2) by simp
  then have "e = on_fl (\<lambda>f. f\<lparr>calloutState := calloutStateDone\<rparr>) t" by (simp add: e settle_callout_def calloutCAS_def on_fl_def)
  with t core show thesis by (intro that)
qed

text \<open>The handoff itself: an answer just before the pause leaves to the callback what an answer just after it does.\<close>

lemma handoff_step:
  assumes "calloutFn (fl s) = Some fn" "calloutState (fl s) = calloutStateActive" "\<not> streamDone (fl s)"
    and early: "OnHttpCalloutDone env d s = Inr early"
  shows "\<exists>late. OnHttpCalloutDone env d (s\<lparr>fl := snd (pausePendingCallout True (fl s))\<rparr>) = Inr late \<and> pr late = pr early \<and>
     fl late = (if localReply (fl early) = None then emit [CContinueRequest] else id)
                 (flush env False (flushCompletedCallout True (fl early)))"
proof -
  let ?w = "calloutWriter (fl s)"
  let ?s0 = "on_fl (\<lambda>f. user (UCallout d) (f\<lparr>calloutFn := None\<rparr>)) s"
  have paused: "s\<lparr>fl := snd (pausePendingCallout True (fl s))\<rparr> = with_cs calloutStatePaused s"
    using assms(2) by (simp add: pausePendingCallout_def calloutCAS_def with_cs_def on_fl_def)
  obtain t where t: "run_script env ?w (fn d) ?s0 = Inr t" and e: "early = on_fl (\<lambda>f. f\<lparr>calloutState := calloutStateDone\<rparr>) t"
    by (rule answered_active [OF assms(1-3) early])
  then have fe: "fl early = (fl t)\<lparr>calloutState := calloutStateDone\<rparr>" by simp
  have "run_script env ?w (fn d) (with_cs calloutStatePaused ?s0) = Inr (with_cs calloutStatePaused t)"
    using run_script_with_cs [of env ?w "fn d" calloutStatePaused ?s0] t by simp
  then have "OnHttpCalloutDone env d (with_cs calloutStatePaused s) =
      Inr (on_fl (settle_callout env) (with_cs calloutStatePaused t))"
    using assms(1,3) OnHttpCalloutDone_cases [of "with_cs calloutStatePaused s" fn env d]
    by (simp only: with_cs_start) (simp add: with_cs_def)
  moreover have "fl (on_fl (settle_callout env) (with_cs calloutStatePaused t)) =
      flush env True ((fl t)\<lparr>calloutState := calloutStateFlushed\<rparr>)"
    by (simp add: with_cs_def settle_callout_def calloutCAS_def)
  moreover have "flushCompletedCallout True (fl early) = (fl t)\<lparr>calloutState := calloutStateFlushed\<rparr>"
    by (simp add: fe flushCompletedCallout_def calloutCAS_def)
  moreover have "localReply (fl early) = localReply (fl t)" by (simp add: fe)
  moreover have "pr (on_fl (settle_callout env) (with_cs calloutStatePaused t)) = pr early"
    by (simp add: e with_cs_def)
  ultimately show ?thesis
    unfolding paused by (simp add: flush_resume_last)
qed

text \<open>The same Envoy, which accepts every callout and answers it only later.\<close>

definition answers_later :: "envoy \<Rightarrow> envoy" where
  "answers_later env = env\<lparr>env_callout := \<lambda>evs req. (HTTPCalloutInitSuccess, None)\<rparr>"

lemma later_sels [simp]:
  "env_fuel (answers_later env) = env_fuel env" "env_rand (answers_later env) = env_rand env"
  "env_filter_state (answers_later env) = env_filter_state env" "env_buffered_request (answers_later env) = env_buffered_request env"
  "env_callout (answers_later env) evs req = (HTTPCalloutInitSuccess, None)"
  by (simp_all add: answers_later_def)

lemma later_run_mut: "run_mut (answers_later env) w op s = run_mut env w op s"
proof -
  have "getOrCreateBag (answers_later env) w s = getOrCreateBag env w s" by (simp add: getOrCreateBag_def Let_def)
  then show ?thesis
    by (cases op) (simp_all add: SetStreamObject_def GetStreamObject_def GetFilterState_def)
qed

lemma later_run_script: "run_script (answers_later env) w ops s = run_script env w ops s"
  by (induction ops arbitrary: s) (simp_all add: later_run_mut obind_def split: sum.split)

lemma later_flush: "flush (answers_later env) c f = flush env c f"
  by (simp add: flush_def flush_body_def requestBodyReplacementBuffer_def split: option.split)

lemma later_answer: "OnHttpCalloutDone (answers_later env) d s = OnHttpCalloutDone env d s"
proof -
  have "settle_callout (answers_later env) = settle_callout env" by (rule ext) (simp add: settle_callout_def later_flush calloutCAS_def)
  then show ?thesis by (simp add: OnHttpCalloutDone_def later_run_script split: option.split)
qed

text \<open>The Writer calls that start something; the others leave the Writer as it is.\<close>

fun starts :: "wop \<Rightarrow> bool" where
  "starts (OpHTTPCallout req fn) = True"
| "starts (OpHTTPCalloutAllSettled reqs fn) = True"
| "starts (OpHTTPCalloutSequence nx dn) = True"
| "starts (OpGRPCCallout req fn) = True"
| "starts OpGo = True"
| "starts op = False"

lemma run_op_plain: "\<not> starts op \<Longrightarrow> run_op op env (w, s) = outcome_map (Pair w) (run_mut env w op s)"
  by (cases op) (simp_all add: outcome_map_def)

lemma run_ops_plain: "list_all (\<lambda>op. \<not> starts op) ops \<Longrightarrow> run_ops env ops (w, s) = outcome_map (Pair w) (run_script env w ops s)"
proof (induction ops arbitrary: s)
  case (Cons op ops)
  then show ?case by (cases "run_mut env w op s") (simp_all add: run_op_plain)
qed simp

lemma run_ops_append: "run_ops env (as @ bs) ws = obind (run_ops env as ws) (run_ops env bs)"
proof (induction as arbitrary: ws)
  case (Cons op as)
  then show ?case by (cases "run_op op env ws") simp_all
qed simp

text \<open>A queued local reply stops the stream.\<close>

definition reply_stops :: "http_filter \<Rightarrow> bool" where
  "reply_stops f \<longleftrightarrow> (localReply f \<noteq> None \<longrightarrow> stopped f)"

lemma reply_stops_metadata: "SetMetadata ns k v w f = Inr f' \<Longrightarrow> reply_stops f' = reply_stops f"
  by (auto simp: SetMetadata_def reply_stops_def emit_def split: if_splits)

lemma reply_stops_metadata_all: "set_metadata_all ns as w f = Inr f' \<Longrightarrow> reply_stops f' = reply_stops f"
proof (induction as arbitrary: f)
  case (Cons a as)
  then show ?case by (cases a) (auto simp: obind_eq_Inr dest: reply_stops_metadata)
qed simp

lemma reply_stops_AddLogAttrs: "AddLogAttrs kvs w f = Inr f' \<Longrightarrow> reply_stops f' = reply_stops f"
  by (auto simp: AddLogAttrs_def Let_def split: if_splits dest!: reply_stops_metadata_all) (auto simp: reply_stops_def)

lemma reply_stops_run_mut:
  assumes "run_mut env w op s = Inr s'" "reply_stops (fl s)"
  shows "reply_stops (fl s')"
proof (cases op)
  case (OpSetMetadata ns k v)
  with assms show ?thesis by (auto simp: try_fl_def obind_eq_Inr dest: reply_stops_metadata)
next
  case (OpAddLogAttrs kvs)
  with assms show ?thesis by (auto simp: try_fl_def obind_eq_Inr dest: reply_stops_AddLogAttrs)
next
  case (OpSetStreamObject k v)
  with assms show ?thesis
    by (auto simp: SetStreamObject_def getOrCreateBag_def Let_def SetFilterState_def obind_eq_Inr reply_stops_def emit_def
        split: if_splits option.splits)
next
  case (OpGetStreamObject k)
  with assms show ?thesis by (auto simp: GetStreamObject_def Let_def reply_stops_def split: option.splits if_splits)
qed (use assms in \<open>auto simp: reply_stops_def plain_op_defs SetFilterState_def SendLocalResponse_def emit_def split: if_splits\<close>)

lemma reply_stops_run_script: "run_script env w ops s = Inr s' \<Longrightarrow> reply_stops (fl s) \<Longrightarrow> reply_stops (fl s')"
  by (induction ops arbitrary: s) (auto simp: obind_eq_Inr dest: reply_stops_run_mut)

text \<open>The header callback of a stream without a body handler and without a finalization callback, once its handler has
  returned with a callout started.\<close>

lemma after_pending:
  assumes "requestBodyHandler (fl s) = None" "\<not> onStreamFinalized (fl s)" "calloutStarted w" "calloutState (fl s) = calloutStateActive"
  shows "after_request_handler env eos (w, s) = Inr (HeadersStatusStop, with_cs calloutStatePaused s)"
  using assms by (simp add: after_request_handler_def registerFinalized_def pausePendingCallout_def calloutCAS_def with_cs_def on_fl_def)

lemma after_answered:
  assumes "requestBodyHandler (fl s) = None" "\<not> onStreamFinalized (fl s)" "calloutStarted w" "\<not> goStarted (fl s)"
    "calloutState (fl s) = calloutStateDone"
  shows "after_request_handler env eos (w, s) = Inr (finish_headers env True False s)"
  using assms
  by (simp add: after_request_handler_def registerFinalized_def pausePendingCallout_def calloutCAS_def on_fl_def
      end_of_request_body_def headers_exit_def)

text \<open>C6. Whether Envoy answers a callout at once or later makes no difference to what a request callback does. Take a
  request-header callback whose handler ends by starting a callout, after any calls that start nothing, on a filter
  without a body handler and a finalization callback. Run it in an Envoy that answers the callout inside the call,
  and in the same Envoy that answers it with the same result after the callback has returned. The second callback
  pauses the request; after the answer its filter is the one the first callback leaves, and it has made the same
  calls in the same order, the callout's callback included, and after them the \<open>ContinueRequest\<close> that stands for the
  Continue the first callback returns. Where the first callback returns Stop, for a local reply, the second one
  makes no further call at all.\<close>

theorem handoff_orders_agree:
  assumes handler: "handler (fl s) (newRequestWithContext headers (f_name (fl s))) = pre @ [OpHTTPCallout req fn]"
      "list_all (\<lambda>op. \<not> starts op) pre"
    and flt: "requestBodyHandler (fl s) = None" "\<not> onStreamFinalized (fl s)"
    and stream: "\<not> goStarted (fl s)" "\<not> streamDone (fl s)" "localReply (fl s) = None"
    and answer: "\<forall>evs. env_callout env evs req = (HTTPCalloutInitSuccess, Some d)"
    and early: "OnRequestHeaders env headers eos s = Inr (st, early)"
  shows "\<exists>paused late. OnRequestHeaders (answers_later env) headers eos s = Inr (HeadersStatusStop, paused) \<and>
     OnHttpCalloutDone (answers_later env) d paused = Inr late \<and> pr late = pr early \<and>
     fl late = (if st = HeadersStatusContinue then emit [CContinueRequest] else id) (fl early)"
proof -
  define s2 where "s2 = on_fl (\<lambda>f. user (UHandler (newRequestWithContext headers (f_name (fl s))))
    (if reqID f = '''' then f\<lparr>reqID := headers ''x-request-id''\<rparr> else f)) s"
  have start: "OnRequestHeaders e headers eos s =
      obind (run_ops e (pre @ [OpHTTPCallout req fn]) (request_writer, s2)) (after_request_handler e eos)" for e
    using flt(1) handler(1) by (auto simp: OnRequestHeaders_def Let_def s2_def on_fl_def)
  have pre: "run_ops e pre (request_writer, s2) = outcome_map (Pair request_writer) (run_script e request_writer pre s2)" for e
    by (rule run_ops_plain [OF handler(2)])
  from early obtain t where t: "run_script env request_writer pre s2 = Inr t"
    unfolding start run_ops_append pre by (auto simp: obind_eq_Inr outcome_map_def)
  define w1 u where "w1 = request_writer\<lparr>calloutStarted := True\<rparr>" and
    "u = on_fl (\<lambda>f. emit [CHttpCallout req] (f\<lparr>calloutFn := Some fn, calloutWriter := w1, calloutState := calloutStateActive\<rparr>)) t"
  have "core (fl t) = core (fl s2)" using run_script_mutates [OF t] by (simp add: mutates_def)
  note ct = arg_cong [OF this, of requestBodyHandler] arg_cong [OF this, of onStreamFinalized] core_fields(4,5) [OF this]
  have u: "requestBodyHandler (fl u) = None" "\<not> onStreamFinalized (fl u)" "\<not> goStarted (fl u)" "\<not> streamDone (fl u)"
      "calloutFn (fl u) = Some fn" "calloutState (fl u) = calloutStateActive" "calloutWriter (fl u) = w1"
    using flt stream ct by (simp_all add: u_def s2_def user_def emit_def core_def)
  have stops: "reply_stops (fl u)"
    using reply_stops_run_script [OF t] stream(3) by (auto simp: reply_stops_def u_def s2_def user_def emit_def)
  have late0: "OnRequestHeaders (answers_later env) headers eos s = Inr (HeadersStatusStop, with_cs calloutStatePaused u)"
    using after_pending [OF u(1,2) _ u(6), of w1] t unfolding start run_ops_append pre later_run_script
    by (simp add: HTTPCallout_def request_writer_def w1_def u_def on_fl_def Let_def)
  have early0: "OnRequestHeaders env headers eos s = obind (OnHttpCalloutDone env d u) (\<lambda>e. after_request_handler env eos (w1, e))"
    using t answer unfolding start run_ops_append pre
    by (cases "OnHttpCalloutDone env d u") (simp_all add: HTTPCallout_def request_writer_def w1_def u_def on_fl_def Let_def emit_def)
  then obtain e where e: "OnHttpCalloutDone env d u = Inr e" "after_request_handler env eos (w1, e) = Inr (st, early)"
    using early unfolding early0 obind_eq_Inr by blast
  obtain t' where t': "run_script env w1 (fn d) (on_fl (\<lambda>f. user (UCallout d) (f\<lparr>calloutFn := None\<rparr>)) u) = Inr t'"
      "e = on_fl (\<lambda>f. f\<lparr>calloutState := calloutStateDone\<rparr>) t'" "core (fl t') = core ((fl u)\<lparr>calloutFn := None\<rparr>)"
    using answered_active [OF u(5,6,4) e(1)] unfolding u(7) by blast
  note ct' = arg_cong [OF t'(3), of requestBodyHandler] arg_cong [OF t'(3), of onStreamFinalized] core_fields(5) [OF t'(3)]
  have "reply_stops (fl t')" by (rule reply_stops_run_script [OF t'(1)]) (use stops in \<open>simp add: reply_stops_def user_def\<close>)
  then have es: "reply_stops (fl e)" by (simp add: t'(2) reply_stops_def)
  have "after_request_handler env eos (w1, e) = Inr (finish_headers env True False e)"
    by (rule after_answered) (use u(1-3) ct' in \<open>simp_all add: t'(2) core_def w1_def\<close>)
  with e(2) have fin: "finish_headers env True False e = (st, early)" by simp
  let ?g = "flush env False (flushCompletedCallout True (fl e))"
  have fe: "fl early = ?g" "pr early = pr e" and st: "st = (if stopped ?g then HeadersStatusStop else HeadersStatusContinue)"
    using fin by (auto simp: finish_headers_def Let_def)
  have lr: "localReply (flushCompletedCallout True (fl e)) = localReply (fl e)" "stopped (flushCompletedCallout True (fl e)) = stopped (fl e)"
    by (simp_all add: flushCompletedCallout_def calloutCAS_def)
  have cont: "st = HeadersStatusContinue \<longleftrightarrow> localReply (fl e) = None"
    using es lr by (cases "localReply (fl e)") (auto simp: st reply_stops_def flush_local_reply flush_no_reply drained_def emit_def)
  obtain late where "OnHttpCalloutDone env d (with_cs calloutStatePaused u) = Inr late" "pr late = pr e"
      "fl late = (if localReply (fl e) = None then emit [CContinueRequest] else id) ?g"
    using handoff_step [OF u(5,6,4) e(1)] u(6) by (auto simp: pausePendingCallout_def calloutCAS_def with_cs_def on_fl_def)
  then show ?thesis using late0 fe cont by (auto simp: later_answer)
qed

definition demo_early_env :: envoy where
  "demo_early_env = demo_env\<lparr>env_callout := \<lambda>evs req. (HTTPCalloutInitSuccess, Some demo_done)\<rparr>"

definition demo_early :: "HeadersStatus \<times> sys" where
  "demo_early = result_or (HeadersStatusStop, demo_start None) (OnRequestHeaders demo_early_env (\<lambda>n. '''') False (demo_start None))"

theorem handoff_orders_agree_witness:
  "\<exists>paused late. OnRequestHeaders (answers_later demo_early_env) (\<lambda>n. '''') False (demo_start None) = Inr (HeadersStatusStop, paused) \<and>
     OnHttpCalloutDone (answers_later demo_early_env) demo_done paused = Inr late \<and>
     fst demo_early = HeadersStatusContinue \<and> fl late = emit [CContinueRequest] (fl (snd demo_early))"
proof -
  let ?s = "demo_start None"
  have 1: "handler (fl ?s) (newRequestWithContext (\<lambda>n. '''') (f_name (fl ?s))) =
      [OpSetRequestHeader ''a'' ''1''] @ [OpHTTPCallout demo_request (\<lambda>d. [OpSetRequestHeader ''b'' ''2''])]"
    by (simp add: demo_start_def filterFactory_Create_def demo_factory_def)
  have 2: "list_all (\<lambda>op. \<not> starts op) [OpSetRequestHeader ''a'' ''1'']" by simp
  have 3: "requestBodyHandler (fl ?s) = None" by (simp add: demo_start_def filterFactory_Create_def demo_factory_def)
  have 4: "\<not> onStreamFinalized (fl ?s)" by (simp add: demo_start_def filterFactory_Create_def demo_factory_def)
  have 5: "\<not> goStarted (fl ?s)" "\<not> streamDone (fl ?s)" "localReply (fl ?s) = None" by code_simp+
  have 6: "\<forall>evs. env_callout demo_early_env evs demo_request = (HTTPCalloutInitSuccess, Some demo_done)" by (simp add: demo_early_env_def)
  have "\<not> isl (OnRequestHeaders demo_early_env (\<lambda>n. '''') False ?s)" by code_simp
  from result_or_Inr [OF this] have 7: "OnRequestHeaders demo_early_env (\<lambda>n. '''') False ?s = Inr (fst demo_early, snd demo_early)"
    unfolding demo_early_def by simp
  have "fst demo_early = HeadersStatusContinue" by code_simp
  then show ?thesis using handoff_orders_agree [OF 1 2 3 4 5 6 7] by auto
qed

section \<open>Answers\<close>

text \<open>The handoff is a one-way ratchet: no answer, to a single callout, a batch, a sequence or a
  gRPC call, moves it back, and an answer to a stream that is not paused neither pauses nor
  resumes it.\<close>

lemma handoff_is_ratchet:
  assumes "reachable env s"
    and "OnHttpCalloutDone env d s = Inr s' \<or> batch_finish env n i r s = Inr s' \<or> sequence_done env n d s = Inr s' \<or>
         n < length (grpcs (fl s)) \<and> grpc_event env n e s = Inr s'"
  shows "calloutState (fl s) \<le> calloutState (fl s') \<and>
     (calloutState (fl s) \<noteq> calloutStatePaused \<longrightarrow>
        calloutState (fl s') \<noteq> calloutStatePaused \<and> resumes (fl s') = resumes (fl s))"
proof -
  have "completes (fl s) (fl s')"
    using assms(2) inv_handoff [OF reachable_inv [OF assms(1)]]
    by (blast intro: completes_OnHttpCalloutDone completes_batch_finish completes_sequence_done completes_grpc_event)
  then show ?thesis by (auto simp: completes_def)
qed

lemma handoff_is_ratchet_example:
  "calloutState (fl (demo_paused None)) \<le> calloutState (fl (demo_resumed None)) \<and>
   calloutState (fl (demo_resumed None)) = calloutStateFlushed"
proof -
  have "calloutState (fl (demo_resumed None)) = calloutStateFlushed" by code_simp
  then show ?thesis
    using handoff_is_ratchet [OF demo_paused_reachable disjI1 [OF demo_callout]] by blast
qed

text \<open>An answer counts once: once a callout has been answered, any further answer leaves the
  filter as it is.\<close>

lemma answer_counts_once:
  assumes "OnHttpCalloutDone env d s = Inr s'"
  shows "OnHttpCalloutDone env d' s' = Inr s'"
proof (cases "calloutFn (fl s) = None \<or> streamDone (fl s)")
  case True
  then show ?thesis using assms by (auto simp: OnHttpCalloutDone_def split: option.splits)
next
  case False
  then obtain fn t where t: "run_script env (calloutWriter (fl s)) (fn d)
      (on_fl (\<lambda>f. user (UCallout d) (f\<lparr>calloutFn := None\<rparr>)) s) = Inr t"
    and s': "s' = on_fl (settle_callout env) t"
    using assms by (auto simp: OnHttpCalloutDone_def obind_eq_Inr)
  have "calloutFn (fl t) = None"
    using run_script_mutates [OF t] core_fields(2) [of "fl t"] core_fields(2) [OF core_user]
    by (fastforce simp: mutates_def)
  moreover have "calloutFn (settle_callout env f) = calloutFn f" for f
    using core_fields(2) [OF core_flush] by (simp add: settle_callout_def calloutCAS_def)
  ultimately show ?thesis by (simp add: s' OnHttpCalloutDone_def)
qed

lemma answer_counts_once_example:
  "OnHttpCalloutDone demo_env (HTTPCalloutReset, [], []) (demo_resumed None) = Inr (demo_resumed None)"
  by (rule answer_counts_once [OF demo_callout])

section \<open>Batches\<close>

fun is_user :: "event \<Rightarrow> bool" where
  "is_user (User u) = True"
| "is_user (Handle c) = False"

lemma users_never_resumes: "extends never_resumes f f' \<Longrightarrow> filter is_user (events f') = filter is_user (events f)"
proof (rule extends_filter)
  show "never_resumes e \<Longrightarrow> \<not> is_user e" for e by (cases e) simp_all
qed

lemma users_handle: "filter is_user (map Handle cs) = []"
  by (induction cs) simp_all

lemma users_flush: "filter is_user (events (flush env c f)) = filter is_user (events f)"
  by (cases "localReply f") (simp_all add: flush_no_reply flush_local_reply drained_def users_handle)

lemma users_settle: "filter is_user (events (settle_callout env f)) = filter is_user (events f)"
  by (simp add: settle_callout_def calloutCAS_def users_flush)

lemma streamDone_script: "run_script env w ops s = Inr s' \<Longrightarrow> streamDone (fl s') = streamDone (fl s)"
  using core_fields(4) [of "fl s'" "fl s"] run_script_mutates [of env w ops s s'] by (simp add: mutates_def)

lemma foldl_slots_length: "length (foldl (\<lambda>rs (i, r). rs[i := r]) rs as) = length rs"
  by (induction as arbitrary: rs) (auto simp: split_def)

lemma foldl_slots:
  "distinct (map fst as) \<Longrightarrow> j < length rs \<Longrightarrow>
     foldl (\<lambda>rs (i, r). rs[i := r]) rs as ! j = (case map_of as j of Some r \<Rightarrow> r | None \<Rightarrow> rs ! j)"
proof (induction as arbitrary: rs)
  case (Cons a as)
  obtain i r where a: "a = (i, r)" by (cases a)
  have "map_of as i = None" using Cons.prems(1) by (simp add: a map_of_eq_None_iff)
  then show ?case using Cons by (auto simp: a nth_list_update split: option.split)
qed simp

lemma finish_pending:
  assumes "bid < length (batches (fl s))" "\<not> b_flushed b" "1 < b_remaining b" "batches (fl s) ! bid = b"
  shows "batch_finish env bid i r s =
     Inr (on_fl (\<lambda>f. f\<lparr>batches := (batches f)[bid := b\<lparr>b_responses := (b_responses b)[i := r], b_remaining := b_remaining b - 1\<rparr>]\<rparr>) s)"
  using assms by (simp add: batch_finish_def Let_def)

lemma finish_prefix:
  assumes "bid < length (batches (fl s))" "\<not> b_flushed (batches (fl s) ! bid)"
    "int (length as) < b_remaining (batches (fl s) ! bid)"
  shows "in_order (map (\<lambda>(i, r). batch_finish env bid i r) as) s =
     Inr (on_fl (\<lambda>f. f\<lparr>batches := (batches f)[bid := (batches f ! bid)
       \<lparr>b_responses := foldl (\<lambda>rs (i, r). rs[i := r]) (b_responses (batches f ! bid)) as,
        b_remaining := b_remaining (batches f ! bid) - int (length as)\<rparr>]\<rparr>) s)"
  using assms
proof (induction as arbitrary: s)
  case Nil
  then show ?case by (simp add: on_fl_def)
next
  case (Cons a as)
  obtain i r where a: "a = (i, r)" by (cases a)
  let ?b = "batches (fl s) ! bid"
  let ?s1 = "on_fl (\<lambda>f. f\<lparr>batches := (batches f)[bid := ?b\<lparr>b_responses := (b_responses ?b)[i := r],
       b_remaining := b_remaining ?b - 1\<rparr>]\<rparr>) s"
  have "batch_finish env bid i r s = Inr ?s1" by (rule finish_pending) (use Cons.prems in auto)
  then have "in_order (map (\<lambda>(i, r). batch_finish env bid i r) (a # as)) s =
      in_order (map (\<lambda>(i, r). batch_finish env bid i r) as) ?s1" by (simp add: a)
  also have "\<dots> = Inr (on_fl (\<lambda>f. f\<lparr>batches := (batches f)[bid := (batches f ! bid)
       \<lparr>b_responses := foldl (\<lambda>rs (i, r). rs[i := r]) (b_responses (batches f ! bid)) as,
        b_remaining := b_remaining (batches f ! bid) - int (length as)\<rparr>]\<rparr>) ?s1)"
    by (rule Cons.IH) (use Cons.prems in auto)
  also have "\<dots> = Inr (on_fl (\<lambda>f. f\<lparr>batches := (batches f)[bid := (batches f ! bid)
       \<lparr>b_responses := foldl (\<lambda>rs (i, r). rs[i := r]) (b_responses (batches f ! bid)) (a # as),
        b_remaining := b_remaining (batches f ! bid) - int (length (a # as))\<rparr>]\<rparr>) s)"
    using Cons.prems(1) by (simp add: a on_fl_def diff_diff_eq)
  finally show ?case .
qed

lemma in_order_append: "in_order (gs @ hs) x = obind (in_order gs x) (in_order hs)"
proof (induction gs arbitrary: x)
  case (Cons g gs)
  then show ?case by (cases "g x") simp_all
qed simp

lemma finish_last:
  assumes "bid < length (batches (fl s))" "\<not> b_flushed (batches (fl s) ! bid)" "b_remaining (batches (fl s) ! bid) = 1"
    "\<not> streamDone (fl s)" "batch_finish env bid i r s = Inr s'"
  shows "filter is_user (events (fl s')) =
     filter is_user (events (fl s)) @ [User (USettled ((b_responses (batches (fl s) ! bid))[i := r]))]"
proof -
  let ?b = "batches (fl s) ! bid"
  let ?rs = "(b_responses ?b)[i := r]"
  obtain b1 s2 where run: "run_script env (b_writer ?b) (b_fn ?b ?rs)
      (on_fl (user (USettled ?rs)) (on_fl (\<lambda>f. f\<lparr>batches := (batches f)[bid := b1]\<rparr>) s)) = Inr s2"
    and s': "s' = (if streamDone (fl s2) then s2 else on_fl (settle_callout env) s2)"
    using assms by (auto simp: batch_finish_def Let_def obind_eq_Inr if_Inr)
  have "extends never_resumes (user (USettled ?rs) ((fl s)\<lparr>batches := (batches (fl s))[bid := b1]\<rparr>)) (fl s2)"
    using run_script_mutates [OF run] by (simp add: mutates_def)
  from users_never_resumes [OF this] show ?thesis by (simp add: s' users_settle)
qed

text \<open>What Envoy answers to the requests of a batch while they are started: a request that it does not accept has failed,
  one that it accepts may be answered on the spot, and the others are answered later.\<close>

fun first_answers :: "envoy \<Rightarrow> events \<Rightarrow> callout_request list \<Rightarrow> settled_response option list" where
  "first_answers env evs [] = []"
| "first_answers env evs (req # reqs) =
     (let (init, immediate) = env_callout env evs req
      in if init \<noteq> HTTPCalloutInitSuccess then Some (settled_of_init init) else map_option settled_of_done immediate)
     # first_answers env (evs @ [Handle (CHttpCallout req)]) reqs"

lemma first_answers_length [simp]: "length (first_answers env evs reqs) = length reqs"
  by (induction reqs arbitrary: evs) simp_all

lemma first_answers_append:
  "first_answers env evs (as @ bs) = first_answers env evs as @ first_answers env (evs @ map (\<lambda>r. Handle (CHttpCallout r)) as) bs"
  by (induction as arbitrary: evs) simp_all

fun at_once :: "nat \<Rightarrow> 'a option list \<Rightarrow> (nat \<times> 'a) list" where
  "at_once i [] = []"
| "at_once i (Some r # xs) = (i, r) # at_once (Suc i) xs"
| "at_once i (None # xs) = at_once (Suc i) xs"

lemma at_once_length: "length (at_once i xs) + length (filter (\<lambda>x. x = None) xs) = length xs"
  by (induction i xs rule: at_once.induct) simp_all

lemma at_once_append: "at_once i (xs @ ys) = at_once i xs @ at_once (i + length xs) ys"
  by (induction i xs rule: at_once.induct) simp_all

lemma at_once_map_of: "map_of (at_once i xs) j = (if i \<le> j \<and> j < i + length xs then xs ! (j - i) else None)"
  by (induction i xs rule: at_once.induct) (auto simp: nth_Cons' Suc_diff_Suc not_less_eq_eq le_less split: nat.split)

lemma at_once_ge: "a \<in> set (at_once i xs) \<Longrightarrow> i \<le> fst a"
  by (induction i xs rule: at_once.induct) (auto dest: Suc_leD)

lemma at_once_distinct: "distinct (map fst (at_once i xs))"
proof (induction i xs rule: at_once.induct)
  case (2 i r xs)
  then show ?case using at_once_ge [where i="Suc i" and xs=xs] by fastforce
qed simp_all

text \<open>The state of a batch whose requests have been started and some of which have been answered.\<close>

definition batch_progress :: "nat \<Rightarrow> (nat \<times> settled_response) list \<Rightarrow> callout_request list \<Rightarrow> sys \<Rightarrow> sys" where
  "batch_progress bid as reqs = on_fl (\<lambda>f. f\<lparr>events := events f @ map (\<lambda>r. Handle (CHttpCallout r)) reqs,
     batches := (batches f)[bid := (batches f ! bid)
       \<lparr>b_responses := foldl (\<lambda>rs (i, r). rs[i := r]) (b_responses (batches f ! bid)) as,
        b_remaining := b_remaining (batches f ! bid) - int (length as)\<rparr>]\<rparr>)"

lemma batch_start_progress:
  assumes "\<forall>evs req. fst (env_callout env evs req) \<noteq> HTTPCalloutInitSuccess \<longrightarrow> snd (env_callout env evs req) = None"
    "bid < length (batches (fl s))" "\<not> b_flushed (batches (fl s) ! bid)"
    "int (length (at_once i (first_answers env (events (fl s)) reqs))) < b_remaining (batches (fl s) ! bid)"
  shows "batch_start env bid i reqs s = Inr (batch_progress bid (at_once i (first_answers env (events (fl s)) reqs)) reqs s)"
  using assms(2-)
proof (induction reqs arbitrary: i s)
  case Nil
  then show ?case by (simp add: batch_progress_def on_fl_def)
next
  case (Cons req reqs)
  obtain init imm where c: "env_callout env (events (fl s)) req = (init, imm)" by fastforce
  have imm: "init \<noteq> HTTPCalloutInitSuccess \<Longrightarrow> imm = None" using assms(1) c by (metis fst_conv snd_conv)
  define fa where "fa = (if init \<noteq> HTTPCalloutInitSuccess then Some (settled_of_init init) else map_option settled_of_done imm)"
  define s1 where "s1 = on_fl (emit [CHttpCallout req]) s"
  define s2 where "s2 = batch_progress bid (at_once i [fa]) [req] s"
  let ?b = "batches (fl s) ! bid"
  let ?rest = "first_answers env (events (fl s2)) reqs"
  have fas: "first_answers env (events (fl s)) (req # reqs) = fa # ?rest" using c by (simp add: fa_def s2_def batch_progress_def)
  have few: "int (length (at_once i [fa])) + int (length (at_once (Suc i) ?rest)) < b_remaining ?b"
    using Cons.prems(3) unfolding fas by (cases fa) simp_all
  have s1: "bid < length (batches (fl s1))" "\<not> b_flushed (batches (fl s1) ! bid)" "batches (fl s1) ! bid = ?b"
    using Cons.prems by (simp_all add: s1_def emit_def)
  have fin: "batch_finish env bid i r s1 = Inr (batch_progress bid [(i, r)] [req] s)" if "fa = Some r" for r
    using finish_pending [OF s1(1) _ _ s1(3), of env i r] Cons.prems(2) few that
    by (simp add: s1_def batch_progress_def on_fl_def emit_def)
  have step: "batch_start env bid i (req # reqs) s = batch_start env bid (Suc i) reqs s2"
  proof (cases fa)
    case None
    then have "init = HTTPCalloutInitSuccess" "imm = None" by (auto simp: fa_def split: if_splits)
    then show ?thesis using c None by (simp add: s2_def batch_progress_def on_fl_def emit_def)
  next
    case (Some r)
    have "init \<noteq> HTTPCalloutInitSuccess \<and> imm = None \<and> r = settled_of_init init \<or>
        (\<exists>d. init = HTTPCalloutInitSuccess \<and> imm = Some d \<and> r = settled_of_done d)"
      using Some imm by (auto simp: fa_def split: if_splits)
    then show ?thesis using c fin [OF Some] Some by (auto simp: s2_def s1_def)
  qed
  have "batch_start env bid (Suc i) reqs s2 = Inr (batch_progress bid (at_once (Suc i) ?rest) reqs s2)"
    by (rule Cons.IH) (use Cons.prems few in \<open>auto simp: s2_def batch_progress_def\<close>)
  also have "batch_progress bid (at_once (Suc i) ?rest) reqs s2 = batch_progress bid (at_once i (fa # ?rest)) (req # reqs) s"
    using Cons.prems(1) by (cases fa) (simp_all add: s2_def batch_progress_def on_fl_def diff_diff_eq)
  finally show ?case unfolding step fas .
qed

lemma batch_start_append:
  "batch_start env bid i (as @ bs) s = obind (batch_start env bid i as s) (batch_start env bid (i + length as) bs)"
proof (induction as arbitrary: i s)
  case (Cons a as)
  then show ?case by (simp add: Let_def split_def obind_def split: sum.split option.split)
qed simp

text \<open>A batch all of whose requests are answered while they are started settles with the last of them.\<close>

lemma batch_start_settles:
  assumes env: "\<forall>evs req. fst (env_callout env evs req) \<noteq> HTTPCalloutInitSuccess \<longrightarrow> snd (env_callout env evs req) = None"
    and batch: "bid < length (batches (fl s))" "\<not> b_flushed (batches (fl s) ! bid)" "\<not> streamDone (fl s)"
      "b_remaining (batches (fl s) ! bid) = int (length reqs)" "reqs \<noteq> []"
    and all: "None \<notin> set (first_answers env (events (fl s)) reqs)"
    and run: "batch_start env bid 0 reqs s = Inr s'"
  shows "filter is_user (events (fl s')) = filter is_user (events (fl s)) @
    [User (USettled (foldl (\<lambda>rs (i, r). rs[i := r]) (b_responses (batches (fl s) ! bid))
      (at_once 0 (first_answers env (events (fl s)) reqs))))]"
proof -
  obtain pre req where reqs: "reqs = pre @ [req]" using batch(5) by (cases reqs rule: rev_cases) auto
  let ?fp = "first_answers env (events (fl s)) pre"
  let ?t = "batch_progress bid (at_once 0 ?fp) pre s"
  have nn: "None \<notin> set ?fp" using all by (simp add: reqs first_answers_append)
  have "filter (\<lambda>x. x = None) ?fp = []" using nn by (metis (mono_tags, lifting) filter_empty_conv)
  then have "length (at_once 0 ?fp) = length pre" using at_once_length [of 0 ?fp] by simp
  note len = this
  have t: "batch_start env bid 0 pre s = Inr ?t"
    by (rule batch_start_progress [OF env batch(1,2)]) (simp add: len batch(4) reqs)
  let ?s1 = "on_fl (emit [CHttpCallout req]) ?t"
  have users: "filter is_user (events (fl ?s1)) = filter is_user (events (fl s))"
    using users_handle [of "map CHttpCallout pre"] by (simp add: batch_progress_def comp_def)
  have s1: "bid < length (batches (fl ?s1))" "\<not> b_flushed (batches (fl ?s1) ! bid)" "b_remaining (batches (fl ?s1) ! bid) = 1"
      "\<not> streamDone (fl ?s1)"
      "b_responses (batches (fl ?s1) ! bid) = foldl (\<lambda>rs (i, r). rs[i := r]) (b_responses (batches (fl s) ! bid)) (at_once 0 ?fp)"
    using batch len by (simp_all add: batch_progress_def emit_def reqs)
  obtain init imm where c: "env_callout env (events (fl ?t)) req = (init, imm)" by fastforce
  have "events (fl ?t) = events (fl s) @ map (\<lambda>r. Handle (CHttpCallout r)) pre" by (simp add: batch_progress_def)
  then obtain r where r: "first_answers env (events (fl s)) reqs = ?fp @ [Some r]"
      "(if init \<noteq> HTTPCalloutInitSuccess then Some (settled_of_init init) else map_option settled_of_done imm) = Some r"
    using all c by (auto simp: reqs first_answers_append split: if_splits option.splits)
  have "init \<noteq> HTTPCalloutInitSuccess \<Longrightarrow> imm = None" using env c by (metis fst_conv snd_conv)
  then have last: "batch_finish env bid (length pre) r ?s1 = Inr s'"
    using run r(2) c t by (auto simp: reqs batch_start_append obind_eq_Inr split: if_splits)
  show ?thesis using finish_last [OF s1(1-4) last] unfolding users s1(5) r(1) by (simp add: at_once_append)
qed

lemma slots_filled:
  assumes "length fa = n" "distinct (map fst as)" "set (map fst as) = {i. i < n \<and> fa ! i = None}"
  shows "foldl (\<lambda>rs (i, r). rs[i := r]) (replicate n z) (at_once 0 fa @ as) =
    map (\<lambda>i. case fa ! i of Some r \<Rightarrow> r | None \<Rightarrow> the (map_of as i)) [0..<n]"
proof (rule nth_equalityI)
  let ?all = "at_once 0 fa @ as"
  have "fst a \<notin> set (map fst as)" if "a \<in> set (at_once 0 fa)" for a
  proof -
    have "map_of (at_once 0 fa) (fst a) = Some (snd a)" using that map_of_eq_Some_iff [OF at_once_distinct [of 0 fa]] by simp
    then show ?thesis using assms(3) by (auto simp: at_once_map_of split: if_splits)
  qed
  then have "set (map fst (at_once 0 fa)) \<inter> set (map fst as) = {}" by auto
  then have d: "distinct (map fst ?all)" using at_once_distinct [of 0 fa] assms(2) by simp
  fix j assume "j < length (foldl (\<lambda>rs (i, r). rs[i := r]) (replicate n z) ?all)"
  then have j: "j < n" by (simp add: foldl_slots_length)
  show "foldl (\<lambda>rs (i, r). rs[i := r]) (replicate n z) ?all ! j =
      map (\<lambda>i. case fa ! i of Some r \<Rightarrow> r | None \<Rightarrow> the (map_of as i)) [0..<n] ! j"
  proof (cases "fa ! j")
    case None
    then obtain r where "map_of as j = Some r" using assms(3) j by (cases "map_of as j") (auto simp: map_of_eq_None_iff)
    then show ?thesis using foldl_slots [OF d, of j "replicate n z"] j None by (simp add: map_add_def at_once_map_of)
  next
    case (Some r)
    have "map_of as j = None" using assms(3) Some by (auto simp: map_of_eq_None_iff)
    then show ?thesis using foldl_slots [OF d, of j "replicate n z"] j Some assms(1) by (simp add: map_add_def at_once_map_of)
  qed
qed (simp add: foldl_slots_length)

text \<open>C14. \<open>HTTPCalloutAllSettled\<close> with a non-empty list of requests settles once, in request order. Envoy may refuse
  some of the requests, answer some while they are being started and the others later, in any order, with or without
  the request callback pausing in between; it answers no request that it has refused. Then the callback runs exactly
  once, no other user code runs, and slot \<open>i\<close> holds what became of request \<open>i\<close>: the refusal, the answer given on
  the spot, or the later answer. The stream lives until then and the callback does not panic.\<close>

theorem batch_settles_once_in_order:
  assumes env: "\<forall>evs req. fst (env_callout env evs req) \<noteq> HTTPCalloutInitSuccess \<longrightarrow> snd (env_callout env evs req) = None"
    and start: "run_op (OpHTTPCalloutAllSettled reqs (Some fn)) env (w, s) = Inr (w', s1)" "reqs \<noteq> []" "\<not> streamDone (fl s)"
    and answers: "distinct (map fst as)" "set (map fst as) = {i. i < length reqs \<and> first_answers env (events (fl s)) reqs ! i = None}"
    and run: "in_order (map (\<lambda>(i, r). batch_finish env (length (batches (fl s))) i r) as)
      (on_fl (\<lambda>f. snd (pausePendingCallout pausing f)) s1) = Inr s'"
  shows "filter is_user (events (fl s')) = filter is_user (events (fl s)) @
     [User (USettled (map (\<lambda>i. case first_answers env (events (fl s)) reqs ! i of Some r \<Rightarrow> r | None \<Rightarrow> the (map_of as i)) [0..<length reqs]))]"
proof -
  let ?bid = "length (batches (fl s))" and ?n = "length reqs"
  let ?fa = "first_answers env (events (fl s)) reqs"
  define s0 where "s0 = on_fl (\<lambda>f. f\<lparr>calloutState := calloutStateActive, batches := batches f @
    [\<lparr>b_fn = fn, b_responses = replicate ?n settled_zero, b_remaining = int ?n, b_flushed = False, b_writer = w\<lparr>calloutStarted := True\<rparr>\<rparr>]\<rparr>) s"
  have s0: "?bid < length (batches (fl s0))" "\<not> b_flushed (batches (fl s0) ! ?bid)" "\<not> streamDone (fl s0)"
      "b_remaining (batches (fl s0) ! ?bid) = int ?n" "b_responses (batches (fl s0) ! ?bid) = replicate ?n settled_zero"
      "events (fl s0) = events (fl s)"
    using start(3) by (simp_all add: s0_def)
  have s1: "batch_start env ?bid 0 reqs s0 = Inr s1"
    using start(1,2) by (auto simp: start_batch_def Let_def s0_def obind_eq_Inr split: if_splits)
  have slots: "foldl (\<lambda>rs (i, r). rs[i := r]) (replicate ?n settled_zero) (at_once 0 ?fa @ as) =
      map (\<lambda>i. case ?fa ! i of Some r \<Rightarrow> r | None \<Rightarrow> the (map_of as i)) [0..<?n]"
    by (rule slots_filled [OF _ answers]) simp
  have pause: "events (snd (pausePendingCallout pausing f)) = events f" "batches (snd (pausePendingCallout pausing f)) = batches f"
      "streamDone (snd (pausePendingCallout pausing f)) = streamDone f" for f
    by (simp_all add: pausePendingCallout_def calloutCAS_def)
  have "length as = card {i. i < ?n \<and> ?fa ! i = None}" using answers distinct_card [of "map fst as"] by simp
  also have "\<dots> = length (filter (\<lambda>x. x = None) ?fa)" by (simp add: length_filter_conv_card)
  finally have len: "length (at_once 0 ?fa) + length as = ?n" using at_once_length [of 0 ?fa] by simp
  show ?thesis
  proof (cases as rule: rev_cases)
    case Nil
    then have "None \<notin> set ?fa" using answers(2) by (auto simp: in_set_conv_nth)
    then have "filter is_user (events (fl s1)) = filter is_user (events (fl s)) @
        [User (USettled (foldl (\<lambda>rs (i, r). rs[i := r]) (replicate ?n settled_zero) (at_once 0 ?fa)))]"
      using batch_start_settles [OF env s0(1-4) start(2) _ s1] s0(5,6) by simp
    moreover have "s' = on_fl (\<lambda>f. snd (pausePendingCallout pausing f)) s1" using run Nil by simp
    ultimately show ?thesis using slots Nil by (simp add: pause)
  next
    case (snoc pre a)
    obtain i r where a: "a = (i, r)" by (cases a)
    have "s1 = batch_progress ?bid (at_once 0 ?fa) reqs s0"
      using batch_start_progress [OF env s0(1,2), of 0 reqs] s0(4,6) len snoc s1 by simp
    then have b: "?bid < length (batches (fl s1))" "\<not> b_flushed (batches (fl s1) ! ?bid)" "\<not> streamDone (fl s1)"
        "b_remaining (batches (fl s1) ! ?bid) = int (length as)"
        "b_responses (batches (fl s1) ! ?bid) = foldl (\<lambda>rs (i, r). rs[i := r]) (replicate ?n settled_zero) (at_once 0 ?fa)"
        "filter is_user (events (fl s1)) = filter is_user (events (fl s))"
      using s0 len users_handle [of "map CHttpCallout reqs"] by (simp_all add: batch_progress_def comp_def)
    define p where "p = on_fl (\<lambda>f. snd (pausePendingCallout pausing f)) s1"
    define t where "t = on_fl (\<lambda>f. f\<lparr>batches := (batches f)[?bid := (batches f ! ?bid)
       \<lparr>b_responses := foldl (\<lambda>rs (i, r). rs[i := r]) (b_responses (batches f ! ?bid)) pre,
        b_remaining := b_remaining (batches f ! ?bid) - int (length pre)\<rparr>]\<rparr>) p"
    have "in_order (map (\<lambda>(i, r). batch_finish env ?bid i r) pre) p = Inr t"
      unfolding t_def by (rule finish_prefix) (use b snoc in \<open>simp_all add: p_def pause\<close>)
    then have last: "batch_finish env ?bid i r t = Inr s'"
      using run by (simp add: snoc a in_order_append obind_eq_Inr p_def [symmetric])
    have "filter is_user (events (fl s')) =
        filter is_user (events (fl t)) @ [User (USettled ((b_responses (batches (fl t) ! ?bid))[i := r]))]"
      by (rule finish_last [OF _ _ _ _ last]) (use b snoc in \<open>simp_all add: t_def p_def pause\<close>)
    then show ?thesis using b slots by (simp add: t_def p_def pause snoc a)
  qed
qed

definition demo_batch_env :: envoy where
  "demo_batch_env = demo_env\<lparr>env_callout := \<lambda>evs req.
     if Cluster req = ''down'' then (HTTPCalloutInitClusterNotFound, None)
     else if Cluster req = ''fast'' then (HTTPCalloutInitSuccess, Some demo_done) else (HTTPCalloutInitSuccess, None)\<rparr>"

definition demo_batch :: "callout_request list" where
  "demo_batch = map (\<lambda>c. demo_request\<lparr>Cluster := c\<rparr>) [''down'', ''slow'', ''fast'', ''slow'']"

definition demo_batch_fn :: "settled_response list \<Rightarrow> wop list" where
  "demo_batch_fn rs = [OpSetRequestHeader ''n'' (Itoa (length rs))]"

definition demo_batched :: "writer \<times> sys" where
  "demo_batched = result_or (request_writer, demo_start None)
     (run_op (OpHTTPCalloutAllSettled demo_batch (Some demo_batch_fn)) demo_batch_env (request_writer, demo_start None))"

definition demo_answers :: "(nat \<times> settled_response) list" where
  "demo_answers = [(3, settled_of_done (HTTPCalloutReset, [], [])), (1, settled_of_done demo_done)]"

definition demo_settled :: sys where
  "demo_settled = result_or (demo_start None)
     (in_order (map (\<lambda>(i, r). batch_finish demo_batch_env 0 i r) demo_answers)
       (on_fl (\<lambda>f. snd (pausePendingCallout True f)) (snd demo_batched)))"

theorem batch_settles_once_in_order_witness:
  "filter is_user (events (fl demo_settled)) =
   [User (USettled [settled_of_init HTTPCalloutInitClusterNotFound, settled_of_done demo_done, settled_of_done demo_done,
      settled_of_done (HTTPCalloutReset, [], [])])]"
proof -
  have 1: "\<forall>evs req. fst (env_callout demo_batch_env evs req) \<noteq> HTTPCalloutInitSuccess \<longrightarrow> snd (env_callout demo_batch_env evs req) = None"
    by (simp add: demo_batch_env_def)
  have "\<not> isl (run_op (OpHTTPCalloutAllSettled demo_batch (Some demo_batch_fn)) demo_batch_env (request_writer, demo_start None))" by code_simp
  from result_or_Inr [OF this] have 2: "run_op (OpHTTPCalloutAllSettled demo_batch (Some demo_batch_fn)) demo_batch_env (request_writer, demo_start None)
      = Inr (fst demo_batched, snd demo_batched)" unfolding demo_batched_def by simp
  have 3: "demo_batch \<noteq> []" by (simp add: demo_batch_def)
  have 4: "\<not> streamDone (fl (demo_start None))" by code_simp
  have 5: "distinct (map fst demo_answers)" by code_simp
  have fa: "first_answers demo_batch_env (events (fl (demo_start None))) demo_batch =
      [Some (settled_of_init HTTPCalloutInitClusterNotFound), None, Some (settled_of_done demo_done), None]" by code_simp
  have 6: "set (map fst demo_answers) = {i. i < length demo_batch \<and> first_answers demo_batch_env (events (fl (demo_start None))) demo_batch ! i = None}"
    unfolding fa by (auto simp: demo_answers_def demo_batch_def less_Suc_eq nth_Cons' numeral_eq_Suc)
  have b: "length (batches (fl (demo_start None))) = 0" by code_simp
  have "\<not> isl (in_order (map (\<lambda>(i, r). batch_finish demo_batch_env 0 i r) demo_answers)
       (on_fl (\<lambda>f. snd (pausePendingCallout True f)) (snd demo_batched)))" by code_simp
  from result_or_Inr [OF this] have 7: "in_order (map (\<lambda>(i, r). batch_finish demo_batch_env (length (batches (fl (demo_start None)))) i r) demo_answers)
       (on_fl (\<lambda>f. snd (pausePendingCallout True f)) (snd demo_batched)) = Inr demo_settled"
    unfolding demo_settled_def b .
  have "filter is_user (events (fl (demo_start None))) = []" by code_simp
  then show ?thesis
    using batch_settles_once_in_order [OF 1 2 3 4 5 6 7] unfolding fa by (simp add: demo_batch_def demo_answers_def upt_rec numeral_eq_Suc)
qed

end
