(* ===== verification/Request_Theorems.thy ===== *)
theory Request_Theorems
  imports Stream_Theorems
begin

text \<open>
  The properties of the request callbacks: a local reply excludes everything else, a request
  paused for admission is not released by its body or its trailers (and where the code does
  release it), a callback that lets the request go on has applied everything, and the content
  length a mutable body ends with.
\<close>

section \<open>Local replies\<close>

text \<open>The first local response wins: after \<open>SendLocalResponse\<close> on the queued path, whatever the
  callback still calls, the next flush sends exactly that response, applies none of the queued
  mutations, resumes nothing and leaves the stream stopped.\<close>

lemma local_reply_first_wins:
  assumes "queued w (fl s)" "localReply (fl s) = None"
    and "run_script env w ops (on_fl (SendLocalResponse st b hs w) s) = Inr s'"
  shows "events (flush env c (fl s')) = events (fl s') @ [Handle (CSendLocalResponse (word_of_int st) hs b '''')] \<and>
     stopped (flush env c (fl s')) \<and> queue_calls (flush env c (fl s')) = queue_calls (fl s')"
proof -
  let ?r = "\<lparr>status = word_of_int st, lr_headers = hs, lr_body = b\<rparr>"
  have "replied ?r (fl (on_fl (SendLocalResponse st b hs w) s))"
    using assms(1,2) by (simp add: SendLocalResponse_def replied_def)
  moreover have "queued w (fl (on_fl (SendLocalResponse st b hs w) s))"
    using assms(1) queued_core [of "SendLocalResponse st b hs w (fl s)" "fl s" w]
      mutates_SendLocalResponse [of w "fl s" st b hs] by (simp add: mutates_def)
  ultimately have "replied ?r (fl s')" using replied_run_script [OF assms(3)] by blast
  then show ?thesis by (simp add: replied_def flush_local_reply queue_calls_def) (simp add: emit_def)
qed

definition demo_replied :: sys where
  "demo_replied = result_or (demo_start None) (run_script demo_env request_writer
     [OpSetRequestHeader ''a'' ''1'', OpSendLocalResponse 500 ''late'' []]
     (on_fl (SendLocalResponse 403 ''no'' [] request_writer) (demo_start None)))"

lemma local_reply_first_wins_example:
  "events (flush demo_env True (fl demo_replied)) = [Handle (CSendLocalResponse 403 [] ''no'' '''')] \<and>
   stopped (flush demo_env True (fl demo_replied))"
proof -
  have 1: "queued request_writer (fl (demo_start None))" by simp
  have 2: "localReply (fl (demo_start None)) = None" by code_simp
  have "\<not> isl (run_script demo_env request_writer [OpSetRequestHeader ''a'' ''1'', OpSendLocalResponse 500 ''late'' []]
     (on_fl (SendLocalResponse 403 ''no'' [] request_writer) (demo_start None)))" by code_simp
  from result_or_Inr [OF this] have "run_script demo_env request_writer
     [OpSetRequestHeader ''a'' ''1'', OpSendLocalResponse 500 ''late'' []]
     (on_fl (SendLocalResponse 403 ''no'' [] request_writer) (demo_start None)) = Inr demo_replied"
    unfolding demo_replied_def .
  from local_reply_first_wins [OF 1 2 this] have
    "events (flush demo_env True (fl demo_replied)) =
       events (fl demo_replied) @ [Handle (CSendLocalResponse (word_of_int 403) [] ''no'' '''')] \<and>
     stopped (flush demo_env True (fl demo_replied))" by blast
  moreover have "events (fl demo_replied) = []" by code_simp
  ultimately show ?thesis by simp
qed

section \<open>Admission\<close>

lemma pause_false: "pausePendingCallout b f = (False, f') \<Longrightarrow> f' = f"
  by (auto simp: pausePendingCallout_def calloutCAS_def split: if_splits)

lemma finish_headers_not_paused:
  assumes "finish_headers env started b s = (st, s')" "calloutState (fl s) \<noteq> calloutStatePaused"
  shows "calloutState (fl s') \<noteq> calloutStatePaused"
proof -
  have "fl s' = flush env False (flushCompletedCallout started (fl s))"
    using assms(1) by (auto simp: finish_headers_def Let_def)
  moreover have "calloutState (flushCompletedCallout started (fl s)) \<noteq> calloutStatePaused"
    using assms(2) by (simp add: flushCompletedCallout_def calloutCAS_def)
  ultimately show ?thesis using core_fields(1) [OF core_flush] by simp
qed

lemma headers_exit_paused:
  assumes "headers_exit env b (w, s) = (st, s')" "calloutState (fl s) \<noteq> calloutStatePaused"
    "calloutState (fl s') = calloutStatePaused"
  shows "st = HeadersStatusStop"
proof -
  obtain paused f where p: "pausePendingCallout (calloutStarted w) (fl s) = (paused, f)" by fastforce
  show ?thesis
  proof (cases "paused \<or> goStarted f")
    case True
    then show ?thesis using assms(1) by (auto simp: headers_exit_def p Let_def split: if_splits)
  next
    case False
    then have "f = fl s" using p pause_false [of "calloutStarted w" "fl s" f] by simp
    with False assms p have "finish_headers env (calloutStarted w) b s = (st, s')"
      by (simp add: headers_exit_def)
    with finish_headers_not_paused assms(2,3) show ?thesis by blast
  qed
qed

lemma run_ops_not_paused:
  "run_ops env ops (w, s) = Inr (w', s') \<Longrightarrow> handoff w (fl s) \<Longrightarrow> calloutState (fl s) \<noteq> calloutStatePaused \<Longrightarrow>
     calloutState (fl s') \<noteq> calloutStatePaused \<and> handoff w' (fl s')"
  using run_ops_scripted [of env ops w s w' s'] by (simp add: scripted_def)

lemma end_of_request_body_not_paused:
  assumes "end_of_request_body env (w, s) = Inr (w', s')" "handoff w (fl s)" "calloutState (fl s) \<noteq> calloutStatePaused"
  shows "calloutState (fl s') \<noteq> calloutStatePaused"
proof (cases "requestBodyHandler (fl s)")
  case (Some h)
  then obtain c where run: "run_ops env (h c) (w, on_fl (user (UBody c)) s) = Inr (w', s')"
    using assms(1) by (auto simp: end_of_request_body_def Let_def)
  have "handoff w (user (UBody c) (fl s))" using scripted_user [of w "fl s"] assms(2) by (simp add: scripted_def)
  moreover have "calloutState (user (UBody c) (fl s)) \<noteq> calloutStatePaused"
    using assms(3) core_fields(1) [OF core_user] by simp
  ultimately show ?thesis using run_ops_not_paused [OF run] by simp
qed (use assms in \<open>auto simp: end_of_request_body_def\<close>)

lemma after_handler_paused:
  assumes "after_request_handler env eos (w, s3) = Inr (st, s')" "handoff w (fl s3)"
    "calloutState (fl s3) \<noteq> calloutStatePaused" "calloutState (fl s') = calloutStatePaused"
  shows "st = HeadersStatusStop"
proof -
  define s4 where "s4 = registerFinalized env s3"
  define b where "b = (\<not> eos \<and> bufferBody (fl s4) \<and> requestBodyHandler (fl s4) \<noteq> None)"
  define s5 where "s5 = on_fl (\<lambda>f. if b \<and> mutableRequestBody f then f\<lparr>stripFramingOnResume := True\<rparr> else f) s4"
  obtain paused f6 where p: "pausePendingCallout (calloutStarted w) (fl s5) = (paused, f6)" by fastforce
  define s6 where "s6 = s5\<lparr>fl := f6\<rparr>"
  have eq: "(if paused then Inr (HeadersStatusStop, s6)
         else if goStarted (fl s6) then Inr (HeadersStatusStop, s6)
         else if eos then obind (end_of_request_body env (w, s6)) (\<lambda>ws7. Inr (headers_exit env False ws7))
         else Inr (finish_headers env (calloutStarted w) b s6)) = Inr (st, s')"
    using assms(1) unfolding after_request_handler_def Let_def s4_def b_def s5_def s6_def
    using p [unfolded s5_def b_def s4_def] by simp
  have cs: "calloutState (fl s5) \<noteq> calloutStatePaused"
    using assms(3) by (simp add: s5_def s4_def registerFinalized_def Let_def emit_def)
  have h5: "handoff w (fl s5)"
    using handoff_registerFinalized [OF assms(2), of env]
    by (simp add: s5_def s4_def [symmetric] handoff_def writers_ok_def)
  show ?thesis
  proof (cases "paused \<or> goStarted (fl s6)")
    case True
    then show ?thesis using eq by (auto split: if_splits)
  next
    case False
    then have s6: "fl s6 = fl s5" using p pause_false by (auto simp: s6_def)
    show ?thesis
    proof (cases eos)
      case True
      with False eq obtain w7 s7 where 7: "end_of_request_body env (w, s6) = Inr (w7, s7)"
        and ex: "headers_exit env False (w7, s7) = (st, s')" by (auto simp: obind_eq_Inr)
      have "calloutState (fl s7) \<noteq> calloutStatePaused"
        by (rule end_of_request_body_not_paused [OF 7]) (use s6 cs h5 in simp_all)
      with headers_exit_paused [OF ex] assms(4) show ?thesis by blast
    next
      case notend: False
      with False eq have "finish_headers env (calloutStarted w) b s6 = (st, s')" by simp
      with finish_headers_not_paused [OF this] cs s6 assms(4) show ?thesis by simp
    qed
  qed
qed

lemma headers_prologue:
  assumes "OnRequestHeaders env hs eos s = Inr (st, s')"
  obtains r g w3 s3 where "run_ops env (handler (fl s) r) (request_writer, on_fl (\<lambda>f. user (UHandler r) g) s) = Inr (w3, s3)"
    "after_request_handler env eos (w3, s3) = Inr (st, s')" "events g = events (fl s)"
    "calloutState g = calloutState (fl s)" "writers_ok g = writers_ok (fl s)"
    "requestBodyHandler g = requestBodyHandler (fl s)"
proof -
  define g where "g = (let f1 = (if reqID (fl s) = '''' then (fl s)\<lparr>reqID := hs ''x-request-id''\<rparr> else fl s)
     in if requestBodyHandler f1 \<noteq> None
        then f1\<lparr>requestContentType := hs ''content-type'', requestContentEncoding := hs ''content-encoding''\<rparr> else f1)"
  define r where "r = newRequestWithContext hs (f_name (fl s))"
  have e: "(\<exists>w3 s3. run_ops env (handler (fl s) r) (request_writer, on_fl (\<lambda>f. user (UHandler r) g) s) = Inr (w3, s3) \<and>
      after_request_handler env eos (w3, s3) = Inr (st, s'))"
    using assms by (auto simp: OnRequestHeaders_def Let_def obind_eq_Inr g_def r_def on_fl_def split: if_splits)
  have "events g = events (fl s)" "calloutState g = calloutState (fl s)" "writers_ok g = writers_ok (fl s)"
    "requestBodyHandler g = requestBodyHandler (fl s)"
    by (simp_all add: g_def Let_def writers_ok_def)
  with e that show ?thesis by blast
qed

text \<open>C16. The admission gate. When the request-header callback leaves a callout pending, it answers
  Stop; and as long as the callout is pending, a filter without a body handler holds back every
  body frame and the trailers, and changes nothing.\<close>

theorem pending_callout_holds_request:
  assumes "reachable env s" "calloutState (fl s) \<noteq> calloutStatePaused"
    and "OnRequestHeaders env hs eos s = Inr (st, s')" "calloutState (fl s') = calloutStatePaused"
    and "requestBodyHandler (fl s') = None"
  shows "st = HeadersStatusStop \<and> OnRequestBody env body e s' = Inr (BodyStatusStopAndBuffer, s') \<and>
     OnRequestTrailers (fl s') = TrailersStatusStop"
proof -
  from assms(3) obtain r g w3 s3 where
    run: "run_ops env (handler (fl s) r) (request_writer, on_fl (\<lambda>f. user (UHandler r) g) s) = Inr (w3, s3)"
    and rest: "after_request_handler env eos (w3, s3) = Inr (st, s')"
    and g: "calloutState g = calloutState (fl s)" "writers_ok g = writers_ok (fl s)"
    by (rule headers_prologue)
  have "writers_ok (user (UHandler r) g)"
    using writers_ok_core [OF core_user] g(2) inv_handoff [OF reachable_inv [OF assms(1)]] by blast
  moreover have "calloutState (user (UHandler r) g) \<noteq> calloutStatePaused"
    using core_fields(1) [OF core_user] g(1) assms(2) by simp
  ultimately have "calloutState (fl s3) \<noteq> calloutStatePaused \<and> handoff w3 (fl s3)"
    using run_ops_not_paused [OF run] by simp
  with after_handler_paused [OF rest] assms(4) have "st = HeadersStatusStop" by blast
  then show ?thesis using assms(4,5) by (simp add: OnRequestBody_def OnRequestTrailers_def)
qed

theorem pending_callout_holds_request_witness:
  "OnRequestBody demo_env [''data''] True (demo_paused None) = Inr (BodyStatusStopAndBuffer, demo_paused None) \<and>
   OnRequestTrailers (fl (demo_paused None)) = TrailersStatusStop"
proof -
  have 1: "calloutState (fl (demo_start None)) \<noteq> calloutStatePaused" by code_simp
  have 2: "calloutState (fl (demo_paused None)) = calloutStatePaused" by code_simp
  have 3: "requestBodyHandler (fl (demo_paused None)) = None"
  proof -
    have "Option.is_none (requestBodyHandler (fl (demo_paused None)))" by code_simp
    then show ?thesis by (simp add: Option.is_none_def)
  qed
  from pending_callout_holds_request [OF demo_start_reachable 1 demo_headers 2 3] show ?thesis by blast
qed

definition demo_body_handler :: body_func where
  "demo_body_handler c = []"

text \<open>The gate is only in the branch without a body handler: a filter with a streaming body
  handler lets the body go on, and with it the request, while its admission callout is pending.\<close>

lemma body_handler_releases_pending_request:
  "calloutState (fl (demo_paused (Some demo_body_handler))) = calloutStatePaused \<and>
   calloutFn (fl (demo_paused (Some demo_body_handler))) \<noteq> None \<and>
   (\<exists>s'. OnRequestBody demo_env [''data''] False (demo_paused (Some demo_body_handler)) = Inr (BodyStatusContinue, s'))"
proof -
  let ?r = "OnRequestBody demo_env [''data''] False (demo_paused (Some demo_body_handler))"
  have "calloutState (fl (demo_paused (Some demo_body_handler))) = calloutStatePaused" by code_simp
  moreover have "calloutFn (fl (demo_paused (Some demo_body_handler))) \<noteq> None"
  proof -
    have "\<not> Option.is_none (calloutFn (fl (demo_paused (Some demo_body_handler))))" by code_simp
    then show ?thesis by (simp add: Option.is_none_def)
  qed
  moreover have "\<not> isl ?r" by code_simp
  moreover have "fst (result_or (BodyStatusStopAndBuffer, demo_start None) ?r) = BodyStatusContinue" by code_simp
  ultimately show ?thesis by (cases ?r) (auto simp: result_or_def)
qed

section \<open>Framing of a mutable body\<close>

lemma base_flush [simp]: "base (flush env c f) = base f"
  by (rule core_fields(11) [OF core_flush])

text \<open>The body of the request as Envoy holds it: a callback reads the buffered body if there is one and the current frame
  otherwise, and its \<open>Drain\<close> and \<open>Append\<close> calls change the buffer they name.\<close>

definition request_body_ref :: "envoy \<Rightarrow> http_filter \<Rightarrow> bufref" where
  "request_body_ref env f =
     (case env_buffered_request env (events f) of Some b \<Rightarrow> if buf_size b > 0 then BufferedRequest else CurrentBody | None \<Rightarrow> CurrentBody)"

fun body_step :: "bufref \<Rightarrow> bytes \<Rightarrow> event \<Rightarrow> bytes" where
  "body_step b dat (Handle (CDrain b' n)) = (if b' = b then drop n dat else dat)"
| "body_step b dat (Handle (CAppend b' d)) = (if b' = b then dat @ d else dat)"
| "body_step b dat e = dat"

definition body_after :: "bufref \<Rightarrow> bytes \<Rightarrow> events \<Rightarrow> bytes" where
  "body_after b dat evs = foldl (body_step b) dat evs"

fun touches_body :: "event \<Rightarrow> bool" where
  "touches_body (Handle (CDrain b n)) = True"
| "touches_body (Handle (CAppend b d)) = True"
| "touches_body e = False"

lemma body_untouched: "list_all (\<lambda>e. \<not> touches_body e) evs \<Longrightarrow> body_after b dat evs = dat"
proof (induction evs arbitrary: dat)
  case (Cons e evs)
  then have "body_step b dat e = dat" by (cases "(b, dat, e)" rule: body_step.cases) simp_all
  then show ?case using Cons by (simp add: body_after_def)
qed (simp add: body_after_def)

lemma quiet_untouched: "quiet_event e \<Longrightarrow> \<not> touches_body e"
  by (cases e rule: touches_body.cases) simp_all

lemma queue_untouched: "list_all (\<lambda>e. \<not> touches_body e) (map Handle (queue_calls f))"
proof -
  have "\<not> touches_body (Handle (header_call m))" for m by (simp add: header_call_def)
  moreover have "\<not> touches_body (Handle (gauge_call g))" for g by (cases g rule: gauge_call.cases) simp_all
  ultimately show ?thesis by (auto simp: queue_calls_def list_all_iff split: option.splits)
qed

lemma flush_untouched:
  assumes "\<not> hasRequestBodyReplacement f"
  shows "\<exists>evs. events (flush env False f) = events f @ evs \<and> list_all (\<lambda>e. \<not> touches_body e) evs"
proof (cases "localReply f")
  case None
  then show ?thesis using assms queue_untouched by (auto simp: flush_no_reply flush_calls_def body_calls_def drained_def)
next
  case (Some r)
  then show ?thesis by (auto simp: flush_local_reply)
qed

text \<open>The synchronous end of a mutable body callback, on a body that nothing has touched yet.\<close>

lemma finish_body_length:
  assumes "finish_body env body dat f = (BodyStatusContinue, f')" "bufferBody f" "mutableRequestBody f"
    and buf: "\<forall>evs. list_all (\<lambda>e. \<not> touches_body e) evs \<longrightarrow> env_buffered_request env (events f @ evs) = env_buffered_request env (events f)"
    and dat: "dat = concat (request_body_source env body f)"
  shows "\<exists>evs. events f' = events f @ evs @
      [Handle (CHdrSet RequestHdrs ''content-length'' (Itoa (length (body_after (request_body_ref env f) dat evs))))] \<and>
    list_all (\<lambda>e. touches_body e \<longrightarrow> e = Handle (CDrain (request_body_ref env f) (length dat)) \<or> (\<exists>d. e = Handle (CAppend (request_body_ref env f) d))) evs"
proof (cases "hasRequestBodyReplacement f")
  case True
  let ?d = "requestBodyReplacement f" and ?r = "request_body_ref env f"
  let ?g = "f\<lparr>hasRequestBodyReplacement := False, requestBodyReplacement := []\<rparr>"
  let ?f1 = "flush env False ?g"
  obtain evs where evs: "events ?f1 = events f @ evs" "list_all (\<lambda>e. \<not> touches_body e) evs" using flush_untouched [of ?g env] by auto
  have "env_buffered_request env (events ?f1) = env_buffered_request env (events f)" using buf evs by simp
  then have b: "requestBodyReplacementBuffer env (Some body) ?f1 = Some (?r, length dat)"
    using assms(2) by (auto simp: requestBodyReplacementBuffer_def request_body_ref_def dat request_body_source_def buf_size_def split: option.splits)
  have "f' = emit (replace_calls (?r, length dat) ?d) ?f1"
    using assms True b by (auto simp: finish_body_def Let_def split: if_splits)
  then have "events f' = events f @ (evs @ [Handle (CDrain ?r (length dat)), Handle (CAppend ?r ?d)])
      @ [Handle (CHdrSet RequestHdrs ''content-length'' (Itoa (length ?d)))]"
    by (simp add: replace_calls_def evs)
  moreover have "body_after ?r dat (evs @ [Handle (CDrain ?r (length dat)), Handle (CAppend ?r ?d)]) = ?d"
    using body_untouched [OF evs(2)] by (simp add: body_after_def)
  moreover have "list_all (\<lambda>e. touches_body e \<longrightarrow> e = Handle (CDrain ?r (length dat)) \<or> (\<exists>d. e = Handle (CAppend ?r d)))
      (evs @ [Handle (CDrain ?r (length dat)), Handle (CAppend ?r ?d)])"
    using evs(2) by (auto simp: list_all_iff)
  ultimately show ?thesis by (intro exI [of _ "evs @ [Handle (CDrain ?r (length dat)), Handle (CAppend ?r ?d)]"]) simp
next
  case False
  have "bufferBody (flush env False f)" "mutableRequestBody (flush env False f)"
    using base_fields(1,2) [OF base_flush, of env False f] assms(2,3) by simp_all
  then have f': "f' = emit [CHdrSet RequestHdrs ''content-length'' (Itoa (length dat))] (flush env False f)"
    using assms False by (auto simp: finish_body_def Let_def split: if_splits)
  obtain evs where evs: "events (flush env False f) = events f @ evs" "list_all (\<lambda>e. \<not> touches_body e) evs" using flush_untouched [OF False] by blast
  then have "events f' = events f @ evs @ [Handle (CHdrSet RequestHdrs ''content-length'' (Itoa (length (body_after (request_body_ref env f) dat evs))))]"
    by (simp add: f' body_untouched)
  moreover have "list_all (\<lambda>e. touches_body e \<longrightarrow> e = Handle (CDrain (request_body_ref env f) (length dat)) \<or> (\<exists>d. e = Handle (CAppend (request_body_ref env f) d))) evs"
    using evs(2) by (auto simp: list_all_iff)
  ultimately show ?thesis by blast
qed

text \<open>C22. In mutable buffered mode a body callback that lets the request go on leaves a correct content length. Follow
  the buffer that the callback reads the body from through the calls that the callback makes, its handler and the
  callouts answered inside it included: the last call sets \<open>content-length\<close> to the length of what the buffer then
  holds, whether the handler has replaced the body, with whatever text and however often, or not. No call drains or
  appends to another buffer, and no queued header mutation comes after the last call. Envoy's buffered body is
  taken to change only by \<open>Drain\<close> and \<open>Append\<close> while the callback runs.\<close>

theorem mutable_body_content_length:
  assumes "reachable env s" "requestBodyHandler (fl s) = Some h" "bufferBody (fl s)" "mutableRequestBody (fl s)"
    and buf: "\<forall>evs. list_all (\<lambda>e. \<not> touches_body e) evs \<longrightarrow> env_buffered_request env (events (fl s) @ evs) = env_buffered_request env (events (fl s))"
    and "OnRequestBody env body True s = Inr (BodyStatusContinue, s')"
  defines "b \<equiv> request_body_ref env (fl s)" and "dat \<equiv> concat (request_body_source env body (fl s))"
  shows "\<exists>evs. events (fl s') = events (fl s) @ evs @
      [Handle (CHdrSet RequestHdrs ''content-length'' (Itoa (length (body_after b dat evs))))] \<and>
    list_all (\<lambda>e. touches_body e \<longrightarrow> e = Handle (CDrain b (length dat)) \<or> (\<exists>d. e = Handle (CAppend b d))) evs"
proof -
  define c where "c = request_chunk env body True (fl s)"
  from assms(2,3,6) obtain w s1 where
    run: "run_ops env (h c) (request_writer, on_fl (user (UBody c)) s) = Inr (w, s1)"
    and rest: "body_exit env body (BC_Data c) (w, s1) = (BodyStatusContinue, s')"
    by (auto simp: OnRequestBody_def Let_def obind_eq_Inr c_def)
  have "handoff request_writer (fl (on_fl (user (UBody c)) s))"
    using writers_ok_core [OF core_user] inv_handoff [OF reachable_inv [OF assms(1)]] by simp
  note scr = run_ops_scripted [OF run this]
  then have "base (fl s1) = base (fl s)" by (simp add: scripted_def)
  note b1 = base_fields(1,2) [OF this]
  from scr obtain evs1 where "events (fl s1) = events (fl s) @ User (UBody c) # evs1" "list_all quiet_event evs1"
    by (auto simp: scripted_def extends_def queued_def request_writer_def user_def)
  then obtain evs where evs: "events (fl s1) = events (fl s) @ evs" "list_all (\<lambda>e. \<not> touches_body e) evs"
    using quiet_untouched by (fastforce simp: list_all_iff)
  obtain paused f2 where p: "pausePendingCallout (calloutStarted w) (fl s1) = (paused, f2)" by fastforce
  let ?f = "flushCompletedCallout (calloutStarted w) f2"
  from rest have "\<not> paused" and fb: "finish_body env body (BC_Data c) ?f = (BodyStatusContinue, fl s')"
    by (auto simp: body_exit_def p Let_def split_beta prod_eq_iff split: if_splits)
  then have f2: "f2 = fl s1" using p pause_false [of "calloutStarted w" "fl s1" f2] by simp
  then have fields: "bufferBody ?f" "mutableRequestBody ?f" "events ?f = events (fl s) @ evs"
    using b1 assms(3,4) evs by (simp_all add: flushCompletedCallout_def calloutCAS_def)
  have same: "env_buffered_request env (events ?f) = env_buffered_request env (events (fl s))" using buf evs(2) fields(3) by simp
  have buf': "\<forall>es. list_all (\<lambda>e. \<not> touches_body e) es \<longrightarrow> env_buffered_request env (events ?f @ es) = env_buffered_request env (events ?f)"
    using buf evs(2) unfolding same by (simp add: fields(3))
  have eqs: "request_body_ref env ?f = b" "concat (request_body_source env body ?f) = dat" "BC_Data c = dat"
    using fields(1) assms(3) by (simp_all add: request_body_ref_def request_body_source_def same b_def dat_def c_def request_chunk_def)
  obtain es where es: "events (fl s') = events ?f @ es @ [Handle (CHdrSet RequestHdrs ''content-length'' (Itoa (length (body_after b dat es))))]"
      "list_all (\<lambda>e. touches_body e \<longrightarrow> e = Handle (CDrain b (length dat)) \<or> (\<exists>d. e = Handle (CAppend b d))) es"
    using finish_body_length [OF fb fields(1,2) buf'] unfolding eqs by blast
  have "body_after b dat (evs @ es) = body_after b dat es" using body_untouched [OF evs(2), of b dat] by (simp add: body_after_def)
  then show ?thesis using es fields(3) evs(2) by (intro exI [of _ "evs @ es"]) (auto simp: list_all_iff)
qed

definition demo_mutable :: sys where
  "demo_mutable = on_fl (\<lambda>f. filterFactory_Create 0 \<lparr>ff_name = ''m'', ff_handler = \<lambda>r. [],
      ff_responseHandler = None,
      ff_requestBodyHandler = Some (\<lambda>c. [OpSetRequestBody ''new-body'', OpSetRequestHeader ''content-length'' ''1'']),
      ff_onStreamComplete = False, ff_onStreamFinalized = False, ff_bufferBody = True,
      ff_mutableRequestBody = True, ff_stop = None, ff_logAttrs = [], ff_logMetadataNS = ''''\<rparr>) (demo_start None)"

definition demo_replaced :: sys where
  "demo_replaced = snd (result_or (BodyStatusContinue, demo_start None) (OnRequestBody demo_env [''old''] True demo_mutable))"

theorem mutable_body_content_length_witness:
  "events (fl demo_replaced) =
     [User (UBody (request_chunk demo_env [''old''] True (fl demo_mutable))),
      Handle (CHdrSet RequestHdrs ''content-length'' ''1''), Handle (CDrain CurrentBody 3),
      Handle (CAppend CurrentBody ''new-body''), Handle (CHdrSet RequestHdrs ''content-length'' ''8'')] \<and>
   (\<exists>evs. events (fl demo_replaced) = evs @ [Handle (CHdrSet RequestHdrs ''content-length'' (Itoa (length (body_after CurrentBody ''old'' evs))))])"
proof -
  have 1: "reachable demo_env demo_mutable"
    by (rule reachable.start) (auto simp: stream_start_def demo_mutable_def)
  have "\<not> Option.is_none (requestBodyHandler (fl demo_mutable))" by code_simp
  then obtain h where 2: "requestBodyHandler (fl demo_mutable) = Some h" by (auto simp: Option.is_none_def)
  have 3: "bufferBody (fl demo_mutable)" by code_simp
  have 4: "mutableRequestBody (fl demo_mutable)" by code_simp
  let ?r = "OnRequestBody demo_env [''old''] True demo_mutable"
  have "\<not> isl ?r" "fst (result_or (BodyStatusStopAndBuffer, demo_start None) ?r) = BodyStatusContinue" by code_simp+
  then have 5: "?r = Inr (BodyStatusContinue, demo_replaced)"
    by (cases ?r) (auto simp: demo_replaced_def result_or_def)
  have 6: "\<forall>evs. list_all (\<lambda>e. \<not> touches_body e) evs \<longrightarrow>
      env_buffered_request demo_env (events (fl demo_mutable) @ evs) = env_buffered_request demo_env (events (fl demo_mutable))"
    by (simp add: demo_env_def)
  have 7: "request_body_ref demo_env (fl demo_mutable) = CurrentBody" "events (fl demo_mutable) = []"
      "concat (request_body_source demo_env [''old''] (fl demo_mutable)) = ''old''" by code_simp+
  have "\<exists>evs. events (fl demo_replaced) = evs @ [Handle (CHdrSet RequestHdrs ''content-length'' (Itoa (length (body_after CurrentBody ''old'' evs))))]"
    using mutable_body_content_length [OF 1 2 3 4 6 5] unfolding 7 append_Nil by blast
  moreover have "events (fl demo_replaced) =
     [User (UBody (request_chunk demo_env [''old''] True (fl demo_mutable))),
      Handle (CHdrSet RequestHdrs ''content-length'' ''1''), Handle (CDrain CurrentBody 3),
      Handle (CAppend CurrentBody ''new-body''), Handle (CHdrSet RequestHdrs ''content-length'' ''8'')]" by code_simp
  ultimately show ?thesis by blast
qed

end
