(* ===== verification/Host_Set.thy ===== *)
theory Host_Set
  imports Transit_Prelude
begin

text \<open>
  The published host set of a cluster (\<^verbatim>\<open>src/up/host_set.go\<close>). A Go map is an association list with
  distinct keys here, in the order in which the runtime happens to iterate over it; nothing below
  depends on that order. Envoy's cluster is modelled by the log of calls made on it and of the
  maps published to the worker threads; \<open>add_hosts\<close> is what Envoy answers to \<open>AddHosts\<close>.
\<close>

section \<open>Host specifications\<close>

type_synonym HostPtr = nat

record HostSpec =
  Address :: string
  Hostname :: string
  Weight :: uint32
  Metadata :: "(string \<times> string) list"

record HostEntry =
  Spec :: HostSpec
  Host :: HostPtr

text \<open>Indexing a Go map of strings: the empty string where the key is absent.\<close>

definition go_index :: "(string \<times> string) list \<Rightarrow> string \<Rightarrow> string" where
  "go_index m k = (case map_of m k of Some v \<Rightarrow> v | None \<Rightarrow> '''')"

definition specEqual :: "HostSpec \<Rightarrow> HostSpec \<Rightarrow> bool" where
  "specEqual a b \<longleftrightarrow>
     Address a = Address b \<and> Hostname a = Hostname b \<and> Weight a = Weight b \<and>
     length (Metadata a) = length (Metadata b) \<and>
     list_all (\<lambda>(k, v). go_index (Metadata b) k = v) (Metadata a)"

section \<open>HostSet\<close>

datatype HostHealth = HostUnhealthy | HostDegraded | HostHealthy

datatype 'k host_event =
    EAddHosts "HostSpec list" "HostPtr list"
  | EUpdateHostHealth HostPtr HostHealth
  | EPublish "('k \<times> HostEntry) list"
  | ERemoveHosts "HostPtr list"

type_synonym 'k host_log = "'k host_event list"

record 'k host_set =
  current :: "('k \<times> HostEntry) list"
  hlog :: "'k host_log"

definition NewHostSet :: "'k host_set" where
  "NewHostSet = \<lparr>current = [], hlog = [EPublish []]\<rparr>"

text \<open>The first loop of \<open>Apply\<close>: the entries that are kept, and the keys and specs that are new.\<close>

fun split_snapshot ::
    "('k \<times> HostEntry) list \<Rightarrow> ('k \<times> HostSpec) list \<Rightarrow> ('k \<times> HostEntry) list \<times> ('k \<times> HostSpec) list" where
  "split_snapshot prev [] = ([], [])"
| "split_snapshot prev ((k, spec) # rest) =
     (let (kept, new) = split_snapshot prev rest in
      case map_of prev k of
        Some entry \<Rightarrow> if specEqual (Spec entry) spec then ((k, entry) # kept, new) else (kept, (k, spec) # new)
      | None \<Rightarrow> (kept, (k, spec) # new))"

text \<open>The entries of the newly added hosts: indexing past the answered pointers panics.\<close>

fun new_entries :: "('k \<times> HostSpec) list \<Rightarrow> HostPtr list \<Rightarrow> ('k \<times> HostEntry) list outcome" where
  "new_entries [] ptrs = Inr []"
| "new_entries ((k, spec) # new) [] = Inl (Panic ''runtime error: index out of range'')"
| "new_entries ((k, spec) # new) (p # ptrs) =
     obind (new_entries new ptrs) (\<lambda>es. Inr ((k, \<lparr>Spec = spec, Host = p\<rparr>) # es))"

definition removed_hosts :: "('k \<times> HostEntry) list \<Rightarrow> ('k \<times> HostEntry) list \<Rightarrow> HostPtr list" where
  "removed_hosts prev nxt =
     map (\<lambda>(k, e). Host e)
       (filter (\<lambda>(k, e). case map_of nxt k of None \<Rightarrow> True | Some kept \<Rightarrow> Host kept \<noteq> Host e) prev)"

definition HostSet_Apply ::
    "('k host_log \<Rightarrow> HostSpec list \<Rightarrow> HostPtr list) \<Rightarrow> ('k \<times> HostSpec) list \<Rightarrow> 'k host_set \<Rightarrow> 'k host_set outcome" where
  "HostSet_Apply add_hosts snapshot s =
     (let prev = current s; (kept, new) = split_snapshot prev snapshot in
      obind (if new = [] then Inr ([], hlog s)
             else let ptrs = add_hosts (hlog s) (map snd new)
                  in obind (new_entries new ptrs) (\<lambda>es.
                       Inr (es, hlog s @ EAddHosts (map snd new) ptrs
                                # map (\<lambda>(k, e). EUpdateHostHealth (Host e) HostHealthy) es)))
        (\<lambda>(es, l).
          let nxt = kept @ es; gone = removed_hosts prev nxt
          in Inr \<lparr>current = nxt, hlog = l @ EPublish nxt # (if gone = [] then [] else [ERemoveHosts gone])\<rparr>))"

definition HostSet_Get :: "'k \<Rightarrow> 'k host_set \<Rightarrow> HostPtr option" where
  "HostSet_Get key s = map_option Host (map_of (current s) key)"

definition HostSet_Entry :: "'k \<Rightarrow> 'k host_set \<Rightarrow> HostEntry option" where
  "HostSet_Entry key s = map_of (current s) key"

definition HostSet_Current :: "'k host_set \<Rightarrow> ('k \<times> HostEntry) list" where
  "HostSet_Current s = current s"

section \<open>specEqual\<close>

lemma specEqual_refl: "distinct (map fst (Metadata a)) \<Longrightarrow> specEqual a a"
  by (auto simp: specEqual_def list_all_iff go_index_def)

text \<open>
  Without empty values \<open>specEqual\<close> is equality of the specifications, metadata read as maps. The
  length check together with the inclusion of one map in the other gives equality of the maps.
\<close>

lemma map_of_inclusion_eq:
  assumes "distinct (map fst xs)" "distinct (map fst ys)" "length xs = length ys"
    "\<And>k v. (k, v) \<in> set xs \<Longrightarrow> map_of ys k = Some v"
  shows "map_of xs = map_of ys"
proof -
  have "set xs \<subseteq> set ys" using assms(4) by (auto dest: map_of_SomeD)
  moreover have "card (set xs) = card (set ys)"
    using assms(1-3) by (simp add: distinct_card distinct_map)
  ultimately have "set xs = set ys" by (simp add: card_subset_eq)
  then show ?thesis by (simp add: map_of_inject_set assms)
qed

section \<open>Invariant\<close>

text \<open>
  The hosts alive after a log, that is what \<open>AddHosts\<close> returned less what \<open>RemoveHosts\<close> took away, and
  the hosts a worker can reach, those of the last published map. No pointer dangles if at every
  moment the reachable hosts are alive.
\<close>

fun live_step :: "HostPtr set \<Rightarrow> 'k host_event \<Rightarrow> HostPtr set" where
  "live_step L (EAddHosts specs ptrs) = L \<union> set ptrs"
| "live_step L (ERemoveHosts ptrs) = L - set ptrs"
| "live_step L _ = L"

definition live :: "'k host_log \<Rightarrow> HostPtr set" where
  "live l = foldl live_step {} l"

definition hosts_of :: "('k \<times> HostEntry) list \<Rightarrow> HostPtr set" where
  "hosts_of m = (\<lambda>(k, e). Host e) ` set m"

fun published_step :: "HostPtr set \<Rightarrow> 'k host_event \<Rightarrow> HostPtr set" where
  "published_step P (EPublish m) = hosts_of m"
| "published_step P _ = P"

definition published :: "'k host_log \<Rightarrow> HostPtr set" where
  "published l = foldl published_step {} l"

definition no_dangling :: "'k host_log \<Rightarrow> bool" where
  "no_dangling l \<longleftrightarrow> (\<forall>n. published (take n l) \<subseteq> live (take n l))"

lemma live_append [simp]: "live [] = {}" "live (l @ [e]) = live_step (live l) e"
  by (simp_all add: live_def)

lemma published_append [simp]: "published [] = {}" "published (l @ [e]) = published_step (published l) e"
  by (simp_all add: published_def)

lemma no_dangling_Nil [simp]: "no_dangling []"
  by (simp add: no_dangling_def)

lemma no_dangling_snoc:
  "no_dangling (l @ [e]) \<longleftrightarrow> no_dangling l \<and> published (l @ [e]) \<subseteq> live (l @ [e])"
proof
  assume a: "no_dangling (l @ [e])"
  have "published (take n l) \<subseteq> live (take n l)" for n
    using a [unfolded no_dangling_def, rule_format, of "min n (length l)"] by (simp add: min_def split: if_splits)
  moreover have "published (l @ [e]) \<subseteq> live (l @ [e])"
    using a [unfolded no_dangling_def, rule_format, of "Suc (length l)"] by simp
  ultimately show "no_dangling l \<and> published (l @ [e]) \<subseteq> live (l @ [e])" by (simp add: no_dangling_def)
next
  assume a: "no_dangling l \<and> published (l @ [e]) \<subseteq> live (l @ [e])"
  show "no_dangling (l @ [e])"
    unfolding no_dangling_def
  proof
    fix n
    show "published (take n (l @ [e])) \<subseteq> live (take n (l @ [e]))"
      using a by (cases "n \<le> length l") (auto simp: no_dangling_def)
  qed
qed

definition host_set_ok :: "'k host_set \<Rightarrow> bool" where
  "host_set_ok s \<longleftrightarrow> distinct (map fst (current s)) \<and> distinct (map (\<lambda>(k, e). Host e) (current s)) \<and>
     published (hlog s) = hosts_of (current s) \<and> live (hlog s) = hosts_of (current s) \<and> no_dangling (hlog s)"

text \<open>What \<open>AddHosts\<close> promises: one new pointer per host.\<close>

definition answers_ok :: "HostPtr set \<Rightarrow> HostSpec list \<Rightarrow> HostPtr list \<Rightarrow> bool" where
  "answers_ok L specs ptrs \<longleftrightarrow> length ptrs = length specs \<and> distinct ptrs \<and> set ptrs \<inter> L = {}"

lemma NewHostSet_ok: "host_set_ok NewHostSet"
  by (auto simp: host_set_ok_def NewHostSet_def published_def live_def hosts_of_def no_dangling_def take_Cons split: nat.splits)

section \<open>Apply\<close>

lemma split_snapshot_Cons:
  "split_snapshot prev rest = (kept', new') \<Longrightarrow>
     split_snapshot prev ((k, spec) # rest) = (kept, new) \<Longrightarrow>
     ((\<nexists>e. map_of prev k = Some e \<and> specEqual (Spec e) spec) \<and> kept = kept' \<and> new = (k, spec) # new') \<or>
     (\<exists>e. map_of prev k = Some e \<and> specEqual (Spec e) spec \<and> kept = (k, e) # kept' \<and> new = new')"
  by (auto split: option.splits if_splits)

lemma split_snapshot_keys:
  "split_snapshot prev snap = (kept, new) \<Longrightarrow> fst ` set kept \<union> fst ` set new = fst ` set snap"
proof (induction prev snap arbitrary: kept new rule: split_snapshot.induct)
  case (2 prev k spec rest)
  obtain kept' new' where r: "split_snapshot prev rest = (kept', new')" by fastforce
  show ?case
    using split_snapshot_Cons [OF r "2.prems"] "2.IH" [OF r] by (elim disjE exE conjE) auto
qed simp

lemma split_snapshot_distinct:
  "split_snapshot prev snap = (kept, new) \<Longrightarrow> distinct (map fst snap) \<Longrightarrow>
     distinct (map fst kept @ map fst new)"
proof (induction prev snap arbitrary: kept new rule: split_snapshot.induct)
  case (2 prev k spec rest)
  obtain kept' new' where r: "split_snapshot prev rest = (kept', new')" by fastforce
  have "k \<notin> fst ` set kept'" "k \<notin> fst ` set new'"
    using split_snapshot_keys [OF r] "2.prems"(2) by auto
  then show ?case
    using split_snapshot_Cons [OF r "2.prems"(1)] "2.IH" [OF r] "2.prems"(2)
    by (elim disjE exE conjE) auto
qed simp

lemma split_snapshot_kept:
  "split_snapshot prev snap = (kept, new) \<Longrightarrow> (k, e) \<in> set kept \<Longrightarrow>
     map_of prev k = Some e \<and> (\<exists>spec. (k, spec) \<in> set snap \<and> specEqual (Spec e) spec)"
proof (induction prev snap arbitrary: kept new rule: split_snapshot.induct)
  case (2 prev k' spec rest)
  obtain kept' new' where r: "split_snapshot prev rest = (kept', new')" by fastforce
  show ?case
    using split_snapshot_Cons [OF r "2.prems"(1)] "2.IH" [OF r] "2.prems"(2)
    by (elim disjE exE conjE) auto
qed simp

lemma split_snapshot_new:
  "split_snapshot prev snap = (kept, new) \<Longrightarrow> set new \<subseteq> set snap"
proof (induction prev snap arbitrary: kept new rule: split_snapshot.induct)
  case (2 prev k spec rest)
  obtain kept' new' where r: "split_snapshot prev rest = (kept', new')" by fastforce
  show ?case
    using split_snapshot_Cons [OF r "2.prems"] "2.IH" [OF r] by (elim disjE exE conjE) auto
qed simp

lemma split_snapshot_lookup:
  "split_snapshot prev snap = (kept, new) \<Longrightarrow> distinct (map fst snap) \<Longrightarrow>
     map_of kept k = Option.bind (map_of snap k) (\<lambda>spec. Option.bind (map_of prev k)
       (\<lambda>e. if specEqual (Spec e) spec then Some e else None)) \<and>
     map_of new k = Option.bind (map_of snap k) (\<lambda>spec. case map_of prev k of
       Some e \<Rightarrow> if specEqual (Spec e) spec then None else Some spec | None \<Rightarrow> Some spec)"
proof (induction prev snap arbitrary: kept new rule: split_snapshot.induct)
  case (2 prev k' spec rest)
  obtain kept' new' where r: "split_snapshot prev rest = (kept', new')" by fastforce
  have rest: "map_of rest k' = None" and dist: "distinct (map fst rest)"
    using "2.prems"(2) by (simp_all add: map_of_eq_None_iff)
  note IH = "2.IH" [OF r dist]
  show ?case
  proof (cases "k = k'")
    case True
    then show ?thesis using "2.prems"(1) IH rest by (cases "map_of prev k'") (auto simp: r split: if_splits)
  next
    case False
    then have "map_of kept k = map_of kept' k" "map_of new k = map_of new' k"
      using "2.prems"(1) by (cases "map_of prev k'"; force simp: r split: if_splits)+
    then show ?thesis using IH False by simp
  qed
qed simp

lemma new_entries_ok:
  "length ptrs = length new \<Longrightarrow>
     new_entries new ptrs = Inr (map (\<lambda>((k, spec), p). (k, \<lparr>Spec = spec, Host = p\<rparr>)) (zip new ptrs))"
  by (induction new ptrs rule: new_entries.induct) auto

abbreviation fresh_entries :: "('k \<times> HostSpec) list \<Rightarrow> HostPtr list \<Rightarrow> ('k \<times> HostEntry) list" where
  "fresh_entries new ptrs \<equiv> map (\<lambda>((k, spec), p). (k, \<lparr>Spec = spec, Host = p\<rparr>)) (zip new ptrs)"

lemma fresh_entries_keys: "length ptrs = length new \<Longrightarrow> map fst (fresh_entries new ptrs) = map fst new"
  by (induction new ptrs rule: list_induct2') auto

lemma fresh_entries_hosts: "length ptrs = length new \<Longrightarrow> map (\<lambda>(k, e). Host e) (fresh_entries new ptrs) = ptrs"
  by (induction new ptrs rule: list_induct2') auto

lemma fresh_entries_lookup:
  "length ptrs = length new \<Longrightarrow> map_of new k = Some spec \<Longrightarrow>
     \<exists>p \<in> set ptrs. map_of (fresh_entries new ptrs) k = Some \<lparr>Spec = spec, Host = p\<rparr>"
  by (induction new ptrs rule: list_induct2') (auto split: if_splits)

text \<open>The calls of an \<open>Apply\<close>: hosts are added and marked healthy, the map is published, hosts are removed.\<close>

definition add_calls :: "('k \<times> HostSpec) list \<Rightarrow> HostPtr list \<Rightarrow> 'k host_log" where
  "add_calls new ptrs =
     (if new = [] then [] else EAddHosts (map snd new) ptrs # map (\<lambda>p. EUpdateHostHealth p HostHealthy) ptrs)"

definition remove_calls :: "HostPtr list \<Rightarrow> 'k host_log" where
  "remove_calls gone = (if gone = [] then [] else [ERemoveHosts gone])"

lemma Apply_run:
  assumes "split_snapshot (current s) snap = (kept, new)"
    and "ptrs = (if new = [] then [] else add_hosts (hlog s) (map snd new))"
    and "length ptrs = length new"
  shows "HostSet_Apply add_hosts snap s =
    (let nxt = kept @ fresh_entries new ptrs
     in Inr \<lparr>current = nxt,
             hlog = hlog s @ add_calls new ptrs @ EPublish nxt # remove_calls (removed_hosts (current s) nxt)\<rparr>)"
proof (cases "new = []")
  case False
  have "map (\<lambda>(k, e). EUpdateHostHealth (Host e) HostHealthy) (fresh_entries new ptrs) =
      (map (\<lambda>p. EUpdateHostHealth p HostHealthy) ptrs :: 'a host_log)"
    using assms(3) by (induction new ptrs rule: list_induct2') auto
  then show ?thesis
    using assms False
    by (simp add: HostSet_Apply_def new_entries_ok add_calls_def remove_calls_def Let_def del: map_map)
qed (use assms in \<open>simp add: HostSet_Apply_def add_calls_def remove_calls_def Let_def\<close>)

lemma live_calls [simp]:
  "length ptrs = length new \<Longrightarrow> live (l @ add_calls new ptrs) = live l \<union> set ptrs"
  "live (l @ remove_calls gone) = live l - set gone"
proof -
  have "foldl live_step L (map (\<lambda>p. EUpdateHostHealth p HostHealthy) ps) = L" for L and ps :: "HostPtr list"
    by (induction ps) auto
  then show "length ptrs = length new \<Longrightarrow> live (l @ add_calls new ptrs) = live l \<union> set ptrs"
    "live (l @ remove_calls gone) = live l - set gone"
    by (auto simp: live_def add_calls_def remove_calls_def)
qed

lemma published_calls [simp]:
  "published (l @ add_calls new ptrs) = published l"
  "published (l @ remove_calls gone) = published l"
proof -
  have "foldl published_step L (map (\<lambda>p. EUpdateHostHealth p HostHealthy) ps) = L" for L and ps :: "HostPtr list"
    by (induction ps) auto
  then show "published (l @ add_calls new ptrs) = published l" "published (l @ remove_calls gone) = published l"
    by (auto simp: published_def add_calls_def remove_calls_def)
qed

lemma no_dangling_health:
  "no_dangling (l @ [EAddHosts specs ps']) \<Longrightarrow>
     no_dangling (l @ EAddHosts specs ps' # map (\<lambda>p. EUpdateHostHealth p HostHealthy) ps)"
proof (induction ps rule: rev_induct)
  case (snoc p ps)
  let ?l = "l @ EAddHosts specs ps' # map (\<lambda>p. EUpdateHostHealth p HostHealthy) ps"
  have "no_dangling ?l" using snoc by simp
  moreover have "published ?l \<subseteq> live ?l"
    using \<open>no_dangling ?l\<close> unfolding no_dangling_def by (metis order_refl take_all)
  ultimately have "no_dangling (?l @ [EUpdateHostHealth p HostHealthy])"
    unfolding no_dangling_snoc published_append live_append by simp
  then show ?case by simp
qed simp

lemma no_dangling_add:
  assumes "no_dangling l"
  shows "no_dangling (l @ add_calls new ptrs)"
proof (cases "new = []")
  case False
  have "published l \<subseteq> live l" using assms unfolding no_dangling_def by (metis order_refl take_all)
  then have "no_dangling (l @ [EAddHosts (map snd new) ptrs])"
    using assms by (auto simp: no_dangling_snoc)
  then show ?thesis using False no_dangling_health by (simp add: add_calls_def)
qed (use assms in \<open>simp add: add_calls_def\<close>)

lemma no_dangling_remove:
  "no_dangling l \<Longrightarrow> published l \<subseteq> live l - set gone \<Longrightarrow> no_dangling (l @ remove_calls gone)"
  by (auto simp: remove_calls_def no_dangling_snoc)

text \<open>The hosts that \<open>Apply\<close> removes are those that are not in the map it published.\<close>

lemma removed_hosts_set:
  assumes "distinct (map (\<lambda>(k, e). Host e) prev)"
    and kept: "\<And>k e. (k, e) \<in> set kept \<Longrightarrow> map_of prev k = Some e"
    and "distinct (map fst (kept @ es))" "hosts_of es \<inter> hosts_of prev = {}" "distinct (map fst prev)"
  shows "set (removed_hosts prev (kept @ es)) = hosts_of prev - hosts_of kept"
proof -
  let ?gone = "\<lambda>(k, e). case map_of (kept @ es) k of None \<Rightarrow> True | Some kept \<Rightarrow> Host kept \<noteq> Host e"
  have "?gone (k, e) \<longleftrightarrow> (k, e) \<notin> set kept" if "(k, e) \<in> set prev" for k e
  proof (cases "map_of (kept @ es) k")
    case None
    then have "(k, e) \<notin> set kept" by (force simp: map_add_None map_of_eq_None_iff)
    then show ?thesis using None by (simp del: map_of_append)
  next
    case (Some e')
    then have e': "(k, e') \<in> set kept \<or> (k, e') \<in> set es" by (auto dest: map_of_SomeD)
    have "(k, e') \<in> set es \<Longrightarrow> Host e' \<noteq> Host e"
      using that assms(4) by (force simp: disjoint_iff hosts_of_def)
    moreover have "(k, e') \<in> set kept \<Longrightarrow> e' = e"
      using kept that assms(5) by (metis map_of_is_SomeI option.inject)
    moreover have "(k, e) \<in> set kept \<Longrightarrow> e' = e"
      using map_of_is_SomeI [OF assms(3), of k e] Some by simp
    ultimately show ?thesis using Some e' by auto
  qed
  then have "set (filter ?gone prev) = set prev - set kept" by auto
  moreover have "set kept \<subseteq> set prev" using kept by (auto dest: map_of_SomeD)
  moreover have "inj_on (\<lambda>(k, e). Host e) (set prev)" using assms(1) by (simp add: distinct_map)
  ultimately show ?thesis
    by (simp add: removed_hosts_def hosts_of_def inj_on_image_set_diff del: set_filter)
qed

text \<open>The log of an \<open>Apply\<close> that keeps the hosts \<open>K\<close> of the published ones.\<close>

lemma apply_log_ok:
  assumes l: "no_dangling l" "live l = P" "published l = P"
    and "length ptrs = length new" "set ptrs \<inter> P = {}" "hosts_of nxt = K \<union> set ptrs" "K \<subseteq> P" "set gone = P - K"
    and l': "l' = l @ add_calls new ptrs @ EPublish nxt # remove_calls gone"
  shows "live l' = hosts_of nxt \<and> published l' = hosts_of nxt \<and> no_dangling l'"
proof -
  let ?l = "(l @ add_calls new ptrs) @ [EPublish nxt]"
  have l'': "l' = ?l @ remove_calls gone" using l' by simp
  have live: "live ?l = P \<union> set ptrs" and pub: "published ?l = hosts_of nxt"
    unfolding live_append published_append using assms by simp_all
  have eq: "P \<union> set ptrs - set gone = hosts_of nxt" using assms by auto
  have "no_dangling ?l"
    unfolding no_dangling_snoc using no_dangling_add [OF l(1)] live pub assms by auto
  then have "no_dangling l'" unfolding l'' by (rule no_dangling_remove) (use live pub eq in simp)
  then show ?thesis unfolding l'' live_calls published_calls live pub eq by simp
qed

text \<open>One \<open>Apply\<close>, from a consistent host set and with an Envoy that answers one new pointer per host.\<close>

lemma Apply_ok:
  assumes ok: "host_set_ok s" and snap: "distinct (map fst snap)"
    and ans: "\<And>specs. answers_ok (live (hlog s)) specs (add_hosts (hlog s) specs)"
    and split: "split_snapshot (current s) snap = (kept, new)"
    and ptrs: "ptrs = (if new = [] then [] else add_hosts (hlog s) (map snd new))"
  shows "\<exists>s'. HostSet_Apply add_hosts snap s = Inr s' \<and> host_set_ok s' \<and> current s' = kept @ fresh_entries new ptrs"
proof -
  let ?es = "fresh_entries new ptrs" and ?gone = "removed_hosts (current s) (kept @ fresh_entries new ptrs)"
  have len: "length ptrs = length new" and dist: "distinct ptrs" and fresh: "set ptrs \<inter> live (hlog s) = {}"
    using ans [of "map snd new"] ptrs by (auto simp: answers_ok_def)
  obtain s' where s': "HostSet_Apply add_hosts snap s = Inr s'" "current s' = kept @ ?es"
      "hlog s' = hlog s @ add_calls new ptrs @ EPublish (kept @ ?es) # remove_calls ?gone"
    by (rule that [OF Apply_run [of s snap kept new ptrs add_hosts, OF split ptrs len, unfolded Let_def]]) simp_all
  have cur: "distinct (map fst (current s))" "distinct (map (\<lambda>(k, e). Host e) (current s))"
    "live (hlog s) = hosts_of (current s)" "published (hlog s) = hosts_of (current s)" "no_dangling (hlog s)"
    using ok by (auto simp: host_set_ok_def)
  have kept: "map_of (current s) k = Some e" if "(k, e) \<in> set kept" for k e
    using split_snapshot_kept [OF split that] by simp
  have sub: "set kept \<subseteq> set (current s)" using kept by (auto dest: map_of_SomeD)
  have es: "hosts_of ?es = set ptrs" unfolding hosts_of_def set_map [symmetric] fresh_entries_hosts [OF len] ..
  have nxt: "hosts_of (kept @ ?es) = hosts_of kept \<union> set ptrs" using es by (simp add: hosts_of_def image_Un)
  have "map fst (kept @ ?es) = map fst kept @ map fst new"
    unfolding map_append fresh_entries_keys [OF len] ..
  then have keys: "distinct (map fst (kept @ ?es))" using split_snapshot_distinct [OF split snap] by simp
  have gone: "set ?gone = hosts_of (current s) - hosts_of kept"
    using removed_hosts_set [OF cur(2) kept keys _ cur(1)] fresh cur(3) es by simp
  have log: "live (hlog s') = hosts_of (kept @ ?es) \<and> published (hlog s') = hosts_of (kept @ ?es) \<and> no_dangling (hlog s')"
    using apply_log_ok [OF cur(5,3,4) len _ nxt _ gone s'(3)] fresh cur(3) sub by (simp add: hosts_of_def image_mono)
  have "distinct (map (\<lambda>(k, e). Host e) kept)"
    using keys cur(2) sub by (auto simp: distinct_map intro: inj_on_subset)
  moreover have "hosts_of kept \<subseteq> hosts_of (current s)" using sub by (simp add: hosts_of_def image_mono)
  then have "hosts_of kept \<inter> set ptrs = {}" using fresh cur(3) by auto
  ultimately have "distinct (map (\<lambda>(k, e). Host e) (kept @ ?es))"
    unfolding map_append fresh_entries_hosts [OF len] using dist by (simp add: hosts_of_def)
  then show ?thesis using s' log keys by (simp add: host_set_ok_def)
qed

section \<open>Properties\<close>

lemma Apply_entries:
  assumes "host_set_ok s" and snap: "distinct (map fst snap)"
    and ans: "\<And>specs. answers_ok (live (hlog s)) specs (add_hosts (hlog s) specs)"
    and run: "HostSet_Apply add_hosts snap s = Inr s'"
  shows "HostSet_Entry k s' = None \<longleftrightarrow> map_of snap k = None"
    and "map_of snap k = Some spec \<Longrightarrow> HostSet_Entry k s = Some e \<Longrightarrow> specEqual (Spec e) spec \<Longrightarrow>
           HostSet_Entry k s' = Some e"
    and "map_of snap k = Some spec \<Longrightarrow> \<forall>e. HostSet_Entry k s = Some e \<longrightarrow> \<not> specEqual (Spec e) spec \<Longrightarrow>
           \<exists>p. p \<notin> live (hlog s) \<and> HostSet_Entry k s' = Some \<lparr>Spec = spec, Host = p\<rparr>"
proof -
  obtain kept new where split: "split_snapshot (current s) snap = (kept, new)" by fastforce
  define ptrs where ptrs: "ptrs = (if new = [] then [] else add_hosts (hlog s) (map snd new))"
  have len: "length ptrs = length new" and fresh: "set ptrs \<inter> live (hlog s) = {}"
    using ans [of "map snd new"] ptrs by (auto simp: answers_ok_def)
  have cur: "current s' = kept @ fresh_entries new ptrs"
    using Apply_ok [of s snap add_hosts, OF assms(1) snap ans split ptrs] run by auto
  note lookup = split_snapshot_lookup [OF split snap, of k]
  have es: "map_of (fresh_entries new ptrs) k = None" if "map_of new k = None"
    using that fresh_entries_keys [OF len] by (simp add: map_of_eq_None_iff flip: set_map)
  show "HostSet_Entry k s' = None \<longleftrightarrow> map_of snap k = None"
    using lookup es fresh_entries_lookup [OF len, of k]
    by (cases "map_of snap k"; cases "map_of (current s) k")
      (auto simp: HostSet_Entry_def cur map_add_None split: if_splits)
  show "HostSet_Entry k s' = Some e"
    if "map_of snap k = Some spec" "HostSet_Entry k s = Some e" "specEqual (Spec e) spec"
    using lookup that by (auto simp: HostSet_Entry_def cur)
  show "\<exists>p. p \<notin> live (hlog s) \<and> HostSet_Entry k s' = Some \<lparr>Spec = spec, Host = p\<rparr>"
    if "map_of snap k = Some spec" "\<forall>e. HostSet_Entry k s = Some e \<longrightarrow> \<not> specEqual (Spec e) spec"
    using lookup that fresh fresh_entries_lookup [OF len, of k spec]
    by (cases "map_of (current s) k") (auto simp: HostSet_Entry_def cur map_add_def)
qed

text \<open>C4. From a consistent host set, and with an Envoy that answers one new pointer per added host,
  \<open>Apply\<close> returns; at every moment of the call the published map holds only live hosts, afterwards
  the live hosts are exactly the published ones (nothing leaks, nothing dangles), and the map is the
  snapshot: absent keys are gone, an unchanged spec keeps its pointer, a new or changed one has a new pointer.\<close>

theorem apply_is_consistent:
  assumes "host_set_ok s" "distinct (map fst snap)"
    and "\<And>specs. answers_ok (live (hlog s)) specs (add_hosts (hlog s) specs)"
  shows "\<exists>s'. HostSet_Apply add_hosts snap s = Inr s' \<and> host_set_ok s' \<and>
    (\<forall>k. case map_of snap k of
       None \<Rightarrow> HostSet_Entry k s' = None
     | Some spec \<Rightarrow>
         if case HostSet_Entry k s of None \<Rightarrow> False | Some e \<Rightarrow> specEqual (Spec e) spec
         then HostSet_Entry k s' = HostSet_Entry k s
         else \<exists>p. p \<notin> live (hlog s) \<and> HostSet_Entry k s' = Some \<lparr>Spec = spec, Host = p\<rparr>)"
proof -
  obtain kept new where split: "split_snapshot (current s) snap = (kept, new)" by fastforce
  obtain s' where s': "HostSet_Apply add_hosts snap s = Inr s'" "host_set_ok s'"
    using Apply_ok [of s snap add_hosts, OF assms split refl] by blast
  note entries = Apply_entries [of s snap add_hosts, OF assms s'(1)]
  show ?thesis
    using s' entries by (intro exI [of _ s'] conjI allI) (auto split: option.splits)
qed

definition demo_spec :: "string \<Rightarrow> HostSpec" where
  "demo_spec a = \<lparr>Address = a, Hostname = '''', Weight = 1, Metadata = []\<rparr>"

text \<open>An Envoy that numbers new hosts above all live ones.\<close>

definition demo_add_hosts :: "string host_log \<Rightarrow> HostSpec list \<Rightarrow> HostPtr list" where
  "demo_add_hosts l specs = map (\<lambda>i. i + Suc (Max (live l \<union> {0}))) [0..<length specs]"

lemma finite_live [simp]: "finite (live l)"
proof (induction l rule: rev_induct)
  case (snoc e l)
  then show ?case by (cases e) simp_all
qed simp

lemma demo_answers_ok: "answers_ok (live l) specs (demo_add_hosts l specs)"
proof -
  have "x \<notin> live l" if "Suc (Max (live l \<union> {0})) \<le> x" for x
    by (metis Max_ge UnI1 finite.emptyI finite.insertI finite_UnI finite_live not_less_eq_eq that)
  then show ?thesis by (auto simp: answers_ok_def demo_add_hosts_def distinct_map inj_on_def)
qed

theorem apply_is_consistent_witness:
  "\<exists>s'. HostSet_Apply demo_add_hosts [(''a'', demo_spec ''10.0.0.1:80'')] NewHostSet = Inr s' \<and> host_set_ok s' \<and>
     (\<exists>p. HostSet_Entry ''a'' s' = Some \<lparr>Spec = demo_spec ''10.0.0.1:80'', Host = p\<rparr>)"
proof -
  have "HostSet_Entry ''a'' (NewHostSet :: string host_set) = None"
    by (simp add: HostSet_Entry_def NewHostSet_def)
  then show ?thesis
    using apply_is_consistent [of NewHostSet "[(''a'', demo_spec ''10.0.0.1:80'')]" demo_add_hosts,
        OF NewHostSet_ok _ demo_answers_ok]
    by (auto dest!: spec [of _ "''a''"])
qed

text \<open>Two specifications with no empty metadata value are \<open>specEqual\<close> exactly if they agree in
  every field, the metadata compared as maps: the length check and the one-sided lookup of the code suffice.\<close>

lemma specEqual_is_equality:
  assumes "distinct (map fst (Metadata a))" "distinct (map fst (Metadata b))"
    and "\<forall>(k, v) \<in> set (Metadata a). v \<noteq> ''''"
  shows "specEqual a b \<longleftrightarrow>
    Address a = Address b \<and> Hostname a = Hostname b \<and> Weight a = Weight b \<and> map_of (Metadata a) = map_of (Metadata b)"
proof -
  have "length (Metadata a) = length (Metadata b)" if "map_of (Metadata a) = map_of (Metadata b)"
    using assms(1,2) that by (metis distinct_card distinct_map length_map map_of_inject_set)
  moreover have "map_of (Metadata b) k = Some v \<longleftrightarrow> go_index (Metadata b) k = v"
    if "(k, v) \<in> set (Metadata a)" for k v
    using assms(3) that by (fastforce simp: go_index_def split: option.splits)
  ultimately show ?thesis
    using map_of_inclusion_eq [OF assms(1,2)] map_of_is_SomeI [OF assms(1)]
    unfolding specEqual_def list_all_iff by fastforce
qed

lemma specEqual_is_equality_example:
  "specEqual \<lparr>Address = ''a'', Hostname = ''h'', Weight = 1, Metadata = [(''x'', ''1''), (''y'', ''2'')]\<rparr>
     \<lparr>Address = ''a'', Hostname = ''h'', Weight = 1, Metadata = [(''y'', ''2''), (''x'', ''1'')]\<rparr>"
  by (subst specEqual_is_equality) (auto simp: fun_eq_iff)

text \<open>With empty metadata values the comparison fails: a changed metadata key whose value is empty
  counts as unchanged, so \<open>Apply\<close> keeps the host that Envoy bound to the old metadata and adds none.\<close>

lemma specEqual_confuses_empty_values:
  "HostSet_Apply add_hosts [(k, \<lparr>Address = a, Hostname = h, Weight = w, Metadata = [(''new'', '''')]\<rparr>)]
     \<lparr>current = [(k, \<lparr>Spec = \<lparr>Address = a, Hostname = h, Weight = w, Metadata = [(''old'', '''')]\<rparr>, Host = p\<rparr>)], hlog = l\<rparr> =
   Inr \<lparr>current = [(k, \<lparr>Spec = \<lparr>Address = a, Hostname = h, Weight = w, Metadata = [(''old'', '''')]\<rparr>, Host = p\<rparr>)],
        hlog = l @ [EPublish [(k, \<lparr>Spec = \<lparr>Address = a, Hostname = h, Weight = w, Metadata = [(''old'', '''')]\<rparr>, Host = p\<rparr>)]]\<rparr>"
  by (simp add: HostSet_Apply_def specEqual_def go_index_def removed_hosts_def Let_def)

end
