(* ===== verification/Host_Refresh.thy ===== *)
theory Host_Refresh
  imports Host_Set
begin

text \<open>
  The refresh loop of a host set (\<^verbatim>\<open>src/up/host_refresh_loop.go\<close>). The ticker goroutine, the
  callers of \<open>RefreshOnce\<close> and \<open>Stop\<close>, and the cluster's main thread interleave: an operation is
  split where it leaves the mutex, so a state also holds the closures that a goroutine is about to
  pass to \<open>Schedule\<close> (\<open>committing\<close>) and those Envoy has queued for the main thread (\<open>scheduled\<close>).
  Durations are signed 64-bit nanoseconds, read as integers; the clock and the random generator
  are arguments.
\<close>

section \<open>Data\<close>

record HostRefreshEvent =
  Duration :: int
  Added :: nat
  Removed :: nat
  Unchanged :: nat
  Err :: "string option"

text \<open>The closures that are passed to \<open>Schedule\<close>; a number names the \<open>done\<close> channel they close.\<close>

datatype 'k closure =
    ApplyTick "('k \<times> HostSpec) list" int
  | ApplyOnce "('k \<times> HostSpec) list" int nat
  | ObserveTick HostRefreshEvent
  | ObserveOnce HostRefreshEvent nat

record 'k refresh_loop =
  hset :: "'k host_set"
  interval :: int
  timeout :: int
  jitter :: int
  observe :: bool
  pending :: bool
  closed :: bool
  committing :: "'k closure list"
  scheduled :: "'k closure list"
  observed :: "HostRefreshEvent list"
  done_chans :: "nat list"
  stopped :: bool

definition DefaultRefreshInterval :: int where "DefaultRefreshInterval = 30 * Second"
definition DefaultRefreshTimeout :: int where "DefaultRefreshTimeout = Second"

definition NewHostRefreshLoop :: "'k host_set \<Rightarrow> int \<Rightarrow> int \<Rightarrow> int \<Rightarrow> bool \<Rightarrow> 'k refresh_loop" where
  "NewHostRefreshLoop s opt_interval opt_timeout opt_jitter opt_observe =
     \<lparr>hset = s,
      interval = (if opt_interval \<le> 0 then DefaultRefreshInterval else opt_interval),
      timeout = (if opt_timeout \<le> 0 then DefaultRefreshTimeout else opt_timeout),
      jitter = opt_jitter, observe = opt_observe, pending = False, closed = False,
      committing = [], scheduled = [], observed = [], done_chans = [], stopped = False\<rparr>"

section \<open>Tick interval\<close>

text \<open>
  Arithmetic on \<open>time.Duration\<close> wraps at 64 bits. \<open>rand.Int64N\<close> panics unless its argument is
  positive; \<open>rnd\<close> is the generator.
\<close>

definition Int64N :: "(int \<Rightarrow> int) \<Rightarrow> int \<Rightarrow> int outcome" where
  "Int64N rnd n = (if n \<le> 0 then Inl (Panic ''invalid argument to Int64N'') else Inr (rnd n))"

definition tickInterval :: "(int \<Rightarrow> int) \<Rightarrow> 'k refresh_loop \<Rightarrow> int outcome" where
  "tickInterval rnd l =
     (if jitter l = 0 then Inr (interval l)
      else obind (Int64N rnd (int64 (2 * jitter l + 1))) (\<lambda>r.
        let d = int64 (interval l + int64 (r - jitter l))
        in Inr (if d \<le> 0 then Millisecond else d)))"

section \<open>Counting the changes\<close>

fun count_desired ::
    "('k \<times> HostEntry) list \<Rightarrow> ('k \<times> HostEntry) list \<Rightarrow> ('k \<times> HostSpec) list \<Rightarrow> nat \<times> nat" where
  "count_desired prev nxt [] = (0, 0)"
| "count_desired prev nxt ((k, spec) # desired) =
     (let (added, unchanged) = count_desired prev nxt desired in
      case (map_of prev k, map_of nxt k) of
        (None, Some ne) \<Rightarrow> (Suc added, unchanged)
      | (Some pe, Some ne) \<Rightarrow> if Host ne = Host pe then (added, Suc unchanged) else (Suc added, unchanged)
      | (_, None) \<Rightarrow> (added, unchanged))"

definition diffCounts ::
    "('k \<times> HostEntry) list \<Rightarrow> ('k \<times> HostEntry) list \<Rightarrow> ('k \<times> HostSpec) list \<Rightarrow> nat \<times> nat \<times> nat" where
  "diffCounts prev nxt desired =
     (let (added, unchanged) = count_desired prev nxt desired
      in (added, length (filter (\<lambda>(k, e). map_of nxt k = None) prev), unchanged))"

section \<open>The scheduled closures\<close>

definition apply_observe ::
    "('k host_log \<Rightarrow> HostSpec list \<Rightarrow> HostPtr list) \<Rightarrow> int \<Rightarrow> ('k \<times> HostSpec) list \<Rightarrow> int
      \<Rightarrow> 'k refresh_loop \<Rightarrow> 'k refresh_loop outcome" where
  "apply_observe add_hosts now snap st l =
     (let prev = HostSet_Current (hset l) in
      obind (HostSet_Apply add_hosts snap (hset l)) (\<lambda>s.
        let l = l\<lparr>hset := s\<rparr> in
        if observe l then
          let nxt = HostSet_Current (hset l); (added, removed, unchanged) = diffCounts prev nxt snap
          in Inr (l\<lparr>observed := observed l @ [\<lparr>Duration = int64 (now - st), Added = added, Removed = removed,
                                               Unchanged = unchanged, Err = None\<rparr>]\<rparr>)
        else Inr l))"

fun run_closure ::
    "('k host_log \<Rightarrow> HostSpec list \<Rightarrow> HostPtr list) \<Rightarrow> int \<Rightarrow> 'k closure \<Rightarrow> 'k refresh_loop \<Rightarrow> 'k refresh_loop outcome" where
  "run_closure add_hosts now (ApplyTick snap st) l =
     (let l = l\<lparr>pending := False\<rparr> in if closed l then Inr l else apply_observe add_hosts now snap st l)"
| "run_closure add_hosts now (ApplyOnce snap st ch) l =
     obind (if closed l then Inr l else apply_observe add_hosts now snap st l)
       (\<lambda>l. Inr (l\<lparr>done_chans := ch # done_chans l\<rparr>))"
| "run_closure add_hosts now (ObserveTick event) l =
     Inr (if closed l then l else l\<lparr>observed := observed l @ [event]\<rparr>)"
| "run_closure add_hosts now (ObserveOnce event ch) l =
     (let l = (if closed l then l else l\<lparr>observed := observed l @ [event]\<rparr>)
      in Inr (l\<lparr>done_chans := ch # done_chans l\<rparr>))"

section \<open>fetchAndSchedule, RefreshOnce and Stop\<close>

definition error_event :: "int \<Rightarrow> int \<Rightarrow> string \<Rightarrow> HostRefreshEvent" where
  "error_event now st e = \<lparr>Duration = int64 (now - st), Added = 0, Removed = 0, Unchanged = 0, Err = Some e\<rparr>"

text \<open>
  After the fetch: the error or the snapshot, and the closure that the goroutine then passes to
  \<open>Schedule\<close>.
\<close>

fun fetchAndSchedule ::
    "int \<Rightarrow> int \<Rightarrow> string + ('k \<times> HostSpec) list \<Rightarrow> 'k refresh_loop \<Rightarrow> 'k refresh_loop" where
  "fetchAndSchedule now st (Inl e) l =
     (if observe l then l\<lparr>committing := committing l @ [ObserveTick (error_event now st e)]\<rparr> else l)"
| "fetchAndSchedule now st (Inr snap) l =
     (if pending l \<or> closed l then l
      else l\<lparr>pending := True, committing := committing l @ [ApplyTick snap st]\<rparr>)"

fun RefreshOnce_fetched ::
    "int \<Rightarrow> int \<Rightarrow> nat \<Rightarrow> string + ('k \<times> HostSpec) list \<Rightarrow> 'k refresh_loop \<Rightarrow> 'k refresh_loop" where
  "RefreshOnce_fetched now st ch (Inl e) l =
     (if observe l then l\<lparr>committing := committing l @ [ObserveOnce (error_event now st e) ch]\<rparr> else l)"
| "RefreshOnce_fetched now st ch (Inr snap) l =
     l\<lparr>committing := committing l @ [ApplyOnce snap st ch]\<rparr>"

text \<open>
  What \<open>RefreshOnce\<close> can return: it waits for the channel of its closure or for its context; if both
  are ready the select takes either (\<open>pick_done\<close>). \<open>None\<close> while it is blocked.
\<close>

fun RefreshOnce_return ::
    "nat \<Rightarrow> string + ('k \<times> HostSpec) list \<Rightarrow> string option \<Rightarrow> bool \<Rightarrow> 'k refresh_loop \<Rightarrow> string option option" where
  "RefreshOnce_return ch (Inl e) ctx_err pick_done l =
     (if \<not> observe l \<or> ch \<in> set (done_chans l) \<or> ctx_err \<noteq> None then Some (Some e) else None)"
| "RefreshOnce_return ch (Inr snap) ctx_err pick_done l =
     (if ch \<in> set (done_chans l) \<and> (ctx_err = None \<or> pick_done) then Some None
      else map_option Some ctx_err)"

definition Schedule_closure :: "nat \<Rightarrow> 'k refresh_loop \<Rightarrow> 'k refresh_loop" where
  "Schedule_closure i l =
     (if i < length (committing l)
      then l\<lparr>committing := take i (committing l) @ drop (Suc i) (committing l),
             scheduled := scheduled l @ [committing l ! i]\<rparr>
      else l)"

definition run_scheduled ::
    "('k host_log \<Rightarrow> HostSpec list \<Rightarrow> HostPtr list) \<Rightarrow> int \<Rightarrow> 'k refresh_loop \<Rightarrow> 'k refresh_loop outcome" where
  "run_scheduled add_hosts now l =
     (case scheduled l of [] \<Rightarrow> Inr l | c # cs \<Rightarrow> run_closure add_hosts now c (l\<lparr>scheduled := cs\<rparr>))"

definition Stop_begin :: "'k refresh_loop \<Rightarrow> 'k refresh_loop" where
  "Stop_begin l = l\<lparr>closed := True\<rparr>"

fun of_ticker :: "'k closure \<Rightarrow> bool" where
  "of_ticker (ApplyTick _ _) = True"
| "of_ticker (ObserveTick _) = True"
| "of_ticker _ = False"

text \<open>\<open>Stop\<close> returns once the ticker goroutine is gone, which then passes nothing to \<open>Schedule\<close> any more.\<close>

definition Stop_return :: "'k refresh_loop \<Rightarrow> 'k refresh_loop option" where
  "Stop_return l = (if closed l \<and> \<not> list_ex of_ticker (committing l) then Some (l\<lparr>stopped := True\<rparr>) else None)"

section \<open>Interleavings\<close>

text \<open>
  The ticker fetches until \<open>Stop\<close> has returned. A snapshot is a Go map, so its keys are distinct.
  The main thread runs the scheduled closures in the order in which they were committed.
\<close>

fun snapshot_ok :: "string + ('k \<times> HostSpec) list \<Rightarrow> bool" where
  "snapshot_ok (Inl e) = True"
| "snapshot_ok (Inr snap) = distinct (map fst snap)"

inductive refresh_step ::
    "('k host_log \<Rightarrow> HostSpec list \<Rightarrow> HostPtr list) \<Rightarrow> 'k refresh_loop \<Rightarrow> 'k refresh_loop \<Rightarrow> bool"
  for add_hosts where
  tick: "\<not> stopped l \<Longrightarrow> snapshot_ok res \<Longrightarrow> refresh_step add_hosts l (fetchAndSchedule now st res l)"
| once: "snapshot_ok res \<Longrightarrow> refresh_step add_hosts l (RefreshOnce_fetched now st ch res l)"
| commit: "refresh_step add_hosts l (Schedule_closure i l)"
| run: "run_scheduled add_hosts now l = Inr l' \<Longrightarrow> refresh_step add_hosts l l'"
| stop: "refresh_step add_hosts l (Stop_begin l)"
| stop_return: "Stop_return l = Some l' \<Longrightarrow> refresh_step add_hosts l l'"

inductive refresh_run ::
    "('k host_log \<Rightarrow> HostSpec list \<Rightarrow> HostPtr list) \<Rightarrow> 'k refresh_loop \<Rightarrow> 'k refresh_loop \<Rightarrow> bool"
  for add_hosts where
  none: "refresh_run add_hosts l l"
| more: "refresh_run add_hosts l l' \<Longrightarrow> refresh_step add_hosts l' l'' \<Longrightarrow> refresh_run add_hosts l l''"

fun is_tick :: "'k closure \<Rightarrow> bool" where
  "is_tick (ApplyTick _ _) = True"
| "is_tick _ = False"

fun closure_ok :: "'k closure \<Rightarrow> bool" where
  "closure_ok (ApplyTick snap _) = distinct (map fst snap)"
| "closure_ok (ApplyOnce snap _ _) = distinct (map fst snap)"
| "closure_ok _ = True"

abbreviation ticks :: "'k refresh_loop \<Rightarrow> nat" where
  "ticks l \<equiv> length (filter is_tick (committing l)) + length (filter is_tick (scheduled l))"

definition loop_inv :: "'k refresh_loop \<Rightarrow> bool" where
  "loop_inv l \<longleftrightarrow> ticks l = of_bool (pending l) \<and>
     list_all closure_ok (committing l) \<and> list_all closure_ok (scheduled l) \<and> host_set_ok (hset l) \<and>
     (stopped l \<longrightarrow> closed l)"

text \<open>An Envoy that answers every \<open>AddHosts\<close> with one new pointer per host.\<close>

definition envoy_ok :: "('k host_log \<Rightarrow> HostSpec list \<Rightarrow> HostPtr list) \<Rightarrow> bool" where
  "envoy_ok add_hosts \<longleftrightarrow> (\<forall>l specs. answers_ok (live l) specs (add_hosts l specs))"

lemma Apply_total:
  assumes "envoy_ok add_hosts" "host_set_ok s" "distinct (map fst snap)"
  obtains s' where "HostSet_Apply add_hosts snap s = Inr s'" "host_set_ok s'"
    "fst ` set (current s') = fst ` set snap"
proof -
  have ans: "\<And>specs. answers_ok (live (hlog s)) specs (add_hosts (hlog s) specs)"
    using assms(1) by (simp add: envoy_ok_def)
  obtain kept new where split: "split_snapshot (current s) snap = (kept, new)" by fastforce
  obtain s' where s': "HostSet_Apply add_hosts snap s = Inr s'" "host_set_ok s'"
    using Apply_ok [of s snap add_hosts, OF assms(2,3) ans split refl] by blast
  have "HostSet_Entry k s' = None \<longleftrightarrow> map_of snap k = None" for k
    using Apply_entries(1) [of s snap add_hosts, OF assms(2,3) ans s'(1)] .
  then have "fst ` set (current s') = fst ` set snap"
    by (simp add: set_eq_iff HostSet_Entry_def map_of_eq_None_iff)
  then show thesis using that s' by blast
qed

lemma apply_observe_total:
  assumes "envoy_ok add_hosts" "host_set_ok (hset l)" "distinct (map fst snap)"
  obtains s' obs where "apply_observe add_hosts now snap st l = Inr (l\<lparr>hset := s', observed := obs\<rparr>)"
    "host_set_ok s'" "fst ` set (current s') = fst ` set snap"
proof -
  obtain s' where s': "HostSet_Apply add_hosts snap (hset l) = Inr s'" "host_set_ok s'"
      "fst ` set (current s') = fst ` set snap"
    using Apply_total [OF assms] .
  have "\<exists>obs. apply_observe add_hosts now snap st l = Inr (l\<lparr>hset := s', observed := obs\<rparr>)"
    using s'(1) by (auto simp: apply_observe_def Let_def split_beta intro: exI [of _ "observed l"])
  then show thesis using that s' by blast
qed

lemma run_closure_total:
  assumes "envoy_ok add_hosts" "host_set_ok (hset l)" "closure_ok c"
  shows "\<exists>s' obs chs. run_closure add_hosts now c l =
       Inr (l\<lparr>hset := s', observed := obs, done_chans := chs, pending := pending l \<and> \<not> is_tick c\<rparr>) \<and>
     host_set_ok s' \<and> (\<not> closed l \<longrightarrow> (\<forall>snap st ch. c = ApplyTick snap st \<or> c = ApplyOnce snap st ch \<longrightarrow>
       fst ` set (current s') = fst ` set snap))"
proof (cases "closed l")
  case True
  then show ?thesis
    using assms(2)
    by (intro exI [of _ "hset l"] exI [of _ "observed l"]
        exI [of _ "case c of ApplyOnce _ _ ch \<Rightarrow> ch # done_chans l | ObserveOnce _ ch \<Rightarrow> ch # done_chans l
          | _ \<Rightarrow> done_chans l"]) (cases c; simp)
next
  case False
  show ?thesis
  proof (cases c)
    case (ApplyTick snap st)
    obtain s' obs where "apply_observe add_hosts now snap st (l\<lparr>pending := False\<rparr>) =
        Inr ((l\<lparr>pending := False\<rparr>)\<lparr>hset := s', observed := obs\<rparr>)" "host_set_ok s'"
        "fst ` set (current s') = fst ` set snap"
      by (rule apply_observe_total [OF assms(1), of "l\<lparr>pending := False\<rparr>" snap now st])
        (use assms ApplyTick in auto)
    then show ?thesis
      using False ApplyTick by (intro exI [of _ s'] exI [of _ obs] exI [of _ "done_chans l"]) simp
  next
    case (ApplyOnce snap st ch)
    obtain s' obs where "apply_observe add_hosts now snap st l = Inr (l\<lparr>hset := s', observed := obs\<rparr>)"
        "host_set_ok s'" "fst ` set (current s') = fst ` set snap"
      by (rule apply_observe_total [OF assms(1,2), of snap now st]) (use assms ApplyOnce in auto)
    then show ?thesis
      using False ApplyOnce by (intro exI [of _ s'] exI [of _ obs] exI [of _ "ch # done_chans l"]) simp
  next
    case (ObserveTick ev)
    then show ?thesis
      using False assms(2)
      by (intro exI [of _ "hset l"] exI [of _ "observed l @ [ev]"] exI [of _ "done_chans l"]) simp
  next
    case (ObserveOnce ev ch)
    then show ?thesis
      using False assms(2)
      by (intro exI [of _ "hset l"] exI [of _ "observed l @ [ev]"] exI [of _ "ch # done_chans l"]) simp
  qed
qed

lemma filter_remove_nth:
  "i < length xs \<Longrightarrow>
     length (filter P (take i xs @ drop (Suc i) xs)) + of_bool (P (xs ! i)) = length (filter P xs)"
  by (subst (3) id_take_nth_drop) auto

lemma list_all_take_drop: "list_all P xs \<Longrightarrow> list_all P (take i xs @ drop j xs)"
  by (auto simp: list_all_iff dest: in_set_takeD in_set_dropD)

lemma fetch_inv: "loop_inv l \<Longrightarrow> snapshot_ok res \<Longrightarrow> loop_inv (fetchAndSchedule now st res l)"
  by (cases res) (auto simp: loop_inv_def)

lemma once_inv: "loop_inv l \<Longrightarrow> snapshot_ok res \<Longrightarrow> loop_inv (RefreshOnce_fetched now st ch res l)"
  by (cases res) (auto simp: loop_inv_def)

lemma commit_inv: "loop_inv l \<Longrightarrow> loop_inv (Schedule_closure i l)"
proof (cases "i < length (committing l)")
  case True
  assume inv: "loop_inv l"
  then have "closure_ok (committing l ! i)" using True by (simp add: loop_inv_def list_all_length)
  moreover have "list_all closure_ok (take i (committing l) @ drop (Suc i) (committing l))"
    using inv by (intro list_all_take_drop) (simp add: loop_inv_def)
  moreover have "ticks (Schedule_closure i l) = ticks l"
    using filter_remove_nth [OF True, of is_tick] True by (auto simp: Schedule_closure_def)
  ultimately show ?thesis
    using inv True by (simp add: loop_inv_def Schedule_closure_def)
qed (simp add: Schedule_closure_def)

lemma stop_inv:
  "loop_inv l \<Longrightarrow> loop_inv (Stop_begin l)"
  "loop_inv l \<Longrightarrow> Stop_return l = Some l' \<Longrightarrow> loop_inv l'"
  by (auto simp: loop_inv_def Stop_begin_def Stop_return_def split: if_splits)

lemma run_inv:
  assumes "envoy_ok add_hosts" "loop_inv l"
  shows "\<exists>l'. run_scheduled add_hosts now l = Inr l' \<and> loop_inv l'"
proof (cases "scheduled l")
  case Nil
  then show ?thesis using assms by (simp add: run_scheduled_def)
next
  case (Cons c cs)
  have inv: "host_set_ok (hset (l\<lparr>scheduled := cs\<rparr>))" "closure_ok c"
    using assms(2) Cons by (auto simp: loop_inv_def)
  obtain s' obs chs where r: "run_closure add_hosts now c (l\<lparr>scheduled := cs\<rparr>) = Inr (l\<lparr>scheduled := cs, hset := s',
      observed := obs, done_chans := chs, pending := pending l \<and> \<not> is_tick c\<rparr>)" "host_set_ok s'"
    using run_closure_total [OF assms(1) inv, of now] by auto
  have "loop_inv (l\<lparr>scheduled := cs, hset := s', observed := obs, done_chans := chs, pending := pending l \<and> \<not> is_tick c\<rparr>)"
    using assms(2) Cons r(2) by (cases "is_tick c"; cases "pending l") (auto simp: loop_inv_def)
  then show ?thesis using r(1) Cons by (simp add: run_scheduled_def)
qed

lemma step_inv: "refresh_step add_hosts l l' \<Longrightarrow> envoy_ok add_hosts \<Longrightarrow> loop_inv l \<Longrightarrow> loop_inv l'"
proof (induction rule: refresh_step.induct)
  case (run now l l')
  then show ?case using run_inv [of add_hosts l now] by auto
qed (auto intro: fetch_inv once_inv commit_inv stop_inv)

lemma run_loop_inv: "refresh_run add_hosts l l' \<Longrightarrow> envoy_ok add_hosts \<Longrightarrow> loop_inv l \<Longrightarrow> loop_inv l'"
  by (induction rule: refresh_run.induct) (auto intro: step_inv)

lemma new_loop_inv: "loop_inv (NewHostRefreshLoop NewHostSet i t j ob)"
  by (simp add: loop_inv_def NewHostRefreshLoop_def NewHostSet_ok)
text \<open>Once \<open>Stop\<close> has set \<open>closed\<close>, no step applies a snapshot or calls the observer.\<close>

lemma closed_step:
  "refresh_step add_hosts l l' \<Longrightarrow> closed l \<Longrightarrow> closed l' \<and> hset l' = hset l \<and> observed l' = observed l"
proof (induction rule: refresh_step.induct)
  case (tick l res now st)
  then show ?case by (cases res) auto
next
  case (once res l now st ch)
  then show ?case by (cases res) auto
next
  case (run now l l')
  then show ?case
    by (auto simp: run_scheduled_def split: list.splits elim!: run_closure.elims)
qed (auto simp: Schedule_closure_def Stop_begin_def Stop_return_def split: if_splits)

lemma closed_run:
  "refresh_run add_hosts l l' \<Longrightarrow> closed l \<Longrightarrow> closed l' \<and> hset l' = hset l \<and> observed l' = observed l"
  by (induction rule: refresh_run.induct) (auto dest: closed_step)

section \<open>Properties\<close>

text \<open>C11. In every interleaving of ticks, fetches, commits, main-thread runs, \<open>RefreshOnce\<close> and \<open>Stop\<close>,
  at most one tick apply is under way and \<open>pending\<close> says exactly whether there is one; the host set
  stays consistent, and running the next scheduled closure never panics.\<close>

theorem refresh_coalesces_and_never_panics:
  assumes "envoy_ok add_hosts" "refresh_run add_hosts (NewHostRefreshLoop NewHostSet i t j ob) l"
  shows "ticks l = of_bool (pending l) \<and> host_set_ok (hset l) \<and>
    (\<exists>l'. run_scheduled add_hosts now l = Inr l' \<and> host_set_ok (hset l'))"
proof -
  have inv: "loop_inv l" using run_loop_inv [OF assms(2,1) new_loop_inv] .
  then obtain l' where "run_scheduled add_hosts now l = Inr l'" "loop_inv l'"
    using run_inv [OF assms(1)] by blast
  then show ?thesis using inv by (simp add: loop_inv_def)
qed

lemma demo_envoy_ok: "envoy_ok demo_add_hosts"
  by (simp add: envoy_ok_def demo_answers_ok)

theorem refresh_coalesces_and_never_panics_witness:
  "\<exists>l'. run_scheduled demo_add_hosts 9
     (Schedule_closure 0 (fetchAndSchedule 5 0 (Inr [(''a'', demo_spec ''10.0.0.1:80'')])
       (NewHostRefreshLoop NewHostSet 0 0 0 True))) = Inr l' \<and> host_set_ok (hset l')"
proof -
  let ?l0 = "NewHostRefreshLoop NewHostSet 0 0 0 True"
  let ?l1 = "fetchAndSchedule 5 0 (Inr [(''a'', demo_spec ''10.0.0.1:80'')]) ?l0"
  have "refresh_step demo_add_hosts ?l0 ?l1"
    by (rule refresh_step.tick) (simp_all add: NewHostRefreshLoop_def)
  then have "refresh_run demo_add_hosts ?l0 (Schedule_closure 0 ?l1)"
    by (rule refresh_run.more [OF refresh_run.more [OF refresh_run.none] refresh_step.commit])
  from refresh_coalesces_and_never_panics [OF demo_envoy_ok this] show ?thesis by blast
qed

text \<open>After \<open>Stop\<close> has marked the loop closed, no snapshot is applied and no event is observed any
  more, whatever closures are still scheduled and whatever fetches still finish.\<close>

lemma stop_is_final:
  assumes "refresh_run add_hosts (Stop_begin l) l'"
  shows "closed l' \<and> hset l' = hset l \<and> observed l' = observed l"
  using closed_run [OF assms] by (simp add: Stop_begin_def)

lemma stop_is_final_example:
  "\<exists>l'. run_scheduled demo_add_hosts 9
     (Stop_begin (Schedule_closure 0 (fetchAndSchedule 5 0 (Inr [(''a'', demo_spec ''10.0.0.1:80'')])
       (NewHostRefreshLoop NewHostSet 0 0 0 True)))) = Inr l' \<and> hset l' = NewHostSet"
proof -
  let ?l = "Schedule_closure 0 (fetchAndSchedule 5 0 (Inr [(''a'', demo_spec ''10.0.0.1:80'')])
       (NewHostRefreshLoop NewHostSet 0 0 0 True))"
  obtain l' where l': "run_scheduled demo_add_hosts 9 (Stop_begin ?l) = Inr l'"
    by (simp add: run_scheduled_def Stop_begin_def Schedule_closure_def NewHostRefreshLoop_def Let_def)
  have "refresh_run demo_add_hosts (Stop_begin ?l) l'"
    using refresh_run.more [OF refresh_run.none refresh_step.run [OF l']] .
  from stop_is_final [OF this] have "hset l' = hset ?l" by simp
  then show ?thesis using l' by (simp add: Schedule_closure_def NewHostRefreshLoop_def)
qed

text \<open>\<open>Stop\<close> can return while an apply is still queued on the main thread: it does not wait for
  applies that were scheduled but have not begun.\<close>

lemma stop_leaves_scheduled_apply:
  "\<exists>l'. Stop_return (Stop_begin (Schedule_closure 0 (fetchAndSchedule now st (Inr snap)
       (NewHostRefreshLoop s i t j ob)))) = Some l' \<and> stopped l' \<and> pending l' \<and> scheduled l' = [ApplyTick snap st]"
  by (simp add: Stop_return_def Stop_begin_def Schedule_closure_def NewHostRefreshLoop_def)

subsection \<open>Counts\<close>

abbreviation unchanged_in :: "('k \<times> HostEntry) list \<Rightarrow> 'k \<times> HostSpec \<Rightarrow> bool" where
  "unchanged_in prev p \<equiv> (case map_of prev (fst p) of None \<Rightarrow> False | Some e \<Rightarrow> specEqual (Spec e) (snd p))"

lemma count_desired_eq:
  assumes "\<And>k spec. (k, spec) \<in> set snap \<Longrightarrow> \<exists>ne. map_of nxt k = Some ne \<and>
      (case map_of prev k of None \<Rightarrow> True | Some pe \<Rightarrow> Host ne = Host pe \<longleftrightarrow> specEqual (Spec pe) spec)"
  shows "count_desired prev nxt snap =
    (length (filter (\<lambda>p. \<not> unchanged_in prev p) snap), length (filter (unchanged_in prev) snap))"
  using assms
proof (induction prev nxt snap rule: count_desired.induct)
  case (2 prev nxt k spec desired)
  obtain ne where ne: "map_of nxt k = Some ne"
      "case map_of prev k of None \<Rightarrow> True | Some pe \<Rightarrow> Host ne = Host pe \<longleftrightarrow> specEqual (Spec pe) spec"
    using "2.prems" [of k spec] by auto
  have "count_desired prev nxt desired =
      (length (filter (\<lambda>p. \<not> unchanged_in prev p) desired), length (filter (unchanged_in prev) desired))"
    by (rule "2.IH") (use "2.prems" in simp)
  then show ?case using ne by (cases "map_of prev k") auto
qed simp

text \<open>After an \<open>Apply\<close> the counts of the event are those of the snapshot: \<open>Unchanged\<close> counts its
  keys whose spec equals the published one, \<open>Added\<close> all its other keys, \<open>Removed\<close> the published keys it lacks.\<close>

lemma diffCounts_after_apply:
  assumes "envoy_ok add_hosts" "host_set_ok s" "distinct (map fst snap)" "HostSet_Apply add_hosts snap s = Inr s'"
  shows "diffCounts (current s) (current s') snap =
    (length (filter (\<lambda>p. \<not> unchanged_in (current s) p) snap),
     length (filter (\<lambda>(k, e). map_of snap k = None) (current s)),
     length (filter (unchanged_in (current s)) snap))"
proof -
  have ans: "\<And>specs. answers_ok (live (hlog s)) specs (add_hosts (hlog s) specs)"
    using assms(1) by (simp add: envoy_ok_def)
  note entries = Apply_entries [of s snap add_hosts, OF assms(2,3) ans assms(4), unfolded HostSet_Entry_def]
  have alive: "Host e \<in> live (hlog s)" if "map_of (current s) k = Some e" for k e
    using that assms(2) by (force simp: host_set_ok_def hosts_of_def dest: map_of_SomeD)
  have "\<exists>ne. map_of (current s') k = Some ne \<and>
      (case map_of (current s) k of None \<Rightarrow> True | Some pe \<Rightarrow> Host ne = Host pe \<longleftrightarrow> specEqual (Spec pe) spec)"
    if "(k, spec) \<in> set snap" for k spec
  proof -
    have m: "map_of snap k = Some spec" using that assms(3) by simp
    show ?thesis
    proof (cases "\<exists>e. map_of (current s) k = Some e \<and> specEqual (Spec e) spec")
      case True
      then show ?thesis using entries(2) [OF m] by auto
    next
      case False
      then obtain p where "p \<notin> live (hlog s)" "map_of (current s') k = Some \<lparr>Spec = spec, Host = p\<rparr>"
        using entries(3) [OF m] by auto
      then show ?thesis using False alive [of k] by (auto split: option.splits)
    qed
  qed
  then have "count_desired (current s) (current s') snap =
      (length (filter (\<lambda>p. \<not> unchanged_in (current s) p) snap), length (filter (unchanged_in (current s)) snap))"
    by (rule count_desired_eq)
  then show ?thesis using entries(1) by (simp add: diffCounts_def Let_def)
qed

lemma diffCounts_after_apply_example:
  "\<exists>s'. HostSet_Apply demo_add_hosts [(''a'', demo_spec ''10.0.0.1:80'')] NewHostSet = Inr s' \<and>
     diffCounts (current NewHostSet) (current s') [(''a'', demo_spec ''10.0.0.1:80'')] = (1, 0, 0)"
proof -
  obtain s' where "HostSet_Apply demo_add_hosts [(''a'', demo_spec ''10.0.0.1:80'')] NewHostSet = Inr s'"
    by (rule Apply_total [OF demo_envoy_ok NewHostSet_ok, of "[(''a'', demo_spec ''10.0.0.1:80'')]"]) simp_all
  then show ?thesis
    using diffCounts_after_apply [OF demo_envoy_ok NewHostSet_ok] by (auto simp: NewHostSet_def)
qed

subsection \<open>Jitter\<close>

text \<open>With a positive interval, a jitter that is not negative, and no overflow, the next tick is
  positive and within the jitter of the interval, or the floor of one millisecond where that would not be positive.\<close>

lemma tickInterval_bounds:
  assumes "0 < interval l" "0 \<le> jitter l" "interval l + jitter l < 2 ^ 63" "2 * jitter l + 1 < 2 ^ 63"
    and "\<And>n. 0 < n \<Longrightarrow> 0 \<le> rnd n \<and> rnd n < n"
  shows "\<exists>d. tickInterval rnd l = Inr d \<and> 0 < d \<and>
    (interval l - jitter l \<le> d \<and> d \<le> interval l + jitter l \<or> interval l \<le> jitter l \<and> d = Millisecond)"
proof (cases "jitter l = 0")
  case False
  let ?r = "rnd (2 * jitter l + 1)"
  have r: "0 \<le> ?r" "?r \<le> 2 * jitter l" using assms(2) assms(5) [of "2 * jitter l + 1"] by auto
  have eqs: "int64 (2 * jitter l + 1) = 2 * jitter l + 1" "int64 (?r - jitter l) = ?r - jitter l"
    "int64 (interval l + (?r - jitter l)) = interval l + (?r - jitter l)"
    using assms r by (intro int64_id; linarith)+
  then show ?thesis
    using assms(1,2) r False by (auto simp: tickInterval_def Int64N_def Let_def eqs Millisecond_def)
qed (use assms in \<open>simp add: tickInterval_def\<close>)

lemma tickInterval_bounds_example:
  "\<exists>d. tickInterval (\<lambda>n. n - 1) (NewHostRefreshLoop (NewHostSet :: string host_set) 0 0 1000 False) = Inr d \<and>
     30000000000 - 1000 \<le> d \<and> d \<le> 30000000000 + 1000"
  using tickInterval_bounds [of "NewHostRefreshLoop (NewHostSet :: string host_set) 0 0 1000 False" "\<lambda>n. n - 1"]
  by (auto simp: NewHostRefreshLoop_def DefaultRefreshInterval_def Second_def)

text \<open>A negative jitter makes the computation of the first tick panic; the goroutine of the loop ends there.\<close>

lemma negative_jitter_panics:
  assumes "jitter l < 0" "- (2 ^ 62) \<le> jitter l"
  shows "tickInterval rnd l = Inl (Panic ''invalid argument to Int64N'')"
proof -
  have "int64 (2 * jitter l + 1) = 2 * jitter l + 1" using assms by (intro int64_id) simp_all
  then show ?thesis using assms by (simp add: tickInterval_def Int64N_def)
qed

lemma negative_jitter_panics_example:
  "tickInterval (\<lambda>n. 0) (NewHostRefreshLoop (NewHostSet :: string host_set) 0 0 (- 5) False) = Inl (Panic ''invalid argument to Int64N'')"
  by (rule negative_jitter_panics) (simp_all add: NewHostRefreshLoop_def)

end
