(* ===== verification/Cluster_Handle.thy ===== *)
theory Cluster_Handle
  imports Host_Set
begin

text \<open>
  The cluster's handle on Envoy (\<open>clusterHandleImpl\<close> in \<^verbatim>\<open>src/down/abi_impl/cluster.go\<close>): the arrays that
  \<open>AddHosts\<close> builds for the C call, and the table of functions scheduled on the main thread. A module
  buffer is the string it views. The C calls are logged; what they answer is an argument.
\<close>

section \<open>AddHosts and RemoveHosts\<close>

record add_hosts_call =
  addrs :: "string list"
  hostnames :: "string list"
  weights :: "uint32 list"
  localities :: "string list"
  metas :: "string list option"
  pairs_per_host :: nat
  host_count :: nat

definition match_namespace :: string where
  "match_namespace = ''envoy.transport_socket_match''"

fun max_pairs :: "nat \<Rightarrow> HostSpec list \<Rightarrow> nat" where
  "max_pairs m [] = m"
| "max_pairs m (s # specs) = max_pairs (if length (Metadata s) > m then length (Metadata s) else m) specs"

text \<open>The loop over one host's metadata: the triple of the \<open>j\<close>-th pair goes to its three slots.\<close>

fun fill_pairs :: "nat \<Rightarrow> nat \<Rightarrow> nat \<Rightarrow> (string \<times> string) list \<Rightarrow> string list \<Rightarrow> string list" where
  "fill_pairs maxPairs i j [] buf = buf"
| "fill_pairs maxPairs i j ((k, v) # kvs) buf =
     (let base = (i * maxPairs + j) * 3
      in fill_pairs maxPairs i (Suc j) kvs (buf[base := match_namespace, base + 1 := k, base + 2 := v]))"

fun fill_hosts :: "nat \<Rightarrow> nat \<Rightarrow> HostSpec list \<Rightarrow> string list \<Rightarrow> string list" where
  "fill_hosts maxPairs i [] buf = buf"
| "fill_hosts maxPairs i (s # specs) buf =
     fill_hosts maxPairs (Suc i) specs (fill_pairs maxPairs i 0 (Metadata s) buf)"

definition metadata_buffers :: "HostSpec list \<Rightarrow> string list option" where
  "metadata_buffers specs =
     (let n = length specs; maxPairs = max_pairs 0 specs
      in if maxPairs > 0 then Some (fill_hosts maxPairs 0 specs (replicate (n * maxPairs * 3) '''')) else None)"

definition AddHosts_call :: "HostSpec list \<Rightarrow> add_hosts_call" where
  "AddHosts_call specs =
     \<lparr>addrs = map Address specs,
      hostnames = map Hostname specs,
      weights = map (\<lambda>s. if Weight s = 0 then 1 else Weight s) specs,
      localities = replicate (length specs) '''',
      metas = metadata_buffers specs,
      pairs_per_host = max_pairs 0 specs,
      host_count = length specs\<rparr>"

text \<open>
  \<open>results\<close> is what the C call writes into the zeroed result array: at most one pointer per host; the
  null pointers left there are handed out as well.
\<close>

definition AddHosts :: "(add_hosts_call \<Rightarrow> HostPtr list) \<Rightarrow> HostSpec list \<Rightarrow> HostPtr list" where
  "AddHosts results specs =
     (let n = length specs
      in if n = 0 then [] else let r = results (AddHosts_call specs) in take n (r @ replicate n 0))"

definition RemoveHosts :: "HostPtr list \<Rightarrow> HostPtr list option" where
  "RemoveHosts hosts = (if hosts = [] then None else Some hosts)"

section \<open>The metadata layout\<close>

definition host_block :: "nat \<Rightarrow> HostSpec \<Rightarrow> string list" where
  "host_block maxPairs s =
     concat (map (\<lambda>(k, v). [match_namespace, k, v]) (Metadata s)) @
     replicate (3 * (maxPairs - length (Metadata s))) ''''"

lemma length_triples [simp]: "length (concat (map (\<lambda>(k, v). [a, k, v]) kvs)) = 3 * length kvs"
  by (induction kvs) auto

lemma length_host_block: "length (Metadata s) \<le> m \<Longrightarrow> length (host_block m s) = 3 * m"
  by (simp add: host_block_def)

lemma length_blocks:
  "\<forall>s\<in>set specs. length (Metadata s) \<le> m \<Longrightarrow> length (concat (map (host_block m) specs)) = length specs * (3 * m)"
  by (induction specs) (simp_all add: length_host_block)

lemma max_pairs_ge: "m \<le> max_pairs m specs \<and> (\<forall>s\<in>set specs. length (Metadata s) \<le> max_pairs m specs)"
proof (induction specs arbitrary: m)
  case (Cons s specs)
  show ?case
    using Cons.IH [of "if length (Metadata s) > m then length (Metadata s) else m"] by (auto split: if_splits)
qed simp

lemma update_three:
  "buf = pre @ a # b # c # post \<Longrightarrow> i = length pre \<Longrightarrow>
     buf[i := x, i + 1 := y, i + 2 := z] = pre @ x # y # z # post"
  by (simp add: list_update_append)

lemma fill_pairs_eq:
  "length pre = (i * m + j) * 3 \<Longrightarrow>
     fill_pairs m i j kvs (pre @ replicate (3 * length kvs) '''' @ post) =
     pre @ concat (map (\<lambda>(k, v). [match_namespace, k, v]) kvs) @ post"
proof (induction kvs arbitrary: j pre)
  case (Cons kv kvs)
  obtain k v where kv: "kv = (k, v)" by (cases kv)
  let ?pre = "pre @ [match_namespace, k, v]"
  have "3 * length (kv # kvs) = Suc (Suc (Suc (3 * length kvs)))" by simp
  then have buf: "pre @ replicate (3 * length (kv # kvs)) '''' @ post =
      pre @ '''' # '''' # '''' # replicate (3 * length kvs) '''' @ post"
    by (simp only: replicate_Suc append_Cons)
  have "fill_pairs m i (Suc j) kvs (?pre @ replicate (3 * length kvs) '''' @ post) =
      ?pre @ concat (map (\<lambda>(k, v). [match_namespace, k, v]) kvs) @ post"
    by (rule Cons.IH) (use Cons.prems in simp)
  then show ?case
    using Cons.prems unfolding kv fill_pairs.simps Let_def buf [unfolded kv]
    by (subst update_three [OF refl]) simp_all
qed simp

lemma fill_hosts_eq:
  "\<forall>s\<in>set specs. length (Metadata s) \<le> m \<Longrightarrow> length pre = i * m * 3 \<Longrightarrow>
     fill_hosts m i specs (pre @ replicate (length specs * m * 3) '''') =
     pre @ concat (map (host_block m) specs)"
proof (induction specs arbitrary: i pre)
  case (Cons s specs)
  have len: "length (Metadata s) \<le> m" using Cons.prems by simp
  have "length (s # specs) * m * 3 = 3 * length (Metadata s) + (3 * (m - length (Metadata s)) + length specs * m * 3)"
    using len by (simp add: algebra_simps)
  then have buf: "pre @ replicate (length (s # specs) * m * 3) '''' =
      pre @ replicate (3 * length (Metadata s)) '''' @
        (replicate (3 * (m - length (Metadata s))) '''' @ replicate (length specs * m * 3) '''')"
    by (simp only: replicate_add)
  have "fill_hosts m (Suc i) specs ((pre @ host_block m s) @ replicate (length specs * m * 3) '''') =
      (pre @ host_block m s) @ concat (map (host_block m) specs)"
    by (rule Cons.IH) (use Cons.prems len in \<open>simp_all add: length_host_block\<close>)
  then show ?case
    unfolding fill_hosts.simps buf using Cons.prems(2)
    by (subst fill_pairs_eq) (simp_all add: host_block_def)
qed simp

text \<open>What Envoy reads of the array: the triples of host \<open>i\<close>, less those with an empty filter name.\<close>

fun triples :: "string list \<Rightarrow> (string \<times> string \<times> string) list" where
  "triples (f # k # v # rest) = (f, k, v) # triples rest"
| "triples _ = []"

definition read_triples :: "string list \<Rightarrow> (string \<times> string) list" where
  "read_triples b = map (\<lambda>(f, k, v). (k, v)) (filter (\<lambda>(f, k, v). f \<noteq> '''') (triples b))"

definition read_host :: "nat \<Rightarrow> string list \<Rightarrow> nat \<Rightarrow> (string \<times> string) list" where
  "read_host m buf i = read_triples (take (3 * m) (drop (i * (3 * m)) buf))"

lemma triples_block:
  "triples (concat (map (\<lambda>(k, v). [f, k, v]) kvs) @ rest) = map (\<lambda>(k, v). (f, k, v)) kvs @ triples rest"
  by (induction kvs) auto

lemma triples_padding: "filter (\<lambda>(f, k, v). f \<noteq> '''') (triples (replicate (3 * n) '''')) = []"
proof (induction n)
  case (Suc n)
  have "3 * Suc n = Suc (Suc (Suc (3 * n)))" by simp
  then show ?case using Suc by (simp only: replicate_Suc triples.simps filter.simps) simp
qed simp

lemma read_block: "read_triples (host_block m s) = Metadata s"
  unfolding read_triples_def host_block_def triples_block filter_append map_append triples_padding
  by (simp add: match_namespace_def comp_def split_beta filter_map)

lemma block_of_concat:
  "i < length xs \<Longrightarrow> \<forall>x\<in>set xs. length (f x) = n \<Longrightarrow> take n (drop (i * n) (concat (map f xs))) = f (xs ! i)"
proof (induction xs arbitrary: i)
  case (Cons x xs)
  then show ?case by (cases i) simp_all
qed simp

section \<open>Scheduling on the main thread\<close>

text \<open>
  \<open>scheduler\<close> says whether the Envoy scheduler exists; \<open>commits\<close> is Envoy's queue of committed event
  ids, which come back one at a time through \<open>on_cluster_scheduled\<close>.
\<close>

record 'f cluster_handle =
  scheduler :: bool
  nextID :: uint64
  pendingFns :: "uint64 \<rightharpoonup> 'f"
  commits :: "uint64 list"

definition newClusterHandle :: "'f cluster_handle" where
  "newClusterHandle = \<lparr>scheduler = False, nextID = 0, pendingFns = Map.empty, commits = []\<rparr>"

definition handle_destroy :: "'f cluster_handle \<Rightarrow> 'f cluster_handle" where
  "handle_destroy h = (if scheduler h then h\<lparr>scheduler := False\<rparr> else h)"

definition Schedule :: "'f \<Rightarrow> 'f cluster_handle \<Rightarrow> 'f cluster_handle" where
  "Schedule fn h =
     (let h = (if scheduler h then h else h\<lparr>scheduler := True\<rparr>);
          i = nextID h;
          h = h\<lparr>nextID := nextID h + 1, pendingFns := (pendingFns h)(i \<mapsto> fn)\<rparr>
      in h\<lparr>commits := commits h @ [i]\<rparr>)"

text \<open>The function to call, if there is one, and the handle without it.\<close>

definition runPending :: "uint64 \<Rightarrow> 'f cluster_handle \<Rightarrow> 'f option \<times> 'f cluster_handle" where
  "runPending i h = (pendingFns h i, h\<lparr>pendingFns := (pendingFns h)(i := None)\<rparr>)"

text \<open>Envoy delivers the oldest committed event.\<close>

definition run_next :: "'f cluster_handle \<Rightarrow> 'f option \<times> 'f cluster_handle" where
  "run_next h = (case commits h of [] \<Rightarrow> (None, h) | i # is \<Rightarrow> runPending i (h\<lparr>commits := is\<rparr>))"

definition handle_ok :: "'f cluster_handle \<Rightarrow> bool" where
  "handle_ok h \<longleftrightarrow> distinct (commits h) \<and> set (commits h) = dom (pendingFns h)"

text \<open>The next id is not one of a function that is still waiting.\<close>

definition handle_room :: "'f cluster_handle \<Rightarrow> bool" where
  "handle_room h \<longleftrightarrow> pendingFns h (nextID h) = None"

definition queue_of :: "'f cluster_handle \<Rightarrow> 'f list" where
  "queue_of h = map (\<lambda>i. the (pendingFns h i)) (commits h)"

subsection \<open>The contract\<close>

locale main_thread =
  fixes ok :: "'s \<Rightarrow> bool"
    and room :: "'s \<Rightarrow> bool"
    and queue :: "'s \<Rightarrow> 'f list"
    and schedule :: "'f \<Rightarrow> 's \<Rightarrow> 's"
    and next_fn :: "'s \<Rightarrow> 'f option \<times> 's"
  assumes schedule_queue: "ok s \<Longrightarrow> room s \<Longrightarrow> ok (schedule f s) \<and> queue (schedule f s) = queue s @ [f]"
    and next_none: "ok s \<Longrightarrow> queue s = [] \<Longrightarrow> next_fn s = (None, s)"
    and next_some: "ok s \<Longrightarrow> queue s = f # fs \<Longrightarrow> \<exists>s'. next_fn s = (Some f, s') \<and> ok s' \<and> queue s' = fs"
begin

fun schedule_all :: "'f list \<Rightarrow> 's \<Rightarrow> 's option" where
  "schedule_all [] s = Some s"
| "schedule_all (f # fs) s = (if room s then schedule_all fs (schedule f s) else None)"

fun run_all :: "nat \<Rightarrow> 's \<Rightarrow> 'f list \<times> 's" where
  "run_all 0 s = ([], s)"
| "run_all (Suc n) s = (case next_fn s of
       (None, s') \<Rightarrow> run_all n s'
     | (Some f, s') \<Rightarrow> let (fs, s'') = run_all n s' in (f # fs, s''))"

lemma schedule_all_queue:
  "ok s \<Longrightarrow> schedule_all fs s = Some s' \<Longrightarrow> ok s' \<and> queue s' = queue s @ fs"
proof (induction fs arbitrary: s)
  case (Cons f fs)
  then show ?case using schedule_queue [of s f] Cons.IH [of "schedule f s"] by (auto split: if_splits)
qed simp

lemma run_all_queue:
  "ok s \<Longrightarrow> \<exists>s'. run_all n s = (take n (queue s), s') \<and> ok s' \<and> queue s' = drop n (queue s)"
proof (induction n arbitrary: s)
  case (Suc n)
  show ?case
  proof (cases "queue s")
    case Nil
    then show ?thesis using Suc.IH [OF Suc.prems] next_none [OF Suc.prems] by auto
  next
    case (Cons f fs)
    then obtain t where t: "next_fn s = (Some f, t)" "ok t" "queue t = fs" using next_some [OF Suc.prems] by blast
    then show ?thesis using Suc.IH [of t] Cons by auto
  qed
qed simp

text \<open>Everything scheduled runs exactly once, in order, after what was already waiting.\<close>

lemma all_run_once:
  "ok s \<Longrightarrow> schedule_all fs s = Some s' \<Longrightarrow> n = length (queue s @ fs) \<Longrightarrow>
     \<exists>s''. run_all n s' = (queue s @ fs, s'') \<and> queue s'' = []"
  using schedule_all_queue [of s fs s'] run_all_queue [of s' n] by auto

end

lemma map_the_upd: "i \<notin> set is \<Longrightarrow> map (\<lambda>j. the ((m(i := x)) j)) is = map (\<lambda>j. the (m j)) is"
  by (induction "is") auto

interpretation mt: main_thread handle_ok handle_room queue_of Schedule run_next
proof unfold_locales
  fix s :: "'f cluster_handle" and f fs
  assume ok: "handle_ok s"
  show "handle_ok (Schedule f s) \<and> queue_of (Schedule f s) = queue_of s @ [f]" if "handle_room s"
  proof -
    have fresh: "nextID s \<notin> set (commits s)" using ok that by (auto simp: handle_ok_def handle_room_def)
    then show ?thesis
      using ok map_the_upd [OF fresh] by (simp add: Schedule_def handle_ok_def queue_of_def Let_def)
  qed
  show "run_next s = (None, s)" if "queue_of s = []"
    using that by (simp add: queue_of_def run_next_def)
  show "\<exists>s'. run_next s = (Some f, s') \<and> handle_ok s' \<and> queue_of s' = fs" if q: "queue_of s = f # fs"
  proof -
    obtain i "is" where c: "commits s = i # is" "f = the (pendingFns s i)" "fs = map (\<lambda>i. the (pendingFns s i)) is"
      using q unfolding queue_of_def map_eq_Cons_conv by blast
    have i: "i \<notin> set is" "pendingFns s i \<noteq> None" "set is = dom (pendingFns s) - {i}"
      using ok c(1) by (auto simp: handle_ok_def)
    then show ?thesis
      using ok c map_the_upd [OF i(1)]
      by (auto simp: run_next_def runPending_def handle_ok_def queue_of_def)
  qed
qed

lemma newClusterHandle_ok: "handle_ok newClusterHandle"
  by (simp add: handle_ok_def newClusterHandle_def)

text \<open>\<open>Schedule\<close> does not remember that the handle was destroyed: it creates a new Envoy scheduler on it.\<close>

lemma schedule_revives_destroyed_handle: "scheduler (Schedule fn (handle_destroy h))"
  by (simp add: Schedule_def Let_def)

section \<open>Properties\<close>

fun schedule_fns :: "'f list \<Rightarrow> 'f cluster_handle \<Rightarrow> 'f cluster_handle" where
  "schedule_fns [] h = h"
| "schedule_fns (f # fs) h = schedule_fns fs (Schedule f h)"

fun run_events :: "nat \<Rightarrow> 'f cluster_handle \<Rightarrow> 'f list \<times> 'f cluster_handle" where
  "run_events 0 h = ([], h)"
| "run_events (Suc n) h = (case run_next h of
       (None, h') \<Rightarrow> run_events n h'
     | (Some f, h') \<Rightarrow> let (fs, h'') = run_events n h' in (f # fs, h''))"

lemma run_events_eq: "run_events n h = mt.run_all n h"
  by (induction n arbitrary: h) (auto split: prod.splits option.splits)

text \<open>Ids are handed out in sequence, so the next one is free until all \<open>2 ^ 64\<close> have been used.\<close>

lemma schedule_fns_room:
  "nextID h = of_nat n \<Longrightarrow> dom (pendingFns h) \<subseteq> of_nat ` {..<n} \<Longrightarrow> n + length fs \<le> 2 ^ 64 \<Longrightarrow>
     mt.schedule_all fs h = Some (schedule_fns fs h)"
proof (induction fs arbitrary: h n)
  case (Cons f fs)
  have "of_nat n \<noteq> (of_nat i :: uint64)" if "i < n" for i
    using that Cons.prems(3)
    by (auto dest!: arg_cong [where f = unat] simp: unsigned_of_nat take_bit_nat_eq_self)
  then have room: "handle_room h"
    using Cons.prems(1,2) by (auto simp: handle_room_def)
  have s: "nextID (Schedule f h) = nextID h + 1" "pendingFns (Schedule f h) = (pendingFns h)(nextID h \<mapsto> f)"
    by (simp_all add: Schedule_def Let_def)
  have "dom (pendingFns (Schedule f h)) \<subseteq> of_nat ` {..<Suc n}"
    unfolding s using Cons.prems(1,2) by (auto simp: lessThan_Suc)
  from Cons.IH [OF _ this] have "mt.schedule_all fs (Schedule f h) = Some (schedule_fns fs (Schedule f h))"
    using Cons.prems(1,3) s(1) by simp
  with room show ?case by simp
qed simp

text \<open>The functions passed to \<open>Schedule\<close> are run by the main thread exactly once each and in the
  order in which they were committed: the table loses and repeats none before its 64-bit ids wrap around.\<close>

lemma scheduled_functions_run_once:
  assumes "length fs \<le> 2 ^ 64"
  shows "\<exists>h. run_events (length fs) (schedule_fns fs newClusterHandle) = (fs, h) \<and> pendingFns h = Map.empty \<and> commits h = []"
proof -
  have s: "mt.schedule_all fs newClusterHandle = Some (schedule_fns fs newClusterHandle)"
    by (rule schedule_fns_room [of _ 0]) (use assms in \<open>simp_all add: newClusterHandle_def\<close>)
  have q: "queue_of (newClusterHandle :: 'a cluster_handle) = []" by (simp add: queue_of_def newClusterHandle_def)
  obtain h where h: "mt.run_all (length fs) (schedule_fns fs newClusterHandle) = (fs, h)" "handle_ok h" "queue_of h = []"
    using mt.schedule_all_queue [OF newClusterHandle_ok s] mt.run_all_queue [of "schedule_fns fs newClusterHandle" "length fs"] q
    by auto
  then show ?thesis by (auto simp: run_events_eq handle_ok_def queue_of_def)
qed

lemma scheduled_functions_run_once_example:
  "\<exists>h. run_events 2 (schedule_fns [''f'', ''g''] newClusterHandle) = ([''f'', ''g''], h) \<and> pendingFns h = Map.empty"
proof -
  have "length [''f'', ''g''] \<le> 2 ^ 64" by simp
  from scheduled_functions_run_once [OF this] show ?thesis by (simp add: numeral_2_eq_2 del: run_events.simps) blast
qed

text \<open>The flat array of (filter name, key, value) triples that \<open>AddHosts\<close> passes to Envoy gives every
  host exactly its own metadata: read back per host it is the spec's metadata, and hosts with fewer pairs are padded.\<close>

lemma addhosts_metadata_layout:
  assumes "i < length specs" "metadata_buffers specs = Some buf"
  shows "length buf = length specs * max_pairs 0 specs * 3 \<and>
    read_host (max_pairs 0 specs) buf i = Metadata (specs ! i)"
proof -
  let ?m = "max_pairs 0 specs"
  have le: "\<forall>s\<in>set specs. length (Metadata s) \<le> ?m" using max_pairs_ge [of 0 specs] by simp
  have buf: "buf = concat (map (host_block ?m) specs)"
    using assms(2) fill_hosts_eq [OF le, of "[]" 0] by (auto simp: metadata_buffers_def Let_def split: if_splits)
  have "length buf = length specs * (3 * ?m)"
    using length_blocks [OF le] unfolding buf .
  then show ?thesis
    using block_of_concat [of i specs "host_block ?m" "3 * ?m"] assms(1) le
    by (simp add: read_host_def buf length_host_block read_block algebra_simps)
qed

lemma addhosts_metadata_layout_example:
  "read_host 1 (the (metadata_buffers [demo_spec ''a'', (demo_spec ''b'')\<lparr>Metadata := [(''k'', ''v'')]\<rparr>])) 1 = [(''k'', ''v'')]"
  using addhosts_metadata_layout [of 1 "[demo_spec ''a'', (demo_spec ''b'')\<lparr>Metadata := [(''k'', ''v'')]\<rparr>]"]
  by (simp add: metadata_buffers_def demo_spec_def)

end
