(* ===== verification/Token_Table.thy ===== *)
theory Token_Table
  imports Transit_Prelude
begin

text \<open>
  The token tables of the ABI layer (\<open>manager\<close> in \<^verbatim>\<open>src/down/abi_impl/internal.go\<close>): Go objects are
  kept in 32 locked shards under the address of a one-byte C allocation, which is what Envoy holds.
  An address is a natural number, 0 is the null pointer; \<open>record\<close> takes the address that
  \<open>C.malloc\<close> returns (never null, and not one that is still allocated).
\<close>

type_synonym 'a manager = "(nat \<rightharpoonup> 'a) list"

definition numManagerShards :: nat where
  "numManagerShards = 32"

definition newManager :: "'a manager" where
  "newManager = replicate numManagerShards Map.empty"

definition manager_record :: "nat \<Rightarrow> 'a \<Rightarrow> 'a manager \<Rightarrow> 'a manager" where
  "manager_record ptr item m =
     (let idx = ptr mod numManagerShards in m[idx := (m ! idx)(ptr \<mapsto> item)])"

definition manager_unwrap :: "nat \<Rightarrow> 'a manager \<Rightarrow> 'a option" where
  "manager_unwrap ptr m =
     (if ptr = 0 then None else let idx = ptr mod numManagerShards in (m ! idx) ptr)"

text \<open>\<open>remove\<close> also frees the byte behind a token. That is not in the state: it would be wrong for a token that is
  not in the table, but every caller has just looked its token up (or recorded it itself and removes it once).\<close>

definition manager_remove :: "nat \<Rightarrow> 'a manager \<Rightarrow> 'a manager" where
  "manager_remove ptr m =
     (if ptr = 0 then m else let idx = ptr mod numManagerShards in m[idx := (m ! idx)(ptr := None)])"

definition manager_ok :: "'a manager \<Rightarrow> bool" where
  "manager_ok m \<longleftrightarrow> length m = numManagerShards"

section \<open>The contract\<close>

locale token_table =
  fixes ok :: "'t \<Rightarrow> bool"
    and empty :: 't
    and record_at :: "nat \<Rightarrow> 'a \<Rightarrow> 't \<Rightarrow> 't"
    and unwrap :: "nat \<Rightarrow> 't \<Rightarrow> 'a option"
    and remove :: "nat \<Rightarrow> 't \<Rightarrow> 't"
  assumes empty_ok: "ok empty" "unwrap p empty = None"
    and record_ok: "ok t \<Longrightarrow> ok (record_at p x t)"
    and remove_ok: "ok t \<Longrightarrow> ok (remove p t)"
    and unwrap_null: "unwrap 0 t = None"
    and unwrap_record: "ok t \<Longrightarrow> p \<noteq> 0 \<Longrightarrow> unwrap q (record_at p x t) = (if q = p then Some x else unwrap q t)"
    and unwrap_remove: "ok t \<Longrightarrow> unwrap q (remove p t) = (if q = p then None else unwrap q t)"
begin

text \<open>A table is a finite map from addresses to objects, and its operations are those of maps.\<close>

definition contents :: "'t \<Rightarrow> nat \<rightharpoonup> 'a" where
  "contents t = (\<lambda>p. unwrap p t)"

lemma contents_simps:
  "contents empty = Map.empty"
  "ok t \<Longrightarrow> p \<noteq> 0 \<Longrightarrow> contents (record_at p x t) = (contents t)(p \<mapsto> x)"
  "ok t \<Longrightarrow> contents (remove p t) = (contents t)(p := None)"
  by (auto simp: contents_def fun_eq_iff empty_ok unwrap_record unwrap_remove)

lemma record_remove:
  "ok t \<Longrightarrow> p \<noteq> 0 \<Longrightarrow> unwrap p t = None \<Longrightarrow> contents (remove p (record_at p x t)) = contents t"
  by (auto simp: contents_def fun_eq_iff record_ok unwrap_record unwrap_remove)

end

interpretation mgr: token_table manager_ok newManager manager_record manager_unwrap manager_remove
proof unfold_locales
  fix t :: "'a manager" and p q x
  have idx: "p mod numManagerShards < numManagerShards" for p by (simp add: numManagerShards_def)
  show "manager_ok (newManager :: 'a manager)" "manager_unwrap p (newManager :: 'a manager) = None"
    using idx by (simp_all add: manager_ok_def newManager_def manager_unwrap_def Let_def)
  show "manager_unwrap 0 t = None" by (simp add: manager_unwrap_def)
  assume ok: "manager_ok t"
  show "manager_ok (manager_record p x t)" "manager_ok (manager_remove p t)"
    using ok by (simp_all add: manager_ok_def manager_record_def manager_remove_def Let_def)
  show "manager_unwrap q (manager_remove p t) = (if q = p then None else manager_unwrap q t)"
    using ok idx
    by (cases "q mod numManagerShards = p mod numManagerShards")
      (auto simp: manager_ok_def manager_unwrap_def manager_remove_def Let_def)
  assume "p \<noteq> 0"
  then show "manager_unwrap q (manager_record p x t) = (if q = p then Some x else manager_unwrap q t)"
    using ok idx
    by (cases "q mod numManagerShards = p mod numManagerShards")
      (auto simp: manager_ok_def manager_unwrap_def manager_record_def Let_def)
qed

section \<open>Properties\<close>

datatype 'a table_op = Record nat 'a | Remove nat

fun run_table :: "'a table_op list \<Rightarrow> 'a manager \<Rightarrow> 'a manager" where
  "run_table [] m = m"
| "run_table (Record p x # ops) m = run_table ops (manager_record p x m)"
| "run_table (Remove p # ops) m = run_table ops (manager_remove p m)"

fun non_null :: "'a table_op \<Rightarrow> bool" where
  "non_null (Record p x) = (p \<noteq> 0)"
| "non_null (Remove p) = True"

text \<open>What the same operations do to a plain map.\<close>

fun map_table :: "'a table_op list \<Rightarrow> (nat \<rightharpoonup> 'a) \<Rightarrow> (nat \<rightharpoonup> 'a)" where
  "map_table [] f = f"
| "map_table (Record p x # ops) f = map_table ops (f(p \<mapsto> x))"
| "map_table (Remove p # ops) f = map_table ops (f(p := None))"

lemma run_table_contents:
  "manager_ok m \<Longrightarrow> list_all non_null ops \<Longrightarrow>
     mgr.contents (run_table ops m) = map_table ops (mgr.contents m)"
proof (induction ops arbitrary: m)
  case (Cons op ops)
  then show ?case by (cases op) (auto simp: mgr.contents_simps mgr.record_ok mgr.remove_ok)
qed simp

text \<open>C37. The sharded table implements a map from tokens to objects: after any sequence of \<open>record\<close>
  and \<open>remove\<close> calls, in any order and over any shards, \<open>unwrap\<close> answers what a plain map would.\<close>

theorem manager_refines_map:
  assumes "list_all non_null ops"
  shows "manager_unwrap q (run_table ops newManager) = map_table ops Map.empty q"
  using run_table_contents [OF mgr.empty_ok(1), of ops] assms
  by (simp add: mgr.contents_simps) (simp add: mgr.contents_def fun_eq_iff)

theorem manager_refines_map_witness:
  "manager_unwrap 37 (run_table [Record 5 ''a'', Record 37 ''b'', Remove 5] newManager) = Some ''b''"
  by (subst manager_refines_map) auto

end
