(* ===== verification/Stream_Promise.thy ===== *)
theory Stream_Promise
  imports Transit_Prelude
begin

text \<open>
  The resolve-once promise (\<^verbatim>\<open>src/up/stream_promise.go\<close>). Registrations are numbered in order;
  \<open>entries\<close> holds the \<open>promiseCB\<close> of each and \<open>callbacks\<close> the numbers of those the promise still lists.
  \<open>Resolve\<close> leaves its lock before it closes \<open>done\<close> and fires the callbacks, so what the resolving
  goroutine still has to do is part of the state (\<open>resolver\<close>) and everything else may happen in
  between, calls made by the callbacks themselves included. \<open>fired\<close> logs the callbacks that ran and
  \<open>listed\<close> how many registrations the promise had drained.
\<close>

record promiseCB =
  cb_set :: bool
  canceled :: bool

record 'v promise =
  resolved :: bool
  pvalue :: "'v option"
  done_closed :: bool
  resolvedOnce :: bool
  callbacks :: "nat list"
  entries :: "promiseCB list"
  resolver :: "(bool \<times> nat list) option"
  listed :: nat
  fired :: "(nat \<times> 'v) list"

definition NewStreamPromise :: "'v promise" where
  "NewStreamPromise =
     \<lparr>resolved = False, pvalue = None, done_closed = False, resolvedOnce = False, callbacks = [],
      entries = [], resolver = None, listed = 0, fired = []\<rparr>"

text \<open>\<open>OnResolve\<close> returns the number of the registration, which names its cancel function.\<close>

definition OnResolve :: "'v promise \<Rightarrow> nat \<times> 'v promise" where
  "OnResolve p =
     (let i = length (entries p); entry = \<lparr>cb_set = True, canceled = False\<rparr> in
      case (resolved p, pvalue p) of
        (True, Some v) \<Rightarrow> (i, p\<lparr>entries := entries p @ [entry], fired := fired p @ [(i, v)]\<rparr>)
      | _ \<Rightarrow> (i, p\<lparr>entries := entries p @ [entry], callbacks := callbacks p @ [i]\<rparr>))"

definition promise_cancel :: "nat \<Rightarrow> 'v promise \<Rightarrow> 'v promise" where
  "promise_cancel i p = p\<lparr>entries := (entries p)[i := \<lparr>cb_set = False, canceled = True\<rparr>]\<rparr>"

definition Resolve_begin :: "'v \<Rightarrow> 'v promise \<Rightarrow> bool \<times> 'v promise" where
  "Resolve_begin v p =
     (if resolved p then (False, p)
      else (True, p\<lparr>resolved := True, pvalue := Some v, callbacks := [], resolver := Some (True, callbacks p),
                    listed := length (entries p)\<rparr>))"

definition Resolve_close :: "'v promise \<Rightarrow> 'v promise" where
  "Resolve_close p =
     (case resolver p of
        Some (True, cbs) \<Rightarrow>
          (let p = p\<lparr>resolver := Some (False, cbs)\<rparr>
           in if resolvedOnce p then p else p\<lparr>resolvedOnce := True, done_closed := True\<rparr>)
      | _ \<Rightarrow> p)"

definition Resolve_fire :: "'v promise \<Rightarrow> 'v promise" where
  "Resolve_fire p =
     (case (resolver p, pvalue p) of
        (Some (False, i # cbs), Some v) \<Rightarrow>
          (let p = p\<lparr>resolver := Some (False, cbs)\<rparr>; entry = entries p ! i
           in if \<not> canceled entry \<and> cb_set entry
              then p\<lparr>entries := (entries p)[i := entry\<lparr>canceled := True\<rparr>], fired := fired p @ [(i, v)]\<rparr>
              else p)
      | _ \<Rightarrow> p)"

fun fire_all :: "nat \<Rightarrow> 'v promise \<Rightarrow> 'v promise" where
  "fire_all 0 p = p"
| "fire_all (Suc n) p = fire_all n (Resolve_fire p)"

text \<open>A \<open>Resolve\<close> that nothing interrupts.\<close>

definition Resolve :: "'v \<Rightarrow> 'v promise \<Rightarrow> bool \<times> 'v promise" where
  "Resolve v p =
     (case Resolve_begin v p of
        (False, p) \<Rightarrow> (False, p)
      | (True, p') \<Rightarrow> (True, fire_all (length (callbacks p)) (Resolve_close p')))"

definition Result :: "'v promise \<Rightarrow> 'v option" where
  "Result p = (if resolved p then pvalue p else None)"

definition Done :: "'v promise \<Rightarrow> bool" where
  "Done p = done_closed p"

section \<open>Interleavings\<close>

inductive promise_step :: "'v promise \<Rightarrow> 'v promise \<Rightarrow> bool" where
  on_resolve: "promise_step p (snd (OnResolve p))"
| cancel: "promise_step p (promise_cancel i p)"
| resolve: "promise_step p (snd (Resolve_begin v p))"
| close_done: "promise_step p (Resolve_close p)"
| fire: "promise_step p (Resolve_fire p)"

inductive promise_run :: "'v promise \<Rightarrow> 'v promise \<Rightarrow> bool" where
  stay: "promise_run p p"
| go_on: "promise_run p p' \<Longrightarrow> promise_step p' p'' \<Longrightarrow> promise_run p p''"

section \<open>Invariant\<close>

text \<open>
  Before the resolution every registration is listed and none has run. Afterwards the resolver has
  the listed registrations from some number \<open>k\<close> on before it: those below \<open>k\<close> have run, in order,
  unless their callback was gone; those registered later ran at once.
\<close>

definition early :: "'v promise \<Rightarrow> (nat \<times> 'v) list" where
  "early p = filter (\<lambda>(i, v). i < listed p) (fired p)"

definition late :: "'v promise \<Rightarrow> (nat \<times> 'v) list" where
  "late p = filter (\<lambda>(i, v). \<not> i < listed p) (fired p)"

definition promise_new :: "'v promise \<Rightarrow> bool" where
  "promise_new p \<longleftrightarrow> pvalue p = None \<and> fired p = [] \<and> resolver p = None \<and> \<not> done_closed p \<and> \<not> resolvedOnce p \<and>
     callbacks p = [0..<length (entries p)] \<and>
     (\<forall>i<length (entries p). canceled (entries p ! i) \<longleftrightarrow> \<not> cb_set (entries p ! i))"

definition promise_after :: "'v \<Rightarrow> nat \<Rightarrow> 'v promise \<Rightarrow> bool" where
  "promise_after v k p \<longleftrightarrow> pvalue p = Some v \<and> k \<le> listed p \<and> listed p \<le> length (entries p) \<and> callbacks p = [] \<and>
     (\<exists>c. resolver p = Some (c, [k..<listed p]) \<and> c = (\<not> done_closed p) \<and> resolvedOnce p = done_closed p \<and> (c \<longrightarrow> k = 0)) \<and>
     late p = map (\<lambda>i. (i, v)) [listed p..<length (entries p)] \<and>
     early p = map (\<lambda>i. (i, v)) (filter (\<lambda>i. i \<in> fst ` set (fired p)) [0..<k]) \<and>
     (\<forall>i<k. i \<notin> fst ` set (fired p) \<longrightarrow> \<not> cb_set (entries p ! i)) \<and>
     (\<forall>i. k \<le> i \<longrightarrow> i < listed p \<longrightarrow> (canceled (entries p ! i) \<longleftrightarrow> \<not> cb_set (entries p ! i)))"

definition promise_inv :: "'v promise \<Rightarrow> bool" where
  "promise_inv p \<longleftrightarrow> (if resolved p then \<exists>v k. promise_after v k p else promise_new p)"

lemma NewStreamPromise_inv: "promise_inv NewStreamPromise"
  by (simp add: promise_inv_def promise_new_def NewStreamPromise_def)

text \<open>What a finished invariant says of the log, for any state after the resolution.\<close>

lemma fired_split: "i \<in> fst ` set (fired p) \<longleftrightarrow> i \<in> fst ` set (early p) \<or> i \<in> fst ` set (late p)"
  by (force simp: early_def late_def)

lemma after_not_fired:
  "promise_after v k p \<Longrightarrow> k \<le> i \<Longrightarrow> i < listed p \<Longrightarrow> i \<notin> fst ` set (fired p)"
  unfolding fired_split by (auto simp: promise_after_def)

lemma filter_fst: "map fst (filter (\<lambda>(i, v). P i) xs) = filter P (map fst xs)"
  by (induction xs) auto

lemma distinct_filters: "distinct (filter P xs) \<Longrightarrow> distinct (filter (\<lambda>x. \<not> P x) xs) \<Longrightarrow> distinct xs"
  by (induction xs) (auto split: if_splits)

lemma after_log:
  assumes inv: "promise_after v k p"
  shows "distinct (map fst (fired p))" "\<forall>x\<in>set (fired p). snd x = v"
    "sorted (filter (\<lambda>i. i < listed p) (map fst (fired p)))"
    "k = listed p \<Longrightarrow> i < length (entries p) \<Longrightarrow> i \<notin> fst ` set (fired p) \<Longrightarrow> \<not> cb_set (entries p ! i)"
proof -
  have e: "filter (\<lambda>i. i < listed p) (map fst (fired p)) = filter (\<lambda>i. i \<in> fst ` set (fired p)) [0..<k]"
    using inv filter_fst [of "\<lambda>i. i < listed p" "fired p"] by (simp add: promise_after_def early_def comp_def)
  have l: "filter (\<lambda>i. \<not> i < listed p) (map fst (fired p)) = [listed p..<length (entries p)]"
    using inv filter_fst [of "\<lambda>i. \<not> i < listed p" "fired p"] by (simp add: promise_after_def late_def comp_def)
  show "distinct (map fst (fired p))"
    by (rule distinct_filters [of "\<lambda>i. i < listed p"]) (simp_all only: e l distinct_upt distinct_filter)
  show "sorted (filter (\<lambda>i. i < listed p) (map fst (fired p)))" unfolding e by (simp add: sorted_wrt_filter)
  have "set (fired p) = set (early p) \<union> set (late p)" by (auto simp: early_def late_def)
  moreover obtain es ls where "early p = map (\<lambda>i. (i, v)) es" "late p = map (\<lambda>i. (i, v)) ls"
    using inv unfolding promise_after_def by blast
  ultimately show "\<forall>x\<in>set (fired p). snd x = v" by auto
  show "\<not> cb_set (entries p ! i)" if "k = listed p" "i < length (entries p)" "i \<notin> fst ` set (fired p)"
  proof -
    have "i \<notin> set (filter (\<lambda>i. \<not> i < listed p) (map fst (fired p)))" using that by auto
    then have "i < k" unfolding l using that by auto
    then show ?thesis using inv that by (auto simp: promise_after_def)
  qed
qed

lemma OnResolve_inv: "promise_inv p \<Longrightarrow> promise_inv (snd (OnResolve p))"
proof (cases "resolved p")
  case False
  assume "promise_inv p"
  with False show ?thesis
    by (auto simp: promise_inv_def promise_new_def OnResolve_def Let_def nth_append less_Suc_eq)
next
  case True
  assume "promise_inv p"
  with True obtain v k where inv: "promise_after v k p" by (auto simp: promise_inv_def)
  let ?q = "p\<lparr>entries := entries p @ [\<lparr>cb_set = True, canceled = False\<rparr>], fired := fired p @ [(length (entries p), v)]\<rparr>"
  have q: "snd (OnResolve p) = ?q" using True inv by (simp add: OnResolve_def promise_after_def Let_def)
  have "early ?q = early p" "late ?q = late p @ [(length (entries p), v)]"
    using inv by (simp_all add: early_def late_def promise_after_def)
  moreover have "filter (\<lambda>i. i \<in> fst ` set (fired ?q)) [0..<k] = filter (\<lambda>i. i \<in> fst ` set (fired p)) [0..<k]"
    using inv by (auto simp: promise_after_def intro!: filter_cong)
  ultimately have "promise_after v k ?q"
    using inv by (auto simp: promise_after_def nth_append)
  then show ?thesis using True unfolding promise_inv_def q by auto
qed

lemma nth_update_any: "xs[i := x] ! j = (if i = j \<and> j < length xs then x else xs ! j)"
  by (cases "i < length xs") (auto simp: nth_list_update list_update_beyond)

lemma cancel_after: "promise_after v k p \<Longrightarrow> promise_after v k (promise_cancel i p)"
proof -
  assume inv: "promise_after v k p"
  have "early (promise_cancel i p) = early p" "late (promise_cancel i p) = late p"
    by (simp_all add: early_def late_def promise_cancel_def)
  with inv show ?thesis unfolding promise_after_def by (simp add: promise_cancel_def nth_update_any)
qed

lemma cancel_inv: "promise_inv p \<Longrightarrow> promise_inv (promise_cancel i p)"
proof (cases "resolved p")
  case True
  assume "promise_inv p"
  with True cancel_after show ?thesis by (fastforce simp: promise_inv_def promise_cancel_def)
qed (simp add: promise_inv_def promise_new_def promise_cancel_def nth_update_any)

lemma Resolve_begin_inv: "promise_inv p \<Longrightarrow> promise_inv (snd (Resolve_begin v p))"
proof (cases "resolved p")
  case False
  assume "promise_inv p"
  with False have "promise_after v 0 (snd (Resolve_begin v p))"
    by (auto simp: promise_inv_def promise_new_def Resolve_begin_def promise_after_def early_def late_def)
  then show ?thesis using False by (auto simp: promise_inv_def Resolve_begin_def)
qed (simp add: Resolve_begin_def)

lemma Resolve_close_after: "promise_after v k p \<Longrightarrow> promise_after v k (Resolve_close p)"
  by (auto simp: Resolve_close_def promise_after_def early_def late_def Let_def
      split: option.splits prod.splits bool.splits)

lemma Resolve_fire_after:
  assumes inv: "promise_after v k p" and r: "resolver p = Some (False, i # cbs)"
  shows "promise_after v (Suc k) (Resolve_fire p)"
proof -
  have k: "i = k" "k < listed p" "cbs = [Suc k..<listed p]" "done_closed p" "resolvedOnce p" "listed p \<le> length (entries p)"
  proof -
    have "[k..<listed p] = i # cbs" "done_closed p" "resolvedOnce p" "listed p \<le> length (entries p)"
      using inv r by (auto simp: promise_after_def)
    then show "i = k" "k < listed p" "cbs = [Suc k..<listed p]" "done_closed p" "resolvedOnce p"
      "listed p \<le> length (entries p)"
      by (auto simp: upt_eq_Cons_conv)
  qed
  have fresh: "k \<notin> fst ` set (fired p)" using after_not_fired [OF inv _ k(2)] by simp
  have old: "canceled (entries p ! k) \<longleftrightarrow> \<not> cb_set (entries p ! k)" using inv k by (auto simp: promise_after_def)
  show ?thesis
  proof (cases "cb_set (entries p ! k)")
    case False
    let ?q = "p\<lparr>resolver := Some (False, cbs)\<rparr>"
    have q: "Resolve_fire p = ?q" using r inv k False by (simp add: Resolve_fire_def promise_after_def Let_def)
    have "early ?q = early p" "late ?q = late p" by (simp_all add: early_def late_def)
    then show ?thesis unfolding q using inv k fresh False by (auto simp: promise_after_def less_Suc_eq)
  next
    case True
    let ?e = "(entries p ! k)\<lparr>canceled := True\<rparr>"
    let ?q = "p\<lparr>resolver := Some (False, cbs), entries := (entries p)[k := ?e], fired := fired p @ [(k, v)]\<rparr>"
    have q: "Resolve_fire p = ?q" using r inv k True old by (simp add: Resolve_fire_def promise_after_def Let_def)
    have el: "early ?q = early p @ [(k, v)]" "late ?q = late p" using k by (simp_all add: early_def late_def)
    have "filter (\<lambda>i. i \<in> fst ` set (fired ?q)) [0..<k] = filter (\<lambda>i. i \<in> fst ` set (fired p)) [0..<k]"
      by (auto intro!: filter_cong)
    then show ?thesis unfolding q
      using inv k el by (auto simp: promise_after_def less_Suc_eq nth_list_update)
  qed
qed

text \<open>Without a resolver the two steps do nothing; with one they keep the invariant of a resolved promise.\<close>

lemma resolver_step_inv:
  assumes "promise_inv p"
  shows "promise_inv (Resolve_close p)" "promise_inv (Resolve_fire p)"
proof -
  have "promise_inv (Resolve_close p) \<and> promise_inv (Resolve_fire p)"
  proof (cases "resolved p")
    case False
    then have "Resolve_close p = p" "Resolve_fire p = p"
      using assms by (simp_all add: promise_inv_def promise_new_def Resolve_close_def Resolve_fire_def)
    then show ?thesis using assms by simp
  next
    case True
    then obtain v k where inv: "promise_after v k p" using assms by (auto simp: promise_inv_def)
    have res: "resolved (Resolve_close p)" "resolved (Resolve_fire p)"
      using True by (simp_all add: Resolve_close_def Resolve_fire_def Let_def split: option.split prod.split bool.split list.split)
    have "\<exists>k. promise_after v k (Resolve_fire p)"
    proof (cases "\<exists>i cbs. resolver p = Some (False, i # cbs)")
      case True
      then show ?thesis using Resolve_fire_after [OF inv] by blast
    next
      case False
      then have "Resolve_fire p = p"
        by (auto simp: Resolve_fire_def split: option.split prod.split bool.split list.split)
      then show ?thesis using inv by auto
    qed
    then show ?thesis using Resolve_close_after [OF inv] res by (auto simp: promise_inv_def)
  qed
  then show "promise_inv (Resolve_close p)" "promise_inv (Resolve_fire p)" by simp_all
qed

lemma promise_run_inv: "promise_run p p' \<Longrightarrow> promise_inv p \<Longrightarrow> promise_inv p'"
proof (induction rule: promise_run.induct)
  case (go_on p p' p'')
  from go_on.hyps(2) go_on.IH [OF go_on.prems] show ?case
    by (cases rule: promise_step.cases) (auto intro: OnResolve_inv cancel_inv Resolve_begin_inv resolver_step_inv)
qed simp

section \<open>Properties\<close>

text \<open>C12. In every interleaving of registrations, cancellations, resolutions and firings, a callback runs
  at most once and always with the value of the first \<open>Resolve\<close>; those registered before it run in
  the order of registration; and once the resolver is through, every callback that was not cancelled has run.\<close>

theorem promise_delivers_once_in_order:
  assumes "promise_run NewStreamPromise p"
  shows "distinct (map fst (fired p)) \<and> (\<forall>(i, v) \<in> set (fired p). Result p = Some v) \<and>
    sorted (filter (\<lambda>i. i < listed p) (map fst (fired p))) \<and>
    (resolver p = Some (False, []) \<longrightarrow> done_closed p \<and>
      (\<forall>i < length (entries p). i \<notin> fst ` set (fired p) \<longrightarrow> \<not> cb_set (entries p ! i)))"
proof (cases "resolved p")
  case False
  then have "fired p = []" "resolver p = None"
    using promise_run_inv [OF assms NewStreamPromise_inv] by (simp_all add: promise_inv_def promise_new_def)
  then show ?thesis by simp
next
  case True
  then obtain v k where inv: "promise_after v k p"
    using promise_run_inv [OF assms NewStreamPromise_inv] by (auto simp: promise_inv_def)
  show ?thesis using after_log [OF inv] True inv by (auto simp: promise_after_def Result_def)
qed

definition demo_promise :: "string promise" where
  "demo_promise = snd (Resolve_begin ''late'' (snd (Resolve ''host'' (promise_cancel 1 (snd (OnResolve (snd (OnResolve
     (snd (OnResolve NewStreamPromise))))))))))"

lemma fire_all_run: "promise_run p q \<Longrightarrow> promise_run p (fire_all n q)"
  by (induction n arbitrary: q) (auto intro: go_on fire)

lemma Resolve_run: "promise_run p q \<Longrightarrow> promise_run p (snd (Resolve v q))"
proof (cases "resolved q")
  case False
  assume "promise_run p q"
  then have "promise_run p (Resolve_close (snd (Resolve_begin v q)))" by (intro go_on [OF _ close_done] go_on [OF _ resolve])
  then show ?thesis using False by (simp add: Resolve_def Resolve_begin_def fire_all_run)
qed (simp add: Resolve_def Resolve_begin_def)

lemma demo_promise_run: "promise_run NewStreamPromise demo_promise"
  unfolding demo_promise_def
  by (intro go_on [OF _ resolve] Resolve_run go_on [OF _ cancel] go_on [OF _ on_resolve] stay)

theorem promise_delivers_once_in_order_witness:
  "fired demo_promise = [(0, ''host''), (2, ''host'')] \<and> distinct (map fst (fired demo_promise)) \<and> done_closed demo_promise"
proof -
  have "fired demo_promise = [(0, ''host''), (2, ''host'')]" "resolver demo_promise = Some (False, [])" by code_simp+
  then show ?thesis using promise_delivers_once_in_order [OF demo_promise_run] by simp
qed

text \<open>A callback that is gone before it ran can never run.\<close>

definition gone :: "nat \<Rightarrow> 'v promise \<Rightarrow> bool" where
  "gone i p \<longleftrightarrow> i < length (entries p) \<and> \<not> cb_set (entries p ! i) \<and> i \<notin> fst ` set (fired p)"

lemma gone_step: "promise_step p p' \<Longrightarrow> gone i p \<Longrightarrow> gone i p'"
proof (induction rule: promise_step.induct)
  case (on_resolve p)
  then show ?case by (auto simp: gone_def OnResolve_def Let_def nth_append split: bool.splits option.splits)
next
  case (fire p)
  then show ?case
    by (auto simp: gone_def Resolve_fire_def Let_def nth_update_any
        split: option.splits prod.splits bool.splits list.splits)
qed (auto simp: gone_def promise_cancel_def Resolve_begin_def Resolve_close_def Let_def nth_update_any
    split: option.splits prod.splits bool.splits)

lemma gone_run: "promise_run p p' \<Longrightarrow> gone i p \<Longrightarrow> gone i p'"
  by (induction rule: promise_run.induct) (auto intro: gone_step)

text \<open>A cancel that comes before its callback has run prevents it for good, also when the promise is
  being resolved at the same time and the resolver has already drained the list.\<close>

lemma cancelled_callback_never_fires:
  assumes "i < length (entries p)" "i \<notin> fst ` set (fired p)" "promise_run (promise_cancel i p) p'"
  shows "i \<notin> fst ` set (fired p')"
proof -
  have "gone i (promise_cancel i p)" using assms by (simp add: gone_def promise_cancel_def)
  from gone_run [OF assms(3) this] show ?thesis by (simp add: gone_def)
qed

lemma cancelled_callback_never_fires_example:
  "1 \<notin> fst ` set (fired (snd (Resolve ''host'' (promise_cancel 1 (snd (OnResolve (snd (OnResolve NewStreamPromise))))))))"
  by (rule cancelled_callback_never_fires [of 1 "snd (OnResolve (snd (OnResolve NewStreamPromise)))"])
    (auto intro: Resolve_run stay simp: OnResolve_def NewStreamPromise_def)

end
