(* ===== verification/Host_Selection.thy ===== *)
theory Host_Selection
  imports Token_Table Stream_Promise Host_Set
begin

text \<open>
  Asynchronous host selection: the completion that a load balancer hands to Envoy
  (\<open>ClusterLBCompletion\<close>, \<^verbatim>\<open>src/down/cluster.go\<close>), the selector that completes it from a promise
  (\<^verbatim>\<open>src/up/async_host_selector.go\<close>), and the two ABI callbacks that create and cancel it
  (\<^verbatim>\<open>src/down/abi_impl/cluster.go\<close>). One selection is followed through the worker thread that chooses and
  cancels, the goroutine that resolves the promise, and the main thread that completes. A goroutine
  is the list of calls it still has to make: \<open>Complete\<close> and \<open>Cancel\<close> decide under the mutex and
  call the injected functions after they have released it.
\<close>

section \<open>The completion\<close>

record completion =
  comp_done :: bool
  completeFn :: bool
  cancelFn :: bool
  finishFn :: "nat option"

text \<open>The calls that are made outside the mutex. The argument of \<open>FinishFn\<close> is the token that it frees.\<close>

datatype lb_call =
    CompleteFn HostPtr string
  | CancelFn
  | FinishFn nat
  | CallComplete HostPtr string
  | SelectorCancel
  | CallSelected HostPtr
  | CallFailed string
  | CallCancelled

definition new_completion :: completion where
  "new_completion = \<lparr>comp_done = False, completeFn = False, cancelFn = False, finishFn = None\<rparr>"

definition SetCompleteFn :: "completion \<Rightarrow> completion" where
  "SetCompleteFn c = c\<lparr>completeFn := True\<rparr>"

definition SetCancelFn :: "completion \<Rightarrow> completion" where
  "SetCancelFn c = c\<lparr>cancelFn := True\<rparr>"

definition SetFinishFn :: "nat \<Rightarrow> completion \<Rightarrow> completion \<times> lb_call list" where
  "SetFinishFn tok c = (if comp_done c then (c, [FinishFn tok]) else (c\<lparr>finishFn := Some tok\<rparr>, []))"

definition finish_calls :: "completion \<Rightarrow> lb_call list" where
  "finish_calls c = (case finishFn c of Some t \<Rightarrow> [FinishFn t] | None \<Rightarrow> [])"

definition completion_Complete :: "HostPtr \<Rightarrow> string \<Rightarrow> completion \<Rightarrow> bool \<times> completion \<times> lb_call list" where
  "completion_Complete host errDetail c =
     (if comp_done c then (False, c, [])
      else (True, c\<lparr>comp_done := True\<rparr>, (if completeFn c then [CompleteFn host errDetail] else []) @ finish_calls c))"

definition completion_Cancel :: "completion \<Rightarrow> bool \<times> completion \<times> lb_call list" where
  "completion_Cancel c =
     (if comp_done c then (False, c, [])
      else (True, c\<lparr>comp_done := True\<rparr>, (if cancelFn c then [CancelFn] else []) @ finish_calls c))"

definition NewCompletion :: completion where
  "NewCompletion = SetCompleteFn new_completion"

section \<open>The selector\<close>

record HostResult =
  hr_Host :: HostPtr
  hr_ErrDetail :: string

datatype 'v lb_event =
    Resolved 'v
  | AsyncComplete HostPtr string
  | CancelWon
  | CancelLost
  | ObsSelected HostPtr
  | ObsFailed string
  | ObsCancelled

datatype choosing = Choosing | Recorded nat | Handed nat

record 'v selection =
  comp :: completion
  asyncs :: "unit manager"
  is_cancelled :: bool
  sched :: "'v list"
  threads :: "lb_call list list"
  chosen :: choosing
  lbs :: "'v lb_event list"

text \<open>
  \<open>ChooseHost\<close>: without a promise there is no selection; otherwise the callback that schedules the
  completion is registered, and has run already if the promise is resolved.
\<close>

definition ChooseHost :: "'v promise option \<Rightarrow> ('v selection \<times> nat \<times> 'v promise) option" where
  "ChooseHost promise =
     (case promise of
        None \<Rightarrow> None
      | Some p \<Rightarrow>
          (let (i, p') = OnResolve p; vs = map snd (drop (length (fired p)) (fired p'))
           in Some (\<lparr>comp = NewCompletion, asyncs = newManager, is_cancelled = False, sched = vs, threads = [],
                     chosen = Choosing, lbs = map Resolved vs\<rparr>, i, p')))"

definition selector_callback :: "'v \<Rightarrow> 'v selection \<Rightarrow> 'v selection" where
  "selector_callback v s = s\<lparr>sched := sched s @ [v], lbs := lbs s @ [Resolved v]\<rparr>"

definition selector_complete :: "('v \<Rightarrow> HostResult) \<Rightarrow> 'v \<Rightarrow> 'v selection \<Rightarrow> 'v selection" where
  "selector_complete lookup v s =
     (if is_cancelled s then s\<lparr>is_cancelled := False\<rparr>
      else let res = lookup v
           in s\<lparr>threads := threads s @
                 [if hr_ErrDetail res \<noteq> '''' then [CallFailed (hr_ErrDetail res), CallComplete 0 (hr_ErrDetail res)]
                  else [CallSelected (hr_Host res), CallComplete (hr_Host res) '''']]\<rparr>)"

definition selector_scheduled :: "('v \<Rightarrow> HostResult) \<Rightarrow> 'v selection \<Rightarrow> 'v selection" where
  "selector_scheduled lookup s =
     (case sched s of [] \<Rightarrow> s | v # vs \<Rightarrow> selector_complete lookup v (s\<lparr>sched := vs\<rparr>))"

section \<open>The ABI callbacks\<close>

text \<open>
  \<open>choose_host\<close> after the load balancer has returned its completion: the handle is recorded under the
  token \<open>tok\<close>, then the finish function is set, then the handle is returned.
\<close>

definition choose_record :: "nat \<Rightarrow> 'v selection \<Rightarrow> 'v selection" where
  "choose_record tok s = s\<lparr>asyncs := manager_record tok () (asyncs s), chosen := Recorded tok\<rparr>"

definition choose_set_finish :: "nat \<Rightarrow> 'v selection \<Rightarrow> 'v selection" where
  "choose_set_finish tok s =
     (let (c, calls) = SetFinishFn tok (comp s)
      in s\<lparr>comp := c, threads := threads s @ [calls], chosen := Handed tok\<rparr>)"

text \<open>\<open>lb_known\<close>: whether the load balancer's own token is still in its table.\<close>

definition cancel_host_selection :: "bool \<Rightarrow> nat \<Rightarrow> 'v selection \<Rightarrow> 'v selection" where
  "cancel_host_selection lb_known tok s =
     (if \<not> lb_known then s\<lparr>lbs := lbs s @ [CancelLost]\<rparr>
      else case manager_unwrap tok (asyncs s) of
        None \<Rightarrow> s\<lparr>lbs := lbs s @ [CancelLost]\<rparr>
      | Some aw \<Rightarrow>
          (let (won, c, calls) = completion_Cancel (comp s)
           in if won then s\<lparr>comp := c, threads := threads s @ [calls @ [SelectorCancel]], lbs := lbs s @ [CancelWon]\<rparr>
              else s\<lparr>lbs := lbs s @ [CancelLost]\<rparr>))"

text \<open>One call of a goroutine: the new state and the calls it makes before the rest.\<close>

fun exec_call :: "lb_call \<Rightarrow> 'v selection \<Rightarrow> 'v selection \<times> lb_call list" where
  "exec_call (CallComplete host e) s =
     (let (won, c, calls) = completion_Complete host e (comp s) in (s\<lparr>comp := c\<rparr>, calls))"
| "exec_call (CompleteFn host e) s = (s\<lparr>lbs := lbs s @ [AsyncComplete host e]\<rparr>, [])"
| "exec_call (FinishFn tok) s = (s\<lparr>asyncs := manager_remove tok (asyncs s)\<rparr>, [])"
| "exec_call SelectorCancel s = (s\<lparr>is_cancelled := True\<rparr>, [CallCancelled])"
| "exec_call (CallSelected host) s = (s\<lparr>lbs := lbs s @ [ObsSelected host]\<rparr>, [])"
| "exec_call (CallFailed e) s = (s\<lparr>lbs := lbs s @ [ObsFailed e]\<rparr>, [])"
| "exec_call CallCancelled s = (s\<lparr>lbs := lbs s @ [ObsCancelled]\<rparr>, [])"
| "exec_call CancelFn s = (s, [])"

definition exec_thread :: "nat \<Rightarrow> 'v selection \<Rightarrow> 'v selection" where
  "exec_thread i s =
     (if i < length (threads s) then
        (case threads s ! i of
           [] \<Rightarrow> s
         | call # rest \<Rightarrow>
             (let (s', calls) = exec_call call s in s'\<lparr>threads := (threads s')[i := calls @ rest]\<rparr>))
      else s)"

section \<open>Interleavings\<close>

inductive selection_step :: "('v \<Rightarrow> HostResult) \<Rightarrow> 'v selection \<Rightarrow> 'v selection \<Rightarrow> bool" for lookup where
  resolve: "selection_step lookup s (selector_callback v s)"
| scheduled: "selection_step lookup s (selector_scheduled lookup s)"
| handle: "chosen s = Choosing \<Longrightarrow> tok \<noteq> 0 \<Longrightarrow> selection_step lookup s (choose_record tok s)"
| set_finish: "chosen s = Recorded tok \<Longrightarrow> selection_step lookup s (choose_set_finish tok s)"
| cancel: "chosen s = Handed tok \<Longrightarrow> selection_step lookup s (cancel_host_selection lb_known tok s)"
| exec: "selection_step lookup s (exec_thread i s)"

inductive selection_run :: "('v \<Rightarrow> HostResult) \<Rightarrow> 'v selection \<Rightarrow> 'v selection \<Rightarrow> bool" for lookup where
  sel_refl: "selection_run lookup s s"
| sel_step: "selection_run lookup s s' \<Longrightarrow> selection_step lookup s' s'' \<Longrightarrow> selection_run lookup s s''"

section \<open>Invariant\<close>

abbreviation pending_calls :: "'v selection \<Rightarrow> lb_call list" where
  "pending_calls s \<equiv> concat (threads s)"

abbreviation occurrences :: "('a \<Rightarrow> bool) \<Rightarrow> 'a list \<Rightarrow> nat" where
  "occurrences P xs \<equiv> length (filter P xs)"

definition is_CompleteFn :: "lb_call \<Rightarrow> bool" where
  "is_CompleteFn c = (case c of CompleteFn _ _ \<Rightarrow> True | _ \<Rightarrow> False)"

definition is_AsyncComplete :: "'v lb_event \<Rightarrow> bool" where
  "is_AsyncComplete e = (case e of AsyncComplete _ _ \<Rightarrow> True | _ \<Rightarrow> False)"

definition is_CancelWon :: "'v lb_event \<Rightarrow> bool" where
  "is_CancelWon e = (case e of CancelWon \<Rightarrow> True | _ \<Rightarrow> False)"

lemmas selection_kinds [simp] = is_CompleteFn_def is_AsyncComplete_def is_CancelWon_def

text \<open>Every settlement is exactly one of: a completion still to be called, one that was called, a cancellation.\<close>

definition settled_once :: "'v selection \<Rightarrow> bool" where
  "settled_once s \<longleftrightarrow> completeFn (comp s) \<and>
     occurrences is_CompleteFn (pending_calls s) + occurrences is_AsyncComplete (lbs s) + occurrences is_CancelWon (lbs s)
       = of_bool (comp_done (comp s))"

text \<open>What \<open>Complete\<close> is called with for a decision.\<close>

definition result_of :: "HostResult \<Rightarrow> HostPtr \<times> string" where
  "result_of res = (if hr_ErrDetail res \<noteq> '''' then (0, hr_ErrDetail res) else (hr_Host res, ''''))"

definition decisions_ok :: "('v \<Rightarrow> HostResult) \<Rightarrow> 'v selection \<Rightarrow> bool" where
  "decisions_ok lookup s \<longleftrightarrow>
     (\<forall>v\<in>set (sched s). Resolved v \<in> set (lbs s)) \<and>
     (\<forall>h e. CallComplete h e \<in> set (pending_calls s) \<or> CompleteFn h e \<in> set (pending_calls s) \<or>
        AsyncComplete h e \<in> set (lbs s) \<longrightarrow> (\<exists>v. Resolved v \<in> set (lbs s) \<and> (h, e) = result_of (lookup v)))"

text \<open>A recorded handle will be removed: by the completion when it settles, or by a call that is under way.\<close>

definition handle_owned :: "'v selection \<Rightarrow> bool" where
  "handle_owned s \<longleftrightarrow> manager_ok (asyncs s) \<and>
     (case chosen s of
        Choosing \<Rightarrow> finishFn (comp s) = None \<and> (\<forall>q. manager_unwrap q (asyncs s) = None)
      | Recorded t \<Rightarrow> finishFn (comp s) = None \<and> (\<forall>q. q \<noteq> t \<longrightarrow> manager_unwrap q (asyncs s) = None)
      | Handed t \<Rightarrow> (\<forall>q. manager_unwrap q (asyncs s) \<noteq> None \<longrightarrow> q = t \<and>
            (\<not> comp_done (comp s) \<and> finishFn (comp s) = Some t \<or> FinishFn t \<in> set (pending_calls s))) \<and>
          (\<not> comp_done (comp s) \<longrightarrow> finishFn (comp s) = Some t))"

definition selection_inv :: "('v \<Rightarrow> HostResult) \<Rightarrow> 'v selection \<Rightarrow> bool" where
  "selection_inv lookup s \<longleftrightarrow> settled_once s \<and> decisions_ok lookup s \<and> handle_owned s"

section \<open>Preservation\<close>

lemma thread_split:
  assumes "i < length xs" "xs ! i = t"
  obtains as bs where "xs = as @ t # bs" "i = length as"
  using assms id_take_nth_drop [OF assms(1)] that by (metis length_take less_imp_le_nat min.absorb2)

lemma occurrences_thread:
  assumes "i < length xs" "xs ! i = c # rest"
  shows "occurrences P (concat (xs[i := ys @ rest])) + of_bool (P c) = occurrences P (concat xs) + occurrences P ys"
  using assms by (rule thread_split) (simp add: list_update_append)

lemma set_thread:
  assumes "i < length xs" "xs ! i = c # rest"
  shows "set (concat (xs[i := ys @ rest])) \<subseteq> set ys \<union> set (concat xs)"
    and "set (concat xs) \<subseteq> insert c (set (concat (xs[i := ys @ rest])))"
  using assms by (rule thread_split, auto simp: list_update_append)+

lemmas selection_ops = selector_callback_def selector_scheduled_def selector_complete_def choose_record_def
  choose_set_finish_def cancel_host_selection_def SetFinishFn_def completion_Cancel_def completion_Complete_def
  finish_calls_def

lemma settled_once_ops:
  assumes "settled_once s"
  shows "settled_once (selector_callback v s)" "settled_once (selector_scheduled lookup s)"
    "settled_once (choose_record tok s)" "settled_once (choose_set_finish tok s)"
    "settled_once (cancel_host_selection b tok s)"
  using assms
  by (auto simp: settled_once_def selection_ops Let_def split: list.splits option.splits if_splits)

lemma exec_call_frame:
  "exec_call call s = (s', calls) \<Longrightarrow> threads s' = threads s \<and> sched s' = sched s \<and> chosen s' = chosen s"
  by (cases call) (auto simp: Let_def split: prod.splits)

lemma settled_once_exec:
  assumes "settled_once s"
  shows "settled_once (exec_thread i s)"
proof (cases "i < length (threads s) \<and> threads s ! i \<noteq> []")
  case True
  then obtain call rest where t: "i < length (threads s)" "threads s ! i = call # rest" by (auto simp: neq_Nil_conv)
  obtain s' calls where e: "exec_call call s = (s', calls)" by fastforce
  have th: "exec_thread i s = s'\<lparr>threads := (threads s)[i := calls @ rest]\<rparr>"
    using t e exec_call_frame [OF e] by (simp add: exec_thread_def)
  have "occurrences is_CompleteFn calls + occurrences is_AsyncComplete (lbs s') + occurrences is_CancelWon (lbs s') +
      of_bool (comp_done (comp s)) = of_bool (is_CompleteFn call) + occurrences is_AsyncComplete (lbs s) +
      occurrences is_CancelWon (lbs s) + of_bool (comp_done (comp s'))" "completeFn (comp s')"
    using e assms by (cases call; auto simp: selection_ops settled_once_def Let_def split: option.splits if_splits)+
  then show ?thesis
    using assms occurrences_thread [OF t, of is_CompleteFn calls] unfolding th settled_once_def by simp
qed (auto simp: exec_thread_def assms)

text \<open>The completions that are due or made.\<close>

definition due :: "'v selection \<Rightarrow> (HostPtr \<times> string) set" where
  "due s = {(h, e). CallComplete h e \<in> set (pending_calls s) \<or> CompleteFn h e \<in> set (pending_calls s) \<or>
     AsyncComplete h e \<in> set (lbs s)}"

lemma decisions_ok_mono:
  assumes "decisions_ok lookup s" "set (lbs s) \<subseteq> set (lbs s')"
    and "\<forall>v\<in>set (sched s'). Resolved v \<in> set (lbs s')"
    and "due s' \<subseteq> due s \<union> {result_of (lookup v) |v. Resolved v \<in> set (lbs s')}"
  shows "decisions_ok lookup s'"
proof -
  have "\<exists>v. Resolved v \<in> set (lbs s') \<and> (h, e) = result_of (lookup v)" if "(h, e) \<in> due s'" for h e
    using that assms(1,2,4) unfolding decisions_ok_def due_def by blast
  then show ?thesis using assms(3) unfolding decisions_ok_def due_def by blast
qed

lemma decisions_ok_ops:
  assumes ok: "decisions_ok lookup s"
  shows "decisions_ok lookup (selector_callback v s)" "decisions_ok lookup (selector_scheduled lookup s)"
    "decisions_ok lookup (choose_record tok s)" "decisions_ok lookup (choose_set_finish tok s)"
    "decisions_ok lookup (cancel_host_selection b tok s)"
  using ok
  by (intro decisions_ok_mono [OF ok];
      auto simp: decisions_ok_def selection_ops due_def result_of_def Let_def split: list.splits option.splits)+

lemma decisions_ok_exec:
  assumes "decisions_ok lookup s"
  shows "decisions_ok lookup (exec_thread i s)"
proof (cases "i < length (threads s) \<and> threads s ! i \<noteq> []")
  case True
  then obtain call rest where t: "i < length (threads s)" "threads s ! i = call # rest" by (auto simp: neq_Nil_conv)
  obtain s' calls where e: "exec_call call s = (s', calls)" by fastforce
  have th: "exec_thread i s = s'\<lparr>threads := (threads s)[i := calls @ rest]\<rparr>"
    using t e exec_call_frame [OF e] by (simp add: exec_thread_def)
  have call: "call \<in> set (pending_calls s)" using t by (metis in_set_conv_nth list.set_intros(1) set_concat UN_I)
  have more: "set (lbs s) \<subseteq> set (lbs s')" "sched s' = sched s"
    using e by (cases call; auto simp: selection_ops Let_def split: if_splits)+
  have "(h, m) \<in> due s"
    if "CallComplete h m \<in> set calls \<or> CompleteFn h m \<in> set calls \<or> AsyncComplete h m \<in> set (lbs s')" for h m
    using that e call by (cases call; auto simp: selection_ops due_def Let_def split: if_splits option.splits)+
  then have "due (exec_thread i s) \<subseteq> due s"
    using set_thread(1) [OF t, of calls] unfolding th due_def by (simp del: set_concat) blast
  then show ?thesis
    using assms more by (intro decisions_ok_mono [OF assms]) (auto simp: th decisions_ok_def)
qed (auto simp: exec_thread_def assms)

lemma handle_owned_ops:
  assumes "handle_owned s"
  shows "handle_owned (selector_callback v s)" "handle_owned (selector_scheduled lookup s)"
    "chosen s = Choosing \<Longrightarrow> tok \<noteq> 0 \<Longrightarrow> handle_owned (choose_record tok s)"
    "chosen s = Recorded tok \<Longrightarrow> handle_owned (choose_set_finish tok s)"
    "handle_owned (cancel_host_selection b tok s)"
proof -
  show "handle_owned (selector_callback v s)"
    using assms unfolding handle_owned_def by (auto simp: selection_ops split: choosing.splits)
  show "handle_owned (selector_scheduled lookup s)"
    using assms unfolding handle_owned_def
    by (auto simp: selection_ops Let_def split: choosing.splits list.splits)
  show "handle_owned (choose_record tok s)" if "chosen s = Choosing" "tok \<noteq> 0"
    using assms that by (simp add: handle_owned_def choose_record_def mgr.record_ok mgr.unwrap_record)
  show "handle_owned (choose_set_finish tok s)" if "chosen s = Recorded tok"
    using assms that by (auto simp: handle_owned_def choose_set_finish_def SetFinishFn_def Let_def)
  show "handle_owned (cancel_host_selection b tok s)"
    using assms unfolding handle_owned_def
    by (auto simp: selection_ops Let_def split: choosing.splits option.splits)
qed

lemma handle_owned_exec:
  assumes "handle_owned s"
  shows "handle_owned (exec_thread i s)"
proof (cases "i < length (threads s) \<and> threads s ! i \<noteq> []")
  case True
  then obtain call rest where t: "i < length (threads s)" "threads s ! i = call # rest" by (auto simp: neq_Nil_conv)
  obtain s' calls where e: "exec_call call s = (s', calls)" by fastforce
  have th: "exec_thread i s = s'\<lparr>threads := (threads s)[i := calls @ rest]\<rparr>"
    using t e exec_call_frame [OF e] by (simp add: exec_thread_def)
  have fin: "FinishFn q \<in> set (concat ((threads s)[i := calls @ rest])) \<or> call = FinishFn q"
    if "FinishFn q \<in> set (pending_calls s)" for q
    using that set_thread(2) [OF t, of calls] by blast
  have new: "set calls \<subseteq> set (concat ((threads s)[i := calls @ rest]))"
    using t by (auto simp: set_update_memI intro!: bexI [of _ "calls @ rest"])
  have mok: "manager_ok (asyncs s)" "manager_ok (asyncs s')" "chosen s' = chosen s"
    "\<And>q. manager_unwrap q (asyncs s') = (if call = FinishFn q then None else manager_unwrap q (asyncs s))"
    using assms e by (cases call; auto simp: handle_owned_def mgr.remove_ok mgr.unwrap_remove Let_def split: prod.splits)+
  have comp: "comp s' = comp s \<or> \<not> comp_done (comp s) \<and> comp_done (comp s') \<and> finishFn (comp s') = finishFn (comp s) \<and>
      (\<forall>q. finishFn (comp s) = Some q \<longrightarrow> FinishFn q \<in> set calls)"
    using e by (cases call) (auto simp: selection_ops Let_def split: if_splits)
  show ?thesis
    using comp
  proof (elim disjE conjE)
    assume "comp s' = comp s"
    then show ?thesis
      using assms fin mok unfolding th handle_owned_def
      by (cases "chosen s") (auto simp del: set_concat)
  next
    assume "comp_done (comp s')" "finishFn (comp s') = finishFn (comp s)"
      "\<forall>q. finishFn (comp s) = Some q \<longrightarrow> FinishFn q \<in> set calls"
    then show ?thesis
      using assms fin mok new unfolding th handle_owned_def
      by (cases "chosen s") (auto simp del: set_concat, blast)
  qed
qed (auto simp: exec_thread_def assms)

lemma selection_step_inv: "selection_step lookup s s' \<Longrightarrow> selection_inv lookup s \<Longrightarrow> selection_inv lookup s'"
  by (induction rule: selection_step.induct)
     (simp_all add: selection_inv_def settled_once_ops decisions_ok_ops handle_owned_ops
       settled_once_exec decisions_ok_exec handle_owned_exec)

lemma selection_run_inv: "selection_run lookup s s' \<Longrightarrow> selection_inv lookup s \<Longrightarrow> selection_inv lookup s'"
  by (induction rule: selection_run.induct) (auto intro: selection_step_inv)

lemma ChooseHost_inv: "ChooseHost (Some p) = Some (s, i, p') \<Longrightarrow> selection_inv lookup s"
  by (auto simp: ChooseHost_def Let_def split_beta selection_inv_def settled_once_def decisions_ok_def handle_owned_def
      NewCompletion_def SetCompleteFn_def new_completion_def mgr.empty_ok)

section \<open>Properties\<close>

text \<open>C3. However resolution, main-thread completion, cancellation and the two halves of \<open>choose_host\<close>
  interleave, Envoy's completion is called at most once, never if a cancellation won, and only with the
  host or error that the lookup gives for a value the promise was resolved with.\<close>

theorem selection_settles_once:
  assumes "ChooseHost (Some p) = Some (s0, i, p')" "selection_run lookup s0 s"
  shows "occurrences is_AsyncComplete (lbs s) + occurrences is_CancelWon (lbs s) \<le> 1 \<and>
    (\<forall>h e. AsyncComplete h e \<in> set (lbs s) \<longrightarrow> (\<exists>v. Resolved v \<in> set (lbs s) \<and> (h, e) = result_of (lookup v)))"
proof -
  have "selection_inv lookup s" using selection_run_inv [OF assms(2) ChooseHost_inv [OF assms(1)]] .
  then have s: "settled_once s" and d: "decisions_ok lookup s" by (simp_all add: selection_inv_def)
  have "occurrences is_AsyncComplete (lbs s) + occurrences is_CancelWon (lbs s) \<le> of_bool (comp_done (comp s))"
    using s unfolding settled_once_def by linarith
  also have "\<dots> \<le> (1 :: nat)" by simp
  finally show ?thesis using d unfolding decisions_ok_def by blast
qed

definition demo_lookup :: "string \<Rightarrow> HostResult" where
  "demo_lookup v = (if v = '''' then \<lparr>hr_Host = 0, hr_ErrDetail = ''no host''\<rparr> else \<lparr>hr_Host = length v, hr_ErrDetail = ''''\<rparr>)"

definition demo_selection :: "string selection" where
  "demo_selection = fst (the (ChooseHost (Some NewStreamPromise)))"

lemma demo_ChooseHost: "ChooseHost (Some NewStreamPromise) = Some (demo_selection, snd (the (ChooseHost (Some NewStreamPromise))))"
  by (simp add: demo_selection_def ChooseHost_def Let_def split_beta)

text \<open>The decision arrives before the handle is recorded, and is completed before the finish function is set.\<close>

definition demo_settled :: "string selection" where
  "demo_settled = exec_thread 1 (choose_set_finish 7 (exec_thread 0 (exec_thread 0 (exec_thread 0
     (choose_record 7 (selector_scheduled demo_lookup (selector_callback ''host'' demo_selection)))))))"

lemma demo_settled_run: "selection_run demo_lookup demo_selection demo_settled"
  unfolding demo_settled_def
  by (intro sel_step [OF _ exec] sel_step [OF _ set_finish] sel_step [OF _ handle] sel_step [OF _ scheduled]
      sel_step [OF _ resolve] sel_refl)
    code_simp+

theorem selection_settles_once_witness:
  "AsyncComplete 4 '''' \<in> set (lbs demo_settled) \<and> occurrences is_AsyncComplete (lbs demo_settled) \<le> 1"
proof -
  have "AsyncComplete 4 '''' \<in> set (lbs demo_settled)" by code_simp
  then show ?thesis
    using selection_settles_once [of NewStreamPromise demo_selection _ _ demo_lookup demo_settled] demo_ChooseHost demo_settled_run
    by (metis add_leD1 prod.collapse)
qed

text \<open>C13. No handle leaks: once a selection has settled and no call is under way, its token is in the
  table no more, whichever of completion, cancellation and \<open>SetFinishFn\<close> came first.\<close>

theorem settled_selection_frees_handle:
  assumes "ChooseHost (Some p) = Some (s0, i, p')" "selection_run lookup s0 s"
    and "chosen s = Handed tok" "comp_done (comp s)" "concat (threads s) = []"
  shows "manager_unwrap q (asyncs s) = None"
proof -
  have "handle_owned s"
    using selection_run_inv [OF assms(2) ChooseHost_inv [OF assms(1)]] by (simp add: selection_inv_def)
  then show ?thesis using assms(3-5) unfolding handle_owned_def by (cases "manager_unwrap q (asyncs s)") auto
qed

theorem settled_selection_frees_handle_witness:
  "chosen demo_settled = Handed 7 \<and> manager_unwrap 7 (asyncs demo_settled) = None"
proof -
  have s: "chosen demo_settled = Handed 7" "comp_done (comp demo_settled)" "concat (threads demo_settled) = []"
    by code_simp+
  show ?thesis
    using settled_selection_frees_handle [of NewStreamPromise demo_selection _ _ demo_lookup demo_settled, OF _ demo_settled_run s]
      demo_ChooseHost s(1) by (metis prod.collapse)
qed

section \<open>Every resolution is answered\<close>

text \<open>A resolved selection is on its way to being settled: its completion is scheduled, or called by a goroutine, or
  done; and the selector marks a selection cancelled only when it is.\<close>

definition being_answered :: "'v selection \<Rightarrow> bool" where
  "being_answered s \<longleftrightarrow>
     ((\<exists>v. Resolved v \<in> set (lbs s)) \<longrightarrow> sched s \<noteq> [] \<or> (\<exists>h e. CallComplete h e \<in> set (pending_calls s)) \<or> comp_done (comp s)) \<and>
     (is_cancelled s \<or> SelectorCancel \<in> set (pending_calls s) \<longrightarrow> comp_done (comp s))"

lemma being_answered_ops:
  assumes "being_answered s"
  shows "being_answered (selector_callback v s)" "being_answered (selector_scheduled lookup s)"
    "being_answered (choose_record tok s)" "being_answered (choose_set_finish tok s)"
    "being_answered (cancel_host_selection b tok s)"
  using assms by (auto simp: being_answered_def selection_ops Let_def split: list.splits option.splits)

lemma being_answered_exec:
  assumes "being_answered s"
  shows "being_answered (exec_thread i s)"
proof (cases "i < length (threads s) \<and> threads s ! i \<noteq> []")
  case True
  then obtain call rest where t: "i < length (threads s)" "threads s ! i = call # rest" by (auto simp: neq_Nil_conv)
  obtain s' calls where e: "exec_call call s = (s', calls)" by fastforce
  have th: "exec_thread i s = s'\<lparr>threads := (threads s)[i := calls @ rest]\<rparr>"
    using t e exec_call_frame [OF e] by (simp add: exec_thread_def)
  have call: "call \<in> set (pending_calls s)" using t by (metis in_set_conv_nth list.set_intros(1) set_concat UN_I)
  have kept: "c \<in> set (concat ((threads s)[i := calls @ rest]))" if "c \<in> set (pending_calls s)" "c \<noteq> call" for c
    using that set_thread(2) [OF t, of calls] by blast
  have new: "c \<in> set (pending_calls s)" if "c \<in> set (concat ((threads s)[i := calls @ rest]))" "c \<notin> set calls" for c
    using that set_thread(1) [OF t, of calls] by blast
  have "sched s' = sched s" "Resolved v \<in> set (lbs s') \<longleftrightarrow> Resolved v \<in> set (lbs s)" "comp_done (comp s) \<Longrightarrow> comp_done (comp s')"
      "SelectorCancel \<notin> set calls" "is_cancelled s' \<Longrightarrow> is_cancelled s \<or> call = SelectorCancel"
      "(\<exists>h m. call = CallComplete h m) \<Longrightarrow> comp_done (comp s')" for v
    using e by (cases call; auto simp: selection_ops Let_def split: if_splits option.splits)+
  then show ?thesis
    using assms call kept new unfolding th being_answered_def by (simp del: set_concat) blast
qed (auto simp: exec_thread_def assms)

lemma being_answered_run: "selection_run lookup s s' \<Longrightarrow> being_answered s \<Longrightarrow> being_answered s'"
  by (induction rule: selection_run.induct)
     (auto elim!: selection_step.cases intro: being_answered_ops being_answered_exec)

lemma ChooseHost_being_answered: "ChooseHost (Some p) = Some (s, i, p') \<Longrightarrow> being_answered s"
  by (auto simp: ChooseHost_def Let_def split_beta being_answered_def NewCompletion_def SetCompleteFn_def new_completion_def)

text \<open>The steps that are due without any further move of the filter or of Envoy: the main thread runs a scheduled
  completion, or a goroutine makes its next call.\<close>

inductive selection_due :: "('v \<Rightarrow> HostResult) \<Rightarrow> 'v selection \<Rightarrow> 'v selection \<Rightarrow> bool" for lookup where
  due_scheduled: "sched s \<noteq> [] \<Longrightarrow> selection_due lookup s (selector_scheduled lookup s)"
| due_exec: "i < length (threads s) \<Longrightarrow> threads s ! i \<noteq> [] \<Longrightarrow> selection_due lookup s (exec_thread i s)"

lemma selection_due_step: "selection_due lookup s s' \<Longrightarrow> selection_step lookup s s'"
  by (induction rule: selection_due.induct) (auto intro: selection_step.intros)

fun call_weight :: "lb_call \<Rightarrow> nat" where
  "call_weight (CallComplete h e) = 3"
| "call_weight SelectorCancel = 2"
| "call_weight _ = 1"

definition work_left :: "'v selection \<Rightarrow> nat" where
  "work_left s = 5 * length (sched s) + sum_list (map call_weight (pending_calls s))"

lemma selection_due_decreases:
  assumes "selection_due lookup s s'"
  shows "work_left s' < work_left s"
  using assms
proof cases
  case due_scheduled
  then show ?thesis by (auto simp: work_left_def selection_ops Let_def neq_Nil_conv)
next
  case (due_exec i)
  then obtain call rest where t: "threads s ! i = call # rest" by (auto simp: neq_Nil_conv)
  obtain s1 calls where e: "exec_call call s = (s1, calls)" by fastforce
  have th: "s' = s1\<lparr>threads := (threads s)[i := calls @ rest]\<rparr>"
    using t e exec_call_frame [OF e] due_exec by (simp add: exec_thread_def)
  obtain as bs where x: "threads s = as @ (call # rest) # bs" "i = length as" by (rule thread_split [OF due_exec(2) t])
  have "sum_list (map call_weight calls) < call_weight call" "sched s1 = sched s"
    using e by (cases call; auto simp: selection_ops Let_def split: if_splits option.splits)+
  then show ?thesis by (simp add: th work_left_def x list_update_append)
qed

lemma not_due_at_rest:
  assumes "\<nexists>s'. selection_due lookup s s'"
  shows "sched s = [] \<and> pending_calls s = []"
proof -
  have "sched s = []" using assms by (auto intro: due_scheduled)
  moreover have "t = []" if "t \<in> set (threads s)" for t
    using that assms due_exec [of _ s lookup] by (metis in_set_conv_nth)
  ultimately show ?thesis by simp
qed

definition is_settlement :: "'v lb_event \<Rightarrow> bool" where
  "is_settlement e = (is_AsyncComplete e \<or> is_CancelWon e)"

lemma settlement_alone:
  assumes "occurrences is_AsyncComplete es + occurrences is_CancelWon es = 1"
  shows "filter is_settlement es = [CancelWon] \<or> (\<exists>h m. filter is_settlement es = [AsyncComplete h m])"
proof -
  have "occurrences is_settlement es = occurrences is_AsyncComplete es + occurrences is_CancelWon es"
    by (induction es) (auto simp: is_settlement_def split: lb_event.splits)
  then obtain e where e: "filter is_settlement es = [e]" using assms by (auto simp: length_Suc_conv)
  have "e \<in> set (filter is_settlement es)" unfolding e by simp
  then have "is_settlement e" by (simp only: set_filter mem_Collect_eq)
  with e show ?thesis by (cases e) (auto simp: is_settlement_def)
qed

text \<open>C26. A resolved selection is always settled. In every state that resolution, main-thread completion,
  cancellation, the two halves of \<open>choose_host\<close> and the goroutines' calls can reach in any interleaving after the
  promise was resolved: each step that is due, which is a scheduled completion or the next call of a goroutine,
  brings the end nearer; and where none is due, Envoy has been told exactly once, either by a completion with the
  host or the error that the lookup gives for a resolved value, or by its own cancellation having won.\<close>

theorem resolution_completes:
  assumes "ChooseHost (Some p) = Some (s0, i, p')" "selection_run lookup s0 s" "Resolved v \<in> set (lbs s)"
  shows "(\<forall>s'. selection_due lookup s s' \<longrightarrow> work_left s' < work_left s) \<and>
    ((\<nexists>s'. selection_due lookup s s') \<longrightarrow>
      filter is_settlement (lbs s) = [CancelWon] \<or>
      (\<exists>u. Resolved u \<in> set (lbs s) \<and>
        filter is_settlement (lbs s) = [AsyncComplete (fst (result_of (lookup u))) (snd (result_of (lookup u)))]))"
proof (intro conjI impI)
  show "\<forall>s'. selection_due lookup s s' \<longrightarrow> work_left s' < work_left s" by (simp add: selection_due_decreases)
  assume "\<nexists>s'. selection_due lookup s s'"
  then have rest: "sched s = []" "pending_calls s = []" using not_due_at_rest by blast+
  have "being_answered s" by (rule being_answered_run [OF assms(2) ChooseHost_being_answered [OF assms(1)]])
  then have "comp_done (comp s)" using assms(3) rest unfolding being_answered_def by auto
  moreover have inv: "settled_once s" "decisions_ok lookup s"
    using selection_run_inv [OF assms(2) ChooseHost_inv [OF assms(1)]] by (simp_all add: selection_inv_def)
  ultimately have one: "occurrences is_AsyncComplete (lbs s) + occurrences is_CancelWon (lbs s) = 1"
    using rest unfolding settled_once_def by simp
  have "\<exists>u. Resolved u \<in> set (lbs s) \<and> (h, m) = result_of (lookup u)" if "filter is_settlement (lbs s) = [AsyncComplete h m]" for h m
  proof -
    have "AsyncComplete h m \<in> set (lbs s)" using arg_cong [OF that, of set] by auto
    then show ?thesis using inv(2) unfolding decisions_ok_def by blast
  qed
  then show "filter is_settlement (lbs s) = [CancelWon] \<or>
      (\<exists>u. Resolved u \<in> set (lbs s) \<and>
        filter is_settlement (lbs s) = [AsyncComplete (fst (result_of (lookup u))) (snd (result_of (lookup u)))])"
    using settlement_alone [OF one] by (metis fst_conv snd_conv)
qed

text \<open>The decision has reached the main thread, which has not completed yet, when Envoy cancels.\<close>

definition demo_raced :: "string selection" where
  "demo_raced = exec_thread 2 (exec_thread 2 (exec_thread 2 (exec_thread 1 (exec_thread 1 (cancel_host_selection True 7
     (selector_scheduled demo_lookup (selector_callback ''host'' (choose_set_finish 7 (choose_record 7 demo_selection)))))))))"

lemma demo_raced_run: "selection_run demo_lookup demo_selection demo_raced"
  unfolding demo_raced_def
  by (intro sel_step [OF _ exec] sel_step [OF _ set_finish] sel_step [OF _ handle] sel_step [OF _ scheduled]
      sel_step [OF _ resolve] sel_step [OF _ selection_step.cancel] sel_refl) code_simp+

theorem resolution_completes_witness:
  "filter is_settlement (lbs demo_settled) = [AsyncComplete 4 ''''] \<and> filter is_settlement (lbs demo_raced) = [CancelWon]"
proof -
  have rest: "\<nexists>s'. selection_due lookup s s'" if "sched s = []" "concat (threads s) = []" for lookup and s :: "string selection"
    using that by (auto elim!: selection_due.cases)
  have none: "filter is_settlement (lbs s) = [CancelWon] \<or> (\<exists>u. Resolved u \<in> set (lbs s) \<and>
        filter is_settlement (lbs s) = [AsyncComplete (fst (result_of (demo_lookup u))) (snd (result_of (demo_lookup u)))])"
    if "selection_run demo_lookup demo_selection s" "Resolved ''host'' \<in> set (lbs s)" "sched s = []" "concat (threads s) = []" for s
    using resolution_completes [of NewStreamPromise demo_selection _ _ demo_lookup s, OF _ that(1,2)] demo_ChooseHost rest [OF that(3,4)]
    by (metis prod.collapse)
  have 1: "Resolved ''host'' \<in> set (lbs demo_settled)" "sched demo_settled = []" "concat (threads demo_settled) = []"
      "set (lbs demo_settled) = {Resolved ''host'', ObsSelected 4, AsyncComplete 4 ''''}" by code_simp+
  have 2: "Resolved ''host'' \<in> set (lbs demo_raced)" "sched demo_raced = []" "concat (threads demo_raced) = []"
      "is_CancelWon (hd (filter is_settlement (lbs demo_raced)))" by code_simp+
  have r: "result_of (demo_lookup ''host'') = (4, '''')" by code_simp
  have "filter is_settlement (lbs demo_settled) = [AsyncComplete 4 '''']"
    using none [OF demo_settled_run 1(1-3)] 1(4) r by (auto dest!: arg_cong [of _ _ set])
  moreover have "filter is_settlement (lbs demo_raced) = [CancelWon]"
    using none [OF demo_raced_run 2(1-3)] 2(4) by auto
  ultimately show ?thesis by blast
qed

text \<open>A cancellation can return to Envoy while a completion is still on its way: \<open>Complete\<close> marks the
  selection done before it calls Envoy, \<open>Cancel\<close> then gives up, and the call with the pointers of the
  cancelled request comes afterwards.\<close>

lemma cancel_returns_before_completion:
  "\<exists>s s'. selection_run demo_lookup demo_selection s \<and> last (lbs s) = CancelLost \<and>
     selection_run demo_lookup s s' \<and> last (lbs s') = AsyncComplete 4 ''''"
proof -
  define s where "s = cancel_host_selection True 7 (exec_thread 1 (exec_thread 1
     (selector_scheduled demo_lookup (selector_callback ''host'' (choose_set_finish 7 (choose_record 7 demo_selection))))))"
  have "selection_run demo_lookup demo_selection s"
    unfolding s_def
    by (intro sel_step [OF _ exec] sel_step [OF _ set_finish] sel_step [OF _ handle] sel_step [OF _ scheduled]
        sel_step [OF _ resolve] sel_step [OF _ selection_step.cancel] sel_refl) code_simp+
  moreover have "last (lbs s) = CancelLost" "last (lbs (exec_thread 1 s)) = AsyncComplete 4 ''''"
    unfolding s_def by code_simp+
  moreover have "selection_run demo_lookup s (exec_thread 1 s)" by (intro sel_step [OF _ exec] sel_refl)
  ultimately show ?thesis by blast
qed

text \<open>A cancelled selection whose promise is never resolved leaves its entry in the selector's
  \<open>cancelled\<close> map for ever: nothing is scheduled or under way that would remove it.\<close>

lemma cancelled_entry_stays:
  "\<exists>s. selection_run demo_lookup demo_selection s \<and> is_cancelled s \<and> sched s = [] \<and> concat (threads s) = [] \<and>
     comp_done (comp s)"
proof -
  define s where "s = exec_thread 1 (exec_thread 1 (exec_thread 1 (cancel_host_selection True 7
     (choose_set_finish 7 (choose_record 7 demo_selection)))))"
  have "selection_run demo_lookup demo_selection s"
    unfolding s_def
    by (intro sel_step [OF _ exec] sel_step [OF _ set_finish] sel_step [OF _ handle]
        sel_step [OF _ selection_step.cancel] sel_refl) code_simp+
  moreover have "is_cancelled s" "sched s = []" "concat (threads s) = []" "comp_done (comp s)"
    unfolding s_def by code_simp+
  ultimately show ?thesis by blast
qed

end
