(* ===== verification/Router.thy ===== *)
theory Router
  imports Filter_Factory
begin

text \<open>
  The request router (\<^verbatim>\<open>src/up/router.go\<close>): an ordered list of routes and the dispatch of a request
  to the handler of the first matching one, exact routes before prefix routes. A handler is what
  it is for the filter, the script of its Writer calls; \<open>Dispatch\<close> is itself such a handler.
\<close>

section \<open>Routes\<close>

record routeEntry =
  re_method :: string
  re_path :: string
  re_prefix :: bool
  re_handler :: handler_func

record router =
  routes :: "routeEntry list"
  notFound :: "handler_func option"

definition NewRouter :: "handler_func option \<Rightarrow> router" where
  "NewRouter nf = \<lparr>routes = [], notFound = nf\<rparr>"

definition Router_Handle :: "string \<Rightarrow> string \<Rightarrow> handler_func \<Rightarrow> router \<Rightarrow> router" where
  "Router_Handle meth path h r =
     r\<lparr>routes := routes r @ [\<lparr>re_method = meth, re_path = path, re_prefix = False, re_handler = h\<rparr>]\<rparr>"

definition HandlePrefix :: "string \<Rightarrow> string \<Rightarrow> handler_func \<Rightarrow> router \<Rightarrow> router" where
  "HandlePrefix meth pathPrefix h r =
     r\<lparr>routes := routes r @ [\<lparr>re_method = meth, re_path = pathPrefix, re_prefix = True, re_handler = h\<rparr>]\<rparr>"

definition Router_GET :: "string \<Rightarrow> handler_func \<Rightarrow> router \<Rightarrow> router" where
  "Router_GET path h r = Router_Handle ''GET'' path h r"

definition Router_POST :: "string \<Rightarrow> handler_func \<Rightarrow> router \<Rightarrow> router" where
  "Router_POST path h r = Router_Handle ''POST'' path h r"

definition Router_DELETE :: "string \<Rightarrow> handler_func \<Rightarrow> router \<Rightarrow> router" where
  "Router_DELETE path h r = Router_Handle ''DELETE'' path h r"

definition GETPrefix :: "string \<Rightarrow> handler_func \<Rightarrow> router \<Rightarrow> router" where
  "GETPrefix pre h r = HandlePrefix ''GET'' pre h r"

definition POSTPrefix :: "string \<Rightarrow> handler_func \<Rightarrow> router \<Rightarrow> router" where
  "POSTPrefix pre h r = HandlePrefix ''POST'' pre h r"

definition DELETEPrefix :: "string \<Rightarrow> handler_func \<Rightarrow> router \<Rightarrow> router" where
  "DELETEPrefix pre h r = HandlePrefix ''DELETE'' pre h r"

section \<open>Matching\<close>

text \<open>The first half of \<^verbatim>\<open>strings.Cut\<close> at a one-byte separator.\<close>

definition cut_before :: "char \<Rightarrow> string \<Rightarrow> string" where
  "cut_before c s = takeWhile (\<lambda>x. x \<noteq> c) s"

definition pathHasPrefix :: "string \<Rightarrow> string \<Rightarrow> bool" where
  "pathHasPrefix path pre =
     (if \<not> HasPrefix path pre then False
      else let rest = drop (length pre) path in rest = '''' \<or> rest ! 0 = CHR ''/'')"

text \<open>The loop over the routes, with the first prefix match found so far.\<close>

fun find_route :: "string \<Rightarrow> string \<Rightarrow> routeEntry option \<Rightarrow> routeEntry list \<Rightarrow> routeEntry option" where
  "find_route meth path prefixMatch [] = prefixMatch"
| "find_route meth path prefixMatch (rt # rts) =
     (if meth \<noteq> re_method rt then find_route meth path prefixMatch rts
      else if \<not> re_prefix rt then
        (if path = re_path rt then Some rt else find_route meth path prefixMatch rts)
      else if prefixMatch = None \<and> pathHasPrefix path (re_path rt) then find_route meth path (Some rt) rts
      else find_route meth path prefixMatch rts)"

definition Dispatch :: "router \<Rightarrow> handler_func" where
  "Dispatch r req =
     (let path = cut_before (CHR ''?'') (Path req) in
      case find_route (Method req) path None (routes r) of
        Some rt \<Rightarrow> re_handler rt req
      | None \<Rightarrow> (case notFound r of Some nf \<Rightarrow> nf req | None \<Rightarrow> []))"

section \<open>The routing rule\<close>

text \<open>
  What dispatch promises: the first exact route for the meth and path, else the first prefix route
  whose path is a sequence of whole segments at the head of the request's path, else nothing.
\<close>

definition exact_match :: "string \<Rightarrow> string \<Rightarrow> routeEntry \<Rightarrow> bool" where
  "exact_match meth path rt \<longleftrightarrow> re_method rt = meth \<and> \<not> re_prefix rt \<and> re_path rt = path"

definition prefix_match :: "string \<Rightarrow> string \<Rightarrow> routeEntry \<Rightarrow> bool" where
  "prefix_match meth path rt \<longleftrightarrow>
     re_method rt = meth \<and> re_prefix rt \<and> (\<exists>rest. path = re_path rt @ rest \<and> (rest = [] \<or> hd rest = CHR ''/''))"

definition chosen_route :: "string \<Rightarrow> string \<Rightarrow> routeEntry list \<Rightarrow> routeEntry option" where
  "chosen_route meth path rts =
     (case find (exact_match meth path) rts of
        Some rt \<Rightarrow> Some rt
      | None \<Rightarrow> find (prefix_match meth path) rts)"

lemma HasPrefix_iff: "HasPrefix s pre \<longleftrightarrow> (\<exists>rest. s = pre @ rest)"
  unfolding HasPrefix_def by (metis append_eq_conv_conj append_take_drop_id)

lemma pathHasPrefix_iff:
  "pathHasPrefix path pre \<longleftrightarrow> (\<exists>rest. path = pre @ rest \<and> (rest = [] \<or> hd rest = CHR ''/''))"
proof -
  have "rest = [] \<or> rest ! 0 = CHR ''/'' \<longleftrightarrow> rest = [] \<or> hd rest = CHR ''/''" for rest :: string
    by (cases rest) auto
  then show ?thesis by (auto simp: pathHasPrefix_def HasPrefix_iff Let_def)
qed

lemma find_route_eq:
  "find_route meth path pm rts =
     (case find (exact_match meth path) rts of
        Some rt \<Rightarrow> Some rt
      | None \<Rightarrow> (case pm of Some rt \<Rightarrow> Some rt | None \<Rightarrow> find (prefix_match meth path) rts))"
  by (induction meth path pm rts rule: find_route.induct)
     (auto simp: exact_match_def prefix_match_def pathHasPrefix_iff split: option.splits)

section \<open>Properties\<close>

text \<open>C29. \<open>Dispatch\<close> runs the first exact route for the meth and the path without its query, whatever
  prefix routes come before it; failing that the first prefix route that matches by whole segments, then
  the not-found handler, and makes no call at all without one.\<close>

theorem dispatch_follows_routing_rule:
  "Dispatch r req =
     (case chosen_route (Method req) (takeWhile (\<lambda>c. c \<noteq> CHR ''?'') (Path req)) (routes r) of
        Some rt \<Rightarrow> re_handler rt req
      | None \<Rightarrow> (case notFound r of Some nf \<Rightarrow> nf req | None \<Rightarrow> []))"
  by (simp add: Dispatch_def Let_def cut_before_def find_route_eq chosen_route_def split: option.split)

text \<open>A prefix that ends in a slash matches none of the paths below it: the byte after the prefix
  would have to be another slash.\<close>

lemma trailing_slash_prefix_matches_nothing_below:
  assumes "rest \<noteq> ''''" "hd rest \<noteq> CHR ''/''"
  shows "find_route meth ((pre @ ''/'') @ rest) None (routes (HandlePrefix meth (pre @ ''/'') h (NewRouter nf))) = None"
  using assms by (auto simp: HandlePrefix_def NewRouter_def pathHasPrefix_iff)

lemma trailing_slash_prefix_matches_nothing_below_example:
  "find_route ''GET'' ''/v1/x'' None (routes (GETPrefix ''/v1/'' (\<lambda>_. []) (NewRouter None))) = None"
  using trailing_slash_prefix_matches_nothing_below [of "''x''" "''GET''" "''/v1''" "\<lambda>_. []" None]
  by (simp add: GETPrefix_def)

end
