(* ===== verification/Cluster_ABI.thy ===== *)
theory Cluster_ABI
  imports Token_Table Cluster_Handle Registries
begin

text \<open>
  The exported ABI functions of the cluster extension (\<^verbatim>\<open>src/down/abi_impl/cluster.go\<close>): configurations,
  clusters and per-worker load balancers are created for Envoy as tokens, and every later call looks
  its object up. The user's objects are numbers; what their constructors return is an argument. The
  calls that reach user code are logged with the token they came through.
\<close>

section \<open>State\<close>

text \<open>A factory, and its \<open>CreateWithMetrics\<close> if it implements \<open>ClusterFactoryWithMetrics\<close>.\<close>

record cluster_factory =
  cfac_Create :: "bytes \<Rightarrow> string + nat"
  cfac_CreateWithMetrics :: "(bytes \<Rightarrow> string + nat) option"

record 'f clusterWrapper =
  cw_cluster :: nat
  cw_handle :: "'f cluster_handle"

datatype 'f abi_event =
    ConfigClose nat nat
  | ClusterInit nat nat
  | ClusterServerInitialized nat nat
  | ClusterDrainStarted nat nat
  | ClusterShutdown nat nat
  | ClusterRun nat 'f
  | ClusterNewLB nat nat
  | ClusterClose nat nat
  | LBMembershipUpdate nat nat nat nat
  | LBClose nat nat
  | CompletionCallback
  | SchedulerDelete nat
  | NoFactoryRegistered string
  | CreateFailed string string

text \<open>User code may keep the handle of a cluster that was destroyed; \<open>orphans\<close> has such handles under the token
  their cluster had.\<close>

record 'f cluster_abi =
  configs :: "nat manager"
  clusters :: "'f clusterWrapper manager"
  orphans :: "nat \<rightharpoonup> 'f cluster_handle"
  lb_table :: "nat manager"
  abi_log :: "'f abi_event list"

definition log_abi :: "'f abi_event \<Rightarrow> 'f cluster_abi \<Rightarrow> 'f cluster_abi" where
  "log_abi e s = s\<lparr>abi_log := abi_log s @ [e]\<rparr>"

definition new_cluster_abi :: "'f cluster_abi" where
  "new_cluster_abi = \<lparr>configs = newManager, clusters = newManager, orphans = Map.empty, lb_table = newManager, abi_log = []\<rparr>"

section \<open>Creation\<close>

text \<open>The result is the token for Envoy, 0 being null; \<open>tok\<close> is the address \<open>record\<close> obtains.\<close>

definition on_cluster_config_new ::
    "cluster_factory registry_map \<Rightarrow> nat \<Rightarrow> string \<Rightarrow> bytes \<Rightarrow> 'f cluster_abi \<Rightarrow> nat \<times> 'f cluster_abi" where
  "on_cluster_config_new registry tok nm cfg s =
     (case GetClusterFactory nm registry of
        None \<Rightarrow> (0, log_abi (NoFactoryRegistered nm) s)
      | Some f \<Rightarrow>
          (case (case cfac_CreateWithMetrics f of Some cwm \<Rightarrow> cwm cfg | None \<Rightarrow> cfac_Create f cfg) of
             Inl err \<Rightarrow> (0, log_abi (CreateFailed nm err) s)
           | Inr c \<Rightarrow> (tok, s\<lparr>configs := manager_record tok c (configs s)\<rparr>)))"

definition on_cluster_config_destroy :: "nat \<Rightarrow> 'f cluster_abi \<Rightarrow> 'f cluster_abi" where
  "on_cluster_config_destroy ptr s =
     (case manager_unwrap ptr (configs s) of
        None \<Rightarrow> s
      | Some c \<Rightarrow> (let s = log_abi (ConfigClose ptr c) s in s\<lparr>configs := manager_remove ptr (configs s)\<rparr>))"

definition on_cluster_new :: "(nat \<Rightarrow> nat option) \<Rightarrow> nat \<Rightarrow> nat \<Rightarrow> 'f cluster_abi \<Rightarrow> nat \<times> 'f cluster_abi" where
  "on_cluster_new newCluster tok configPtr s =
     (case manager_unwrap configPtr (configs s) of
        None \<Rightarrow> (0, s)
      | Some cw \<Rightarrow>
          (case newCluster cw of
             None \<Rightarrow> (0, s)
           | Some cl \<Rightarrow> (tok, s\<lparr>clusters := manager_record tok \<lparr>cw_cluster = cl, cw_handle = newClusterHandle\<rparr> (clusters s)\<rparr>)))"

definition on_cluster_lb_new :: "(nat \<Rightarrow> nat option) \<Rightarrow> nat \<Rightarrow> nat \<Rightarrow> 'f cluster_abi \<Rightarrow> nat \<times> 'f cluster_abi" where
  "on_cluster_lb_new newLB tok clusterPtr s =
     (case manager_unwrap clusterPtr (clusters s) of
        None \<Rightarrow> (0, s)
      | Some cw \<Rightarrow>
          (let s = log_abi (ClusterNewLB clusterPtr (cw_cluster cw)) s in
           case newLB (cw_cluster cw) of
             None \<Rightarrow> (0, s)
           | Some lb \<Rightarrow> (tok, s\<lparr>lb_table := manager_record tok lb (lb_table s)\<rparr>)))"

section \<open>Lifecycle calls\<close>

text \<open>The common shape: look the cluster up, call it, do nothing for an unknown token.\<close>

definition with_cluster ::
    "nat \<Rightarrow> ('f clusterWrapper \<Rightarrow> 'f cluster_abi \<Rightarrow> 'f cluster_abi) \<Rightarrow> 'f cluster_abi \<Rightarrow> 'f cluster_abi" where
  "with_cluster ptr k s = (case manager_unwrap ptr (clusters s) of None \<Rightarrow> s | Some w \<Rightarrow> k w s)"

definition on_cluster_init :: "nat \<Rightarrow> 'f cluster_abi \<Rightarrow> 'f cluster_abi" where
  "on_cluster_init ptr = with_cluster ptr (\<lambda>w. log_abi (ClusterInit ptr (cw_cluster w)))"

definition on_cluster_server_initialized :: "nat \<Rightarrow> 'f cluster_abi \<Rightarrow> 'f cluster_abi" where
  "on_cluster_server_initialized ptr = with_cluster ptr (\<lambda>w. log_abi (ClusterServerInitialized ptr (cw_cluster w)))"

definition on_cluster_drain_started :: "nat \<Rightarrow> 'f cluster_abi \<Rightarrow> 'f cluster_abi" where
  "on_cluster_drain_started ptr = with_cluster ptr (\<lambda>w. log_abi (ClusterDrainStarted ptr (cw_cluster w)))"

text \<open>The handle's \<open>destroy\<close> deletes its Envoy scheduler, if it made one.\<close>

definition on_cluster_destroy :: "nat \<Rightarrow> 'f cluster_abi \<Rightarrow> 'f cluster_abi" where
  "on_cluster_destroy ptr = with_cluster ptr (\<lambda>w s.
     let s = log_abi (ClusterClose ptr (cw_cluster w)) s;
         s = (if scheduler (cw_handle w) then log_abi (SchedulerDelete ptr) s else s)
     in s\<lparr>clusters := manager_remove ptr (clusters s), orphans := (orphans s)(ptr \<mapsto> handle_destroy (cw_handle w))\<rparr>)"

text \<open>\<open>Shutdown\<close> of an unknown cluster completes at once; otherwise the cluster decides when (\<open>calls_done\<close>).\<close>

definition on_cluster_shutdown :: "(nat \<Rightarrow> bool) \<Rightarrow> nat \<Rightarrow> 'f cluster_abi \<Rightarrow> 'f cluster_abi" where
  "on_cluster_shutdown calls_done ptr s =
     (case manager_unwrap ptr (clusters s) of
        None \<Rightarrow> log_abi CompletionCallback s
      | Some w \<Rightarrow>
          (let s = log_abi (ClusterShutdown ptr (cw_cluster w)) s
           in if calls_done (cw_cluster w) then log_abi CompletionCallback s else s))"

text \<open>\<open>Schedule\<close> on the handle of a cluster, also of a destroyed one, on which it makes a new Envoy scheduler; what
  it schedules there is never run, because the event comes back under a token that is no longer in the table.\<close>

definition cluster_Schedule :: "nat \<Rightarrow> 'f \<Rightarrow> 'f cluster_abi \<Rightarrow> 'f cluster_abi" where
  "cluster_Schedule ptr fn s =
     (case manager_unwrap ptr (clusters s) of
        Some w \<Rightarrow> s\<lparr>clusters := manager_record ptr (w\<lparr>cw_handle := Schedule fn (cw_handle w)\<rparr>) (clusters s)\<rparr>
      | None \<Rightarrow>
          (case orphans s ptr of
             Some h \<Rightarrow> s\<lparr>orphans := (orphans s)(ptr \<mapsto> Schedule fn h)\<rparr>
           | None \<Rightarrow> s))"

definition on_cluster_scheduled :: "nat \<Rightarrow> uint64 \<Rightarrow> 'f cluster_abi \<Rightarrow> 'f cluster_abi" where
  "on_cluster_scheduled ptr eventID = with_cluster ptr (\<lambda>w s.
     let (fn, h) = runPending eventID (cw_handle w);
         s = s\<lparr>clusters := manager_record ptr (w\<lparr>cw_handle := h\<rparr>) (clusters s)\<rparr>
     in case fn of None \<Rightarrow> s | Some f \<Rightarrow> log_abi (ClusterRun ptr f) s)"

definition on_cluster_lb_destroy :: "nat \<Rightarrow> 'f cluster_abi \<Rightarrow> 'f cluster_abi" where
  "on_cluster_lb_destroy ptr s =
     (case manager_unwrap ptr (lb_table s) of
        None \<Rightarrow> s
      | Some lb \<Rightarrow> (let s = log_abi (LBClose ptr lb) s in s\<lparr>lb_table := manager_remove ptr (lb_table s)\<rparr>))"

definition on_cluster_lb_on_host_membership_update :: "nat \<Rightarrow> nat \<Rightarrow> nat \<Rightarrow> 'f cluster_abi \<Rightarrow> 'f cluster_abi" where
  "on_cluster_lb_on_host_membership_update ptr added removed s =
     (case manager_unwrap ptr (lb_table s) of
        None \<Rightarrow> s
      | Some lb \<Rightarrow> log_abi (LBMembershipUpdate ptr lb added removed) s)"

section \<open>Sequences of calls\<close>

datatype 'f abi_call =
    AConfigNew nat string bytes | AConfigDestroy nat
  | AClusterNew nat nat | AInit nat | AServerInitialized nat | ADrainStarted nat | AShutdown nat
  | ASchedule nat 'f | AScheduled nat uint64 | AClusterDestroy nat
  | ALBNew nat nat | AMembership nat nat nat | ALBDestroy nat

record user_code =
  u_registry :: "cluster_factory registry_map"
  u_newCluster :: "nat \<Rightarrow> nat option"
  u_newLB :: "nat \<Rightarrow> nat option"
  u_calls_done :: "nat \<Rightarrow> bool"

fun run_abi :: "user_code \<Rightarrow> 'f abi_call \<Rightarrow> 'f cluster_abi \<Rightarrow> 'f cluster_abi" where
  "run_abi u (AConfigNew tok nm cfg) s = snd (on_cluster_config_new (u_registry u) tok nm cfg s)"
| "run_abi u (AConfigDestroy p) s = on_cluster_config_destroy p s"
| "run_abi u (AClusterNew tok c) s = snd (on_cluster_new (u_newCluster u) tok c s)"
| "run_abi u (AInit p) s = on_cluster_init p s"
| "run_abi u (AServerInitialized p) s = on_cluster_server_initialized p s"
| "run_abi u (ADrainStarted p) s = on_cluster_drain_started p s"
| "run_abi u (AShutdown p) s = on_cluster_shutdown (u_calls_done u) p s"
| "run_abi u (ASchedule p f) s = cluster_Schedule p f s"
| "run_abi u (AScheduled p i) s = on_cluster_scheduled p i s"
| "run_abi u (AClusterDestroy p) s = on_cluster_destroy p s"
| "run_abi u (ALBNew tok p) s = snd (on_cluster_lb_new (u_newLB u) tok p s)"
| "run_abi u (AMembership p a r) s = on_cluster_lb_on_host_membership_update p a r s"
| "run_abi u (ALBDestroy p) s = on_cluster_lb_destroy p s"

fun run_abis :: "user_code \<Rightarrow> 'f abi_call list \<Rightarrow> 'f cluster_abi \<Rightarrow> 'f cluster_abi" where
  "run_abis u [] s = s"
| "run_abis u (c # cs) s = run_abis u cs (run_abi u c s)"

section \<open>The life of a token\<close>

text \<open>The user calls that went through a cluster's token.\<close>

fun through_cluster :: "nat \<Rightarrow> 'f abi_event \<Rightarrow> bool" where
  "through_cluster p (ClusterInit q _) = (q = p)"
| "through_cluster p (ClusterServerInitialized q _) = (q = p)"
| "through_cluster p (ClusterDrainStarted q _) = (q = p)"
| "through_cluster p (ClusterShutdown q _) = (q = p)"
| "through_cluster p (ClusterRun q _) = (q = p)"
| "through_cluster p (ClusterNewLB q _) = (q = p)"
| "through_cluster p (ClusterClose q _) = (q = p)"
| "through_cluster p _ = False"

fun creates_cluster :: "nat \<Rightarrow> 'f abi_call \<Rightarrow> bool" where
  "creates_cluster p (AClusterNew tok _) = (tok = p)"
| "creates_cluster p _ = False"

definition abi_ok :: "'f cluster_abi \<Rightarrow> bool" where
  "abi_ok s \<longleftrightarrow> manager_ok (configs s) \<and> manager_ok (clusters s) \<and> manager_ok (lb_table s)"

lemmas abi_defs = on_cluster_config_new_def on_cluster_config_destroy_def on_cluster_new_def on_cluster_lb_new_def
  with_cluster_def on_cluster_init_def on_cluster_server_initialized_def on_cluster_drain_started_def
  on_cluster_destroy_def on_cluster_shutdown_def cluster_Schedule_def on_cluster_scheduled_def
  on_cluster_lb_destroy_def on_cluster_lb_on_host_membership_update_def log_abi_def

lemma run_abi_ok: "abi_ok s \<Longrightarrow> abi_ok (run_abi u c s)"
  by (cases c) (auto simp: abi_ok_def abi_defs mgr.record_ok mgr.remove_ok Let_def
      split: option.splits sum.splits prod.splits)

text \<open>An unknown cluster token stays unknown and is never called, until it is allocated again.\<close>

fun allocates_null :: "'f abi_call \<Rightarrow> bool" where
  "allocates_null (AClusterNew tok _) = (tok = 0)"
| "allocates_null _ = False"

lemma known_not_null: "manager_unwrap p (m :: 'a manager) = Some x \<Longrightarrow> p \<noteq> 0"
  using mgr.unwrap_null [of m] by (cases "p = 0") simp_all

lemma unknown_cluster_inert:
  assumes "abi_ok s" "manager_unwrap p (clusters s) = None" "\<not> creates_cluster p c" "\<not> allocates_null c"
  shows "manager_unwrap p (clusters (run_abi u c s)) = None \<and>
    filter (through_cluster p) (abi_log (run_abi u c s)) = filter (through_cluster p) (abi_log s)"
proof -
  have ok: "manager_ok (clusters s)" using assms(1) by (simp add: abi_ok_def)
  have upd: "manager_unwrap p (manager_record q w (clusters s)) = None"
    if "manager_unwrap q (clusters s) = Some w'" for q w w'
    using mgr.unwrap_record [OF ok known_not_null [OF that]] assms(2) that by auto
  show ?thesis
    using assms(2-4) upd
    by (cases c) (auto simp: abi_defs mgr.unwrap_record [OF ok] mgr.unwrap_remove [OF ok] Let_def
        split: option.splits sum.splits prod.splits)
qed

lemma unknown_cluster_stays_inert:
  assumes "abi_ok s" "manager_unwrap p (clusters s) = None" "list_all (\<lambda>c. \<not> creates_cluster p c \<and> \<not> allocates_null c) cs"
  shows "filter (through_cluster p) (abi_log (run_abis u cs s)) = filter (through_cluster p) (abi_log s)"
  using assms
proof (induction cs arbitrary: s)
  case (Cons c cs)
  then show ?case using unknown_cluster_inert [of s p c u] run_abi_ok [of s u c] by simp
qed simp

section \<open>Properties\<close>

text \<open>C28. Destroying a cluster closes it exactly once and cuts its token: whatever Envoy calls afterwards,
  the same destroy and late scheduled events included, no call reaches the cluster through that token
  until the address is allocated for a new one.\<close>

theorem destroyed_cluster_is_never_called:
  assumes "abi_ok s" "manager_unwrap p (clusters s) = Some w"
    and "list_all (\<lambda>c. \<not> creates_cluster p c \<and> \<not> allocates_null c) cs"
  shows "filter (through_cluster p) (abi_log (run_abis u cs (on_cluster_destroy p s))) =
    filter (through_cluster p) (abi_log s) @ [ClusterClose p (cw_cluster w)]"
proof -
  let ?s = "on_cluster_destroy p s"
  have ok: "manager_ok (clusters s)" "abi_ok ?s"
    using assms(1) run_abi_ok [OF assms(1), of u "AClusterDestroy p"] by (simp_all add: abi_ok_def)
  have "manager_unwrap p (clusters ?s) = None"
    using assms(2) by (simp add: abi_defs Let_def mgr.unwrap_remove [OF ok(1)])
  from unknown_cluster_stays_inert [OF ok(2) this assms(3), of u] show ?thesis
    using assms(2) by (simp add: abi_defs Let_def)
qed

definition demo_user :: user_code where
  "demo_user = \<lparr>u_registry = [''c'' \<mapsto> \<lparr>cfac_Create = (\<lambda>_. Inr 1), cfac_CreateWithMetrics = None\<rparr>],
     u_newCluster = (\<lambda>_. Some 2), u_newLB = (\<lambda>_. Some 3), u_calls_done = (\<lambda>_. True)\<rparr>"

definition demo_abi :: "string cluster_abi" where
  "demo_abi = run_abis demo_user [AConfigNew 40 ''c'' [], AClusterNew 41 40, AInit 41, ASchedule 41 ''f''] new_cluster_abi"

theorem destroyed_cluster_is_never_called_witness:
  "filter (through_cluster 41) (abi_log (run_abis demo_user
     [AScheduled 41 0, AInit 41, AClusterDestroy 41, AShutdown 41] (on_cluster_destroy 41 demo_abi))) =
   [ClusterInit 41 2, ClusterClose 41 2]"
proof -
  have known: "\<not> Option.is_none (manager_unwrap 41 (clusters demo_abi))"
    "cw_cluster (the (manager_unwrap 41 (clusters demo_abi))) = 2"
    "filter (through_cluster 41) (abi_log demo_abi) = [ClusterInit 41 2]" "abi_ok demo_abi"
    by code_simp+
  then obtain w where w: "manager_unwrap 41 (clusters demo_abi) = Some w" "cw_cluster w = 2"
    by (auto simp: Option.is_none_def)
  from destroyed_cluster_is_never_called [OF known(4) w(1), of "[AScheduled 41 0, AInit 41, AClusterDestroy 41, AShutdown 41]" demo_user]
  show ?thesis using w(2) known(3) by simp
qed

end
