(* ===== verification/Extension_ABI.thy ===== *)
theory Extension_ABI
  imports Token_Table Registries
begin

text \<open>
  The exported ABI functions of the load-balancing policies (\<^verbatim>\<open>src/down/abi_impl/lb_policy.go\<close>) and of
  the access loggers (\<^verbatim>\<open>src/down/abi_impl/access_logger.go\<close>), and the adapters through which loggers of
  the \<open>up\<close> package reach the latter (\<^verbatim>\<open>src/up/access_logger.go\<close>). User objects are numbers; calls that
  reach user code are logged.
\<close>

section \<open>Load-balancing policies\<close>

datatype lb_event =
    LBConfigClose nat
  | LBPolicyClose nat
  | LBChooseHost nat
  | LBMembership nat nat nat
  | LBNoFactoryRegistered string
  | LBCreateFailed string string

record lb_abi =
  lb_configs :: "nat manager"
  lb_policies :: "nat manager"
  lb_log :: "lb_event list"

definition log_lb :: "lb_event \<Rightarrow> lb_abi \<Rightarrow> lb_abi" where
  "log_lb e s = s\<lparr>lb_log := lb_log s @ [e]\<rparr>"

definition on_lb_config_new ::
    "(bytes \<Rightarrow> string + nat) registry_map \<Rightarrow> nat \<Rightarrow> string \<Rightarrow> bytes \<Rightarrow> lb_abi \<Rightarrow> nat \<times> lb_abi" where
  "on_lb_config_new registry tok nm cfg s =
     (case GetLBPolicyFactory nm registry of
        None \<Rightarrow> (0, log_lb (LBNoFactoryRegistered nm) s)
      | Some create \<Rightarrow>
          (case create cfg of
             Inl err \<Rightarrow> (0, log_lb (LBCreateFailed nm err) s)
           | Inr c \<Rightarrow> (tok, s\<lparr>lb_configs := manager_record tok c (lb_configs s)\<rparr>)))"

definition on_lb_config_destroy :: "nat \<Rightarrow> lb_abi \<Rightarrow> lb_abi" where
  "on_lb_config_destroy ptr s =
     (case manager_unwrap ptr (lb_configs s) of
        None \<Rightarrow> s
      | Some c \<Rightarrow> (let s = log_lb (LBConfigClose c) s in s\<lparr>lb_configs := manager_remove ptr (lb_configs s)\<rparr>))"

definition on_lb_new :: "(nat \<Rightarrow> nat option) \<Rightarrow> nat \<Rightarrow> nat \<Rightarrow> lb_abi \<Rightarrow> nat \<times> lb_abi" where
  "on_lb_new newLBPolicy tok configPtr s =
     (case manager_unwrap configPtr (lb_configs s) of
        None \<Rightarrow> (0, s)
      | Some c \<Rightarrow>
          (case newLBPolicy c of
             None \<Rightarrow> (0, s)
           | Some lb \<Rightarrow> (tok, s\<lparr>lb_policies := manager_record tok lb (lb_policies s)\<rparr>)))"

definition on_lb_destroy :: "nat \<Rightarrow> lb_abi \<Rightarrow> lb_abi" where
  "on_lb_destroy ptr s =
     (case manager_unwrap ptr (lb_policies s) of
        None \<Rightarrow> s
      | Some lb \<Rightarrow> (let s = log_lb (LBPolicyClose lb) s in s\<lparr>lb_policies := manager_remove ptr (lb_policies s)\<rparr>))"

text \<open>
  \<open>ChooseHost\<close> of a policy answers whether it chose and what it left in the two variables; \<open>out\<close> is
  what Envoy's result variables hold before the call, and the result is the answer and what they hold after it.
\<close>

definition on_lb_choose_host ::
    "(nat \<Rightarrow> bool \<times> uint32 \<times> uint32) \<Rightarrow> nat \<Rightarrow> uint32 \<times> uint32 \<Rightarrow> lb_abi \<Rightarrow> bool \<times> (uint32 \<times> uint32) \<times> lb_abi" where
  "on_lb_choose_host choose_host ptr out s =
     (case manager_unwrap ptr (lb_policies s) of
        None \<Rightarrow> (False, out, s)
      | Some lb \<Rightarrow>
          (let s = log_lb (LBChooseHost lb) s; (ok, priority, index) = choose_host lb
           in (ok, if ok then (priority, index) else out, s)))"

definition on_lb_on_host_membership_update :: "nat \<Rightarrow> nat \<Rightarrow> nat \<Rightarrow> lb_abi \<Rightarrow> lb_abi" where
  "on_lb_on_host_membership_update ptr added removed s =
     (case manager_unwrap ptr (lb_policies s) of
        None \<Rightarrow> s
      | Some lb \<Rightarrow> log_lb (LBMembership lb added removed) s)"

section \<open>Access loggers\<close>

text \<open>
  A logger of the ABI layer: one registered there directly, which may implement \<open>Flush\<close>, or the
  adapter around what the \<open>NewLogger\<close> of an \<open>up\<close> factory returned, nil included.
\<close>

datatype down_logger =
    DownLogger nat bool
  | accessLoggerAdapter "nat option"

datatype logger_event =
    LoggerOnLog nat nat
  | LoggerFlush nat
  | LoggerOnDestroy nat
  | FactoryOnDestroy nat
  | LoggerNoFactoryRegistered string
  | LoggerCreateFailed string string

record logger_abi =
  logger_configs :: "nat manager"
  loggers :: "down_logger manager"
  logger_log :: "logger_event list"

definition log_logger :: "logger_event \<Rightarrow> logger_abi \<Rightarrow> logger_abi" where
  "log_logger e s = s\<lparr>logger_log := logger_log s @ [e]\<rparr>"

text \<open>The interface value that \<open>accessLoggerFactoryAdapter.NewLogger\<close> returns is never nil.\<close>

definition accessLoggerFactoryAdapter_NewLogger :: "(nat \<Rightarrow> nat option) \<Rightarrow> nat \<Rightarrow> down_logger option" where
  "accessLoggerFactoryAdapter_NewLogger newLogger factory = Some (accessLoggerAdapter (newLogger factory))"

fun logger_OnLog :: "down_logger \<Rightarrow> nat \<Rightarrow> logger_abi \<Rightarrow> logger_abi outcome" where
  "logger_OnLog (DownLogger l _) logType s = Inr (log_logger (LoggerOnLog l logType) s)"
| "logger_OnLog (accessLoggerAdapter (Some l)) logType s = Inr (log_logger (LoggerOnLog l logType) s)"
| "logger_OnLog (accessLoggerAdapter None) logType s = Inl nil_dereference"

fun logger_OnDestroy :: "down_logger \<Rightarrow> logger_abi \<Rightarrow> logger_abi outcome" where
  "logger_OnDestroy (DownLogger l _) s = Inr (log_logger (LoggerOnDestroy l) s)"
| "logger_OnDestroy (accessLoggerAdapter (Some l)) s = Inr (log_logger (LoggerOnDestroy l) s)"
| "logger_OnDestroy (accessLoggerAdapter None) s = Inl nil_dereference"

text \<open>The type assertion to an interface with \<open>Flush\<close>: the adapter has no such method.\<close>

fun as_flusher :: "down_logger \<Rightarrow> nat option" where
  "as_flusher (DownLogger l True) = Some l"
| "as_flusher _ = None"

definition on_access_logger_config_new ::
    "(bytes \<Rightarrow> string + nat) registry_map \<Rightarrow> nat \<Rightarrow> string \<Rightarrow> bytes \<Rightarrow> logger_abi \<Rightarrow> nat \<times> logger_abi" where
  "on_access_logger_config_new registry tok nm cfg s =
     (case GetAccessLoggerConfigFactory nm registry of
        None \<Rightarrow> (0, log_logger (LoggerNoFactoryRegistered nm) s)
      | Some create \<Rightarrow>
          (case create cfg of
             Inl err \<Rightarrow> (0, log_logger (LoggerCreateFailed nm err) s)
           | Inr f \<Rightarrow> (tok, s\<lparr>logger_configs := manager_record tok f (logger_configs s)\<rparr>)))"

definition on_access_logger_config_destroy :: "nat \<Rightarrow> logger_abi \<Rightarrow> logger_abi" where
  "on_access_logger_config_destroy ptr s =
     (case manager_unwrap ptr (logger_configs s) of
        None \<Rightarrow> s
      | Some f \<Rightarrow>
          (let s = log_logger (FactoryOnDestroy f) s in s\<lparr>logger_configs := manager_remove ptr (logger_configs s)\<rparr>))"

definition on_access_logger_new ::
    "(nat \<Rightarrow> down_logger option) \<Rightarrow> nat \<Rightarrow> nat \<Rightarrow> logger_abi \<Rightarrow> nat \<times> logger_abi" where
  "on_access_logger_new newLogger tok configPtr s =
     (case manager_unwrap configPtr (logger_configs s) of
        None \<Rightarrow> (0, s)
      | Some f \<Rightarrow>
          (case newLogger f of
             None \<Rightarrow> (0, s)
           | Some l \<Rightarrow> (tok, s\<lparr>loggers := manager_record tok l (loggers s)\<rparr>)))"

definition on_access_logger_log :: "nat \<Rightarrow> nat \<Rightarrow> logger_abi \<Rightarrow> logger_abi outcome" where
  "on_access_logger_log ptr logType s =
     (case manager_unwrap ptr (loggers s) of None \<Rightarrow> Inr s | Some l \<Rightarrow> logger_OnLog l logType s)"

definition on_access_logger_destroy :: "nat \<Rightarrow> logger_abi \<Rightarrow> logger_abi outcome" where
  "on_access_logger_destroy ptr s =
     (case manager_unwrap ptr (loggers s) of
        None \<Rightarrow> Inr s
      | Some l \<Rightarrow> obind (logger_OnDestroy l s) (\<lambda>s. Inr (s\<lparr>loggers := manager_remove ptr (loggers s)\<rparr>)))"

definition on_access_logger_flush :: "nat \<Rightarrow> logger_abi \<Rightarrow> logger_abi" where
  "on_access_logger_flush ptr s =
     (case manager_unwrap ptr (loggers s) of
        None \<Rightarrow> s
      | Some l \<Rightarrow> (case as_flusher l of Some f \<Rightarrow> log_logger (LoggerFlush f) s | None \<Rightarrow> s))"

section \<open>Properties\<close>

text \<open>A worker's logger that was created through an \<open>up\<close> factory and is in use.\<close>

definition up_logger_at :: "nat \<Rightarrow> nat option \<Rightarrow> logger_abi \<Rightarrow> bool" where
  "up_logger_at ptr l s \<longleftrightarrow> manager_unwrap ptr (loggers s) = Some (accessLoggerAdapter l)"

lemma created_logger:
  assumes "manager_ok (loggers s)" "tok \<noteq> 0" "manager_unwrap cfg (logger_configs s) = Some f"
    and "on_access_logger_new (accessLoggerFactoryAdapter_NewLogger newLogger) tok cfg s = (r, s')"
  shows "r = tok" "up_logger_at tok (newLogger f) s'" "manager_ok (loggers s')"
  using assms
  by (auto simp: on_access_logger_new_def accessLoggerFactoryAdapter_NewLogger_def up_logger_at_def
      mgr.unwrap_record mgr.record_ok)

text \<open>An \<open>up\<close> logger factory that returns no logger is not rejected: the adapter around nil passes the
  ABI's nil check, Envoy gets a logger, and its first log event panics.\<close>

lemma nil_up_logger_panics:
  assumes "manager_ok (loggers s)" "tok \<noteq> 0" "manager_unwrap cfg (logger_configs s) = Some f" "newLogger f = None"
  shows "fst (on_access_logger_new (accessLoggerFactoryAdapter_NewLogger newLogger) tok cfg s) = tok \<and>
    on_access_logger_log tok logType (snd (on_access_logger_new (accessLoggerFactoryAdapter_NewLogger newLogger) tok cfg s))
      = Inl nil_dereference"
proof -
  obtain r s' where "on_access_logger_new (accessLoggerFactoryAdapter_NewLogger newLogger) tok cfg s = (r, s')" by fastforce
  then show ?thesis
    using created_logger [OF assms(1-3)] assms(4) by (auto simp: up_logger_at_def on_access_logger_log_def)
qed

definition demo_loggers :: logger_abi where
  "demo_loggers = \<lparr>logger_configs = manager_record 8 1 newManager, loggers = newManager, logger_log = []\<rparr>"

lemma demo_loggers_ok: "manager_ok (loggers demo_loggers)" "manager_unwrap 8 (logger_configs demo_loggers) = Some 1"
  by (simp_all add: demo_loggers_def mgr.empty_ok mgr.unwrap_record)

lemma nil_up_logger_panics_example:
  "on_access_logger_log 9 6 (snd (on_access_logger_new (accessLoggerFactoryAdapter_NewLogger (\<lambda>_. None)) 9 8 demo_loggers))
     = Inl nil_dereference"
  using nil_up_logger_panics [OF demo_loggers_ok(1) _ demo_loggers_ok(2), of 9 "\<lambda>_. None"] by simp

text \<open>Envoy's flush event never reaches a logger that was registered through the \<open>up\<close> package, whether
  or not it has a \<open>Flush\<close> method.\<close>

lemma flush_never_reaches_up_logger:
  assumes "up_logger_at ptr l s"
  shows "on_access_logger_flush ptr s = s"
  using assms by (simp add: up_logger_at_def on_access_logger_flush_def)

lemma flush_never_reaches_up_logger_example:
  "on_access_logger_flush 9 (snd (on_access_logger_new (accessLoggerFactoryAdapter_NewLogger Some) 9 8 demo_loggers)) =
   snd (on_access_logger_new (accessLoggerFactoryAdapter_NewLogger Some) 9 8 demo_loggers)"
  by (rule flush_never_reaches_up_logger [of 9 "Some 1"])
    (use created_logger(2) [OF demo_loggers_ok(1) _ demo_loggers_ok(2)] in \<open>metis prod.collapse zero_neq_numeral\<close>)

text \<open>A policy's choice reaches Envoy's result variables exactly when the policy says it chose; they are
  left alone if it did not or if the token is unknown, and after a destroy the policy is never asked again.\<close>

lemma lb_choice_is_written_iff_chosen:
  assumes "manager_ok (lb_policies s)" "manager_unwrap p (lb_policies s) = Some lb"
  shows "on_lb_choose_host f p out s =
      (fst (f lb), if fst (f lb) then snd (f lb) else out, log_lb (LBChooseHost lb) s) \<and>
    on_lb_choose_host f p out (on_lb_destroy p s) = (False, out, on_lb_destroy p s)"
  using assms mgr.unwrap_remove [OF assms(1)]
  by (simp add: on_lb_choose_host_def on_lb_destroy_def log_lb_def Let_def split_beta)

lemma lb_choice_is_written_iff_chosen_example:
  "on_lb_choose_host (\<lambda>_. (True, 1, 2)) 9 (0, 0)
     \<lparr>lb_configs = newManager, lb_policies = manager_record 9 5 newManager, lb_log = []\<rparr> =
   (True, (1, 2), \<lparr>lb_configs = newManager, lb_policies = manager_record 9 5 newManager, lb_log = [LBChooseHost 5]\<rparr>)"
  using lb_choice_is_written_iff_chosen
    [of "\<lparr>lb_configs = newManager, lb_policies = manager_record 9 5 newManager, lb_log = []\<rparr>" 9 5 "\<lambda>_. (True, 1, 2)" "(0, 0)"]
  by (simp add: mgr.record_ok mgr.empty_ok mgr.unwrap_record log_lb_def)

end
