(* ===== verification/Finalized_Streams.thy ===== *)
theory Finalized_Streams
  imports Stream_Theorems
begin

text \<open>
  Delivery of finalized streams (\<^verbatim>\<open>src/up/stream_finalized.go\<close>): the access logger that the SDK registers
  under the filter's name takes the entry the filter deposited, calls the user's callback with what
  Envoy recorded, and drops the stream's object bag. The pointers in an entry are the number of the
  stream they point into; \<open>streams\<close> gives the filter that a number stands for. Also the rendering of
  Envoy's response flags (\<^verbatim>\<open>src/down/response_flags.go\<close>) and the truncation helper of
  \<^verbatim>\<open>src/up/exchange_hooks.go\<close>.
\<close>

section \<open>What the access logger sees\<close>

type_synonym TimingInfo = "int list"
type_synonym BytesInfo = "uint64 list"

definition AccessLogTypeDownstreamEnd :: nat where
  "AccessLogTypeDownstreamEnd = 6"

record log_handle =
  GetTimingInfo :: TimingInfo
  GetBytesInfo :: BytesInfo
  GetResponseCode :: uint32
  GetResponseFlags :: uint64
  GetUpstreamPoolReadyDurationNs :: int
  GetUpstreamRequestAttemptCount :: uint32
  IsTraceSampled :: bool
  GetRequestHeader :: "string \<Rightarrow> string option"
  GetResponseCodeDetails :: "string option"
  GetUpstreamTransportFailureReason :: "string option"
  GetUpstreamLocalAddress :: "string option"
  GetUpstreamAddress :: "string option"
  GetRequestProtocol :: "string option"
  GetTraceID :: "string option"
  GetSpanID :: "string option"
  GetLocalReplyBody :: "string option"

record FinalizedInfo =
  fi_Timing :: TimingInfo
  fi_Bytes :: BytesInfo
  fi_ResponseCode :: uint32
  fi_ResponseFlags :: uint64
  fi_UpstreamPoolReadyDurationNs :: int
  fi_UpstreamRequestAttempts :: uint32
  fi_TraceSampled :: bool
  fi_ResponseCodeDetails :: string
  fi_UpstreamFailure :: string
  fi_UpstreamLocalAddress :: string
  fi_UpstreamAddress :: string
  fi_RequestProtocol :: string
  fi_TraceID :: string
  fi_SpanID :: string
  fi_LocalReplyBody :: string

text \<open>\<^verbatim>\<open>if v, ok := ...; ok && v.Len > 0\<close>: the value, or the empty string the field starts with.\<close>

definition or_empty :: "string option \<Rightarrow> string" where
  "or_empty v = (case v of Some x \<Rightarrow> x | None \<Rightarrow> '''')"

definition log_stream_key :: "log_handle \<Rightarrow> string" where
  "log_stream_key h =
     (let k = or_empty (GetRequestHeader h ''x-request-id'')
      in if k = '''' then or_empty (GetRequestHeader h finalizedFallbackKeyHeader) else k)"

definition finalized_info :: "log_handle \<Rightarrow> string \<Rightarrow> FinalizedInfo" where
  "finalized_info h recorded_reply =
     \<lparr>fi_Timing = GetTimingInfo h, fi_Bytes = GetBytesInfo h, fi_ResponseCode = GetResponseCode h,
      fi_ResponseFlags = GetResponseFlags h,
      fi_UpstreamPoolReadyDurationNs = GetUpstreamPoolReadyDurationNs h,
      fi_UpstreamRequestAttempts = GetUpstreamRequestAttemptCount h,
      fi_TraceSampled = IsTraceSampled h,
      fi_ResponseCodeDetails = or_empty (GetResponseCodeDetails h),
      fi_UpstreamFailure = or_empty (GetUpstreamTransportFailureReason h),
      fi_UpstreamLocalAddress = or_empty (GetUpstreamLocalAddress h),
      fi_UpstreamAddress = or_empty (GetUpstreamAddress h),
      fi_RequestProtocol = or_empty (GetRequestProtocol h),
      fi_TraceID = or_empty (GetTraceID h), fi_SpanID = or_empty (GetSpanID h),
      fi_LocalReplyBody = (if or_empty (GetLocalReplyBody h) \<noteq> '''' then or_empty (GetLocalReplyBody h) else recorded_reply)\<rparr>"

text \<open>The callback that runs (the stream it belongs to and what it gets), and the process afterwards.\<close>

definition finalizedLogger_OnLog ::
    "string \<Rightarrow> (nat \<Rightarrow> http_filter) \<Rightarrow> log_handle \<Rightarrow> nat \<Rightarrow> process \<Rightarrow> (nat \<times> FinalizedInfo) option \<times> process" where
  "finalizedLogger_OnLog nm streams h logType p =
     (if logType \<noteq> AccessLogTypeDownstreamEnd then (None, p)
      else let streamKey = log_stream_key h in
        if streamKey = '''' then (None, p)
        else case takeFinalizedEntry (streamFinalizedKey nm streamKey) p of
            (None, p) \<Rightarrow> (None, p)
          | (Some entry, p) \<Rightarrow>
              (let info = finalized_info h (localReplyBody (streams (e_localReplyBody entry)))
               in (Some (e_ctx entry, info), dropBag (streamObjectNonce (streams (e_streamObjectNonce entry))) p)))"

section \<open>Response flags\<close>

definition responseFlagNames :: "string list" where
  "responseFlagNames =
     [''LH'', ''UH'', ''UT'', ''LR'', ''UR'', ''UF'', ''UC'', ''UO'', ''NR'', ''DI'', ''FI'', ''RL'', ''UAEX'',
      ''RLSE'', ''DC'', ''URX'', ''SI'', ''IH'', ''DPE'', ''UMSDR'', ''RFCF'', ''NFCF'', ''DT'', ''UPE'', ''NC'', ''OM'']"

text \<open>\<^verbatim>\<open>strconv.FormatUint(n, 16)\<close>.\<close>

fun FormatHex :: "nat \<Rightarrow> string" where
  "FormatHex n = (if n < 16 then [hex_digit n] else FormatHex (n div 16) @ [hex_digit (n mod 16)])"

declare FormatHex.simps [simp del]

fun join_comma :: "string list \<Rightarrow> string" where
  "join_comma [] = ''''"
| "join_comma [x] = x"
| "join_comma (x # y # xs) = x @ '','' @ join_comma (y # xs)"

definition flag_name :: "nat \<Rightarrow> string" where
  "flag_name i = (if i < length responseFlagNames then responseFlagNames ! i else ''0x'' @ FormatHex (2 ^ i))"

definition ResponseFlagsString :: "uint64 \<Rightarrow> string" where
  "ResponseFlagsString flags =
     (if flags = 0 then ''''
      else join_comma (map (\<lambda>i. responseFlagNames ! i) (filter (bit flags) [0..<length responseFlagNames]) @
                       map (\<lambda>i. ''0x'' @ FormatHex (2 ^ i)) (filter (bit flags) [length responseFlagNames..<64])))"

text \<open>A negative bound is an invalid slice bound.\<close>

definition TruncateBody :: "bytes \<Rightarrow> int \<Rightarrow> bytes outcome" where
  "TruncateBody data mx =
     (if int (length data) > mx
      then if mx < 0 then Inl (Panic (''runtime error: slice bounds out of range [:-'' @ Itoa (nat (- mx)) @ '']''))
           else Inr (take (nat mx) data)
      else Inr data)"

lemma TruncateBody_bound: "0 \<le> mx \<Longrightarrow> \<exists>b. TruncateBody data mx = Inr b \<and> int (length b) \<le> mx \<and> b = take (nat mx) data"
  by (auto simp: TruncateBody_def)

section \<open>Keys\<close>

lemma streamFinalizedKey_inject:
  assumes "CHR 0x00 \<notin> set a" "CHR 0x00 \<notin> set b"
  shows "streamFinalizedKey a k = streamFinalizedKey b l \<longleftrightarrow> a = b \<and> k = l"
proof
  assume eq: "streamFinalizedKey a k = streamFinalizedKey b l"
  have "takeWhile (\<lambda>c. c \<noteq> CHR 0x00) (streamFinalizedKey x m) = x" if "CHR 0x00 \<notin> set x" for x m
    using that by (induction x) (auto simp: streamFinalizedKey_def)
  then have "a = b" using assms eq by metis
  then show "a = b \<and> k = l" using eq by (simp add: streamFinalizedKey_def)
qed simp

lemma OnLog_delivers:
  assumes "streamFinalizedEntries p (streamFinalizedKey nm (log_stream_key h)) = Some e" "log_stream_key h \<noteq> ''''"
  shows "finalizedLogger_OnLog nm streams h AccessLogTypeDownstreamEnd p =
    (Some (e_ctx e, finalized_info h (localReplyBody (streams (e_localReplyBody e)))),
     dropBag (streamObjectNonce (streams (e_streamObjectNonce e)))
       (p\<lparr>streamFinalizedEntries := (streamFinalizedEntries p)(streamFinalizedKey nm (log_stream_key h) := None)\<rparr>))"
  using assms by (simp add: finalizedLogger_OnLog_def takeFinalizedEntry_def Let_def)

lemma OnLog_absent:
  assumes "streamFinalizedEntries p (streamFinalizedKey nm (log_stream_key h)) = None"
  shows "finalizedLogger_OnLog nm streams h t p = (None, p)"
  using assms by (simp add: finalizedLogger_OnLog_def takeFinalizedEntry_def Let_def)

lemma dropBag_entries [simp]: "streamFinalizedEntries (dropBag n p) = streamFinalizedEntries p"
  by (simp add: dropBag_def)

text \<open>The key under which a stream registers: its request id, or the next nonce.\<close>

definition registered_key :: "envoy \<Rightarrow> sys \<Rightarrow> string" where
  "registered_key env s =
     (let rid = or_empty (env_request_id env (events (fl s)))
      in if rid \<noteq> '''' then rid else env_rand env (randIndex (pr s)))"

lemma registerFinalized_entry:
  assumes "onStreamFinalized (fl s)" "finalizedKey (fl s) = ''''"
  shows "streamFinalizedEntries (pr (registerFinalized env s)) =
      (streamFinalizedEntries (pr s))(streamFinalizedKey (f_name (fl s)) (registered_key env s) \<mapsto>
        \<lparr>e_fn = True, e_ctx = self (fl s), e_streamObjectNonce = self (fl s), e_localReplyBody = self (fl s)\<rparr>)"
  using assms
  by (simp add: registerFinalized_def registered_key_def putFinalizedEntry_def or_empty_def Let_def)

section \<open>Reading the flags back\<close>

definition hex_value :: "string \<Rightarrow> nat" where
  "hex_value s = foldl (\<lambda>a c. 16 * a + (if of_char c < (58 :: nat) then of_char c - 48 else of_char c - 87)) 0 s"

lemma hex_digit_value:
  "d < 16 \<Longrightarrow> (if of_char (hex_digit d) < (58 :: nat) then of_char (hex_digit d) - 48 else of_char (hex_digit d) - 87) = d"
  by (simp add: hex_digit_def)

lemma hex_value_FormatHex [simp]: "hex_value (FormatHex n) = n"
proof (induction n rule: FormatHex.induct)
  case (1 n)
  then show ?case
    using hex_digit_value [of n] hex_digit_value [of "n mod 16"]
    by (cases "n < 16") (simp_all add: FormatHex.simps [of n] hex_value_def)
qed

lemma hex_digit_no_comma: "d < 16 \<Longrightarrow> hex_digit d \<noteq> CHR '',''"
proof
  assume "d < 16" "hex_digit d = CHR '',''"
  then have "of_char (hex_digit d) = (44 :: nat)" by simp
  with \<open>d < 16\<close> show False by (simp add: hex_digit_def split: if_splits)
qed

lemma FormatHex_no_comma: "CHR '','' \<notin> set (FormatHex n)"
proof (induction n rule: FormatHex.induct)
  case (1 n)
  then show ?case
    using hex_digit_no_comma [of n] hex_digit_no_comma [of "n mod 16"]
    by (cases "n < 16") (auto simp: FormatHex.simps [of n])
qed

fun split_comma :: "string \<Rightarrow> string list" where
  "split_comma [] = [[]]"
| "split_comma (c # s) =
     (if c = CHR '','' then [] # split_comma s
      else case split_comma s of x # xs \<Rightarrow> (c # x) # xs | [] \<Rightarrow> [[c]])"

lemma split_comma_none: "CHR '','' \<notin> set x \<Longrightarrow> split_comma x = [x]"
  by (induction x) auto

lemma split_comma_append: "CHR '','' \<notin> set x \<Longrightarrow> split_comma (x @ CHR '','' # t) = x # split_comma t"
  by (induction x) auto

lemma split_comma_join:
  "xs \<noteq> [] \<Longrightarrow> \<forall>x\<in>set xs. CHR '','' \<notin> set x \<Longrightarrow> split_comma (join_comma xs) = xs"
proof (induction xs rule: join_comma.induct)
qed (simp_all add: split_comma_none split_comma_append)

lemma flag_name_no_comma: "CHR '','' \<notin> set (flag_name i)"
proof (cases "i < length responseFlagNames")
  case True
  have "list_all (\<lambda>x. CHR '','' \<notin> set x) responseFlagNames" by code_simp
  then show ?thesis using True by (simp add: flag_name_def list_all_length)
qed (simp add: flag_name_def FormatHex_no_comma)

lemma flag_name_nonempty: "flag_name i \<noteq> ''''"
proof (cases "i < length responseFlagNames")
  case True
  have "list_all (\<lambda>x. x \<noteq> []) responseFlagNames" by code_simp
  then show ?thesis using True by (simp add: flag_name_def list_all_length)
qed (simp add: flag_name_def)

lemma flag_name_inj: "inj_on flag_name {..<64}"
proof (rule inj_onI)
  fix i j assume "i \<in> {..<64 :: nat}" "j \<in> {..<64 :: nat}" and eq: "flag_name i = flag_name j"
  have names: "distinct responseFlagNames" "list_all (\<lambda>x. hd x \<noteq> CHR ''0'') responseFlagNames" by code_simp+
  then have low: "hd (flag_name i) \<noteq> CHR ''0'' \<longleftrightarrow> i < length responseFlagNames" for i
    by (auto simp: flag_name_def list_all_length)
  show "i = j"
  proof (cases "i < length responseFlagNames")
    case True
    then have "j < length responseFlagNames" using low eq by metis
    with True eq names(1) show ?thesis by (simp add: flag_name_def nth_eq_iff_index_eq)
  next
    case False
    then have "\<not> j < length responseFlagNames" using low eq by metis
    with False eq have "FormatHex (2 ^ i) = FormatHex (2 ^ j)" by (simp add: flag_name_def)
    then have "(2 :: nat) ^ i = 2 ^ j" by (metis hex_value_FormatHex)
    then show ?thesis by simp
  qed
qed

lemma ResponseFlagsString_names:
  "ResponseFlagsString flags = (if flags = 0 then '''' else join_comma (map flag_name (filter (bit flags) [0..<64])))"
proof -
  have n: "length responseFlagNames = 26" by (simp add: responseFlagNames_def)
  have "[0..<64] = [0..<26] @ [26..<64]" using upt_add_eq_append [of 0 26 38] by simp
  then have all: "map flag_name (filter (bit flags) [0..<64]) =
      map flag_name (filter (bit flags) [0..<26]) @ map flag_name (filter (bit flags) [26..<64])"
    by (simp only: filter_append map_append)
  have names: "map flag_name (filter (bit flags) [0..<26]) = map (\<lambda>i. responseFlagNames ! i) (filter (bit flags) [0..<26])"
    "map flag_name (filter (bit flags) [26..<64]) = map (\<lambda>i. ''0x'' @ FormatHex (2 ^ i)) (filter (bit flags) [26..<64])"
    unfolding map_eq_conv set_filter set_upt by (simp_all only: flag_name_def n) auto
  show ?thesis unfolding ResponseFlagsString_def n all names ..
qed

section \<open>Properties\<close>

text \<open>The rendering of response flags loses nothing: cut at the commas it is the names of exactly the
  bits that are set, in order, bits without a name included, so two masks have the same text only if they are equal.\<close>

lemma response_flags_injective: "ResponseFlagsString a = ResponseFlagsString b \<longleftrightarrow> a = b"
proof
  have bits: "filter (bit flags) [0..<64] \<noteq> []" if "flags \<noteq> 0" for flags :: uint64
    using that by (auto simp: bit_eq_iff filter_empty_conv dest: bit_imp_le_length)
  have names: "split_comma (ResponseFlagsString flags) = map flag_name (filter (bit flags) [0..<64])"
    if "flags \<noteq> 0" for flags :: uint64
    using that bits [OF that] split_comma_join [of "map flag_name (filter (bit flags) [0..<64])"] flag_name_no_comma
    by (simp add: ResponseFlagsString_names)
  have nonempty: "ResponseFlagsString flags \<noteq> ''''" if "flags \<noteq> 0" for flags :: uint64
  proof
    assume "ResponseFlagsString flags = ''''"
    then have "map flag_name (filter (bit flags) [0..<64]) = ['''']" using names [OF that] by simp
    then obtain i where "flag_name i = ''''" by (auto simp: map_eq_Cons_conv)
    then show False using flag_name_nonempty by simp
  qed
  assume eq: "ResponseFlagsString a = ResponseFlagsString b"
  show "a = b"
  proof (cases "a = 0 \<or> b = 0")
    case True
    then show ?thesis using eq nonempty by (metis ResponseFlagsString_def)
  next
    case False
    then have "map flag_name (filter (bit a) [0..<64]) = map flag_name (filter (bit b) [0..<64])"
      using names eq by metis
    then have "filter (bit a) [0..<64] = filter (bit b) [0..<64]"
      by (rule map_inj_on) (rule inj_on_subset [OF flag_name_inj], auto simp del: upt_rec_numeral)
    then have "set (filter (bit a) [0..<64]) = set (filter (bit b) [0..<64])" by (simp only:)
    then have "bit a i \<longleftrightarrow> bit b i" if "i < 64" for i
      using that unfolding set_filter set_upt by auto
    then show ?thesis by (simp add: bit_eq_iff)
  qed
qed simp

text \<open>Two streams of one filter that carry the same request id.\<close>

definition demo_fin_env :: envoy where
  "demo_fin_env = demo_env\<lparr>env_request_id := (\<lambda>ev. Some ''rid'')\<rparr>"

definition demo_fin :: "nat \<Rightarrow> process \<Rightarrow> sys" where
  "demo_fin i p = \<lparr>fl = (fl (demo_start None))\<lparr>onStreamFinalized := True, self := i\<rparr>, pr = p\<rparr>"

definition demo_log_handle :: log_handle where
  "demo_log_handle = \<lparr>GetTimingInfo = [], GetBytesInfo = [], GetResponseCode = 200, GetResponseFlags = 0,
     GetUpstreamPoolReadyDurationNs = 0, GetUpstreamRequestAttemptCount = 1, IsTraceSampled = False,
     GetRequestHeader = (\<lambda>n. if n = ''x-request-id'' then Some ''rid'' else None), GetResponseCodeDetails = None,
     GetUpstreamTransportFailureReason = None, GetUpstreamLocalAddress = None, GetUpstreamAddress = None,
     GetRequestProtocol = None, GetTraceID = None, GetSpanID = None, GetLocalReplyBody = None\<rparr>"

lemma demo_fin_facts:
  "onStreamFinalized (fl (demo_fin i p))" "finalizedKey (fl (demo_fin i p)) = ''''" "f_name (fl (demo_fin i p)) = ''demo''"
  "registered_key demo_fin_env (demo_fin i p) = ''rid''" "self (fl (demo_fin i p)) = i" "pr (demo_fin i p) = p"
  "log_stream_key demo_log_handle = ''rid''"
  by (simp_all add: demo_fin_def demo_start_def demo_factory_def filterFactory_Create_def registered_key_def demo_fin_env_def
      demo_log_handle_def log_stream_key_def or_empty_def)

text \<open>C23. A stream that registered for finalization gets its callback exactly once: the first access-log
  event with its key calls it with its own context, drops its object bag, and a second event finds nothing.
  Registrations and log events of other streams may come in between as long as they leave the entry alone.\<close>

theorem finalized_delivered_once:
  assumes "onStreamFinalized (fl s)" "finalizedKey (fl s) = ''''" "registered_key env s \<noteq> ''''"
    and "log_stream_key h = registered_key env s"
    and "streamFinalizedEntries p (streamFinalizedKey (f_name (fl s)) (registered_key env s)) =
      streamFinalizedEntries (pr (registerFinalized env s)) (streamFinalizedKey (f_name (fl s)) (registered_key env s))"
  shows "\<exists>p'. finalizedLogger_OnLog (f_name (fl s)) streams h AccessLogTypeDownstreamEnd p =
      (Some (self (fl s), finalized_info h (localReplyBody (streams (self (fl s))))), p') \<and>
    LookupStreamObjectBag (streamObjectNonce (streams (self (fl s)))) (streamObjectBags p') = None \<and>
    finalizedLogger_OnLog (f_name (fl s)) streams h AccessLogTypeDownstreamEnd p' = (None, p')"
proof -
  let ?k = "streamFinalizedKey (f_name (fl s)) (log_stream_key h)"
  let ?p = "dropBag (streamObjectNonce (streams (self (fl s))))
      (p\<lparr>streamFinalizedEntries := (streamFinalizedEntries p)(?k := None)\<rparr>)"
  have "streamFinalizedEntries p ?k =
      Some \<lparr>e_fn = True, e_ctx = self (fl s), e_streamObjectNonce = self (fl s), e_localReplyBody = self (fl s)\<rparr>"
    using assms registerFinalized_entry [OF assms(1,2), of env] by simp
  then have "finalizedLogger_OnLog (f_name (fl s)) streams h AccessLogTypeDownstreamEnd p =
      (Some (self (fl s), finalized_info h (localReplyBody (streams (self (fl s))))), ?p)"
    using OnLog_delivers [of p "f_name (fl s)" h _ streams] assms(3,4) by simp
  moreover have "finalizedLogger_OnLog (f_name (fl s)) streams h AccessLogTypeDownstreamEnd ?p = (None, ?p)"
    by (rule OnLog_absent) simp
  moreover have "LookupStreamObjectBag (streamObjectNonce (streams (self (fl s)))) (streamObjectBags ?p) = None"
    by (simp add: dropBag_def DropStreamObjectBag_def LookupStreamObjectBag_def)
  ultimately show ?thesis by blast
qed

theorem finalized_delivered_once_witness:
  "\<exists>p'. fst (finalizedLogger_OnLog ''demo'' (\<lambda>_. fl (demo_fin 7 demo_process)) demo_log_handle AccessLogTypeDownstreamEnd
       (pr (registerFinalized demo_fin_env (demo_fin 7 demo_process)))) =
     Some (7, finalized_info demo_log_handle (localReplyBody (fl (demo_fin 7 demo_process)))) \<and>
     finalizedLogger_OnLog ''demo'' (\<lambda>_. fl (demo_fin 7 demo_process)) demo_log_handle AccessLogTypeDownstreamEnd p' = (None, p')"
  using finalized_delivered_once [of "demo_fin 7 demo_process" demo_fin_env demo_log_handle
      "pr (registerFinalized demo_fin_env (demo_fin 7 demo_process))" "\<lambda>_. fl (demo_fin 7 demo_process)"]
  by (auto simp: demo_fin_facts)

text \<open>Streams of differently named filters, or with different keys, do not disturb each other's entries:
  the NUL byte between name and key keeps the composite keys apart.\<close>

lemma registrations_do_not_interfere:
  assumes "onStreamFinalized (fl s)" "finalizedKey (fl s) = ''''"
    and "CHR 0x00 \<notin> set nm" "CHR 0x00 \<notin> set (f_name (fl s))"
    and "nm \<noteq> f_name (fl s) \<or> k \<noteq> registered_key env s"
  shows "streamFinalizedEntries (pr (registerFinalized env s)) (streamFinalizedKey nm k) =
    streamFinalizedEntries (pr s) (streamFinalizedKey nm k)"
  using registerFinalized_entry [OF assms(1,2), of env] streamFinalizedKey_inject [OF assms(3,4), of k] assms(5) by auto

lemma registrations_do_not_interfere_example:
  "streamFinalizedEntries (pr (registerFinalized demo_fin_env (demo_fin 7 demo_process))) (streamFinalizedKey ''demo'' ''other'') = None"
proof -
  have "streamFinalizedEntries (pr (registerFinalized demo_fin_env (demo_fin 7 demo_process))) (streamFinalizedKey ''demo'' ''other'') =
      streamFinalizedEntries (pr (demo_fin 7 demo_process)) (streamFinalizedKey ''demo'' ''other'')"
    by (rule registrations_do_not_interfere) (simp_all add: demo_fin_facts)
  then show ?thesis by (simp add: demo_fin_facts demo_process_def)
qed

text \<open>Two concurrent streams of one filter with the same request id share one entry: the second
  registration replaces the first, and the log events of both deliver only to the second. The first stream is
  never told, and its object bag is never dropped.\<close>

lemma shared_request_id_loses_first_stream:
  assumes "onStreamFinalized (fl s1)" "finalizedKey (fl s1) = ''''" "onStreamFinalized (fl s2)" "finalizedKey (fl s2) = ''''"
    and "f_name (fl s2) = f_name (fl s1)" "registered_key env s2 = registered_key env s1" "registered_key env s1 \<noteq> ''''"
    and "log_stream_key h = registered_key env s1" "pr s2 = pr (registerFinalized env s1)"
  shows "\<exists>p' info. finalizedLogger_OnLog (f_name (fl s1)) streams h AccessLogTypeDownstreamEnd (pr (registerFinalized env s2)) =
      (Some (self (fl s2), info), p') \<and>
    finalizedLogger_OnLog (f_name (fl s1)) streams h AccessLogTypeDownstreamEnd p' = (None, p')"
proof -
  let ?k = "streamFinalizedKey (f_name (fl s1)) (log_stream_key h)" and ?p = "pr (registerFinalized env s2)"
  let ?p' = "dropBag (streamObjectNonce (streams (self (fl s2)))) (?p\<lparr>streamFinalizedEntries := (streamFinalizedEntries ?p)(?k := None)\<rparr>)"
  have "streamFinalizedEntries ?p ?k =
      Some \<lparr>e_fn = True, e_ctx = self (fl s2), e_streamObjectNonce = self (fl s2), e_localReplyBody = self (fl s2)\<rparr>"
    using registerFinalized_entry [OF assms(3,4), of env] assms(5-8) by simp
  then have "finalizedLogger_OnLog (f_name (fl s1)) streams h AccessLogTypeDownstreamEnd ?p =
      (Some (self (fl s2), finalized_info h (localReplyBody (streams (self (fl s2))))), ?p')"
    using OnLog_delivers [of ?p "f_name (fl s1)" h _ streams] assms(7,8) by simp
  moreover have "finalizedLogger_OnLog (f_name (fl s1)) streams h AccessLogTypeDownstreamEnd ?p' = (None, ?p')"
    by (rule OnLog_absent) simp
  ultimately show ?thesis by blast
qed

lemma shared_request_id_loses_first_stream_example:
  "\<exists>p' info. finalizedLogger_OnLog ''demo'' (\<lambda>_. fl (demo_fin 2 demo_process)) demo_log_handle AccessLogTypeDownstreamEnd
      (pr (registerFinalized demo_fin_env (demo_fin 2 (pr (registerFinalized demo_fin_env (demo_fin 1 demo_process)))))) =
    (Some (2, info), p')"
  using shared_request_id_loses_first_stream [of "demo_fin 1 demo_process"
      "demo_fin 2 (pr (registerFinalized demo_fin_env (demo_fin 1 demo_process)))" demo_fin_env demo_log_handle
      "\<lambda>_. fl (demo_fin 2 demo_process)"]
  by (auto simp: demo_fin_facts)

end
