(* ===== verification/Writer_Helpers.thy ===== *)
theory Writer_Helpers
  imports Stream_Theorems
begin

text \<open>
  What the Writer offers around the operations of a stream: the structured-log handler and \<open>Do\<close> of
  \<^verbatim>\<open>src/up/writer.go\<close>, typed metadata (\<^verbatim>\<open>src/up/metadata.go\<close>), typed stream objects
  (\<^verbatim>\<open>src/up/stream_key.go\<close>) and how a cluster's load balancer reads them
  (\<open>dymClusterLBContext.GetStreamObject\<close>, \<^verbatim>\<open>src/down/abi_impl/cluster.go\<close>).
\<close>

section \<open>Numbers as strings\<close>

definition FormatInt :: "int \<Rightarrow> string" where
  "FormatInt i = (if i < 0 then CHR ''-'' # Itoa (nat (- i)) else Itoa (nat i))"

text \<open>\<open>fmt\<close> renders a float of the given width, as \<^verbatim>\<open>strconv.FormatFloat\<close> does.\<close>

fun numericToString :: "(nat \<Rightarrow> uint64 \<Rightarrow> string) \<Rightarrow> go_value \<Rightarrow> go_value" where
  "numericToString fmt (VInt n i) = VString (FormatInt i)"
| "numericToString fmt (VUint n i) = VString (Itoa i)"
| "numericToString fmt (VFloat n b) = VString (fmt n b)"
| "numericToString fmt v = v"

definition SetTypedMetadata ::
    "(nat \<Rightarrow> uint64 \<Rightarrow> string) \<Rightarrow> string \<Rightarrow> string \<Rightarrow> go_value \<Rightarrow> writer \<Rightarrow> http_filter \<Rightarrow> http_filter outcome" where
  "SetTypedMetadata fmt ns k v w f = SetMetadata ns k (numericToString fmt v) w f"

section \<open>The log handler\<close>

text \<open>\<open>slog.Value.String\<close> on the values an attribute can hold.\<close>

fun value_String :: "(nat \<Rightarrow> uint64 \<Rightarrow> string) \<Rightarrow> go_value \<Rightarrow> string" where
  "value_String fmt (VString s) = s"
| "value_String fmt (VBool b) = (if b then ''true'' else ''false'')"
| "value_String fmt (VInt n i) = FormatInt i"
| "value_String fmt (VUint n i) = Itoa i"
| "value_String fmt (VFloat n b) = fmt n b"
| "value_String fmt (VOther s) = s"

record writerHandler =
  h_attrs :: "(string \<times> go_value) list"
  h_group :: string

definition Slog :: "http_filter \<Rightarrow> writerHandler" where
  "Slog f = \<lparr>h_attrs = logAttrs f, h_group = ''''\<rparr>"

definition write_attr :: "(nat \<Rightarrow> uint64 \<Rightarrow> string) \<Rightarrow> string \<Rightarrow> string \<times> go_value \<Rightarrow> string" where
  "write_attr fmt grp a =
     '' '' @ (if grp \<noteq> '''' then grp @ ''.'' else '''') @ fst a @ ''='' @ value_String fmt (snd a)"

datatype LogLevel = LogTrace | LogDebug | LogInfo | LogWarn | LogError | LogCritical

text \<open>The levels of \<^verbatim>\<open>log/slog\<close>: Debug -4, Info 0, Warn 4, Error 8.\<close>

definition slogLevelToUp :: "int \<Rightarrow> LogLevel" where
  "slogLevelToUp l =
     (if l \<ge> 8 + 4 then LogCritical else if l \<ge> 8 then LogError else if l \<ge> 4 then LogWarn
      else if l \<ge> 0 then LogInfo else if l \<ge> - 4 then LogDebug else LogTrace)"

text \<open>\<open>num\<close> gives the SDK's number of a level.\<close>

definition slog_Handle ::
    "(LogLevel \<Rightarrow> nat) \<Rightarrow> (nat \<Rightarrow> uint64 \<Rightarrow> string) \<Rightarrow> int \<Rightarrow> string \<Rightarrow> (string \<times> go_value) list \<Rightarrow> writerHandler \<Rightarrow>
      http_filter \<Rightarrow> http_filter" where
  "slog_Handle num fmt lvl msg attrs h f =
     emit [CLog (num (slogLevelToUp lvl))
       (msg @ '' filter='' @ f_name f @ (if reqID f \<noteq> '''' then '' request_id='' @ reqID f else '''') @
        concat (map (write_attr fmt '''') (h_attrs h)) @ concat (map (write_attr fmt (h_group h)) attrs))] f"

definition slog_WithAttrs :: "(string \<times> go_value) list \<Rightarrow> writerHandler \<Rightarrow> writerHandler" where
  "slog_WithAttrs attrs h = h\<lparr>h_attrs := h_attrs h @ attrs\<rparr>"

definition slog_WithGroup :: "string \<Rightarrow> writerHandler \<Rightarrow> writerHandler" where
  "slog_WithGroup nm h = h\<lparr>h_group := nm\<rparr>"

text \<open>
  A group replaces the group before it instead of nesting in it, and does not qualify the attributes that
  are added to the handler after it.
\<close>

lemma groups_do_not_nest: "slog_WithGroup b (slog_WithGroup a h) = slog_WithGroup b h"
  by (simp add: slog_WithGroup_def)

lemma attrs_ignore_group:
  "slog_Handle num fmt lvl msg [] (slog_WithAttrs attrs (slog_WithGroup nm h)) f = slog_Handle num fmt lvl msg [] (slog_WithAttrs attrs h) f"
  by (simp add: slog_Handle_def slog_WithAttrs_def slog_WithGroup_def)

section \<open>Do\<close>

text \<open>
  One call of \<open>Do\<close> from a goroutine: a closure on the worker thread starts the callout, and its channel,
  which holds one result, wakes the goroutine up. A send on the full channel would block the worker.
\<close>

datatype do_result = DoResp callout_done | DoErr string

record do_call =
  do_chan :: "do_result list"
  do_inflight :: bool
  do_blocked :: bool

definition Do_begin :: "http_filter \<Rightarrow> do_call outcome" where
  "Do_begin f =
     (if \<not> goStarted f then Inl (Panic ''up: Do called outside Go'')
      else Inr \<lparr>do_chan = [], do_inflight = False, do_blocked = False\<rparr>)"

definition do_send :: "do_result \<Rightarrow> do_call \<Rightarrow> do_call" where
  "do_send r d = (if do_chan d = [] then d\<lparr>do_chan := [r]\<rparr> else d\<lparr>do_blocked := True\<rparr>)"

definition Do_scheduled :: "envoy \<Rightarrow> callout_request \<Rightarrow> http_filter \<Rightarrow> do_call \<Rightarrow> http_filter \<times> do_call" where
  "Do_scheduled env req f d =
     (if goCompleted f then (f, do_send (DoErr ''context canceled'') d)
      else
        let (init, immediate) = env_callout env (events f) req;
            d1 = (case immediate of Some r \<Rightarrow> do_send (DoResp r) d
                  | None \<Rightarrow> d\<lparr>do_inflight := init = HTTPCalloutInitSuccess\<rparr>);
            d2 = (case errCalloutInitResult init of Some err \<Rightarrow> do_send (DoErr err) d1 | None \<Rightarrow> d1)
        in (emit [CHttpCallout req] f, d2))"

definition Do_callback :: "callout_done \<Rightarrow> do_call \<Rightarrow> do_call option" where
  "Do_callback r d = (if do_inflight d then Some (do_send (DoResp r) (d\<lparr>do_inflight := False\<rparr>)) else None)"

text \<open>The select: the context's error or the result, either when both are ready, \<open>None\<close> while it waits.\<close>

definition Do_return :: "string option \<Rightarrow> bool \<Rightarrow> do_call \<Rightarrow> (string + callout_done) option" where
  "Do_return ctx_err pick_ctx d =
     (case (ctx_err, do_chan d) of
        (None, []) \<Rightarrow> None
      | (Some err, []) \<Rightarrow> Some (Inl err)
      | (Some err, r # rs) \<Rightarrow> if pick_ctx then Some (Inl err) else Some (case r of DoErr e \<Rightarrow> Inl e | DoResp c \<Rightarrow> Inr c)
      | (None, r # rs) \<Rightarrow> Some (case r of DoErr e \<Rightarrow> Inl e | DoResp c \<Rightarrow> Inr c))"

text \<open>
  With an Envoy that calls back only for callouts it started, and once for each, the worker never blocks on
  the channel, and a callout that is no longer in flight has woken the goroutine up.
\<close>

definition callbacks_only_on_success :: "envoy \<Rightarrow> bool" where
  "callbacks_only_on_success env \<longleftrightarrow>
     (\<forall>ev req init r. env_callout env ev req = (init, Some r) \<longrightarrow> init = HTTPCalloutInitSuccess)"

lemma Do_scheduled_ok:
  assumes "callbacks_only_on_success env" "Do_begin f = Inr d" "Do_scheduled env req f' d = (f'', d')"
  shows "\<not> do_blocked d' \<and> (do_inflight d' \<longleftrightarrow> do_chan d' = [])"
proof -
  have d: "d = \<lparr>do_chan = [], do_inflight = False, do_blocked = False\<rparr>" using assms(2) by (simp add: Do_begin_def split: if_splits)
  obtain init immediate where c: "env_callout env (events f') req = (init, immediate)" by fastforce
  have "immediate = None \<or> init = HTTPCalloutInitSuccess"
    using assms(1) c unfolding callbacks_only_on_success_def by (cases immediate) blast+
  with assms(3) c show ?thesis unfolding d
    by (cases init; cases immediate; cases "goCompleted f'") (auto simp: Do_scheduled_def do_send_def)
qed

lemma Do_callback_ok:
  "\<not> do_blocked d \<and> (do_inflight d \<longleftrightarrow> do_chan d = []) \<Longrightarrow> Do_callback r d = Some d' \<Longrightarrow>
     \<not> do_blocked d' \<and> Do_return None pick d' = Some (Inr r)"
  by (auto simp: Do_callback_def do_send_def Do_return_def split: if_splits)

section \<open>Typed stream objects\<close>

text \<open>\<open>is_T\<close> is the type assertion to the key's type parameter.\<close>

definition StreamKey_Set :: "envoy \<Rightarrow> string \<Rightarrow> writer \<Rightarrow> go_value \<Rightarrow> sys \<Rightarrow> sys outcome" where
  "StreamKey_Set env key w v s = SetStreamObject env key v w s"

definition assert_T :: "(go_value \<Rightarrow> bool) \<Rightarrow> go_value option \<Rightarrow> go_value option" where
  "assert_T is_T raw = (case raw of Some v \<Rightarrow> if is_T v then Some v else None | None \<Rightarrow> None)"

definition StreamKey_Get :: "envoy \<Rightarrow> (go_value \<Rightarrow> bool) \<Rightarrow> string \<Rightarrow> sys \<Rightarrow> go_value option \<times> sys" where
  "StreamKey_Get env is_T key s = (let (raw, s') = GetStreamObject env key s in (assert_T is_T raw, s'))"

text \<open>The load balancer's context: \<open>state\<close> is what Envoy answers for the stream's filter state.\<close>

definition LBContext_GetStreamObject :: "(string \<Rightarrow> string option) \<Rightarrow> bags \<Rightarrow> string \<Rightarrow> go_value option" where
  "LBContext_GetStreamObject state m key =
     (case state StreamObjectIDKey of
        None \<Rightarrow> None
      | Some nonce \<Rightarrow>
          if nonce = '''' then None
          else (case LookupStreamObjectBag nonce m of None \<Rightarrow> None | Some b \<Rightarrow> StreamObjects_Get key b))"

definition StreamKey_GetFromCtx :: "(string \<Rightarrow> string option) \<Rightarrow> (go_value \<Rightarrow> bool) \<Rightarrow> bags \<Rightarrow> string \<Rightarrow> go_value option" where
  "StreamKey_GetFromCtx state is_T m key = assert_T is_T (LBContext_GetStreamObject state m key)"

section \<open>Filter state as Envoy keeps it\<close>

text \<open>The value of the last \<open>SetFilterState\<close> call for the key.\<close>

fun state_step :: "string \<Rightarrow> string option \<Rightarrow> event \<Rightarrow> string option" where
  "state_step key cur (Handle (CSetFilterState k v)) = (if k = key then Some v else cur)"
| "state_step key cur e = cur"

definition filter_state_of :: "events \<Rightarrow> string \<Rightarrow> string option" where
  "filter_state_of evs key = foldl (state_step key) None evs"

fun sets_state :: "call \<Rightarrow> bool" where
  "sets_state (CSetFilterState k v) = True"
| "sets_state c = False"

lemma no_state_calls: "list_all (\<lambda>c. \<not> sets_state c) cs \<Longrightarrow> foldl (state_step key) cur (map Handle cs) = cur"
proof (induction cs arbitrary: cur)
  case (Cons c cs)
  then show ?case by (cases c) simp_all
qed simp

lemma other_calls_no_state:
  "\<not> sets_state (header_call m)" "\<not> sets_state (gauge_call g)" "list_all (\<lambda>c. \<not> sets_state c) (body_calls env ev f)"
  subgoal by (simp add: header_call_def)
  subgoal by (cases g rule: gauge_call.cases) simp_all
  subgoal by (auto simp: body_calls_def replace_calls_def split: option.splits prod.splits)
  done

text \<open>What Envoy holds under a key once the queued filter state has been flushed.\<close>

definition state_due :: "http_filter \<Rightarrow> string \<Rightarrow> string option" where
  "state_due f key = foldl (state_step key) (filter_state_of (events f) key) (map Handle (map (\<lambda>(k, v). CSetFilterState k v) (filterState f)))"

lemma state_after_flush:
  assumes "localReply f = None"
  shows "filter_state_of (events (flush env c f)) key = state_due f key"
proof -
  let ?body = "body_calls env (events f @ map Handle (queue_calls f)) f"
  define before after where
    "before = map header_call (reqHeaders f) @
      (if stripFramingOnResume f
       then [CHdrRemove RequestHdrs ''content-length'', CHdrRemove RequestHdrs ''transfer-encoding''] else [])" and
    "after = map (\<lambda>(i, d, ls). CIncrementCounter i d ls) (counters f) @ map gauge_call (gauges f)
      @ map (\<lambda>(i, v, ls). CRecordHistogram i v ls) (histograms f)
      @ map (\<lambda>(ns, k, v). CSetMetadata ns k v) (dynamicMetadata f)
      @ (case override f of Some (h, strict) \<Rightarrow> [CSetUpstreamOverrideHost h strict] | None \<Rightarrow> [])
      @ ?body @ (if c then [CContinueRequest] else [])"
  have "flush_calls env c f = before @ map (\<lambda>(k, v). CSetFilterState k v) (filterState f) @ after"
    by (simp add: flush_calls_def queue_calls_def before_def after_def)
  moreover have "list_all (\<lambda>c. \<not> sets_state c) before" "list_all (\<lambda>c. \<not> sets_state c) after"
    using other_calls_no_state by (auto simp: before_def after_def list_all_iff split: option.splits)
  ultimately show ?thesis
    by (simp add: flush_no_reply [OF assms] emit_def filter_state_of_def state_due_def no_state_calls drained_def del: map_map)
qed

lemma state_due_flush:
  assumes "localReply f = None"
  shows "state_due (flush env c f) key = state_due f key"
proof -
  have "filterState (flush env c f) = []" by (simp add: flush_no_reply [OF assms] drained_def emit_def)
  then have "state_due (flush env c f) key = filter_state_of (events (flush env c f)) key" by (simp add: state_due_def)
  then show ?thesis by (simp add: state_after_flush [OF assms])
qed

lemma queue_state:
  "foldl (state_step key) cur (map Handle (map (\<lambda>(k, v). CSetFilterState k v) q)) = (case map_of (rev q) key of Some v \<Rightarrow> Some v | None \<Rightarrow> cur)"
  by (induction q rule: rev_induct) (auto split: option.split prod.split)

lemma state_due_new: "state_due f key = None \<Longrightarrow> state_due (SetFilterState key v w f) key = Some v"
  by (auto simp: state_due_def SetFilterState_def emit_def queue_state filter_state_of_def simp del: map_map split: option.splits)

text \<open>A stream and its objects: without a nonce Envoy holds none for the stream either, and a nonce is the one that
  Envoy holds, or will hold after the next flush, and has its bag.\<close>

definition objects_linked :: "sys \<Rightarrow> bool" where
  "objects_linked s \<longleftrightarrow>
     (if streamObjectNonce (fl s) = '''' then state_due (fl s) StreamObjectIDKey = None
      else state_due (fl s) StreamObjectIDKey = Some (streamObjectNonce (fl s)) \<and> streamObjectBags (pr s) (streamObjectNonce (fl s)) \<noteq> None)"

text \<open>What the load balancer finds under a key once the stream's callback has flushed.\<close>

definition lb_sees :: "envoy \<Rightarrow> bool \<Rightarrow> sys \<Rightarrow> string \<Rightarrow> go_value option" where
  "lb_sees env c s = LBContext_GetStreamObject (filter_state_of (events (flush env c (fl s)))) (streamObjectBags (pr s))"

lemma lb_sees_bag:
  assumes "objects_linked s" "localReply (fl s) = None"
  shows "lb_sees env c s key = (case streamObjectBags (pr s) (streamObjectNonce (fl s)) of None \<Rightarrow> None | Some b \<Rightarrow>
    if streamObjectNonce (fl s) = '''' then None else b key)"
  using assms by (auto simp: lb_sees_def LBContext_GetStreamObject_def state_after_flush objects_linked_def LookupStreamObjectBag_def
      StreamObjects_Get_def split: if_splits option.splits)

text \<open>A stream stores objects through any of its Writers, in one callback or in several, each of which ends with a flush.\<close>

datatype object_op = Store writer string go_value | Flush bool

fun run_objects :: "envoy \<Rightarrow> object_op list \<Rightarrow> sys \<Rightarrow> sys outcome" where
  "run_objects env [] s = Inr s"
| "run_objects env (Store w key v # ops) s = obind (SetStreamObject env key v w s) (run_objects env ops)"
| "run_objects env (Flush c # ops) s = run_objects env ops (s\<lparr>fl := flush env c (fl s)\<rparr>)"

fun stored_objects :: "object_op list \<Rightarrow> (string \<times> go_value) list" where
  "stored_objects [] = []"
| "stored_objects (Store w key v # ops) = (key, v) # stored_objects ops"
| "stored_objects (Flush c # ops) = stored_objects ops"

lemma SetStreamObject_links:
  assumes "SetStreamObject env key v w s = Inr s'" "objects_linked s" "localReply (fl s) = None" "\<forall>n. env_rand env n \<noteq> ''''"
  shows "objects_linked s' \<and> localReply (fl s') = None \<and> streamObjectNonce (fl s') \<noteq> '''' \<and>
    (\<forall>k. lb_sees env c s' k = (if k = key then Some v else lb_sees env c s k)) \<and>
    (\<forall>n. n \<noteq> streamObjectNonce (fl s') \<longrightarrow> streamObjectBags (pr s') n = streamObjectBags (pr s) n) \<and>
    (streamObjectNonce (fl s) \<noteq> '''' \<longrightarrow> streamObjectNonce (fl s') = streamObjectNonce (fl s)) \<and>
    (streamObjectNonce (fl s) = '''' \<longrightarrow> streamObjectBags (pr s) (streamObjectNonce (fl s')) = None)"
proof (cases "streamObjectNonce (fl s) = ''''")
  case True
  from assms(1) True obtain m nonce k where
    mint: "mint_bag (env_fuel env) (env_rand env) (randIndex (pr s)) (streamObjectBags (pr s)) = Some (m, nonce, k)"
    by (auto simp: SetStreamObject_def getOrCreateBag_def Let_def obind_eq_Inr split: option.splits)
  have m: "streamObjectBags (pr s) nonce = None" "m = (streamObjectBags (pr s))(nonce \<mapsto> Map.empty)" "nonce \<noteq> ''''"
    using mint_bag_SomeD [OF mint] assms(4) by auto
  have f': "fl s' = SetFilterState StreamObjectIDKey nonce w ((fl s)\<lparr>streamObjectNonce := nonce\<rparr>)"
    and bags: "streamObjectBags (pr s') = m(nonce \<mapsto> Map.empty(key \<mapsto> v))"
    using assms(1) True mint m
    by (auto simp: SetStreamObject_def getOrCreateBag_def Let_def SetFilterState_def StreamObjects_Set_def emit_def split: if_splits)
  have fields: "streamObjectNonce (fl s') = nonce" "localReply (fl s') = None"
    using assms(3) by (simp_all add: f' SetFilterState_def emit_def)
  have "state_due ((fl s)\<lparr>streamObjectNonce := nonce\<rparr>) StreamObjectIDKey = None"
    using assms(2) True by (simp add: objects_linked_def state_due_def)
  then have "state_due (fl s') StreamObjectIDKey = Some nonce" unfolding f' by (rule state_due_new)
  then have l: "objects_linked s'" using m(3) bags fields by (simp add: objects_linked_def)
  have "lb_sees env c s k = None" for k using lb_sees_bag [OF assms(2,3), of env c k] True by (simp split: option.splits)
  then show ?thesis using l fields m bags True lb_sees_bag [OF l fields(2)] by simp
next
  case False
  then obtain b where b: "streamObjectBags (pr s) (streamObjectNonce (fl s)) = Some b" using assms(2) by (auto simp: objects_linked_def)
  then have s': "s' = s\<lparr>pr := (pr s)\<lparr>streamObjectBags := (streamObjectBags (pr s))(streamObjectNonce (fl s) \<mapsto> b(key \<mapsto> v))\<rparr>\<rparr>"
    using assms(1) False by (simp add: SetStreamObject_def getOrCreateBag_def LookupStreamObjectBag_def Let_def StreamObjects_Set_def)
  have l: "objects_linked s'" using assms(2) False by (simp add: objects_linked_def s')
  have r: "localReply (fl s') = None" using assms(3) by (simp add: s')
  show ?thesis using l r False b lb_sees_bag [OF l r] lb_sees_bag [OF assms(2,3)] by (simp add: s')
qed

lemma flush_links:
  fixes env :: envoy and c c' :: bool
  assumes "objects_linked s" "localReply (fl s) = None"
  defines "s' \<equiv> s\<lparr>fl := flush env c (fl s)\<rparr>"
  shows "objects_linked s'" "localReply (fl s') = None" "streamObjectNonce (fl s') = streamObjectNonce (fl s)"
    "lb_sees env c' s' = lb_sees env c' s"
proof -
  have f: "localReply (fl s') = None" "streamObjectNonce (fl s') = streamObjectNonce (fl s)"
    using assms(2) by (simp_all add: s'_def flush_no_reply drained_def emit_def)
  then show "localReply (fl s') = None" "streamObjectNonce (fl s') = streamObjectNonce (fl s)" by simp_all
  show l: "objects_linked s'" using assms(1) f state_due_flush [OF assms(2)] by (simp add: objects_linked_def s'_def)
  show "lb_sees env c' s' = lb_sees env c' s"
    using lb_sees_bag [OF l f(1)] lb_sees_bag [OF assms(1,2)] f(2) by (intro ext) (simp add: s'_def split: option.split)
qed

lemma run_objects_links:
  assumes "run_objects env ops s = Inr s'" "objects_linked s" "localReply (fl s) = None" "\<forall>n. env_rand env n \<noteq> ''''"
  shows "objects_linked s' \<and> localReply (fl s') = None \<and>
    (\<forall>key. lb_sees env c s' key = (case map_of (rev (stored_objects ops)) key of Some v \<Rightarrow> Some v | None \<Rightarrow> lb_sees env c s key)) \<and>
    (stored_objects ops \<noteq> [] \<or> streamObjectNonce (fl s) \<noteq> '''' \<longrightarrow> streamObjectNonce (fl s') \<noteq> '''') \<and>
    (\<forall>n m. n \<noteq> streamObjectNonce (fl s) \<and> streamObjectBags (pr s) n = Some m \<longrightarrow> streamObjectBags (pr s') n = Some m)"
  using assms
proof (induction env ops s rule: run_objects.induct)
  case (2 env w key v ops s)
  then obtain s1 where 1: "SetStreamObject env key v w s = Inr s1" "run_objects env ops s1 = Inr s'" by (auto simp: obind_eq_Inr)
  note one = SetStreamObject_links [OF 1(1) "2.prems"(2-4)]
  have "objects_linked s1" "localReply (fl s1) = None" using one by blast+
  note rest = "2.IH" [OF 1(2) this "2.prems"(4)]
  have sees: "lb_sees env c s' k = (case map_of (rev (stored_objects (Store w key v # ops))) k of Some v \<Rightarrow> Some v | None \<Rightarrow> lb_sees env c s k)" for k
    using one rest by (auto simp: map_add_def split: option.split)
  have others: "streamObjectBags (pr s') n = Some m" if "n \<noteq> streamObjectNonce (fl s)" "streamObjectBags (pr s) n = Some m" for n m
  proof -
    have "n \<noteq> streamObjectNonce (fl s1)" using one that by (cases "streamObjectNonce (fl s) = ''''") auto
    then show ?thesis using one rest that by auto
  qed
  show ?case using sees others rest one by blast
next
  case (3 env c0 ops s)
  note f = flush_links [OF "3.prems"(2,3), where env=env and c=c0]
  note rest = "3.IH" [OF _ f(1,2) "3.prems"(4)]
  show ?case using rest "3.prems"(1) f(3) f(4) [where c'=c] by (simp split: option.split)
qed simp

section \<open>Properties\<close>


definition demo_objects :: "object_op list" where
  "demo_objects = [Store request_writer ''route'' (VString ''blue''), Flush False, Store request_writer ''user'' (VString ''u1''),
     Store request_writer ''route'' (VString ''green'')]"

definition demo_stored :: sys where
  "demo_stored = result_or (demo_start None) (run_objects demo_env demo_objects (demo_start None))"


end
