(* ===== verification/Exchange_Hooks.thy ===== *)
theory Exchange_Hooks
  imports Transit_Prelude
begin

text \<open>
  The exchange observer (\<open>WithExchangeObserver\<close>, \<^verbatim>\<open>src/up/exchange_hooks.go\<close>): each stream keeps the value
  that \<open>OnRequest\<close> returned in a slot of memory its context points to, and the slots are recycled through a
  \<^verbatim>\<open>sync.Pool\<close> shared by all streams of the filter. The slots are an explicit store, since what one stream
  sees depends on no other stream pointing into the same slot. \<open>sync.Pool\<close> may hand out any pooled slot or
  a new one, and may forget slots.
\<close>

section \<open>State\<close>

text \<open>What a stream's \<open>Context\<close> holds: nothing, a slot of this observer, or a value of another type.\<close>

datatype ctx_value = NilCtx | SlotCtx nat | OtherCtx

datatype 'v hook_event = GotRequest nat 'v | GotResponse nat 'v | GotFinalized nat 'v

text \<open>How far the finalization callback of a stream is: not running, past \<open>OnFinalized\<close>, past the assignment of the
  zero value, past \<open>pool.Put\<close>.\<close>

datatype fin_phase = NotFinalizing | FinDelivered nat | FinZeroed nat | FinPut nat

record 'v exchange =
  slots :: "nat \<Rightarrow> 'v"
  allocated :: nat
  slot_pool :: "nat list"
  stream_ctx :: "nat \<Rightarrow> ctx_value"
  finalizing :: "nat \<Rightarrow> fin_phase"
  hook_log :: "'v hook_event list"

text \<open>Which of the optional hooks are set.\<close>

record exchange_hooks =
  has_OnResponse :: bool
  has_OnFinalized :: bool

definition new_exchange :: "'v \<Rightarrow> 'v exchange" where
  "new_exchange zero =
     \<lparr>slots = (\<lambda>_. zero), allocated = 0, slot_pool = [], stream_ctx = (\<lambda>_. NilCtx), finalizing = (\<lambda>_. NotFinalizing), hook_log = []\<rparr>"

section \<open>The three callbacks\<close>

text \<open>\<open>pool.Get\<close>: the pooled slot at \<open>pick\<close>, or a new one.\<close>

definition pool_Get :: "nat option \<Rightarrow> 'v exchange \<Rightarrow> nat \<times> 'v exchange" where
  "pool_Get pick x =
     (case pick of
        Some k \<Rightarrow>
          if k < length (slot_pool x)
          then (slot_pool x ! k, x\<lparr>slot_pool := take k (slot_pool x) @ drop (Suc k) (slot_pool x)\<rparr>)
          else (allocated x, x\<lparr>allocated := Suc (allocated x)\<rparr>)
      | None \<Rightarrow> (allocated x, x\<lparr>allocated := Suc (allocated x)\<rparr>))"

text \<open>The handler is one step: until it stores the slot in the stream's context, nothing but its own variable points
  to the slot it took from the pool.\<close>

definition exchange_request :: "nat option \<Rightarrow> nat \<Rightarrow> 'v \<Rightarrow> 'v exchange \<Rightarrow> 'v exchange" where
  "exchange_request pick sid v x =
     (let (slot, x) = pool_Get pick x
      in x\<lparr>hook_log := hook_log x @ [GotRequest sid v], slots := (slots x)(slot := v),
           stream_ctx := (stream_ctx x)(sid := SlotCtx slot)\<rparr>)"

definition exchange_response :: "exchange_hooks \<Rightarrow> nat \<Rightarrow> 'v exchange \<Rightarrow> 'v exchange" where
  "exchange_response h sid x =
     (if \<not> has_OnResponse h then x
      else case stream_ctx x sid of
             SlotCtx slot \<Rightarrow> x\<lparr>hook_log := hook_log x @ [GotResponse sid (slots x slot)]\<rparr>
           | _ \<Rightarrow> x)"

text \<open>The finalization callback runs on the worker thread of its stream, beside the callbacks of streams on other
  threads, which share the pool: each of its writes is a step.\<close>

definition exchange_finalized :: "exchange_hooks \<Rightarrow> nat \<Rightarrow> 'v exchange \<Rightarrow> 'v exchange" where
  "exchange_finalized h sid x =
     (case stream_ctx x sid of
        SlotCtx slot \<Rightarrow>
          let x = (if has_OnFinalized h then x\<lparr>hook_log := hook_log x @ [GotFinalized sid (slots x slot)]\<rparr> else x)
          in x\<lparr>finalizing := (finalizing x)(sid := FinDelivered slot)\<rparr>
      | _ \<Rightarrow> x)"

definition exchange_finalized_next :: "'v \<Rightarrow> nat \<Rightarrow> 'v exchange \<Rightarrow> 'v exchange" where
  "exchange_finalized_next zero sid x =
     (case finalizing x sid of
        NotFinalizing \<Rightarrow> x
      | FinDelivered slot \<Rightarrow> x\<lparr>slots := (slots x)(slot := zero), finalizing := (finalizing x)(sid := FinZeroed slot)\<rparr>
      | FinZeroed slot \<Rightarrow> x\<lparr>slot_pool := slot_pool x @ [slot], finalizing := (finalizing x)(sid := FinPut slot)\<rparr>
      | FinPut slot \<Rightarrow> x\<lparr>stream_ctx := (stream_ctx x)(sid := NilCtx), finalizing := (finalizing x)(sid := NotFinalizing)\<rparr>)"

text \<open>
  The callbacks of any number of streams in any order; those of one stream do not overlap. User code may put a value
  of its own into a context, or clear it.
\<close>

inductive exchange_run :: "exchange_hooks \<Rightarrow> 'v \<Rightarrow> 'v exchange \<Rightarrow> bool" for h :: exchange_hooks and zero :: 'v where
  ex_new: "exchange_run h zero (new_exchange zero)"
| ex_request: "exchange_run h zero x \<Longrightarrow> finalizing x sid = NotFinalizing \<Longrightarrow> exchange_run h zero (exchange_request pick sid v x)"
| ex_response: "exchange_run h zero x \<Longrightarrow> finalizing x sid = NotFinalizing \<Longrightarrow> exchange_run h zero (exchange_response h sid x)"
| ex_finalized: "exchange_run h zero x \<Longrightarrow> finalizing x sid = NotFinalizing \<Longrightarrow> exchange_run h zero (exchange_finalized h sid x)"
| ex_finalized_next: "exchange_run h zero x \<Longrightarrow> exchange_run h zero (exchange_finalized_next zero sid x)"
| ex_user: "exchange_run h zero x \<Longrightarrow> finalizing x sid = NotFinalizing \<Longrightarrow> c = NilCtx \<or> c = OtherCtx \<Longrightarrow>
    exchange_run h zero (x\<lparr>stream_ctx := (stream_ctx x)(sid := c)\<rparr>)"
| ex_forget: "exchange_run h zero x \<Longrightarrow>
    exchange_run h zero (x\<lparr>slot_pool := take k (slot_pool x) @ drop (Suc k) (slot_pool x)\<rparr>)"


section \<open>What a stream may see\<close>

text \<open>The value of a stream's own last request, until it is finalized.\<close>

fun own_request :: "nat \<Rightarrow> 'v option \<Rightarrow> 'v hook_event \<Rightarrow> 'v option" where
  "own_request sid cur (GotRequest s v) = (if s = sid then Some v else cur)"
| "own_request sid cur (GotResponse s v) = cur"
| "own_request sid cur (GotFinalized s v) = (if s = sid then None else cur)"

definition last_request :: "nat \<Rightarrow> 'v hook_event list \<Rightarrow> 'v option" where
  "last_request sid log = foldl (own_request sid) None log"

fun sees_own :: "'v hook_event list \<Rightarrow> 'v hook_event \<Rightarrow> bool" where
  "sees_own log (GotRequest sid v) \<longleftrightarrow> True"
| "sees_own log (GotResponse sid v) \<longleftrightarrow> last_request sid log = Some v"
| "sees_own log (GotFinalized sid v) \<longleftrightarrow> last_request sid log = Some v"

definition private_log :: "'v hook_event list \<Rightarrow> bool" where
  "private_log log \<longleftrightarrow> (\<forall>i < length log. sees_own (take i log) (log ! i))"

lemma last_request_snoc [simp]: "last_request sid (log @ [e]) = own_request sid (last_request sid log) e"
  by (simp add: last_request_def)

lemma private_log_snoc [simp]: "private_log (log @ [e]) \<longleftrightarrow> private_log log \<and> sees_own log e"
  by (auto simp: private_log_def less_Suc_eq nth_append)

text \<open>The slot a stream holds: the one its context points to, and during finalization until it is put back.\<close>

fun held :: "fin_phase \<Rightarrow> ctx_value \<Rightarrow> nat option" where
  "held NotFinalizing NilCtx = None"
| "held NotFinalizing (SlotCtx a) = Some a"
| "held NotFinalizing OtherCtx = None"
| "held (FinDelivered a) c = Some a"
| "held (FinZeroed a) c = Some a"
| "held (FinPut a) c = None"

definition holds :: "'v exchange \<Rightarrow> nat \<Rightarrow> nat option" where
  "holds x sid = held (finalizing x sid) (stream_ctx x sid)"


text \<open>Held slots belong to one stream each, are not in the pool, and hold that stream's value until it is
  finalized; pooled slots and those about to be put back are zero.\<close>

definition exchange_inv :: "'v \<Rightarrow> 'v exchange \<Rightarrow> bool" where
  "exchange_inv zero x \<longleftrightarrow>
     distinct (slot_pool x) \<and> (\<forall>a \<in> set (slot_pool x). a < allocated x \<and> slots x a = zero) \<and>
     (\<forall>sid a. holds x sid = Some a \<longrightarrow> a < allocated x \<and> a \<notin> set (slot_pool x)) \<and>
     (\<forall>s1 s2 a. holds x s1 = Some a \<longrightarrow> holds x s2 = Some a \<longrightarrow> s1 = s2) \<and>
     (\<forall>sid a. finalizing x sid = NotFinalizing \<longrightarrow> stream_ctx x sid = SlotCtx a \<longrightarrow> last_request sid (hook_log x) = Some (slots x a)) \<and>
     (\<forall>sid a. finalizing x sid = FinZeroed a \<longrightarrow> slots x a = zero) \<and>
     private_log (hook_log x)"


lemma set_remove_nth: "set (take k xs @ drop (Suc k) xs) \<subseteq> set xs"
  by (auto dest: in_set_takeD in_set_dropD)

lemma distinct_remove_nth: "distinct xs \<Longrightarrow> distinct (take k xs @ drop (Suc k) xs)"
  by (metis distinct_append distinct_drop distinct_take set_take_disj_set_drop_if_distinct le_SucI order_refl)

lemma removed_nth: "distinct xs \<Longrightarrow> k < length xs \<Longrightarrow> xs ! k \<notin> set (take k xs @ drop (Suc k) xs)"
  by (metis distinct.simps(2) distinct_append id_take_nth_drop Un_iff disjoint_iff list.set_intros(1) set_append)

text \<open>A slot from the pool is one that no stream holds.\<close>

lemma pool_Get_fresh:
  assumes "exchange_inv zero x" "pool_Get pick x = (slot, y)"
  shows "slot < allocated y \<and> slot \<notin> set (slot_pool y) \<and> (\<forall>sid. holds x sid \<noteq> Some slot) \<and>
    set (slot_pool y) \<subseteq> set (slot_pool x) \<and> distinct (slot_pool y) \<and> allocated x \<le> allocated y \<and>
    slots y = slots x \<and> stream_ctx y = stream_ctx x \<and> finalizing y = finalizing x \<and> hook_log y = hook_log x"
proof (cases "\<exists>k. pick = Some k \<and> k < length (slot_pool x)")
  case True
  then obtain k where k: "pick = Some k" "k < length (slot_pool x)" by blast
  with assms(2) have y: "slot = slot_pool x ! k" "y = x\<lparr>slot_pool := take k (slot_pool x) @ drop (Suc k) (slot_pool x)\<rparr>"
    by (auto simp: pool_Get_def)
  have d: "distinct (slot_pool x)" using assms(1) by (simp add: exchange_inv_def)
  have "slot \<in> set (slot_pool x)" using k y by simp
  with assms(1) have "slot < allocated x" "\<forall>sid. holds x sid \<noteq> Some slot" by (auto simp: exchange_inv_def)
  with removed_nth [OF d k(2)] distinct_remove_nth [OF d, of k] set_remove_nth [of k "slot_pool x"] show ?thesis
    unfolding y by simp
next
  case False
  with assms(2) have y: "slot = allocated x" "y = x\<lparr>allocated := Suc (allocated x)\<rparr>"
    by (auto simp: pool_Get_def split: option.splits)
  with assms(1) show ?thesis by (auto simp: exchange_inv_def)
qed

lemma request_inv:
  assumes inv: "exchange_inv zero x" and idle: "finalizing x sid = NotFinalizing"
  shows "exchange_inv zero (exchange_request pick sid v x)"
proof -
  obtain slot y where g: "pool_Get pick x = (slot, y)" by (cases "pool_Get pick x")
  note f = pool_Get_fresh [OF inv g]
  let ?z = "exchange_request pick sid v x"
  have z: "?z = y\<lparr>hook_log := hook_log x @ [GotRequest sid v], slots := (slots x)(slot := v), stream_ctx := (stream_ctx x)(sid := SlotCtx slot)\<rparr>"
    using f g by (simp add: exchange_request_def)
  have h: "holds ?z s = (if s = sid then Some slot else holds x s)" for s using f idle by (simp add: z holds_def)
  have lt: "holds x s = Some a \<Longrightarrow> a < allocated y \<and> a \<noteq> slot \<and> a \<notin> set (slot_pool y)" for s a
    using inv f unfolding exchange_inv_def by (metis order_less_le_trans subsetD)
  have pl: "a \<in> set (slot_pool y) \<Longrightarrow> a < allocated y \<and> a \<noteq> slot \<and> slots x a = zero" for a
    using inv f unfolding exchange_inv_def by (metis order_less_le_trans subsetD)
  have other: "a \<noteq> slot" if "finalizing x s = NotFinalizing \<and> stream_ctx x s = SlotCtx a \<or> finalizing x s = FinZeroed a" for s a
  proof -
    have "holds x s = Some a" using that by (auto simp: holds_def)
    then show ?thesis using f by auto
  qed
  have one: "s1 = s2" if "holds x s1 = Some a" "holds x s2 = Some a" for s1 s2 a using inv that unfolding exchange_inv_def by blast
  have "\<forall>s1 s2 a. holds ?z s1 = Some a \<longrightarrow> holds ?z s2 = Some a \<longrightarrow> s1 = s2" using one by (auto simp: h split: if_splits dest: lt)
  moreover have "\<forall>s a. holds ?z s = Some a \<longrightarrow> a < allocated ?z \<and> a \<notin> set (slot_pool ?z)"
    unfolding h using lt f by (auto simp: z split: if_splits)
  moreover have "\<forall>s a. finalizing ?z s = NotFinalizing \<longrightarrow> stream_ctx ?z s = SlotCtx a \<longrightarrow> last_request s (hook_log ?z) = Some (slots ?z a)"
    using inv f other by (auto simp: exchange_inv_def z)
  moreover have "\<forall>s a. finalizing ?z s = FinZeroed a \<longrightarrow> slots ?z a = zero" using inv f other by (auto simp: exchange_inv_def z)
  ultimately show ?thesis using inv f pl unfolding exchange_inv_def by (auto simp: z)
qed

lemma response_inv:
  assumes "exchange_inv zero x" "finalizing x sid = NotFinalizing"
  shows "exchange_inv zero (exchange_response h sid x)"
proof -
  have "holds (x\<lparr>hook_log := l\<rparr>) = holds x" for l by (simp add: holds_def fun_eq_iff)
  then show ?thesis using assms by (auto simp: exchange_inv_def exchange_response_def split: ctx_value.split)
qed

lemma finalized_inv:
  assumes "exchange_inv zero x" "finalizing x sid = NotFinalizing"
  shows "exchange_inv zero (exchange_finalized h sid x)"
proof (cases "stream_ctx x sid")
  case (SlotCtx slot)
  have h: "holds (x\<lparr>hook_log := l, finalizing := (finalizing x)(sid := FinDelivered slot)\<rparr>) = holds x"
    "holds (x\<lparr>finalizing := (finalizing x)(sid := FinDelivered slot)\<rparr>) = holds x" for l
    using SlotCtx assms(2) by (simp_all add: holds_def fun_eq_iff)
  show ?thesis using assms SlotCtx by (auto simp: exchange_inv_def exchange_finalized_def Let_def h)
qed (use assms in \<open>auto simp: exchange_finalized_def\<close>)

lemma finalized_next_inv:
  assumes inv: "exchange_inv zero x"
  shows "exchange_inv zero (exchange_finalized_next zero sid x)"
proof (cases "finalizing x sid")
  case (FinDelivered slot)
  let ?z = "x\<lparr>slots := (slots x)(slot := zero), finalizing := (finalizing x)(sid := FinZeroed slot)\<rparr>"
  have h: "holds ?z = holds x" using FinDelivered by (simp add: holds_def fun_eq_iff)
  have own: "holds x sid = Some slot" using FinDelivered by (simp add: holds_def)
  have "a \<noteq> slot" if "finalizing x s = NotFinalizing" "stream_ctx x s = SlotCtx a" for s a
  proof -
    have "holds x s = Some a" "s \<noteq> sid" using that FinDelivered by (auto simp: holds_def)
    then show ?thesis using inv own unfolding exchange_inv_def by blast
  qed
  then have "exchange_inv zero ?z" using inv unfolding exchange_inv_def h by auto
  then show ?thesis using FinDelivered by (simp add: exchange_finalized_next_def)
next
  case (FinZeroed slot)
  let ?z = "x\<lparr>slot_pool := slot_pool x @ [slot], finalizing := (finalizing x)(sid := FinPut slot)\<rparr>"
  have h: "holds ?z s = (if s = sid then None else holds x s)" for s by (simp add: holds_def)
  have own: "holds x sid = Some slot" using FinZeroed by (simp add: holds_def)
  have "holds ?z s = Some a \<Longrightarrow> a \<noteq> slot" for s a using inv own unfolding exchange_inv_def h by (metis option.distinct(1))
  then have "exchange_inv zero ?z" using inv own FinZeroed unfolding exchange_inv_def h by (auto split: if_splits)
  then show ?thesis using FinZeroed by (simp add: exchange_finalized_next_def)
next
  case (FinPut slot)
  have "holds (x\<lparr>stream_ctx := (stream_ctx x)(sid := NilCtx), finalizing := (finalizing x)(sid := NotFinalizing)\<rparr>) = holds x"
    using FinPut by (simp add: holds_def fun_eq_iff)
  then show ?thesis using inv FinPut by (auto simp: exchange_inv_def exchange_finalized_next_def)
qed (use inv in \<open>simp add: exchange_finalized_next_def\<close>)


lemma exchange_run_inv: "exchange_run h zero x \<Longrightarrow> exchange_inv zero x"
proof (induction rule: exchange_run.induct)
  case (ex_forget x k)
  have "holds (x\<lparr>slot_pool := p\<rparr>) = holds x" for p by (simp add: holds_def fun_eq_iff)
  then show ?case
    using ex_forget.IH set_remove_nth [of k "slot_pool x"] distinct_remove_nth [of "slot_pool x" k]
    unfolding exchange_inv_def by (simp del: set_append distinct_append) blast
next
  case (ex_user x sid c)
  have h: "holds (x\<lparr>stream_ctx := (stream_ctx x)(sid := c)\<rparr>) s = (if s = sid then None else holds x s)" for s
    using ex_user by (auto simp: holds_def)
  show ?case using ex_user.IH ex_user.hyps unfolding exchange_inv_def h by auto
next
  case ex_new
  have "holds (new_exchange zero) s = None" for s by (simp add: holds_def new_exchange_def)
  then show ?case by (simp add: exchange_inv_def) (simp add: new_exchange_def private_log_def)
qed (simp_all add: request_inv response_inv finalized_inv finalized_next_inv)

section \<open>Properties\<close>

text \<open>C24. Streams that share an observer do not see each other's state, however their callbacks interleave, the
  single writes of a finalization included, and whichever slots the pool recycles: every response and finalization hook of a stream gets exactly the
  value that the stream's own \<open>OnRequest\<close> returned last, no hook runs for a stream that was finalized until
  its next request, and a slot in the pool holds nothing of the stream that used it.\<close>

theorem exchange_values_are_private:
  assumes "exchange_run h zero x"
  shows "private_log (hook_log x) \<and> (\<forall>a \<in> set (slot_pool x). slots x a = zero)"
  using exchange_run_inv [OF assms] by (simp add: exchange_inv_def)

definition demo_exchange :: "string exchange" where
  "demo_exchange =
     (let h = \<lparr>has_OnResponse = True, has_OnFinalized = True\<rparr>
      in exchange_response h 2 (exchange_finalized_next '''' 1 (exchange_request (Some 0) 2 ''two''
           (exchange_finalized_next '''' 1 (exchange_finalized_next '''' 1 (exchange_finalized h 1
           (exchange_response h 1 (exchange_request None 1 ''one'' (new_exchange '''')))))))))"

theorem exchange_values_are_private_witness:
  "stream_ctx demo_exchange 2 = SlotCtx 0 \<and> private_log (hook_log demo_exchange) \<and>
     hook_log demo_exchange =
       [GotRequest 1 ''one'', GotResponse 1 ''one'', GotFinalized 1 ''one'', GotRequest 2 ''two'', GotResponse 2 ''two'']"
proof -
  have "exchange_run \<lparr>has_OnResponse = True, has_OnFinalized = True\<rparr> '''' demo_exchange"
    unfolding demo_exchange_def Let_def by (intro ex_response ex_request ex_finalized_next ex_finalized ex_new; code_simp)
  from exchange_values_are_private [OF this] have "private_log (hook_log demo_exchange)" by simp
  moreover have "stream_ctx demo_exchange 2 = SlotCtx 0" by code_simp
  moreover have "hook_log demo_exchange =
      [GotRequest 1 ''one'', GotResponse 1 ''one'', GotFinalized 1 ''one'', GotRequest 2 ''two'', GotResponse 2 ''two'']"
    by code_simp
  ultimately show ?thesis by blast
qed

end
