(* ===== verification/Sidecar.thy ===== *)
theory Sidecar
  imports Background_Group Filter_Factory
begin

text \<open>
  The sidecar HTTP server (\<^verbatim>\<open>src/up/sidecar.go\<close>) and the admin server built on it (\<^verbatim>\<open>src/up/admin.go\<close>), as far
  as their lifecycle goes: \<open>execute\<close> and \<open>stop\<close> are the two functions of a group actor. Listeners and servers
  are numbered in the order in which \<open>execute\<close> makes them; \<open>net.Listen\<close> answers an error or the bound address.
  Serving requests is not modelled: \<open>Serve\<close> returns once its server is shut down or its listener closed.
\<close>

section \<open>State\<close>

record SidecarOptions =
  so_ListenAddr :: string
  so_ShutdownTimeout :: int
  so_EgressURL :: string
  so_Rationale :: string

record sidecar =
  sc_opts :: SidecarOptions
  sc_ready :: bool
  sc_started :: bool
  resolvedAddr :: string
  sc_srv :: "nat option"
  sc_ln :: "nat option"
  listening :: "bool list"
  shut_down :: "bool list"
  shutdownOnce :: bool
  stderr_log :: "string list"

definition NewSidecar :: "SidecarOptions \<Rightarrow> sidecar" where
  "NewSidecar o' =
     \<lparr>sc_opts = (if so_ShutdownTimeout o' = 0 then o'\<lparr>so_ShutdownTimeout := 5 * Second\<rparr> else o'),
      sc_ready = False, sc_started = False, resolvedAddr = '''', sc_srv = None, sc_ln = None,
      listening = [], shut_down = [], shutdownOnce = False, stderr_log = []\<rparr>"

definition NewAdminServer :: "string \<Rightarrow> int \<Rightarrow> sidecar" where
  "NewAdminServer listenAddr shutdownTimeout =
     NewSidecar \<lparr>so_ListenAddr = (if listenAddr = '''' then ''127.0.0.1:6060'' else listenAddr),
       so_ShutdownTimeout = shutdownTimeout, so_EgressURL = '''',
       so_Rationale = ''admin server; serves only local debug traffic''\<rparr>"

section \<open>execute and stop\<close>

text \<open>Closing a closed channel panics.\<close>

definition closed_channel :: exec_end where
  "closed_channel = Panics ''close of closed channel'' ''''"

definition startup_message :: "string \<Rightarrow> SidecarOptions \<Rightarrow> string list" where
  "startup_message nm o' =
     (if so_EgressURL o' = ''''
      then [if so_Rationale o' \<noteq> ''''
            then ''sidecar '' @ nm @ '': direct-dial mode (break-glass): '' @ so_Rationale o' @ [CHR 0x0A]
            else ''sidecar '' @ nm @ '': WARNING: direct-dial mode with no rationale'' @ [CHR 0x0A]]
      else [])"

text \<open>\<open>execute\<close> up to \<open>Serve\<close>: it ends, or serves with the server of the returned number.\<close>

definition sidecar_execute :: "string \<Rightarrow> string + string \<Rightarrow> sidecar \<Rightarrow> (exec_end + nat) \<times> sidecar" where
  "sidecar_execute nm listen s =
     (case listen of
        Inl err \<Rightarrow>
          let s = s\<lparr>stderr_log := stderr_log s @
                    [''sidecar '' @ nm @ '': listen '' @ so_ListenAddr (sc_opts s) @ '': '' @ err @ [CHR 0x0A]]\<rparr>
          in if sc_started s then (Inl closed_channel, s) else (Inl (Returns (Some err)), s\<lparr>sc_started := True\<rparr>)
      | Inr addr \<Rightarrow>
          let i = length (listening s);
              s = s\<lparr>sc_ln := Some i, listening := listening s @ [True], resolvedAddr := addr,
                    sc_srv := Some i, shut_down := shut_down s @ [False]\<rparr>
          in if sc_ready s then (Inl closed_channel, s)
             else if sc_started s then (Inl closed_channel, s\<lparr>sc_ready := True\<rparr>)
             else (Inr i, s\<lparr>sc_ready := True, sc_started := True,
                            stderr_log := stderr_log s @ startup_message nm (sc_opts s)\<rparr>))"

definition Serve_returns :: "nat \<Rightarrow> sidecar \<Rightarrow> bool" where
  "Serve_returns i s \<longleftrightarrow> shut_down s ! i \<or> \<not> listening s ! i"

text \<open>\<open>stop\<close> inside its \<open>sync.Once\<close>: it waits for \<open>started\<close>, shuts the server down and closes the listener.\<close>

definition sidecar_stop :: "sidecar \<Rightarrow> sidecar option" where
  "sidecar_stop s =
     (if shutdownOnce s then Some s
      else if \<not> sc_started s then None
      else
        let s = (case sc_srv s of Some i \<Rightarrow> s\<lparr>shut_down := (shut_down s)[i := True], listening := (listening s)[i := False]\<rparr> | None \<Rightarrow> s);
            s = (case sc_ln s of Some i \<Rightarrow> s\<lparr>listening := (listening s)[i := False]\<rparr> | None \<Rightarrow> s)
        in Some (s\<lparr>shutdownOnce := True\<rparr>))"

definition Ready :: "sidecar \<Rightarrow> bool" where "Ready s = sc_ready s"
definition ListenAddr :: "sidecar \<Rightarrow> string" where "ListenAddr s = resolvedAddr s"

section \<open>Facts\<close>

text \<open>The address is there whenever \<open>Ready\<close> is closed, and not before.\<close>

lemma execute_ready:
  assumes "sidecar_execute nm listen (NewSidecar o') = (r, s)"
  shows "case listen of
      Inl err \<Rightarrow> r = Inl (Returns (Some err)) \<and> \<not> Ready s \<and> ListenAddr s = ''''
    | Inr addr \<Rightarrow> r = Inr 0 \<and> Ready s \<and> ListenAddr s = addr"
  using assms by (auto simp: sidecar_execute_def NewSidecar_def Ready_def ListenAddr_def Let_def split: sum.splits)

text \<open>
  One life: \<open>stop\<close> waits until \<open>execute\<close> has bound or failed, then always goes through, and \<open>Serve\<close> returns.
\<close>

lemma stop_ends_execute:
  assumes "sidecar_execute nm listen (NewSidecar o') = (r, s)"
  obtains s' where "sidecar_stop (NewSidecar o') = None" "sidecar_stop s = Some s'"
    "\<And>i. r = Inr i \<Longrightarrow> Serve_returns i s'" "list_all (\<lambda>open. \<not> open) (listening s')"
  using assms
  by (auto simp: sidecar_execute_def NewSidecar_def sidecar_stop_def Serve_returns_def Let_def split: sum.splits)

text \<open>
  A sidecar cannot be executed twice, which is what a second load of its filter configuration does. If the
  address is still taken the second \<open>execute\<close> panics on a closed channel (and its end stops the group, and so
  the first server). If the address is free, as it is with port 0, the second \<open>execute\<close> first replaces the
  server and the listener and then panics: the first server is never shut down again, its \<open>Serve\<close> never
  returns, and the \<open>Stop\<close> of the group waits for it for ever.
\<close>

lemma second_execute_panics:
  assumes "sidecar_execute nm listen (NewSidecar o') = (r, s)"
  shows "fst (sidecar_execute nm listen' s) = Inl closed_channel"
  using assms by (auto simp: sidecar_execute_def NewSidecar_def Let_def split: sum.splits)

lemma reload_strands_first_server:
  assumes "sidecar_execute nm (Inr addr) (NewSidecar o') = (r, s1)" "sidecar_execute nm (Inr addr') s1 = (r', s2)"
    "sidecar_stop s2 = Some s3"
  shows "r = Inr 0 \<and> \<not> Serve_returns 0 s3 \<and> sidecar_stop s3 = Some s3"
  using assms by (auto simp: sidecar_execute_def NewSidecar_def sidecar_stop_def Serve_returns_def Let_def)

section \<open>Attaching a sidecar to a filter\<close>

text \<open>The option makes a new group, here its address, for the sidecar alone.\<close>

definition WithSidecar :: "nat \<Rightarrow> configFactory \<Rightarrow> configFactory" where
  "WithSidecar g cf = cf\<lparr>cf_group := Some g\<rparr>"

definition sidecar_group :: "'f \<Rightarrow> 'f group" where
  "sidecar_group s = Group_Add (Actor s) NewGroup"

text \<open>Every load of a configuration starts the same group, and every factory made from it stops that group.\<close>

lemma loads_share_group:
  assumes "configFactory_Create sdk raw cf = Inr (f1, g1)" "configFactory_Create sdk' raw' cf = Inr (f2, g2)"
  shows "g1 = cf_group cf \<and> g2 = g1 \<and> ff_stop f1 = g1 \<and> ff_stop f2 = g1"
  using assms by (auto simp: configFactory_Create_def split: option.splits)

text \<open>Loading and destroying a configuration, with the groups by address: \<open>Create\<close> starts the group of the
  registration, \<open>OnDestroy\<close> stops the one its factory was given.\<close>

definition load_config ::
    "(metric_kind \<Rightarrow> string \<Rightarrow> nat \<times> nat) \<Rightarrow> bytes \<Rightarrow> configFactory \<Rightarrow> (nat \<rightharpoonup> 'f group) \<Rightarrow> string + (filterFactory \<times> (nat \<rightharpoonup> 'f group))" where
  "load_config sdk raw cf gs =
     (case configFactory_Create sdk raw cf of
        Inl err \<Rightarrow> Inl err
      | Inr (ff, start) \<Rightarrow> Inr (ff, case start of None \<Rightarrow> gs | Some a \<Rightarrow> gs(a := map_option Group_Start (gs a))))"

definition destroy_config :: "filterFactory \<Rightarrow> (nat \<rightharpoonup> 'f group) \<Rightarrow> (nat \<rightharpoonup> 'f group)" where
  "destroy_config ff gs =
     (case filterFactory_OnDestroy ff of None \<Rightarrow> gs | Some a \<Rightarrow> gs(a := map_option Stop_call (gs a)))"

lemma load_config_group:
  "load_config sdk raw cf gs = Inr (ff, gs') \<Longrightarrow> cf_group cf = Some a \<Longrightarrow>
     ff_stop ff = Some a \<and> gs' a = map_option Group_Start (gs a)"
  by (auto simp: load_config_def configFactory_Create_def split: option.splits)

lemma destroy_config_group: "ff_stop ff = Some a \<Longrightarrow> destroy_config ff gs a = map_option Stop_call (gs a)"
  by (simp add: destroy_config_def filterFactory_OnDestroy_def)

text \<open>A filter has one group: the group of a sidecar replaces one that was attached before it, and the other
  way round, so that \<open>Create\<close> starts only the last.\<close>

lemma sidecar_replaces_group:
  "cf_group (WithSidecar g' (WithGroup g cf)) = Some g'" "cf_group (WithGroup g (WithSidecar g' cf)) = Some g"
  by (simp_all add: WithSidecar_def WithGroup_def)


section \<open>Loading a configuration again\<close>

text \<open>C39. A filter configuration that is loaded again loses its background goroutines: every \<open>Create\<close> of a
  registration starts the registration's one group, and every factory stops it. When the configuration is loaded a
  second time while the goroutines of the first load run, and the old factory is then destroyed, the end of that
  \<open>Stop\<close> finds the goroutines of both loads ended, under a cancelled context. The group can never be used again: a
  third load starts its goroutines under the cancelled context, and the \<open>Stop\<close> of its factory returns at once,
  calling no stop function, while they are still running.\<close>

theorem reload_stops_new_configuration:
  assumes "cf_group cf = Some a" "gs a = Some (foldl (\<lambda>g x. Group_Add x g) NewGroup as)" "as \<noteq> []"
    and "load_config sdk raw cf gs = Inr (old, gs1)" "gs1 a = Some g1" "group_run g1 g1'" "once g1' = OnceFree"
    and "load_config sdk' raw' cf (gs1(a \<mapsto> g1')) = Inr (new, gs2)" "gs2 a = Some g2" "group_run g2 g2'"
    and "destroy_config old (gs2(a \<mapsto> g2')) a = Some g3" "group_run g3 g" "once g = OnceDone"
  shows "ctx_done g \<and> length (launches g) = 2 \<and> (\<forall>l \<in> set (launches g). \<forall>p \<in> set (phases l). p = Exited) \<and>
    (\<forall>sdk'' raw'' third gs4. load_config sdk'' raw'' cf (gs2(a \<mapsto> g)) = Inr (third, gs4) \<longrightarrow>
       (\<exists>g5. destroy_config third gs4 a = Some g5 \<and> ctx_done g5 \<and> stop_calls g5 = stop_calls g \<and>
          phases (last (launches g5)) = replicate (length as) Executing \<and>
          (\<exists>g6. Stop_returns g5 = Some g6 \<and> launches g6 = launches g5)))"
proof -
  have "g1 = started as" using load_config_group [OF assms(4,1)] assms(2,5) by (simp add: started_def)
  then have "group_inv 1 as g1'" using group_run_inv [OF assms(6)] started_inv [of as] assms(3) by simp
  moreover have "g2 = Group_Start g1'" using load_config_group [OF assms(8,1)] assms(9) by simp
  ultimately have "group_inv 2 as g2'"
    using group_run_inv [OF assms(10)] Group_Start_inv [OF _ assms(7,3)] by (simp add: numeral_2_eq_2)
  moreover have "g3 = Stop_call g2'"
    using destroy_config_group [of old a "gs2(a \<mapsto> g2')"] load_config_group [OF assms(4,1)] assms(11) by simp
  ultimately have inv: "group_inv 2 as g" using group_run_inv [OF assms(12)] Stop_call_inv by blast
  then have g: "actors g = as" "wg_count g = 0" "ctx_done g" "length (launches g) = 2"
    using assms(13) by (simp_all add: group_inv_def)
  have "destroy_config third gs4 a = Some (Stop_call (Group_Start g))"
    if "load_config sdk'' raw'' cf (gs2(a \<mapsto> g)) = Inr (third, gs4)" for sdk'' raw'' third gs4
    using load_config_group [OF that assms(1)] destroy_config_group [of third a gs4] by simp
  then show ?thesis
    using g assms(3,13) by (simp add: wg_count_zero Stop_call_def once_enter_def Group_Start_def Stop_returns_def)
qed

definition demo_registration :: configFactory where
  "demo_registration = WithGroup 5 (new_configFactory ''f'' (\<lambda>_. []))"

definition demo_reloaded :: "nat group" where
  "demo_reloaded = the (once_next (the (once_next (the (once_next
     (wg_Done 0 0 (errc_send 0 0 (actor_returns 0 0 (Returns None)
       (wg_Done 1 0 (errc_send 1 0 (actor_returns 1 0 (Returns None) (Stop_call (Group_Start (started [Actor 7]))))))))))))))"

theorem reload_stops_new_configuration_witness:
  "length (launches demo_reloaded) = 2 \<and>
   (\<exists>third gs4 g5. load_config (\<lambda>_ _. (0, 0)) [] demo_registration [5 \<mapsto> demo_reloaded] = Inr (third, gs4) \<and>
      destroy_config third gs4 5 = Some g5 \<and> phases (last (launches g5)) = [Executing])"
proof -
  let ?sdk = "\<lambda>_ _. (0, 0)" and ?g = "Group_Start (started [Actor (7 :: nat)])"
  have run: "group_run (Stop_call ?g) demo_reloaded"
    unfolding demo_reloaded_def
    by (rule group_more [OF group_more [OF group_more [OF group_more [OF group_more [OF group_more [OF group_more
          [OF group_more [OF group_more [OF group_refl execute] send] finish] execute] send] finish]
          group_step_the(1)] group_step_the(1)] group_step_the(1)]) code_simp+
  have once: "once demo_reloaded = OnceDone" by code_simp
  have group: "cf_group demo_registration = Some 5" and fn: "cf_configFn demo_registration = None"
    by (simp_all add: demo_registration_def WithGroup_def new_configFactory_def)
  obtain ff where load: "\<And>gs :: nat \<rightharpoonup> nat group. load_config ?sdk [] demo_registration gs = Inr (ff, gs(5 := map_option Group_Start (gs 5)))"
      and stop: "ff_stop ff = Some 5"
    by (rule that [of "fst (projr (configFactory_Create ?sdk [] demo_registration))"])
      (simp_all add: load_config_def configFactory_Create_def fn group)
  have free: "once (started [Actor (7 :: nat)]) = OnceFree" by code_simp
  let ?s = "started [Actor (7 :: nat)]"
  have l1: "load_config ?sdk [] demo_registration [5 \<mapsto> Group_Add (Actor 7) NewGroup] = Inr (ff, [5 \<mapsto> ?s])"
    by (simp add: load started_def)
  have l2: "load_config ?sdk [] demo_registration ([5 \<mapsto> ?s](5 \<mapsto> ?s)) = Inr (ff, [5 \<mapsto> ?g])" by (simp add: load)
  have d: "destroy_config ff ([5 \<mapsto> ?g](5 \<mapsto> ?g)) 5 = Some (Stop_call ?g)" by (simp add: destroy_config_group [OF stop])
  have l3: "load_config ?sdk [] demo_registration ([5 \<mapsto> ?g](5 \<mapsto> demo_reloaded)) = Inr (ff, [5 \<mapsto> Group_Start demo_reloaded])"
    by (simp add: load)
  have acts: "[5 \<mapsto> Group_Add (Actor 7) NewGroup] 5 = Some (foldl (\<lambda>g x. Group_Add x g) NewGroup [Actor 7])" by simp
  have s: "[5 \<mapsto> ?s] 5 = Some ?s" and g: "[5 \<mapsto> ?g] 5 = Some ?g" by simp_all
  note all = reload_stops_new_configuration [OF group acts list.distinct(2) l1 s group_refl free l2 g group_refl d run once]
  from all have "length (launches demo_reloaded) = 2" by blast
  moreover from all l3 obtain g5 where "destroy_config ff [5 \<mapsto> Group_Start demo_reloaded] 5 = Some g5"
      "phases (last (launches g5)) = replicate (length [Actor (7 :: nat)]) Executing" by blast
  moreover have "load_config ?sdk [] demo_registration [5 \<mapsto> demo_reloaded] = Inr (ff, [5 \<mapsto> Group_Start demo_reloaded])"
    using l3 by simp
  ultimately show ?thesis by (intro conjI exI) (assumption | simp)+
qed

end
