(* ===== verification/Envoy_Buffers.thy ===== *)
theory Envoy_Buffers
  imports Transit_Prelude
begin

text \<open>
  The conversions between Go values and Envoy's memory (\<^verbatim>\<open>src/down/abi_impl/internal.go\<close>) and the
  borrowed buffers of the public API (\<^verbatim>\<open>src/up/buffer.go\<close>). Envoy's memory is a function from addresses
  to bytes; an Envoy buffer is an address and a length. A Go string made by \<^verbatim>\<open>strings.Clone\<close> is the
  bytes that memory held at the time of the call; a slice made by \<^verbatim>\<open>unsafe.Slice\<close> is the address and the
  length, and is read when it is used.
\<close>

type_synonym memory = "nat \<Rightarrow> char"

definition load :: "memory \<Rightarrow> nat \<Rightarrow> nat \<Rightarrow> bytes" where
  "load m p n = map (\<lambda>i. m (p + i)) [0..<n]"

record envoy_buffer =
  buf_ptr :: nat
  buf_len :: uint64

record envoy_http_header =
  hdr_key :: envoy_buffer
  hdr_value :: envoy_buffer

text \<open>A variable of a C struct type that no call has written is zero.\<close>

definition zero_buffer :: envoy_buffer where
  "zero_buffer = \<lparr>buf_ptr = 0, buf_len = 0\<rparr>"

definition envoyBufferToStringUnsafe :: "memory \<Rightarrow> envoy_buffer \<Rightarrow> string" where
  "envoyBufferToStringUnsafe m buf = (if buf_len buf = 0 then '''' else load m (buf_ptr buf) (unat (buf_len buf)))"

text \<open>A slice over Envoy's memory; the nil slice has no address.\<close>

type_synonym borrowed = "(nat \<times> nat) option"

definition read_slice :: "memory \<Rightarrow> borrowed \<Rightarrow> bytes" where
  "read_slice m s = (case s of None \<Rightarrow> [] | Some (p, n) \<Rightarrow> load m p n)"

definition envoyBufferToBytesUnsafe :: "envoy_buffer \<Rightarrow> borrowed" where
  "envoyBufferToBytesUnsafe buf = (if buf_len buf = 0 then None else Some (buf_ptr buf, unat (buf_len buf)))"

definition envoyBufferToUnsafeEnvoyBuffer :: "envoy_buffer \<Rightarrow> envoy_buffer" where
  "envoyBufferToUnsafeEnvoyBuffer buf = \<lparr>buf_ptr = buf_ptr buf, buf_len = buf_len buf\<rparr>"

definition envoyHTTPHeaderToPair :: "memory \<Rightarrow> envoy_http_header \<Rightarrow> header" where
  "envoyHTTPHeaderToPair m h =
     (let key = (if buf_len (hdr_key h) > 0 then load m (buf_ptr (hdr_key h)) (unat (buf_len (hdr_key h))) else '''');
          val = (if buf_len (hdr_value h) > 0 then load m (buf_ptr (hdr_value h)) (unat (buf_len (hdr_value h))) else '''')
      in (key, val))"

text \<open>\<open>hostLog\<close>: nothing is formatted and nothing logged unless Envoy says that the level is enabled.\<close>

definition hostLog :: "('l \<Rightarrow> bool) \<Rightarrow> ('f \<Rightarrow> 'a list \<Rightarrow> string) \<Rightarrow> 'l \<Rightarrow> 'f \<Rightarrow> 'a list \<Rightarrow> ('l \<times> string) list \<Rightarrow> ('l \<times> string) list" where
  "hostLog enabled sprintf level fmt args log =
     (if \<not> enabled level then log else (let msg = sprintf fmt args in log @ [(level, msg)]))"

section \<open>Borrowed buffers of the public API\<close>

text \<open>
  The methods of the SDK's \<open>UnsafeEnvoyBuffer\<close> are not part of the repository: two of them copy, two of
  them return views.
\<close>

record sdk_buffer =
  sdk_ToBytes :: "memory \<Rightarrow> envoy_buffer \<Rightarrow> bytes"
  sdk_ToString :: "memory \<Rightarrow> envoy_buffer \<Rightarrow> string"
  sdk_ToUnsafeBytes :: "envoy_buffer \<Rightarrow> borrowed"
  sdk_ToUnsafeString :: "envoy_buffer \<Rightarrow> borrowed"

record Buffer =
  Buffer_raw :: envoy_buffer
  Buffer_Len :: uint64

definition newBuffer :: "envoy_buffer \<Rightarrow> Buffer" where
  "newBuffer raw = \<lparr>Buffer_raw = raw, Buffer_Len = buf_len raw\<rparr>"

definition Buffer_Bytes :: "sdk_buffer \<Rightarrow> memory \<Rightarrow> Buffer \<Rightarrow> bytes" where
  "Buffer_Bytes sdk m b = sdk_ToBytes sdk m (Buffer_raw b)"

definition Buffer_String :: "sdk_buffer \<Rightarrow> memory \<Rightarrow> Buffer \<Rightarrow> string" where
  "Buffer_String sdk m b = sdk_ToString sdk m (Buffer_raw b)"

definition Buffer_ToBytes :: "sdk_buffer \<Rightarrow> memory \<Rightarrow> Buffer \<Rightarrow> bytes" where
  "Buffer_ToBytes sdk m b = Buffer_Bytes sdk m b"

definition Buffer_ToString :: "sdk_buffer \<Rightarrow> memory \<Rightarrow> Buffer \<Rightarrow> string" where
  "Buffer_ToString sdk m b = Buffer_String sdk m b"

definition Buffer_UnsafeBytes :: "sdk_buffer \<Rightarrow> Buffer \<Rightarrow> borrowed" where
  "Buffer_UnsafeBytes sdk b = sdk_ToUnsafeBytes sdk (Buffer_raw b)"

definition Buffer_UnsafeString :: "sdk_buffer \<Rightarrow> Buffer \<Rightarrow> borrowed" where
  "Buffer_UnsafeString sdk b = sdk_ToUnsafeString sdk (Buffer_raw b)"

section \<open>Lemmas\<close>

lemma length_load [simp]: "length (load m p n) = n"
  by (simp add: load_def)

lemma load_0 [simp]: "load m p 0 = []"
  by (simp add: load_def)

lemma nth_load [simp]: "i < n \<Longrightarrow> load m p n ! i = m (p + i)"
  by (simp add: load_def)

lemma load_cong: "(\<And>i. i < n \<Longrightarrow> m (p + i) = m' (p + i)) \<Longrightarrow> load m p n = load m' p n"
  by (simp add: load_def)

text \<open>A string that stands in memory is read back, whatever its length up to the size of the address space.\<close>

definition stands_at :: "memory \<Rightarrow> nat \<Rightarrow> bytes \<Rightarrow> bool" where
  "stands_at m p s \<longleftrightarrow> list_all (\<lambda>i. m (p + i) = s ! i) [0..<length s]"

definition buffer_at :: "nat \<Rightarrow> bytes \<Rightarrow> envoy_buffer" where
  "buffer_at p s = \<lparr>buf_ptr = p, buf_len = of_nat (length s)\<rparr>"

lemma load_stands: "stands_at m p s \<Longrightarrow> load m p (length s) = s"
  by (rule nth_equalityI) (auto simp: stands_at_def list_all_iff)

lemma unat_of_length: "length s < 2 ^ 64 \<Longrightarrow> unat (of_nat (length s) :: uint64) = length s"
  by (simp add: unat_of_nat)

lemma envoyBufferToString_at:
  assumes "stands_at m p s" "length s < 2 ^ 64"
  shows "envoyBufferToStringUnsafe m (buffer_at p s) = s"
  using assms unat_of_length [OF assms(2)] load_stands [OF assms(1)]
  by (cases "s = []") (auto simp: envoyBufferToStringUnsafe_def buffer_at_def unat_eq_0 [symmetric])

lemma envoyHTTPHeaderToPair_strings:
  "envoyHTTPHeaderToPair m h = (envoyBufferToStringUnsafe m (hdr_key h), envoyBufferToStringUnsafe m (hdr_value h))"
  by (simp add: envoyHTTPHeaderToPair_def envoyBufferToStringUnsafe_def Let_def word_greater_zero_iff)

text \<open>A borrowed slice shows what memory holds when it is read, not what it held when it was made.\<close>

lemma borrowed_slice_reads_later_memory:
  "read_slice m (envoyBufferToBytesUnsafe buf) = envoyBufferToStringUnsafe m buf"
  by (simp add: read_slice_def envoyBufferToBytesUnsafe_def envoyBufferToStringUnsafe_def)

lemma borrowed_slice_changes:
  assumes "buf_len buf \<noteq> 0" "m' (buf_ptr buf) \<noteq> m (buf_ptr buf)"
  shows "read_slice m' (envoyBufferToBytesUnsafe buf) \<noteq> read_slice m (envoyBufferToBytesUnsafe buf)"
proof -
  have "0 < unat (buf_len buf)" using assms(1) by (simp add: unat_gt_0)
  then have "load m' (buf_ptr buf) (unat (buf_len buf)) ! 0 \<noteq> load m (buf_ptr buf) (unat (buf_len buf)) ! 0"
    using assms(2) by simp
  then show ?thesis using assms(1) by (auto simp: read_slice_def envoyBufferToBytesUnsafe_def)
qed

end
