(* ===== verification/LB_Views.thy ===== *)
theory LB_Views
  imports Envoy_Buffers Host_Set
begin

text \<open>
  What a load balancer sees of its cluster: the handles and request contexts of
  \<^verbatim>\<open>src/down/abi_impl/cluster.go\<close> (\<open>dymClusterLBHandle\<close>, \<open>dymClusterLBContext\<close>) and
  \<^verbatim>\<open>src/down/abi_impl/lb_policy.go\<close> (\<open>dymLBHandle\<close>, \<open>dymLBContext\<close>) over the C calls of Envoy, and the
  interfaces of \<^verbatim>\<open>src/down/cluster.go\<close> and \<^verbatim>\<open>src/down/lb.go\<close> that they implement, as records of functions.
  The C calls are parameters: an answer is the returned flag and what was written to the output variable.
  A Go \<open>int\<close> index becomes a \<open>size_t\<close> by wrap-around, and a \<open>size_t\<close> count becomes a signed \<open>int\<close>.
\<close>

type_synonym float64 = "64 word"
type_synonym health = int
type_synonym host_stat = int
type_synonym host_data = "uint32 \<times> uint64 \<Rightarrow> uint64"

definition HostStatRqActive :: host_stat where "HostStatRqActive = 7"

section \<open>Envoy's calls\<close>

record lb_calls =
  c_cluster_name :: envoy_buffer
  c_priority_set_size :: uint64
  c_hosts_count :: "uint32 \<Rightarrow> uint64"
  c_healthy_count :: "uint32 \<Rightarrow> uint64"
  c_degraded_count :: "uint32 \<Rightarrow> uint64"
  c_host :: "uint32 \<Rightarrow> uint64 \<Rightarrow> HostPtr"
  c_healthy_host :: "uint32 \<Rightarrow> uint64 \<Rightarrow> HostPtr"
  c_host_address :: "uint32 \<Rightarrow> uint64 \<Rightarrow> bool \<times> envoy_buffer"
  c_healthy_host_address :: "uint32 \<Rightarrow> uint64 \<Rightarrow> bool \<times> envoy_buffer"
  c_host_weight :: "uint32 \<Rightarrow> uint64 \<Rightarrow> uint32"
  c_healthy_host_weight :: "uint32 \<Rightarrow> uint64 \<Rightarrow> uint32"
  c_host_health :: "uint32 \<Rightarrow> uint64 \<Rightarrow> health"
  c_host_health_by_address :: "string \<Rightarrow> bool \<times> health"
  c_host_stat :: "uint32 \<Rightarrow> uint64 \<Rightarrow> host_stat \<Rightarrow> uint64"
  c_find_host_by_address :: "string \<Rightarrow> HostPtr"
  c_member_update_host_address :: "uint64 \<Rightarrow> bool \<Rightarrow> bool \<times> envoy_buffer"
  c_host_locality :: "uint32 \<Rightarrow> uint64 \<Rightarrow> bool \<times> envoy_buffer \<times> envoy_buffer \<times> envoy_buffer"
  c_set_host_data :: "uint32 \<Rightarrow> uint64 \<Rightarrow> uint64 \<Rightarrow> host_data \<Rightarrow> bool \<times> host_data"
  c_get_host_data :: "uint32 \<Rightarrow> uint64 \<Rightarrow> host_data \<Rightarrow> bool \<times> uint64"
  c_host_metadata_string :: "uint32 \<Rightarrow> uint64 \<Rightarrow> string \<Rightarrow> string \<Rightarrow> bool \<times> envoy_buffer"
  c_host_metadata_number :: "uint32 \<Rightarrow> uint64 \<Rightarrow> string \<Rightarrow> string \<Rightarrow> bool \<times> float64"
  c_host_metadata_bool :: "uint32 \<Rightarrow> uint64 \<Rightarrow> string \<Rightarrow> string \<Rightarrow> bool \<times> bool"
  c_locality_count :: "uint32 \<Rightarrow> uint64"
  c_locality_host_count :: "uint32 \<Rightarrow> uint64 \<Rightarrow> uint64"
  c_locality_host_address :: "uint32 \<Rightarrow> uint64 \<Rightarrow> uint64 \<Rightarrow> bool \<times> envoy_buffer"
  c_locality_weight :: "uint32 \<Rightarrow> uint64 \<Rightarrow> uint32"

record ctx_calls =
  x_headers_size :: uint64
  x_headers :: "bool \<times> envoy_http_header list"
  x_header :: "string \<Rightarrow> bool \<times> envoy_buffer"
  x_override_host :: "bool \<times> envoy_buffer \<times> bool"
  x_hash_key :: "bool \<times> uint64"
  x_retry_count :: uint32
  x_should_select_another :: "nat \<Rightarrow> uint32 \<Rightarrow> uint64 \<Rightarrow> bool"
  x_filter_state :: "string \<Rightarrow> bool \<times> envoy_buffer"
  x_filter_state_typed :: "string \<Rightarrow> bool \<times> envoy_buffer"
  x_sni :: "bool \<times> envoy_buffer"

definition size_t :: "int \<Rightarrow> uint64" where
  "size_t i = word_of_int i"

definition go_int :: "uint64 \<Rightarrow> int" where
  "go_int n = sint n"

text \<open>The body that the string getters share: no string unless Envoy answers that it wrote one.\<close>

definition string_answer :: "memory \<Rightarrow> bool \<times> envoy_buffer \<Rightarrow> string \<times> bool" where
  "string_answer m r = (let (ok, buf) = r in if \<not> ok then ('''', False) else (envoyBufferToStringUnsafe m buf, True))"

section \<open>The interfaces\<close>

record LBHandle =
  ClusterName :: string
  PriorityCount :: int
  HostCount :: "uint32 \<Rightarrow> int"
  HealthyHostCount :: "uint32 \<Rightarrow> int"
  DegradedHostCount :: "uint32 \<Rightarrow> int"
  HostAddress :: "uint32 \<Rightarrow> int \<Rightarrow> string \<times> bool"
  HealthyHostAddress :: "uint32 \<Rightarrow> int \<Rightarrow> string \<times> bool"
  HostWeight :: "uint32 \<Rightarrow> int \<Rightarrow> uint32"
  HealthyHostWeight :: "uint32 \<Rightarrow> int \<Rightarrow> uint32"
  HostHealthAt :: "uint32 \<Rightarrow> int \<Rightarrow> health"
  HostHealthByAddress :: "string \<Rightarrow> health \<times> bool"
  HostStat :: "uint32 \<Rightarrow> int \<Rightarrow> host_stat \<Rightarrow> uint64"
  MemberUpdateHostAddress :: "int \<Rightarrow> bool \<Rightarrow> string \<times> bool"
  HostLocality :: "uint32 \<Rightarrow> int \<Rightarrow> string \<times> string \<times> string \<times> bool"
  SetHostData :: "uint32 \<Rightarrow> int \<Rightarrow> uint64 \<Rightarrow> host_data \<Rightarrow> bool \<times> host_data"
  GetHostData :: "uint32 \<Rightarrow> int \<Rightarrow> host_data \<Rightarrow> uint64 \<times> bool"
  HostMetadataString :: "uint32 \<Rightarrow> int \<Rightarrow> string \<Rightarrow> string \<Rightarrow> string \<times> bool"
  HostMetadataNumber :: "uint32 \<Rightarrow> int \<Rightarrow> string \<Rightarrow> string \<Rightarrow> float64 \<times> bool"
  HostMetadataBool :: "uint32 \<Rightarrow> int \<Rightarrow> string \<Rightarrow> string \<Rightarrow> bool \<times> bool"
  LocalityCount :: "uint32 \<Rightarrow> int"
  LocalityHostCount :: "uint32 \<Rightarrow> int \<Rightarrow> int"
  LocalityHostAddress :: "uint32 \<Rightarrow> int \<Rightarrow> int \<Rightarrow> string \<times> bool"
  LocalityWeight :: "uint32 \<Rightarrow> int \<Rightarrow> uint32"

text \<open>The handle of a cluster's own balancer has three methods more.\<close>

record ClusterLBHandle = LBHandle +
  HostAt :: "uint32 \<Rightarrow> int \<Rightarrow> HostPtr"
  HealthyHost :: "uint32 \<Rightarrow> int \<Rightarrow> HostPtr"
  FindHostByAddress :: "string \<Rightarrow> HostPtr"

section \<open>The handle of a cluster's balancer\<close>

definition dymClusterLBHandle_ClusterName :: "memory \<Rightarrow> lb_calls \<Rightarrow> string" where
  "dymClusterLBHandle_ClusterName m c =
     envoyBufferToStringUnsafe m (c_cluster_name c)"

definition dymClusterLBHandle_PriorityCount :: "lb_calls \<Rightarrow> int" where
  "dymClusterLBHandle_PriorityCount c =
     go_int (c_priority_set_size c)"

definition dymClusterLBHandle_HostCount :: "lb_calls \<Rightarrow> uint32 \<Rightarrow> int" where
  "dymClusterLBHandle_HostCount c priority =
     go_int (c_hosts_count c priority)"

definition dymClusterLBHandle_HealthyHostCount :: "lb_calls \<Rightarrow> uint32 \<Rightarrow> int" where
  "dymClusterLBHandle_HealthyHostCount c priority =
     go_int (c_healthy_count c priority)"

definition dymClusterLBHandle_DegradedHostCount :: "lb_calls \<Rightarrow> uint32 \<Rightarrow> int" where
  "dymClusterLBHandle_DegradedHostCount c priority =
     go_int (c_degraded_count c priority)"

definition dymClusterLBHandle_HostAddress :: "memory \<Rightarrow> lb_calls \<Rightarrow> uint32 \<Rightarrow> int \<Rightarrow> string \<times> bool" where
  "dymClusterLBHandle_HostAddress m c priority index =
     string_answer m (c_host_address c priority (size_t index))"

definition dymClusterLBHandle_HealthyHostAddress :: "memory \<Rightarrow> lb_calls \<Rightarrow> uint32 \<Rightarrow> int \<Rightarrow> string \<times> bool" where
  "dymClusterLBHandle_HealthyHostAddress m c priority index =
     string_answer m (c_healthy_host_address c priority (size_t index))"

definition dymClusterLBHandle_HostWeight :: "lb_calls \<Rightarrow> uint32 \<Rightarrow> int \<Rightarrow> uint32" where
  "dymClusterLBHandle_HostWeight c priority index =
     c_host_weight c priority (size_t index)"

definition dymClusterLBHandle_HealthyHostWeight :: "lb_calls \<Rightarrow> uint32 \<Rightarrow> int \<Rightarrow> uint32" where
  "dymClusterLBHandle_HealthyHostWeight c priority index =
     c_healthy_host_weight c priority (size_t index)"

definition dymClusterLBHandle_HostHealth :: "lb_calls \<Rightarrow> uint32 \<Rightarrow> int \<Rightarrow> health" where
  "dymClusterLBHandle_HostHealth c priority index =
     c_host_health c priority (size_t index)"

definition dymClusterLBHandle_HostHealthByAddress :: "lb_calls \<Rightarrow> string \<Rightarrow> health \<times> bool" where
  "dymClusterLBHandle_HostHealthByAddress c addr =
     (let (ok, health) = c_host_health_by_address c addr in (health, ok))"

definition dymClusterLBHandle_HostStat :: "lb_calls \<Rightarrow> uint32 \<Rightarrow> int \<Rightarrow> host_stat \<Rightarrow> uint64" where
  "dymClusterLBHandle_HostStat c priority index stat =
     c_host_stat c priority (size_t index) stat"

definition dymClusterLBHandle_MemberUpdateHostAddress :: "memory \<Rightarrow> lb_calls \<Rightarrow> int \<Rightarrow> bool \<Rightarrow> string \<times> bool" where
  "dymClusterLBHandle_MemberUpdateHostAddress m c index isAdded =
     string_answer m (c_member_update_host_address c (size_t index) isAdded)"

definition dymClusterLBHandle_HostLocality :: "memory \<Rightarrow> lb_calls \<Rightarrow> uint32 \<Rightarrow> int \<Rightarrow> string \<times> string \<times> string \<times> bool" where
  "dymClusterLBHandle_HostLocality m c priority index =
     (let (ok, region, zone, subZone) = c_host_locality c priority (size_t index)
      in if \<not> ok then ('''', '''', '''', False)
         else (envoyBufferToStringUnsafe m region, envoyBufferToStringUnsafe m zone, envoyBufferToStringUnsafe m subZone, True))"

definition dymClusterLBHandle_SetHostData :: "lb_calls \<Rightarrow> uint32 \<Rightarrow> int \<Rightarrow> uint64 \<Rightarrow> host_data \<Rightarrow> bool \<times> host_data" where
  "dymClusterLBHandle_SetHostData c priority index data =
     c_set_host_data c priority (size_t index) data"

definition dymClusterLBHandle_GetHostData :: "lb_calls \<Rightarrow> uint32 \<Rightarrow> int \<Rightarrow> host_data \<Rightarrow> uint64 \<times> bool" where
  "dymClusterLBHandle_GetHostData c priority index d =
     (let (ok, data) = c_get_host_data c priority (size_t index) d in (data, ok))"

definition dymClusterLBHandle_HostMetadataString :: "memory \<Rightarrow> lb_calls \<Rightarrow> uint32 \<Rightarrow> int \<Rightarrow> string \<Rightarrow> string \<Rightarrow> string \<times> bool" where
  "dymClusterLBHandle_HostMetadataString m c priority index filterName key =
     string_answer m (c_host_metadata_string c priority (size_t index) filterName key)"

definition dymClusterLBHandle_HostMetadataNumber :: "lb_calls \<Rightarrow> uint32 \<Rightarrow> int \<Rightarrow> string \<Rightarrow> string \<Rightarrow> float64 \<times> bool" where
  "dymClusterLBHandle_HostMetadataNumber c priority index filterName key =
     (let (ok, out) = c_host_metadata_number c priority (size_t index) filterName key in (out, ok))"

definition dymClusterLBHandle_HostMetadataBool :: "lb_calls \<Rightarrow> uint32 \<Rightarrow> int \<Rightarrow> string \<Rightarrow> string \<Rightarrow> bool \<times> bool" where
  "dymClusterLBHandle_HostMetadataBool c priority index filterName key =
     (let (ok, out) = c_host_metadata_bool c priority (size_t index) filterName key in (out, ok))"

definition dymClusterLBHandle_LocalityCount :: "lb_calls \<Rightarrow> uint32 \<Rightarrow> int" where
  "dymClusterLBHandle_LocalityCount c priority =
     go_int (c_locality_count c priority)"

definition dymClusterLBHandle_LocalityHostCount :: "lb_calls \<Rightarrow> uint32 \<Rightarrow> int \<Rightarrow> int" where
  "dymClusterLBHandle_LocalityHostCount c priority localityIndex =
     go_int (c_locality_host_count c priority (size_t localityIndex))"

definition dymClusterLBHandle_LocalityHostAddress :: "memory \<Rightarrow> lb_calls \<Rightarrow> uint32 \<Rightarrow> int \<Rightarrow> int \<Rightarrow> string \<times> bool" where
  "dymClusterLBHandle_LocalityHostAddress m c priority localityIndex hostIndex =
     string_answer m (c_locality_host_address c priority (size_t localityIndex) (size_t hostIndex))"

definition dymClusterLBHandle_LocalityWeight :: "lb_calls \<Rightarrow> uint32 \<Rightarrow> int \<Rightarrow> uint32" where
  "dymClusterLBHandle_LocalityWeight c priority localityIndex =
     c_locality_weight c priority (size_t localityIndex)"

definition dymClusterLBHandle_Host :: "lb_calls \<Rightarrow> uint32 \<Rightarrow> int \<Rightarrow> HostPtr" where
  "dymClusterLBHandle_Host c priority index =
     c_host c priority (size_t index)"

definition dymClusterLBHandle_HealthyHost :: "lb_calls \<Rightarrow> uint32 \<Rightarrow> int \<Rightarrow> HostPtr" where
  "dymClusterLBHandle_HealthyHost c priority index =
     c_healthy_host c priority (size_t index)"

definition dymClusterLBHandle_FindHostByAddress :: "lb_calls \<Rightarrow> string \<Rightarrow> HostPtr" where
  "dymClusterLBHandle_FindHostByAddress c addr =
     c_find_host_by_address c addr"

definition dymClusterLBHandle :: "memory \<Rightarrow> lb_calls \<Rightarrow> ClusterLBHandle" where
  "dymClusterLBHandle m c =
    \<lparr>ClusterName = dymClusterLBHandle_ClusterName m c,
     PriorityCount = dymClusterLBHandle_PriorityCount c,
     HostCount = dymClusterLBHandle_HostCount c,
     HealthyHostCount = dymClusterLBHandle_HealthyHostCount c,
     DegradedHostCount = dymClusterLBHandle_DegradedHostCount c,
     HostAddress = dymClusterLBHandle_HostAddress m c,
     HealthyHostAddress = dymClusterLBHandle_HealthyHostAddress m c,
     HostWeight = dymClusterLBHandle_HostWeight c,
     HealthyHostWeight = dymClusterLBHandle_HealthyHostWeight c,
     HostHealthAt = dymClusterLBHandle_HostHealth c,
     HostHealthByAddress = dymClusterLBHandle_HostHealthByAddress c,
     HostStat = dymClusterLBHandle_HostStat c,
     MemberUpdateHostAddress = dymClusterLBHandle_MemberUpdateHostAddress m c,
     HostLocality = dymClusterLBHandle_HostLocality m c,
     SetHostData = dymClusterLBHandle_SetHostData c,
     GetHostData = dymClusterLBHandle_GetHostData c,
     HostMetadataString = dymClusterLBHandle_HostMetadataString m c,
     HostMetadataNumber = dymClusterLBHandle_HostMetadataNumber c,
     HostMetadataBool = dymClusterLBHandle_HostMetadataBool c,
     LocalityCount = dymClusterLBHandle_LocalityCount c,
     LocalityHostCount = dymClusterLBHandle_LocalityHostCount c,
     LocalityHostAddress = dymClusterLBHandle_LocalityHostAddress m c,
     LocalityWeight = dymClusterLBHandle_LocalityWeight c,
     HostAt = dymClusterLBHandle_Host c,
     HealthyHost = dymClusterLBHandle_HealthyHost c,
     FindHostByAddress = dymClusterLBHandle_FindHostByAddress c\<rparr>"

section \<open>The handle of a load-balancing policy\<close>

definition dymLBHandle_ClusterName :: "memory \<Rightarrow> lb_calls \<Rightarrow> string" where
  "dymLBHandle_ClusterName m c =
     envoyBufferToStringUnsafe m (c_cluster_name c)"

definition dymLBHandle_PriorityCount :: "lb_calls \<Rightarrow> int" where
  "dymLBHandle_PriorityCount c =
     go_int (c_priority_set_size c)"

definition dymLBHandle_HostCount :: "lb_calls \<Rightarrow> uint32 \<Rightarrow> int" where
  "dymLBHandle_HostCount c priority =
     go_int (c_hosts_count c priority)"

definition dymLBHandle_HealthyHostCount :: "lb_calls \<Rightarrow> uint32 \<Rightarrow> int" where
  "dymLBHandle_HealthyHostCount c priority =
     go_int (c_healthy_count c priority)"

definition dymLBHandle_DegradedHostCount :: "lb_calls \<Rightarrow> uint32 \<Rightarrow> int" where
  "dymLBHandle_DegradedHostCount c priority =
     go_int (c_degraded_count c priority)"

definition dymLBHandle_HostAddress :: "memory \<Rightarrow> lb_calls \<Rightarrow> uint32 \<Rightarrow> int \<Rightarrow> string \<times> bool" where
  "dymLBHandle_HostAddress m c priority index =
     string_answer m (c_host_address c priority (size_t index))"

definition dymLBHandle_HealthyHostAddress :: "memory \<Rightarrow> lb_calls \<Rightarrow> uint32 \<Rightarrow> int \<Rightarrow> string \<times> bool" where
  "dymLBHandle_HealthyHostAddress m c priority index =
     string_answer m (c_healthy_host_address c priority (size_t index))"

definition dymLBHandle_HostWeight :: "lb_calls \<Rightarrow> uint32 \<Rightarrow> int \<Rightarrow> uint32" where
  "dymLBHandle_HostWeight c priority index =
     c_host_weight c priority (size_t index)"

definition dymLBHandle_HealthyHostWeight :: "lb_calls \<Rightarrow> uint32 \<Rightarrow> int \<Rightarrow> uint32" where
  "dymLBHandle_HealthyHostWeight c priority index =
     c_healthy_host_weight c priority (size_t index)"

definition dymLBHandle_HostHealth :: "lb_calls \<Rightarrow> uint32 \<Rightarrow> int \<Rightarrow> health" where
  "dymLBHandle_HostHealth c priority index =
     c_host_health c priority (size_t index)"

definition dymLBHandle_HostHealthByAddress :: "lb_calls \<Rightarrow> string \<Rightarrow> health \<times> bool" where
  "dymLBHandle_HostHealthByAddress c addr =
     (let (ok, health) = c_host_health_by_address c addr in (health, ok))"

definition dymLBHandle_HostStat :: "lb_calls \<Rightarrow> uint32 \<Rightarrow> int \<Rightarrow> host_stat \<Rightarrow> uint64" where
  "dymLBHandle_HostStat c priority index stat =
     c_host_stat c priority (size_t index) stat"

definition dymLBHandle_MemberUpdateHostAddress :: "memory \<Rightarrow> lb_calls \<Rightarrow> int \<Rightarrow> bool \<Rightarrow> string \<times> bool" where
  "dymLBHandle_MemberUpdateHostAddress m c index isAdded =
     string_answer m (c_member_update_host_address c (size_t index) isAdded)"

definition dymLBHandle_HostLocality :: "memory \<Rightarrow> lb_calls \<Rightarrow> uint32 \<Rightarrow> int \<Rightarrow> string \<times> string \<times> string \<times> bool" where
  "dymLBHandle_HostLocality m c priority index =
     (let (ok, region, zone, subZone) = c_host_locality c priority (size_t index)
      in if \<not> ok then ('''', '''', '''', False)
         else (envoyBufferToStringUnsafe m region, envoyBufferToStringUnsafe m zone, envoyBufferToStringUnsafe m subZone, True))"

definition dymLBHandle_SetHostData :: "lb_calls \<Rightarrow> uint32 \<Rightarrow> int \<Rightarrow> uint64 \<Rightarrow> host_data \<Rightarrow> bool \<times> host_data" where
  "dymLBHandle_SetHostData c priority index data =
     c_set_host_data c priority (size_t index) data"

definition dymLBHandle_GetHostData :: "lb_calls \<Rightarrow> uint32 \<Rightarrow> int \<Rightarrow> host_data \<Rightarrow> uint64 \<times> bool" where
  "dymLBHandle_GetHostData c priority index d =
     (let (ok, data) = c_get_host_data c priority (size_t index) d in (data, ok))"

definition dymLBHandle_HostMetadataString :: "memory \<Rightarrow> lb_calls \<Rightarrow> uint32 \<Rightarrow> int \<Rightarrow> string \<Rightarrow> string \<Rightarrow> string \<times> bool" where
  "dymLBHandle_HostMetadataString m c priority index filterName key =
     string_answer m (c_host_metadata_string c priority (size_t index) filterName key)"

definition dymLBHandle_HostMetadataNumber :: "lb_calls \<Rightarrow> uint32 \<Rightarrow> int \<Rightarrow> string \<Rightarrow> string \<Rightarrow> float64 \<times> bool" where
  "dymLBHandle_HostMetadataNumber c priority index filterName key =
     (let (ok, out) = c_host_metadata_number c priority (size_t index) filterName key in (out, ok))"

definition dymLBHandle_HostMetadataBool :: "lb_calls \<Rightarrow> uint32 \<Rightarrow> int \<Rightarrow> string \<Rightarrow> string \<Rightarrow> bool \<times> bool" where
  "dymLBHandle_HostMetadataBool c priority index filterName key =
     (let (ok, out) = c_host_metadata_bool c priority (size_t index) filterName key in (out, ok))"

definition dymLBHandle_LocalityCount :: "lb_calls \<Rightarrow> uint32 \<Rightarrow> int" where
  "dymLBHandle_LocalityCount c priority =
     go_int (c_locality_count c priority)"

definition dymLBHandle_LocalityHostCount :: "lb_calls \<Rightarrow> uint32 \<Rightarrow> int \<Rightarrow> int" where
  "dymLBHandle_LocalityHostCount c priority localityIndex =
     go_int (c_locality_host_count c priority (size_t localityIndex))"

definition dymLBHandle_LocalityHostAddress :: "memory \<Rightarrow> lb_calls \<Rightarrow> uint32 \<Rightarrow> int \<Rightarrow> int \<Rightarrow> string \<times> bool" where
  "dymLBHandle_LocalityHostAddress m c priority localityIndex hostIndex =
     string_answer m (c_locality_host_address c priority (size_t localityIndex) (size_t hostIndex))"

definition dymLBHandle_LocalityWeight :: "lb_calls \<Rightarrow> uint32 \<Rightarrow> int \<Rightarrow> uint32" where
  "dymLBHandle_LocalityWeight c priority localityIndex =
     c_locality_weight c priority (size_t localityIndex)"

definition dymLBHandle :: "memory \<Rightarrow> lb_calls \<Rightarrow> LBHandle" where
  "dymLBHandle m c =
    \<lparr>ClusterName = dymLBHandle_ClusterName m c,
     PriorityCount = dymLBHandle_PriorityCount c,
     HostCount = dymLBHandle_HostCount c,
     HealthyHostCount = dymLBHandle_HealthyHostCount c,
     DegradedHostCount = dymLBHandle_DegradedHostCount c,
     HostAddress = dymLBHandle_HostAddress m c,
     HealthyHostAddress = dymLBHandle_HealthyHostAddress m c,
     HostWeight = dymLBHandle_HostWeight c,
     HealthyHostWeight = dymLBHandle_HealthyHostWeight c,
     HostHealthAt = dymLBHandle_HostHealth c,
     HostHealthByAddress = dymLBHandle_HostHealthByAddress c,
     HostStat = dymLBHandle_HostStat c,
     MemberUpdateHostAddress = dymLBHandle_MemberUpdateHostAddress m c,
     HostLocality = dymLBHandle_HostLocality m c,
     SetHostData = dymLBHandle_SetHostData c,
     GetHostData = dymLBHandle_GetHostData c,
     HostMetadataString = dymLBHandle_HostMetadataString m c,
     HostMetadataNumber = dymLBHandle_HostMetadataNumber c,
     HostMetadataBool = dymLBHandle_HostMetadataBool c,
     LocalityCount = dymLBHandle_LocalityCount c,
     LocalityHostCount = dymLBHandle_LocalityHostCount c,
     LocalityHostAddress = dymLBHandle_LocalityHostAddress m c,
     LocalityWeight = dymLBHandle_LocalityWeight c\<rparr>"

lemmas cluster_lb_getters =
  dymClusterLBHandle_ClusterName_def dymClusterLBHandle_PriorityCount_def dymClusterLBHandle_HostCount_def
  dymClusterLBHandle_HealthyHostCount_def dymClusterLBHandle_DegradedHostCount_def
  dymClusterLBHandle_HostAddress_def dymClusterLBHandle_HealthyHostAddress_def
  dymClusterLBHandle_HostWeight_def dymClusterLBHandle_HealthyHostWeight_def dymClusterLBHandle_HostHealth_def
  dymClusterLBHandle_HostHealthByAddress_def dymClusterLBHandle_HostStat_def
  dymClusterLBHandle_MemberUpdateHostAddress_def dymClusterLBHandle_HostLocality_def
  dymClusterLBHandle_SetHostData_def dymClusterLBHandle_GetHostData_def
  dymClusterLBHandle_HostMetadataString_def dymClusterLBHandle_HostMetadataNumber_def
  dymClusterLBHandle_HostMetadataBool_def dymClusterLBHandle_LocalityCount_def
  dymClusterLBHandle_LocalityHostCount_def dymClusterLBHandle_LocalityHostAddress_def
  dymClusterLBHandle_LocalityWeight_def dymClusterLBHandle_Host_def dymClusterLBHandle_HealthyHost_def
  dymClusterLBHandle_FindHostByAddress_def dymClusterLBHandle_def

lemmas lb_getters =
  dymLBHandle_ClusterName_def dymLBHandle_PriorityCount_def dymLBHandle_HostCount_def
  dymLBHandle_HealthyHostCount_def dymLBHandle_DegradedHostCount_def dymLBHandle_HostAddress_def
  dymLBHandle_HealthyHostAddress_def dymLBHandle_HostWeight_def dymLBHandle_HealthyHostWeight_def
  dymLBHandle_HostHealth_def dymLBHandle_HostHealthByAddress_def dymLBHandle_HostStat_def
  dymLBHandle_MemberUpdateHostAddress_def dymLBHandle_HostLocality_def dymLBHandle_SetHostData_def
  dymLBHandle_GetHostData_def dymLBHandle_HostMetadataString_def dymLBHandle_HostMetadataNumber_def
  dymLBHandle_HostMetadataBool_def dymLBHandle_LocalityCount_def dymLBHandle_LocalityHostCount_def
  dymLBHandle_LocalityHostAddress_def dymLBHandle_LocalityWeight_def dymLBHandle_def

text \<open>The two handles answer the methods they share in the same way, when Envoy does.\<close>

lemma policy_handle_mirrors_cluster_handle: "LBHandle.truncate (dymClusterLBHandle m c) = dymLBHandle m c"
  by (simp add: LBHandle.truncate_def cluster_lb_getters lb_getters fun_eq_iff)

section \<open>Request contexts\<close>

text \<open>
  \<open>make\<close> with a negative length panics; the array is zeroed before Envoy fills it in.
\<close>

definition all_headers :: "memory \<Rightarrow> ctx_calls \<Rightarrow> header list outcome" where
  "all_headers m x =
     (let n = go_int (x_headers_size x)
      in if n = 0 then Inr []
         else if n < 0 then Inl (Panic ''runtime error: makeslice: len out of range'')
         else let (ok, written) = x_headers x;
                  raw = take (nat n) (written @ replicate (nat n) \<lparr>hdr_key = zero_buffer, hdr_value = zero_buffer\<rparr>)
              in if \<not> ok then Inr [] else Inr (map (envoyHTTPHeaderToPair m) raw))"

definition override_host :: "memory \<Rightarrow> ctx_calls \<Rightarrow> string \<times> bool" where
  "override_host m x =
     (let (ok, addr, strict) = x_override_host x
      in if \<not> ok then ('''', False) else (envoyBufferToStringUnsafe m addr, strict))"

text \<open>\<open>h\<close> is what the type assertion of the handle gives: its Envoy pointer, if it is a handle of this layer.\<close>

definition should_select_another_host :: "ctx_calls \<Rightarrow> nat option \<Rightarrow> uint32 \<Rightarrow> int \<Rightarrow> bool" where
  "should_select_another_host x h priority index =
     (case h of None \<Rightarrow> False | Some lbPtr \<Rightarrow> x_should_select_another x lbPtr priority (size_t index))"

definition dymClusterLBContext_GetAllHeaders :: "memory \<Rightarrow> ctx_calls \<Rightarrow> header list outcome" where
  "dymClusterLBContext_GetAllHeaders m x = all_headers m x"

definition dymClusterLBContext_GetFilterState :: "memory \<Rightarrow> ctx_calls \<Rightarrow> string \<Rightarrow> string \<times> bool" where
  "dymClusterLBContext_GetFilterState m x key = string_answer m (x_filter_state x key)"

definition dymClusterLBContext_GetFilterStateTyped :: "memory \<Rightarrow> ctx_calls \<Rightarrow> string \<Rightarrow> string \<times> bool" where
  "dymClusterLBContext_GetFilterStateTyped m x key = string_answer m (x_filter_state_typed x key)"

definition dymClusterLBContext_GetOverrideHost :: "memory \<Rightarrow> ctx_calls \<Rightarrow> string \<times> bool" where
  "dymClusterLBContext_GetOverrideHost m x = override_host m x"

definition dymClusterLBContext_GetHeader :: "memory \<Rightarrow> ctx_calls \<Rightarrow> string \<Rightarrow> string \<times> bool" where
  "dymClusterLBContext_GetHeader m x name = string_answer m (x_header x name)"

definition dymClusterLBContext_GetDownstreamSNI :: "memory \<Rightarrow> ctx_calls \<Rightarrow> string \<times> bool" where
  "dymClusterLBContext_GetDownstreamSNI m x = string_answer m (x_sni x)"

definition dymClusterLBContext_ComputeHashKey :: "ctx_calls \<Rightarrow> uint64 \<times> bool" where
  "dymClusterLBContext_ComputeHashKey x = (let (ok, h) = x_hash_key x in (h, ok))"

definition dymClusterLBContext_GetHostSelectionRetryCount :: "ctx_calls \<Rightarrow> uint32" where
  "dymClusterLBContext_GetHostSelectionRetryCount x = x_retry_count x"

definition dymClusterLBContext_ShouldSelectAnotherHost :: "ctx_calls \<Rightarrow> nat option \<Rightarrow> uint32 \<Rightarrow> int \<Rightarrow> bool" where
  "dymClusterLBContext_ShouldSelectAnotherHost x h priority index = should_select_another_host x h priority index"

definition dymLBContext_GetAllHeaders :: "memory \<Rightarrow> ctx_calls \<Rightarrow> header list outcome" where
  "dymLBContext_GetAllHeaders m x = all_headers m x"

definition dymLBContext_GetOverrideHost :: "memory \<Rightarrow> ctx_calls \<Rightarrow> string \<times> bool" where
  "dymLBContext_GetOverrideHost m x = override_host m x"

definition dymLBContext_GetHeader :: "memory \<Rightarrow> ctx_calls \<Rightarrow> string \<Rightarrow> string \<times> bool" where
  "dymLBContext_GetHeader m x name = string_answer m (x_header x name)"

definition dymLBContext_ComputeHashKey :: "ctx_calls \<Rightarrow> uint64 \<times> bool" where
  "dymLBContext_ComputeHashKey x = (let (ok, h) = x_hash_key x in (h, ok))"

definition dymLBContext_GetHostSelectionRetryCount :: "ctx_calls \<Rightarrow> uint32" where
  "dymLBContext_GetHostSelectionRetryCount x = x_retry_count x"

definition dymLBContext_ShouldSelectAnotherHost :: "ctx_calls \<Rightarrow> nat option \<Rightarrow> uint32 \<Rightarrow> int \<Rightarrow> bool" where
  "dymLBContext_ShouldSelectAnotherHost x h priority index = should_select_another_host x h priority index"

text \<open>The context of a load-balancing policy, as the interface has it.\<close>

record LBContext =
  GetAllHeaders :: "header list outcome"
  GetOverrideHost :: "string \<times> bool"
  GetHeader :: "string \<Rightarrow> string \<times> bool"
  ComputeHashKey :: "uint64 \<times> bool"
  GetHostSelectionRetryCount :: uint32
  ShouldSelectAnotherHost :: "nat option \<Rightarrow> uint32 \<Rightarrow> int \<Rightarrow> bool"

definition dymLBContext :: "memory \<Rightarrow> ctx_calls \<Rightarrow> LBContext" where
  "dymLBContext m x =
    \<lparr>GetAllHeaders = dymLBContext_GetAllHeaders m x,
     GetOverrideHost = dymLBContext_GetOverrideHost m x,
     GetHeader = dymLBContext_GetHeader m x,
     ComputeHashKey = dymLBContext_ComputeHashKey x,
     GetHostSelectionRetryCount = dymLBContext_GetHostSelectionRetryCount x,
     ShouldSelectAnotherHost = dymLBContext_ShouldSelectAnotherHost x\<rparr>"

section \<open>What Envoy documents of a priority set\<close>

record envoy_host =
  eh_ptr :: HostPtr
  eh_address :: string
  eh_weight :: uint32
  eh_health :: health
  eh_stat :: "host_stat \<Rightarrow> uint64"
  eh_metadata :: "string \<Rightarrow> string \<rightharpoonup> string"

type_synonym priority_set = "uint32 \<Rightarrow> envoy_host list"

definition healthy :: "envoy_host list \<Rightarrow> envoy_host list" where
  "healthy hs = filter (\<lambda>h. eh_health h = 2) hs"

text \<open>The host at an index, if the index is in bounds.\<close>

definition at_index :: "'a list \<Rightarrow> uint64 \<Rightarrow> 'a option" where
  "at_index xs i = (if unat i < length xs then Some (xs ! unat i) else None)"

definition answers :: "memory \<Rightarrow> bool \<times> envoy_buffer \<Rightarrow> string option \<Rightarrow> bool" where
  "answers m r s \<longleftrightarrow> (case s of None \<Rightarrow> \<not> fst r | Some v \<Rightarrow> fst r \<and> envoyBufferToStringUnsafe m (snd r) = v)"

text \<open>
  The documented behaviour of the calls over a priority set (\<^verbatim>\<open>src/down/abi_impl/abi.h\<close>): the counts, the
  addresses, the statistics and the metadata of the host at an index within all hosts or within the healthy
  hosts, and what is answered for an index out of bounds.
\<close>

definition documented :: "memory \<Rightarrow> lb_calls \<Rightarrow> priority_set \<Rightarrow> bool" where
  "documented m c ps \<longleftrightarrow> (\<forall>p. length (ps p) < 2 ^ 63 \<and>
     c_hosts_count c p = of_nat (length (ps p)) \<and>
     c_healthy_count c p = of_nat (length (healthy (ps p))) \<and>
     (\<forall>i. c_host c p i = (case at_index (ps p) i of None \<Rightarrow> 0 | Some h \<Rightarrow> eh_ptr h) \<and>
          c_healthy_host c p i = (case at_index (healthy (ps p)) i of None \<Rightarrow> 0 | Some h \<Rightarrow> eh_ptr h) \<and>
          c_host_stat c p i = (case at_index (ps p) i of None \<Rightarrow> \<lambda>_. 0 | Some h \<Rightarrow> eh_stat h) \<and>
          answers m (c_host_address c p i) (map_option eh_address (at_index (ps p) i)) \<and>
          answers m (c_healthy_host_address c p i) (map_option eh_address (at_index (healthy (ps p)) i)) \<and>
          (\<forall>f k. answers m (c_host_metadata_string c p i f k)
                   (Option.bind (at_index (ps p) i) (\<lambda>h. eh_metadata h f k)))))"

definition int_range :: "int \<Rightarrow> bool" where
  "int_range i \<longleftrightarrow> - (2 ^ 63) \<le> i \<and> i < 2 ^ 63"

text \<open>What a balancer may rely on, whichever handle it is given.\<close>

definition at_int :: "'a list \<Rightarrow> int \<Rightarrow> 'a option" where
  "at_int xs i = (if 0 \<le> i \<and> i < int (length xs) then Some (xs ! nat i) else None)"

definition found :: "string option \<Rightarrow> string \<times> bool" where
  "found s = (case s of None \<Rightarrow> ('''', False) | Some v \<Rightarrow> (v, True))"

locale lb_interface =
  fixes ok :: "'c \<Rightarrow> priority_set \<Rightarrow> bool"
    and handle :: "'c \<Rightarrow> 'r LBHandle_scheme"
  assumes bounded: "ok c ps \<Longrightarrow> length (ps p) < 2 ^ 63"
    and host_count: "ok c ps \<Longrightarrow> HostCount (handle c) p = int (length (ps p))"
    and healthy_count: "ok c ps \<Longrightarrow> HealthyHostCount (handle c) p = int (length (healthy (ps p)))"
    and host_address: "ok c ps \<Longrightarrow> int_range i \<Longrightarrow> HostAddress (handle c) p i = found (map_option eh_address (at_int (ps p) i))"
    and healthy_address: "ok c ps \<Longrightarrow> int_range i \<Longrightarrow>
       HealthyHostAddress (handle c) p i = found (map_option eh_address (at_int (healthy (ps p)) i))"
    and host_stat: "ok c ps \<Longrightarrow> int_range i \<Longrightarrow>
       HostStat (handle c) p i st = (case at_int (ps p) i of None \<Rightarrow> 0 | Some h \<Rightarrow> eh_stat h st)"
    and metadata_string: "ok c ps \<Longrightarrow> int_range i \<Longrightarrow>
       HostMetadataString (handle c) p i f k = found (Option.bind (at_int (ps p) i) (\<lambda>h. eh_metadata h f k))"
begin

text \<open>A loop from 0 to a count stays within what the getters find.\<close>

lemma loop_index: "ok c ps \<Longrightarrow> 0 \<le> i \<Longrightarrow> i < HostCount (handle c) p \<Longrightarrow> int_range i"
  using bounded [of c ps p] by (simp add: host_count int_range_def)

lemma loop_index_healthy: "ok c ps \<Longrightarrow> 0 \<le> i \<Longrightarrow> i < HealthyHostCount (handle c) p \<Longrightarrow> int_range i"
proof -
  assume a: "ok c ps" "0 \<le> i" "i < HealthyHostCount (handle c) p"
  have "length (healthy (ps p)) \<le> length (ps p)" by (simp add: healthy_def)
  then have "i < int (length (ps p))" using a by (simp add: healthy_count)
  then show ?thesis using a bounded [OF a(1), of p] by (simp add: int_range_def)
qed

lemma addresses_of_loop:
  assumes "ok c ps"
  shows "map (\<lambda>i. HostAddress (handle c) p (int i)) [0..<nat (HostCount (handle c) p)] = map (\<lambda>h. (eh_address h, True)) (ps p)"
  using loop_index [OF assms, of "int i" p for i]
  by (intro nth_equalityI) (auto simp: host_count [OF assms] host_address [OF assms] at_int_def found_def)

end

locale cluster_lb_interface = lb_interface ok handle
  for ok :: "'c \<Rightarrow> priority_set \<Rightarrow> bool" and handle :: "'c \<Rightarrow> 'r ClusterLBHandle_scheme" +
  assumes host_ptr: "ok c ps \<Longrightarrow> int_range i \<Longrightarrow> HostAt (handle c) p i = (case at_int (ps p) i of None \<Rightarrow> 0 | Some h \<Rightarrow> eh_ptr h)"
    and healthy_ptr: "ok c ps \<Longrightarrow> int_range i \<Longrightarrow>
       HealthyHost (handle c) p i = (case at_int (healthy (ps p)) i of None \<Rightarrow> 0 | Some h \<Rightarrow> eh_ptr h)"

lemma unat_size_t: "int_range i \<Longrightarrow> unat (size_t i) = (if 0 \<le> i then nat i else nat (2 ^ 64 + i))"
proof (cases "0 \<le> i")
  case False
  assume i: "int_range i"
  then have "i mod 2 ^ 64 = (2 ^ 64 + i) mod 2 ^ 64" by simp
  also have "\<dots> = 2 ^ 64 + i" using i False by (intro mod_pos_pos_trivial) (simp_all add: int_range_def)
  finally show ?thesis using False by (simp add: size_t_def unat_eq_nat_uint uint_word_of_int)
qed (simp add: size_t_def int_range_def unat_eq_nat_uint uint_word_of_int)

lemma at_index_size_t: "int_range i \<Longrightarrow> length xs < 2 ^ 63 \<Longrightarrow> at_index xs (size_t i) = at_int xs i"
  by (auto simp: at_index_def at_int_def unat_size_t int_range_def)

lemma go_int_of_nat: "n < 2 ^ 63 \<Longrightarrow> go_int (of_nat n) = int n"
  using int64_id [of "int n"] by (simp add: go_int_def int64_def)

lemma string_answer_found: "answers m r s \<Longrightarrow> string_answer m r = found s"
  by (auto simp: answers_def string_answer_def found_def split: prod.splits option.splits)

lemma length_healthy: "length (healthy hs) \<le> length hs"
  by (simp add: healthy_def)


lemma documented_laws:
  assumes "documented m c ps"
  shows "length (ps p) < 2 ^ 63"
    and "go_int (c_hosts_count c p) = int (length (ps p))"
    and "go_int (c_healthy_count c p) = int (length (healthy (ps p)))"
    and "int_range i \<Longrightarrow> string_answer m (c_host_address c p (size_t i)) = found (map_option eh_address (at_int (ps p) i))"
    and "int_range i \<Longrightarrow>
      string_answer m (c_healthy_host_address c p (size_t i)) = found (map_option eh_address (at_int (healthy (ps p)) i))"
    and "int_range i \<Longrightarrow> c_host_stat c p (size_t i) st = (case at_int (ps p) i of None \<Rightarrow> 0 | Some h \<Rightarrow> eh_stat h st)"
    and "int_range i \<Longrightarrow> c_host c p (size_t i) = (case at_int (ps p) i of None \<Rightarrow> 0 | Some h \<Rightarrow> eh_ptr h)"
    and "int_range i \<Longrightarrow> c_healthy_host c p (size_t i) = (case at_int (healthy (ps p)) i of None \<Rightarrow> 0 | Some h \<Rightarrow> eh_ptr h)"
    and "int_range i \<Longrightarrow> string_answer m (c_host_metadata_string c p (size_t i) f k) =
      found (Option.bind (at_int (ps p) i) (\<lambda>h. eh_metadata h f k))"
proof -
  show len: "length (ps p) < 2 ^ 63" using assms by (simp add: documented_def)
  then have hlen: "length (healthy (ps p)) < 2 ^ 63" using length_healthy le_less_trans by blast
  show "go_int (c_hosts_count c p) = int (length (ps p))" "go_int (c_healthy_count c p) = int (length (healthy (ps p)))"
    using assms len hlen by (simp_all add: documented_def go_int_of_nat)
  assume i: "int_range i"
  note d = assms [unfolded documented_def, rule_format, of p, THEN conjunct2, THEN conjunct2, THEN conjunct2,
      rule_format, of "size_t i", unfolded at_index_size_t [OF i len] at_index_size_t [OF i hlen]]
  show "string_answer m (c_host_address c p (size_t i)) = found (map_option eh_address (at_int (ps p) i))"
    "string_answer m (c_healthy_host_address c p (size_t i)) = found (map_option eh_address (at_int (healthy (ps p)) i))"
    "string_answer m (c_host_metadata_string c p (size_t i) f k) = found (Option.bind (at_int (ps p) i) (\<lambda>h. eh_metadata h f k))"
    using d by (auto intro: string_answer_found)
  show "c_host_stat c p (size_t i) st = (case at_int (ps p) i of None \<Rightarrow> 0 | Some h \<Rightarrow> eh_stat h st)"
    "c_host c p (size_t i) = (case at_int (ps p) i of None \<Rightarrow> 0 | Some h \<Rightarrow> eh_ptr h)"
    "c_healthy_host c p (size_t i) = (case at_int (healthy (ps p)) i of None \<Rightarrow> 0 | Some h \<Rightarrow> eh_ptr h)"
    using d by (auto split: option.split)
qed

text \<open>Both handles keep the contract, over every memory and every priority set.\<close>

interpretation policy_view: lb_interface "\<lambda>(m, c). documented m c" "\<lambda>(m, c). dymLBHandle m c"
  by unfold_locales (auto simp: lb_getters documented_laws documented_laws(1) [simplified])

interpretation cluster_view: cluster_lb_interface "\<lambda>(m, c). documented m c" "\<lambda>(m, c). dymClusterLBHandle m c"
  by unfold_locales (auto simp: cluster_lb_getters documented_laws documented_laws(1) [simplified])


section \<open>A priority set that answers as documented\<close>

text \<open>\<open>place\<close> says where Envoy keeps a string.\<close>

definition string_out :: "(string \<Rightarrow> envoy_buffer) \<Rightarrow> string option \<Rightarrow> bool \<times> envoy_buffer" where
  "string_out place s = (case s of None \<Rightarrow> (False, zero_buffer) | Some v \<Rightarrow> (True, place v))"

definition ps_calls :: "(string \<Rightarrow> envoy_buffer) \<Rightarrow> string \<Rightarrow> priority_set \<Rightarrow> lb_calls" where
  "ps_calls place name ps =
    \<lparr>c_cluster_name = place name,
     c_priority_set_size = 1,
     c_hosts_count = (\<lambda>p. of_nat (length (ps p))),
     c_healthy_count = (\<lambda>p. of_nat (length (healthy (ps p)))),
     c_degraded_count = (\<lambda>p. of_nat (length (filter (\<lambda>h. eh_health h = 1) (ps p)))),
     c_host = (\<lambda>p i. case at_index (ps p) i of None \<Rightarrow> 0 | Some h \<Rightarrow> eh_ptr h),
     c_healthy_host = (\<lambda>p i. case at_index (healthy (ps p)) i of None \<Rightarrow> 0 | Some h \<Rightarrow> eh_ptr h),
     c_host_address = (\<lambda>p i. string_out place (map_option eh_address (at_index (ps p) i))),
     c_healthy_host_address = (\<lambda>p i. string_out place (map_option eh_address (at_index (healthy (ps p)) i))),
     c_host_weight = (\<lambda>p i. case at_index (ps p) i of None \<Rightarrow> 0 | Some h \<Rightarrow> eh_weight h),
     c_healthy_host_weight = (\<lambda>p i. case at_index (healthy (ps p)) i of None \<Rightarrow> 0 | Some h \<Rightarrow> eh_weight h),
     c_host_health = (\<lambda>p i. case at_index (ps p) i of None \<Rightarrow> 0 | Some h \<Rightarrow> eh_health h),
     c_host_health_by_address = (\<lambda>a. case find (\<lambda>h. eh_address h = a) (ps 0) of None \<Rightarrow> (False, 0) | Some h \<Rightarrow> (True, eh_health h)),
     c_host_stat = (\<lambda>p i. case at_index (ps p) i of None \<Rightarrow> \<lambda>_. 0 | Some h \<Rightarrow> eh_stat h),
     c_find_host_by_address = (\<lambda>a. case find (\<lambda>h. eh_address h = a) (ps 0) of None \<Rightarrow> 0 | Some h \<Rightarrow> eh_ptr h),
     c_member_update_host_address = (\<lambda>_ _. (False, zero_buffer)),
     c_host_locality = (\<lambda>_ _. (False, zero_buffer, zero_buffer, zero_buffer)),
     c_set_host_data = (\<lambda>p i v d. if unat i < length (ps p) then (True, d((p, i) := v)) else (False, d)),
     c_get_host_data = (\<lambda>p i d. if unat i < length (ps p) then (True, d (p, i)) else (False, 0)),
     c_host_metadata_string = (\<lambda>p i f k. string_out place (Option.bind (at_index (ps p) i) (\<lambda>h. eh_metadata h f k))),
     c_host_metadata_number = (\<lambda>_ _ _ _. (False, 0)),
     c_host_metadata_bool = (\<lambda>_ _ _ _. (False, False)),
     c_locality_count = (\<lambda>_. 0),
     c_locality_host_count = (\<lambda>_ _. 0),
     c_locality_host_address = (\<lambda>_ _ _. (False, zero_buffer)),
     c_locality_weight = (\<lambda>_ _. 0)\<rparr>"

definition placed :: "memory \<Rightarrow> (string \<Rightarrow> envoy_buffer) \<Rightarrow> envoy_host list \<Rightarrow> bool" where
  "placed m place hs \<longleftrightarrow> (\<forall>h\<in>set hs. envoyBufferToStringUnsafe m (place (eh_address h)) = eh_address h \<and>
     (\<forall>f k v. eh_metadata h f k = Some v \<longrightarrow> envoyBufferToStringUnsafe m (place v) = v))"

lemma at_index_mem: "at_index xs i = Some x \<Longrightarrow> x \<in> set xs"
  by (auto simp: at_index_def split: if_splits)

lemma ps_calls_documented:
  assumes "\<And>p. length (ps p) < 2 ^ 63" "\<And>p. placed m place (ps p)"
  shows "documented m (ps_calls place name ps) ps"
  using assms by (fastforce simp: documented_def ps_calls_def answers_def string_out_def placed_def healthy_def
      bind_eq_Some_conv dest: at_index_mem split: option.splits)

text \<open>What is stored on a host is read back from it, and from no other host.\<close>

lemma host_data_roundtrip:
  assumes "int_range i" "length (ps p) < 2 ^ 63" "SetHostData (dymLBHandle m (ps_calls place name ps)) p i v d = (True, d')"
  shows "GetHostData (dymLBHandle m (ps_calls place name ps)) p i d' = (v, True) \<and>
    (int_range j \<and> j \<noteq> i \<longrightarrow>
      GetHostData (dymLBHandle m (ps_calls place name ps)) p j d' = GetHostData (dymLBHandle m (ps_calls place name ps)) p j d)"
proof -
  have "size_t j = size_t i \<Longrightarrow> int_range j \<Longrightarrow> j = i" for j
    using int64_id [of i] int64_id [of j] assms(1) by (simp add: size_t_def int64_def int_range_def)
  then show ?thesis using assms by (auto simp: lb_getters ps_calls_def split: if_splits)
qed

end
