(* ===== verification/LB_Policies.thy ===== *)
theory LB_Policies
  imports LB_Views
begin

text \<open>
  Load balancers written against the interfaces of \<^verbatim>\<open>LB_Views\<close>: the policies of
  \<^verbatim>\<open>src/examples/lb-policy\<close>, \<^verbatim>\<open>lb-policy-header-hash\<close>, \<^verbatim>\<open>lb-policy-metadata-route\<close> and
  \<^verbatim>\<open>lb-policy-retry-aware\<close>, and the cluster of \<^verbatim>\<open>src/examples/cluster-least-conn\<close>. A policy answers whether
  it chose, and the priority and the index it chose; Envoy takes the index among the healthy hosts. Their
  properties are proved once in the locales \<open>lb_interface\<close> and \<open>cluster_lb_interface\<close>.
\<close>

unbundle bit_operations_syntax

section \<open>Loops\<close>

text \<open>\<^verbatim>\<open>for i := i; i < n; i++\<close> with a return at the first index that satisfies \<open>P\<close>.\<close>

function first_from :: "(int \<Rightarrow> bool) \<Rightarrow> int \<Rightarrow> int \<Rightarrow> int option" where
  "first_from P i n = (if i < n then if P i then Some i else first_from P (i + 1) n else None)"
  by pat_completeness auto
termination by (relation "measure (\<lambda>(P, i, n). nat (n - i))") auto

declare first_from.simps [simp del]

lemma first_from_Some:
  "first_from P i n = Some j \<longleftrightarrow> i \<le> j \<and> j < n \<and> P j \<and> (\<forall>k. i \<le> k \<and> k < j \<longrightarrow> \<not> P k)"
proof (induction P i n rule: first_from.induct)
  case (1 P i n)
  show ?case
  proof (cases "i < n \<and> \<not> P i")
    case True
    have "(i + 1 \<le> j \<and> (\<forall>k. i + 1 \<le> k \<and> k < j \<longrightarrow> \<not> P k) \<and> P j) \<longleftrightarrow> (i \<le> j \<and> (\<forall>k. i \<le> k \<and> k < j \<longrightarrow> \<not> P k) \<and> P j)"
      using True by (metis add1_zle_eq le_less)
    then show ?thesis using 1 True by (subst first_from.simps) auto
  next
    case False
    have "P i \<Longrightarrow> i \<le> j \<Longrightarrow> (\<forall>k. i \<le> k \<and> k < j \<longrightarrow> \<not> P k) \<Longrightarrow> j = i" by (metis le_less order_refl)
    then show ?thesis using False by (subst first_from.simps) auto
  qed
qed

lemma first_from_eq: "P j \<Longrightarrow> i \<le> j \<Longrightarrow> j < n \<Longrightarrow> (\<And>k. i \<le> k \<Longrightarrow> k < j \<Longrightarrow> \<not> P k) \<Longrightarrow> first_from P i n = Some j"
  by (simp add: first_from_Some)

lemma first_from_None: "first_from P i n = None \<longleftrightarrow> (\<forall>k. i \<le> k \<and> k < n \<longrightarrow> \<not> P k)"
proof (induction P i n rule: first_from.induct)
  case (1 P i n)
  show ?case
  proof (cases "i < n \<and> \<not> P i")
    case True
    then have "(\<forall>k. i + 1 \<le> k \<and> k < n \<longrightarrow> \<not> P k) \<longleftrightarrow> (\<forall>k. i \<le> k \<and> k < n \<longrightarrow> \<not> P k)"
      by (metis add1_zle_eq le_less)
    then show ?thesis using 1 True by (subst first_from.simps) auto
  next
    case False
    then show ?thesis by (subst first_from.simps) auto
  qed
qed

section \<open>The policies\<close>

type_synonym choice = "bool \<times> uint32 \<times> uint32"

definition firstHostPolicy_ChooseHost :: "'r LBHandle_scheme \<Rightarrow> choice" where
  "firstHostPolicy_ChooseHost lb = (if HealthyHostCount lb 0 = 0 then (False, 0, 0) else (True, 0, 0))"

text \<open>\<^verbatim>\<open>fnv.New32a\<close>: the 32-bit FNV-1a hash.\<close>

definition fnv32a :: "bytes \<Rightarrow> uint32" where
  "fnv32a s = foldl (\<lambda>h b. (h XOR of_nat (of_char b)) * 16777619) 2166136261 s"

definition headerHashPolicy_ChooseHost :: "'r LBHandle_scheme \<Rightarrow> LBContext \<Rightarrow> choice" where
  "headerHashPolicy_ChooseHost lb ctx =
     (let n = HealthyHostCount lb 0
      in if n = 0 then (False, 0, 0)
         else let (val, ok) = GetHeader ctx ''x-session-id''
              in if \<not> ok \<or> val = '''' then (True, 0, 0)
                 else (True, 0, word_of_int (uint (fnv32a val) mod n)))"

text \<open>The test of the metadata policy's loop.\<close>

definition has_capability :: "'r LBHandle_scheme \<Rightarrow> string \<Rightarrow> int \<Rightarrow> bool" where
  "has_capability lb required i =
     (let (cap, ok) = HostMetadataString lb 0 i ''envoy.lb'' ''capability'' in ok \<and> cap = required)"

definition metadataRoutePolicy_ChooseHost :: "'r LBHandle_scheme \<Rightarrow> LBContext \<Rightarrow> choice" where
  "metadataRoutePolicy_ChooseHost lb ctx =
     (let n = HealthyHostCount lb 0
      in if n = 0 then (False, 0, 0)
         else let (required, ok) = GetHeader ctx ''x-required-capability''
              in if \<not> ok \<or> required = '''' then (True, 0, 0)
                 else case first_from (has_capability lb required) 0 n of
                        Some i \<Rightarrow> (True, 0, word_of_int i)
                      | None \<Rightarrow> (True, 0, 0))"

text \<open>\<open>self\<close> is what the context's type assertion of the handle gives.\<close>

definition retryAwarePolicy_ChooseHost :: "nat option \<Rightarrow> 'r LBHandle_scheme \<Rightarrow> LBContext \<Rightarrow> choice" where
  "retryAwarePolicy_ChooseHost self lb ctx =
     (let n = HealthyHostCount lb 0
      in if n = 0 then (False, 0, 0)
         else case first_from (\<lambda>i. \<not> ShouldSelectAnotherHost ctx self 0 i) 0 n of
                Some i \<Rightarrow> (True, 0, word_of_int i)
              | None \<Rightarrow> (True, 0, 0))"

section \<open>The least-connections cluster\<close>

text \<open>\<open>unmarshal\<close> is \<^verbatim>\<open>json.Unmarshal\<close> into the configuration: the addresses and weights of the hosts.\<close>

fun hosts_of_config :: "nat \<Rightarrow> (string \<times> uint32) list \<Rightarrow> HostSpec list \<Rightarrow> string + HostSpec list" where
  "hosts_of_config i [] hosts = Inr hosts"
| "hosts_of_config i ((addr, w) # rest) hosts =
     (if addr = '''' then Inl (''cluster-least-conn: host '' @ Itoa i @ '' address is required'')
      else hosts_of_config (Suc i) rest (hosts @ [\<lparr>Address = addr, Hostname = '''', Weight = w, Metadata = []\<rparr>]))"

definition parseHosts :: "(bytes \<Rightarrow> string + (string \<times> uint32) list) \<Rightarrow> bytes \<Rightarrow> string + HostSpec list" where
  "parseHosts unmarshal config =
     (if config = [] then Inl ''cluster-least-conn: config must include at least one host''
      else case unmarshal config of
             Inl err \<Rightarrow> Inl (''cluster-least-conn: parse config: '' @ err)
           | Inr [] \<Rightarrow> Inl ''cluster-least-conn: config must include at least one host''
           | Inr hosts \<Rightarrow> hosts_of_config 0 hosts [])"

definition leastConnFactory_Create :: "(bytes \<Rightarrow> string + (string \<times> uint32) list) \<Rightarrow> bytes \<Rightarrow> string + HostSpec list" where
  "leastConnFactory_Create unmarshal config =
     (case parseHosts unmarshal config of Inl err \<Rightarrow> Inl err | Inr hosts \<Rightarrow> Inr hosts)"

datatype init_call = IAddHosts "HostSpec list" | IUpdateHostHealth HostPtr HostHealth | IPreInitComplete

text \<open>The pointers that \<open>Init\<close> keeps, and the calls it makes on the cluster's handle.\<close>

definition leastConnCluster_Init :: "(HostSpec list \<Rightarrow> HostPtr list) \<Rightarrow> HostSpec list \<Rightarrow> HostPtr list \<times> init_call list" where
  "leastConnCluster_Init add_hosts hosts =
     (let ptrs = add_hosts hosts
      in (ptrs, IAddHosts hosts # map (\<lambda>p. IUpdateHostHealth p HostHealthy) ptrs @ [IPreInitComplete]))"

function least_conn_scan :: "(int \<Rightarrow> uint64) \<Rightarrow> int \<Rightarrow> int \<Rightarrow> int \<Rightarrow> uint64 \<Rightarrow> int" where
  "least_conn_scan stat n i minIdx minActive =
     (if i < n
      then let active = stat i
           in if active < minActive then least_conn_scan stat n (i + 1) i active
              else least_conn_scan stat n (i + 1) minIdx minActive
      else minIdx)"
  by pat_completeness auto
termination by (relation "measure (\<lambda>(stat, n, i, mi, ma). nat (n - i))") auto

declare least_conn_scan.simps [simp del]

text \<open>The chosen host, null if there is none; there is never a completion.\<close>

definition leastConnClusterLB_ChooseHost :: "'r ClusterLBHandle_scheme \<Rightarrow> HostPtr" where
  "leastConnClusterLB_ChooseHost h =
     (let n = HostCount h 0
      in if n = 0 then 0
         else HostAt h 0 (least_conn_scan (\<lambda>i. HostStat h 0 i HostStatRqActive) n 1 0 (HostStat h 0 0 HostStatRqActive)))"

lemmas policy_defs = firstHostPolicy_ChooseHost_def headerHashPolicy_ChooseHost_def metadataRoutePolicy_ChooseHost_def
  retryAwarePolicy_ChooseHost_def

section \<open>What a choice means\<close>

text \<open>Envoy looks the index up among the healthy hosts of the priority.\<close>

definition chosen_host :: "priority_set \<Rightarrow> choice \<Rightarrow> envoy_host option" where
  "chosen_host ps ch = (case ch of (ok, p, i) \<Rightarrow>
     if ok \<and> unat i < length (healthy (ps p)) then Some (healthy (ps p) ! unat i) else None)"

text \<open>A valid choice is a healthy host of priority 0, or none if there is no healthy host there.\<close>

definition valid_choice :: "priority_set \<Rightarrow> choice \<Rightarrow> bool" where
  "valid_choice ps ch \<longleftrightarrow> (fst ch \<longleftrightarrow> healthy (ps 0) \<noteq> []) \<and> (fst ch \<longrightarrow> (\<exists>h\<in>set (healthy (ps 0)). chosen_host ps ch = Some h))"

lemma valid_choice_iff:
  "valid_choice ps (ok, 0, i) \<longleftrightarrow> (ok \<longleftrightarrow> healthy (ps 0) \<noteq> []) \<and> (ok \<longrightarrow> unat i < length (healthy (ps 0)))"
  by (auto simp: valid_choice_def chosen_host_def)

lemma unat_uint32_le: "0 \<le> i \<Longrightarrow> i < int n \<Longrightarrow> unat (word_of_int i :: uint32) < n"
  using zmod_le_nonneg_dividend [of i "2 ^ 32"]
  by (simp add: unat_eq_nat_uint uint_word_of_int nat_less_iff)

definition capability :: "envoy_host \<Rightarrow> string option" where
  "capability h = eh_metadata h ''envoy.lb'' ''capability''"

lemma least_conn_scan_min:
  assumes "0 \<le> mi" "mi < i" "ma = stat mi" "\<forall>k. 0 \<le> k \<and> k < i \<longrightarrow> ma \<le> stat k" "i \<le> n"
  shows "0 \<le> least_conn_scan stat n i mi ma \<and> least_conn_scan stat n i mi ma < n \<and>
    (\<forall>k. 0 \<le> k \<and> k < n \<longrightarrow> stat (least_conn_scan stat n i mi ma) \<le> stat k)"
  using assms
proof (induction stat n i mi ma rule: least_conn_scan.induct)
  case (1 stat n i mi ma)
  have step: "k < i + 1 \<longleftrightarrow> k < i \<or> k = i" for k by auto
  have nonneg: "0 \<le> i" using "1.prems" by simp
  show ?case
  proof (cases "i < n")
    case in_range: True
    show ?thesis
    proof (cases "stat i < ma")
      case True
      have "\<forall>k. 0 \<le> k \<and> k < i + 1 \<longrightarrow> stat i \<le> stat k"
        unfolding step using True "1.prems"(4) by (meson dual_order.strict_trans1 less_imp_le order_refl)
      moreover have "least_conn_scan stat n i mi ma = least_conn_scan stat n (i + 1) i (stat i)"
        using in_range True by (simp add: least_conn_scan.simps [of stat n i mi])
      ultimately show ?thesis using "1.IH"(1) [OF in_range refl True] in_range nonneg by simp
    next
      case False
      have "\<forall>k. 0 \<le> k \<and> k < i + 1 \<longrightarrow> ma \<le> stat k"
        unfolding step using False "1.prems"(4) by (meson not_less)
      moreover have "least_conn_scan stat n i mi ma = least_conn_scan stat n (i + 1) mi ma"
        using in_range False by (simp add: least_conn_scan.simps [of stat n i mi])
      ultimately show ?thesis using "1.IH"(2) [OF in_range refl False] in_range "1.prems" by simp
    qed
  next
    case False
    then have "least_conn_scan stat n i mi ma = mi" by (simp add: least_conn_scan.simps)
    then show ?thesis using "1.prems" False by auto
  qed
qed

context lb_interface
begin

lemma policies_choose_healthy:
  assumes "ok c ps"
  shows "valid_choice ps (firstHostPolicy_ChooseHost (handle c))"
    and "valid_choice ps (headerHashPolicy_ChooseHost (handle c) ctx)"
    and "valid_choice ps (metadataRoutePolicy_ChooseHost (handle c) ctx)"
    and "valid_choice ps (retryAwarePolicy_ChooseHost self (handle c) ctx)"
proof -
  note n = healthy_count [OF assms, of 0]
  show "valid_choice ps (firstHostPolicy_ChooseHost (handle c))"
    by (auto simp: firstHostPolicy_ChooseHost_def n valid_choice_iff)
  have "uint (fnv32a v) mod int (length (healthy (ps 0))) < int (length (healthy (ps 0)))" if "healthy (ps 0) \<noteq> []" for v
    using that by simp
  then show "valid_choice ps (headerHashPolicy_ChooseHost (handle c) ctx)"
    by (auto simp: headerHashPolicy_ChooseHost_def n valid_choice_iff Let_def split_beta intro!: unat_uint32_le)
  show "valid_choice ps (metadataRoutePolicy_ChooseHost (handle c) ctx)"
    by (auto simp: metadataRoutePolicy_ChooseHost_def n valid_choice_iff Let_def split_beta first_from_Some
        intro!: unat_uint32_le split: option.split)
  show "valid_choice ps (retryAwarePolicy_ChooseHost self (handle c) ctx)"
    by (auto simp: retryAwarePolicy_ChooseHost_def n valid_choice_iff Let_def first_from_Some
        intro!: unat_uint32_le split: option.split)
qed

text \<open>What the metadata policy sees of the host at an index: the capability of that host among all hosts.\<close>

lemma sees_capability:
  assumes "ok c ps" "int_range i"
  shows "has_capability (handle c) r i \<longleftrightarrow> (\<exists>h. at_int (ps 0) i = Some h \<and> capability h = Some r)"
  by (auto simp: has_capability_def metadata_string [OF assms] found_def capability_def bind_eq_Some_conv Let_def split_beta split: option.split)

lemma metadata_route_when_all_healthy:
  assumes "ok c ps" "healthy (ps 0) = ps 0" "length (ps 0) \<le> 2 ^ 32"
    and "GetHeader ctx ''x-required-capability'' = (r, True)" "r \<noteq> ''''" "\<exists>h\<in>set (ps 0). capability h = Some r"
  shows "chosen_host ps (metadataRoutePolicy_ChooseHost (handle c) ctx) = find (\<lambda>h. capability h = Some r) (ps 0)"
proof -
  let ?P = "has_capability (handle c) r"
  note n = healthy_count [OF assms(1), of 0, unfolded assms(2)]
  have P: "?P (int k) \<longleftrightarrow> capability (ps 0 ! k) = Some r" if "k < length (ps 0)" for k
    using that bounded [OF assms(1), of 0] by (subst sees_capability [OF assms(1)]) (auto simp: at_int_def int_range_def)
  have ne: "ps 0 \<noteq> []" using assms(6) by auto
  have "find (\<lambda>h. capability h = Some r) (ps 0) \<noteq> None" using assms(6) by (auto simp: find_None_iff)
  then obtain h where h: "find (\<lambda>h. capability h = Some r) (ps 0) = Some h" by auto
  then obtain j where j: "j < length (ps 0)" "capability (ps 0 ! j) = Some r" "h = ps 0 ! j"
      "\<forall>k<j. capability (ps 0 ! k) \<noteq> Some r"
    unfolding find_Some_iff by blast
  have before: "\<not> ?P k" if k: "0 \<le> k" "k < int j" for k
  proof -
    obtain l where "k = int l" by (rule nonneg_int_cases [OF k(1)])
    with k(2) have l: "k = int l" "l < j" by simp_all
    have "\<not> ?P (int l)" unfolding P [OF less_trans [OF l(2) j(1)]] using j(4) l(2) by blast
    then show ?thesis unfolding l(1) .
  qed
  have "first_from ?P 0 (int (length (ps 0))) = Some (int j)"
    by (rule first_from_eq) (use j(1) P [OF j(1)] j(2) before in auto)
  moreover have "unat (word_of_int (int j) :: uint32) = j" using j(1) assms(3) by (simp add: unat_of_nat)
  ultimately show ?thesis
    using h j assms(2,4,5) ne by (simp add: metadataRoutePolicy_ChooseHost_def n chosen_host_def)
qed

text \<open>An unhealthy host in front shifts the indices: its metadata selects the first healthy host.\<close>

lemma metadata_route_off_by_unhealthy:
  assumes "ok c ps" "ps 0 = u # hs" "eh_health u \<noteq> 2" "capability u = Some r" "healthy hs \<noteq> []"
    and "GetHeader ctx ''x-required-capability'' = (r, True)"
  shows "chosen_host ps (metadataRoutePolicy_ChooseHost (handle c) ctx) = Some (hd (healthy hs))"
proof -
  have hh: "healthy (ps 0) = healthy hs" using assms(2,3) by (simp add: healthy_def)
  have P: "has_capability (handle c) r 0"
    using assms(2,4) by (subst sees_capability [OF assms(1)]) (auto simp: at_int_def int_range_def)
  have "first_from (has_capability (handle c) r) 0 (int (length (healthy hs))) = Some 0"
    using P assms(5) by (subst first_from.simps) simp
  then show ?thesis
    using assms(5,6) by (simp add: metadataRoutePolicy_ChooseHost_def healthy_count [OF assms(1)] hh chosen_host_def hd_conv_nth)
qed

lemma retry_aware_off_by_unhealthy:
  assumes "ok c ps" "ps 0 = u # hs" "eh_health u \<noteq> 2" "healthy hs \<noteq> []" "\<not> ShouldSelectAnotherHost ctx self 0 0"
  shows "chosen_host ps (retryAwarePolicy_ChooseHost self (handle c) ctx) = Some (hd (healthy hs))"
proof -
  have hh: "healthy (ps 0) = healthy hs" using assms(2,3) by (simp add: healthy_def)
  have "first_from (\<lambda>i. \<not> ShouldSelectAnotherHost ctx self 0 i) 0 (int (length (healthy hs))) = Some 0"
    using assms(4,5) by (subst first_from.simps) simp
  then show ?thesis
    using assms(4) by (simp add: retryAwarePolicy_ChooseHost_def healthy_count [OF assms(1)] hh chosen_host_def hd_conv_nth)
qed

end

context cluster_lb_interface
begin

lemma least_conn_is_minimal:
  assumes "ok c ps"
  shows "(ps 0 = [] \<longrightarrow> leastConnClusterLB_ChooseHost (handle c) = 0) \<and>
    (ps 0 \<noteq> [] \<longrightarrow> (\<exists>h\<in>set (ps 0). leastConnClusterLB_ChooseHost (handle c) = eh_ptr h \<and>
       (\<forall>g\<in>set (ps 0). eh_stat h HostStatRqActive \<le> eh_stat g HostStatRqActive)))"
proof (cases "ps 0 = []")
  case False
  let ?s = "\<lambda>i. HostStat (handle c) 0 i HostStatRqActive" and ?n = "int (length (ps 0))"
  note n = host_count [OF assms, of 0]
  define j where "j = least_conn_scan ?s ?n 1 0 (?s 0)"
  have one: "1 \<le> ?n" using False by (cases "ps 0") auto
  have "0 \<le> j \<and> j < ?n \<and> (\<forall>k. 0 \<le> k \<and> k < ?n \<longrightarrow> ?s j \<le> ?s k)"
    unfolding j_def by (rule least_conn_scan_min) (use one in \<open>auto simp: zle_iff_zadd\<close>)
  then have j: "0 \<le> j" "j < ?n" "\<And>k. 0 \<le> k \<Longrightarrow> k < ?n \<Longrightarrow> ?s j \<le> ?s k" by auto
  have stat: "?s (int k) = eh_stat (ps 0 ! k) HostStatRqActive" if "k < length (ps 0)" for k
    using that bounded [OF assms, of 0] by (simp add: host_stat [OF assms] at_int_def int_range_def)
  obtain i where "j = int i" by (rule nonneg_int_cases [OF j(1)])
  with j(2) have i: "j = int i" "i < length (ps 0)" by simp_all
  have "leastConnClusterLB_ChooseHost (handle c) = eh_ptr (ps 0 ! i)"
    using False i bounded [OF assms, of 0]
    by (simp add: leastConnClusterLB_ChooseHost_def n j_def [symmetric] host_ptr [OF assms] at_int_def int_range_def)
  moreover have "eh_stat (ps 0 ! i) HostStatRqActive \<le> eh_stat (ps 0 ! k) HostStatRqActive" if "k < length (ps 0)" for k
    using j(3) [of "int k"] that i stat by simp
  ultimately show ?thesis using False i(2) by (metis in_set_conv_nth nth_mem)
qed (simp add: leastConnClusterLB_ChooseHost_def host_count [OF assms])

end

text \<open>A host set with an unhealthy host in front, and where Envoy keeps its strings.\<close>

definition demo_memory :: memory where
  "demo_memory p = (if p < 6 then ''cpugpu'' ! p else CHR 0x00)"

definition demo_place :: "string \<Rightarrow> envoy_buffer" where
  "demo_place s = (if s = ''cpu'' then buffer_at 0 s else if s = ''gpu'' then buffer_at 3 s else zero_buffer)"

definition demo_host :: "nat \<Rightarrow> health \<Rightarrow> uint64 \<Rightarrow> string \<Rightarrow> envoy_host" where
  "demo_host p health active cap = \<lparr>eh_ptr = p, eh_address = '''', eh_weight = 1, eh_health = health, eh_stat = (\<lambda>_. active),
     eh_metadata = (\<lambda>f k. if f = ''envoy.lb'' \<and> k = ''capability'' then Some cap else None)\<rparr>"

definition demo_ps :: priority_set where
  "demo_ps p = (if p = 0 then [demo_host 101 0 5 ''cpu'', demo_host 102 2 3 ''gpu'', demo_host 103 2 4 ''cpu''] else [])"

definition demo_calls :: lb_calls where
  "demo_calls = ps_calls demo_place '''' demo_ps"

definition demo_ctx :: ctx_calls where
  "demo_ctx = \<lparr>x_headers_size = 0, x_headers = (True, []),
     x_header = (\<lambda>k. if k = ''x-required-capability'' then (True, demo_place ''cpu'') else (False, zero_buffer)),
     x_override_host = (False, zero_buffer, False), x_hash_key = (False, 0), x_retry_count = 0,
     x_should_select_another = (\<lambda>_ _ _. False), x_filter_state = (\<lambda>_. (False, zero_buffer)),
     x_filter_state_typed = (\<lambda>_. (False, zero_buffer)), x_sni = (False, zero_buffer)\<rparr>"

lemma demo_strings:
  "envoyBufferToStringUnsafe demo_memory (demo_place ''cpu'') = ''cpu''"
  "envoyBufferToStringUnsafe demo_memory (demo_place ''gpu'') = ''gpu''"
  "envoyBufferToStringUnsafe demo_memory (demo_place '''') = ''''"
  by code_simp+

lemma demo_documented: "documented demo_memory demo_calls demo_ps"
  unfolding demo_calls_def
proof (rule ps_calls_documented)
  show "length (demo_ps p) < 2 ^ 63" for p by (simp add: demo_ps_def)
  show "placed demo_memory demo_place (demo_ps p)" for p
    by (auto simp: placed_def demo_ps_def demo_host_def demo_strings split: if_splits)
qed

lemma demo_header: "dymLBContext_GetHeader demo_memory demo_ctx ''x-required-capability'' = (''cpu'', True)"
  by (simp add: dymLBContext_GetHeader_def demo_ctx_def string_answer_def demo_strings)

section \<open>Properties\<close>

text \<open>C32. On a host set that Envoy reports as documented, each of the four policies declines exactly when
  priority 0 has no healthy host, and otherwise names a healthy host of priority 0: the hash of a header, the
  search for a capability and the search for an untried host never leave the bounds of the healthy list.\<close>

theorem policies_choose_a_healthy_host:
  assumes "documented m c ps"
  shows "valid_choice ps (firstHostPolicy_ChooseHost (dymLBHandle m c)) \<and>
    valid_choice ps (headerHashPolicy_ChooseHost (dymLBHandle m c) ctx) \<and>
    valid_choice ps (metadataRoutePolicy_ChooseHost (dymLBHandle m c) ctx) \<and>
    valid_choice ps (retryAwarePolicy_ChooseHost self (dymLBHandle m c) ctx)"
  using policy_view.policies_choose_healthy [of "(m, c)"] assms by simp

theorem policies_choose_a_healthy_host_witness:
  "valid_choice demo_ps (headerHashPolicy_ChooseHost (dymLBHandle demo_memory demo_calls) (dymLBContext demo_memory demo_ctx))"
  using policies_choose_a_healthy_host [OF demo_documented] by blast

text \<open>The least-connections balancer answers no host when there is none and otherwise a host whose number
  of active requests is minimal among all hosts of priority 0.\<close>

lemma least_conn_chooses_minimum:
  assumes "documented m c ps"
  shows "(ps 0 = [] \<longrightarrow> leastConnClusterLB_ChooseHost (dymClusterLBHandle m c) = 0) \<and>
    (ps 0 \<noteq> [] \<longrightarrow> (\<exists>h\<in>set (ps 0). leastConnClusterLB_ChooseHost (dymClusterLBHandle m c) = eh_ptr h \<and>
       (\<forall>g\<in>set (ps 0). eh_stat h HostStatRqActive \<le> eh_stat g HostStatRqActive)))"
  using cluster_view.least_conn_is_minimal [of "(m, c)"] assms by simp

lemma least_conn_chooses_minimum_example:
  "leastConnClusterLB_ChooseHost (dymClusterLBHandle demo_memory demo_calls) = 102"
  using least_conn_chooses_minimum [OF demo_documented] by (auto simp: demo_ps_def demo_host_def)

text \<open>The metadata policy mixes two index spaces: it reads the capability of the host at an index among all
  hosts and answers that index, which Envoy takes among the healthy hosts. When the first host is unhealthy
  and has the required capability, the request goes to the first healthy host, whatever that one can do.\<close>

lemma metadata_route_misroutes:
  assumes "documented m c ps" "ps 0 = u # hs" "eh_health u \<noteq> 2" "capability u = Some r" "healthy hs \<noteq> []"
    and "dymLBContext_GetHeader m x ''x-required-capability'' = (r, True)"
  shows "chosen_host ps (metadataRoutePolicy_ChooseHost (dymLBHandle m c) (dymLBContext m x)) = Some (hd (healthy hs))"
  using policy_view.metadata_route_off_by_unhealthy [of "(m, c)" ps u hs r "dymLBContext m x"] assms
  by (simp add: dymLBContext_def)

lemma metadata_route_misroutes_example:
  "map_option capability (chosen_host demo_ps
     (metadataRoutePolicy_ChooseHost (dymLBHandle demo_memory demo_calls) (dymLBContext demo_memory demo_ctx))) = Some (Some ''gpu'') \<and>
   dymLBContext_GetHeader demo_memory demo_ctx ''x-required-capability'' = (''cpu'', True)"
proof -
  let ?hs = "[demo_host 102 2 3 ''gpu'', demo_host 103 2 4 ''cpu'']"
  have "chosen_host demo_ps (metadataRoutePolicy_ChooseHost (dymLBHandle demo_memory demo_calls) (dymLBContext demo_memory demo_ctx)) =
      Some (hd (healthy ?hs))"
    by (rule metadata_route_misroutes [OF demo_documented _ _ _ _ demo_header, of "demo_host 101 0 5 ''cpu''"])
      (simp_all add: demo_ps_def demo_host_def capability_def healthy_def)
  then show ?thesis using demo_header by (simp add: demo_host_def healthy_def capability_def)
qed

text \<open>Without unhealthy hosts the policy does what it is meant to: the first host with the capability is chosen.\<close>

lemma metadata_route_correct:
  assumes "documented m c ps" "healthy (ps 0) = ps 0" "length (ps 0) \<le> 2 ^ 32"
    and "dymLBContext_GetHeader m x ''x-required-capability'' = (r, True)" "r \<noteq> ''''" "\<exists>h\<in>set (ps 0). capability h = Some r"
  shows "chosen_host ps (metadataRoutePolicy_ChooseHost (dymLBHandle m c) (dymLBContext m x)) =
    find (\<lambda>h. capability h = Some r) (ps 0)"
  using policy_view.metadata_route_when_all_healthy [of "(m, c)" ps "dymLBContext m x" r] assms
  by (simp add: dymLBContext_def)

end
