(* ===== verification/Cluster_Metrics.thy ===== *)
theory Cluster_Metrics
  imports Registries
begin

text \<open>
  Metrics of clusters and access loggers: the calls that \<open>dymClusterMetricsHandle\<close>
  (\<^verbatim>\<open>src/down/abi_impl/cluster.go\<close>) and \<open>dymAccessLoggerConfigHandle\<close> (\<^verbatim>\<open>src/down/abi_impl/access_logger.go\<close>)
  make, the adapters of the public API that turn result codes into errors (\<^verbatim>\<open>src/up/cluster.go\<close>,
  \<^verbatim>\<open>src/up/access_logger.go\<close>) and the recording handle for tests (\<^verbatim>\<open>src/up/testutil/testutil.go\<close>). The interface
  \<open>ClusterMetricsHandle\<close> is a record of operations on a state. The SDK's success code is a constructor, its
  other codes are numbers.
\<close>

type_synonym MetricID = uint64

datatype metrics_result = MetricsSuccess | MetricsResult nat

text \<open>The result codes as \<^verbatim>\<open>%d\<close> prints them; \<open>code\<close> numbers the SDK's constants.\<close>

section \<open>The interface\<close>

record 's metrics_handle =
  mh_DefineCounter :: "string \<Rightarrow> string list \<Rightarrow> 's \<Rightarrow> (MetricID \<times> metrics_result) \<times> 's"
  mh_DefineGauge :: "string \<Rightarrow> string list \<Rightarrow> 's \<Rightarrow> (MetricID \<times> metrics_result) \<times> 's"
  mh_DefineHistogram :: "string \<Rightarrow> string list \<Rightarrow> 's \<Rightarrow> (MetricID \<times> metrics_result) \<times> 's"
  mh_IncrementCounterValue :: "MetricID \<Rightarrow> uint64 \<Rightarrow> string list \<Rightarrow> 's \<Rightarrow> metrics_result \<times> 's"
  mh_SetGaugeValue :: "MetricID \<Rightarrow> uint64 \<Rightarrow> string list \<Rightarrow> 's \<Rightarrow> metrics_result \<times> 's"
  mh_IncrementGaugeValue :: "MetricID \<Rightarrow> uint64 \<Rightarrow> string list \<Rightarrow> 's \<Rightarrow> metrics_result \<times> 's"
  mh_DecrementGaugeValue :: "MetricID \<Rightarrow> uint64 \<Rightarrow> string list \<Rightarrow> 's \<Rightarrow> metrics_result \<times> 's"
  mh_RecordHistogramValue :: "MetricID \<Rightarrow> uint64 \<Rightarrow> string list \<Rightarrow> 's \<Rightarrow> metrics_result \<times> 's"

section \<open>The handle over Envoy's calls\<close>

text \<open>The label array of a call: the null pointer for no labels.\<close>

type_synonym labels = "string list option"

definition stringsToLabelBuffers :: "string list \<Rightarrow> labels" where
  "stringsToLabelBuffers ss = (if ss = [] then None else Some ss)"

datatype define_kind = Counter | Gauge | Histogram
datatype record_kind = IncCounter | SetGaugeTo | IncGauge | DecGauge | RecHistogram

record 's metrics_calls =
  mc_define :: "define_kind \<Rightarrow> nat \<Rightarrow> string \<Rightarrow> labels \<Rightarrow> nat \<Rightarrow> 's \<Rightarrow> (metrics_result \<times> MetricID) \<times> 's"
  mc_record :: "record_kind \<Rightarrow> nat \<Rightarrow> MetricID \<Rightarrow> labels \<Rightarrow> nat \<Rightarrow> uint64 \<Rightarrow> 's \<Rightarrow> metrics_result \<times> 's"
  mc_logger_define :: "define_kind \<Rightarrow> nat \<Rightarrow> string \<Rightarrow> 's \<Rightarrow> (metrics_result \<times> MetricID) \<times> 's"

definition dym_DefineCounter :: "'s metrics_calls \<Rightarrow> nat \<Rightarrow> string \<Rightarrow> string list \<Rightarrow> 's \<Rightarrow> (MetricID \<times> metrics_result) \<times> 's" where
  "dym_DefineCounter c configPtr name tagKeys s =
     (let labelPtr = stringsToLabelBuffers tagKeys;
          ((result, i), s) = mc_define c Counter configPtr name labelPtr (length tagKeys) s in ((i, result), s))"

definition dym_DefineGauge :: "'s metrics_calls \<Rightarrow> nat \<Rightarrow> string \<Rightarrow> string list \<Rightarrow> 's \<Rightarrow> (MetricID \<times> metrics_result) \<times> 's" where
  "dym_DefineGauge c configPtr name tagKeys s =
     (let labelPtr = stringsToLabelBuffers tagKeys;
          ((result, i), s) = mc_define c Gauge configPtr name labelPtr (length tagKeys) s in ((i, result), s))"

definition dym_DefineHistogram :: "'s metrics_calls \<Rightarrow> nat \<Rightarrow> string \<Rightarrow> string list \<Rightarrow> 's \<Rightarrow> (MetricID \<times> metrics_result) \<times> 's" where
  "dym_DefineHistogram c configPtr name tagKeys s =
     (let labelPtr = stringsToLabelBuffers tagKeys;
          ((result, i), s) = mc_define c Histogram configPtr name labelPtr (length tagKeys) s in ((i, result), s))"

definition dym_IncrementCounterValue :: "'s metrics_calls \<Rightarrow> nat \<Rightarrow> MetricID \<Rightarrow> uint64 \<Rightarrow> string list \<Rightarrow> 's \<Rightarrow> metrics_result \<times> 's" where
  "dym_IncrementCounterValue c configPtr i v labelValues s =
     mc_record c IncCounter configPtr i (stringsToLabelBuffers labelValues) (length labelValues) v s"

definition dym_SetGaugeValue :: "'s metrics_calls \<Rightarrow> nat \<Rightarrow> MetricID \<Rightarrow> uint64 \<Rightarrow> string list \<Rightarrow> 's \<Rightarrow> metrics_result \<times> 's" where
  "dym_SetGaugeValue c configPtr i v labelValues s =
     mc_record c SetGaugeTo configPtr i (stringsToLabelBuffers labelValues) (length labelValues) v s"

definition dym_IncrementGaugeValue :: "'s metrics_calls \<Rightarrow> nat \<Rightarrow> MetricID \<Rightarrow> uint64 \<Rightarrow> string list \<Rightarrow> 's \<Rightarrow> metrics_result \<times> 's" where
  "dym_IncrementGaugeValue c configPtr i v labelValues s =
     mc_record c IncGauge configPtr i (stringsToLabelBuffers labelValues) (length labelValues) v s"

definition dym_DecrementGaugeValue :: "'s metrics_calls \<Rightarrow> nat \<Rightarrow> MetricID \<Rightarrow> uint64 \<Rightarrow> string list \<Rightarrow> 's \<Rightarrow> metrics_result \<times> 's" where
  "dym_DecrementGaugeValue c configPtr i v labelValues s =
     mc_record c DecGauge configPtr i (stringsToLabelBuffers labelValues) (length labelValues) v s"

definition dym_RecordHistogramValue :: "'s metrics_calls \<Rightarrow> nat \<Rightarrow> MetricID \<Rightarrow> uint64 \<Rightarrow> string list \<Rightarrow> 's \<Rightarrow> metrics_result \<times> 's" where
  "dym_RecordHistogramValue c configPtr i v labelValues s =
     mc_record c RecHistogram configPtr i (stringsToLabelBuffers labelValues) (length labelValues) v s"

definition dymClusterMetricsHandle :: "'s metrics_calls \<Rightarrow> nat \<Rightarrow> 's metrics_handle" where
  "dymClusterMetricsHandle c configPtr =
    \<lparr>mh_DefineCounter = dym_DefineCounter c configPtr, mh_DefineGauge = dym_DefineGauge c configPtr,
     mh_DefineHistogram = dym_DefineHistogram c configPtr,
     mh_IncrementCounterValue = dym_IncrementCounterValue c configPtr, mh_SetGaugeValue = dym_SetGaugeValue c configPtr,
     mh_IncrementGaugeValue = dym_IncrementGaugeValue c configPtr, mh_DecrementGaugeValue = dym_DecrementGaugeValue c configPtr,
     mh_RecordHistogramValue = dym_RecordHistogramValue c configPtr\<rparr>"

text \<open>The handle of an access logger takes tag keys and passes none of them on.\<close>

definition logger_DefineCounter :: "'s metrics_calls \<Rightarrow> nat \<Rightarrow> string \<Rightarrow> string list \<Rightarrow> 's \<Rightarrow> (MetricID \<times> metrics_result) \<times> 's" where
  "logger_DefineCounter c configPtr name _ s =
     (let ((result, i), s) = mc_logger_define c Counter configPtr name s in ((i, result), s))"

definition logger_DefineGauge :: "'s metrics_calls \<Rightarrow> nat \<Rightarrow> string \<Rightarrow> string list \<Rightarrow> 's \<Rightarrow> (MetricID \<times> metrics_result) \<times> 's" where
  "logger_DefineGauge c configPtr name _ s =
     (let ((result, i), s) = mc_logger_define c Gauge configPtr name s in ((i, result), s))"

definition logger_DefineHistogram :: "'s metrics_calls \<Rightarrow> nat \<Rightarrow> string \<Rightarrow> string list \<Rightarrow> 's \<Rightarrow> (MetricID \<times> metrics_result) \<times> 's" where
  "logger_DefineHistogram c configPtr name _ s =
     (let ((result, i), s) = mc_logger_define c Histogram configPtr name s in ((i, result), s))"

section \<open>The adapters of the public API\<close>

text \<open>\<open>show_code\<close> prints a result code; names print as \<^verbatim>\<open>%q\<close> prints them, \<open>quote_str\<close>.\<close>

record printers =
  show_code :: "metrics_result \<Rightarrow> string"
  quote_str :: "string \<Rightarrow> string"

type_synonym go_error = string

definition define_error :: "printers \<Rightarrow> string \<Rightarrow> string \<Rightarrow> metrics_result \<Rightarrow> go_error" where
  "define_error pr what name res =
     ''up: '' @ what @ '' '' @ quote_str pr name @ '' failed (result='' @ show_code pr res @ '')''"

definition record_error :: "printers \<Rightarrow> string \<Rightarrow> MetricID \<Rightarrow> metrics_result \<Rightarrow> go_error" where
  "record_error pr what i res = ''up: '' @ what @ '' id='' @ Itoa (unat i) @ '' failed (result='' @ show_code pr res @ '')''"

text \<open>A failed definition gives the id 0 and the error.\<close>

definition adapt_define :: "printers \<Rightarrow> string \<Rightarrow> string \<Rightarrow> (MetricID \<times> metrics_result) \<times> 's \<Rightarrow> (MetricID \<times> go_error option) \<times> 's" where
  "adapt_define pr what name r =
     (let ((i, res), s) = r in if res \<noteq> MetricsSuccess then ((0, Some (define_error pr what name res)), s) else ((i, None), s))"

definition adapt_record :: "printers \<Rightarrow> string \<Rightarrow> MetricID \<Rightarrow> metrics_result \<times> 's \<Rightarrow> go_error option \<times> 's" where
  "adapt_record pr what i r = (let (res, s) = r in (if res \<noteq> MetricsSuccess then Some (record_error pr what i res) else None, s))"

definition adapter_DefineCounter :: "printers \<Rightarrow> 's metrics_handle \<Rightarrow> string \<Rightarrow> string list \<Rightarrow> 's \<Rightarrow> (MetricID \<times> go_error option) \<times> 's" where
  "adapter_DefineCounter pr h name tagKeys s = adapt_define pr ''DefineCounter'' name (mh_DefineCounter h name tagKeys s)"

definition adapter_DefineGauge :: "printers \<Rightarrow> 's metrics_handle \<Rightarrow> string \<Rightarrow> string list \<Rightarrow> 's \<Rightarrow> (MetricID \<times> go_error option) \<times> 's" where
  "adapter_DefineGauge pr h name tagKeys s = adapt_define pr ''DefineGauge'' name (mh_DefineGauge h name tagKeys s)"

definition adapter_DefineHistogram :: "printers \<Rightarrow> 's metrics_handle \<Rightarrow> string \<Rightarrow> string list \<Rightarrow> 's \<Rightarrow> (MetricID \<times> go_error option) \<times> 's" where
  "adapter_DefineHistogram pr h name tagKeys s = adapt_define pr ''DefineHistogram'' name (mh_DefineHistogram h name tagKeys s)"

definition adapter_IncrementCounter :: "printers \<Rightarrow> 's metrics_handle \<Rightarrow> MetricID \<Rightarrow> uint64 \<Rightarrow> string list \<Rightarrow> 's \<Rightarrow> go_error option \<times> 's" where
  "adapter_IncrementCounter pr h i delta labels s = adapt_record pr ''IncrementCounter'' i (mh_IncrementCounterValue h i delta labels s)"

definition adapter_SetGauge :: "printers \<Rightarrow> 's metrics_handle \<Rightarrow> MetricID \<Rightarrow> uint64 \<Rightarrow> string list \<Rightarrow> 's \<Rightarrow> go_error option \<times> 's" where
  "adapter_SetGauge pr h i v labels s = adapt_record pr ''SetGauge'' i (mh_SetGaugeValue h i v labels s)"

definition adapter_IncrementGauge :: "printers \<Rightarrow> 's metrics_handle \<Rightarrow> MetricID \<Rightarrow> uint64 \<Rightarrow> string list \<Rightarrow> 's \<Rightarrow> go_error option \<times> 's" where
  "adapter_IncrementGauge pr h i delta labels s = adapt_record pr ''IncrementGauge'' i (mh_IncrementGaugeValue h i delta labels s)"

definition adapter_DecrementGauge :: "printers \<Rightarrow> 's metrics_handle \<Rightarrow> MetricID \<Rightarrow> uint64 \<Rightarrow> string list \<Rightarrow> 's \<Rightarrow> go_error option \<times> 's" where
  "adapter_DecrementGauge pr h i delta labels s = adapt_record pr ''DecrementGauge'' i (mh_DecrementGaugeValue h i delta labels s)"

definition adapter_RecordHistogram :: "printers \<Rightarrow> 's metrics_handle \<Rightarrow> MetricID \<Rightarrow> uint64 \<Rightarrow> string list \<Rightarrow> 's \<Rightarrow> go_error option \<times> 's" where
  "adapter_RecordHistogram pr h i v labels s = adapt_record pr ''RecordHistogram'' i (mh_RecordHistogramValue h i v labels s)"

text \<open>The adapter around an access logger's handle is the same code over another handle.\<close>

definition loggerConfig_DefineCounter :: "printers \<Rightarrow> 's metrics_calls \<Rightarrow> nat \<Rightarrow> string \<Rightarrow> string list \<Rightarrow> 's \<Rightarrow> (MetricID \<times> go_error option) \<times> 's" where
  "loggerConfig_DefineCounter pr c p name tagKeys s = adapt_define pr ''DefineCounter'' name (logger_DefineCounter c p name tagKeys s)"

definition loggerConfig_DefineGauge :: "printers \<Rightarrow> 's metrics_calls \<Rightarrow> nat \<Rightarrow> string \<Rightarrow> string list \<Rightarrow> 's \<Rightarrow> (MetricID \<times> go_error option) \<times> 's" where
  "loggerConfig_DefineGauge pr c p name tagKeys s = adapt_define pr ''DefineGauge'' name (logger_DefineGauge c p name tagKeys s)"

definition loggerConfig_DefineHistogram :: "printers \<Rightarrow> 's metrics_calls \<Rightarrow> nat \<Rightarrow> string \<Rightarrow> string list \<Rightarrow> 's \<Rightarrow> (MetricID \<times> go_error option) \<times> 's" where
  "loggerConfig_DefineHistogram pr c p name tagKeys s = adapt_define pr ''DefineHistogram'' name (logger_DefineHistogram c p name tagKeys s)"

text \<open>Tag keys have no effect on the metrics of an access logger.\<close>

lemma logger_tags_are_dropped:
  "loggerConfig_DefineCounter pr c p name tags s = loggerConfig_DefineCounter pr c p name [] s"
  "loggerConfig_DefineGauge pr c p name tags s = loggerConfig_DefineGauge pr c p name [] s"
  "loggerConfig_DefineHistogram pr c p name tags s = loggerConfig_DefineHistogram pr c p name [] s"
  by (simp_all add: loggerConfig_DefineCounter_def loggerConfig_DefineGauge_def loggerConfig_DefineHistogram_def
      logger_DefineCounter_def logger_DefineGauge_def logger_DefineHistogram_def)

section \<open>Registration of a cluster of the public API\<close>

text \<open>
  A factory of the public API may also implement \<open>CreateWithMetrics\<close>; what the ABI layer gets has
  \<open>CreateWithMetrics\<close> exactly when it does, over the adapted metrics handle.
\<close>

record ('m, 'r) up_factory =
  uf_Create :: "bytes \<Rightarrow> go_error + 'r"
  uf_CreateWithMetrics :: "('m \<Rightarrow> bytes \<Rightarrow> go_error + 'r) option"

record ('h, 'r) down_factory =
  df_Create :: "bytes \<Rightarrow> go_error + 'r"
  df_CreateWithMetrics :: "('h \<Rightarrow> bytes \<Rightarrow> go_error + 'r) option"

definition upClusterFactoryWithMetricsAdapter :: "('h \<Rightarrow> 'm) \<Rightarrow> ('m, 'r) up_factory \<Rightarrow> ('m \<Rightarrow> bytes \<Rightarrow> go_error + 'r) \<Rightarrow> ('h, 'r) down_factory" where
  "upClusterFactoryWithMetricsAdapter clusterMetricsAdapter f withMetrics =
     \<lparr>df_Create = uf_Create f, df_CreateWithMetrics = Some (\<lambda>metrics. withMetrics (clusterMetricsAdapter metrics))\<rparr>"

definition up_RegisterCluster :: "('h \<Rightarrow> 'm) \<Rightarrow> string \<Rightarrow> ('m, 'r) up_factory \<Rightarrow> ('h, 'r) down_factory registry_map \<Rightarrow>
    ('h, 'r) down_factory registry_map outcome" where
  "up_RegisterCluster clusterMetricsAdapter name f m =
     (case uf_CreateWithMetrics f of
        Some fwm \<Rightarrow> RegisterCluster name (upClusterFactoryWithMetricsAdapter clusterMetricsAdapter f fwm) m
      | None \<Rightarrow> RegisterCluster name \<lparr>df_Create = uf_Create f, df_CreateWithMetrics = None\<rparr> m)"

lemma registered_cluster_is_found:
  assumes "up_RegisterCluster a name f m = Inr m'"
  shows "\<exists>d. GetClusterFactory name m' = Some d \<and> df_Create d = uf_Create f \<and>
    (df_CreateWithMetrics d = None \<longleftrightarrow> uf_CreateWithMetrics f = None)"
  using assms by (auto simp: up_RegisterCluster_def upClusterFactoryWithMetricsAdapter_def
      cluster_registry.lookup_register split: option.splits)

section \<open>The recording handle for tests\<close>

record MetricRecord =
  mr_ID :: MetricID
  mr_Value :: uint64
  mr_Labels :: "string list"

record FakeClusterMetricsHandle =
  fm_nextID :: MetricID
  fm_Counters :: "MetricRecord list"
  fm_Gauges :: "MetricRecord list"
  fm_Histograms :: "MetricRecord list"

definition new_fake_metrics :: FakeClusterMetricsHandle where
  "new_fake_metrics = \<lparr>fm_nextID = 0, fm_Counters = [], fm_Gauges = [], fm_Histograms = []\<rparr>"

definition allocID :: "FakeClusterMetricsHandle \<Rightarrow> MetricID \<times> FakeClusterMetricsHandle" where
  "allocID h = (let h = h\<lparr>fm_nextID := fm_nextID h + 1\<rparr> in (fm_nextID h, h))"

definition fake_define :: "string \<Rightarrow> string list \<Rightarrow> FakeClusterMetricsHandle \<Rightarrow> (MetricID \<times> metrics_result) \<times> FakeClusterMetricsHandle" where
  "fake_define _ _ h = (let (i, h) = allocID h in ((i, MetricsSuccess), h))"

definition fake_IncrementCounterValue :: "MetricID \<Rightarrow> uint64 \<Rightarrow> string list \<Rightarrow> FakeClusterMetricsHandle \<Rightarrow> metrics_result \<times> FakeClusterMetricsHandle" where
  "fake_IncrementCounterValue i v ls h = (MetricsSuccess, h\<lparr>fm_Counters := fm_Counters h @ [\<lparr>mr_ID = i, mr_Value = v, mr_Labels = ls\<rparr>]\<rparr>)"

definition fake_SetGaugeValue :: "MetricID \<Rightarrow> uint64 \<Rightarrow> string list \<Rightarrow> FakeClusterMetricsHandle \<Rightarrow> metrics_result \<times> FakeClusterMetricsHandle" where
  "fake_SetGaugeValue i v ls h = (MetricsSuccess, h\<lparr>fm_Gauges := fm_Gauges h @ [\<lparr>mr_ID = i, mr_Value = v, mr_Labels = ls\<rparr>]\<rparr>)"

definition fake_IncrementGaugeValue :: "MetricID \<Rightarrow> uint64 \<Rightarrow> string list \<Rightarrow> FakeClusterMetricsHandle \<Rightarrow> metrics_result \<times> FakeClusterMetricsHandle" where
  "fake_IncrementGaugeValue i v ls h = (MetricsSuccess, h\<lparr>fm_Gauges := fm_Gauges h @ [\<lparr>mr_ID = i, mr_Value = v, mr_Labels = ls\<rparr>]\<rparr>)"

definition fake_DecrementGaugeValue :: "MetricID \<Rightarrow> uint64 \<Rightarrow> string list \<Rightarrow> FakeClusterMetricsHandle \<Rightarrow> metrics_result \<times> FakeClusterMetricsHandle" where
  "fake_DecrementGaugeValue i v ls h = (MetricsSuccess, h\<lparr>fm_Gauges := fm_Gauges h @ [\<lparr>mr_ID = i, mr_Value = v, mr_Labels = ls\<rparr>]\<rparr>)"

definition fake_RecordHistogramValue :: "MetricID \<Rightarrow> uint64 \<Rightarrow> string list \<Rightarrow> FakeClusterMetricsHandle \<Rightarrow> metrics_result \<times> FakeClusterMetricsHandle" where
  "fake_RecordHistogramValue i v ls h = (MetricsSuccess, h\<lparr>fm_Histograms := fm_Histograms h @ [\<lparr>mr_ID = i, mr_Value = v, mr_Labels = ls\<rparr>]\<rparr>)"

definition fake_metrics :: "FakeClusterMetricsHandle metrics_handle" where
  "fake_metrics =
    \<lparr>mh_DefineCounter = fake_define, mh_DefineGauge = fake_define, mh_DefineHistogram = fake_define,
     mh_IncrementCounterValue = fake_IncrementCounterValue, mh_SetGaugeValue = fake_SetGaugeValue,
     mh_IncrementGaugeValue = fake_IncrementGaugeValue, mh_DecrementGaugeValue = fake_DecrementGaugeValue,
     mh_RecordHistogramValue = fake_RecordHistogramValue\<rparr>"

text \<open>The records of a test cannot tell an increment of a gauge from a decrement or from an assignment.\<close>

lemma fake_gauges_lose_the_operation:
  "fake_IncrementGaugeValue = fake_DecrementGaugeValue" "fake_IncrementGaugeValue = fake_SetGaugeValue"
  by (simp_all add: fun_eq_iff fake_IncrementGaugeValue_def fake_DecrementGaugeValue_def fake_SetGaugeValue_def)

section \<open>The contract of a metrics handle\<close>

text \<open>
  What a cluster relies on when it defines its metrics at configuration time and records later: the ids of
  the definitions that succeed are distinct, as long as ids last.
\<close>

locale metric_definitions =
  fixes new_metric :: "string \<Rightarrow> string list \<Rightarrow> 's \<Rightarrow> (MetricID \<times> metrics_result) \<times> 's"
    and used :: "'s \<Rightarrow> MetricID set"
    and room :: "nat \<Rightarrow> 's \<Rightarrow> bool"
  assumes define_fresh: "room (Suc k) s \<Longrightarrow> new_metric n ts s = ((i, MetricsSuccess), s') \<Longrightarrow>
    i \<notin> used s \<and> used s' = insert i (used s) \<and> room k s'"
begin

fun define_all :: "printers \<Rightarrow> (string \<times> string list) list \<Rightarrow> 's \<Rightarrow> (go_error + MetricID list) \<times> 's" where
  "define_all pr [] s = (Inr [], s)"
| "define_all pr ((n, ts) # ds) s =
     (let ((i, err), s) = adapt_define pr ''DefineCounter'' n (new_metric n ts s)
      in case err of
           Some e \<Rightarrow> (Inl e, s)
         | None \<Rightarrow> (case define_all pr ds s of (Inl e, s) \<Rightarrow> (Inl e, s) | (Inr is, s) \<Rightarrow> (Inr (i # is), s)))"

lemma define_all_distinct:
  "room (length ds) s \<Longrightarrow> define_all pr ds s = (Inr is, s') \<Longrightarrow>
     distinct is \<and> set is \<inter> used s = {} \<and> used s' = used s \<union> set is \<and> length is = length ds"
proof (induction ds arbitrary: s "is")
  case (Cons d ds)
  obtain n ts where d: "d = (n, ts)" by (cases d)
  from Cons.prems(2) obtain i t js where i: "new_metric n ts s = ((i, MetricsSuccess), t)"
      and js: "define_all pr ds t = (Inr js, s')" and eq: "is = i # js"
    by (auto simp: d adapt_define_def Let_def split: prod.splits option.splits if_splits sum.splits)
  have room: "room (Suc (length ds)) s" using Cons.prems(1) by simp
  show ?case using define_fresh [OF room i] Cons.IH [OF _ js] by (auto simp: eq)
qed simp

end

definition fake_used :: "FakeClusterMetricsHandle \<Rightarrow> MetricID set" where
  "fake_used h = {i. 0 < i \<and> i \<le> fm_nextID h}"

definition fake_room :: "nat \<Rightarrow> FakeClusterMetricsHandle \<Rightarrow> bool" where
  "fake_room k h \<longleftrightarrow> unat (fm_nextID h) + k < 2 ^ 64"

interpretation fake_defs: metric_definitions fake_define fake_used fake_room
proof unfold_locales
  fix k s n ts i s'
  assume room: "fake_room (Suc k) s" and def: "fake_define n ts s = ((i, MetricsSuccess), s')"
  let ?j = "fm_nextID s"
  have u: "unat (?j + 1) = Suc (unat ?j)" using room by (simp add: fake_room_def unat_word_ariths)
  have i: "i = ?j + 1" "fm_nextID s' = ?j + 1"
    using def by (auto simp: fake_define_def allocID_def Let_def)
  have "x \<le> ?j + 1 \<longleftrightarrow> x \<le> ?j \<or> x = ?j + 1" for x
    using u by (auto simp: word_le_nat_alt word_unat_eq_iff le_Suc_eq)
  moreover have "\<not> ?j + 1 \<le> ?j" "0 < ?j + 1" using u by (simp_all add: word_le_nat_alt word_less_nat_alt)
  ultimately show "i \<notin> fake_used s \<and> fake_used s' = insert i (fake_used s) \<and> fake_room k s'"
    using room u by (auto simp: fake_used_def fake_room_def i)
qed

lemma fake_ids_are_distinct:
  assumes "length ds < 2 ^ 64" "fake_defs.define_all pr ds new_fake_metrics = (Inr is, h)"
  shows "distinct is \<and> length is = length ds"
  using fake_defs.define_all_distinct [OF _ assms(2)] assms(1) by (simp add: fake_room_def new_fake_metrics_def)

end
