(* ===== verification/Logger_Views.thy ===== *)
theory Logger_Views
  imports Envoy_Buffers
begin

text \<open>
  What an access logger sees of a finished stream: the handle over Envoy's calls (\<open>dymAccessLoggerHandle\<close> in
  \<^verbatim>\<open>src/down/abi_impl/access_logger.go\<close>) and the adapter that gives it to loggers of the public API
  (\<open>accessLoggerHandleAdapter\<close> in \<^verbatim>\<open>src/up/access_logger.go\<close>). A 64-bit C integer becomes a Go \<open>int64\<close> by
  reinterpretation and a \<open>uint32\<close> by truncation.
\<close>

record c_timing_info =
  start_time_unix_ns :: uint64
  request_complete_duration_ns :: uint64
  first_upstream_tx_byte_sent_ns :: uint64
  last_upstream_tx_byte_sent_ns :: uint64
  first_upstream_rx_byte_received_ns :: uint64
  last_upstream_rx_byte_received_ns :: uint64
  first_downstream_tx_byte_sent_ns :: uint64
  last_downstream_tx_byte_sent_ns :: uint64

record TimingInfo =
  StartTimeUnixNs :: int
  RequestCompleteDurationNs :: int
  FirstUpstreamTxByteSentNs :: int
  LastUpstreamTxByteSentNs :: int
  FirstUpstreamRxByteReceivedNs :: int
  LastUpstreamRxByteReceivedNs :: int
  FirstDownstreamTxByteSentNs :: int
  LastDownstreamTxByteSentNs :: int

record BytesInfo =
  BytesReceived :: uint64
  BytesSent :: uint64
  WireBytesReceived :: uint64
  WireBytesSent :: uint64

record logger_calls =
  g_timing :: c_timing_info
  g_bytes :: BytesInfo
  g_response_flags :: uint64
  g_response_code :: uint32
  g_attribute_string :: "uint32 \<Rightarrow> bool \<times> envoy_buffer"
  g_attribute_int :: "uint32 \<Rightarrow> bool \<times> uint64"
  g_attribute_bool :: "uint32 \<Rightarrow> bool \<times> bool"
  g_header :: "int \<Rightarrow> string \<Rightarrow> bool \<times> envoy_buffer"
  g_worker_index :: uint32
  g_trace_id :: "bool \<times> envoy_buffer"
  g_span_id :: "bool \<times> envoy_buffer"
  g_trace_sampled :: bool
  g_local_reply_body :: "bool \<times> envoy_buffer"
  g_pool_ready_ns :: uint64

section \<open>The handle\<close>

definition GetTimingInfo :: "logger_calls \<Rightarrow> TimingInfo" where
  "GetTimingInfo g = (let t = g_timing g in
     \<lparr>StartTimeUnixNs = sint (start_time_unix_ns t),
      RequestCompleteDurationNs = sint (request_complete_duration_ns t),
      FirstUpstreamTxByteSentNs = sint (first_upstream_tx_byte_sent_ns t),
      LastUpstreamTxByteSentNs = sint (last_upstream_tx_byte_sent_ns t),
      FirstUpstreamRxByteReceivedNs = sint (first_upstream_rx_byte_received_ns t),
      LastUpstreamRxByteReceivedNs = sint (last_upstream_rx_byte_received_ns t),
      FirstDownstreamTxByteSentNs = sint (first_downstream_tx_byte_sent_ns t),
      LastDownstreamTxByteSentNs = sint (last_downstream_tx_byte_sent_ns t)\<rparr>)"

definition GetBytesInfo :: "logger_calls \<Rightarrow> BytesInfo" where
  "GetBytesInfo g = g_bytes g"

definition GetResponseFlags :: "logger_calls \<Rightarrow> uint64" where
  "GetResponseFlags g = g_response_flags g"

definition GetResponseCode :: "logger_calls \<Rightarrow> uint32" where
  "GetResponseCode g = g_response_code g"

text \<open>An answer with a null pointer counts as no attribute, whatever the flag says.\<close>

definition GetAttributeString :: "logger_calls \<Rightarrow> uint32 \<Rightarrow> envoy_buffer \<times> bool" where
  "GetAttributeString g i =
     (let (ok, buf) = g_attribute_string g i
      in if \<not> ok \<or> buf_ptr buf = 0 then (zero_buffer, False) else (envoyBufferToUnsafeEnvoyBuffer buf, True))"

definition GetAttributeInt :: "logger_calls \<Rightarrow> uint32 \<Rightarrow> int \<times> bool" where
  "GetAttributeInt g i = (let (ok, v) = g_attribute_int g i in if \<not> ok then (0, False) else (sint v, True))"

definition GetAttributeBool :: "logger_calls \<Rightarrow> uint32 \<Rightarrow> bool \<times> bool" where
  "GetAttributeBool g i = (let (ok, v) = g_attribute_bool g i in if \<not> ok then (False, False) else (v, True))"

definition buffer_answer :: "bool \<times> envoy_buffer \<Rightarrow> envoy_buffer \<times> bool" where
  "buffer_answer r = (let (ok, buf) = r in if \<not> ok then (zero_buffer, False) else (envoyBufferToUnsafeEnvoyBuffer buf, True))"

definition LoggerGetHeader :: "logger_calls \<Rightarrow> int \<Rightarrow> string \<Rightarrow> envoy_buffer \<times> bool" where
  "LoggerGetHeader g headerType key = buffer_answer (g_header g headerType key)"

definition GetWorkerIndex :: "logger_calls \<Rightarrow> uint32" where
  "GetWorkerIndex g = g_worker_index g"

definition GetTraceID :: "logger_calls \<Rightarrow> envoy_buffer \<times> bool" where
  "GetTraceID g = buffer_answer (g_trace_id g)"

definition GetSpanID :: "logger_calls \<Rightarrow> envoy_buffer \<times> bool" where
  "GetSpanID g = buffer_answer (g_span_id g)"

definition IsTraceSampled :: "logger_calls \<Rightarrow> bool" where
  "IsTraceSampled g = g_trace_sampled g"

definition GetLocalReplyBody :: "logger_calls \<Rightarrow> envoy_buffer \<times> bool" where
  "GetLocalReplyBody g = buffer_answer (g_local_reply_body g)"

definition GetUpstreamPoolReadyDurationNs :: "logger_calls \<Rightarrow> int" where
  "GetUpstreamPoolReadyDurationNs g = sint (g_pool_ready_ns g)"

text \<open>\<open>attempt_id\<close> is the SDK's number of the attribute.\<close>

definition GetUpstreamRequestAttemptCount :: "uint32 \<Rightarrow> logger_calls \<Rightarrow> uint32" where
  "GetUpstreamRequestAttemptCount attempt_id g =
     (let (ok, v) = g_attribute_int g attempt_id in if \<not> ok \<or> v = 0 then 1 else ucast v)"

section \<open>The adapter for loggers of the public API\<close>

text \<open>The buffers become \<open>Buffer\<close>s; the other methods pass the answer on.\<close>

definition adapt_buffer :: "envoy_buffer \<times> bool \<Rightarrow> Buffer \<times> bool" where
  "adapt_buffer r =
     (let (v, ok) = r in if \<not> ok then (\<lparr>Buffer_raw = zero_buffer, Buffer_Len = 0\<rparr>, False) else (newBuffer v, True))"

definition up_GetAttributeString :: "logger_calls \<Rightarrow> uint32 \<Rightarrow> Buffer \<times> bool" where
  "up_GetAttributeString g i = adapt_buffer (GetAttributeString g i)"

definition up_GetHeader :: "logger_calls \<Rightarrow> int \<Rightarrow> string \<Rightarrow> Buffer \<times> bool" where
  "up_GetHeader g headerType key = adapt_buffer (LoggerGetHeader g headerType key)"

definition up_GetTraceID :: "logger_calls \<Rightarrow> Buffer \<times> bool" where
  "up_GetTraceID g = adapt_buffer (GetTraceID g)"

definition up_GetSpanID :: "logger_calls \<Rightarrow> Buffer \<times> bool" where
  "up_GetSpanID g = adapt_buffer (GetSpanID g)"

definition up_GetLocalReplyBody :: "logger_calls \<Rightarrow> Buffer \<times> bool" where
  "up_GetLocalReplyBody g = adapt_buffer (GetLocalReplyBody g)"

definition up_GetAttributeInt :: "logger_calls \<Rightarrow> uint32 \<Rightarrow> int \<times> bool" where
  "up_GetAttributeInt g i = GetAttributeInt g i"

definition up_GetTimingInfo :: "logger_calls \<Rightarrow> TimingInfo" where
  "up_GetTimingInfo g = GetTimingInfo g"

section \<open>What the two layers promise together\<close>

lemma same_buffer [simp]: "envoyBufferToUnsafeEnvoyBuffer buf = buf"
  by (simp add: envoyBufferToUnsafeEnvoyBuffer_def)

text \<open>A header that Envoy has reaches the logger as the bytes that stand in its memory, with their length; one it
  does not have gives the empty buffer.\<close>

lemma up_header_is_envoys:
  assumes "g_header g ht key = (ok, buf)" "ok \<longrightarrow> sdk_ToString sdk m buf = envoyBufferToStringUnsafe m buf"
  shows "snd (up_GetHeader g ht key) \<longleftrightarrow> ok"
    and "ok \<Longrightarrow> Buffer_String sdk m (fst (up_GetHeader g ht key)) = envoyBufferToStringUnsafe m buf"
    and "ok \<Longrightarrow> Buffer_Len (fst (up_GetHeader g ht key)) = buf_len buf"
    and "\<not> ok \<Longrightarrow> Buffer_Len (fst (up_GetHeader g ht key)) = 0"
  using assms by (simp_all add: up_GetHeader_def adapt_buffer_def LoggerGetHeader_def buffer_answer_def newBuffer_def
      Buffer_String_def split: if_splits)

text \<open>At least one attempt is reported, as the number Envoy has, as long as that number fits 32 bits.\<close>

lemma attempt_count:
  assumes "g_attribute_int g a = (ok, v)" "unat v < 2 ^ 32"
  shows "unat (GetUpstreamRequestAttemptCount a g) = (if ok \<and> v \<noteq> 0 then unat v else 1)"
  using assms by (auto simp: GetUpstreamRequestAttemptCount_def unsigned_ucast_eq take_bit_nat_eq_self)

text \<open>The guard against 0 stands before the truncation: a multiple of the word size is reported as no attempt.\<close>

lemma attempt_count_truncates:
  assumes "g_attribute_int g a = (True, 2 ^ 32)"
  shows "GetUpstreamRequestAttemptCount a g = 0"
proof -
  have "ucast (2 ^ 32 :: uint64) = (0 :: uint32)" by code_simp
  moreover have "(2 ^ 32 :: uint64) \<noteq> 0" by code_simp
  ultimately show ?thesis using assms by (simp add: GetUpstreamRequestAttemptCount_def)
qed

end
