(* ===== verification/Test_Fakes.thy ===== *)
theory Test_Fakes
  imports Writer_Helpers Cluster_Metrics
begin

text \<open>
  The test doubles of \<^verbatim>\<open>src/up/testutil/testutil.go\<close> that keep state: \<open>FakeFilterHandle\<close>, which stands for
  Envoy's handle of a stream, and \<open>FakeClusterLBContext\<close>, which stands for a load balancer's request context.
  The calls that the filter makes on its handle are the \<open>call\<close>s of its log; \<open>fake_call\<close> is what the fake does
  on each. The SDK's fake header map is represented by the map it was created from. The methods that only
  return a constant have no state and are left out.
\<close>

section \<open>The filter handle\<close>

record LocalResponse =
  lr_Status :: uint32
  lr_Headers :: "header list"
  lr_Body :: bytes
  lr_Detail :: string

record FakeFilterHandle =
  fk_reqHeaders :: "string \<rightharpoonup> string list"
  fk_respHeaders :: "string \<rightharpoonup> string list"
  fk_metadata :: "string \<rightharpoonup> (string \<rightharpoonup> go_value)"
  fk_filterState :: "string \<rightharpoonup> bytes"
  fk_LocalResponses :: "LocalResponse list"
  fk_Counters :: "MetricRecord list"
  fk_Histograms :: "MetricRecord list"
  fk_ContinuedReq :: nat
  fk_ContinueClosed :: bool
  fk_LocalClosed :: bool

datatype FilterHandleOption = WithHeaders "string \<rightharpoonup> string" | WithResponseHeaders "string \<rightharpoonup> string"

fun apply_option :: "FilterHandleOption \<Rightarrow> FakeFilterHandle \<Rightarrow> FakeFilterHandle" where
  "apply_option (WithHeaders headers) h = h\<lparr>fk_reqHeaders := (\<lambda>k. map_option (\<lambda>v. [v]) (headers k))\<rparr>"
| "apply_option (WithResponseHeaders headers) h = h\<lparr>fk_respHeaders := (\<lambda>k. map_option (\<lambda>v. [v]) (headers k))\<rparr>"

definition NewFilterHandle :: "FilterHandleOption list \<Rightarrow> FakeFilterHandle" where
  "NewFilterHandle opts = foldl (\<lambda>h opt. apply_option opt h)
     \<lparr>fk_reqHeaders = Map.empty, fk_respHeaders = Map.empty, fk_metadata = Map.empty, fk_filterState = Map.empty,
      fk_LocalResponses = [], fk_Counters = [], fk_Histograms = [], fk_ContinuedReq = 0,
      fk_ContinueClosed = False, fk_LocalClosed = False\<rparr> opts"

text \<open>\<^verbatim>\<open>sync.Once\<close> guards the close of each channel: closing a closed channel would panic.\<close>

definition fake_ContinueRequest :: "FakeFilterHandle \<Rightarrow> FakeFilterHandle" where
  "fake_ContinueRequest h =
     (let h = h\<lparr>fk_ContinuedReq := fk_ContinuedReq h + 1\<rparr>
      in if fk_ContinueClosed h then h else h\<lparr>fk_ContinueClosed := True\<rparr>)"

definition fake_SendLocalResponse :: "uint32 \<Rightarrow> header list \<Rightarrow> bytes \<Rightarrow> string \<Rightarrow> FakeFilterHandle \<Rightarrow> FakeFilterHandle" where
  "fake_SendLocalResponse st hs b d h =
     (let h = h\<lparr>fk_LocalResponses := fk_LocalResponses h @
            [\<lparr>lr_Status = st, lr_Headers = hs, lr_Body = b, lr_Detail = d\<rparr>]\<rparr>
      in if fk_LocalClosed h then h else h\<lparr>fk_LocalClosed := True\<rparr>)"

definition fake_SetMetadata :: "string \<Rightarrow> string \<Rightarrow> go_value \<Rightarrow> FakeFilterHandle \<Rightarrow> FakeFilterHandle" where
  "fake_SetMetadata ns key v h =
     (let m = (if fk_metadata h ns = None then (fk_metadata h)(ns \<mapsto> Map.empty) else fk_metadata h)
      in h\<lparr>fk_metadata := m(ns \<mapsto> (the (m ns))(key \<mapsto> v))\<rparr>)"

text \<open>Indexing a nil map of Go finds nothing.\<close>

definition metadata_at :: "string \<Rightarrow> string \<Rightarrow> FakeFilterHandle \<Rightarrow> go_value option" where
  "metadata_at ns key h = (case fk_metadata h ns of None \<Rightarrow> None | Some m \<Rightarrow> m key)"

definition fake_GetMetadataString :: "string \<Rightarrow> string \<Rightarrow> FakeFilterHandle \<Rightarrow> string \<times> bool" where
  "fake_GetMetadataString ns key h = (case metadata_at ns key h of Some (VString s) \<Rightarrow> (s, True) | _ \<Rightarrow> ('''', False))"

definition fake_Metadata :: "string \<Rightarrow> string \<Rightarrow> FakeFilterHandle \<Rightarrow> string \<times> bool" where
  "fake_Metadata ns key h = (case metadata_at ns key h of Some (VString s) \<Rightarrow> (s, True) | _ \<Rightarrow> ('''', False))"

definition fake_GetMetadataBool :: "string \<Rightarrow> string \<Rightarrow> FakeFilterHandle \<Rightarrow> bool \<times> bool" where
  "fake_GetMetadataBool ns key h = (case metadata_at ns key h of Some (VBool b) \<Rightarrow> (b, True) | _ \<Rightarrow> (False, False))"

text \<open>Floats are bit patterns; the conversions of Go are parameters.\<close>

record float_conv =
  float_of_int :: "int \<Rightarrow> uint64"
  float_of_32 :: "uint64 \<Rightarrow> uint64"
  ParseFloat :: "string \<Rightarrow> uint64 option"

fun metadataNumber :: "float_conv \<Rightarrow> go_value \<Rightarrow> uint64 \<times> bool" where
  "metadataNumber fc (VInt _ n) = (float_of_int fc n, True)"
| "metadataNumber fc (VUint _ n) = (float_of_int fc (int n), True)"
| "metadataNumber fc (VFloat w b) = (if w = 64 then b else float_of_32 fc b, True)"
| "metadataNumber fc (VString s) = (case ParseFloat fc s of None \<Rightarrow> (0, False) | Some f \<Rightarrow> (f, True))"
| "metadataNumber fc _ = (0, False)"

definition fake_GetMetadataNumber :: "float_conv \<Rightarrow> string \<Rightarrow> string \<Rightarrow> FakeFilterHandle \<Rightarrow> uint64 \<times> bool" where
  "fake_GetMetadataNumber fc ns key h = (case metadata_at ns key h of Some v \<Rightarrow> metadataNumber fc v | None \<Rightarrow> (0, False))"

definition fake_MetadataNumber :: "float_conv \<Rightarrow> string \<Rightarrow> string \<Rightarrow> FakeFilterHandle \<Rightarrow> uint64 \<times> bool" where
  "fake_MetadataNumber fc ns key h = (case metadata_at ns key h of Some v \<Rightarrow> metadataNumber fc v | None \<Rightarrow> (0, False))"

definition fake_MetadataBool :: "string \<Rightarrow> string \<Rightarrow> FakeFilterHandle \<Rightarrow> bool \<times> bool" where
  "fake_MetadataBool ns key h = (case metadata_at ns key h of Some (VBool b) \<Rightarrow> (b, True) | _ \<Rightarrow> (False, False))"

definition fake_ClearMetadata :: "string \<Rightarrow> string \<Rightarrow> FakeFilterHandle \<Rightarrow> FakeFilterHandle" where
  "fake_ClearMetadata ns key h =
     (case fk_metadata h ns of None \<Rightarrow> h | Some m \<Rightarrow> h\<lparr>fk_metadata := (fk_metadata h)(ns \<mapsto> m(key := None))\<rparr>)"

definition fake_SetFilterState :: "string \<Rightarrow> bytes \<Rightarrow> FakeFilterHandle \<Rightarrow> FakeFilterHandle" where
  "fake_SetFilterState key v h = h\<lparr>fk_filterState := (fk_filterState h)(key \<mapsto> v)\<rparr>"

text \<open>An empty value gives the zero buffer, whose bytes are none, and the flag of its presence.\<close>

definition fake_GetFilterState :: "string \<Rightarrow> FakeFilterHandle \<Rightarrow> bytes \<times> bool" where
  "fake_GetFilterState key h =
     (case fk_filterState h key of None \<Rightarrow> ([], False) | Some v \<Rightarrow> if v = [] then ([], True) else (v, True))"

definition fake_FilterStateString :: "string \<Rightarrow> FakeFilterHandle \<Rightarrow> string \<times> bool" where
  "fake_FilterStateString key h = (case fk_filterState h key of None \<Rightarrow> ('''', False) | Some v \<Rightarrow> (v, True))"

definition fake_handle_RecordHistogramValue :: "uint64 \<Rightarrow> uint64 \<Rightarrow> string list \<Rightarrow> FakeFilterHandle \<Rightarrow> FakeFilterHandle" where
  "fake_handle_RecordHistogramValue i v ls h = h\<lparr>fk_Histograms := fk_Histograms h @ [\<lparr>mr_ID = i, mr_Value = v, mr_Labels = ls\<rparr>]\<rparr>"

definition fake_handle_IncrementCounterValue :: "uint64 \<Rightarrow> uint64 \<Rightarrow> string list \<Rightarrow> FakeFilterHandle \<Rightarrow> FakeFilterHandle" where
  "fake_handle_IncrementCounterValue i v ls h = h\<lparr>fk_Counters := fk_Counters h @ [\<lparr>mr_ID = i, mr_Value = v, mr_Labels = ls\<rparr>]\<rparr>"

text \<open>Gauges, overrides, callouts and streams leave no trace in the fake's records.\<close>

fun fake_call :: "call \<Rightarrow> FakeFilterHandle \<Rightarrow> FakeFilterHandle" where
  "fake_call (CSetFilterState k v) h = fake_SetFilterState k v h"
| "fake_call (CIncrementCounter i d ls) h = fake_handle_IncrementCounterValue i d ls h"
| "fake_call (CRecordHistogram i v ls) h = fake_handle_RecordHistogramValue i v ls h"
| "fake_call (CSetMetadata ns k v) h = fake_SetMetadata ns k v h"
| "fake_call (CSendLocalResponse st hs b d) h = fake_SendLocalResponse st hs b d h"
| "fake_call CContinueRequest h = fake_ContinueRequest h"
| "fake_call _ h = h"

fun fake_event :: "FakeFilterHandle \<Rightarrow> event \<Rightarrow> FakeFilterHandle" where
  "fake_event h (Handle c) = fake_call c h"
| "fake_event h _ = h"

definition fake_run :: "events \<Rightarrow> FakeFilterHandle \<Rightarrow> FakeFilterHandle" where
  "fake_run evs h = foldl fake_event h evs"

section \<open>The load balancer's context\<close>

type_synonym FakeClusterLBContext = "string \<rightharpoonup> string"

text \<open>The keys of the handle are copied; keys that only the context has stay.\<close>

definition SyncFilterStateFrom :: "FakeFilterHandle \<Rightarrow> FakeClusterLBContext \<Rightarrow> FakeClusterLBContext" where
  "SyncFilterStateFrom h ctx = ctx ++ fk_filterState h"

definition NewFakeClusterLBContext :: "FakeFilterHandle \<Rightarrow> FakeClusterLBContext" where
  "NewFakeClusterLBContext h = SyncFilterStateFrom h Map.empty"

definition fakectx_GetFilterState :: "string \<Rightarrow> FakeClusterLBContext \<Rightarrow> string \<times> bool" where
  "fakectx_GetFilterState key ctx = (case ctx key of None \<Rightarrow> ('''', False) | Some v \<Rightarrow> (v, True))"

definition fakectx_GetStreamObject :: "FakeClusterLBContext \<Rightarrow> bags \<Rightarrow> string \<Rightarrow> go_value option" where
  "fakectx_GetStreamObject ctx m key =
     (let (nonce, ok) = fakectx_GetFilterState StreamObjectIDKey ctx
      in if \<not> ok \<or> nonce = '''' then None
         else case LookupStreamObjectBag nonce m of None \<Rightarrow> None | Some b \<Rightarrow> StreamObjects_Get key b)"

section \<open>The fake against the log\<close>

lemma fake_event_filterState:
  "fk_filterState (fake_event h e) key = state_step key (fk_filterState h key) e"
proof (cases e)
  case (Handle c)
  then show ?thesis
    by (cases c) (simp_all add: fake_SetFilterState_def fake_handle_IncrementCounterValue_def
        fake_handle_RecordHistogramValue_def fake_SetMetadata_def fake_SendLocalResponse_def fake_ContinueRequest_def Let_def)
qed simp_all

lemma fake_run_filterState: "fk_filterState (fake_run evs h) key = foldl (state_step key) (fk_filterState h key) evs"
  by (induction evs arbitrary: h) (simp_all add: fake_run_def fake_event_filterState)

lemma new_handle_filterState: "fk_filterState (NewFilterHandle opts) = Map.empty"
proof -
  have "fk_filterState (foldl (\<lambda>h opt. apply_option opt h) h opts) = fk_filterState h" for h
  proof (induction opts arbitrary: h)
    case (Cons opt opts)
    then show ?case by (cases opt) simp_all
  qed simp
  then show ?thesis by (simp add: NewFilterHandle_def)
qed

text \<open>How often the filter continued, and the replies it sent, as the log has them.\<close>

fun is_continue :: "event \<Rightarrow> bool" where
  "is_continue (Handle CContinueRequest) = True"
| "is_continue _ = False"

fun local_replies :: "event \<Rightarrow> LocalResponse list" where
  "local_replies (Handle (CSendLocalResponse st hs b d)) = [\<lparr>lr_Status = st, lr_Headers = hs, lr_Body = b, lr_Detail = d\<rparr>]"
| "local_replies _ = []"

lemma fake_event_records:
  "fk_ContinuedReq (fake_event h e) = fk_ContinuedReq h + (if is_continue e then 1 else 0)"
  "fk_LocalResponses (fake_event h e) = fk_LocalResponses h @ local_replies e"
  "fk_ContinueClosed (fake_event h e) \<longleftrightarrow> fk_ContinueClosed h \<or> is_continue e"
  by (cases e; (rename_tac c, case_tac c)?; simp add: fake_SetFilterState_def fake_handle_IncrementCounterValue_def
      fake_handle_RecordHistogramValue_def fake_SetMetadata_def fake_SendLocalResponse_def fake_ContinueRequest_def Let_def)+

lemma fake_run_records:
  "fk_ContinuedReq (fake_run evs h) = fk_ContinuedReq h + length (filter is_continue evs)"
  "fk_LocalResponses (fake_run evs h) = fk_LocalResponses h @ concat (map local_replies evs)"
  by (induction evs arbitrary: h) (simp_all add: fake_run_def fake_event_records)

lemma fake_metadata_roundtrip:
  "metadata_at ns key (fake_SetMetadata ns key v h) = Some v"
  "(ns', key') \<noteq> (ns, key) \<Longrightarrow> metadata_at ns' key' (fake_SetMetadata ns key v h) = metadata_at ns' key' h"
  "metadata_at ns key (fake_ClearMetadata ns key h) = None"
  by (auto simp: metadata_at_def fake_SetMetadata_def fake_ClearMetadata_def Let_def split: option.splits)

section \<open>Properties\<close>

text \<open>A test that plays the calls of a stream into the fake handle and builds the fake context from it sees what
  Envoy would show: the same filter state and the same stream objects as the balancer's real context, the
  same local replies in the same order, and one continued request for every \<open>ContinueRequest\<close>.\<close>

lemma fakes_agree_with_envoy:
  "fakectx_GetStreamObject (NewFakeClusterLBContext (fake_run evs (NewFilterHandle opts))) bags key =
     LBContext_GetStreamObject (filter_state_of evs) bags key \<and>
   fk_filterState (fake_run evs (NewFilterHandle opts)) = filter_state_of evs \<and>
   fk_LocalResponses (fake_run evs (NewFilterHandle opts)) = concat (map local_replies evs) \<and>
   fk_ContinuedReq (fake_run evs (NewFilterHandle opts)) = length (filter is_continue evs)"
proof -
  have st: "fk_filterState (fake_run evs (NewFilterHandle opts)) = filter_state_of evs"
    by (rule ext) (simp add: fake_run_filterState new_handle_filterState filter_state_of_def)
  have new: "fk_LocalResponses (NewFilterHandle opts) = [] \<and> fk_ContinuedReq (NewFilterHandle opts) = 0"
  proof -
    have "fk_LocalResponses (foldl (\<lambda>h opt. apply_option opt h) h opts) = fk_LocalResponses h \<and>
        fk_ContinuedReq (foldl (\<lambda>h opt. apply_option opt h) h opts) = fk_ContinuedReq h" for h
    proof (induction opts arbitrary: h)
      case (Cons opt opts)
      then show ?case by (cases opt) simp_all
    qed simp
    then show ?thesis by (simp add: NewFilterHandle_def)
  qed
  show ?thesis
    by (simp add: st new fake_run_records fakectx_GetStreamObject_def NewFakeClusterLBContext_def SyncFilterStateFrom_def
        fakectx_GetFilterState_def LBContext_GetStreamObject_def Let_def split: option.split)
qed

end
