(* ===== verification/Session_Codec.thy ===== *)
theory Session_Codec
  imports Transit_Prelude "HOL-Library.List_Lexorder" "HOL-Library.Char_ord" "HOL-Library.Multiset"
begin

text \<open>
  The composite sessions of the MCP profile router (\<^verbatim>\<open>src/examples/mcp-profile-router/session.go\<close>): one session
  id carries the sessions of all backends, sorted by backend and encoded in base 64. A Go map that is read is
  an association list with distinct keys, in the order in which the runtime happens to iterate; one that is
  built is a map. Strings compare bytewise.
\<close>

section \<open>Sorting\<close>

text \<open>The inner loop of \<open>sortStrings\<close>: swap to the left while the element is smaller.\<close>

fun sift :: "nat \<Rightarrow> string list \<Rightarrow> string list" where
  "sift 0 vs = vs"
| "sift (Suc j) vs = (if vs ! Suc j < vs ! j then sift j (vs[Suc j := vs ! j, j := vs ! Suc j]) else vs)"

definition sortStrings :: "string list \<Rightarrow> string list" where
  "sortStrings vs = foldl (\<lambda>vs i. sift i vs) vs [1..<length vs]"

definition sortedStringKeys :: "(string \<times> 'v) list \<Rightarrow> string list" where
  "sortedStringKeys m = sortStrings (map fst m)"

section \<open>Base 64\<close>

text \<open>\<^verbatim>\<open>base64.StdEncoding\<close>: line breaks are ignored on decoding, padding is required.\<close>

definition b64_code :: "nat \<Rightarrow> nat" where
  "b64_code n = (if n < 26 then 65 + n else if n < 52 then 97 + (n - 26) else if n < 62 then 48 + (n - 52)
     else if n = 62 then 43 else 47)"

definition b64_char :: "nat \<Rightarrow> char" where
  "b64_char n = char_of (b64_code n)"

definition b64_val :: "char \<Rightarrow> nat option" where
  "b64_val c = (let n = (of_char c :: nat)
     in if 65 \<le> n \<and> n \<le> 90 then Some (n - 65) else if 97 \<le> n \<and> n \<le> 122 then Some (n - 97 + 26)
        else if 48 \<le> n \<and> n \<le> 57 then Some (n - 48 + 52) else if n = 43 then Some 62
        else if n = 47 then Some 63 else None)"

definition byte_val :: "char \<Rightarrow> nat" where
  "byte_val c = of_char c"

fun b64_EncodeToString :: "bytes \<Rightarrow> string" where
  "b64_EncodeToString [] = []"
| "b64_EncodeToString [a] = [b64_char (byte_val a div 4), b64_char (byte_val a mod 4 * 16), CHR ''='', CHR ''='']"
| "b64_EncodeToString [a, b] =
     [b64_char (byte_val a div 4), b64_char (byte_val a mod 4 * 16 + byte_val b div 16),
      b64_char (byte_val b mod 16 * 4), CHR ''='']"
| "b64_EncodeToString (a # b # c # r) =
     b64_char (byte_val a div 4) # b64_char (byte_val a mod 4 * 16 + byte_val b div 16) #
     b64_char (byte_val b mod 16 * 4 + byte_val c div 64) # b64_char (byte_val c mod 64) # b64_EncodeToString r"

fun decode_quanta :: "string \<Rightarrow> bytes option" where
  "decode_quanta [] = Some []"
| "decode_quanta (w # x # y # z # r) =
     (case (b64_val w, b64_val x) of
        (Some i, Some j) \<Rightarrow>
          if y = CHR ''='' then (if z = CHR ''='' \<and> r = [] then Some [char_of (i * 4 + j div 16)] else None)
          else (case b64_val y of
                  None \<Rightarrow> None
                | Some k \<Rightarrow>
                    if z = CHR ''='' then (if r = [] then Some [char_of (i * 4 + j div 16), char_of (j mod 16 * 16 + k div 4)] else None)
                    else (case (b64_val z, decode_quanta r) of
                            (Some l, Some bs) \<Rightarrow> Some (char_of (i * 4 + j div 16) # char_of (j mod 16 * 16 + k div 4) #
                                                        char_of (k mod 4 * 64 + l) # bs)
                          | _ \<Rightarrow> None))
      | _ \<Rightarrow> None)"
| "decode_quanta _ = None"

definition b64_DecodeString :: "string \<Rightarrow> bytes option" where
  "b64_DecodeString s = decode_quanta (filter (\<lambda>c. c \<noteq> CHR 0x0A \<and> c \<noteq> CHR 0x0D) s)"

section \<open>Searching strings\<close>

definition Index :: "char \<Rightarrow> string \<Rightarrow> nat option" where
  "Index c s = (if c \<in> set s then Some (length (takeWhile (\<lambda>x. x \<noteq> c) s)) else None)"

definition LastIndex :: "char \<Rightarrow> string \<Rightarrow> nat option" where
  "LastIndex c s = (if c \<in> set s then Some (length s - Suc (length (takeWhile (\<lambda>x. x \<noteq> c) (rev s)))) else None)"

fun SplitOn :: "char \<Rightarrow> string \<Rightarrow> string list" where
  "SplitOn c [] = [[]]"
| "SplitOn c (x # s) = (if x = c then [] # SplitOn c s else (case SplitOn c s of [] \<Rightarrow> [[x]] | t # ts \<Rightarrow> (x # t) # ts))"

definition Cut :: "char \<Rightarrow> string \<Rightarrow> string \<times> string \<times> bool" where
  "Cut c s = (case Index c s of None \<Rightarrow> (s, [], False) | Some i \<Rightarrow> (take i s, drop (Suc i) s, True))"

section \<open>Sessions\<close>

record compositeSession =
  cs_Route :: string
  cs_Profile :: string
  cs_Subject :: string
  cs_Backends :: "string \<rightharpoonup> string"

datatype session_error = InvalidSessionID | InvalidBackendEntry | BackendDecode string

definition backend_entry :: "(string \<times> string) list \<Rightarrow> string \<Rightarrow> string" where
  "backend_entry backends i = i @ '':'' @ b64_EncodeToString (case map_of backends i of Some v \<Rightarrow> v | None \<Rightarrow> [])"

fun write_entries :: "(string \<times> string) list \<Rightarrow> nat \<Rightarrow> string list \<Rightarrow> string" where
  "write_entries backends n [] = []"
| "write_entries backends n (i # is) =
     (if n > 0 then '','' else []) @ backend_entry backends i @ write_entries backends (Suc n) is"

definition encodeCompositeSession :: "string \<Rightarrow> string \<Rightarrow> string \<Rightarrow> (string \<times> string) list \<Rightarrow> string" where
  "encodeCompositeSession route profile subject backends =
     route @ ''@'' @ profile @ ''@'' @ subject @ ''@'' @ write_entries backends 0 (sortedStringKeys backends)"

fun decode_entries :: "string list \<Rightarrow> (string \<rightharpoonup> string) \<Rightarrow> session_error + (string \<rightharpoonup> string)" where
  "decode_entries [] m = Inr m"
| "decode_entries (entry # es) m =
     (let (backend, encoded, ok) = Cut CHR '':'' entry
      in if \<not> ok \<or> backend = [] then Inl InvalidBackendEntry
         else case b64_DecodeString encoded of
                None \<Rightarrow> Inl (BackendDecode backend)
              | Some decoded \<Rightarrow> decode_entries es (m(backend \<mapsto> decoded)))"

definition decodeCompositeSession :: "string \<Rightarrow> session_error + compositeSession" where
  "decodeCompositeSession raw =
     (case Index CHR ''@'' raw of
        None \<Rightarrow> Inl InvalidSessionID
      | Some firstAt \<Rightarrow>
          (case Index CHR ''@'' (drop (firstAt + 1) raw) of
             None \<Rightarrow> Inl InvalidSessionID
           | Some secondAtRel \<Rightarrow>
               (let secondAt = firstAt + 1 + secondAtRel; lastAt = the (LastIndex CHR ''@'' raw)
                in if lastAt \<le> secondAt then Inl InvalidSessionID
                   else let backendPart = drop (lastAt + 1) raw;
                            out = \<lparr>cs_Route = take firstAt raw,
                                   cs_Profile = drop (firstAt + 1) (take secondAt raw),
                                   cs_Subject = drop (secondAt + 1) (take lastAt raw),
                                   cs_Backends = Map.empty\<rparr>
                        in if backendPart = [] then Inr out
                           else case decode_entries (SplitOn CHR '','' backendPart) Map.empty of
                                  Inl e \<Rightarrow> Inl e
                                | Inr m \<Rightarrow> Inr (out\<lparr>cs_Backends := m\<rparr>))))"

section \<open>sortStrings sorts\<close>

definition ins_right :: "string \<Rightarrow> string list \<Rightarrow> string list" where
  "ins_right x p = rev (takeWhile (\<lambda>y. x < y) (rev p) @ x # dropWhile (\<lambda>y. x < y) (rev p))"

lemma sift_ins: "sift (length p) (p @ x # s) = ins_right x p @ s"
proof (induction p arbitrary: s rule: rev_induct)
  case (snoc y q)
  show ?case
  proof (cases "x < y")
    case True
    have "sift (length (q @ [y])) ((q @ [y]) @ x # s) = sift (length q) (q @ x # y # s)"
      using True by (simp add: nth_append list_update_append)
    also have "\<dots> = ins_right x q @ y # s" by (rule snoc.IH)
    finally show ?thesis using True by (simp add: ins_right_def)
  next
    case False
    then show ?thesis by (simp add: ins_right_def nth_append)
  qed
qed (simp add: ins_right_def)

lemma mset_ins_right: "mset (ins_right x p) = add_mset x (mset p)"
  by (simp add: ins_right_def) (metis mset_append mset_rev takeWhile_dropWhile_id union_commute)

lemma sorted_ins_right:
  assumes "sorted p"
  shows "sorted (ins_right x p)"
proof -
  let ?t = "takeWhile (\<lambda>y. x < y) (rev p)" and ?d = "dropWhile (\<lambda>y. x < y) (rev p)"
  have p: "p = rev ?d @ rev ?t" by (metis rev_append rev_rev_ident takeWhile_dropWhile_id)
  have s: "sorted (rev ?d @ rev ?t)" using assms p by simp
  have big: "\<forall>y\<in>set ?t. x < y" using set_takeWhileD by fastforce
  have small: "\<forall>y\<in>set ?d. y \<le> x"
  proof (cases ?d)
    case (Cons z zs)
    then have "\<not> x < z" using hd_dropWhile [of "\<lambda>y. x < y" "rev p"] by (metis list.distinct(1) list.sel(1))
    moreover have "\<forall>y\<in>set ?d. y \<le> z" using s Cons by (auto simp: sorted_append)
    ultimately show ?thesis by (auto intro: order_trans simp: not_less)
  next
    case Nil
    then show ?thesis by (simp only: list.set) simp
  qed
  show ?thesis using s big small by (auto simp: ins_right_def sorted_append intro: less_imp_le order_trans)
qed

lemma sort_loop:
  "i \<le> length vs \<Longrightarrow> sorted (take i vs) \<Longrightarrow>
     sorted (foldl (\<lambda>vs i. sift i vs) vs [i..<length vs]) \<and> mset (foldl (\<lambda>vs i. sift i vs) vs [i..<length vs]) = mset vs"
proof (induction "length vs - i" arbitrary: i vs)
  case (Suc k)
  then have i: "i < length vs" by simp
  let ?p = "take i vs" and ?x = "vs ! i" and ?s = "drop (Suc i) vs"
  have vs: "vs = ?p @ ?x # ?s" using i by (rule id_take_nth_drop)
  have len: "length ?p = i" using i by simp
  have step: "sift i vs = ins_right ?x ?p @ ?s" using sift_ins [of ?p ?x ?s] vs len by simp
  have m: "mset (sift i vs) = mset vs" by (subst (2) vs) (simp add: step mset_ins_right)
  then have l: "length (sift i vs) = length vs" by (rule mset_eq_length)
  have li: "length (ins_right ?x ?p) = Suc i" using mset_ins_right [of ?x ?p] len by (metis size_add_mset size_mset)
  have "sorted (take (Suc i) (sift i vs))" using sorted_ins_right [OF Suc.prems(2)] by (simp add: step li)
  then have "sorted (foldl (\<lambda>vs i. sift i vs) (sift i vs) [Suc i..<length (sift i vs)]) \<and>
      mset (foldl (\<lambda>vs i. sift i vs) (sift i vs) [Suc i..<length (sift i vs)]) = mset (sift i vs)"
    by (intro Suc.hyps(1)) (use Suc.hyps(2) i l in auto)
  then show ?case using i m l by (simp add: upt_conv_Cons)
qed simp

lemma sortStrings_sort: "sortStrings vs = sort vs"
proof (cases vs)
  case (Cons v ws)
  have "sorted (sortStrings vs) \<and> mset (sortStrings vs) = mset vs"
    unfolding sortStrings_def by (rule sort_loop) (simp_all add: Cons)
  then show ?thesis by (metis properties_for_sort)
qed (simp add: sortStrings_def)


section \<open>Base 64 is lossless\<close>

lemma of_b64_char: "n < 64 \<Longrightarrow> of_char (b64_char n) = b64_code n"
  by (simp add: b64_char_def b64_code_def)

lemma b64_chars:
  assumes "n < 64"
  shows "b64_val (b64_char n) = Some n" "b64_char n \<noteq> CHR ''=''" "b64_char n \<noteq> CHR ''@''" "b64_char n \<noteq> CHR '',''"
    "b64_char n \<noteq> CHR '':''" "b64_char n \<noteq> CHR 0x0A" "b64_char n \<noteq> CHR 0x0D"
proof -
  show "b64_val (b64_char n) = Some n" using assms by (auto simp: b64_val_def of_b64_char b64_code_def Let_def)
  have ne: "b64_char n \<noteq> c" if "of_char c \<noteq> b64_code n" for c using that of_b64_char [OF assms] by metis
  show "b64_char n \<noteq> CHR ''=''" "b64_char n \<noteq> CHR ''@''" "b64_char n \<noteq> CHR '',''"
    "b64_char n \<noteq> CHR '':''" "b64_char n \<noteq> CHR 0x0A" "b64_char n \<noteq> CHR 0x0D"
    by (rule_tac [!] ne) (auto simp: b64_code_def)
qed

lemma byte_val_less: "byte_val c < 256"
  by (simp add: byte_val_def)

lemma char_of_byte_val: "n = byte_val c \<Longrightarrow> char_of n = c"
  by (simp add: byte_val_def)

text \<open>The six-bit digits of a byte, and the byte they make up.\<close>

lemma sextets:
  fixes a b c :: nat
  assumes "a < 256" "b < 256" "c < 256"
  shows "a div 4 < 64" "a mod 4 * 16 < 64" "a mod 4 * 16 + b div 16 < 64" "b mod 16 * 4 < 64" "b mod 16 * 4 + c div 64 < 64"
    "c mod 64 < 64"
    "a div 4 * 4 + (a mod 4 * 16) div 16 = a"
    "a div 4 * 4 + (a mod 4 * 16 + b div 16) div 16 = a"
    "(a mod 4 * 16 + b div 16) mod 16 * 16 + (b mod 16 * 4) div 4 = b"
    "(a mod 4 * 16 + b div 16) mod 16 * 16 + (b mod 16 * 4 + c div 64) div 4 = b"
    "(b mod 16 * 4 + c div 64) mod 4 * 64 + c mod 64 = c"
proof -
  have digits: "(x * k + y) div k = x" "(x * k + y) mod k = y" if "y < k" for x y k :: nat using that by simp_all
  have b: "b div 16 < 16" and c: "c div 64 < 4" using assms by simp_all
  show "a div 4 < 64" "c mod 64 < 64" "a mod 4 * 16 < 64" "b mod 16 * 4 < 64" using assms by simp_all
  show "a mod 4 * 16 + b div 16 < 64" "b mod 16 * 4 + c div 64 < 64"
    using b c mod_less_divisor [of 4 a] mod_less_divisor [of 16 b] by linarith+
  show "a div 4 * 4 + (a mod 4 * 16) div 16 = a" by simp
  show "a div 4 * 4 + (a mod 4 * 16 + b div 16) div 16 = a" by (simp only: digits(1) [OF b]) simp
  show "(a mod 4 * 16 + b div 16) mod 16 * 16 + (b mod 16 * 4) div 4 = b" by (simp only: digits(2) [OF b]) simp
  show "(a mod 4 * 16 + b div 16) mod 16 * 16 + (b mod 16 * 4 + c div 64) div 4 = b"
    by (simp only: digits(2) [OF b] digits(1) [OF c]) simp
  show "(b mod 16 * 4 + c div 64) mod 4 * 64 + c mod 64 = c" by (simp only: digits(2) [OF c]) simp
qed

lemma decode_quanta_Encode: "decode_quanta (b64_EncodeToString s) = Some s"
proof (induction s rule: b64_EncodeToString.induct)
  case (2 a)
  note x = sextets [OF byte_val_less [of a] byte_val_less [of a] byte_val_less [of a]]
  show ?case
    unfolding b64_EncodeToString.simps decode_quanta.simps b64_chars(1) [OF x(1)] b64_chars(1) [OF x(2)] prod.case option.case x(7)
    by (simp add: char_of_byte_val)
next
  case (3 a b)
  note x = sextets [OF byte_val_less [of a] byte_val_less [of b] byte_val_less [of b]]
  show ?case
    unfolding b64_EncodeToString.simps decode_quanta.simps b64_chars(1) [OF x(1)] b64_chars(1) [OF x(3)] b64_chars(1) [OF x(4)]
      prod.case option.case x(8,9)
    using b64_chars(2) [OF x(4)] by (simp add: char_of_byte_val)
next
  case (4 a b c r)
  note x = sextets [OF byte_val_less [of a] byte_val_less [of b] byte_val_less [of c]]
  show ?case
    unfolding b64_EncodeToString.simps decode_quanta.simps b64_chars(1) [OF x(1)] b64_chars(1) [OF x(3)] b64_chars(1) [OF x(5)]
      b64_chars(1) [OF x(6)] prod.case option.case x(8,10,11) 4
    using b64_chars(2) [OF x(5)] b64_chars(2) [OF x(6)] by (simp add: char_of_byte_val)
qed simp

definition plain_char :: "char \<Rightarrow> bool" where
  "plain_char c \<longleftrightarrow> c \<notin> {CHR ''@'', CHR '','', CHR '':'', CHR 0x0A, CHR 0x0D}"

lemma Encode_plain: "list_all plain_char (b64_EncodeToString s)"
proof (induction s rule: b64_EncodeToString.induct)
  case (2 a)
  note x = sextets [OF byte_val_less [of a] byte_val_less [of a] byte_val_less [of a]]
  show ?case by (simp add: plain_char_def b64_chars x)
next
  case (3 a b)
  note x = sextets [OF byte_val_less [of a] byte_val_less [of b] byte_val_less [of b]]
  show ?case by (simp add: plain_char_def b64_chars x)
next
  case (4 a b c r)
  note x = sextets [OF byte_val_less [of a] byte_val_less [of b] byte_val_less [of c]]
  show ?case using 4 by (simp add: plain_char_def b64_chars x)
qed simp

lemma Decode_Encode: "b64_DecodeString (b64_EncodeToString s) = Some s"
proof -
  have "filter (\<lambda>c. c \<noteq> CHR 0x0A \<and> c \<noteq> CHR 0x0D) (b64_EncodeToString s) = b64_EncodeToString s"
    using Encode_plain [of s] by (auto simp: filter_id_conv list_all_iff plain_char_def)
  then show ?thesis by (simp add: b64_DecodeString_def decode_quanta_Encode)
qed

section \<open>Splitting what was joined\<close>

lemma Index_append: "c \<notin> set a \<Longrightarrow> Index c (a @ c # b) = Some (length a)"
proof -
  assume "c \<notin> set a"
  then have "takeWhile (\<lambda>x. x \<noteq> c) (a @ c # b) = a" by (subst takeWhile_append2) auto
  then show ?thesis by (simp add: Index_def)
qed

lemma LastIndex_append: "c \<notin> set b \<Longrightarrow> LastIndex c (a @ c # b) = Some (length a)"
proof -
  assume "c \<notin> set b"
  then have "takeWhile (\<lambda>x. x \<noteq> c) (rev b @ c # rev a) = rev b" by (subst takeWhile_append2) auto
  then show ?thesis by (simp add: LastIndex_def)
qed

lemma Cut_append: "c \<notin> set a \<Longrightarrow> Cut c (a @ c # b) = (a, b, True)"
  by (simp add: Cut_def Index_append)

lemma SplitOn_single: "c \<notin> set a \<Longrightarrow> SplitOn c a = [a]"
  by (induction a) auto

lemma SplitOn_append: "c \<notin> set a \<Longrightarrow> SplitOn c (a @ c # b) = a # SplitOn c b"
  by (induction a) auto

lemma SplitOn_write_entries:
  assumes "\<And>i. i \<in> set (k # ks) \<Longrightarrow> CHR '','' \<notin> set (backend_entry bs i)"
  shows "SplitOn CHR '','' (write_entries bs 0 (k # ks)) = map (backend_entry bs) (k # ks)"
proof -
  have rest: "SplitOn CHR '','' (a @ write_entries bs (Suc n) is) = a # map (backend_entry bs) is"
    if "CHR '','' \<notin> set a" "\<And>i. i \<in> set is \<Longrightarrow> CHR '','' \<notin> set (backend_entry bs i)" for a n "is"
    using that
  proof (induction "is" arbitrary: a n)
    case (Cons i "is")
    then show ?case using Cons.IH [of "backend_entry bs i" "Suc n"] by (simp add: SplitOn_append)
  qed (simp add: SplitOn_single)
  show ?thesis using rest [of "backend_entry bs k" ks 0] assms by simp
qed

text \<open>A backend whose name does not contain a separator.\<close>

definition good_backend :: "string \<Rightarrow> bool" where
  "good_backend i \<longleftrightarrow> i \<noteq> [] \<and> CHR '','' \<notin> set i \<and> CHR '':'' \<notin> set i \<and> CHR ''@'' \<notin> set i"

lemma entry_chars:
  assumes "good_backend i"
  shows "CHR '','' \<notin> set (backend_entry bs i)" "CHR ''@'' \<notin> set (backend_entry bs i)"
  using assms Encode_plain [of "case map_of bs i of Some v \<Rightarrow> v | None \<Rightarrow> []"]
  by (auto simp: backend_entry_def good_backend_def list_all_iff plain_char_def)

lemma decode_entries_map:
  assumes "\<And>i. i \<in> set is \<Longrightarrow> good_backend i \<and> map_of bs i \<noteq> None"
  shows "decode_entries (map (backend_entry bs) is) m = Inr (\<lambda>k. if k \<in> set is then map_of bs k else m k)"
  using assms
proof (induction "is" arbitrary: m)
  case (Cons i "is")
  obtain v where v: "map_of bs i = Some v" using Cons.prems [of i] by auto
  have "Cut CHR '':'' (backend_entry bs i) = (i, b64_EncodeToString v, True)"
    using Cons.prems [of i] by (simp add: backend_entry_def v good_backend_def Cut_append)
  moreover have "decode_entries (map (backend_entry bs) is) (m(i \<mapsto> v)) = Inr (\<lambda>k. if k \<in> set is then map_of bs k else (m(i \<mapsto> v)) k)"
    by (rule Cons.IH) (use Cons.prems in auto)
  moreover have "(\<lambda>k. if k \<in> set is then map_of bs k else (m(i \<mapsto> v)) k) = (\<lambda>k. if k \<in> set (i # is) then map_of bs k else m k)"
    using v by (auto simp: fun_eq_iff)
  ultimately show ?case using Cons.prems [of i] by (simp add: Decode_Encode good_backend_def del: fun_upd_apply)
qed simp

lemma write_entries_at: "(\<And>i. i \<in> set is \<Longrightarrow> good_backend i) \<Longrightarrow> CHR ''@'' \<notin> set (write_entries bs n is)"
  by (induction "is" arbitrary: n) (auto simp: entry_chars)

lemma decode_parts:
  assumes "CHR ''@'' \<notin> set r" "CHR ''@'' \<notin> set p" "CHR ''@'' \<notin> set e"
  shows "decodeCompositeSession (r @ ''@'' @ p @ ''@'' @ s @ ''@'' @ e) =
    (let out = \<lparr>cs_Route = r, cs_Profile = p, cs_Subject = s, cs_Backends = Map.empty\<rparr>
     in if e = [] then Inr out
        else case decode_entries (SplitOn CHR '','' e) Map.empty of Inl x \<Rightarrow> Inl x | Inr m \<Rightarrow> Inr (out\<lparr>cs_Backends := m\<rparr>))"
proof -
  let ?raw = "r @ ''@'' @ p @ ''@'' @ s @ ''@'' @ e"
  have 1: "Index CHR ''@'' ?raw = Some (length r)" using Index_append [OF assms(1)] by simp
  have 2: "Index CHR ''@'' (drop (length r + 1) ?raw) = Some (length p)" using Index_append [OF assms(2)] by simp
  have 3: "LastIndex CHR ''@'' ?raw = Some (length (r @ ''@'' @ p @ ''@'' @ s))"
    using LastIndex_append [OF assms(3), of "r @ ''@'' @ p @ ''@'' @ s"] by simp
  have raw: "?raw = (r @ ''@'' @ p @ ''@'' @ s) @ ''@'' @ e" "?raw = (r @ ''@'' @ p) @ ''@'' @ s @ ''@'' @ e" by simp_all
  have g: "drop (length x + 1) (x @ ''@'' @ e) = e" "take (length x) (x @ y) = x" for x y by simp_all
  have last: "drop (length (r @ ''@'' @ p @ ''@'' @ s) + 1) ?raw = e" "take (length (r @ ''@'' @ p @ ''@'' @ s)) ?raw = r @ ''@'' @ p @ ''@'' @ s"
    by (subst raw(1), simp only: g)+
  have second: "length r + 1 + length p = length (r @ ''@'' @ p)" by simp
  have mid: "drop (length r + 1) (take (length r + 1 + length p) ?raw) = p"
    "drop (length r + 1 + length p + 1) (r @ ''@'' @ p @ ''@'' @ s) = s" by simp_all
  have first: "take (length r) ?raw = r" by (simp only: g)
  show ?thesis
    unfolding decodeCompositeSession_def 1 option.case 2 3 option.sel Let_def last mid first by simp
qed

lemma decode_encode_session:
  assumes "CHR ''@'' \<notin> set route" "CHR ''@'' \<notin> set profile" "distinct (map fst backends)"
    and "list_all good_backend (map fst backends)"
  shows "decodeCompositeSession (encodeCompositeSession route profile subject backends) =
    Inr \<lparr>cs_Route = route, cs_Profile = profile, cs_Subject = subject, cs_Backends = map_of backends\<rparr>"
proof -
  let ?ids = "sortedStringKeys backends"
  have ids: "set ?ids = fst ` set backends" by (simp add: sortedStringKeys_def sortStrings_sort)
  have good: "good_backend i \<and> map_of backends i \<noteq> None" if "i \<in> set ?ids" for i
    using that assms(4) ids by (auto simp: list_all_iff map_of_eq_None_iff)
  have m: "(\<lambda>k. if k \<in> set ?ids then map_of backends k else None) = map_of backends"
    using ids by (auto simp: fun_eq_iff map_of_eq_None_iff [symmetric])
  have at: "CHR ''@'' \<notin> set (write_entries backends 0 ?ids)" using write_entries_at good by blast
  show ?thesis
  proof (cases ?ids)
    case Nil
    then have "backends = []" using ids by simp
    then show ?thesis
      unfolding encodeCompositeSession_def decode_parts [OF assms(1,2) at] by (simp add: sortedStringKeys_def sortStrings_def)
  next
    case (Cons k ks)
    have "SplitOn CHR '','' (write_entries backends 0 ?ids) = map (backend_entry backends) ?ids"
      unfolding Cons by (rule SplitOn_write_entries) (use good Cons entry_chars in auto)
    moreover have "write_entries backends 0 ?ids \<noteq> []" by (simp add: Cons backend_entry_def)
    ultimately show ?thesis
      unfolding encodeCompositeSession_def decode_parts [OF assms(1,2) at]
      using decode_entries_map [OF good, of ?ids Map.empty] m by (simp add: Let_def)
  qed
qed

section \<open>Properties\<close>

text \<open>A session id carries everything that was put into it: for a route and a profile without \<open>@\<close>, any subject,
  and backends whose names are not empty and contain no separator, decoding the encoded id gives back the
  route, the profile, the subject and exactly the sessions of the backends, whatever bytes those are.\<close>

lemma session_roundtrip:
  assumes "CHR ''@'' \<notin> set route" "CHR ''@'' \<notin> set profile" "distinct (map fst backends)"
    and "list_all good_backend (map fst backends)"
  shows "decodeCompositeSession (encodeCompositeSession route profile subject backends) =
    Inr \<lparr>cs_Route = route, cs_Profile = profile, cs_Subject = subject, cs_Backends = map_of backends\<rparr>"
  by (rule decode_encode_session [OF assms])

lemma session_roundtrip_example:
  "decodeCompositeSession (encodeCompositeSession ''r'' ''p'' ''a@b'' [(''zeta'', ''s,1''), (''alpha'', ''@:'')]) =
   Inr \<lparr>cs_Route = ''r'', cs_Profile = ''p'', cs_Subject = ''a@b'', cs_Backends = map_of [(''zeta'', ''s,1''), (''alpha'', ''@:'')]\<rparr>"
  by (rule session_roundtrip) (simp_all add: good_backend_def)

text \<open>An \<open>@\<close> in the profile moves the boundary of the subject: the profile that comes back is another one.\<close>

lemma session_profile_with_at: "decodeCompositeSession (encodeCompositeSession ''r'' ''a@b'' '''' []) =
    Inr \<lparr>cs_Route = ''r'', cs_Profile = ''a'', cs_Subject = ''b@'', cs_Backends = Map.empty\<rparr>"
  using decode_parts [of "''r''" "''a''" "[]" "''b@''"] by (simp add: encodeCompositeSession_def sortedStringKeys_def sortStrings_def)

end
