(* ===== verification/MCP_Types.thy ===== *)
theory MCP_Types
  imports Session_Codec Writer_Ops
begin

text \<open>
  What the two MCP routers share: the JSON-RPC messages (\<^verbatim>\<open>src/examples/mcp-profile-router/types.go\<close>), HTTP headers, and
  the contract between the list of tools a client sees and the calls it makes. A JSON text is represented by the
  value it denotes. How \<^verbatim>\<open>encoding/json\<close> turns such a value into a Go struct, what \<^verbatim>\<open>net/url\<close> accepts and what a
  backend answers are the fields of an environment, which every theorem leaves open.
\<close>

section \<open>Messages\<close>

datatype json = JNull | JBool bool | JNum string | JStr string | JArr "json list" | JObj "(string \<times> json) list"

record Tool =
  tool_Name :: string
  tool_Description :: string
  tool_InputSchema :: json

record CallToolParams =
  par_Name :: string
  par_Arguments :: json

record CallToolResult =
  ctr_Content :: "(string \<times> string) list"
  ctr_StructuredContent :: json
  ctr_IsError :: bool

record InitializeResult =
  ini_ProtocolVersion :: string
  ini_Capabilities :: json
  ini_ServerInfo :: "string \<times> string"

datatype rpc_params = RawParams json | InitializeParams string json "string \<times> string" | CallParams CallToolParams

text \<open>A raw message that is absent has length 0.\<close>

record JSONRPCRequest =
  rq_ID :: "json option"
  rq_Method :: string
  rq_Params :: "rpc_params option"

datatype rpc_result = InitializeOut InitializeResult | ListToolsOut "Tool list" | CallToolOut CallToolResult

record JSONRPCResponse =
  rs_ID :: "json option"
  rs_Result :: "rpc_result option"
  rs_Error :: "(int \<times> string) option"

definition MethodInitialize :: string where "MethodInitialize = ''initialize''"
definition MethodToolsList :: string where "MethodToolsList = ''tools/list''"
definition MethodToolsCall :: string where "MethodToolsCall = ''tools/call''"
definition SessionIDHeader :: string where "SessionIDHeader = ''mcp-session-id''"
definition ProtocolVersionHeader :: string where "ProtocolVersionHeader = ''mcp-protocol-version''"
definition ProtocolVersion :: string where "ProtocolVersion = ''2025-06-18''"

lemmas mcp_names = MethodInitialize_def MethodToolsList_def MethodToolsCall_def SessionIDHeader_def
  ProtocolVersionHeader_def ProtocolVersion_def

definition cloneRaw :: "json option \<Rightarrow> json option" where
  "cloneRaw raw = (case raw of None \<Rightarrow> None | Some v \<Rightarrow> Some v)"

lemma cloneRaw_id [simp]: "cloneRaw raw = raw"
  by (cases raw) (simp_all add: cloneRaw_def)

definition rpc_response :: "json option \<Rightarrow> rpc_result \<Rightarrow> JSONRPCResponse" where
  "rpc_response i result = \<lparr>rs_ID = cloneRaw i, rs_Result = Some result, rs_Error = None\<rparr>"

definition errorResponse :: "json option \<Rightarrow> int \<Rightarrow> string \<Rightarrow> JSONRPCResponse" where
  "errorResponse i code message = \<lparr>rs_ID = cloneRaw i, rs_Result = None, rs_Error = Some (code, message)\<rparr>"

section \<open>HTTP\<close>

text \<open>\<^verbatim>\<open>http.Header\<close>: names are compared up to case; \<open>Set\<close> replaces all values, \<open>Get\<close> returns the first.\<close>

definition Header_Get :: "header list \<Rightarrow> string \<Rightarrow> string" where
  "Header_Get hs nm = (case find (\<lambda>h. EqualFold (fst h) nm) hs of Some h \<Rightarrow> snd h | None \<Rightarrow> [])"

definition Header_Set :: "string \<Rightarrow> string \<Rightarrow> header list \<Rightarrow> header list" where
  "Header_Set nm v hs = filter (\<lambda>h. \<not> EqualFold (fst h) nm) hs @ [(nm, v)]"

record http_request =
  hr_URL :: string
  hr_Header :: "header list"
  hr_Body :: JSONRPCRequest

text \<open>A response: its status, its headers, and what decoding its body as a JSON-RPC response gives, that is, an
  error of the decoder or the result and the error of the message.\<close>

record http_response =
  hs_StatusCode :: int
  hs_Header :: "header list"
  hs_Body :: "string + json \<times> (int \<times> string) option"

record mcp_env =
  request_error :: "JSONRPCRequest \<Rightarrow> string option"
  url_error :: "string \<Rightarrow> string option"
  Do :: "http_request \<Rightarrow> string + http_response"
  as_initialize :: "json \<Rightarrow> string + InitializeResult"
  as_tools :: "json \<Rightarrow> string + Tool list"
  as_call :: "json \<Rightarrow> string + CallToolResult"
  as_params :: "json \<Rightarrow> CallToolParams option"

definition TrimRight_slash :: "string \<Rightarrow> string" where
  "TrimRight_slash s = rev (dropWhile (\<lambda>c. c = CHR ''/'') (rev s))"

lemma find_filter_not: "(\<And>h. P h \<Longrightarrow> Q h) \<Longrightarrow> find P (filter Q hs) = find P hs"
  by (induction hs) auto

lemma find_append_cases: "find P (xs @ ys) = (case find P xs of Some x \<Rightarrow> Some x | None \<Rightarrow> find P ys)"
  by (induction xs) auto

lemma Header_Get_Set:
  "Header_Get (Header_Set nm v hs) nm' = (if EqualFold nm nm' then v else Header_Get hs nm')"
proof (cases "EqualFold nm nm'")
  case True
  then have "find (\<lambda>h. EqualFold (fst h) nm') (filter (\<lambda>h. \<not> EqualFold (fst h) nm) hs) = None"
    by (auto simp: find_None_iff EqualFold_def)
  then show ?thesis using True by (simp add: Header_Get_def Header_Set_def find_append_cases)
next
  case False
  then have "find (\<lambda>h. EqualFold (fst h) nm') (filter (\<lambda>h. \<not> EqualFold (fst h) nm) hs) = find (\<lambda>h. EqualFold (fst h) nm') hs"
    by (intro find_filter_not) (auto simp: EqualFold_def)
  then show ?thesis using False by (simp add: Header_Get_def Header_Set_def find_append_cases split: option.splits)
qed

section \<open>Tool names\<close>

text \<open>
  A router shows the tool \<open>t\<close> of a server as \<open>prefix.t\<close> and finds the server of a call by cutting the name at its
  first dot. The locale holds what both need: the servers of a profile, the prefix of each, the lookup by prefix,
  and the profiles the router accepts. Its laws make the lookup the inverse of the prefix.
\<close>

datatype tool_error = NotNamespaced | UnknownTool | DisabledTool

definition resolve_tool :: "(string \<Rightarrow> (string \<times> 's) option) \<Rightarrow> ('s \<Rightarrow> string \<Rightarrow> bool) \<Rightarrow> string \<Rightarrow> tool_error + string \<times> 's \<times> string"
where
  "resolve_tool by_prefix enabled nm =
     (case Cut CHR ''.'' nm of (prefix, tool, ok) \<Rightarrow>
        if \<not> ok \<or> tool = [] then Inl NotNamespaced
        else case by_prefix prefix of
               None \<Rightarrow> Inl UnknownTool
             | Some (i, s) \<Rightarrow> if \<not> enabled s tool then Inl DisabledTool else Inr (i, s, tool))"

lemma Cut_append_sep: "c \<notin> set a \<Longrightarrow> Cut c (a @ [c] @ b) = (a, b, True)"
  by (simp add: Cut_append)

lemma Cut_True: "Cut c s = (a, b, True) \<Longrightarrow> s = a @ [c] @ b \<and> c \<notin> set a"
proof -
  assume cut: "Cut c s = (a, b, True)"
  then have "c \<in> set s" by (auto simp: Cut_def Index_def split: if_splits)
  then obtain u v where "s = u @ c # v" "c \<notin> set u" by (metis split_list_first)
  then show ?thesis using cut by (simp add: Cut_append)
qed

locale tool_namespace =
  fixes valid :: "'p \<Rightarrow> bool"
    and members :: "'p \<Rightarrow> (string \<times> 's) list"
    and prefix_of :: "string \<Rightarrow> 's \<Rightarrow> string"
    and by_prefix :: "'p \<Rightarrow> string \<Rightarrow> (string \<times> 's) option"
    and enabled :: "'s \<Rightarrow> string \<Rightarrow> bool"
  assumes lookup_finds: "valid p \<Longrightarrow> (i, s) \<in> set (members p) \<Longrightarrow> by_prefix p (prefix_of i s) = Some (i, s)"
    and lookup_sound: "by_prefix p q = Some (i, s) \<Longrightarrow> (i, s) \<in> set (members p) \<and> prefix_of i s = q"
begin

lemma listed_resolves:
  assumes "valid p" "(i, s) \<in> set (members p)" "enabled s t" "t \<noteq> []" "CHR ''.'' \<notin> set (prefix_of i s)"
  shows "resolve_tool (by_prefix p) enabled (prefix_of i s @ ''.'' @ t) = Inr (i, s, t)"
  using assms lookup_finds [OF assms(1,2)] by (simp add: resolve_tool_def Cut_append)

lemma resolves_only_listed:
  assumes "resolve_tool (by_prefix p) enabled nm = Inr (i, s, t)"
  shows "(i, s) \<in> set (members p) \<and> enabled s t \<and> t \<noteq> [] \<and> nm = prefix_of i s @ ''.'' @ t"
proof -
  obtain q b ok where c: "Cut CHR ''.'' nm = (q, b, ok)" by (cases "Cut CHR ''.'' nm")
  have ok: ok and "b \<noteq> []" using assms by (auto simp: resolve_tool_def c split: if_splits)
  then have cut: "Cut CHR ''.'' nm = (q, b, True)" using c by simp
  have look: "by_prefix p q = Some (i, s)" and "enabled s b" "t = b"
    using assms ok \<open>b \<noteq> []\<close> by (auto simp: resolve_tool_def c split: option.splits if_splits)
  then show ?thesis using lookup_sound [OF look] Cut_True [OF cut] \<open>b \<noteq> []\<close> by simp
qed

text \<open>A dot in a prefix: the cut comes too early, and the tools of that server cannot be called under the name
  they are listed with unless the shorter prefix is another server's.\<close>

lemma dotted_prefix_misses:
  assumes "prefix_of i s = a @ ''.'' @ b" "CHR ''.'' \<notin> set a" "resolve_tool (by_prefix p) enabled (prefix_of i s @ ''.'' @ t) = Inr (j, s', t')"
  shows "prefix_of j s' = a \<and> t' = b @ ''.'' @ t"
proof -
  have cut: "Cut CHR ''.'' (prefix_of i s @ ''.'' @ t) = (a, b @ ''.'' @ t, True)"
    using Cut_append [OF assms(2), of "b @ ''.'' @ t"] assms(1) by simp
  show ?thesis using assms(3) cut lookup_sound [of p a] by (auto simp: resolve_tool_def split: if_splits option.splits)
qed

end

end
