(* ===== verification/MCP_Aggregator.thy ===== *)
theory MCP_Aggregator
  imports MCP_Types
begin

text \<open>
  The MCP profile router (\<^verbatim>\<open>src/examples/mcp-profile-router/aggregator.go\<close>): one endpoint that merges the tools of several
  MCP servers, finds the owner of every call, and carries the sessions of all servers in one. A handler returns
  the new aggregator, the requests it sent, and its reply. The requests of \<open>listTools\<close> are made concurrently and
  their results taken from a channel; the order in which they arrive is a parameter, constrained only to name
  every server once. \<^verbatim>\<open>sort.Slice\<close> does not say how it orders tools of the same name, so the theorems speak of the
  set of tools listed.
\<close>

section \<open>Profiles\<close>

record Server =
  sv_URL :: string
  sv_Prefix :: string
  sv_Credential :: string
  sv_EnabledTools :: "(string \<rightharpoonup> bool) option"

record Profile =
  pf_ID :: string
  pf_Name :: string
  pf_APIKey :: string
  pf_RouteHeader :: string
  pf_TimeoutMillis :: int
  pf_Servers :: "(string \<times> Server) list"

record ServerDump =
  sd_Target :: string
  sd_Prefix :: string
  sd_CredentialConfigured :: bool
  sd_LastToolsList :: string

record Aggregator =
  ag_profile :: Profile
  ag_timeout :: int
  ag_configErr :: "string option"
  ag_serverForPrefix :: "string \<rightharpoonup> string"
  ag_servers :: "string \<rightharpoonup> ServerDump"

definition serverPrefix :: "string \<Rightarrow> Server \<Rightarrow> string" where
  "serverPrefix serverID server = (if sv_Prefix server \<noteq> [] then sv_Prefix server else serverID)"

definition serverToolEnabled :: "Server \<Rightarrow> string \<Rightarrow> bool" where
  "serverToolEnabled server nm =
     (case sv_EnabledTools server of None \<Rightarrow> True | Some m \<Rightarrow> (case m nm of Some b \<Rightarrow> b | None \<Rightarrow> False))"

definition sortedServerIDs :: "(string \<times> 's) list \<Rightarrow> string list" where
  "sortedServerIDs servers = sort (map fst servers)"

definition zero_server :: Server where
  "zero_server = \<lparr>sv_URL = [], sv_Prefix = [], sv_Credential = [], sv_EnabledTools = None\<rparr>"

definition server_at :: "Profile \<Rightarrow> string \<Rightarrow> Server" where
  "server_at p i = (case map_of (pf_Servers p) i of Some s \<Rightarrow> s | None \<Rightarrow> zero_server)"

text \<open>The map built so far is returned with the error.\<close>

fun prefixes_loop :: "Profile \<Rightarrow> string list \<Rightarrow> (string \<rightharpoonup> string) \<Rightarrow> (string \<rightharpoonup> string) \<times> string option" where
  "prefixes_loop p [] out = (out, None)"
| "prefixes_loop p (i # is) out =
     (let prefix = serverPrefix i (server_at p i)
      in case out prefix of
           Some existing \<Rightarrow> (out, Some (''duplicate server prefix '' @ prefix @ '' for '' @ existing @ '' and '' @ i))
         | None \<Rightarrow> prefixes_loop p is (out(prefix \<mapsto> i)))"

definition profileServerPrefixes :: "Profile \<Rightarrow> (string \<rightharpoonup> string) \<times> string option" where
  "profileServerPrefixes p = prefixes_loop p (sortedServerIDs (pf_Servers p)) Map.empty"

definition ValidateProfile :: "Profile \<Rightarrow> string option" where
  "ValidateProfile p =
     (if pf_ID p = [] \<and> pf_Name p = [] then Some ''profile id or name is required''
      else if pf_Servers p = [] then Some ''at least one server is required''
      else snd (profileServerPrefixes p))"

definition NewAggregator :: "Profile \<Rightarrow> Aggregator" where
  "NewAggregator p =
     (let timeout = int64 (pf_TimeoutMillis p * Millisecond);
          (serverForPrefix, err) = profileServerPrefixes p
      in \<lparr>ag_profile = p, ag_timeout = (if timeout \<le> 0 then 800 * Millisecond else timeout), ag_configErr = err,
          ag_serverForPrefix = serverForPrefix, ag_servers = Map.empty\<rparr>)"

definition profileID :: "Aggregator \<Rightarrow> string" where
  "profileID a = (if pf_ID (ag_profile a) \<noteq> [] then pf_ID (ag_profile a) else pf_Name (ag_profile a))"

definition routeHeader :: "Aggregator \<Rightarrow> string" where
  "routeHeader a = (if pf_RouteHeader (ag_profile a) \<noteq> [] then pf_RouteHeader (ag_profile a) else ''x-mcp-server'')"

definition agg_timeoutMillis :: "Aggregator \<Rightarrow> int" where
  "agg_timeoutMillis a = (if pf_TimeoutMillis (ag_profile a) > 0 then pf_TimeoutMillis (ag_profile a) else 800)"

definition serverByPrefix :: "Aggregator \<Rightarrow> string \<Rightarrow> (string \<times> Server) option" where
  "serverByPrefix a prefix =
     (case ag_serverForPrefix a prefix of
        None \<Rightarrow> None
      | Some i \<Rightarrow> (case map_of (pf_Servers (ag_profile a)) i of None \<Rightarrow> None | Some s \<Rightarrow> Some (i, s)))"

definition recordServer :: "string \<Rightarrow> Server \<Rightarrow> string \<Rightarrow> Aggregator \<Rightarrow> Aggregator" where
  "recordServer i s st a = a\<lparr>ag_servers := (ag_servers a)(i \<mapsto>
     \<lparr>sd_Target = sv_URL s, sd_Prefix = serverPrefix i s, sd_CredentialConfigured = (sv_Credential s \<noteq> []),
      sd_LastToolsList = st\<rparr>)\<rparr>"

record AggregatorDump =
  ad_ProfileID :: string
  ad_ProfileName :: string
  ad_PublicAuth :: "string \<times> bool"
  ad_TimeoutMillis :: int
  ad_Servers :: "string \<rightharpoonup> ServerDump"

definition publicAuthType :: "string \<Rightarrow> string" where
  "publicAuthType apiKey = (if apiKey = [] then ''none'' else ''api_key'')"

definition Aggregator_Dump :: "Aggregator \<Rightarrow> AggregatorDump" where
  "Aggregator_Dump a = \<lparr>ad_ProfileID = profileID a, ad_ProfileName = pf_Name (ag_profile a),
     ad_PublicAuth = (publicAuthType (pf_APIKey (ag_profile a)), pf_APIKey (ag_profile a) \<noteq> []),
     ad_TimeoutMillis = agg_timeoutMillis a, ad_Servers = ag_servers a\<rparr>"

section \<open>Calling a server\<close>

definition client_request ::
  "Aggregator \<Rightarrow> string \<Rightarrow> Server \<Rightarrow> string \<Rightarrow> json option \<Rightarrow> string \<Rightarrow> rpc_params option \<Rightarrow> http_request"
where
  "client_request a serverID server sessionID i meth params =
     (let h1 = Header_Set ''accept'' ''application/json'' (Header_Set ''content-type'' ''application/json'' []);
          h2 = Header_Set (routeHeader a) (serverPrefix serverID server) h1;
          h3 = (if sv_Credential server \<noteq> [] then Header_Set ''authorization'' (sv_Credential server) h2 else h2);
          h4 = (if sessionID \<noteq> [] then Header_Set SessionIDHeader sessionID h3 else h3)
      in \<lparr>hr_URL = TrimRight_slash (sv_URL server) @ ''/mcp'',
          hr_Header = Header_Set ProtocolVersionHeader ProtocolVersion h4,
          hr_Body = \<lparr>rq_ID = cloneRaw i, rq_Method = meth, rq_Params = params\<rparr>\<rparr>)"

text \<open>A request is not sent when its body does not encode, or when its URL is not accepted.\<close>

definition send_error :: "mcp_env \<Rightarrow> http_request \<Rightarrow> string option" where
  "send_error env req = (case request_error env (hr_Body req) of Some e \<Rightarrow> Some e | None \<Rightarrow> url_error env (hr_URL req))"

text \<open>The requests sent, and an error or the session header of the response with the decoded result.\<close>

definition callServer ::
  "mcp_env \<Rightarrow> Aggregator \<Rightarrow> string \<Rightarrow> Server \<Rightarrow> string \<Rightarrow> json option \<Rightarrow> string \<Rightarrow> rpc_params option \<Rightarrow>
   (json \<Rightarrow> string + 'o) \<Rightarrow> http_request list \<times> (string + string \<times> 'o)"
where
  "callServer env a serverID server sessionID i meth params as_out =
     (let req = client_request a serverID server sessionID i meth params
      in case send_error env req of
           Some e \<Rightarrow> ([], Inl e)
         | None \<Rightarrow>
             ([req],
              case Do env req of
                Inl e \<Rightarrow> Inl e
              | Inr resp \<Rightarrow>
                  if hs_StatusCode resp \<noteq> 200 then Inl (''status '' @ Itoa (nat (hs_StatusCode resp)))
                  else case hs_Body resp of
                         Inl e \<Rightarrow> Inl e
                       | Inr (result, Some (code, message)) \<Rightarrow> Inl message
                       | Inr (result, None) \<Rightarrow>
                           (case as_out result of
                              Inl e \<Rightarrow> Inl e
                            | Inr out \<Rightarrow> Inr (Header_Get (hs_Header resp) SessionIDHeader, out))))"

definition callServerNoSessionResult ::
  "mcp_env \<Rightarrow> Aggregator \<Rightarrow> string \<Rightarrow> Server \<Rightarrow> string \<Rightarrow> json option \<Rightarrow> string \<Rightarrow> rpc_params option \<Rightarrow>
   (json \<Rightarrow> string + 'o) \<Rightarrow> http_request list \<times> (string + 'o)"
where
  "callServerNoSessionResult env a serverID server sessionID i meth params as_out =
     (case callServer env a serverID server sessionID i meth params as_out of
        (sent, r) \<Rightarrow> (sent, case r of Inl e \<Rightarrow> Inl e | Inr (_, out) \<Rightarrow> Inr out))"

definition backend_session :: "compositeSession \<Rightarrow> string \<Rightarrow> string" where
  "backend_session session i = (case cs_Backends session i of Some v \<Rightarrow> v | None \<Rightarrow> [])"

section \<open>The methods of a profile\<close>

definition initialize_params :: rpc_params where
  "initialize_params = InitializeParams ProtocolVersion (JObj []) (''mcp-profile-router-aggregator'', ''dev'')"

fun initialize_loop ::
  "mcp_env \<Rightarrow> Aggregator \<Rightarrow> json option \<Rightarrow> string list \<Rightarrow> (string \<times> string) list \<Rightarrow>
   Aggregator \<times> http_request list \<times> (string + (string \<times> string) list)"
where
  "initialize_loop env a i [] backends = (a, [], Inr backends)"
| "initialize_loop env a i (serverID # ids) backends =
     (let server = server_at (ag_profile a) serverID
      in case callServer env a serverID server [] i MethodInitialize (Some initialize_params) (as_initialize env) of
           (sent, Inl e) \<Rightarrow> (a, sent, Inl (serverID @ '': '' @ e))
         | (sent, Inr (sessionID, _)) \<Rightarrow>
             (case initialize_loop env (recordServer serverID server ''initialized'' a) i ids (backends @ [(serverID, sessionID)]) of
                (a', sent', r) \<Rightarrow> (a', sent @ sent', r)))"

definition initializeBackends ::
  "mcp_env \<Rightarrow> Aggregator \<Rightarrow> json option \<Rightarrow> Aggregator \<times> http_request list \<times> (string + string \<times> InitializeResult)"
where
  "initializeBackends env a i =
     (case initialize_loop env a i (sortedServerIDs (pf_Servers (ag_profile a))) [] of
        (a', sent, Inl e) \<Rightarrow> (a', sent, Inl e)
      | (a', sent, Inr backends) \<Rightarrow>
          (a', sent, Inr (encodeCompositeSession ''mcp-profile-router'' (profileID a) [] backends,
             \<lparr>ini_ProtocolVersion = ProtocolVersion, ini_Capabilities = JObj [(''tools'', JObj [])],
              ini_ServerInfo = (''mcp-profile-router'', ''dev'')\<rparr>)))"

definition list_call :: "mcp_env \<Rightarrow> Aggregator \<Rightarrow> json option \<Rightarrow> compositeSession \<Rightarrow> string \<Rightarrow> http_request list \<times> (string + Tool list)"
where
  "list_call env a i session serverID =
     callServerNoSessionResult env a serverID (server_at (ag_profile a) serverID) (backend_session session serverID) i
       MethodToolsList None (as_tools env)"

definition shown_tools :: "string \<Rightarrow> Server \<Rightarrow> Tool list \<Rightarrow> Tool list" where
  "shown_tools serverID server tools =
     map (\<lambda>t. t\<lparr>tool_Name := serverPrefix serverID server @ ''.'' @ tool_Name t\<rparr>)
       (filter (\<lambda>t. serverToolEnabled server (tool_Name t)) tools)"

fun merge_loop ::
  "(string \<Rightarrow> string + Tool list) \<Rightarrow> string list \<Rightarrow> Aggregator \<times> Tool list \<times> bool \<Rightarrow> Aggregator \<times> Tool list \<times> bool"
where
  "merge_loop res [] st = st"
| "merge_loop res (serverID # ids) (a, merged, healthyBackend) =
     (let server = server_at (ag_profile a) serverID
      in case res serverID of
           Inl e \<Rightarrow> merge_loop res ids (recordServer serverID server (''error: '' @ e) a, merged, healthyBackend)
         | Inr tools \<Rightarrow>
             merge_loop res ids (recordServer serverID server ''ok'' a, merged @ shown_tools serverID server tools, True))"

definition listTools ::
  "mcp_env \<Rightarrow> Aggregator \<Rightarrow> string list \<Rightarrow> json option \<Rightarrow> compositeSession \<Rightarrow>
   Aggregator \<times> http_request list \<times> Tool list \<times> bool"
where
  "listTools env a arrival i session =
     (let serverIDs = sortedServerIDs (pf_Servers (ag_profile a));
          sent = concat (map (\<lambda>s. fst (list_call env a i session s)) serverIDs)
      in case merge_loop (\<lambda>s. snd (list_call env a i session s)) arrival (a, [], False) of
           (a', merged, healthyBackend) \<Rightarrow> (a', sent, sort_key tool_Name merged, healthyBackend))"

definition callTool ::
  "mcp_env \<Rightarrow> Aggregator \<Rightarrow> json option \<Rightarrow> json option \<Rightarrow> compositeSession \<Rightarrow>
   Aggregator \<times> http_request list \<times> (JSONRPCResponse + CallToolResult)"
where
  "callTool env a i paramsRaw session =
     (case Option.bind paramsRaw (as_params env) of
        None \<Rightarrow> (a, [], Inl (errorResponse i (- 32602) ''invalid tools/call params''))
      | Some params \<Rightarrow>
          if par_Name params = [] then (a, [], Inl (errorResponse i (- 32602) ''invalid tools/call params''))
          else case Cut CHR ''.'' (par_Name params) of (prefix, backendTool, ok) \<Rightarrow>
            if \<not> ok \<or> backendTool = [] then (a, [], Inl (errorResponse i (- 32602) ''tool name must be namespaced''))
            else case serverByPrefix a prefix of
                   None \<Rightarrow> (a, [], Inl (errorResponse i (- 32602) (''unknown tool: '' @ par_Name params)))
                 | Some (serverID, server) \<Rightarrow>
                     if \<not> serverToolEnabled server backendTool
                     then (a, [], Inl (errorResponse i (- 32602) (''disabled tool: '' @ par_Name params)))
                     else case callServerNoSessionResult env a serverID server (backend_session session serverID) i
                                 MethodToolsCall (Some (CallParams (params\<lparr>par_Name := backendTool\<rparr>))) (as_call env) of
                            (sent, Inl e) \<Rightarrow>
                              (recordServer serverID server (''error: '' @ e) a, sent,
                               Inl (errorResponse i (- 32003) (''tool backend failed: '' @ serverID)))
                          | (sent, Inr out) \<Rightarrow> (recordServer serverID server ''ok'' a, sent, Inr out))"

section \<open>The HTTP handlers\<close>

text \<open>A request as a handler sees it: the wildcard of its path, its headers, and its body decoded as a JSON-RPC
  request whose parameters are still raw (\<open>None\<close>: the body does not decode).\<close>

record rpc_in =
  in_ID :: "json option"
  in_Method :: string
  in_Params :: "json option"

record agg_request =
  ar_PathValue :: string
  ar_Header :: "header list"
  ar_Body :: "rpc_in option"

record agg_reply =
  rp_Status :: int
  rp_Header :: "header list"
  rp_Body :: JSONRPCResponse

definition writeJSON :: "header list \<Rightarrow> int \<Rightarrow> JSONRPCResponse \<Rightarrow> agg_reply" where
  "writeJSON hs st v = \<lparr>rp_Status = st, rp_Header = Header_Set ''content-type'' ''application/json'' hs, rp_Body = v\<rparr>"

definition session_headers :: "string \<Rightarrow> header list" where
  "session_headers sessionID = Header_Set ProtocolVersionHeader ProtocolVersion (Header_Set SessionIDHeader sessionID [])"

definition authorized :: "Aggregator \<Rightarrow> agg_request \<Rightarrow> bool" where
  "authorized a r \<longleftrightarrow> pf_APIKey (ag_profile a) = [] \<or>
     Header_Get (ar_Header r) ''authorization'' = ''Bearer '' @ pf_APIKey (ag_profile a)"

definition sessionFromRequest :: "Aggregator \<Rightarrow> agg_request \<Rightarrow> compositeSession option" where
  "sessionFromRequest a r =
     (let sessionID = Header_Get (ar_Header r) SessionIDHeader
      in if sessionID = [] then None
         else case decodeCompositeSession sessionID of
                Inl e \<Rightarrow> None
              | Inr session \<Rightarrow> if cs_Profile session \<noteq> profileID a then None else Some session)"

definition bad_session :: "json option \<Rightarrow> agg_reply" where
  "bad_session i = writeJSON [] 400 (errorResponse i (- 32010) ''missing or invalid MCP session ID'')"

definition handleProfile ::
  "mcp_env \<Rightarrow> string list \<Rightarrow> agg_request \<Rightarrow> Aggregator \<Rightarrow> Aggregator \<times> http_request list \<times> agg_reply"
where
  "handleProfile env arrival r a =
     (case ag_configErr a of
        Some e \<Rightarrow> (a, [], writeJSON [] 500 (errorResponse None (- 32012) (''invalid profile config: '' @ e)))
      | None \<Rightarrow>
          if ar_PathValue r \<noteq> profileID a then (a, [], writeJSON [] 404 (errorResponse None (- 32004) ''unknown profile''))
          else if \<not> authorized a r then (a, [], writeJSON [] 401 (errorResponse None (- 32001) ''invalid profile credentials''))
          else case ar_Body r of
                 None \<Rightarrow> (a, [], writeJSON [] 400 (errorResponse None (- 32700) ''invalid JSON-RPC request''))
               | Some req \<Rightarrow>
                   if in_Method req = MethodInitialize
                   then (case initializeBackends env a (in_ID req) of
                           (a', sent, Inl e) \<Rightarrow> (a', sent, writeJSON [] 200 (errorResponse (in_ID req) (- 32011) (''initialize failed: '' @ e)))
                         | (a', sent, Inr (sessionID, result)) \<Rightarrow>
                             (a', sent, writeJSON (session_headers sessionID) 200 (rpc_response (in_ID req) (InitializeOut result))))
                   else if in_Method req = MethodToolsList
                   then (case sessionFromRequest a r of
                           None \<Rightarrow> (a, [], bad_session (in_ID req))
                         | Some session \<Rightarrow>
                             (case listTools env a arrival (in_ID req) session of
                                (a', sent, tools, ok) \<Rightarrow>
                                  (a', sent, if \<not> ok then writeJSON [] 200 (errorResponse (in_ID req) (- 32002) ''no MCP servers returned tools'')
                                             else writeJSON [] 200 (rpc_response (in_ID req) (ListToolsOut tools)))))
                   else if in_Method req = MethodToolsCall
                   then (case sessionFromRequest a r of
                           None \<Rightarrow> (a, [], bad_session (in_ID req))
                         | Some session \<Rightarrow>
                             (case callTool env a (in_ID req) (in_Params req) session of
                                (a', sent, Inl errResp) \<Rightarrow> (a', sent, writeJSON [] 200 errResp)
                              | (a', sent, Inr result) \<Rightarrow> (a', sent, writeJSON [] 200 (rpc_response (in_ID req) (CallToolOut result)))))
                   else (a, [], writeJSON [] 200 (errorResponse (in_ID req) (- 32601) (''unsupported method: '' @ in_Method req))))"

text \<open>The catalog endpoint forwards the parameters as they came; absent ones are the JSON value \<open>null\<close>.\<close>

definition mustRaw_params :: "json option \<Rightarrow> rpc_params" where
  "mustRaw_params raw = RawParams (case raw of Some v \<Rightarrow> v | None \<Rightarrow> JNull)"

definition missing_session :: "json option \<Rightarrow> agg_reply" where
  "missing_session i = writeJSON [] 400 (errorResponse i (- 32010) ''missing MCP session ID'')"

definition handleCatalogServer ::
  "mcp_env \<Rightarrow> agg_request \<Rightarrow> Aggregator \<Rightarrow> Aggregator \<times> http_request list \<times> agg_reply"
where
  "handleCatalogServer env r a =
     (case ag_configErr a of
        Some e \<Rightarrow> (a, [], writeJSON [] 500 (errorResponse None (- 32012) (''invalid profile config: '' @ e)))
      | None \<Rightarrow>
          (let serverID = ar_PathValue r
           in case map_of (pf_Servers (ag_profile a)) serverID of
                None \<Rightarrow> (a, [], writeJSON [] 404 (errorResponse None (- 32004) ''unknown catalog server''))
              | Some server \<Rightarrow>
                  (case ar_Body r of
                     None \<Rightarrow> (a, [], writeJSON [] 400 (errorResponse None (- 32700) ''invalid JSON-RPC request''))
                   | Some req \<Rightarrow>
                       (let sessionID = Header_Get (ar_Header r) SessionIDHeader; i = in_ID req
                        in if in_Method req = MethodInitialize
                           then (case callServer env a serverID server [] i MethodInitialize (Some (mustRaw_params (in_Params req))) (as_initialize env) of
                                   (sent, Inl e) \<Rightarrow> (a, sent, writeJSON [] 200 (errorResponse i (- 32011) (''initialize failed: '' @ e)))
                                 | (sent, Inr (session, out)) \<Rightarrow>
                                     (recordServer serverID server ''initialized'' a, sent,
                                      writeJSON (session_headers session) 200 (rpc_response i (InitializeOut out))))
                           else if in_Method req = MethodToolsList
                           then (if sessionID = [] then (a, [], missing_session i)
                                 else case callServerNoSessionResult env a serverID server sessionID i MethodToolsList None (as_tools env) of
                                        (sent, Inl e) \<Rightarrow> (recordServer serverID server (''error: '' @ e) a, sent,
                                           writeJSON [] 200 (errorResponse i (- 32002) (''tools/list failed: '' @ serverID)))
                                      | (sent, Inr out) \<Rightarrow> (recordServer serverID server ''ok'' a, sent,
                                           writeJSON [] 200 (rpc_response i (ListToolsOut out))))
                           else if in_Method req = MethodToolsCall
                           then (if sessionID = [] then (a, [], missing_session i)
                                 else case callServerNoSessionResult env a serverID server sessionID i MethodToolsCall
                                             (Some (mustRaw_params (in_Params req))) (as_call env) of
                                        (sent, Inl e) \<Rightarrow> (recordServer serverID server (''error: '' @ e) a, sent,
                                           writeJSON [] 200 (errorResponse i (- 32003) (''tool backend failed: '' @ serverID)))
                                      | (sent, Inr out) \<Rightarrow> (recordServer serverID server ''ok'' a, sent,
                                           writeJSON [] 200 (rpc_response i (CallToolOut out))))
                           else (a, [], writeJSON [] 200 (errorResponse i (- 32601) (''unsupported method: '' @ in_Method req)))))))"

section \<open>The names of the tools\<close>

text \<open>Recording what a server answered touches neither the profile nor the table of prefixes.\<close>

lemma recordServer_keeps [simp]:
  "ag_profile (recordServer i s st a) = ag_profile a" "ag_serverForPrefix (recordServer i s st a) = ag_serverForPrefix a"
  "profileID (recordServer i s st a) = profileID a" "routeHeader (recordServer i s st a) = routeHeader a"
  "ag_configErr (recordServer i s st a) = ag_configErr a"
  by (simp_all add: recordServer_def profileID_def routeHeader_def)

lemma serverByPrefix_recordServer [simp]: "serverByPrefix (recordServer i s st a) = serverByPrefix a"
  by (intro ext) (simp add: serverByPrefix_def split: option.split)

lemma client_request_recordServer [simp]: "client_request (recordServer i s st a) = client_request a"
  by (intro ext) (simp add: client_request_def Let_def)

lemma callServer_recordServer [simp]: "callServer env (recordServer i s st a) = callServer env a"
  by (intro ext) (simp add: callServer_def)

lemma set_sortedServerIDs [simp]: "set (sortedServerIDs servers) = fst ` set servers"
  by (simp add: sortedServerIDs_def)

lemma prefixes_loop_sound:
  "prefixes_loop p is out = (m, e) \<Longrightarrow> m q = Some i \<Longrightarrow> out q = Some i \<or> i \<in> set is \<and> serverPrefix i (server_at p i) = q"
proof (induction "is" arbitrary: out)
  case (Cons k "is")
  let ?q = "serverPrefix k (server_at p k)"
  show ?case
  proof (cases "out ?q")
    case None
    then have "prefixes_loop p is (out(?q \<mapsto> k)) = (m, e)" using Cons.prems by (simp add: Let_def)
    from Cons.IH [OF this Cons.prems(2)] show ?thesis by (auto split: if_splits)
  next
    case (Some x)
    then show ?thesis using Cons.prems by (simp add: Let_def)
  qed
qed simp

lemma prefixes_loop_complete:
  "prefixes_loop p is out = (m, None) \<Longrightarrow> (out q = Some i \<longrightarrow> m q = Some i) \<and>
     (\<forall>i\<in>set is. m (serverPrefix i (server_at p i)) = Some i)"
proof (induction "is" arbitrary: out q i)
  case (Cons k "is")
  let ?q = "serverPrefix k (server_at p k)"
  have free: "out ?q = None" and rest: "prefixes_loop p is (out(?q \<mapsto> k)) = (m, None)"
    using Cons.prems by (auto simp: Let_def split: option.splits)
  have "out q = Some i \<longrightarrow> m q = Some i" using Cons.IH [OF rest, of q i] free by (cases "q = ?q") auto
  moreover have "m ?q = Some k" using Cons.IH [OF rest, of ?q k] by simp
  ultimately show ?case using Cons.IH [OF rest] by simp
qed simp

definition valid_profile :: "Profile \<Rightarrow> bool" where
  "valid_profile p \<longleftrightarrow> distinct (map fst (pf_Servers p)) \<and> ValidateProfile p = None"

lemma server_at_member: "distinct (map fst (pf_Servers p)) \<Longrightarrow> (i, s) \<in> set (pf_Servers p) \<Longrightarrow> server_at p i = s"
  by (simp add: server_at_def)

lemma NewAggregator_fields [simp]:
  "ag_profile (NewAggregator p) = p" "ag_serverForPrefix (NewAggregator p) = fst (profileServerPrefixes p)"
  "ag_configErr (NewAggregator p) = snd (profileServerPrefixes p)" "ag_servers (NewAggregator p) = Map.empty"
  by (simp_all add: NewAggregator_def Let_def split: prod.split)

lemma router_lookup_finds:
  assumes "valid_profile p" "(i, s) \<in> set (pf_Servers p)"
  shows "serverByPrefix (NewAggregator p) (serverPrefix i s) = Some (i, s)"
proof -
  have d: "distinct (map fst (pf_Servers p))" and "snd (profileServerPrefixes p) = None"
    using assms(1) by (auto simp: valid_profile_def ValidateProfile_def split: if_splits)
  then have "prefixes_loop p (sortedServerIDs (pf_Servers p)) Map.empty = (fst (profileServerPrefixes p), None)"
    by (metis profileServerPrefixes_def prod.collapse)
  from prefixes_loop_complete [OF this] have "fst (profileServerPrefixes p) (serverPrefix i s) = Some i"
    using assms(2) server_at_member [OF d assms(2)] by force
  then show ?thesis using assms(2) d by (simp add: serverByPrefix_def)
qed

lemma router_lookup_sound:
  assumes "serverByPrefix (NewAggregator p) q = Some (i, s)"
  shows "(i, s) \<in> set (pf_Servers p) \<and> serverPrefix i s = q"
proof -
  have m: "fst (profileServerPrefixes p) q = Some i" and s: "map_of (pf_Servers p) i = Some s"
    using assms by (auto simp: serverByPrefix_def split: option.splits)
  have "serverPrefix i (server_at p i) = q"
    using prefixes_loop_sound [of p "sortedServerIDs (pf_Servers p)" Map.empty "fst (profileServerPrefixes p)" "snd (profileServerPrefixes p)" q i] m
    by (simp add: profileServerPrefixes_def)
  then show ?thesis using s map_of_SomeD [OF s] by (simp add: server_at_def)
qed

interpretation router_tools:
  tool_namespace valid_profile pf_Servers serverPrefix "\<lambda>p. serverByPrefix (NewAggregator p)" serverToolEnabled
  by unfold_locales (auto simp: router_lookup_finds dest: router_lookup_sound)

section \<open>What is sent to whom\<close>

definition same_config :: "Aggregator \<Rightarrow> Aggregator \<Rightarrow> bool" where
  "same_config a b \<longleftrightarrow> ag_profile a = ag_profile b \<and> ag_serverForPrefix a = ag_serverForPrefix b \<and> ag_configErr a = ag_configErr b"

lemma same_config_refl [simp]: "same_config a a"
  by (simp add: same_config_def)

lemma same_config_record [simp]: "same_config (recordServer i s st a) b = same_config a b" "same_config b (recordServer i s st a) = same_config b a"
  by (simp_all add: same_config_def)

lemma same_config_uses:
  assumes "same_config a b"
  shows "client_request a = client_request b" "serverByPrefix a = serverByPrefix b" "profileID a = profileID b"
    "authorized a = authorized b" "routeHeader a = routeHeader b"
proof -
  show r: "routeHeader a = routeHeader b" and "profileID a = profileID b" and "authorized a = authorized b"
    using assms by (simp_all add: same_config_def routeHeader_def profileID_def authorized_def fun_eq_iff)
  show "client_request a = client_request b" by (intro ext) (simp add: client_request_def r Let_def)
  show "serverByPrefix a = serverByPrefix b" using assms by (intro ext) (simp add: serverByPrefix_def same_config_def split: option.split)
qed

lemma callServer_cong: "same_config a b \<Longrightarrow> callServer env a = callServer env b"
  by (intro ext) (simp add: callServer_def same_config_uses)

lemma callServer_sent:
  "fst (callServer env a s sv sess i m ps dec) =
     (if send_error env (client_request a s sv sess i m ps) = None then [client_request a s sv sess i m ps] else [])"
  by (auto simp: callServer_def Let_def split: option.splits)

lemma callServerNoSession_sent:
  "fst (callServerNoSessionResult env a s sv sess i m ps dec) = fst (callServer env a s sv sess i m ps dec)"
  by (simp add: callServerNoSessionResult_def split: prod.split)

lemma callServer_ok_url:
  "snd (callServer env a s sv sess i m ps dec) = Inr x \<Longrightarrow> url_error env (TrimRight_slash (sv_URL sv) @ ''/mcp'') = None"
  by (auto simp: callServer_def Let_def send_error_def client_request_def split: option.splits)

lemma callServerNoSession_ok_url:
  "snd (callServerNoSessionResult env a s sv sess i m ps dec) = Inr x \<Longrightarrow> url_error env (TrimRight_slash (sv_URL sv) @ ''/mcp'') = None"
  by (cases "callServer env a s sv sess i m ps dec")
    (auto simp: callServerNoSessionResult_def split: sum.splits intro!: callServer_ok_url [of env a s sv sess i m ps dec])

text \<open>A call in terms of the name it is made under.\<close>

lemma callTool_resolved:
  assumes "Option.bind raw (as_params env) = Some params" "par_Name params \<noteq> []"
  shows "case resolve_tool (serverByPrefix a) serverToolEnabled (par_Name params) of
      Inl e \<Rightarrow> fst (snd (callTool env a i raw session)) = []
    | Inr (s, sv, t) \<Rightarrow> fst (snd (callTool env a i raw session)) =
        fst (callServer env a s sv (backend_session session s) i MethodToolsCall (Some (CallParams (params\<lparr>par_Name := t\<rparr>))) (as_call env))"
proof -
  obtain q b ok where c: "Cut CHR ''.'' (par_Name params) = (q, b, ok)" by (cases "Cut CHR ''.'' (par_Name params)")
  show ?thesis
  proof (cases "\<not> ok \<or> b = []")
    case False
    then show ?thesis
      using assms by (auto simp: resolve_tool_def callTool_def c callServerNoSession_sent [symmetric, where dec = "as_call env"]
          split: option.split sum.split prod.split)
  qed (use assms in \<open>auto simp: resolve_tool_def callTool_def c\<close>)
qed

lemma callTool_unnamed:
  "Option.bind raw (as_params env) = None \<or> par_Name (the (Option.bind raw (as_params env))) = [] \<Longrightarrow>
     fst (snd (callTool env a i raw session)) = []"
  by (auto simp: callTool_def split: option.splits)

section \<open>Merging\<close>

lemma merge_loop_keeps:
  "merge_loop res ids (a, merged, h) = (a', merged', h') \<Longrightarrow> same_config a' a"
proof (induction ids arbitrary: a merged h)
  case (Cons s ids)
  then show ?case by (cases "res s") (fastforce simp: Let_def)+
qed simp

lemma merge_loop_tools:
  "merge_loop res ids (a, merged, h) = (a', merged', h') \<Longrightarrow> t \<in> set merged' \<Longrightarrow> t \<in> set merged \<or>
     (\<exists>s tools. s \<in> set ids \<and> res s = Inr tools \<and> t \<in> set (shown_tools s (server_at (ag_profile a) s) tools))"
proof (induction ids arbitrary: a merged h)
  case (Cons s ids)
  show ?case
  proof (cases "res s")
    case (Inl e)
    then have step: "merge_loop res ids (recordServer s (server_at (ag_profile a) s) (''error: '' @ e) a, merged, h) = (a', merged', h')"
      using Cons.prems(1) by (simp add: Let_def)
    from Cons.IH [OF step Cons.prems(2)] show ?thesis by auto
  next
    case (Inr tools)
    then have step: "merge_loop res ids (recordServer s (server_at (ag_profile a) s) ''ok'' a,
        merged @ shown_tools s (server_at (ag_profile a) s) tools, True) = (a', merged', h')"
      using Cons.prems(1) by (simp add: Let_def)
    from Cons.IH [OF step Cons.prems(2)] Inr show ?thesis by auto
  qed
qed simp

lemma listTools_tools:
  assumes "listTools env a arrival i session = (a', sent, tools, ok)" "t \<in> set tools"
  shows "same_config a' a"
    "\<exists>s ts tool. s \<in> set arrival \<and> snd (list_call env a i session s) = Inr ts \<and> tool \<in> set ts \<and>
       serverToolEnabled (server_at (ag_profile a) s) (tool_Name tool) \<and>
       t = tool\<lparr>tool_Name := serverPrefix s (server_at (ag_profile a) s) @ ''.'' @ tool_Name tool\<rparr>"
proof -
  let ?res = "\<lambda>s. snd (list_call env a i session s)"
  obtain merged where m: "merge_loop ?res arrival (a, [], False) = (a', merged, ok)" and t: "tools = sort_key tool_Name merged"
    using assms(1) by (auto simp: listTools_def Let_def split: prod.splits)
  show "same_config a' a" by (rule merge_loop_keeps [OF m])
  have "t \<in> set merged" using assms(2) t by simp
  from merge_loop_tools [OF m this] show "\<exists>s ts tool. s \<in> set arrival \<and> ?res s = Inr ts \<and> tool \<in> set ts \<and>
       serverToolEnabled (server_at (ag_profile a) s) (tool_Name tool) \<and>
       t = tool\<lparr>tool_Name := serverPrefix s (server_at (ag_profile a) s) @ ''.'' @ tool_Name tool\<rparr>"
    by (auto simp: shown_tools_def)
qed

section \<open>Sessions\<close>

text \<open>The session a server issues when it is initialized; empty when its response has no session header.\<close>

definition initialize_call :: "mcp_env \<Rightarrow> Aggregator \<Rightarrow> json option \<Rightarrow> string \<Rightarrow> http_request list \<times> (string + string \<times> InitializeResult)" where
  "initialize_call env a i s =
     callServer env a s (server_at (ag_profile a) s) [] i MethodInitialize (Some initialize_params) (as_initialize env)"

definition issued :: "mcp_env \<Rightarrow> Aggregator \<Rightarrow> json option \<Rightarrow> string \<Rightarrow> string" where
  "issued env a i s = (case snd (initialize_call env a i s) of Inr (sessionID, _) \<Rightarrow> sessionID | Inl _ \<Rightarrow> [])"

lemma initialize_call_cong: "same_config a b \<Longrightarrow> initialize_call env a = initialize_call env b"
  by (intro ext) (simp add: initialize_call_def callServer_cong, simp add: same_config_def)

lemma issued_cong: "same_config a b \<Longrightarrow> issued env a = issued env b"
  by (intro ext) (simp add: issued_def initialize_call_cong)

lemma initialize_loop_issues:
  "initialize_loop env a i ids bs = (a', sent, Inr bs') \<Longrightarrow>
     same_config a' a \<and> bs' = bs @ map (\<lambda>s. (s, issued env a i s)) ids"
proof (induction ids arbitrary: a bs sent)
  case (Cons s ids)
  let ?c = "initialize_call env a i s" and ?a = "recordServer s (server_at (ag_profile a) s) ''initialized'' a"
  obtain sess out where ok: "snd ?c = Inr (sess, out)" and
    rest: "\<exists>sent'. initialize_loop env ?a i ids (bs @ [(s, sess)]) = (a', sent', Inr bs')"
    using Cons.prems by (cases ?c; cases "snd ?c") (auto simp: Let_def initialize_call_def split: prod.splits sum.splits)
  then obtain sent' where "initialize_loop env ?a i ids (bs @ [(s, sess)]) = (a', sent', Inr bs')" by blast
  from Cons.IH [OF this] show ?case using ok issued_cong [of ?a a env] by (simp add: issued_def)
qed simp

lemma Header_Get_session: "Header_Get (rp_Header (writeJSON (session_headers x) st v)) SessionIDHeader = x"
  by (simp add: writeJSON_def session_headers_def Header_Get_Set EqualFold_def ToLower_def lower_char_def mcp_names)

lemma map_of_pairs: "map_of (map (\<lambda>s. (s, f s)) ids) s = (if s \<in> set ids then Some (f s) else None)"
  by (induction ids) auto

lemma initialized_session:
  assumes "initializeBackends env a i = (a', sent, Inr (sessionID, out))"
    and "CHR ''@'' \<notin> set (profileID a)" "distinct (map fst (pf_Servers (ag_profile a)))"
    and "list_all good_backend (map fst (pf_Servers (ag_profile a)))"
  shows "same_config a' a"
    "decodeCompositeSession sessionID = Inr \<lparr>cs_Route = ''mcp-profile-router'', cs_Profile = profileID a, cs_Subject = [],
       cs_Backends = (\<lambda>s. if s \<in> fst ` set (pf_Servers (ag_profile a)) then Some (issued env a i s) else None)\<rparr>"
proof -
  let ?ids = "sortedServerIDs (pf_Servers (ag_profile a))"
  obtain bs where loop: "initialize_loop env a i ?ids [] = (a', sent, Inr bs)"
    and sess: "sessionID = encodeCompositeSession ''mcp-profile-router'' (profileID a) [] bs"
    using assms(1) by (auto simp: initializeBackends_def split: prod.splits sum.splits)
  have bs: "bs = map (\<lambda>s. (s, issued env a i s)) ?ids" and keep: "same_config a' a"
    using initialize_loop_issues [OF loop] by auto
  show "same_config a' a" by (rule keep)
  have keys: "map fst bs = ?ids" by (simp add: bs o_def)
  have "decodeCompositeSession sessionID =
      Inr \<lparr>cs_Route = ''mcp-profile-router'', cs_Profile = profileID a, cs_Subject = [], cs_Backends = map_of bs\<rparr>"
    unfolding sess
  proof (rule decode_encode_session)
    show "CHR ''@'' \<notin> set ''mcp-profile-router''" by simp
    show "distinct (map fst bs)" using assms(3) by (simp only: keys) (simp add: sortedServerIDs_def)
    show "list_all good_backend (map fst bs)" using assms(4) by (simp only: keys) (simp add: sortedServerIDs_def list_all_iff)
  qed (rule assms(2))
  moreover have "map_of bs = (\<lambda>s. if s \<in> fst ` set (pf_Servers (ag_profile a)) then Some (issued env a i s) else None)"
    by (intro ext) (simp add: bs map_of_pairs)
  ultimately show "decodeCompositeSession sessionID = Inr \<lparr>cs_Route = ''mcp-profile-router'', cs_Profile = profileID a, cs_Subject = [],
       cs_Backends = (\<lambda>s. if s \<in> fst ` set (pf_Servers (ag_profile a)) then Some (issued env a i s) else None)\<rparr>"
    by simp
qed

lemma listTools_sent:
  "fst (snd (listTools env a arrival i session)) =
     concat (map (\<lambda>s. fst (list_call env a i session s)) (sortedServerIDs (pf_Servers (ag_profile a))))"
  by (simp add: listTools_def Let_def split: prod.split)

lemma list_call_sent:
  "fst (list_call env a i session s) =
     (if send_error env (client_request a s (server_at (ag_profile a) s) (backend_session session s) i MethodToolsList None) = None
      then [client_request a s (server_at (ag_profile a) s) (backend_session session s) i MethodToolsList None] else [])"
  by (simp add: list_call_def callServerNoSession_sent callServer_sent)

section \<open>A profile with two servers\<close>

definition demo_profile :: Profile where
  "demo_profile = \<lparr>pf_ID = ''9b3f'', pf_Name = ''kiwi'', pf_APIKey = [], pf_RouteHeader = [], pf_TimeoutMillis = 0,
     pf_Servers = [(''kiwi'', \<lparr>sv_URL = ''http://kiwi/'', sv_Prefix = ''k'', sv_Credential = ''Bearer x'', sv_EnabledTools = None\<rparr>),
                   (''aws'', \<lparr>sv_URL = ''http://aws'', sv_Prefix = [], sv_Credential = [], sv_EnabledTools = None\<rparr>)]\<rparr>"

definition demo_tool :: Tool where
  "demo_tool = \<lparr>tool_Name = ''search'', tool_Description = [], tool_InputSchema = JObj []\<rparr>"

definition demo_mcp_env :: mcp_env where
  "demo_mcp_env = \<lparr>request_error = (\<lambda>_. None), url_error = (\<lambda>_. None),
     Do = (\<lambda>req. Inr \<lparr>hs_StatusCode = 200, hs_Header = [(''Mcp-Session-Id'', ''s,'')], hs_Body = Inr (JNull, None)\<rparr>),
     as_initialize = (\<lambda>_. Inr \<lparr>ini_ProtocolVersion = ProtocolVersion, ini_Capabilities = JNull, ini_ServerInfo = ([], [])\<rparr>),
     as_tools = (\<lambda>_. Inr [demo_tool]),
     as_call = (\<lambda>_. Inr \<lparr>ctr_Content = [], ctr_StructuredContent = JNull, ctr_IsError = False\<rparr>),
     as_params = (\<lambda>j. case j of JStr n \<Rightarrow> Some \<lparr>par_Name = n, par_Arguments = JNull\<rparr> | _ \<Rightarrow> None)\<rparr>"

definition demo_session :: compositeSession where
  "demo_session = \<lparr>cs_Route = [], cs_Profile = ''9b3f'', cs_Subject = [], cs_Backends = [''kiwi'' \<mapsto> ''s'']\<rparr>"

definition demo_list :: "Aggregator \<times> http_request list \<times> Tool list \<times> bool" where
  "demo_list = listTools demo_mcp_env (NewAggregator demo_profile) [''kiwi'', ''aws''] None demo_session"

lemma demo_profile_valid: "valid_profile demo_profile"
  by code_simp

section \<open>Properties\<close>

text \<open>Every tool a client is shown can be called, and the call goes home: for a profile that
  \<open>ValidateProfile\<close> accepts and whose prefixes contain no dot, whatever the backends answer and in whatever order,
  each tool in the answer to \<open>tools/list\<close> is an enabled tool of one member server under its prefix, and a
  \<open>tools/call\<close> with the listed name (if the server's own name for the tool is not empty) sends exactly one request,
  to that server, with that server's session and with the server's own name of the tool.\<close>

lemma listed_tools_route_home:
  assumes "valid_profile p" "list_all (\<lambda>(s, sv). CHR ''.'' \<notin> set (serverPrefix s sv)) (pf_Servers p)"
    and "set arrival = fst ` set (pf_Servers p)"
    and "listTools env (NewAggregator p) arrival i session = (a', sent, tools, ok)" "t \<in> set tools" "\<forall>q. request_error env q = None"
  shows "\<exists>s sv tool ts. (s, sv) \<in> set (pf_Servers p) \<and> snd (list_call env (NewAggregator p) i session s) = Inr ts \<and>
    tool \<in> set ts \<and> serverToolEnabled sv (tool_Name tool) \<and> t = tool\<lparr>tool_Name := serverPrefix s sv @ ''.'' @ tool_Name tool\<rparr> \<and>
    (tool_Name tool \<noteq> [] \<longrightarrow>
       (\<forall>raw params j. as_params env raw = Some params \<and> par_Name params = tool_Name t \<longrightarrow>
          fst (snd (callTool env a' j (Some raw) session)) =
            [client_request (NewAggregator p) s sv (backend_session session s) j MethodToolsCall
               (Some (CallParams (params\<lparr>par_Name := tool_Name tool\<rparr>)))]))"
proof -
  let ?a = "NewAggregator p"
  have d: "distinct (map fst (pf_Servers p))" using assms(1) by (simp add: valid_profile_def)
  note keep = listTools_tools(1) [OF assms(4,5)]
  obtain s ts tool where s: "s \<in> set arrival" "snd (list_call env ?a i session s) = Inr ts" "tool \<in> set ts"
      "serverToolEnabled (server_at p s) (tool_Name tool)"
    and t: "t = tool\<lparr>tool_Name := serverPrefix s (server_at p s) @ ''.'' @ tool_Name tool\<rparr>"
    using listTools_tools(2) [OF assms(4,5)] by auto
  let ?sv = "server_at p s"
  have mem: "(s, ?sv) \<in> set (pf_Servers p)" using s(1) assms(3) d by (auto simp: server_at_def)
  have url: "url_error env (TrimRight_slash (sv_URL ?sv) @ ''/mcp'') = None"
    using s(2) by (auto simp: list_call_def dest: callServerNoSession_ok_url)
  have "fst (snd (callTool env a' j (Some raw) session)) = [client_request ?a s ?sv (backend_session session s) j MethodToolsCall
      (Some (CallParams (params\<lparr>par_Name := tool_Name tool\<rparr>)))]"
    if "tool_Name tool \<noteq> []" "as_params env raw = Some params" "par_Name params = tool_Name t" for raw params j
  proof -
    have "CHR ''.'' \<notin> set (serverPrefix s ?sv)" using assms(2) mem by (auto simp: list_all_iff)
    then have "resolve_tool (serverByPrefix ?a) serverToolEnabled (par_Name params) = Inr (s, ?sv, tool_Name tool)"
      using router_tools.listed_resolves [OF assms(1) mem s(4) that(1)] that(3) t by simp
    moreover have "par_Name params \<noteq> []" using that(3) t by simp
    ultimately show ?thesis
      using callTool_resolved [of "Some raw" env params a' j session] that(2) url
      using assms(6) by (simp add: same_config_uses [OF keep] callServer_sent send_error_def client_request_def Let_def)
  qed
  then show ?thesis using mem s t by (intro exI [of _ s] exI [of _ ?sv] exI [of _ tool] exI [of _ ts]) simp
qed

lemma listed_tools_route_home_example:
  "\<exists>s sv tool ts. (s, sv) \<in> set (pf_Servers demo_profile) \<and> snd (list_call demo_mcp_env (NewAggregator demo_profile) None demo_session s) = Inr ts \<and>
    tool \<in> set ts \<and> serverToolEnabled sv (tool_Name tool) \<and>
    demo_tool\<lparr>tool_Name := ''k.search''\<rparr> = tool\<lparr>tool_Name := serverPrefix s sv @ ''.'' @ tool_Name tool\<rparr> \<and>
    (tool_Name tool \<noteq> [] \<longrightarrow>
       (\<forall>raw params j. as_params demo_mcp_env raw = Some params \<and> par_Name params = tool_Name (demo_tool\<lparr>tool_Name := ''k.search''\<rparr>) \<longrightarrow>
          fst (snd (callTool demo_mcp_env (fst demo_list) j (Some raw) demo_session)) =
            [client_request (NewAggregator demo_profile) s sv (backend_session demo_session s) j MethodToolsCall
               (Some (CallParams (params\<lparr>par_Name := tool_Name tool\<rparr>)))]))"
proof (rule listed_tools_route_home [OF demo_profile_valid])
  show "listTools demo_mcp_env (NewAggregator demo_profile) [''kiwi'', ''aws''] None demo_session =
    (fst demo_list, fst (snd demo_list), fst (snd (snd demo_list)), snd (snd (snd demo_list)))" by (simp add: demo_list_def)
  have "demo_tool\<lparr>tool_Name := ''k.search''\<rparr> \<in> set (fst (snd (snd demo_list)))" by code_simp
  then show "demo_tool\<lparr>tool_Name := ''k.search''\<rparr> \<in> set (fst (snd (snd demo_list)))" .
  show "list_all (\<lambda>(s, sv). CHR ''.'' \<notin> set (serverPrefix s sv)) (pf_Servers demo_profile)" by code_simp
  show "set [''kiwi'', ''aws''] = fst ` set (pf_Servers demo_profile)" by (simp add: demo_profile_def)
  show "\<forall>q. request_error demo_mcp_env q = None" by (simp add: demo_mcp_env_def)
qed

text \<open>The headers that the router sets itself; a profile may name another one for the route.\<close>

definition own_route_header :: "Profile \<Rightarrow> bool" where
  "own_route_header p \<longleftrightarrow> list_all (\<lambda>nm. \<not> EqualFold (routeHeader (NewAggregator p)) nm)
     [''content-type'', ''accept'', ''authorization'', SessionIDHeader, ProtocolVersionHeader]"

lemma client_request_wire:
  assumes "own_route_header p" and q_def: "q = client_request (NewAggregator p) s sv session i meth params"
  shows "hr_URL q = TrimRight_slash (sv_URL sv) @ ''/mcp''" "Header_Get (hr_Header q) SessionIDHeader = session"
    "Header_Get (hr_Header q) ''authorization'' = sv_Credential sv" "Header_Get (hr_Header q) (routeHeader (NewAggregator p)) = serverPrefix s sv"
    "hr_Body q = \<lparr>rq_ID = cloneRaw i, rq_Method = meth, rq_Params = params\<rparr>"
proof -
  let ?r = "routeHeader (NewAggregator p)"
  have r: "\<not> EqualFold ?r nm" "\<not> EqualFold nm ?r" if "nm \<in> {''content-type'', ''accept'', ''authorization'', SessionIDHeader, ProtocolVersionHeader}" for nm
    using assms(1) that by (auto simp: own_route_header_def EqualFold_def)
  have fold: "EqualFold ?r ?r" "EqualFold ''authorization'' ''authorization''" "EqualFold SessionIDHeader SessionIDHeader"
    by (simp_all add: EqualFold_def)
  have names: "\<not> EqualFold a b" if "a \<in> {''content-type'', ''accept'', ''authorization'', SessionIDHeader, ProtocolVersionHeader}"
      "b \<in> {''authorization'', SessionIDHeader}" "a \<noteq> b" for a b
    using that by (auto simp: EqualFold_def ToLower_def lower_char_def mcp_names)
  have nil: "Header_Get [] nm = []" for nm by (simp add: Header_Get_def)
  have ne: "SessionIDHeader \<noteq> ProtocolVersionHeader" "''authorization'' \<noteq> SessionIDHeader" "''authorization'' \<noteq> ProtocolVersionHeader"
      "''content-type'' \<noteq> SessionIDHeader" "''accept'' \<noteq> SessionIDHeader" by (simp_all add: mcp_names)
  show "hr_URL q = TrimRight_slash (sv_URL sv) @ ''/mcp''" "hr_Body q = \<lparr>rq_ID = cloneRaw i, rq_Method = meth, rq_Params = params\<rparr>"
    by (simp_all add: q_def client_request_def Let_def)
  show "Header_Get (hr_Header q) SessionIDHeader = session" "Header_Get (hr_Header q) ''authorization'' = sv_Credential sv"
    "Header_Get (hr_Header q) ?r = serverPrefix s sv"
    using ne ne [symmetric] by (simp_all add: q_def client_request_def Let_def Header_Get_Set r fold names nil)
qed

text \<open>C19. A tool call reaches the owner of the tool or nobody. Whatever the parameters and the session are, \<open>callTool\<close>
  sends nothing, or exactly one request. That one goes to the \<^verbatim>\<open>/mcp\<close> address of a member server of the profile that
  has the tool enabled; its session header is the session that the client's session names for this server, and
  empty if there is none; its authorization header is the credential of this server, and empty if it has none; its
  route header is the server's prefix; and its body is the client's call with its id, under the client's tool name
  without the prefix. In a profile that \<open>ValidateProfile\<close> accepts, a call of an enabled tool of a server whose prefix
  has no dot is sent, unless its body does not encode or its URL is not accepted. The profile's route header is not
  one of the headers the router sets itself.\<close>

theorem calls_reach_only_the_owner:
  fixes env :: mcp_env and session :: compositeSession and i raw :: "json option"
  assumes "own_route_header p"
  defines "sent \<equiv> fst (snd (callTool env (NewAggregator p) i raw session))"
  shows "(sent = [] \<or>
    (\<exists>params s sv tool q. sent = [q] \<and> Option.bind raw (as_params env) = Some params \<and> (s, sv) \<in> set (pf_Servers p) \<and>
      serverToolEnabled sv tool \<and> par_Name params = serverPrefix s sv @ ''.'' @ tool \<and>
      hr_URL q = TrimRight_slash (sv_URL sv) @ ''/mcp'' \<and>
      Header_Get (hr_Header q) SessionIDHeader = (case cs_Backends session s of Some v \<Rightarrow> v | None \<Rightarrow> []) \<and>
      Header_Get (hr_Header q) ''authorization'' = sv_Credential sv \<and>
      Header_Get (hr_Header q) (routeHeader (NewAggregator p)) = serverPrefix s sv \<and>
      hr_Body q = \<lparr>rq_ID = i, rq_Method = MethodToolsCall, rq_Params = Some (CallParams (params\<lparr>par_Name := tool\<rparr>))\<rparr>)) \<and>
   (\<forall>params s sv tool. valid_profile p \<and> Option.bind raw (as_params env) = Some params \<and> (s, sv) \<in> set (pf_Servers p) \<and>
      CHR ''.'' \<notin> set (serverPrefix s sv) \<and> serverToolEnabled sv tool \<and> tool \<noteq> [] \<and> par_Name params = serverPrefix s sv @ ''.'' @ tool \<and>
      (\<forall>q. send_error env q = None) \<longrightarrow> length sent = 1)"
proof (rule conjI)
  let ?a = "NewAggregator p"
  show "sent = [] \<or> (\<exists>params s sv tool q. sent = [q] \<and> Option.bind raw (as_params env) = Some params \<and> (s, sv) \<in> set (pf_Servers p) \<and>
      serverToolEnabled sv tool \<and> par_Name params = serverPrefix s sv @ ''.'' @ tool \<and>
      hr_URL q = TrimRight_slash (sv_URL sv) @ ''/mcp'' \<and>
      Header_Get (hr_Header q) SessionIDHeader = (case cs_Backends session s of Some v \<Rightarrow> v | None \<Rightarrow> []) \<and>
      Header_Get (hr_Header q) ''authorization'' = sv_Credential sv \<and>
      Header_Get (hr_Header q) (routeHeader ?a) = serverPrefix s sv \<and>
      hr_Body q = \<lparr>rq_ID = i, rq_Method = MethodToolsCall, rq_Params = Some (CallParams (params\<lparr>par_Name := tool\<rparr>))\<rparr>)"
  proof (cases "Option.bind raw (as_params env)")
    case (Some params)
    show ?thesis
    proof (cases "par_Name params = []")
      case False
      note call = callTool_resolved [OF Some False, of ?a i session]
      show ?thesis
      proof (cases "resolve_tool (serverByPrefix ?a) serverToolEnabled (par_Name params)")
        case (Inr x)
        obtain s sv tool where x: "x = (s, sv, tool)" by (cases x)
        let ?q = "client_request ?a s sv (backend_session session s) i MethodToolsCall (Some (CallParams (params\<lparr>par_Name := tool\<rparr>)))"
        have clone: "cloneRaw i = i" by (simp add: cloneRaw_def split: option.split)
        have "sent = [] \<or> sent = [?q]" using call Inr x by (auto simp: sent_def callServer_sent)
        moreover have "(s, sv) \<in> set (pf_Servers p) \<and> serverToolEnabled sv tool \<and> par_Name params = serverPrefix s sv @ ''.'' @ tool"
          using router_tools.resolves_only_listed [of p "par_Name params" s sv tool] Inr x by blast
        ultimately show ?thesis
          using Some client_request_wire [OF assms(1), of ?q s sv "backend_session session s" i MethodToolsCall "Some (CallParams (params\<lparr>par_Name := tool\<rparr>))", OF refl]
          unfolding clone backend_session_def by blast
      qed (use call in \<open>auto simp: sent_def\<close>)
    qed (use Some callTool_unnamed in \<open>auto simp: sent_def\<close>)
  qed (use callTool_unnamed in \<open>auto simp: sent_def\<close>)
  show "\<forall>params s sv tool. valid_profile p \<and> Option.bind raw (as_params env) = Some params \<and> (s, sv) \<in> set (pf_Servers p) \<and>
      CHR ''.'' \<notin> set (serverPrefix s sv) \<and> serverToolEnabled sv tool \<and> tool \<noteq> [] \<and> par_Name params = serverPrefix s sv @ ''.'' @ tool \<and>
      (\<forall>q. send_error env q = None) \<longrightarrow> length sent = 1"
  proof (intro allI impI, elim conjE)
    fix params s sv tool
    assume call: "valid_profile p" "Option.bind raw (as_params env) = Some params" "(s, sv) \<in> set (pf_Servers p)"
      "CHR ''.'' \<notin> set (serverPrefix s sv)" "serverToolEnabled sv tool" "tool \<noteq> []" "par_Name params = serverPrefix s sv @ ''.'' @ tool"
      "\<forall>q. send_error env q = None"
    have "resolve_tool (serverByPrefix ?a) serverToolEnabled (par_Name params) = Inr (s, sv, tool)"
      using router_tools.listed_resolves [OF call(1,3,5,6,4)] call(7) by simp
    then show "length sent = 1"
      using callTool_resolved [OF call(2), of ?a i session] call(7,8) by (simp add: sent_def callServer_sent)
  qed
qed

theorem calls_reach_only_the_owner_witness:
  "\<exists>q. fst (snd (callTool demo_mcp_env (NewAggregator demo_profile) None (Some (JStr ''k.search'')) demo_session)) = [q] \<and>
     hr_URL q = ''http://kiwi/mcp'' \<and> Header_Get (hr_Header q) SessionIDHeader = ''s'' \<and> Header_Get (hr_Header q) ''authorization'' = ''Bearer x''"
proof -
  let ?sent = "fst (snd (callTool demo_mcp_env (NewAggregator demo_profile) None (Some (JStr ''k.search'')) demo_session))"
  have own: "own_route_header demo_profile" by code_simp
  note both = calls_reach_only_the_owner [OF own, of demo_mcp_env None "Some (JStr ''k.search'')" demo_session]
  have "length ?sent = 1" by code_simp
  then obtain params s sv tool q where q: "?sent = [q]" "(s, sv) \<in> set (pf_Servers demo_profile)" "as_params demo_mcp_env (JStr ''k.search'') = Some params"
      "par_Name params = serverPrefix s sv @ ''.'' @ tool" "hr_URL q = TrimRight_slash (sv_URL sv) @ ''/mcp''"
      "Header_Get (hr_Header q) SessionIDHeader = (case cs_Backends demo_session s of Some v \<Rightarrow> v | None \<Rightarrow> [])"
      "Header_Get (hr_Header q) ''authorization'' = sv_Credential sv"
    using both [THEN conjunct1] by auto
  have "TrimRight_slash ''http://kiwi/'' = ''http://kiwi''" by code_simp
  then show ?thesis using q by (auto simp: demo_profile_def demo_mcp_env_def demo_session_def serverPrefix_def)
qed

text \<open>One session for all backends: after a successful \<open>initialize\<close>, a client that sends the session id it was
  given with \<open>tools/list\<close> makes the router ask every member server once, and each with exactly the session that
  server issued itself (and without a session header if it issued none), whatever bytes those sessions are. The
  profile id must not contain \<open>@\<close>, and the names of the servers no separator of the session format.\<close>

lemma every_backend_gets_its_session:
  assumes "distinct (map fst (pf_Servers p))" "list_all good_backend (map fst (pf_Servers p))"
    and "CHR ''@'' \<notin> set (profileID (NewAggregator p))"
    and "ar_Body r1 = Some \<lparr>in_ID = i, in_Method = MethodInitialize, in_Params = ps\<rparr>"
    and "handleProfile env1 arrival1 r1 (NewAggregator p) = (a, sent1, reply)" "rs_Error (rp_Body reply) = None"
    and "ar_PathValue r2 = profileID a" "authorized a r2"
    and "ar_Body r2 = Some \<lparr>in_ID = j, in_Method = MethodToolsList, in_Params = qs\<rparr>"
    and "Header_Get (ar_Header r2) SessionIDHeader = Header_Get (rp_Header reply) SessionIDHeader"
    and "list_all (\<lambda>(s, sv). url_error env2 (TrimRight_slash (sv_URL sv) @ ''/mcp'') = None) (pf_Servers p)"
    and "\<forall>q. request_error env2 q = None"
  shows "fst (snd (handleProfile env2 arrival2 r2 a)) =
    map (\<lambda>s. client_request a s (server_at p s) (issued env1 (NewAggregator p) i s) j MethodToolsList None)
      (sortedServerIDs (pf_Servers p))"
proof -
  let ?a = "NewAggregator p"
  have ne: "MethodToolsList \<noteq> MethodInitialize" by (simp add: mcp_names)
  have conf: "ag_configErr ?a = None"
    using assms(5,6) by (auto simp: handleProfile_def writeJSON_def errorResponse_def split: option.splits)
  obtain sessionID out sent' where init: "initializeBackends env1 ?a i = (a, sent', Inr (sessionID, out))"
    and reply: "Header_Get (rp_Header reply) SessionIDHeader = sessionID"
    using assms(4-6) conf Header_Get_session
    by (auto simp: handleProfile_def writeJSON_def [of "[]"] errorResponse_def split: if_splits prod.splits sum.splits)
  note dec = initialized_session [OF init assms(3)]
  have keep: "same_config a ?a" and
    d: "decodeCompositeSession sessionID = Inr \<lparr>cs_Route = ''mcp-profile-router'', cs_Profile = profileID ?a, cs_Subject = [],
       cs_Backends = (\<lambda>s. if s \<in> fst ` set (pf_Servers p) then Some (issued env1 ?a i s) else None)\<rparr>" (is "_ = Inr ?session")
    using dec assms(1,2) by simp_all
  have "sessionID \<noteq> []" using d by (auto simp: decodeCompositeSession_def Index_def)
  then have sess: "sessionFromRequest a r2 = Some ?session"
    using assms(10) reply d by (simp add: sessionFromRequest_def same_config_uses [OF keep])
  have p: "ag_profile a = p" "ag_configErr a = None" using keep conf by (simp_all add: same_config_def)
  have one: "fst (list_call env2 a j ?session s) = [client_request a s (server_at p s) (issued env1 ?a i s) j MethodToolsList None]"
    if "s \<in> set (sortedServerIDs (pf_Servers p))" for s
  proof -
    have "url_error env2 (TrimRight_slash (sv_URL (server_at p s)) @ ''/mcp'') = None"
      using that assms(1,11) by (auto simp: server_at_def list_all_iff)
    then show ?thesis using that assms(12) by (simp add: list_call_sent p backend_session_def send_error_def client_request_def Let_def)
  qed
  have "fst (snd (handleProfile env2 arrival2 r2 a)) = fst (snd (listTools env2 a arrival2 j ?session))"
    using assms(7-9) sess ne p(2) by (simp add: handleProfile_def split: prod.split)
  also have "\<dots> = concat (map (\<lambda>s. [client_request a s (server_at p s) (issued env1 ?a i s) j MethodToolsList None]) (sortedServerIDs (pf_Servers p)))"
    unfolding listTools_sent p by (intro arg_cong [of _ _ concat] map_cong refl one) simp
  finally show ?thesis by (simp add: concat_map_singleton)
qed

definition demo_init :: agg_request where
  "demo_init = \<lparr>ar_PathValue = ''9b3f'', ar_Header = [], ar_Body = Some \<lparr>in_ID = None, in_Method = MethodInitialize, in_Params = None\<rparr>\<rparr>"

definition demo_first :: "Aggregator \<times> http_request list \<times> agg_reply" where
  "demo_first = handleProfile demo_mcp_env [] demo_init (NewAggregator demo_profile)"

definition demo_then :: agg_request where
  "demo_then = \<lparr>ar_PathValue = ''9b3f'', ar_Header = [(''MCP-Session-ID'', Header_Get (rp_Header (snd (snd demo_first))) SessionIDHeader)],
     ar_Body = Some \<lparr>in_ID = None, in_Method = MethodToolsList, in_Params = None\<rparr>\<rparr>"

lemma every_backend_gets_its_session_example:
  "fst (snd (handleProfile demo_mcp_env [''aws'', ''kiwi''] demo_then (fst demo_first))) =
    map (\<lambda>s. client_request (fst demo_first) s (server_at demo_profile s) (issued demo_mcp_env (NewAggregator demo_profile) None s) None
        MethodToolsList None) (sortedServerIDs (pf_Servers demo_profile))"
proof (rule every_backend_gets_its_session)
  show "handleProfile demo_mcp_env [] demo_init (NewAggregator demo_profile) = (fst demo_first, fst (snd demo_first), snd (snd demo_first))"
    by (simp add: demo_first_def)
  show "distinct (map fst (pf_Servers demo_profile))" by code_simp
  show "list_all good_backend (map fst (pf_Servers demo_profile))" by code_simp
  show "CHR ''@'' \<notin> set (profileID (NewAggregator demo_profile))" by code_simp
  show "ar_Body demo_init = Some \<lparr>in_ID = None, in_Method = MethodInitialize, in_Params = None\<rparr>" by (simp add: demo_init_def)
  have "case demo_first of (a, _, reply) \<Rightarrow>
      rs_Error (rp_Body reply) = None \<and> profileID a = ''9b3f'' \<and> pf_APIKey (ag_profile a) = []" by code_simp
  then show "rs_Error (rp_Body (snd (snd demo_first))) = None" "ar_PathValue demo_then = profileID (fst demo_first)"
    "authorized (fst demo_first) demo_then"
    by (simp_all add: demo_then_def authorized_def case_prod_beta)
  show "ar_Body demo_then = Some \<lparr>in_ID = None, in_Method = MethodToolsList, in_Params = None\<rparr>" by (simp add: demo_then_def)
  have "EqualFold ''MCP-Session-ID'' SessionIDHeader" by code_simp
  then show "Header_Get (ar_Header demo_then) SessionIDHeader = Header_Get (rp_Header (snd (snd demo_first))) SessionIDHeader"
    by (simp add: demo_then_def Header_Get_def [of "[_]"])
  show "list_all (\<lambda>(s, sv). url_error demo_mcp_env (TrimRight_slash (sv_URL sv) @ ''/mcp'') = None) (pf_Servers demo_profile)"
    by code_simp
  show "\<forall>q. request_error demo_mcp_env q = None" by (simp add: demo_mcp_env_def)
qed

end
