(* ===== verification/MCP_Gateway.thy ===== *)
theory MCP_Gateway
  imports MCP_Types Content_Encoding
begin

text \<open>
  The MCP profile gateway (\<^verbatim>\<open>src/examples/mcp-profile-gateway\<close>): the public front of several catalog routers. A request to
  \<^verbatim>\<open>/mcp/s/{server}\<close> goes to one of them, a request to \<^verbatim>\<open>/mcp/{profile}\<close> to the servers of a profile, with the
  credentials the profile configures. The filter (\<^verbatim>\<open>gateway_transit.go\<close>) sends callouts through Envoy; what its body
  handler does is a plan: a reply, or callouts with what their callbacks do. \<^verbatim>\<open>gateway_nethttp.go\<close> is the same gateway
  over Go's HTTP client. The codecs of JSON and the parser of URLs are parameters.
\<close>

section \<open>Configuration\<close>

record ProfileServer =
  ps_URL :: string
  ps_Prefix :: string
  ps_CredentialRef :: string
  ps_CredentialEnvelope :: string
  ps_EnabledTools :: "(string \<times> bool) list option"

record GatewayProfile =
  gp_Name :: string
  gp_APIKey :: string
  gp_Servers :: "(string \<times> ProfileServer) list"

record CatalogServer =
  ct_URL :: string
  ct_Cluster :: string

record GatewayConfig =
  gc_TimeoutMillis :: int
  gc_Profiles :: "(string \<times> GatewayProfile) list"
  gc_CatalogServers :: "(string \<times> CatalogServer) list"

record CatalogDump =
  cd_Target :: string
  cd_LastRequest :: string

record Gateway =
  gw_config :: GatewayConfig
  gw_timeout :: int
  gw_servers :: "string \<rightharpoonup> CatalogDump"

text \<open>\<^verbatim>\<open>net/url\<close>: the parsed form, the parser and the functions the gateway calls on it.\<close>

record url =
  u_Scheme :: string
  u_Host :: string
  u_User :: "string option"
  u_RawQuery :: string
  u_rest :: string

record url_lib =
  url_Parse :: "string \<Rightarrow> string + url"
  url_String :: "url \<Rightarrow> string"
  RequestURI :: "url \<Rightarrow> string"
  PathEscape :: "string \<Rightarrow> string"
  PathUnescape :: "string \<Rightarrow> string option"

datatype config_error =
    NoCatalogServers
  | IDRequired string
  | SlugSlash string string
  | SlugDot string string
  | URLRequired string string
  | URLNotAbsolute string string
  | URLUserinfo string string
  | ProfileIDRequired
  | ProfileNameRequired string
  | ProfileServersRequired string
  | NotInCatalog string string
  | PrefixDot string string string
  | DuplicatePrefix string string string string

definition validateSlug :: "string \<Rightarrow> string \<Rightarrow> config_error option" where
  "validateSlug kind v =
     (if TrimSpace v = [] then Some (IDRequired kind)
      else if CHR ''/'' \<in> set v then Some (SlugSlash kind v)
      else if CHR ''.'' \<in> set v then Some (SlugDot kind v)
      else None)"

definition validateURL :: "url_lib \<Rightarrow> string \<Rightarrow> string \<Rightarrow> string \<Rightarrow> config_error option" where
  "validateURL L kind i raw =
     (if TrimSpace raw = [] then Some (URLRequired kind i)
      else case url_Parse L raw of
             Inl _ \<Rightarrow> Some (URLNotAbsolute kind i)
           | Inr u \<Rightarrow> if u_Scheme u = [] \<or> u_Host u = [] then Some (URLNotAbsolute kind i)
                      else if u_User u \<noteq> None then Some (URLUserinfo kind i) else None)"

definition redactURL :: "url_lib \<Rightarrow> string \<Rightarrow> string" where
  "redactURL L raw =
     (case url_Parse L raw of
        Inl _ \<Rightarrow> ''[invalid]''
      | Inr u \<Rightarrow> url_String L (u\<lparr>u_User := None, u_RawQuery := []\<rparr>))"

definition gw_serverPrefix :: "string \<Rightarrow> ProfileServer \<Rightarrow> string" where
  "gw_serverPrefix serverID server = (if ps_Prefix server \<noteq> [] then ps_Prefix server else serverID)"

fun validate_catalog :: "url_lib \<Rightarrow> (string \<times> CatalogServer) list \<Rightarrow> config_error option" where
  "validate_catalog L [] = None"
| "validate_catalog L ((i, server) # rest) =
     (case validateSlug ''catalog server'' i of
        Some e \<Rightarrow> Some e
      | None \<Rightarrow>
          (case validateURL L ''catalog server'' i (ct_URL server) of
             Some e \<Rightarrow> Some e
           | None \<Rightarrow> validate_catalog L rest))"

fun validate_members ::
  "url_lib \<Rightarrow> GatewayConfig \<Rightarrow> string \<Rightarrow> (string \<rightharpoonup> string) \<Rightarrow> (string \<times> ProfileServer) list \<Rightarrow> config_error option"
where
  "validate_members L c profileID prefixes [] = None"
| "validate_members L c profileID prefixes ((serverID, server) # rest) =
     (case validateSlug ''profile server'' serverID of
        Some e \<Rightarrow> Some e
      | None \<Rightarrow>
          (case validateURL L ''profile server'' serverID (ps_URL server) of
             Some e \<Rightarrow> Some e
           | None \<Rightarrow>
               if map_of (gc_CatalogServers c) serverID = None then Some (NotInCatalog profileID serverID)
               else if ps_Prefix server \<noteq> [] \<and> CHR ''.'' \<in> set (ps_Prefix server)
               then Some (PrefixDot profileID serverID (ps_Prefix server))
               else let prefix = gw_serverPrefix serverID server
                    in case prefixes prefix of
                         Some owner \<Rightarrow> Some (DuplicatePrefix profileID prefix owner serverID)
                       | None \<Rightarrow> validate_members L c profileID (prefixes(prefix \<mapsto> serverID)) rest))"

fun validate_profiles :: "url_lib \<Rightarrow> GatewayConfig \<Rightarrow> (string \<times> GatewayProfile) list \<Rightarrow> config_error option" where
  "validate_profiles L c [] = None"
| "validate_profiles L c ((profileID, profile) # rest) =
     (if TrimSpace profileID = [] then Some ProfileIDRequired
      else if gp_Name profile = [] then Some (ProfileNameRequired profileID)
      else if gp_Servers profile = [] then Some (ProfileServersRequired profileID)
      else case validate_members L c profileID Map.empty (gp_Servers profile) of
             Some e \<Rightarrow> Some e
           | None \<Rightarrow> validate_profiles L c rest)"

definition gw_ValidateConfig :: "url_lib \<Rightarrow> GatewayConfig \<Rightarrow> config_error option" where
  "gw_ValidateConfig L c =
     (if gc_CatalogServers c = [] then Some NoCatalogServers
      else case validate_catalog L (gc_CatalogServers c) of
             Some e \<Rightarrow> Some e
           | None \<Rightarrow> validate_profiles L c (gc_Profiles c))"

definition New_gateway :: "GatewayConfig \<Rightarrow> Gateway" where
  "New_gateway c =
     (let timeout = int64 (gc_TimeoutMillis c * Millisecond)
      in \<lparr>gw_config = c, gw_timeout = (if timeout \<le> 0 then 800 * Millisecond else timeout), gw_servers = Map.empty\<rparr>)"

section \<open>What the gateway shows of itself\<close>

record ProfileServerDump =
  pd_Prefix :: string
  pd_EnabledToolsCount :: "int option"
  pd_CredentialRefConfigured :: bool
  pd_CredentialEnvelopeConfigured :: bool

record ProfileDump =
  pd_Name :: string
  pd_AuthConfigured :: bool
  pd_Servers :: "(string \<times> ProfileServerDump) list"

record GatewayDump =
  gd_CatalogServers :: "(string \<times> CatalogDump) list"
  gd_Profiles :: "(string \<times> ProfileDump) list option"

type_synonym gw_rec = "string \<times> CatalogServer \<times> string"

fun gw_record :: "gw_rec \<Rightarrow> Gateway \<Rightarrow> Gateway" where
  "gw_record (i, server, st) g = g\<lparr>gw_servers := (gw_servers g)(i \<mapsto> \<lparr>cd_Target = ct_URL server, cd_LastRequest = st\<rparr>)\<rparr>"

definition dump_server :: "string \<Rightarrow> ProfileServer \<Rightarrow> ProfileServerDump" where
  "dump_server serverID server =
     \<lparr>pd_Prefix = gw_serverPrefix serverID server,
      pd_EnabledToolsCount = map_option (\<lambda>m. int (length (filter snd m))) (ps_EnabledTools server),
      pd_CredentialRefConfigured = (ps_CredentialRef server \<noteq> []),
      pd_CredentialEnvelopeConfigured = (ps_CredentialEnvelope server \<noteq> [])\<rparr>"

definition Gateway_Dump :: "url_lib \<Rightarrow> Gateway \<Rightarrow> GatewayDump" where
  "Gateway_Dump L g =
     \<lparr>gd_CatalogServers = map (\<lambda>(i, server). (i, \<lparr>cd_Target = redactURL L (ct_URL server),
          cd_LastRequest = (case gw_servers g i of Some st \<Rightarrow> cd_LastRequest st | None \<Rightarrow> [])\<rparr>)) (gc_CatalogServers (gw_config g)),
      gd_Profiles =
        (if gc_Profiles (gw_config g) = [] then None
         else Some (map (\<lambda>(p, profile). (p, \<lparr>pd_Name = gp_Name profile, pd_AuthConfigured = (gp_APIKey profile \<noteq> []),
                pd_Servers = map (\<lambda>(i, s). (i, dump_server i s)) (gp_Servers profile)\<rparr>)) (gc_Profiles (gw_config g))))\<rparr>"

section \<open>Sessions\<close>

record profileSession =
  se_ProfileID :: string
  se_Backends :: "(string \<times> string) list"

text \<open>
  \<^verbatim>\<open>base64.RawURLEncoding\<close>: the URL alphabet without padding; the decoder skips line breaks like the standard one.
\<close>

definition url_char :: "char \<Rightarrow> char" where
  "url_char c = (if c = CHR ''+'' then CHR ''-'' else if c = CHR ''/'' then CHR ''_'' else c)"

definition std_char :: "char \<Rightarrow> char" where
  "std_char c = (if c = CHR ''-'' then CHR ''+'' else if c = CHR ''_'' then CHR ''/'' else c)"

definition RawURL_EncodeToString :: "bytes \<Rightarrow> string" where
  "RawURL_EncodeToString s = map url_char (takeWhile (\<lambda>c. c \<noteq> CHR ''='') (b64_EncodeToString s))"

definition RawURL_DecodeString :: "string \<Rightarrow> bytes option" where
  "RawURL_DecodeString s =
     (let t = filter (\<lambda>c. c \<noteq> CHR 0x0A \<and> c \<noteq> CHR 0x0D) s
      in if list_ex (\<lambda>c. c \<in> {CHR ''+'', CHR ''/'', CHR ''=''}) t \<or> length t mod 4 = 1 then None
         else b64_DecodeString (map std_char t @ replicate ((4 - length t mod 4) mod 4) CHR ''=''))"

text \<open>The codecs. The texts of errors of \<^verbatim>\<open>encoding/json\<close> end up in the dump only.\<close>

record gw_codec =
  gw_url :: url_lib
  json_session :: "profileSession \<Rightarrow> bytes option"
  session_json :: "bytes \<Rightarrow> profileSession option"
  request_json :: "bytes \<Rightarrow> (json option \<times> string \<times> json option) option"
  json_request :: "JSONRPCRequest \<Rightarrow> bytes option"
  json_response :: "JSONRPCResponse \<Rightarrow> bytes option"
  response_json :: "bytes \<Rightarrow> string + json \<times> (int \<times> string) option"
  initialize_json :: "json \<Rightarrow> string + InitializeResult"
  tools_json :: "json \<Rightarrow> string + Tool list"
  params_json :: "json \<Rightarrow> CallToolParams option"
  result_text :: "HTTPCalloutResult \<Rightarrow> string"

definition profileSessionPrefix :: string where "profileSessionPrefix = ''mcp-profile-gateway.''"

definition copyStringMap :: "(string \<times> string) list \<Rightarrow> (string \<times> string) list" where
  "copyStringMap m = m"

definition encodeProfileSession :: "gw_codec \<Rightarrow> string \<Rightarrow> (string \<times> string) list \<Rightarrow> string option" where
  "encodeProfileSession C profileID backends =
     (case json_session C \<lparr>se_ProfileID = profileID, se_Backends = copyStringMap backends\<rparr> of
        None \<Rightarrow> None
      | Some raw \<Rightarrow> Some (profileSessionPrefix @ RawURL_EncodeToString raw))"

definition decodeProfileSession :: "gw_codec \<Rightarrow> string \<Rightarrow> string \<Rightarrow> profileSession option" where
  "decodeProfileSession C profileID sessionID =
     (let raw = drop (length profileSessionPrefix) sessionID
      in if \<not> HasPrefix sessionID profileSessionPrefix \<or> raw = [] then None
         else case RawURL_DecodeString raw of
                None \<Rightarrow> None
              | Some decoded \<Rightarrow>
                  (case session_json C decoded of
                     None \<Rightarrow> None
                   | Some session \<Rightarrow>
                       if se_ProfileID session \<noteq> profileID \<or> se_Backends session = [] then None
                       else Some (session\<lparr>se_Backends := copyStringMap (se_Backends session)\<rparr>)))"

section \<open>Helpers\<close>

definition catalogURL :: "url_lib \<Rightarrow> string \<Rightarrow> string \<Rightarrow> string" where
  "catalogURL L base serverID = TrimRight_slash base @ ''/mcp/s/'' @ PathEscape L serverID"

definition stripQuery :: "string \<Rightarrow> string" where
  "stripQuery path = takeWhile (\<lambda>c. c \<noteq> CHR ''?'') path"

definition profileToolEnabled :: "ProfileServer \<Rightarrow> string \<Rightarrow> bool" where
  "profileToolEnabled server nm =
     (case ps_EnabledTools server of None \<Rightarrow> True | Some m \<Rightarrow> (case map_of m nm of Some b \<Rightarrow> b | None \<Rightarrow> False))"

definition profileAuthorized :: "string \<Rightarrow> (string \<Rightarrow> string) \<Rightarrow> bool" where
  "profileAuthorized apiKey hdr =
     (if apiKey = [] then True
      else if hdr ''x-api-key'' = apiKey then True
      else TrimSpace (hdr ''authorization'') = ''Bearer '' @ apiKey)"

definition toolsListRequestBody :: "gw_codec \<Rightarrow> json option \<Rightarrow> bytes option" where
  "toolsListRequestBody C i = json_request C \<lparr>rq_ID = cloneRaw i, rq_Method = MethodToolsList, rq_Params = None\<rparr>"

definition syntheticInitializeResult :: InitializeResult where
  "syntheticInitializeResult = \<lparr>ini_ProtocolVersion = ProtocolVersion, ini_Capabilities = JObj [(''tools'', JObj [])],
     ini_ServerInfo = (''mcp-profile-gateway'', ''dev'')\<rparr>"

definition decodeInitializeResult :: "gw_codec \<Rightarrow> bytes \<Rightarrow> string option" where
  "decodeInitializeResult C b =
     (case response_json C b of
        Inl e \<Rightarrow> Some e
      | Inr (result, Some (code, message)) \<Rightarrow> Some message
      | Inr (result, None) \<Rightarrow> (case initialize_json C result of Inl e \<Rightarrow> Some e | Inr out \<Rightarrow> None))"

definition mergeToolsResult :: "gw_codec \<Rightarrow> string \<Rightarrow> ProfileServer \<Rightarrow> bytes \<Rightarrow> string + Tool list" where
  "mergeToolsResult C serverID server b =
     (case response_json C b of
        Inl e \<Rightarrow> Inl e
      | Inr (result, Some (code, message)) \<Rightarrow> Inl message
      | Inr (result, None) \<Rightarrow>
          (case tools_json C result of
             Inl e \<Rightarrow> Inl e
           | Inr tools \<Rightarrow>
               Inr (map (\<lambda>t. t\<lparr>tool_Name := gw_serverPrefix serverID server @ ''.'' @ tool_Name t\<rparr>)
                     (filter (\<lambda>t. profileToolEnabled server (tool_Name t)) tools))))"

definition sortTools :: "Tool list \<Rightarrow> Tool list" where
  "sortTools tools = sort_key tool_Name tools"

definition gw_serverByPrefix :: "GatewayProfile \<Rightarrow> string \<Rightarrow> (string \<times> ProfileServer) option" where
  "gw_serverByPrefix profile prefix = find (\<lambda>(i, s). gw_serverPrefix i s = prefix) (gp_Servers profile)"

definition zero_profileServer :: ProfileServer where
  "zero_profileServer = \<lparr>ps_URL = [], ps_Prefix = [], ps_CredentialRef = [], ps_CredentialEnvelope = [], ps_EnabledTools = None\<rparr>"

definition member_at :: "GatewayProfile \<Rightarrow> string \<Rightarrow> ProfileServer" where
  "member_at profile i = (case map_of (gp_Servers profile) i of Some s \<Rightarrow> s | None \<Rightarrow> zero_profileServer)"

definition catalog_at :: "Gateway \<Rightarrow> string \<Rightarrow> CatalogServer" where
  "catalog_at g i = (case map_of (gc_CatalogServers (gw_config g)) i of Some s \<Rightarrow> s | None \<Rightarrow> \<lparr>ct_URL = [], ct_Cluster = []\<rparr>)"

text \<open>The server, the tool without its prefix and the parameters, or the message of the error, whose code is always
  \<open>-32602\<close>.\<close>

definition resolveProfileTool :: "gw_codec \<Rightarrow> json option \<Rightarrow> GatewayProfile \<Rightarrow> string + string \<times> string \<times> CallToolParams" where
  "resolveProfileTool C paramsRaw profile =
     (case Option.bind paramsRaw (params_json C) of
        None \<Rightarrow> Inl ''invalid tools/call params''
      | Some params \<Rightarrow>
          if par_Name params = [] then Inl ''invalid tools/call params''
          else case Cut CHR ''.'' (par_Name params) of (prefix, tool, ok) \<Rightarrow>
            if \<not> ok \<or> tool = [] then Inl ''tool name must be namespaced as prefix.tool''
            else case gw_serverByPrefix profile prefix of
                   None \<Rightarrow> Inl (''unknown tool: '' @ par_Name params)
                 | Some (sid, _) \<Rightarrow>
                     let server = member_at profile sid
                     in if \<not> profileToolEnabled server tool then Inl (''disabled tool: '' @ par_Name params)
                        else Inr (sid, tool, params))"

definition toolCallForwardBody :: "gw_codec \<Rightarrow> json option \<Rightarrow> string \<Rightarrow> CallToolParams \<Rightarrow> bytes option" where
  "toolCallForwardBody C i backendTool params =
     json_request C \<lparr>rq_ID = cloneRaw i, rq_Method = MethodToolsCall, rq_Params = Some (CallParams (params\<lparr>par_Name := backendTool\<rparr>))\<rparr>"

section \<open>The filter\<close>

record transitRequest =
  tr_method :: string
  tr_path :: string
  tr_headers :: "header list"

text \<open>
  What a body handler of the gateway does. \<open>Reply\<close> answers, after the given entries of the dump were written.
  \<open>CallOne\<close> is \<open>HTTPCallout\<close> with its callback and what follows when the callout is refused with an error, \<open>CallAll\<close> is
  \<open>HTTPCalloutAllSettled\<close>; \<open>ServeNetHTTP\<close> hands the request to Go's HTTP multiplexer, which serves the debug paths.
\<close>

datatype gw_plan =
    Pass
  | Reply "gw_rec list" "wop list"
  | CallOne callout_request "callout_done \<Rightarrow> gw_rec list \<times> wop list" "string \<Rightarrow> gw_rec list \<times> wop list"
  | CallAll "callout_request list" "settled_response list \<Rightarrow> gw_rec list \<times> wop list" "wop list"
  | ServeNetHTTP transitRequest bytes

definition transit_handler :: "request \<Rightarrow> header list \<Rightarrow> transitRequest option" where
  "transit_handler r hs =
     (let path = stripQuery (Path r)
      in if path = ''/healthz'' \<or> path = ''/dump'' \<or> HasPrefix path ''/mcp/s/'' \<or> HasPrefix path ''/mcp/''
         then Some \<lparr>tr_method = Method r, tr_path = Path r, tr_headers = hs\<rparr> else None)"

fun headerValue :: "header list \<Rightarrow> string \<Rightarrow> string" where
  "headerValue [] nm = []"
| "headerValue (h # hs) nm = (if EqualFold (fst h) nm then snd h else headerValue hs nm)"

definition headerOrDefault :: "header list \<Rightarrow> string \<Rightarrow> string \<Rightarrow> string" where
  "headerOrDefault hs nm fallback = (let v = headerValue hs nm in if v \<noteq> [] then v else fallback)"

definition calloutHeaderValue :: "header list \<Rightarrow> string \<Rightarrow> string" where
  "calloutHeaderValue hs nm = headerValue hs nm"

definition calloutBodyBytes :: "bytes list \<Rightarrow> bytes" where
  "calloutBodyBytes bs = concat bs"

text \<open>\<^verbatim>\<open>strconv.Atoi\<close>.\<close>

definition gw_Atoi :: "string \<Rightarrow> int option" where
  "gw_Atoi s =
     (let neg = (s \<noteq> [] \<and> hd s = CHR ''-''); d = (if s \<noteq> [] \<and> hd s \<in> {CHR ''-'', CHR ''+''} then tl s else s);
          v = (if neg then - int (digits_value d) else int (digits_value d))
      in if d \<noteq> [] \<and> list_all is_digit d \<and> - (2 ^ 63) \<le> v \<and> v < 2 ^ 63 then Some v else None)"

text \<open>\<^verbatim>\<open>fmt\<close>'s verb for integers.\<close>

definition print_int :: "int \<Rightarrow> string" where
  "print_int v = (if v < 0 then CHR ''-'' # Itoa (nat (- v)) else Itoa (nat v))"

fun response_loop :: "header list \<Rightarrow> int \<times> header list \<Rightarrow> int \<times> header list" where
  "response_loop [] acc = acc"
| "response_loop ((nm, v) # hs) (st, out) =
     (if nm = '':status'' then response_loop hs (case gw_Atoi v of Some parsed \<Rightarrow> parsed | None \<Rightarrow> st, out)
      else if HasPrefix nm '':'' \<or> EqualFold nm ''content-length'' then response_loop hs (st, out)
      else response_loop hs (st, out @ [(nm, v)]))"

definition responseFromCalloutHeaders :: "header list \<Rightarrow> int \<times> header list" where
  "responseFromCalloutHeaders hs = response_loop hs (200, [])"

definition internal_error :: bytes where
  "internal_error =
     (let q = [CHR 0x22] in ''{'' @ q @ ''jsonrpc'' @ q @ '':'' @ q @ ''2.0'' @ q @ '','' @ q @ ''error'' @ q @ '':{'' @ q @ ''code'' @ q @
        '':-32603,'' @ q @ ''message'' @ q @ '':'' @ q @ ''internal error'' @ q @ ''}}'')"

definition writeTransitJSON :: "gw_codec \<Rightarrow> int \<Rightarrow> JSONRPCResponse \<Rightarrow> header list \<Rightarrow> wop list" where
  "writeTransitJSON C st v hs =
     (case json_response C v of
        None \<Rightarrow> [OpSendLocalResponse 500 internal_error [(''content-type'', ''application/json'')]]
      | Some b \<Rightarrow> [OpSendLocalResponse st b ((''content-type'', ''application/json'') # hs)])"

definition catalogCluster :: "CatalogServer \<Rightarrow> string" where
  "catalogCluster server = (if ct_Cluster server \<noteq> [] then ct_Cluster server else ''mcp-profile-gateway-l2'')"

definition timeoutMillis :: "int \<Rightarrow> uint64" where
  "timeoutMillis configured = (if configured > 0 then word_of_int configured else 800)"

definition catalogServerFromTransitPath :: "url_lib \<Rightarrow> Gateway \<Rightarrow> string \<Rightarrow> string \<times> CatalogServer option" where
  "catalogServerFromTransitPath L g path =
     (let p = stripQuery path; rawID = drop (length ''/mcp/s/'') p
      in if \<not> HasPrefix p ''/mcp/s/'' \<or> rawID = [] then ([], None)
         else case PathUnescape L rawID of
                None \<Rightarrow> (rawID, None)
              | Some serverID \<Rightarrow> (serverID, map_of (gc_CatalogServers (gw_config g)) serverID))"

definition profileFromTransitPath :: "url_lib \<Rightarrow> Gateway \<Rightarrow> string \<Rightarrow> string \<times> GatewayProfile option" where
  "profileFromTransitPath L g path =
     (let p = stripQuery path; rawID = drop (length ''/mcp/'') p
      in if \<not> HasPrefix p ''/mcp/'' \<or> rawID = [] \<or> HasPrefix rawID ''s/'' then ([], None)
         else case PathUnescape L rawID of
                None \<Rightarrow> (rawID, None)
              | Some profileID \<Rightarrow> (profileID, map_of (gc_Profiles (gw_config g)) profileID))"

definition present :: "string \<Rightarrow> string \<Rightarrow> header list" where
  "present nm v = (if v \<noteq> [] then [(nm, v)] else [])"

definition catalogCalloutRequest :: "url_lib \<Rightarrow> Gateway \<Rightarrow> transitRequest \<Rightarrow> bytes \<Rightarrow> string \<Rightarrow> CatalogServer \<Rightarrow> string + callout_request" where
  "catalogCalloutRequest L g r b serverID server =
     (case url_Parse L (catalogURL L (ct_URL server) serverID) of
        Inl e \<Rightarrow> Inl e
      | Inr u \<Rightarrow> Inr \<lparr>Cluster = catalogCluster server,
          Headers =
            [('':method'', ''POST''), ('':path'', RequestURI L u), ('':scheme'', u_Scheme u), (''host'', u_Host u),
             (''content-type'', headerOrDefault (tr_headers r) ''content-type'' ''application/json''),
             (''accept'', headerOrDefault (tr_headers r) ''accept'' ''application/json''),
             (''x-mcp-credential-ref'', []), (''x-mcp-credential-envelope'', [])] @
            present SessionIDHeader (headerValue (tr_headers r) SessionIDHeader) @
            present ProtocolVersionHeader (headerValue (tr_headers r) ProtocolVersionHeader),
          Body = b, TimeoutMillis = timeoutMillis (gc_TimeoutMillis (gw_config g))\<rparr>)"

definition profileToolCallCalloutRequest ::
  "url_lib \<Rightarrow> Gateway \<Rightarrow> transitRequest \<Rightarrow> bytes \<Rightarrow> string \<Rightarrow> ProfileServer \<Rightarrow> CatalogServer \<Rightarrow> string \<Rightarrow> string + callout_request"
where
  "profileToolCallCalloutRequest L g r b serverID server catalogServer backendSessionID =
     (case url_Parse L (catalogURL L (ps_URL server) serverID) of
        Inl e \<Rightarrow> Inl e
      | Inr u \<Rightarrow> Inr \<lparr>Cluster = catalogCluster catalogServer,
          Headers =
            [('':method'', ''POST''), ('':path'', RequestURI L u), ('':scheme'', u_Scheme u), (''host'', u_Host u),
             (''content-type'', ''application/json''), (''accept'', ''application/json'')] @
            present SessionIDHeader backendSessionID @
            present ProtocolVersionHeader (headerValue (tr_headers r) ProtocolVersionHeader) @
            present ''x-mcp-credential-ref'' (ps_CredentialRef server) @
            present ''x-mcp-credential-envelope'' (ps_CredentialEnvelope server),
          Body = b, TimeoutMillis = timeoutMillis (gc_TimeoutMillis (gw_config g))\<rparr>)"

text \<open>The loop of \<open>profileCalloutRequests\<close> over the servers of the profile or of the session.\<close>

fun callout_loop ::
  "url_lib \<Rightarrow> Gateway \<Rightarrow> transitRequest \<Rightarrow> bytes \<Rightarrow> GatewayProfile \<Rightarrow> (string \<times> string) list \<Rightarrow> string list \<Rightarrow>
   string + callout_request list \<times> string list"
where
  "callout_loop L g r b profile backends [] = Inr ([], [])"
| "callout_loop L g r b profile backends (serverID # ids) =
     (case map_of (gp_Servers profile) serverID of
        None \<Rightarrow> callout_loop L g r b profile backends ids
      | Some profileServer \<Rightarrow>
          (case url_Parse L (catalogURL L (ps_URL profileServer) serverID) of
             Inl e \<Rightarrow> Inl e
           | Inr u \<Rightarrow>
               let hs = [('':method'', ''POST''), ('':path'', RequestURI L u), ('':scheme'', u_Scheme u), (''host'', u_Host u),
                         (''content-type'', ''application/json''), (''accept'', ''application/json'')] @
                        (if backends \<noteq> []
                         then present SessionIDHeader (case map_of backends serverID of Some v \<Rightarrow> v | None \<Rightarrow> []) else []) @
                        present ProtocolVersionHeader (headerValue (tr_headers r) ProtocolVersionHeader) @
                        present ''x-mcp-credential-ref'' (ps_CredentialRef profileServer) @
                        present ''x-mcp-credential-envelope'' (ps_CredentialEnvelope profileServer);
                   req = \<lparr>Cluster = catalogCluster (catalog_at g serverID), Headers = hs, Body = b,
                          TimeoutMillis = timeoutMillis (gc_TimeoutMillis (gw_config g))\<rparr>
               in case callout_loop L g r b profile backends ids of
                    Inl e \<Rightarrow> Inl e
                  | Inr (reqs, outIDs) \<Rightarrow> Inr (req # reqs, serverID # outIDs)))"

definition sortedProfileServerIDs :: "(string \<times> ProfileServer) list \<Rightarrow> string list" where
  "sortedProfileServerIDs servers = sort (map fst servers)"

definition gw_sortedStringKeys :: "(string \<times> string) list \<Rightarrow> string list" where
  "gw_sortedStringKeys m = sort (map fst m)"

definition profileCalloutRequests ::
  "url_lib \<Rightarrow> Gateway \<Rightarrow> transitRequest \<Rightarrow> bytes \<Rightarrow> GatewayProfile \<Rightarrow> (string \<times> string) list \<Rightarrow> string + callout_request list \<times> string list"
where
  "profileCalloutRequests L g r b profile backends =
     callout_loop L g r b profile backends (if backends \<noteq> [] then gw_sortedStringKeys backends else sortedProfileServerIDs (gp_Servers profile))"

definition profileInitializeCalloutRequests ::
  "url_lib \<Rightarrow> Gateway \<Rightarrow> transitRequest \<Rightarrow> bytes \<Rightarrow> GatewayProfile \<Rightarrow> string + callout_request list \<times> string list"
where
  "profileInitializeCalloutRequests L g r b profile = profileCalloutRequests L g r b profile []"

definition profileToolsListCalloutRequests ::
  "gw_codec \<Rightarrow> Gateway \<Rightarrow> transitRequest \<Rightarrow> json option \<Rightarrow> GatewayProfile \<Rightarrow> (string \<times> string) list \<Rightarrow> string + callout_request list \<times> string list"
where
  "profileToolsListCalloutRequests C g r i profile backends =
     (case toolsListRequestBody C i of
        None \<Rightarrow> Inl ''marshal''
      | Some b \<Rightarrow> profileCalloutRequests (gw_url C) g r b profile backends)"

definition gateway_failed :: "gw_codec \<Rightarrow> json option \<Rightarrow> wop list" where
  "gateway_failed C i = writeTransitJSON C 500 (errorResponse i (- 32603) ''profile gateway failed'') []"

definition catalog_failed :: "gw_codec \<Rightarrow> string \<Rightarrow> wop list" where
  "catalog_failed C serverID = writeTransitJSON C 502 (errorResponse None (- 32003) (''catalog gateway failed: '' @ serverID)) []"

definition calloutCatalogServerTransit :: "gw_codec \<Rightarrow> Gateway \<Rightarrow> transitRequest \<Rightarrow> bytes \<Rightarrow> gw_plan" where
  "calloutCatalogServerTransit C g r b =
     (case catalogServerFromTransitPath (gw_url C) g (tr_path r) of
        (serverID, None) \<Rightarrow> Reply [] (writeTransitJSON C 404 (errorResponse None (- 32004) (''unknown catalog server: '' @ serverID)) [])
      | (serverID, Some server) \<Rightarrow>
          (case catalogCalloutRequest (gw_url C) g r b serverID server of
             Inl e \<Rightarrow> Reply [(serverID, server, ''error: '' @ e)] (catalog_failed C serverID)
           | Inr req \<Rightarrow>
               CallOne req
                 (\<lambda>(result, hs, respBody).
                    if result \<noteq> HTTPCalloutSuccess
                    then ([(serverID, server, ''error: callout result '' @ result_text C result)], catalog_failed C serverID)
                    else case responseFromCalloutHeaders hs of (st, responseHeaders) \<Rightarrow>
                      ([(serverID, server, ''ok'')], [OpSendLocalResponse st (calloutBodyBytes respBody) responseHeaders]))
                 (\<lambda>e. ([(serverID, server, ''error: '' @ e)], catalog_failed C serverID))))"

text \<open>The callbacks of the batches walk over the servers asked and the answers, which come in the same order.\<close>

fun collect_sessions :: "gw_codec \<Rightarrow> Gateway \<Rightarrow> (string \<times> settled_response) list \<Rightarrow> gw_rec list \<times> (string \<times> string) list" where
  "collect_sessions C g [] = ([], [])"
| "collect_sessions C g ((serverID, resp) # rest) =
     (let catalogServer = catalog_at g serverID; (recs, backends) = collect_sessions C g rest;
          st = fst (responseFromCalloutHeaders (RHeaders resp))
      in if settled_Failed resp then ((serverID, catalogServer, ''error: initialize'') # recs, backends)
         else if st \<noteq> 200 then ((serverID, catalogServer, ''error: status '' @ print_int st) # recs, backends)
         else case decodeInitializeResult C (calloutBodyBytes (RBody resp)) of
                Some e \<Rightarrow> ((serverID, catalogServer, ''error: '' @ e) # recs, backends)
              | None \<Rightarrow> ((serverID, catalogServer, ''initialized'') # recs,
                         (serverID, calloutHeaderValue (RHeaders resp) SessionIDHeader) # backends))"

definition initialize_reply :: "gw_codec \<Rightarrow> json option \<Rightarrow> string \<Rightarrow> (string \<times> string) list \<Rightarrow> wop list" where
  "initialize_reply C i profileID backends =
     (if backends = [] then writeTransitJSON C 502 (errorResponse i (- 32002) ''initialize failed'') []
      else case encodeProfileSession C profileID backends of
             None \<Rightarrow> gateway_failed C i
           | Some sessionID \<Rightarrow>
               writeTransitJSON C 200 (rpc_response i (InitializeOut syntheticInitializeResult))
                 [(SessionIDHeader, sessionID), (ProtocolVersionHeader, ProtocolVersion)])"

definition initializeProfileTransit ::
  "gw_codec \<Rightarrow> Gateway \<Rightarrow> transitRequest \<Rightarrow> json option \<Rightarrow> bytes \<Rightarrow> string \<Rightarrow> GatewayProfile \<Rightarrow> gw_plan"
where
  "initializeProfileTransit C g r i b profileID profile =
     (case profileInitializeCalloutRequests (gw_url C) g r b profile of
        Inl e \<Rightarrow> Reply [] (gateway_failed C i)
      | Inr (reqs, serverIDs) \<Rightarrow>
          CallAll reqs
            (\<lambda>responses. case collect_sessions C g (zip serverIDs responses) of (recs, backends) \<Rightarrow> (recs, initialize_reply C i profileID backends))
            (writeTransitJSON C 502 (errorResponse i (- 32002) ''initialize failed'') []))"

fun collect_tools :: "gw_codec \<Rightarrow> Gateway \<Rightarrow> GatewayProfile \<Rightarrow> (string \<times> settled_response) list \<Rightarrow> gw_rec list \<times> Tool list" where
  "collect_tools C g profile [] = ([], [])"
| "collect_tools C g profile ((serverID, resp) # rest) =
     (let catalogServer = catalog_at g serverID; (recs, merged) = collect_tools C g profile rest;
          st = fst (responseFromCalloutHeaders (RHeaders resp))
      in if settled_Failed resp then ((serverID, catalogServer, ''error: tools/list'') # recs, merged)
         else if st \<noteq> 200 then ((serverID, catalogServer, ''error: status '' @ print_int st) # recs, merged)
         else case mergeToolsResult C serverID (member_at profile serverID) (calloutBodyBytes (RBody resp)) of
                Inl e \<Rightarrow> ((serverID, catalogServer, ''error: '' @ e) # recs, merged)
              | Inr tools \<Rightarrow> ((serverID, catalogServer, ''ok'') # recs, tools @ merged))"

definition bad_session_reply :: "gw_codec \<Rightarrow> json option \<Rightarrow> string \<Rightarrow> wop list" where
  "bad_session_reply C i m = writeTransitJSON C 400 (errorResponse i (- 32010) m) []"

definition list_requests ::
  "gw_codec \<Rightarrow> Gateway \<Rightarrow> transitRequest \<Rightarrow> json option \<Rightarrow> GatewayProfile \<Rightarrow> (string \<times> string) list \<Rightarrow> gw_plan"
where
  "list_requests C g r i profile backends =
     (case profileToolsListCalloutRequests C g r i profile backends of
        Inl e \<Rightarrow> Reply [] (gateway_failed C i)
      | Inr (reqs, serverIDs) \<Rightarrow>
          CallAll reqs
            (\<lambda>responses. case collect_tools C g profile (zip serverIDs responses) of
               (recs, merged) \<Rightarrow> (recs, writeTransitJSON C 200 (rpc_response i (ListToolsOut (sortTools merged))) []))
            (writeTransitJSON C 502 (errorResponse i (- 32002) ''tools/list failed'') []))"

definition listProfileToolsTransit :: "gw_codec \<Rightarrow> Gateway \<Rightarrow> transitRequest \<Rightarrow> json option \<Rightarrow> string \<Rightarrow> GatewayProfile \<Rightarrow> gw_plan" where
  "listProfileToolsTransit C g r i profileID profile =
     (let sessionID = headerValue (tr_headers r) SessionIDHeader
      in if sessionID = [] then list_requests C g r i profile []
         else case decodeProfileSession C profileID sessionID of
                None \<Rightarrow> Reply [] (bad_session_reply C i ''invalid MCP session ID'')
              | Some session \<Rightarrow> list_requests C g r i profile (se_Backends session))"

definition tool_failed :: "gw_codec \<Rightarrow> json option \<Rightarrow> string \<Rightarrow> wop list" where
  "tool_failed C i serverID = writeTransitJSON C 502 (errorResponse i (- 32003) (''tool backend failed: '' @ serverID)) []"

definition callProfileToolTransit ::
  "gw_codec \<Rightarrow> Gateway \<Rightarrow> transitRequest \<Rightarrow> json option \<Rightarrow> json option \<Rightarrow> GatewayProfile \<Rightarrow> profileSession \<Rightarrow> gw_plan"
where
  "callProfileToolTransit C g r i params profile session =
     (case resolveProfileTool C params profile of
        Inl errMsg \<Rightarrow> Reply [] (writeTransitJSON C 200 (errorResponse i (- 32602) errMsg) [])
      | Inr (serverID, backendTool, callParams) \<Rightarrow>
          (case map_of (se_Backends session) serverID of
             None \<Rightarrow> Reply [] (writeTransitJSON C 200 (errorResponse i (- 32602) (''tool server not in session: '' @ serverID)) [])
           | Some backendSession \<Rightarrow>
               (let server = member_at profile serverID; catalogServer = catalog_at g serverID
                in case toolCallForwardBody C i backendTool callParams of
                     None \<Rightarrow> Reply [] (gateway_failed C i)
                   | Some b \<Rightarrow>
                       (case profileToolCallCalloutRequest (gw_url C) g r b serverID server catalogServer backendSession of
                          Inl e \<Rightarrow> Reply [] (gateway_failed C i)
                        | Inr req \<Rightarrow>
                            CallOne req
                              (\<lambda>(result, hs, respBody).
                                 if result \<noteq> HTTPCalloutSuccess
                                 then ([(serverID, catalogServer, ''error: callout result '' @ result_text C result)], tool_failed C i serverID)
                                 else case responseFromCalloutHeaders hs of (st, responseHeaders) \<Rightarrow>
                                   ([(serverID, catalogServer, ''ok'')], [OpSendLocalResponse st (calloutBodyBytes respBody) responseHeaders]))
                              (\<lambda>e. ([(serverID, catalogServer, ''error: '' @ e)], tool_failed C i serverID))))))"

definition calloutProfileTransit :: "gw_codec \<Rightarrow> Gateway \<Rightarrow> transitRequest \<Rightarrow> bytes \<Rightarrow> gw_plan" where
  "calloutProfileTransit C g r b =
     (case profileFromTransitPath (gw_url C) g (tr_path r) of
        (profileID, None) \<Rightarrow> Reply [] (writeTransitJSON C 404 (errorResponse None (- 32004) (''unknown profile: '' @ profileID)) [])
      | (profileID, Some profile) \<Rightarrow>
          if \<not> profileAuthorized (gp_APIKey profile) (headerValue (tr_headers r))
          then Reply [] (writeTransitJSON C 401 (errorResponse None (- 32001) (''unauthorized profile: '' @ profileID)) [])
          else case request_json C b of
                 None \<Rightarrow> Reply [] (writeTransitJSON C 400 (errorResponse None (- 32700) ''invalid JSON-RPC request'') [])
               | Some (i, meth, params) \<Rightarrow>
                   if meth = MethodInitialize then initializeProfileTransit C g r i b profileID profile
                   else if meth = MethodToolsList then listProfileToolsTransit C g r i profileID profile
                   else if meth = MethodToolsCall
                   then (let sessionID = headerValue (tr_headers r) SessionIDHeader
                         in if sessionID = [] then Reply [] (bad_session_reply C i ''missing MCP session ID'')
                            else case decodeProfileSession C profileID sessionID of
                                   None \<Rightarrow> Reply [] (bad_session_reply C i ''invalid MCP session ID'')
                                 | Some session \<Rightarrow> callProfileToolTransit C g r i params profile session)
                   else Reply [] (writeTransitJSON C 400 (errorResponse i (- 32601) (''unsupported profile method: '' @ meth)) []))"

definition transit_body :: "gw_codec \<Rightarrow> Gateway \<Rightarrow> transitRequest option \<Rightarrow> body_chunk \<Rightarrow> gw_plan" where
  "transit_body C g ctx chunk =
     (case ctx of
        None \<Rightarrow> Pass
      | Some req \<Rightarrow>
          if \<not> BC_EndStream chunk \<or> tr_path req = [] then Pass
          else if HasPrefix (stripQuery (tr_path req)) ''/mcp/s/'' then calloutCatalogServerTransit C g req (BC_Data chunk)
          else if HasPrefix (stripQuery (tr_path req)) ''/mcp/'' then calloutProfileTransit C g req (BC_Data chunk)
          else ServeNetHTTP req (BC_Data chunk))"

section \<open>A session survives its encoding\<close>

definition raw_char :: "char \<Rightarrow> bool" where
  "raw_char c \<longleftrightarrow> c \<notin> {CHR ''='', CHR ''-'', CHR ''_'', CHR 0x0A, CHR 0x0D}"

lemma raw_b64_char:
  assumes "n < 64"
  shows "raw_char (b64_char n)"
proof -
  have ne: "b64_char n \<noteq> c" if "of_char c \<noteq> b64_code n" for c using that of_b64_char [OF assms] by metis
  have "b64_char n \<noteq> CHR ''-''" "b64_char n \<noteq> CHR ''_''"
    by (rule_tac [!] ne) (use assms in \<open>auto simp: b64_code_def\<close>)
  then show ?thesis using b64_chars [OF assms] by (simp add: raw_char_def)
qed

text \<open>The encoding is a run of letters, and as many equals signs as fill the last group of four.\<close>

lemma b64_shape:
  "\<exists>t k. b64_EncodeToString s = t @ replicate k CHR ''='' \<and> list_all raw_char t \<and> k = (4 - length t mod 4) mod 4 \<and> length t mod 4 \<noteq> 1 \<and> (t = [] \<longrightarrow> s = [])"
proof (induction s rule: b64_EncodeToString.induct)
  case 1
  show ?case by (rule exI [of _ "[]"], rule exI [of _ 0]) simp
next
  case (2 a)
  note x = sextets [OF byte_val_less [of a] byte_val_less [of a] byte_val_less [of a]]
  show ?case
    by (rule exI [of _ "[b64_char (byte_val a div 4), b64_char (byte_val a mod 4 * 16)]"], rule exI [of _ 2])
      (simp add: raw_b64_char x numeral_2_eq_2)
next
  case (3 a b)
  note x = sextets [OF byte_val_less [of a] byte_val_less [of b] byte_val_less [of b]]
  show ?case
    by (rule exI [of _ "[b64_char (byte_val a div 4), b64_char (byte_val a mod 4 * 16 + byte_val b div 16), b64_char (byte_val b mod 16 * 4)]"],
        rule exI [of _ 1]) (simp add: raw_b64_char x)
next
  case (4 a b c r)
  note x = sextets [OF byte_val_less [of a] byte_val_less [of b] byte_val_less [of c]]
  from 4 obtain t k where t: "b64_EncodeToString r = t @ replicate k CHR ''=''" "list_all raw_char t"
      "k = (4 - length t mod 4) mod 4" "length t mod 4 \<noteq> 1" by blast
  let ?q = "[b64_char (byte_val a div 4), b64_char (byte_val a mod 4 * 16 + byte_val b div 16),
     b64_char (byte_val b mod 16 * 4 + byte_val c div 64), b64_char (byte_val c mod 64)]"
  have "length (?q @ t) mod 4 = length t mod 4" by simp
  then show ?case
    using t by (intro exI [of _ "?q @ t"] exI [of _ k]) (simp add: raw_b64_char x)
qed

lemma std_url_char: "raw_char c \<Longrightarrow> std_char (url_char c) = c \<and> url_char c \<notin> {CHR ''+'', CHR ''/'', CHR ''='', CHR 0x0A, CHR 0x0D}"
  by (auto simp: raw_char_def std_char_def url_char_def)

lemma RawURL_roundtrip: "RawURL_DecodeString (RawURL_EncodeToString s) = Some s"
proof -
  obtain t k where t: "b64_EncodeToString s = t @ replicate k CHR ''=''" "list_all raw_char t"
      "k = (4 - length t mod 4) mod 4" "length t mod 4 \<noteq> 1" using b64_shape by blast
  have plain: "c \<noteq> CHR ''=''" if "c \<in> set t" for c using t(2) that by (auto simp: list_all_iff raw_char_def)
  have "takeWhile (\<lambda>c. c \<noteq> CHR ''='') (t @ replicate k CHR ''='') = t"
    using plain by (cases k) (simp_all add: takeWhile_append)
  then have enc: "RawURL_EncodeToString s = map url_char t" by (simp add: RawURL_EncodeToString_def t(1))
  have "filter (\<lambda>c. c \<noteq> CHR 0x0A \<and> c \<noteq> CHR 0x0D) (map url_char t) = map url_char t"
    using t(2) by (auto simp: filter_id_conv list_all_iff dest: std_url_char)
  moreover have "\<not> list_ex (\<lambda>c. c \<in> {CHR ''+'', CHR ''/'', CHR ''=''}) (map url_char t)"
    using t(2) std_url_char by (auto simp: list_ex_iff list_all_iff)
  moreover have "map std_char (map url_char t) = t"
    using t(2) by (simp add: list_all_iff map_idI std_url_char)
  ultimately show ?thesis
    using t(1,3,4) Decode_Encode [of s] by (simp add: RawURL_DecodeString_def enc)
qed

lemma RawURL_Encode_Nil: "RawURL_EncodeToString s = [] \<longleftrightarrow> s = []"
proof
  assume "RawURL_EncodeToString s = []"
  then have "RawURL_DecodeString [] = Some s" using RawURL_roundtrip [of s] by simp
  then show "s = []" by (simp add: RawURL_DecodeString_def b64_DecodeString_def)
qed (simp add: RawURL_EncodeToString_def)

lemma decode_encode_profileSession:
  assumes "encodeProfileSession C profileID backends = Some sessionID" "backends \<noteq> []"
    "\<And>raw. json_session C \<lparr>se_ProfileID = profileID, se_Backends = backends\<rparr> = Some raw \<Longrightarrow>
       raw \<noteq> [] \<and> session_json C raw = Some \<lparr>se_ProfileID = profileID, se_Backends = backends\<rparr>"
  shows "decodeProfileSession C profileID sessionID = Some \<lparr>se_ProfileID = profileID, se_Backends = backends\<rparr>" "sessionID \<noteq> []"
    and "p \<noteq> profileID \<Longrightarrow> decodeProfileSession C p sessionID = None"
proof -
  obtain raw where raw: "json_session C \<lparr>se_ProfileID = profileID, se_Backends = backends\<rparr> = Some raw"
      "sessionID = profileSessionPrefix @ RawURL_EncodeToString raw"
    using assms(1) by (auto simp: encodeProfileSession_def copyStringMap_def split: option.splits)
  with assms(3) have "raw \<noteq> []" "session_json C raw = Some \<lparr>se_ProfileID = profileID, se_Backends = backends\<rparr>" by auto
  then show "decodeProfileSession C profileID sessionID = Some \<lparr>se_ProfileID = profileID, se_Backends = backends\<rparr>"
    "p \<noteq> profileID \<Longrightarrow> decodeProfileSession C p sessionID = None"
    using assms(2) raw(2)
    by (simp_all add: decodeProfileSession_def Let_def HasPrefix_def RawURL_Encode_Nil RawURL_roundtrip copyStringMap_def)
  show "sessionID \<noteq> []" using raw(2) by (simp add: profileSessionPrefix_def)
qed

section \<open>The names of the tools\<close>

lemma validate_members_sound:
  assumes "validate_members L c profileID m ss = None"
  shows "distinct (map (\<lambda>(i, s). gw_serverPrefix i s) ss)"
    and "(i, s) \<in> set ss \<Longrightarrow> m (gw_serverPrefix i s) = None \<and> CHR ''.'' \<notin> set (gw_serverPrefix i s) \<and> map_of (gc_CatalogServers c) i \<noteq> None"
proof -
  have "distinct (map (\<lambda>(i, s). gw_serverPrefix i s) ss) \<and>
    (\<forall>(i, s)\<in>set ss. m (gw_serverPrefix i s) = None \<and> CHR ''.'' \<notin> set (gw_serverPrefix i s) \<and> map_of (gc_CatalogServers c) i \<noteq> None)"
    using assms
  proof (induction ss arbitrary: m)
    case (Cons x ss)
    obtain i s where x: "x = (i, s)" by fastforce
    let ?q = "gw_serverPrefix i s"
    have rest: "validate_members L c profileID (m(?q \<mapsto> i)) ss = None" and here: "m ?q = None" "map_of (gc_CatalogServers c) i \<noteq> None"
      "CHR ''.'' \<notin> set ?q"
      using Cons.prems by (auto simp: x Let_def gw_serverPrefix_def validateSlug_def split: option.splits if_splits)
    have "\<forall>(j, t)\<in>set ss. gw_serverPrefix j t \<noteq> ?q \<and> m (gw_serverPrefix j t) = None"
      using Cons.IH [OF rest] by (auto split: if_splits)
    then show ?case using Cons.IH [OF rest] here by (auto simp: x)
  qed simp
  then show "distinct (map (\<lambda>(i, s). gw_serverPrefix i s) ss)"
    "(i, s) \<in> set ss \<Longrightarrow> m (gw_serverPrefix i s) = None \<and> CHR ''.'' \<notin> set (gw_serverPrefix i s) \<and> map_of (gc_CatalogServers c) i \<noteq> None"
    by auto
qed

lemma validate_profiles_sound:
  "validate_profiles L c ps = None \<Longrightarrow> (profileID, profile) \<in> set ps \<Longrightarrow> validate_members L c profileID Map.empty (gp_Servers profile) = None"
  by (induction L c ps rule: validate_profiles.induct) (auto split: if_splits option.splits)

lemma validated_profile:
  assumes "gw_ValidateConfig L (gw_config g) = None" "map_of (gc_Profiles (gw_config g)) profileID = Some profile"
  shows "validate_members L (gw_config g) profileID Map.empty (gp_Servers profile) = None"
  using assms map_of_SomeD [OF assms(2)] validate_profiles_sound
  by (auto simp: gw_ValidateConfig_def split: if_splits option.splits)

text \<open>The gateway as an instance of the contract of tool names.\<close>

definition distinct_prefixes :: "GatewayProfile \<Rightarrow> bool" where
  "distinct_prefixes profile \<longleftrightarrow> distinct (map (\<lambda>(i, s). gw_serverPrefix i s) (gp_Servers profile))"

lemma find_distinct: "distinct (map f xs) \<Longrightarrow> x \<in> set xs \<Longrightarrow> find (\<lambda>y. f y = f x) xs = Some x"
  by (induction xs) (auto simp: image_iff)

interpretation gateway_tools: tool_namespace distinct_prefixes gp_Servers gw_serverPrefix gw_serverByPrefix profileToolEnabled
proof unfold_locales
  fix p i s
  assume "distinct_prefixes p" "(i, s) \<in> set (gp_Servers p)"
  then have "find (\<lambda>y. (case y of (i, s) \<Rightarrow> gw_serverPrefix i s) = (case (i, s) of (i, s) \<Rightarrow> gw_serverPrefix i s)) (gp_Servers p) = Some (i, s)"
    unfolding distinct_prefixes_def by (rule find_distinct)
  then show "gw_serverByPrefix p (gw_serverPrefix i s) = Some (i, s)"
    by (simp add: gw_serverByPrefix_def case_prod_beta')
next
  fix p q i s
  assume "gw_serverByPrefix p q = Some (i, s)"
  then show "(i, s) \<in> set (gp_Servers p) \<and> gw_serverPrefix i s = q"
    by (auto simp: gw_serverByPrefix_def find_Some_iff) (metis nth_mem)
qed

lemma member_at_eq: "distinct (map fst (gp_Servers profile)) \<Longrightarrow> (i, s) \<in> set (gp_Servers profile) \<Longrightarrow> member_at profile i = s"
  by (simp add: member_at_def)

text \<open>\<open>resolveProfileTool\<close> is the resolution of the contract.\<close>

lemma resolveProfileTool_cases:
  assumes keys: "distinct (map fst (gp_Servers profile))" and params: "Option.bind paramsRaw (params_json C) = Some params" "par_Name params \<noteq> []"
  shows "resolveProfileTool C paramsRaw profile =
    (case resolve_tool (gw_serverByPrefix profile) profileToolEnabled (par_Name params) of
       Inr (i, s, t) \<Rightarrow> Inr (i, t, params)
     | Inl NotNamespaced \<Rightarrow> Inl ''tool name must be namespaced as prefix.tool''
     | Inl UnknownTool \<Rightarrow> Inl (''unknown tool: '' @ par_Name params)
     | Inl DisabledTool \<Rightarrow> Inl (''disabled tool: '' @ par_Name params))"
proof -
  obtain q b ok where c: "Cut CHR ''.'' (par_Name params) = (q, b, ok)" by (cases "Cut CHR ''.'' (par_Name params)")
  show ?thesis
  proof (cases "gw_serverByPrefix profile q")
    case None
    then show ?thesis using params by (simp add: resolveProfileTool_def resolve_tool_def c)
  next
    case (Some x)
    obtain i s where x: "x = (i, s)" by fastforce
    then have "member_at profile i = s" using member_at_eq [OF keys] gateway_tools.lookup_sound Some by blast
    then show ?thesis using params Some x by (simp add: resolveProfileTool_def resolve_tool_def c Let_def)
  qed
qed

lemma collect_tools_from:
  "t \<in> set (snd (collect_tools C g profile rs)) \<Longrightarrow>
     \<exists>i resp tools. (i, resp) \<in> set rs \<and> mergeToolsResult C i (member_at profile i) (calloutBodyBytes (RBody resp)) = Inr tools \<and> t \<in> set tools"
proof (induction rs)
  case (Cons x rs)
  obtain i resp where x: "x = (i, resp)" by fastforce
  obtain recs merged where r: "collect_tools C g profile rs = (recs, merged)" by fastforce
  have "t \<in> set merged \<or> (\<exists>tools. mergeToolsResult C i (member_at profile i) (calloutBodyBytes (RBody resp)) = Inr tools \<and> t \<in> set tools)"
    using Cons.prems by (auto simp: x r Let_def split: if_splits sum.splits)
  then show ?case using Cons.IH by (auto simp: x r)
qed simp

lemma mergeToolsResult_names:
  "mergeToolsResult C i s b = Inr tools \<Longrightarrow> t \<in> set tools \<Longrightarrow>
     \<exists>t0. tool_Name t = gw_serverPrefix i s @ ''.'' @ t0 \<and> profileToolEnabled s t0"
  by (auto simp: mergeToolsResult_def split: sum.splits prod.splits option.splits)

section \<open>Where credentials go\<close>

fun plan_requests :: "gw_plan \<Rightarrow> callout_request list" where
  "plan_requests (CallOne q cb failed) = [q]"
| "plan_requests (CallAll qs cb failed) = qs"
| "plan_requests _ = []"

definition named :: "string \<Rightarrow> callout_request \<Rightarrow> header list" where
  "named nm q = filter (\<lambda>h. EqualFold (fst h) nm) (Headers q)"

definition addressed_to :: "url_lib \<Rightarrow> string \<Rightarrow> string \<Rightarrow> callout_request \<Rightarrow> bool" where
  "addressed_to L base i q = (case url_Parse L (catalogURL L base i) of
     Inl _ \<Rightarrow> False
   | Inr u \<Rightarrow> named ''host'' q = [(''host'', u_Host u)] \<and> named '':scheme'' q = [('':scheme'', u_Scheme u)] \<and>
       named '':path'' q = [('':path'', RequestURI L u)])"

text \<open>A request to a catalog server for a request of its path, and one to a member of a profile the client may use.\<close>

definition anonymous_request :: "url_lib \<Rightarrow> Gateway \<Rightarrow> transitRequest \<Rightarrow> callout_request \<Rightarrow> bool" where
  "anonymous_request L g r q \<longleftrightarrow>
     list_ex (\<lambda>(i, server). catalogServerFromTransitPath L g (tr_path r) = (i, Some server) \<and> Cluster q = catalogCluster server \<and>
       addressed_to L (ct_URL server) i q) (gc_CatalogServers (gw_config g)) \<and>
     named ''x-mcp-credential-ref'' q = [(''x-mcp-credential-ref'', [])] \<and>
     named ''x-mcp-credential-envelope'' q = [(''x-mcp-credential-envelope'', [])]"

definition member_request :: "url_lib \<Rightarrow> Gateway \<Rightarrow> transitRequest \<Rightarrow> callout_request \<Rightarrow> bool" where
  "member_request L g r q =
     (case profileFromTransitPath L g (tr_path r) of
        (profileID, None) \<Rightarrow> False
      | (profileID, Some profile) \<Rightarrow>
          profileAuthorized (gp_APIKey profile) (headerValue (tr_headers r)) \<and>
          list_ex (\<lambda>(i, s). map_of (gp_Servers profile) i = Some s \<and> Cluster q = catalogCluster (catalog_at g i) \<and> addressed_to L (ps_URL s) i q \<and>
            named ''x-mcp-credential-ref'' q = present ''x-mcp-credential-ref'' (ps_CredentialRef s) \<and>
            named ''x-mcp-credential-envelope'' q = present ''x-mcp-credential-envelope'' (ps_CredentialEnvelope s)) (gp_Servers profile))"

lemma named_present: "filter (\<lambda>h. EqualFold (fst h) nm) (present nm' v) = (if EqualFold nm' nm then present nm' v else [])"
  by (simp add: present_def)

text \<open>The six headers every request to a catalog starts with, and what the four optional ones add.\<close>

lemma EqualFold_fixed [simp]:
  "EqualFold ''host'' ''host''" "EqualFold '':scheme'' '':scheme''" "EqualFold '':path'' '':path''"
  "EqualFold ''x-mcp-credential-ref'' ''x-mcp-credential-ref''" "EqualFold ''x-mcp-credential-envelope'' ''x-mcp-credential-envelope''"
  by (simp_all add: EqualFold_def)

definition header_names :: "string list" where
  "header_names = ['':method'', '':path'', '':scheme'', ''host'', ''content-type'', ''accept'', SessionIDHeader, ProtocolVersionHeader,
     ''x-mcp-credential-ref'', ''x-mcp-credential-envelope'']"

lemma header_names_lower: "list_all (\<lambda>s. Writer_Ops.ToLower s = s) header_names"
  by code_simp

lemma EqualFold_names: "a \<in> set header_names \<Longrightarrow> b \<in> set header_names \<Longrightarrow> EqualFold a b \<longleftrightarrow> a = b"
  using header_names_lower by (simp add: EqualFold_def list_all_iff)

lemma header_names_members [simp]:
  "'':method'' \<in> set header_names" "'':path'' \<in> set header_names" "'':scheme'' \<in> set header_names" "''host'' \<in> set header_names"
  "''content-type'' \<in> set header_names" "''accept'' \<in> set header_names" "SessionIDHeader \<in> set header_names"
  "ProtocolVersionHeader \<in> set header_names" "''x-mcp-credential-ref'' \<in> set header_names" "''x-mcp-credential-envelope'' \<in> set header_names"
  "''mcp-session-id'' \<in> set header_names" "''mcp-protocol-version'' \<in> set header_names"
  by (simp_all add: header_names_def mcp_names)

definition member_headers :: "url_lib \<Rightarrow> url \<Rightarrow> string \<Rightarrow> string \<Rightarrow> ProfileServer \<Rightarrow> header list" where
  "member_headers L u session protocol server =
     [('':method'', ''POST''), ('':path'', RequestURI L u), ('':scheme'', u_Scheme u), (''host'', u_Host u),
      (''content-type'', ''application/json''), (''accept'', ''application/json'')] @
     present SessionIDHeader session @ present ProtocolVersionHeader protocol @
     present ''x-mcp-credential-ref'' (ps_CredentialRef server) @ present ''x-mcp-credential-envelope'' (ps_CredentialEnvelope server)"

lemma named_member_headers:
  assumes "Headers q = member_headers L u session protocol server" "url_Parse L (catalogURL L (ps_URL server) i) = Inr u"
  shows "addressed_to L (ps_URL server) i q"
    "named ''x-mcp-credential-ref'' q = present ''x-mcp-credential-ref'' (ps_CredentialRef server)"
    "named ''x-mcp-credential-envelope'' q = present ''x-mcp-credential-envelope'' (ps_CredentialEnvelope server)"
    "named SessionIDHeader q = present SessionIDHeader session"
  using assms by (simp_all add: addressed_to_def named_def member_headers_def named_present EqualFold_names mcp_names)

lemma toolcall_request:
  assumes "profileToolCallCalloutRequest L g r b i server catalogServer session = Inr q"
  shows "\<exists>u. url_Parse L (catalogURL L (ps_URL server) i) = Inr u \<and> Cluster q = catalogCluster catalogServer \<and> Body q = b \<and>
    Headers q = member_headers L u session (headerValue (tr_headers r) ProtocolVersionHeader) server"
  using assms by (auto simp: profileToolCallCalloutRequest_def member_headers_def split: sum.splits)

lemma callout_loop_requests:
  assumes "callout_loop L g r b profile backends ids = Inr (reqs, outIDs)" "q \<in> set reqs"
  shows "\<exists>i server u session. map_of (gp_Servers profile) i = Some server \<and> url_Parse L (catalogURL L (ps_URL server) i) = Inr u \<and>
    Cluster q = catalogCluster (catalog_at g i) \<and>
    Headers q = member_headers L u session (headerValue (tr_headers r) ProtocolVersionHeader) server"
  using assms
proof (induction ids arbitrary: reqs outIDs)
  case (Cons i ids)
  show ?case
  proof (cases "map_of (gp_Servers profile) i")
    case None
    then show ?thesis using Cons by simp
  next
    case (Some server)
    then obtain u where u: "url_Parse L (catalogURL L (ps_URL server) i) = Inr u" using Cons.prems by (auto split: sum.splits)
    then obtain q0 reqs' out' where rest: "callout_loop L g r b profile backends ids = Inr (reqs', out')" "reqs = q0 # reqs'"
      and q0: "Cluster q0 = catalogCluster (catalog_at g i)"
        "Headers q0 = member_headers L u (if backends \<noteq> [] then (case map_of backends i of Some v \<Rightarrow> v | None \<Rightarrow> []) else [])
           (headerValue (tr_headers r) ProtocolVersionHeader) server"
      using Cons.prems Some by (auto simp: Let_def member_headers_def present_def split: sum.splits)
    then show ?thesis
    proof (cases "q = q0")
      case True
      then show ?thesis using q0 Some u by blast
    next
      case False
      then show ?thesis using Cons.IH [OF rest(1)] Cons.prems(2) rest(2) by auto
    qed
  qed
qed simp

lemma member_requestI:
  assumes "profileFromTransitPath L g (tr_path r) = (profileID, Some profile)"
    "profileAuthorized (gp_APIKey profile) (headerValue (tr_headers r))" "map_of (gp_Servers profile) i = Some server"
    "url_Parse L (catalogURL L (ps_URL server) i) = Inr u" "Cluster q = catalogCluster (catalog_at g i)"
    "Headers q = member_headers L u session protocol server"
  shows "member_request L g r q"
proof -
  have "(i, server) \<in> set (gp_Servers profile)" using assms(3) by (rule map_of_SomeD)
  then show ?thesis
    unfolding member_request_def assms(1) prod.case option.case list_ex_iff
    using assms(2,3,5) named_member_headers [OF assms(6,4)] by (intro conjI bexI [of _ "(i, server)"]) simp_all
qed

lemma tool_owner:
  assumes "resolveProfileTool C params profile = Inr (j, tool, ps)"
  shows "map_of (gp_Servers profile) j = Some (member_at profile j)"
proof -
  obtain q s where "gw_serverByPrefix profile q = Some (j, s)"
    using assms by (auto simp: resolveProfileTool_def Let_def split: option.splits if_splits prod.splits)
  then have "(j, s) \<in> set (gp_Servers profile)" using gateway_tools.lookup_sound by blast
  then show ?thesis by (cases "map_of (gp_Servers profile) j") (auto simp: member_at_def map_of_eq_None_iff image_iff)
qed

lemma profile_plan_requests:
  assumes "profileFromTransitPath (gw_url C) g (tr_path r) = (profileID, Some profile)"
    "profileAuthorized (gp_APIKey profile) (headerValue (tr_headers r))"
    "pl \<in> {initializeProfileTransit C g r i b profileID profile, list_requests C g r i profile backends, callProfileToolTransit C g r i params profile session}"
    "q \<in> set (plan_requests pl)"
  shows "member_request (gw_url C) g r q"
proof -
  consider reqs out b ks bs where "callout_loop (gw_url C) g r b profile bs ks = Inr (reqs, out)" "q \<in> set reqs"
    | j server b v where "profileToolCallCalloutRequest (gw_url C) g r b j server (catalog_at g j) v = Inr q" "map_of (gp_Servers profile) j = Some server"
    using assms(3,4) tool_owner
    by (auto simp: initializeProfileTransit_def list_requests_def callProfileToolTransit_def profileInitializeCalloutRequests_def
        profileToolsListCalloutRequests_def profileCalloutRequests_def Let_def split: sum.splits option.splits)
  then show ?thesis
  proof cases
    case 1
    then show ?thesis using callout_loop_requests [OF 1] member_requestI [OF assms(1,2)] by blast
  next
    case 2
    then show ?thesis using toolcall_request [OF 2(1)] member_requestI [OF assms(1,2) 2(2)] by blast
  qed
qed

lemma catalog_plan_requests:
  assumes "q \<in> set (plan_requests (calloutCatalogServerTransit C g r b))"
  shows "anonymous_request (gw_url C) g r q"
proof -
  let ?L = "gw_url C"
  obtain i server where path: "catalogServerFromTransitPath ?L g (tr_path r) = (i, Some server)"
    and q: "catalogCalloutRequest ?L g r b i server = Inr q"
    using assms by (auto simp: calloutCatalogServerTransit_def split: prod.splits option.splits sum.splits)
  have "map_of (gc_CatalogServers (gw_config g)) i = Some server"
    using path by (auto simp: catalogServerFromTransitPath_def Let_def split: if_splits option.splits)
  then have "(i, server) \<in> set (gc_CatalogServers (gw_config g))" by (rule map_of_SomeD)
  moreover have "Cluster q = catalogCluster server \<and> addressed_to ?L (ct_URL server) i q \<and>
      named ''x-mcp-credential-ref'' q = [(''x-mcp-credential-ref'', [])] \<and>
      named ''x-mcp-credential-envelope'' q = [(''x-mcp-credential-envelope'', [])]"
    using q by (auto simp: catalogCalloutRequest_def addressed_to_def named_def named_present EqualFold_names mcp_names split: sum.splits)
  ultimately show ?thesis using path unfolding anonymous_request_def list_ex_iff by (intro conjI bexI [of _ "(i, server)"]) simp_all
qed

section \<open>Properties\<close>

text \<open>C9. Credentials stay with their server. Whatever a client sends, every callout of the gateway is one of two kinds: a
  request to the catalog server its path names, in which both credential headers are present and empty, so that
  nothing the client sent under these names gets through; or a request to a member of the profile its path names, made
  only if the client presented the profile's key, addressed to the URL and the cluster of that member, and carrying as
  credentials exactly those the profile configures for that member.\<close>

theorem gateway_confines_credentials:
  "list_all (\<lambda>q. anonymous_request (gw_url C) g r q \<or> member_request (gw_url C) g r q) (plan_requests (transit_body C g (Some r) chunk))"
proof -
  have "member_request (gw_url C) g r q" if q: "q \<in> set (plan_requests (calloutProfileTransit C g r b))" for q b
  proof -
    obtain profileID profile where p: "profileFromTransitPath (gw_url C) g (tr_path r) = (profileID, Some profile)"
        "profileAuthorized (gp_APIKey profile) (headerValue (tr_headers r))"
      using q by (auto simp: calloutProfileTransit_def split: prod.splits option.splits if_splits)
    note member = profile_plan_requests [OF p]
    have "q \<in> set (plan_requests (initializeProfileTransit C g r i b profileID profile)) \<Longrightarrow> member_request (gw_url C) g r q"
      "q \<in> set (plan_requests (list_requests C g r i profile backends)) \<Longrightarrow> member_request (gw_url C) g r q"
      "q \<in> set (plan_requests (callProfileToolTransit C g r i params profile session)) \<Longrightarrow> member_request (gw_url C) g r q"
      for i backends params session
      by (rule member; blast)+
    then show ?thesis
      using q p by (auto simp: calloutProfileTransit_def listProfileToolsTransit_def Let_def split: option.splits if_splits)
  qed
  then show ?thesis using catalog_plan_requests by (auto simp: list_all_iff transit_body_def)
qed

text \<open>C30. Every tool with a name that the gateway lists can be called. For every configuration that passes
  \<open>ValidateConfig\<close> and every set of answers of the servers, a tool in the merged list is named \<open>prefix.t\<close> for exactly
  one member of the profile and one \<open>t\<close>, and that member was asked. A call with this name resolves to this member and to
  the tool's own name \<open>t\<close>, unless \<open>t\<close> is empty: a tool that its server lists without a name appears in the list too,
  and every call of it is refused. (The aggregator guarantees less, since it accepts a prefix that contains a dot.)\<close>

theorem gateway_lists_callable_tools:
  assumes "gw_ValidateConfig L (gw_config g) = None" "map_of (gc_Profiles (gw_config g)) profileID = Some profile"
    "distinct (map fst (gp_Servers profile))" "set ids \<subseteq> fst ` set (gp_Servers profile)"
    "t \<in> set (sortTools (snd (collect_tools C g profile (zip ids responses))))"
    "Option.bind paramsRaw (params_json C) = Some params" "par_Name params = tool_Name t"
  shows "\<exists>i s t0. i \<in> set ids \<and> (i, s) \<in> set (gp_Servers profile) \<and> tool_Name t = gw_serverPrefix i s @ ''.'' @ t0 \<and>
    resolveProfileTool C paramsRaw profile =
      (if t0 = [] then Inl ''tool name must be namespaced as prefix.tool'' else Inr (i, t0, params)) \<and>
    (\<forall>j s' t'. (j, s') \<in> set (gp_Servers profile) \<and> tool_Name t = gw_serverPrefix j s' @ ''.'' @ t' \<longrightarrow> j = i \<and> t' = t0)"
proof -
  have members: "validate_members L (gw_config g) profileID Map.empty (gp_Servers profile) = None"
    using validated_profile [OF assms(1,2)] .
  note ok = validate_members_sound [OF members]
  obtain i resp tools where i: "(i, resp) \<in> set (zip ids responses)"
      "mergeToolsResult C i (member_at profile i) (calloutBodyBytes (RBody resp)) = Inr tools" "t \<in> set tools"
    using collect_tools_from assms(5) by (fastforce simp: sortTools_def)
  then have "i \<in> set ids" by (auto dest: set_zip_leftD)
  then obtain s where s: "(i, s) \<in> set (gp_Servers profile)" using assms(4) by auto
  then have "member_at profile i = s" using member_at_eq [OF assms(3)] by blast
  then obtain t0 where t0: "tool_Name t = gw_serverPrefix i s @ ''.'' @ t0" "profileToolEnabled s t0"
    using mergeToolsResult_names [OF i(2,3)] by auto
  have dp: "distinct_prefixes profile" using ok(1) by (simp add: distinct_prefixes_def)
  have res: "resolveProfileTool C paramsRaw profile = Inr (i, t0, params)" if "t0 \<noteq> []"
    using gateway_tools.listed_resolves [OF dp s t0(2) that] ok(2) [OF s] resolveProfileTool_cases [OF assms(3,6)]
    by (simp add: assms(7) t0(1))
  have none: "resolveProfileTool C paramsRaw profile = Inl ''tool name must be namespaced as prefix.tool''" if "t0 = []"
    using resolveProfileTool_cases [OF assms(3,6)] Cut_append_sep [of "CHR ''.''" "gw_serverPrefix i s" "[]"] ok(2) [OF s] that
    by (simp add: assms(7) t0(1) resolve_tool_def)
  have "j = i \<and> t' = t0" if "(j, s') \<in> set (gp_Servers profile)" "tool_Name t = gw_serverPrefix j s' @ ''.'' @ t'" for j s' t'
  proof -
    have "Cut CHR ''.'' (tool_Name t) = (gw_serverPrefix j s', t', True)"
      unfolding that(2) by (rule Cut_append_sep) (use ok(2) [OF that(1)] in blast)
    moreover have "Cut CHR ''.'' (tool_Name t) = (gw_serverPrefix i s, t0, True)"
      unfolding t0(1) by (rule Cut_append_sep) (use ok(2) [OF s] in blast)
    ultimately show ?thesis
      using gateway_tools.lookup_finds [OF dp that(1)] gateway_tools.lookup_finds [OF dp s] by auto
  qed
  moreover have "resolveProfileTool C paramsRaw profile =
      (if t0 = [] then Inl ''tool name must be namespaced as prefix.tool'' else Inr (i, t0, params))"
    using res none by presburger
  ultimately show ?thesis using \<open>i \<in> set ids\<close> s t0(1) by blast
qed

definition demo_url :: url_lib where
  "demo_url = \<lparr>url_Parse = (\<lambda>s. Inr \<lparr>u_Scheme = ''http'', u_Host = ''a'', u_User = None, u_RawQuery = [], u_rest = []\<rparr>), url_String = (\<lambda>u. u_Host u),
     RequestURI = (\<lambda>u. ''/mcp/s/gh''), PathEscape = (\<lambda>s. s), PathUnescape = Some\<rparr>"

definition demo_member :: ProfileServer where
  "demo_member = \<lparr>ps_URL = ''http://a'', ps_Prefix = ''g'', ps_CredentialRef = ''ref'', ps_CredentialEnvelope = [], ps_EnabledTools = None\<rparr>"

definition demo_gateway :: Gateway where
  "demo_gateway = New_gateway \<lparr>gc_TimeoutMillis = 0,
     gc_Profiles = [(''p'', \<lparr>gp_Name = ''n'', gp_APIKey = [], gp_Servers = [(''gh'', demo_member)]\<rparr>)],
     gc_CatalogServers = [(''gh'', \<lparr>ct_URL = ''http://a'', ct_Cluster = []\<rparr>)]\<rparr>"

definition demo_profile_p :: GatewayProfile where
  "demo_profile_p = \<lparr>gp_Name = ''n'', gp_APIKey = [], gp_Servers = [(''gh'', demo_member)]\<rparr>"

definition demo_session_value :: profileSession where
  "demo_session_value = \<lparr>se_ProfileID = ''p'', se_Backends = [(''gh'', ''s1'')]\<rparr>"

definition demo_codec :: gw_codec where
  "demo_codec = \<lparr>gw_url = demo_url, json_session = (\<lambda>s. Some ''S''), session_json = (\<lambda>b. if b = ''S'' then Some demo_session_value else None),
     request_json = (\<lambda>b. Some (None, MethodToolsCall, Some JNull)), json_request = (\<lambda>q. Some (rq_Method q)), json_response = (\<lambda>r. Some ''R''),
     response_json = (\<lambda>b. Inr (JNull, None)), initialize_json = (\<lambda>j. Inl ''no''),
     tools_json = (\<lambda>j. Inr [\<lparr>tool_Name = ''t'', tool_Description = [], tool_InputSchema = JNull\<rparr>]),
     params_json = (\<lambda>j. Some \<lparr>par_Name = ''g.t'', par_Arguments = JNull\<rparr>), result_text = (\<lambda>r. [])\<rparr>"

lemma demo_gateway_valid: "gw_ValidateConfig demo_url (gw_config demo_gateway) = None"
proof -
  have "list_all (\<lambda>s. s \<noteq> [] \<and> hd s \<notin> hd ` set space_runes \<and> last s \<notin> last ` set space_runes) [''gh'', ''http://a'', ''p'']"
    by (simp add: space_runes_def char_of_def)
  then have "list_all (\<lambda>s. TrimSpace s = s) [''gh'', ''http://a'', ''p'']" by (simp add: TrimSpace_id)
  then show ?thesis
    by (simp add: gw_ValidateConfig_def demo_gateway_def New_gateway_def Let_def validateSlug_def validateURL_def demo_url_def demo_member_def gw_serverPrefix_def)
qed

lemmas demo_gateway_facts = demo_gateway_def New_gateway_def Let_def demo_profile_p_def demo_member_def demo_codec_def demo_url_def

theorem gateway_lists_callable_tools_witness:
  "\<exists>i s t0. i \<in> set [''gh''] \<and> (i, s) \<in> set (gp_Servers demo_profile_p) \<and> ''g.t'' = gw_serverPrefix i s @ ''.'' @ t0 \<and>
    resolveProfileTool demo_codec (Some JNull) demo_profile_p =
      (if t0 = [] then Inl ''tool name must be namespaced as prefix.tool'' else Inr (i, t0, \<lparr>par_Name = ''g.t'', par_Arguments = JNull\<rparr>)) \<and>
    (\<forall>j s' t'. (j, s') \<in> set (gp_Servers demo_profile_p) \<and> ''g.t'' = gw_serverPrefix j s' @ ''.'' @ t' \<longrightarrow> j = i \<and> t' = t0)"
proof -
  let ?t = "\<lparr>tool_Name = ''g.t'', tool_Description = [], tool_InputSchema = JNull\<rparr>" and ?r = "settled_of_done (HTTPCalloutSuccess, [], [])"
  have listed: "?t \<in> set (sortTools (snd (collect_tools demo_codec demo_gateway demo_profile_p (zip [''gh''] [?r]))))"
    by (simp add: sortTools_def settled_of_done_def settled_Failed_def settled_OK_def responseFromCalloutHeaders_def mergeToolsResult_def
        profileToolEnabled_def member_at_def gw_serverPrefix_def demo_gateway_facts)
  show ?thesis
    using gateway_lists_callable_tools [OF demo_gateway_valid _ _ _ listed, of "''p''" "Some JNull" "\<lparr>par_Name = ''g.t'', par_Arguments = JNull\<rparr>"]
    by (simp add: demo_gateway_facts)
qed

text \<open>What a server's answer to \<open>initialize\<close> issues: the session in its own header, if the call succeeded.\<close>

definition issued_session :: "gw_codec \<Rightarrow> settled_response \<Rightarrow> string option" where
  "issued_session C resp =
     (if \<not> settled_Failed resp \<and> fst (responseFromCalloutHeaders (RHeaders resp)) = 200 \<and>
         decodeInitializeResult C (calloutBodyBytes (RBody resp)) = None
      then Some (headerValue (RHeaders resp) SessionIDHeader) else None)"

lemma collect_sessions_issued:
  "distinct (map fst xs) \<Longrightarrow> map_of (snd (collect_sessions C g xs)) j = Option.bind (map_of xs j) (issued_session C)"
proof (induction xs)
  case (Cons x xs)
  obtain k resp where x: "x = (k, resp)" by fastforce
  have "map_of xs k = None" using Cons.prems by (simp add: x map_of_eq_None_iff)
  then show ?case
    using Cons by (auto simp: x Let_def issued_session_def calloutHeaderValue_def split_beta split: option.split)
qed simp

text \<open>\<open>initialize\<close> asks every server of the profile, in the order of their identifiers.\<close>

lemma callout_loop_asks:
  assumes "callout_loop L g r b profile backends ids = Inr (reqs, outIDs)" "set ids \<subseteq> fst ` set (gp_Servers profile)"
  shows "outIDs = ids \<and> list_all2 (\<lambda>j q. addressed_to L (ps_URL (member_at profile j)) j q) ids reqs"
  using assms
proof (induction ids arbitrary: reqs outIDs)
  case (Cons i ids)
  obtain server where server: "map_of (gp_Servers profile) i = Some server"
    using Cons.prems(2) by (cases "map_of (gp_Servers profile) i") (auto simp: map_of_eq_None_iff)
  then obtain u where u: "url_Parse L (catalogURL L (ps_URL server) i) = Inr u" using Cons.prems by (auto split: sum.splits)
  then obtain q0 reqs' out' where rest: "callout_loop L g r b profile backends ids = Inr (reqs', out')" "reqs = q0 # reqs'" "outIDs = i # out'"
    and q0: "Headers q0 = member_headers L u (if backends \<noteq> [] then (case map_of backends i of Some v \<Rightarrow> v | None \<Rightarrow> []) else [])
           (headerValue (tr_headers r) ProtocolVersionHeader) server"
    using Cons.prems server by (auto simp: Let_def member_headers_def present_def split: sum.splits)
  moreover have "member_at profile i = server" using server by (simp add: member_at_def)
  ultimately show ?case using Cons.IH [OF rest(1)] Cons.prems(2) named_member_headers(1) [OF q0 u] by simp
qed simp

lemma initialize_reply_session:
  assumes "initialize_reply C i profileID backends = [OpSendLocalResponse 200 reply hs]"
  shows "backends \<noteq> [] \<and> encodeProfileSession C profileID backends = Some (headerValue hs SessionIDHeader)"
proof -
  have "\<not> EqualFold ''content-type'' SessionIDHeader" "EqualFold SessionIDHeader SessionIDHeader"
    by (simp_all add: EqualFold_names mcp_names)
  then show ?thesis
    using assms by (auto simp: initialize_reply_def gateway_failed_def writeTransitJSON_def split: if_splits option.splits)
qed

text \<open>A \<open>tools/call\<close> with the session of a profile.\<close>

lemma session_call:
  assumes "encodeProfileSession C profileID backends = Some sessionID" "backends \<noteq> []"
    "\<And>raw. json_session C \<lparr>se_ProfileID = profileID, se_Backends = backends\<rparr> = Some raw \<Longrightarrow>
       raw \<noteq> [] \<and> session_json C raw = Some \<lparr>se_ProfileID = profileID, se_Backends = backends\<rparr>"
    "profileFromTransitPath (gw_url C) g (tr_path r) = (p, Some profile)" "profileAuthorized (gp_APIKey profile) (headerValue (tr_headers r))"
    "request_json C b = Some (i, MethodToolsCall, paramsRaw)" "headerValue (tr_headers r) SessionIDHeader = sessionID"
    "resolveProfileTool C paramsRaw profile = Inr (serverID, tool, params)" "toolCallForwardBody C i tool params = Some fwd"
    "url_Parse (gw_url C) (catalogURL (gw_url C) (ps_URL (member_at profile serverID)) serverID) = Inr u"
  shows "if p \<noteq> profileID then calloutProfileTransit C g r b = Reply [] (bad_session_reply C i ''invalid MCP session ID'')
    else case map_of backends serverID of
           None \<Rightarrow> plan_requests (calloutProfileTransit C g r b) = []
         | Some v \<Rightarrow> (\<exists>q cb failed. calloutProfileTransit C g r b = CallOne q cb failed \<and> Body q = fwd \<and>
             addressed_to (gw_url C) (ps_URL (member_at profile serverID)) serverID q \<and> named SessionIDHeader q = present SessionIDHeader v)"
proof -
  note dec = decode_encode_profileSession [OF assms(1-3)]
  have other: "MethodToolsCall \<noteq> MethodInitialize" "MethodToolsCall \<noteq> MethodToolsList" by (simp_all add: mcp_names)
  have plan: "calloutProfileTransit C g r b =
      (case decodeProfileSession C p sessionID of
         None \<Rightarrow> Reply [] (bad_session_reply C i ''invalid MCP session ID'')
       | Some session \<Rightarrow> callProfileToolTransit C g r i paramsRaw profile session)"
    using dec(2) assms(5,7) other by (simp add: calloutProfileTransit_def assms(4,6) Let_def)
  show ?thesis
  proof (cases "p = profileID")
    case False
    then show ?thesis using plan dec(3) by simp
  next
    case True
    have sent: "calloutProfileTransit C g r b = callProfileToolTransit C g r i paramsRaw profile \<lparr>se_ProfileID = profileID, se_Backends = backends\<rparr>"
      using plan dec(1) True by simp
    show ?thesis
    proof (cases "map_of backends serverID")
      case None
      then show ?thesis using True sent by (simp add: callProfileToolTransit_def assms(8))
    next
      case (Some v)
      obtain q where q: "profileToolCallCalloutRequest (gw_url C) g r fwd serverID (member_at profile serverID) (catalog_at g serverID) v = Inr q"
        using assms(10) by (simp add: profileToolCallCalloutRequest_def)
      note h = toolcall_request [OF q]
      obtain cb failed where "callProfileToolTransit C g r i paramsRaw profile \<lparr>se_ProfileID = profileID, se_Backends = backends\<rparr> = CallOne q cb failed"
        using Some q by (simp add: callProfileToolTransit_def assms(8,9) Let_def)
      then show ?thesis using True sent Some h named_member_headers(1,4) by auto
    qed
  qed
qed

text \<open>C18. A session brings every call back to its backend. The gateway answers \<open>initialize\<close> by asking every server of the
  profile, each at its own address, and returns one session to the client. When the client sends this session with a
  \<open>tools/call\<close>, the call goes out, addressed to the server that owns the tool and with the tool's own name in its
  body, under exactly the session that this server issued in the headers of its own answer to \<open>initialize\<close>; a call
  for a server whose answer failed, or did not decode, is not sent at all; and with another profile of the gateway
  the session is refused. JSON of a session decodes to the session it was made from, and the request of the call
  itself is well formed: it encodes, and the address of the server parses.\<close>

theorem gateway_session_roundtrip:
  assumes json: "\<forall>s raw. json_session C s = Some raw \<longrightarrow> raw \<noteq> [] \<and> session_json C raw = Some s"
    and init: "profileFromTransitPath (gw_url C) g (tr_path r0) = (profileID, Some profile0)" "distinct (map fst (gp_Servers profile0))"
      "request_json C b0 = Some (i0, MethodInitialize, ps0)" "calloutProfileTransit C g r0 b0 = CallAll reqs cb0 failed0"
      "length responses = length reqs" "snd (cb0 responses) = [OpSendLocalResponse 200 reply hs]"
    and call: "profileFromTransitPath (gw_url C) g (tr_path r) = (p, Some profile)" "profileAuthorized (gp_APIKey profile) (headerValue (tr_headers r))"
      "request_json C b = Some (i, MethodToolsCall, paramsRaw)" "headerValue (tr_headers r) SessionIDHeader = headerValue hs SessionIDHeader"
      "resolveProfileTool C paramsRaw profile = Inr (serverID, tool, params)" "toolCallForwardBody C i tool params = Some fwd"
      "url_Parse (gw_url C) (catalogURL (gw_url C) (ps_URL (member_at profile serverID)) serverID) = Inr u"
  defines "asked \<equiv> sortedProfileServerIDs (gp_Servers profile0)"
  shows "list_all2 (\<lambda>j q. addressed_to (gw_url C) (ps_URL (member_at profile0 j)) j q) asked reqs \<and>
    (if p \<noteq> profileID then calloutProfileTransit C g r b = Reply [] (bad_session_reply C i ''invalid MCP session ID'')
     else case Option.bind (map_of (zip asked responses) serverID) (issued_session C) of
            None \<Rightarrow> plan_requests (calloutProfileTransit C g r b) = []
          | Some v \<Rightarrow> (\<exists>q cb failed. calloutProfileTransit C g r b = CallOne q cb failed \<and> Body q = fwd \<and>
              addressed_to (gw_url C) (ps_URL (member_at profile serverID)) serverID q \<and> named SessionIDHeader q = present SessionIDHeader v))"
proof -
  from init(1,3,4) obtain out where loop: "callout_loop (gw_url C) g r0 b0 profile0 [] asked = Inr (reqs, out)"
    and cb0: "cb0 = (\<lambda>rs. case collect_sessions C g (zip out rs) of (recs, backends) \<Rightarrow> (recs, initialize_reply C i0 profileID backends))"
    by (auto simp: calloutProfileTransit_def initializeProfileTransit_def profileInitializeCalloutRequests_def profileCalloutRequests_def asked_def
        split: if_splits sum.splits)
  have "set asked \<subseteq> fst ` set (gp_Servers profile0)" by (auto simp: asked_def sortedProfileServerIDs_def)
  note asks = callout_loop_asks [OF loop this]
  define backends where "backends = snd (collect_sessions C g (zip asked responses))"
  have "initialize_reply C i0 profileID backends = [OpSendLocalResponse 200 reply hs]"
    using init(6) asks by (simp add: cb0 backends_def split: prod.splits)
  note session = initialize_reply_session [OF this]
  have "distinct asked" using init(2) by (simp add: asked_def sortedProfileServerIDs_def)
  then have issued: "map_of backends serverID = Option.bind (map_of (zip asked responses) serverID) (issued_session C)"
    unfolding backends_def by (intro collect_sessions_issued) (simp add: map_fst_zip_take)
  show ?thesis
    using session_call [OF conjunct2 [OF session] conjunct1 [OF session] _ call(1-3) call(4) call(5-7)] json asks
    unfolding issued by simp
qed

definition demo_session_codec :: gw_codec where
  "demo_session_codec = demo_codec\<lparr>json_session := (\<lambda>s. if s = demo_session_value then Some ''S'' else None),
     request_json := (\<lambda>b. Some (None, if b = ''I'' then MethodInitialize else MethodToolsCall, Some JNull)),
     initialize_json := (\<lambda>j. Inr syntheticInitializeResult)\<rparr>"

theorem gateway_session_roundtrip_witness:
  "\<exists>q cb failed. calloutProfileTransit demo_session_codec demo_gateway
       \<lparr>tr_method = ''POST'', tr_path = ''/mcp/p'', tr_headers = [(SessionIDHeader, profileSessionPrefix @ RawURL_EncodeToString ''S'')]\<rparr> ''C'' = CallOne q cb failed \<and>
     Body q = MethodToolsCall \<and> addressed_to demo_url ''http://a'' ''gh'' q \<and> named SessionIDHeader q = present SessionIDHeader ''s1''"
proof -
  let ?C = demo_session_codec and ?s = "profileSessionPrefix @ RawURL_EncodeToString ''S''"
  let ?rinit = "\<lparr>tr_method = ''POST'', tr_path = ''/mcp/p'', tr_headers = []\<rparr>"
  let ?r = "\<lparr>tr_method = ''POST'', tr_path = ''/mcp/p'', tr_headers = [(SessionIDHeader, ?s)]\<rparr>" and ?m = "\<lparr>par_Name = ''g.t'', par_Arguments = JNull\<rparr>"
  let ?u = "\<lparr>u_Scheme = ''http'', u_Host = ''a'', u_User = None, u_RawQuery = [], u_rest = []\<rparr>"
  let ?ans = "settled_of_done (HTTPCalloutSuccess, [(SessionIDHeader, ''s1'')], [])"
  let ?hs = "[(''content-type'', ''application/json''), (SessionIDHeader, ?s), (ProtocolVersionHeader, ProtocolVersion)]"
  have C: "gw_url ?C = demo_url" by (simp add: demo_session_codec_def demo_codec_def)
  have json: "\<forall>s raw. json_session ?C s = Some raw \<longrightarrow> raw \<noteq> [] \<and> session_json ?C raw = Some s"
    by (simp add: demo_session_codec_def demo_codec_def)
  have path: "profileFromTransitPath (gw_url ?C) demo_gateway ''/mcp/p'' = (''p'', Some demo_profile_p)"
    by (simp add: C profileFromTransitPath_def stripQuery_def HasPrefix_def demo_gateway_facts)
  have fold: "EqualFold SessionIDHeader SessionIDHeader" "\<not> EqualFold ''content-type'' SessionIDHeader" by (simp_all add: EqualFold_names mcp_names)
  have keys: "distinct (map fst (gp_Servers demo_profile_p))" by (simp add: demo_profile_p_def)
  have reqs: "request_json ?C ''I'' = Some (None, MethodInitialize, Some JNull)" "request_json ?C ''C'' = Some (None, MethodToolsCall, Some JNull)"
    by (simp_all add: demo_session_codec_def)
  have auth: "profileAuthorized (gp_APIKey demo_profile_p) h" for h by (simp add: profileAuthorized_def demo_profile_p_def)
  obtain qs out where loop: "callout_loop demo_url demo_gateway ?rinit ''I'' demo_profile_p [] [''gh''] = Inr (qs, out)"
    by (simp add: demo_profile_p_def demo_url_def Let_def)
  then have out: "out = [''gh'']" "length qs = 1" using callout_loop_asks [OF loop] by (auto simp: demo_profile_p_def list_all2_Cons1)
  have asked: "sortedProfileServerIDs (gp_Servers demo_profile_p) = [''gh'']" by (simp add: sortedProfileServerIDs_def demo_profile_p_def)
  define cb where "cb = (\<lambda>rs. case collect_sessions ?C demo_gateway (zip [''gh''] rs) of (recs, backends) \<Rightarrow> (recs, initialize_reply ?C None ''p'' backends))"
  have plan: "calloutProfileTransit ?C demo_gateway ?rinit ''I'' = CallAll qs cb (writeTransitJSON ?C 502 (errorResponse None (- 32002) ''initialize failed'') [])"
    using path auth loop unfolding out(1)
    by (simp add: calloutProfileTransit_def reqs initializeProfileTransit_def profileInitializeCalloutRequests_def profileCalloutRequests_def
        asked C cb_def del: callout_loop.simps)
  have issued: "issued_session ?C ?ans = Some ''s1''"
    using fold by (simp add: issued_session_def settled_of_done_def settled_Failed_def settled_OK_def responseFromCalloutHeaders_def
        decodeInitializeResult_def demo_session_codec_def demo_codec_def mcp_names HasPrefix_def EqualFold_def)
  have "collect_sessions ?C demo_gateway [(''gh'', ?ans)] = ([(''gh'', catalog_at demo_gateway ''gh'', ''initialized'')], [(''gh'', ''s1'')])"
    using issued by (auto simp: issued_session_def calloutHeaderValue_def Let_def split: if_splits)
  then have reply: "snd (cb [?ans]) = [OpSendLocalResponse 200 ''R'' ?hs]"
    by (simp add: cb_def initialize_reply_def encodeProfileSession_def copyStringMap_def writeTransitJSON_def demo_session_codec_def demo_codec_def demo_session_value_def)
  have resolved: "resolveProfileTool ?C (Some JNull) demo_profile_p = Inr (''gh'', ''t'', ?m)"
    by (simp add: resolveProfileTool_def Cut_def Index_def gw_serverByPrefix_def gw_serverPrefix_def member_at_def profileToolEnabled_def
        demo_session_codec_def demo_gateway_facts)
  have fwd: "toolCallForwardBody ?C None ''t'' ?m = Some MethodToolsCall"
    by (simp add: toolCallForwardBody_def demo_session_codec_def demo_codec_def)
  have member: "member_at demo_profile_p ''gh'' = demo_member" by (simp add: member_at_def demo_profile_p_def)
  have u: "url_Parse (gw_url ?C) (catalogURL (gw_url ?C) (ps_URL (member_at demo_profile_p ''gh'')) ''gh'') = Inr ?u"
    by (simp add: C demo_url_def)
  have sent: "headerValue (tr_headers ?r) SessionIDHeader = headerValue ?hs SessionIDHeader" using fold by simp
  show ?thesis
    using gateway_session_roundtrip [OF json _ keys reqs(1) plan _ reply _ auth reqs(2) sent resolved fwd u] path out(2)
    by (simp add: asked issued C member) (simp add: demo_member_def)
qed

end
