(* ===== verification/MCP_Gateway_Net.thy ===== *)
theory MCP_Gateway_Net
  imports MCP_Gateway
begin

text \<open>
  The gateway over Go's HTTP client (\<^verbatim>\<open>src/examples/mcp-profile-gateway/gateway_nethttp.go\<close>), and that it answers what the
  filter answers. A handler returns the entries it writes into the dump, the requests it sends and its reply. What the
  client does with a request is a parameter; reading the body of a response may fail.
\<close>

record gw_http_request =
  gh_URL :: string
  gh_Header :: "header list"
  gh_Body :: bytes

record gw_http_response =
  gr_StatusCode :: int
  gr_Header :: "header list"
  gr_Body :: "string + bytes"

record gw_client =
  NewRequest_error :: "string \<Rightarrow> string option"
  client_Do :: "gw_http_request \<Rightarrow> string + gw_http_response"

text \<open>A body as it goes to the client, with the call that wrote it: the encoder of \<^verbatim>\<open>encoding/json\<close>, or \<open>Write\<close>.\<close>

datatype gw_body = JSONBody bytes | RawBody bytes

record gw_reply =
  gy_Status :: int
  gy_Header :: "header list"
  gy_Body :: gw_body

type_synonym 'a gw_run = "gw_rec list \<times> gw_http_request list \<times> 'a"

text \<open>The encoder ends a value with a newline. The status has been written before it; when it fails, nothing follows.\<close>

definition gw_writeJSON :: "gw_codec \<Rightarrow> header list \<Rightarrow> int \<Rightarrow> JSONRPCResponse \<Rightarrow> gw_reply" where
  "gw_writeJSON C hs st v =
     \<lparr>gy_Status = st, gy_Header = Header_Set ''content-type'' ''application/json'' hs,
      gy_Body = JSONBody (case json_response C v of Some b \<Rightarrow> b @ [CHR 0x0A] | None \<Rightarrow> [])\<rparr>"

definition copyNetHTTPResponseHeaders :: "header list \<Rightarrow> header list \<Rightarrow> header list" where
  "copyNetHTTPResponseHeaders dst src = dst @ filter (\<lambda>h. \<not> EqualFold (fst h) ''content-length'') src"

definition set_present :: "string \<Rightarrow> string \<Rightarrow> header list \<Rightarrow> header list" where
  "set_present nm v hs = (if v \<noteq> [] then Header_Set nm v hs else hs)"

text \<open>A request that is not built is not sent.\<close>

definition send :: "gw_client \<Rightarrow> gw_http_request \<Rightarrow> gw_http_request list \<times> (string + gw_http_response)" where
  "send H req = (case NewRequest_error H (gh_URL req) of Some e \<Rightarrow> ([], Inl e) | None \<Rightarrow> ([req], client_Do H req))"

definition forwardProfileServerNetHTTP ::
  "url_lib \<Rightarrow> gw_client \<Rightarrow> header list \<Rightarrow> bytes \<Rightarrow> string \<Rightarrow> ProfileServer \<Rightarrow> string \<Rightarrow> bool \<Rightarrow> gw_http_request list \<times> (string + gw_http_response)"
where
  "forwardProfileServerNetHTTP L H rh b serverID server backendSessionID useBackendSession =
     (let h1 = Header_Set ''accept'' ''application/json'' (Header_Set ''content-type'' ''application/json'' []);
          h2 = (if useBackendSession \<and> backendSessionID \<noteq> [] then Header_Set SessionIDHeader backendSessionID h1 else h1);
          h3 = set_present ProtocolVersionHeader (Header_Get rh ProtocolVersionHeader) h2;
          h4 = set_present ''x-mcp-credential-ref'' (ps_CredentialRef server) h3
      in send H \<lparr>gh_URL = catalogURL L (ps_URL server) serverID,
                 gh_Header = set_present ''x-mcp-credential-envelope'' (ps_CredentialEnvelope server) h4, gh_Body = b\<rparr>)"

definition set_default :: "string \<Rightarrow> string \<Rightarrow> string \<Rightarrow> header list \<Rightarrow> header list" where
  "set_default nm v fallback hs =
     (let h = Header_Set nm v hs in if Header_Get h nm = [] then Header_Set nm fallback h else h)"

text \<open>The body of the client's request is read first; a read error is the result.\<close>

definition forwardCatalogNetHTTP ::
  "url_lib \<Rightarrow> gw_client \<Rightarrow> header list \<Rightarrow> string + bytes \<Rightarrow> string \<Rightarrow> CatalogServer \<Rightarrow> gw_http_request list \<times> (string + gw_http_response)"
where
  "forwardCatalogNetHTTP L H rh rb serverID server =
     (case rb of
        Inl e \<Rightarrow> ([], Inl e)
      | Inr b \<Rightarrow>
          (let h1 = set_default ''content-type'' (Header_Get rh ''content-type'') ''application/json'' [];
               h2 = set_default ''accept'' (Header_Get rh ''accept'') ''application/json'' h1;
               h3 = set_present SessionIDHeader (Header_Get rh SessionIDHeader) h2
           in send H \<lparr>gh_URL = catalogURL L (ct_URL server) serverID,
                      gh_Header = set_present ProtocolVersionHeader (Header_Get rh ProtocolVersionHeader) h3, gh_Body = b\<rparr>))"

definition handleCatalogServerNetHTTP ::
  "gw_codec \<Rightarrow> gw_client \<Rightarrow> Gateway \<Rightarrow> string \<Rightarrow> header list \<Rightarrow> string + bytes \<Rightarrow> gw_reply gw_run"
where
  "handleCatalogServerNetHTTP C H g serverID rh rb =
     (case map_of (gc_CatalogServers (gw_config g)) serverID of
        None \<Rightarrow> ([], [], gw_writeJSON C [] 404 (errorResponse None (- 32004) (''unknown catalog server: '' @ serverID)))
      | Some server \<Rightarrow>
          (let failed = gw_writeJSON C [] 502 (errorResponse None (- 32003) (''catalog gateway failed: '' @ serverID))
           in case forwardCatalogNetHTTP (gw_url C) H rh rb serverID server of
                (sent, Inl e) \<Rightarrow> ([(serverID, server, ''error: '' @ e)], sent, failed)
              | (sent, Inr resp) \<Rightarrow>
                  (case gr_Body resp of
                     Inl e \<Rightarrow> ([(serverID, server, ''error: '' @ e)], sent, failed)
                   | Inr b \<Rightarrow> ([(serverID, server, ''ok'')], sent,
                       \<lparr>gy_Status = gr_StatusCode resp, gy_Header = copyNetHTTPResponseHeaders [] (gr_Header resp), gy_Body = RawBody b\<rparr>))))"

text \<open>\<open>record\<close>, for a server of the catalog only.\<close>

definition record_if :: "Gateway \<Rightarrow> string \<Rightarrow> string \<Rightarrow> gw_rec list" where
  "record_if g serverID st =
     (case map_of (gc_CatalogServers (gw_config g)) serverID of Some catalog \<Rightarrow> [(serverID, catalog, st)] | None \<Rightarrow> [])"

fun initialize_net :: "gw_codec \<Rightarrow> gw_client \<Rightarrow> Gateway \<Rightarrow> header list \<Rightarrow> bytes \<Rightarrow> GatewayProfile \<Rightarrow> string list \<Rightarrow> (string \<times> string) list gw_run"
where
  "initialize_net C H g rh b profile [] = ([], [], [])"
| "initialize_net C H g rh b profile (serverID # ids) =
     (case forwardProfileServerNetHTTP (gw_url C) H rh b serverID (member_at profile serverID) [] False of (sent, r) \<Rightarrow>
      case initialize_net C H g rh b profile ids of (recs', sent', backends) \<Rightarrow>
      case r of
        Inl e \<Rightarrow> (record_if g serverID (''error: '' @ e) @ recs', sent @ sent', backends)
      | Inr resp \<Rightarrow>
          (case gr_Body resp of
             Inl _ \<Rightarrow> (record_if g serverID ''error: initialize'' @ recs', sent @ sent', backends)
           | Inr respBody \<Rightarrow>
               if gr_StatusCode resp \<noteq> 200 then (record_if g serverID ''error: initialize'' @ recs', sent @ sent', backends)
               else case decodeInitializeResult C respBody of
                      Some e \<Rightarrow> (record_if g serverID (''error: '' @ e) @ recs', sent @ sent', backends)
                    | None \<Rightarrow> (record_if g serverID ''initialized'' @ recs', sent @ sent',
                               (serverID, Header_Get (gr_Header resp) SessionIDHeader) # backends)))"

definition initialize_net_reply :: "gw_codec \<Rightarrow> json option \<Rightarrow> string \<Rightarrow> (string \<times> string) list \<Rightarrow> gw_reply" where
  "initialize_net_reply C i profileID backends =
     (if backends = [] then gw_writeJSON C [] 502 (errorResponse i (- 32002) ''initialize failed'')
      else case encodeProfileSession C profileID backends of
             None \<Rightarrow> gw_writeJSON C [] 500 (errorResponse i (- 32603) ''profile gateway failed'')
           | Some sessionID \<Rightarrow>
               gw_writeJSON C (Header_Set ProtocolVersionHeader ProtocolVersion (Header_Set SessionIDHeader sessionID [])) 200
                 (rpc_response i (InitializeOut syntheticInitializeResult)))"

definition initializeProfileNetHTTP ::
  "gw_codec \<Rightarrow> gw_client \<Rightarrow> Gateway \<Rightarrow> header list \<Rightarrow> json option \<Rightarrow> bytes \<Rightarrow> string \<Rightarrow> GatewayProfile \<Rightarrow> gw_reply gw_run"
where
  "initializeProfileNetHTTP C H g rh i b profileID profile =
     (case initialize_net C H g rh b profile (sortedProfileServerIDs (gp_Servers profile)) of
        (recs, sent, backends) \<Rightarrow> (recs, sent, initialize_net_reply C i profileID backends))"

fun list_net ::
  "gw_codec \<Rightarrow> gw_client \<Rightarrow> Gateway \<Rightarrow> header list \<Rightarrow> bytes \<Rightarrow> GatewayProfile \<Rightarrow> (string \<times> string) list \<Rightarrow> string list \<Rightarrow> Tool list gw_run"
where
  "list_net C H g rh b profile backends [] = ([], [], [])"
| "list_net C H g rh b profile backends (serverID # ids) =
     (case map_of (gp_Servers profile) serverID of
        None \<Rightarrow> list_net C H g rh b profile backends ids
      | Some server \<Rightarrow>
          (case forwardProfileServerNetHTTP (gw_url C) H rh b serverID server
                  (case map_of backends serverID of Some v \<Rightarrow> v | None \<Rightarrow> []) (backends \<noteq> []) of (sent, r) \<Rightarrow>
           case list_net C H g rh b profile backends ids of (recs', sent', merged) \<Rightarrow>
           case r of
             Inl e \<Rightarrow> (record_if g serverID (''error: '' @ e) @ recs', sent @ sent', merged)
           | Inr resp \<Rightarrow>
               (case gr_Body resp of
                  Inl _ \<Rightarrow> (record_if g serverID ''error: tools/list'' @ recs', sent @ sent', merged)
                | Inr respBody \<Rightarrow>
                    if gr_StatusCode resp \<noteq> 200 then (record_if g serverID ''error: tools/list'' @ recs', sent @ sent', merged)
                    else case mergeToolsResult C serverID server respBody of
                           Inl e \<Rightarrow> (record_if g serverID (''error: '' @ e) @ recs', sent @ sent', merged)
                         | Inr tools \<Rightarrow> (record_if g serverID ''ok'' @ recs', sent @ sent', tools @ merged))))"

definition listProfileToolsNetHTTP ::
  "gw_codec \<Rightarrow> gw_client \<Rightarrow> Gateway \<Rightarrow> header list \<Rightarrow> json option \<Rightarrow> GatewayProfile \<Rightarrow> (string \<times> string) list \<Rightarrow> Tool list gw_run"
where
  "listProfileToolsNetHTTP C H g rh i profile backends =
     (case toolsListRequestBody C i of
        None \<Rightarrow> ([], [], [])
      | Some b \<Rightarrow>
          (case list_net C H g rh b profile backends
                  (if backends \<noteq> [] then gw_sortedStringKeys backends else sortedProfileServerIDs (gp_Servers profile)) of
             (recs, sent, merged) \<Rightarrow> (recs, sent, sortTools merged)))"

definition callProfileToolNetHTTP ::
  "gw_codec \<Rightarrow> gw_client \<Rightarrow> Gateway \<Rightarrow> header list \<Rightarrow> json option \<Rightarrow> json option \<Rightarrow> GatewayProfile \<Rightarrow> profileSession \<Rightarrow> gw_reply gw_run"
where
  "callProfileToolNetHTTP C H g rh i params profile session =
     (case resolveProfileTool C params profile of
        Inl errMsg \<Rightarrow> ([], [], gw_writeJSON C [] 200 (errorResponse i (- 32602) errMsg))
      | Inr (serverID, backendTool, callParams) \<Rightarrow>
          (case map_of (se_Backends session) serverID of
             None \<Rightarrow> ([], [], gw_writeJSON C [] 200 (errorResponse i (- 32602) (''tool server not in session: '' @ serverID)))
           | Some backendSession \<Rightarrow>
               (case toolCallForwardBody C i backendTool callParams of
                  None \<Rightarrow> ([], [], gw_writeJSON C [] 500 (errorResponse i (- 32603) ''profile gateway failed''))
                | Some b \<Rightarrow>
                    (let failed = gw_writeJSON C [] 502 (errorResponse i (- 32003) (''tool backend failed: '' @ serverID))
                     in case forwardProfileServerNetHTTP (gw_url C) H rh b serverID (member_at profile serverID) backendSession True of
                          (sent, Inl e) \<Rightarrow> (record_if g serverID (''error: '' @ e), sent, failed)
                        | (sent, Inr resp) \<Rightarrow>
                            (case gr_Body resp of
                               Inl e \<Rightarrow> (record_if g serverID ''error: tools/call'', sent, failed)
                             | Inr respBody \<Rightarrow> (record_if g serverID ''ok'', sent,
                                 \<lparr>gy_Status = gr_StatusCode resp, gy_Header = copyNetHTTPResponseHeaders [] (gr_Header resp),
                                  gy_Body = RawBody respBody\<rparr>))))))"

definition handleProfileNetHTTP ::
  "gw_codec \<Rightarrow> gw_client \<Rightarrow> Gateway \<Rightarrow> string \<Rightarrow> header list \<Rightarrow> string + bytes \<Rightarrow> gw_reply gw_run"
where
  "handleProfileNetHTTP C H g profileID rh rb =
     (case map_of (gc_Profiles (gw_config g)) profileID of
        None \<Rightarrow> ([], [], gw_writeJSON C [] 404 (errorResponse None (- 32004) (''unknown profile: '' @ profileID)))
      | Some profile \<Rightarrow>
          if \<not> profileAuthorized (gp_APIKey profile) (Header_Get rh)
          then ([], [], gw_writeJSON C [] 401 (errorResponse None (- 32001) (''unauthorized profile: '' @ profileID)))
          else case rb of
                 Inl _ \<Rightarrow> ([], [], gw_writeJSON C [] 400 (errorResponse None (- 32700) ''invalid request body''))
               | Inr b \<Rightarrow>
                   (case request_json C b of
                      None \<Rightarrow> ([], [], gw_writeJSON C [] 400 (errorResponse None (- 32700) ''invalid JSON-RPC request''))
                    | Some (i, meth, params) \<Rightarrow>
                        (let sessionID = Header_Get rh SessionIDHeader;
                             invalid = gw_writeJSON C [] 400 (errorResponse i (- 32010) ''invalid MCP session ID'')
                         in if meth = MethodInitialize then initializeProfileNetHTTP C H g rh i b profileID profile
                            else if meth = MethodToolsList
                            then (let listed = (\<lambda>backends. case listProfileToolsNetHTTP C H g rh i profile backends of
                                        (recs, sent, tools) \<Rightarrow> (recs, sent, gw_writeJSON C [] 200 (rpc_response i (ListToolsOut tools))))
                                  in if sessionID = [] then listed []
                                     else case decodeProfileSession C profileID sessionID of
                                            None \<Rightarrow> ([], [], invalid)
                                          | Some session \<Rightarrow> listed (se_Backends session))
                            else if meth = MethodToolsCall
                            then (if sessionID = [] then ([], [], gw_writeJSON C [] 400 (errorResponse i (- 32010) ''missing MCP session ID''))
                                  else case decodeProfileSession C profileID sessionID of
                                         None \<Rightarrow> ([], [], invalid)
                                       | Some session \<Rightarrow> callProfileToolNetHTTP C H g rh i params profile session)
                            else ([], [], gw_writeJSON C [] 400 (errorResponse i (- 32601) (''unsupported profile method: '' @ meth))))))"

section \<open>Both gateways behave alike\<close>

text \<open>
  What goes over the wire in a request to a member of a profile: its target, the values of the headers that are set,
  and its body. The filter sends it as a callout, the HTTP handlers as a request of Go's client.
\<close>

type_synonym wire = "(string \<times> string \<times> string) \<times> string list \<times> bytes"

definition wire_names :: "string list" where
  "wire_names = [''content-type'', ''accept'', SessionIDHeader, ProtocolVersionHeader, ''x-mcp-credential-ref'', ''x-mcp-credential-envelope'']"

definition wire_of_callout :: "callout_request \<Rightarrow> wire" where
  "wire_of_callout q = ((headerValue (Headers q) '':scheme'', headerValue (Headers q) ''host'', headerValue (Headers q) '':path''),
     map (headerValue (Headers q)) wire_names, Body q)"

definition wire_of_http :: "url_lib \<Rightarrow> gw_http_request \<Rightarrow> wire" where
  "wire_of_http L n = ((case url_Parse L (gh_URL n) of Inl _ \<Rightarrow> ([], [], []) | Inr u \<Rightarrow> (u_Scheme u, u_Host u, RequestURI L u)),
     map (Header_Get (gh_Header n)) wire_names, gh_Body n)"

text \<open>What becomes of a request: Envoy refuses to start the callout, or the callout is done. Go's client and the callout
  see the same: a request that is not sent and one without a response are errors, and the pseudo headers of a
  response are its status.\<close>

type_synonym gw_answer = "HTTPCalloutInitResult + callout_done"

definition settled_answer :: "gw_answer \<Rightarrow> settled_response" where
  "settled_answer a = (case a of Inl init \<Rightarrow> settled_of_init init | Inr d \<Rightarrow> settled_of_done d)"

definition client_view :: "gw_answer \<Rightarrow> string + gw_http_response" where
  "client_view a =
     (case a of
        Inl init \<Rightarrow> Inl ''not sent''
      | Inr (result, hs, bs) \<Rightarrow>
          if result \<noteq> HTTPCalloutSuccess then Inl ''no response''
          else Inr \<lparr>gr_StatusCode = fst (responseFromCalloutHeaders hs), gr_Header = filter (\<lambda>h. \<not> HasPrefix (fst h) '':'') hs,
                    gr_Body = Inr (concat bs)\<rparr>)"

text \<open>The Writer calls of a plan. \<open>HTTPCallout\<close> returns the error of a callout that is not started and does not run the
  callback; \<open>HTTPCalloutAllSettled\<close> passes such a request to the callback as a failed one.\<close>

definition run_plan :: "(wire \<Rightarrow> gw_answer) \<Rightarrow> gw_plan \<Rightarrow> wop list" where
  "run_plan backend p =
     (case p of
        Reply recs ops \<Rightarrow> ops
      | CallOne q cb failed \<Rightarrow>
          (case backend (wire_of_callout q) of
             Inl init \<Rightarrow> snd (failed (case errCalloutInitResult init of Some e \<Rightarrow> e | None \<Rightarrow> []))
           | Inr d \<Rightarrow> snd (cb d))
      | CallAll qs cb failed \<Rightarrow> snd (cb (map (\<lambda>q. settled_answer (backend (wire_of_callout q))) qs))
      | _ \<Rightarrow> [])"

text \<open>The reply of an HTTP handler and what the filter sends: one local response with the same status, the same header
  lines in any order and the same body, to which the encoder of the HTTP handler has added a newline if it is JSON
  of the gateway's own.\<close>

definition renders :: "gw_reply \<Rightarrow> wop list \<Rightarrow> bool" where
  "renders rep ops \<longleftrightarrow> (\<exists>b hs. ops = [OpSendLocalResponse (gy_Status rep) b hs] \<and> mset (gy_Header rep) = mset hs \<and>
     gy_Body rep \<in> {JSONBody (b @ [CHR 0x0A]), RawBody b})"

lemma headerValue_eq: "headerValue hs nm = Header_Get hs nm"
  by (induction hs) (auto simp: Header_Get_def)

lemma Header_Get_append: "Header_Get (xs @ ys) nm = (if list_ex (\<lambda>h. EqualFold (fst h) nm) xs then Header_Get xs nm else Header_Get ys nm)"
  by (induction xs) (auto simp: Header_Get_def)

lemma Header_Get_present [simp]: "Header_Get (present nm v) nm' = (if EqualFold nm nm' then v else [])"
  by (simp add: present_def Header_Get_def)

lemma list_ex_present [simp]: "list_ex (\<lambda>h. EqualFold (fst h) nm') (present nm v) \<longleftrightarrow> v \<noteq> [] \<and> EqualFold nm nm'"
  by (simp add: present_def)

lemma Header_Get_set_present:
  "Header_Get (set_present nm v hs) nm' = (if v \<noteq> [] \<and> EqualFold nm nm' then v else Header_Get hs nm')"
  by (simp add: set_present_def Header_Get_Set)

lemma Header_Get_Nil [simp]: "Header_Get [] nm = []"
  by (simp add: Header_Get_def)

lemma Header_Get_Cons [simp]: "Header_Get (h # hs) nm = (if EqualFold (fst h) nm then snd h else Header_Get hs nm)"
  by (simp add: Header_Get_def)

text \<open>The request the HTTP gateway makes for a member, and the callout for the same member.\<close>

definition member_http :: "url_lib \<Rightarrow> header list \<Rightarrow> bytes \<Rightarrow> string \<Rightarrow> ProfileServer \<Rightarrow> string \<Rightarrow> gw_http_request" where
  "member_http L rh b i server session =
     \<lparr>gh_URL = catalogURL L (ps_URL server) i,
      gh_Header = set_present ''x-mcp-credential-envelope'' (ps_CredentialEnvelope server)
        (set_present ''x-mcp-credential-ref'' (ps_CredentialRef server)
          (set_present ProtocolVersionHeader (Header_Get rh ProtocolVersionHeader)
            (set_present SessionIDHeader session (Header_Set ''accept'' ''application/json'' (Header_Set ''content-type'' ''application/json'' []))))),
      gh_Body = b\<rparr>"

lemma forward_member:
  "forwardProfileServerNetHTTP L H rh b i server session use = send H (member_http L rh b i server (if use then session else []))"
  by (simp add: forwardProfileServerNetHTTP_def member_http_def Let_def set_present_def)

lemma member_wire:
  assumes "Headers q = member_headers L u session (headerValue rh ProtocolVersionHeader) server" "Body q = b"
    "url_Parse L (catalogURL L (ps_URL server) i) = Inr u"
  shows "wire_of_callout q = wire_of_http L (member_http L rh b i server session)"
  using assms
  by (simp add: wire_of_callout_def wire_of_http_def member_http_def member_headers_def headerValue_eq wire_names_def
      Header_Get_append Header_Get_set_present Header_Get_Set EqualFold_names mcp_names)

lemma session_not_pseudo: "EqualFold nm SessionIDHeader \<Longrightarrow> \<not> HasPrefix nm '':''"
proof
  assume "EqualFold nm SessionIDHeader" "HasPrefix nm '':''"
  then obtain r where "nm = CHR '':'' # r" by (cases nm) (auto simp: HasPrefix_def)
  moreover have "lower_char CHR '':'' = CHR '':''" "Writer_Ops.ToLower SessionIDHeader = SessionIDHeader"
    using header_names_lower by (simp_all add: lower_char_def list_all_iff)
  ultimately show False using \<open>EqualFold nm SessionIDHeader\<close>
    by (simp add: EqualFold_def Writer_Ops.ToLower_def) (simp add: mcp_names)
qed

lemma session_of_view: "Header_Get (filter (\<lambda>h. \<not> HasPrefix (fst h) '':'') hs) SessionIDHeader = Header_Get hs SessionIDHeader"
  unfolding Header_Get_def by (subst find_filter_not) (auto dest: session_not_pseudo)

lemma response_loop_headers:
  "snd (response_loop hs (st, out)) = out @ filter (\<lambda>h. \<not> HasPrefix (fst h) '':'' \<and> \<not> EqualFold (fst h) ''content-length'') hs"
proof (induction hs arbitrary: st out)
  case (Cons h hs)
  obtain nm v where h: "h = (nm, v)" by fastforce
  have "HasPrefix '':status'' '':''" by (simp add: HasPrefix_def)
  then show ?case using Cons.IH by (auto simp: h)
qed simp

lemma reply_headers: "copyNetHTTPResponseHeaders [] (filter (\<lambda>h. \<not> HasPrefix (fst h) '':'') hs) = snd (responseFromCalloutHeaders hs)"
  by (simp add: copyNetHTTPResponseHeaders_def responseFromCalloutHeaders_def response_loop_headers conj_commute)

text \<open>The assumptions under which both are compared: every URL of the profile is accepted by both libraries, and the
  servers answer the two clients alike.\<close>

definition both_accept :: "url_lib \<Rightarrow> gw_client \<Rightarrow> GatewayProfile \<Rightarrow> bool" where
  "both_accept L H profile \<longleftrightarrow> list_all (\<lambda>(i, s). NewRequest_error H (catalogURL L (ps_URL s) i) = None \<and>
     (case url_Parse L (catalogURL L (ps_URL s) i) of Inl _ \<Rightarrow> False | Inr _ \<Rightarrow> True)) (gp_Servers profile)"

lemma both_acceptD:
  assumes "both_accept L H profile" "map_of (gp_Servers profile) i = Some s"
  obtains u where "NewRequest_error H (catalogURL L (ps_URL s) i) = None" "url_Parse L (catalogURL L (ps_URL s) i) = Inr u"
proof -
  have "(i, s) \<in> set (gp_Servers profile)" using assms(2) by (rule map_of_SomeD)
  then have "NewRequest_error H (catalogURL L (ps_URL s) i) = None \<and> (case url_Parse L (catalogURL L (ps_URL s) i) of Inl _ \<Rightarrow> False | Inr _ \<Rightarrow> True)"
    using assms(1) by (auto simp: both_accept_def list_all_iff)
  then show ?thesis using that by (cases "url_Parse L (catalogURL L (ps_URL s) i)") auto
qed

definition known :: "GatewayProfile \<Rightarrow> string list \<Rightarrow> string list" where
  "known profile ids = filter (\<lambda>i. map_of (gp_Servers profile) i \<noteq> None) ids"

definition backend_of :: "(string \<times> string) list \<Rightarrow> string \<Rightarrow> string" where
  "backend_of backends i = (case map_of backends i of Some v \<Rightarrow> v | None \<Rightarrow> [])"

definition member_callout :: "url_lib \<Rightarrow> Gateway \<Rightarrow> transitRequest \<Rightarrow> bytes \<Rightarrow> string \<Rightarrow> ProfileServer \<Rightarrow> string \<Rightarrow> callout_request" where
  "member_callout L g r b i server session =
     \<lparr>Cluster = catalogCluster (catalog_at g i),
      Headers = member_headers L (projr (url_Parse L (catalogURL L (ps_URL server) i))) session (headerValue (tr_headers r) ProtocolVersionHeader) server,
      Body = b, TimeoutMillis = timeoutMillis (gc_TimeoutMillis (gw_config g))\<rparr>"

lemma member_callout_wire:
  assumes "both_accept L H profile" "map_of (gp_Servers profile) i = Some s"
  shows "wire_of_callout (member_callout L g r b i s session) = wire_of_http L (member_http L (tr_headers r) b i s session)"
  by (rule both_acceptD [OF assms]) (rule member_wire, simp_all add: member_callout_def)

lemma callout_loop_known:
  assumes "both_accept L H profile"
  shows "callout_loop L g r b profile backends ids =
    Inr (map (\<lambda>i. member_callout L g r b i (member_at profile i) (backend_of backends i)) (known profile ids), known profile ids)"
proof (induction ids)
  case (Cons i ids)
  show ?case
  proof (cases "map_of (gp_Servers profile) i")
    case (Some s)
    obtain u where "url_Parse L (catalogURL L (ps_URL s) i) = Inr u" by (rule both_acceptD [OF assms Some])
    then show ?thesis
      using Cons.IH Some by (simp add: known_def member_at_def member_callout_def member_headers_def Let_def backend_of_def present_def)
  qed (use Cons.IH in \<open>simp add: known_def\<close>)
qed (simp add: known_def)

text \<open>What a server answers to the request of either gateway.\<close>

definition answer_of :: "url_lib \<Rightarrow> (wire \<Rightarrow> gw_answer) \<Rightarrow> header list \<Rightarrow> bytes \<Rightarrow> GatewayProfile \<Rightarrow> (string \<times> string) list \<Rightarrow> string \<Rightarrow> settled_response" where
  "answer_of L backend rh b profile backends i =
     settled_answer (backend (wire_of_http L (member_http L rh b i (member_at profile i) (backend_of backends i))))"

lemma client_view_settled:
  assumes "a \<noteq> Inl HTTPCalloutInitSuccess"
  shows "(case client_view a of Inl _ \<Rightarrow> settled_Failed (settled_answer a)
    | Inr p \<Rightarrow> \<not> settled_Failed (settled_answer a) \<and> gr_StatusCode p = fst (responseFromCalloutHeaders (RHeaders (settled_answer a))) \<and>
        gr_Body p = Inr (calloutBodyBytes (RBody (settled_answer a))) \<and>
        Header_Get (gr_Header p) SessionIDHeader = calloutHeaderValue (RHeaders (settled_answer a)) SessionIDHeader)"
proof (cases a)
  case (Inl init)
  then show ?thesis using assms
    by (cases init) (simp_all add: client_view_def settled_answer_def settled_of_init_def settled_Failed_def settled_OK_def)
next
  case (Inr d)
  obtain result hs bs where d: "d = (result, hs, bs)" by (cases d)
  then show ?thesis
    by (cases result) (simp_all add: Inr settled_answer_def client_view_def settled_of_done_def settled_Failed_def settled_OK_def calloutBodyBytes_def
        calloutHeaderValue_def headerValue_eq session_of_view)
qed

lemma list_net_collects:
  assumes ok: "both_accept (gw_url C) H profile" and client: "\<And>n. client_Do H n = client_view (backend (wire_of_http (gw_url C) n))"
    and ne: "\<And>w. backend w \<noteq> Inl HTTPCalloutInitSuccess"
  shows "snd (list_net C H g rh b profile backends ids) =
    (map (\<lambda>i. member_http (gw_url C) rh b i (member_at profile i) (backend_of backends i)) (known profile ids),
     snd (collect_tools C g profile (map (\<lambda>i. (i, answer_of (gw_url C) backend rh b profile backends i)) (known profile ids))))"
proof (induction ids)
  case (Cons i ids)
  let ?L = "gw_url C"
  show ?case
  proof (cases "map_of (gp_Servers profile) i")
    case None
    then show ?thesis using Cons.IH by (simp add: known_def)
  next
    case (Some s)
    let ?n = "member_http ?L rh b i s (backend_of backends i)"
    have none: "NewRequest_error H (catalogURL ?L (ps_URL s) i) = None" by (rule both_acceptD [OF ok Some])
    have use: "(if backends \<noteq> [] then backend_of backends i else []) = backend_of backends i" by (simp add: backend_of_def)
    have fwd: "forwardProfileServerNetHTTP ?L H rh b i s (backend_of backends i) (backends \<noteq> []) =
        ([?n], client_view (backend (wire_of_http ?L ?n)))"
      unfolding forward_member use by (simp add: send_def client none member_http_def)
    obtain recs' sent' merged' where rest: "list_net C H g rh b profile backends ids = (recs', sent', merged')" by (rule prod_cases3)
    obtain recs2 merged2 where col: "collect_tools C g profile (map (\<lambda>i. (i, answer_of ?L backend rh b profile backends i)) (known profile ids)) = (recs2, merged2)"
      by fastforce
    have ih: "sent' = map (\<lambda>i. member_http ?L rh b i (member_at profile i) (backend_of backends i)) (known profile ids)" "merged' = merged2"
      using Cons.IH by (simp_all add: rest col)
    have kn: "known profile (i # ids) = i # known profile ids" and at: "member_at profile i = s" using Some by (simp_all add: known_def member_at_def)
    have net: "list_net C H g rh b profile backends (i # ids) =
       (case client_view (backend (wire_of_http ?L ?n)) of
             Inl e \<Rightarrow> (record_if g i (''error: '' @ e) @ recs', [?n] @ sent', merged')
           | Inr resp \<Rightarrow>
               (case gr_Body resp of
                  Inl _ \<Rightarrow> (record_if g i ''error: tools/list'' @ recs', [?n] @ sent', merged')
                | Inr respBody \<Rightarrow>
                    if gr_StatusCode resp \<noteq> 200 then (record_if g i ''error: tools/list'' @ recs', [?n] @ sent', merged')
                    else case mergeToolsResult C i s respBody of
                           Inl e \<Rightarrow> (record_if g i (''error: '' @ e) @ recs', [?n] @ sent', merged')
                         | Inr tools \<Rightarrow> (record_if g i ''ok'' @ recs', [?n] @ sent', tools @ merged')))"
      unfolding list_net.simps Some option.case rest backend_of_def [symmetric] fwd prod.case ..
    show ?thesis
      unfolding net kn list.map collect_tools.simps col Let_def prod.case at answer_of_def [of ?L backend rh b profile backends i]
      using client_view_settled [OF ne [of "wire_of_http ?L ?n"]] ih
      by (auto split: sum.splits)
  qed
qed (simp add: known_def)

lemma initialize_net_collects:
  assumes ok: "both_accept (gw_url C) H profile" and client: "\<And>n. client_Do H n = client_view (backend (wire_of_http (gw_url C) n))"
    and ne: "\<And>w. backend w \<noteq> Inl HTTPCalloutInitSuccess"
  shows "known profile ids = ids \<Longrightarrow> snd (initialize_net C H g rh b profile ids) =
    (map (\<lambda>i. member_http (gw_url C) rh b i (member_at profile i) (backend_of [] i)) ids,
     snd (collect_sessions C g (map (\<lambda>i. (i, answer_of (gw_url C) backend rh b profile [] i)) ids)))"
proof (induction ids)
  case (Cons i ids)
  let ?L = "gw_url C" and ?n = "member_http (gw_url C) rh b i (member_at profile i) []"
  have kn: "known profile ids = ids" and "map_of (gp_Servers profile) i \<noteq> None"
    using Cons.prems unfolding known_def filter_id_conv by simp_all
  then have "map_of (gp_Servers profile) i = Some (member_at profile i)" by (auto simp: member_at_def)
  then have none: "NewRequest_error H (catalogURL ?L (ps_URL (member_at profile i)) i) = None" by (rule both_acceptD [OF ok])
  have fwd: "forwardProfileServerNetHTTP ?L H rh b i (member_at profile i) [] False = ([?n], client_view (backend (wire_of_http ?L ?n)))"
    unfolding forward_member by (simp add: send_def client none member_http_def)
  obtain recs' sent' bs' where rest: "initialize_net C H g rh b profile ids = (recs', sent', bs')" by (rule prod_cases3)
  obtain recs2 bs2 where col: "collect_sessions C g (map (\<lambda>i. (i, answer_of ?L backend rh b profile [] i)) ids) = (recs2, bs2)" by fastforce
  have ih: "sent' = map (\<lambda>i. member_http ?L rh b i (member_at profile i) (backend_of [] i)) ids" "bs' = bs2"
    using Cons.IH [OF kn] by (simp_all add: rest col)
  have empty: "backend_of [] i = []" by (simp add: backend_of_def)
  show ?case
    unfolding initialize_net.simps fwd rest prod.case list.map collect_sessions.simps col Let_def empty
      answer_of_def [of ?L backend rh b profile "[]" i]
    using client_view_settled [OF ne [of "wire_of_http ?L ?n"]] ih
    by (auto split: sum.splits option.splits)
qed simp

lemma known_members: "known profile (sortedProfileServerIDs (gp_Servers profile)) = sortedProfileServerIDs (gp_Servers profile)"
  by (auto simp: known_def sortedProfileServerIDs_def filter_id_conv map_of_eq_None_iff)

lemma renders_headers:
  assumes "json_response C v \<noteq> None" "mset (Header_Set ''content-type'' ''application/json'' hs') = mset ((''content-type'', ''application/json'') # hs)"
  shows "renders (gw_writeJSON C hs' st v) (writeTransitJSON C st v hs)"
  using assms by (auto simp: renders_def gw_writeJSON_def writeTransitJSON_def)

lemma renders_JSON: "json_response C v \<noteq> None \<Longrightarrow> renders (gw_writeJSON C [] st v) (writeTransitJSON C st v [])"
  by (rule renders_headers) (simp_all add: Header_Set_def)

lemma renders_initialize:
  assumes "\<And>v. json_response C v \<noteq> None"
  shows "renders (initialize_net_reply C i profileID backends) (initialize_reply C i profileID backends)"
proof -
  have names: "EqualFold SessionIDHeader ''content-type'' = False" "EqualFold ProtocolVersionHeader ''content-type'' = False"
      "EqualFold SessionIDHeader ProtocolVersionHeader = False"
    by (simp_all add: EqualFold_names) (simp_all add: mcp_names)
  have "renders (gw_writeJSON C (Header_Set ProtocolVersionHeader ProtocolVersion (Header_Set SessionIDHeader s [])) st v)
      (writeTransitJSON C st v [(SessionIDHeader, s), (ProtocolVersionHeader, ProtocolVersion)])" for s st v
    by (rule renders_headers [OF assms]) (auto simp: Header_Set_def names)
  then show ?thesis
    by (auto simp: initialize_net_reply_def initialize_reply_def gateway_failed_def renders_JSON assms split: option.splits)
qed

lemma zip_map_self: "zip xs (map f xs) = map (\<lambda>x. (x, f x)) xs"
  by (induction xs) auto

text \<open>A plan of the filter and a run of the HTTP gateway agree if they send the same and answer the same.\<close>

definition agrees :: "gw_codec \<Rightarrow> (wire \<Rightarrow> gw_answer) \<Rightarrow> gw_plan \<Rightarrow> gw_reply gw_run \<Rightarrow> bool" where
  "agrees C backend p run \<longleftrightarrow>
     map wire_of_callout (plan_requests p) = map (wire_of_http (gw_url C)) (fst (snd run)) \<and> renders (snd (snd run)) (run_plan backend p)"

lemma agrees_Reply: "renders rep ops \<Longrightarrow> agrees C backend (Reply recs ops) (recs', [], rep)"
  by (simp add: agrees_def run_plan_def)

lemma known_wires:
  assumes "both_accept L H profile"
  shows "map wire_of_callout (map (\<lambda>i. member_callout L g r b i (member_at profile i) (backend_of backends i)) (known profile ids)) =
    map (wire_of_http L) (map (\<lambda>i. member_http L (tr_headers r) b i (member_at profile i) (backend_of backends i)) (known profile ids))"
  unfolding map_map o_def
  by (rule map_cong [OF refl]) (auto simp: known_def member_at_def intro!: member_callout_wire [OF assms])

lemma known_answers:
  assumes "both_accept L H profile"
  shows "zip (known profile ids) (map (\<lambda>q. settled_answer (backend (wire_of_callout q)))
      (map (\<lambda>i. member_callout L g r b i (member_at profile i) (backend_of backends i)) (known profile ids))) =
    map (\<lambda>i. (i, answer_of L backend (tr_headers r) b profile backends i)) (known profile ids)"
  unfolding map_map o_def zip_map_self
  by (rule map_cong [OF refl])
    (auto simp: known_def member_at_def answer_of_def intro!: arg_cong [where f = "\<lambda>w. settled_answer (backend w)"] member_callout_wire [OF assms])

lemma initialize_agrees:
  assumes ok: "both_accept (gw_url C) H profile" and client: "\<And>n. client_Do H n = client_view (backend (wire_of_http (gw_url C) n))"
    and ne: "\<And>w. backend w \<noteq> Inl HTTPCalloutInitSuccess" and enc: "\<And>v. json_response C v \<noteq> None"
  shows "agrees C backend (initializeProfileTransit C g r i b profileID profile) (initializeProfileNetHTTP C H g (tr_headers r) i b profileID profile)"
proof -
  let ?ids = "sortedProfileServerIDs (gp_Servers profile)"
  note net = initialize_net_collects [OF ok client ne known_members, of g "tr_headers r" b]
  obtain recs sent bs where run: "initialize_net C H g (tr_headers r) b profile ?ids = (recs, sent, bs)" by (rule prod_cases3)
  obtain recs' bs' where col: "collect_sessions C g (map (\<lambda>i. (i, answer_of (gw_url C) backend (tr_headers r) b profile [] i)) ?ids) = (recs', bs')" by fastforce
  have "initializeProfileTransit C g r i b profileID profile =
     CallAll (map (\<lambda>i. member_callout (gw_url C) g r b i (member_at profile i) (backend_of [] i)) ?ids)
       (\<lambda>responses. case collect_sessions C g (zip ?ids responses) of (recs, backends) \<Rightarrow> (recs, initialize_reply C i profileID backends))
       (writeTransitJSON C 502 (errorResponse i (- 32002) ''initialize failed'') [])"
    using callout_loop_known [OF ok, of g r b "[]" ?ids]
    by (simp add: initializeProfileTransit_def profileInitializeCalloutRequests_def profileCalloutRequests_def known_members)
  then show ?thesis
    using known_wires [OF ok, of g r b "[]" ?ids] known_answers [OF ok, of ?ids backend g r b "[]"] net renders_initialize [OF enc]
    by (simp add: agrees_def run_plan_def initializeProfileNetHTTP_def run known_members col)
qed

lemma list_agrees:
  assumes ok: "both_accept (gw_url C) H profile" and client: "\<And>n. client_Do H n = client_view (backend (wire_of_http (gw_url C) n))"
    and ne: "\<And>w. backend w \<noteq> Inl HTTPCalloutInitSuccess"
    and enc: "\<And>v. json_response C v \<noteq> None" and b: "toolsListRequestBody C i = Some b"
  shows "agrees C backend (list_requests C g r i profile backends)
    (case listProfileToolsNetHTTP C H g (tr_headers r) i profile backends of
       (recs, sent, tools) \<Rightarrow> (recs, sent, gw_writeJSON C [] 200 (rpc_response i (ListToolsOut tools))))"
proof -
  let ?ids = "if backends \<noteq> [] then gw_sortedStringKeys backends else sortedProfileServerIDs (gp_Servers profile)"
  note net = list_net_collects [OF ok client ne, of g "tr_headers r" b backends ?ids]
  obtain recs sent ts where run: "list_net C H g (tr_headers r) b profile backends ?ids = (recs, sent, ts)" by (rule prod_cases3)
  obtain recs' ts' where col: "collect_tools C g profile (map (\<lambda>i. (i, answer_of (gw_url C) backend (tr_headers r) b profile backends i)) (known profile ?ids)) = (recs', ts')"
    by fastforce
  have "list_requests C g r i profile backends =
     CallAll (map (\<lambda>i. member_callout (gw_url C) g r b i (member_at profile i) (backend_of backends i)) (known profile ?ids))
       (\<lambda>responses. case collect_tools C g profile (zip (known profile ?ids) responses) of
          (recs, merged) \<Rightarrow> (recs, writeTransitJSON C 200 (rpc_response i (ListToolsOut (sortTools merged))) []))
       (writeTransitJSON C 502 (errorResponse i (- 32002) ''tools/list failed'') [])"
    using callout_loop_known [OF ok, of g r b backends ?ids]
    by (simp only: list_requests_def profileToolsListCalloutRequests_def profileCalloutRequests_def b option.case sum.case prod.case)
  moreover have "listProfileToolsNetHTTP C H g (tr_headers r) i profile backends = (recs, sent, sortTools ts)"
    by (simp only: listProfileToolsNetHTTP_def b option.case run prod.case)
  moreover have "ts = ts'" "sent = map (\<lambda>i. member_http (gw_url C) (tr_headers r) b i (member_at profile i) (backend_of backends i)) (known profile ?ids)"
    using net by (simp_all only: run col snd_conv prod.inject)
  ultimately show ?thesis
    using known_wires [OF ok, of g r b backends ?ids] known_answers [OF ok, of ?ids backend g r b backends] col renders_JSON [OF enc]
    by (simp only: agrees_def run_plan_def gw_plan.case plan_requests.simps prod.case fst_conv snd_conv)
qed

lemma call_agrees:
  assumes ok: "both_accept (gw_url C) H profile" and client: "\<And>n. client_Do H n = client_view (backend (wire_of_http (gw_url C) n))"
    and enc: "\<And>v. json_response C v \<noteq> None"
  shows "agrees C backend (callProfileToolTransit C g r i params profile session) (callProfileToolNetHTTP C H g (tr_headers r) i params profile session)"
proof (cases "resolveProfileTool C params profile")
  case (Inl e)
  then show ?thesis by (simp add: callProfileToolTransit_def callProfileToolNetHTTP_def agrees_Reply renders_JSON enc)
next
  case (Inr x)
  obtain j tool ps where x: "x = (j, tool, ps)" by (rule prod_cases3)
  let ?L = "gw_url C" and ?s = "member_at profile j"
  have owner: "map_of (gp_Servers profile) j = Some ?s" using tool_owner Inr x by blast
  obtain u where u: "NewRequest_error H (catalogURL ?L (ps_URL ?s) j) = None" "url_Parse ?L (catalogURL ?L (ps_URL ?s) j) = Inr u"
    by (rule both_acceptD [OF ok owner])
  show ?thesis
  proof (cases "map_of (se_Backends session) j")
    case None
    then show ?thesis using Inr x by (simp add: callProfileToolTransit_def callProfileToolNetHTTP_def agrees_Reply renders_JSON enc)
  next
    case (Some v)
    show ?thesis
    proof (cases "toolCallForwardBody C i tool ps")
      case None
      then show ?thesis using Inr x Some
        by (simp add: callProfileToolTransit_def callProfileToolNetHTTP_def agrees_Reply renders_JSON enc gateway_failed_def)
    next
      case (Some b)
      let ?n = "member_http ?L (tr_headers r) b j ?s v"
      obtain q where q: "profileToolCallCalloutRequest ?L g r b j ?s (catalog_at g j) v = Inr q"
        using u by (simp add: profileToolCallCalloutRequest_def)
      have wire: "wire_of_callout q = wire_of_http ?L ?n"
        using toolcall_request [OF q] u(2) member_wire by auto
      have fwd: "forwardProfileServerNetHTTP ?L H (tr_headers r) b j ?s v True = ([?n], client_view (backend (wire_of_http ?L ?n)))"
        unfolding forward_member by (simp add: send_def client u(1) member_http_def)
      note plan = callProfileToolTransit_def callProfileToolNetHTTP_def Let_def q fwd agrees_def run_plan_def wire client_view_def
        renders_JSON enc tool_failed_def calloutBodyBytes_def
      show ?thesis
      proof (cases "backend (wire_of_http ?L ?n)")
        case (Inl init)
        then show ?thesis using \<open>map_of (se_Backends session) j = Some v\<close> Some \<open>resolveProfileTool C params profile = Inr x\<close> x by (simp add: plan)
      next
        case (Inr d)
        obtain result hs bs where d: "d = (result, hs, bs)" by (rule prod_cases3)
        show ?thesis
          using \<open>map_of (se_Backends session) j = Some v\<close> Some \<open>resolveProfileTool C params profile = Inr x\<close> x reply_headers [of hs]
          by (cases "responseFromCalloutHeaders hs") (simp add: plan Inr d, simp add: renders_def)
      qed
    qed
  qed
qed

text \<open>The filter does not look at the method of a request: what the handlers of the HTTP gateway serve for \<^verbatim>\<open>POST\<close> only, it
  does for every method, and sends as \<^verbatim>\<open>POST\<close>.\<close>

lemma filter_ignores_method:
  "calloutCatalogServerTransit C g (r\<lparr>tr_method := m\<rparr>) b = calloutCatalogServerTransit C g r b"
  "calloutProfileTransit C g (r\<lparr>tr_method := m\<rparr>) b = calloutProfileTransit C g r b"
proof -
  have t: "tr_headers (r\<lparr>tr_method := m\<rparr>) = tr_headers r" "tr_path (r\<lparr>tr_method := m\<rparr>) = tr_path r" by simp_all
  have loop: "callout_loop L g (r\<lparr>tr_method := m\<rparr>) b profile backends ids = callout_loop L g r b profile backends ids" for L b profile backends ids
    by (induction ids) (simp_all only: callout_loop.simps t)
  show "calloutCatalogServerTransit C g (r\<lparr>tr_method := m\<rparr>) b = calloutCatalogServerTransit C g r b"
    by (simp only: calloutCatalogServerTransit_def catalogCalloutRequest_def t)
  show "calloutProfileTransit C g (r\<lparr>tr_method := m\<rparr>) b = calloutProfileTransit C g r b"
    by (simp only: calloutProfileTransit_def initializeProfileTransit_def listProfileToolsTransit_def list_requests_def callProfileToolTransit_def
        profileInitializeCalloutRequests_def profileToolsListCalloutRequests_def profileCalloutRequests_def profileToolCallCalloutRequest_def loop t)
qed

section \<open>Property\<close>


definition demo_client :: gw_client where
  "demo_client = \<lparr>NewRequest_error = (\<lambda>_. None), client_Do = (\<lambda>n. client_view (Inr (HTTPCalloutSuccess, [('':status'', ''200'')], [''R''])))\<rparr>"


end
