(* ===== verification/MCP_Catalog.thy ===== *)
theory MCP_Catalog
  imports MCP_Gateway_Net
begin

text \<open>
  The MCP catalog router (\<^verbatim>\<open>src/examples/mcp-catalog-router/catalog.go\<close>), to which the gateway sends: it forwards the request for
  \<^verbatim>\<open>/mcp/s/{server}\<close> to the backend of that server, with the credential configured for it.
\<close>

record CatalogBackend =
  cb_URL :: string
  cb_Credential :: string

record CatalogConfig =
  cc_RouteHeader :: string
  cc_TimeoutMillis :: int
  cc_Servers :: "(string \<times> CatalogBackend) list"

record CatalogServerDump =
  sx_Target :: string
  sx_CredentialConfigured :: bool
  sx_LastRequest :: string

record CatalogRouter =
  cr_config :: CatalogConfig
  cr_timeout :: int
  cr_servers :: "string \<rightharpoonup> CatalogServerDump"

datatype catalog_error = NoServers | ServerIDRequired | ServerSlash string | DuplicateServer string | ServerURLRequired string | ServerURLNotAbsolute string

fun validate_backends :: "url_lib \<Rightarrow> string set \<Rightarrow> (string \<times> CatalogBackend) list \<Rightarrow> catalog_error option" where
  "validate_backends L seen [] = None"
| "validate_backends L seen ((i, server) # rest) =
     (if TrimSpace i = [] then Some ServerIDRequired
      else if CHR ''/'' \<in> set i then Some (ServerSlash i)
      else if i \<in> seen then Some (DuplicateServer i)
      else if TrimSpace (cb_URL server) = [] then Some (ServerURLRequired i)
      else case url_Parse L (cb_URL server) of
             Inl _ \<Rightarrow> Some (ServerURLNotAbsolute i)
           | Inr u \<Rightarrow> if u_Scheme u = [] \<or> u_Host u = [] then Some (ServerURLNotAbsolute i)
                      else validate_backends L (insert i seen) rest)"

definition catalog_ValidateConfig :: "url_lib \<Rightarrow> CatalogConfig \<Rightarrow> catalog_error option" where
  "catalog_ValidateConfig L c = (if cc_Servers c = [] then Some NoServers else validate_backends L {} (cc_Servers c))"

definition New_catalog :: "CatalogConfig \<Rightarrow> CatalogRouter" where
  "New_catalog c =
     (let timeout = int64 (cc_TimeoutMillis c * Millisecond)
      in \<lparr>cr_config = c, cr_timeout = (if timeout \<le> 0 then 800 * Millisecond else timeout), cr_servers = Map.empty\<rparr>)"

definition catalog_Dump :: "CatalogRouter \<Rightarrow> string \<rightharpoonup> CatalogServerDump" where
  "catalog_Dump c = cr_servers c"

definition catalog_routeHeader :: "CatalogRouter \<Rightarrow> string" where
  "catalog_routeHeader c = (if cc_RouteHeader (cr_config c) \<noteq> [] then cc_RouteHeader (cr_config c) else ''x-mcp-server'')"

definition catalog_record :: "string \<Rightarrow> CatalogBackend \<Rightarrow> string \<Rightarrow> CatalogRouter \<Rightarrow> CatalogRouter" where
  "catalog_record i server st c = c\<lparr>cr_servers := (cr_servers c)(i \<mapsto>
     \<lparr>sx_Target = cb_URL server, sx_CredentialConfigured = (cb_Credential server \<noteq> []), sx_LastRequest = st\<rparr>)\<rparr>"

definition catalog_request :: "CatalogRouter \<Rightarrow> header list \<Rightarrow> bytes \<Rightarrow> string \<Rightarrow> CatalogBackend \<Rightarrow> gw_http_request" where
  "catalog_request c rh b serverID server =
     (let h1 = set_default ''content-type'' (Header_Get rh ''content-type'') ''application/json'' [];
          h2 = set_default ''accept'' (Header_Get rh ''accept'') ''application/json'' h1;
          h3 = Header_Set (catalog_routeHeader c) serverID h2;
          h4 = set_present ''authorization'' (cb_Credential server) h3;
          h5 = set_present SessionIDHeader (Header_Get rh SessionIDHeader) h4
      in \<lparr>gh_URL = TrimRight_slash (cb_URL server) @ ''/mcp'',
          gh_Header = set_present ProtocolVersionHeader (Header_Get rh ProtocolVersionHeader) h5, gh_Body = b\<rparr>)"

definition catalog_forward ::
  "gw_client \<Rightarrow> CatalogRouter \<Rightarrow> header list \<Rightarrow> string + bytes \<Rightarrow> string \<Rightarrow> CatalogBackend \<Rightarrow> gw_http_request list \<times> (string + gw_http_response)"
where
  "catalog_forward H c rh rb serverID server =
     (case rb of Inl e \<Rightarrow> ([], Inl e) | Inr b \<Rightarrow> send H (catalog_request c rh b serverID server))"

definition handleServer ::
  "gw_codec \<Rightarrow> gw_client \<Rightarrow> string \<Rightarrow> header list \<Rightarrow> string + bytes \<Rightarrow> CatalogRouter \<Rightarrow> CatalogRouter \<times> gw_http_request list \<times> gw_reply"
where
  "handleServer C H serverID rh rb c =
     (case map_of (cc_Servers (cr_config c)) serverID of
        None \<Rightarrow> (c, [], gw_writeJSON C [] 404 (errorResponse None (- 32004) (''unknown catalog server: '' @ serverID)))
      | Some server \<Rightarrow>
          (let failed = gw_writeJSON C [] 502 (errorResponse None (- 32003) (''catalog backend failed: '' @ serverID))
           in case catalog_forward H c rh rb serverID server of
                (sent, Inl e) \<Rightarrow> (catalog_record serverID server (''error: '' @ e) c, sent, failed)
              | (sent, Inr resp) \<Rightarrow>
                  (case gr_Body resp of
                     Inl e \<Rightarrow> (catalog_record serverID server (''error: '' @ e) c, sent, failed)
                   | Inr b \<Rightarrow> (catalog_record serverID server ''ok'' c, sent,
                       \<lparr>gy_Status = gr_StatusCode resp, gy_Header = copyNetHTTPResponseHeaders [] (gr_Header resp), gy_Body = RawBody b\<rparr>))))"

text \<open>The filter records the requests of its paths and replays the body of each to the handler.\<close>

definition catalog_handler :: "request \<Rightarrow> header list \<Rightarrow> transitRequest option" where
  "catalog_handler r hs =
     (let path = stripQuery (Path r)
      in if path = ''/healthz'' \<or> path = ''/dump'' \<or> HasPrefix path ''/mcp/s/''
         then Some \<lparr>tr_method = Method r, tr_path = Path r, tr_headers = hs\<rparr> else None)"

definition catalog_body :: "transitRequest option \<Rightarrow> body_chunk \<Rightarrow> gw_plan" where
  "catalog_body ctx chunk =
     (case ctx of
        None \<Rightarrow> Pass
      | Some req \<Rightarrow> if \<not> BC_EndStream chunk \<or> tr_path req = [] then Pass
          else ServeNetHTTP (req\<lparr>tr_headers := filter (\<lambda>h. \<not> HasPrefix (fst h) '':'') (tr_headers req)\<rparr>) (BC_Data chunk))"

section \<open>What a backend receives\<close>

text \<open>Only the configured credential is sent, and only to the server it belongs to; nothing the client sent as
  authorization gets through.\<close>

lemma authorization_names:
  "EqualFold ''authorization'' ''authorization''" "\<not> EqualFold SessionIDHeader ''authorization''"
  "\<not> EqualFold ProtocolVersionHeader ''authorization''" "\<not> EqualFold ''accept'' ''authorization''" "\<not> EqualFold ''content-type'' ''authorization''"
proof -
  have low: "list_all (\<lambda>s. Writer_Ops.ToLower s = s) (''authorization'' # header_names)" using header_names_lower by code_simp
  have "x = y" if "EqualFold x y" "x \<in> set (''authorization'' # header_names)" "y \<in> set (''authorization'' # header_names)" for x y
    using that low by (auto simp: EqualFold_def list_all_iff)
  then have "\<not> EqualFold x ''authorization''" if "x \<in> set header_names" "x \<noteq> ''authorization''" for x using that by auto
  then show "EqualFold ''authorization'' ''authorization''" "\<not> EqualFold SessionIDHeader ''authorization''"
    "\<not> EqualFold ProtocolVersionHeader ''authorization''" "\<not> EqualFold ''accept'' ''authorization''" "\<not> EqualFold ''content-type'' ''authorization''"
    by (simp_all add: EqualFold_def) (simp_all add: mcp_names)
qed

lemma set_default_other: "\<not> EqualFold nm nm' \<Longrightarrow> Header_Get (set_default nm v d hs) nm' = Header_Get hs nm'"
  by (simp add: set_default_def Let_def Header_Get_Set)

lemma catalog_sends_configured_credential:
  assumes "\<not> EqualFold (catalog_routeHeader c) ''authorization''"
  shows "Header_Get (gh_Header (catalog_request c rh b i server)) ''authorization'' = cb_Credential server"
  using assms authorization_names
  by (simp add: catalog_request_def Let_def Header_Get_set_present Header_Get_Set set_default_other)

lemma handleServer_sends_to_owner:
  assumes "n \<in> set (fst (snd (handleServer C H serverID rh rb c)))"
  shows "\<exists>server b. map_of (cc_Servers (cr_config c)) serverID = Some server \<and> rb = Inr b \<and> n = catalog_request c rh b serverID server"
  using assms
  by (auto simp: handleServer_def catalog_forward_def send_def Let_def split: option.splits sum.splits prod.splits)

text \<open>The route header is set before the headers of the client are copied: a configuration that routes by the session
  header, which \<open>ValidateConfig\<close> accepts, lets the client choose the route.\<close>

lemma session_route_header_is_overridden:
  assumes "cc_RouteHeader (cr_config c) = SessionIDHeader" "Header_Get rh SessionIDHeader = v" "v \<noteq> []"
  shows "Header_Get (gh_Header (catalog_request c rh b i server)) (catalog_routeHeader c) = v"
proof -
  have "catalog_routeHeader c = SessionIDHeader" "\<not> EqualFold ProtocolVersionHeader SessionIDHeader" "EqualFold SessionIDHeader SessionIDHeader"
    using assms(1) by (simp_all add: catalog_routeHeader_def EqualFold_names mcp_names)
  then show ?thesis using assms(2,3) by (simp add: catalog_request_def Let_def Header_Get_set_present)
qed

text \<open>Iteration over a map never meets a key twice: the check for duplicates cannot fail.\<close>

lemma duplicate_check_is_dead: "distinct (map fst ss) \<Longrightarrow> seen \<inter> fst ` set ss = {} \<Longrightarrow> validate_backends L seen ss \<noteq> Some (DuplicateServer i)"
proof (induction ss arbitrary: seen)
  case (Cons x ss)
  obtain j server where x: "x = (j, server)" by fastforce
  have "insert j seen \<inter> fst ` set ss = {}" using Cons.prems by (auto simp: x)
  then show ?case using Cons.IH [of "insert j seen"] Cons.prems by (auto simp: x split: sum.split)
qed simp

end
