(* ===== verification/MCP_Backend.thy ===== *)
theory MCP_Backend
  imports MCP_Aggregator MCP_Gateway
begin

text \<open>
  The demonstration server behind the MCP profile router (\<^verbatim>\<open>src/examples/mcp-profile-router/backend.go\<close>) and the filter that
  serves the router from Envoy (\<^verbatim>\<open>filter.go\<close>). The session counter is shared by all servers of the process. A request is
  handled under the server's mutex where it reads or writes its state, so a handler is one step.
\<close>

section \<open>The server\<close>

record Backend =
  bk_ID :: string
  bk_Tools :: "string list"
  bk_ExpectedAuth :: string
  bk_sessions :: "string set"
  bk_listCalls :: int
  bk_callCalls :: "string \<rightharpoonup> int"
  bk_lastAuth :: string

definition NewBackend :: "string \<Rightarrow> string list \<Rightarrow> string \<Rightarrow> Backend" where
  "NewBackend i tools auth =
     \<lparr>bk_ID = i, bk_Tools = sortStrings tools, bk_ExpectedAuth = auth, bk_sessions = {}, bk_listCalls = 0, bk_callCalls = Map.empty,
      bk_lastAuth = []\<rparr>"

definition newSessionID :: "string \<Rightarrow> uint64 \<Rightarrow> string \<times> uint64" where
  "newSessionID prefix counter = (let n = counter + 1 in (prefix @ ''-'' @ Itoa (unat n), n))"

definition createSession :: "uint64 \<Rightarrow> Backend \<Rightarrow> string \<times> uint64 \<times> Backend" where
  "createSession counter b =
     (let (sid, counter) = newSessionID (bk_ID b) counter in (sid, counter, b\<lparr>bk_sessions := insert sid (bk_sessions b)\<rparr>))"

definition validSession :: "header list \<Rightarrow> Backend \<Rightarrow> bool" where
  "validSession hs b = (let sid = Header_Get hs SessionIDHeader in sid \<noteq> [] \<and> sid \<in> bk_sessions b)"

definition toolList :: "Backend \<Rightarrow> Tool list" where
  "toolList b = map (\<lambda>nm. \<lparr>tool_Name = nm, tool_Description = ''Tool '' @ nm @ '' from '' @ bk_ID b,
     tool_InputSchema = JObj [(''type'', JStr ''object''), (''additionalProperties'', JBool True)]\<rparr>) (bk_Tools b)"

definition recordList :: "string \<Rightarrow> Backend \<Rightarrow> Backend" where
  "recordList auth b = b\<lparr>bk_listCalls := int64 (bk_listCalls b + 1), bk_lastAuth := auth\<rparr>"

definition recordCall :: "string \<Rightarrow> string \<Rightarrow> Backend \<Rightarrow> Backend" where
  "recordCall tool auth b =
     (let n = (case bk_callCalls b tool of None \<Rightarrow> 0 | Some n \<Rightarrow> n)
      in b\<lparr>bk_callCalls := (bk_callCalls b)(tool \<mapsto> int64 (n + 1)), bk_lastAuth := auth\<rparr>)"

record BackendDump =
  bd_ID :: string
  bd_ListCalls :: int
  bd_CallCalls :: "string \<rightharpoonup> int"
  bd_AuthConfigured :: bool
  bd_LastAuthOK :: bool

definition Backend_Dump :: "Backend \<Rightarrow> BackendDump" where
  "Backend_Dump b =
     \<lparr>bd_ID = bk_ID b, bd_ListCalls = bk_listCalls b, bd_CallCalls = bk_callCalls b, bd_AuthConfigured = (bk_ExpectedAuth b \<noteq> []),
      bd_LastAuthOK = (bk_ExpectedAuth b = [] \<or> bk_lastAuth b = bk_ExpectedAuth b)\<rparr>"

text \<open>\<open>as_params\<close> of the environment decodes the parameters of a call.\<close>

definition backend_handleMCP :: "mcp_env \<Rightarrow> agg_request \<Rightarrow> uint64 \<Rightarrow> Backend \<Rightarrow> uint64 \<times> Backend \<times> agg_reply" where
  "backend_handleMCP env r counter b =
     (case ar_Body r of
        None \<Rightarrow> (counter, b, writeJSON [] 400 (errorResponse None (- 32700) ''invalid JSON-RPC request''))
      | Some req \<Rightarrow>
          if in_Method req = MethodInitialize then
            (let (sid, counter, b) = createSession counter b
             in (counter, b, writeJSON (session_headers sid) 200 (rpc_response (in_ID req) (InitializeOut
                  \<lparr>ini_ProtocolVersion = ProtocolVersion, ini_Capabilities = JObj [(''tools'', JObj [])],
                   ini_ServerInfo = (''mcp-profile-router-'' @ bk_ID b, ''dev'')\<rparr>))))
          else if in_Method req = MethodToolsList then
            (if \<not> validSession (ar_Header r) b then (counter, b, bad_session (in_ID req))
             else (let b = recordList (Header_Get (ar_Header r) ''authorization'') b
                   in (counter, b, writeJSON [] 200 (rpc_response (in_ID req) (ListToolsOut (toolList b))))))
          else if in_Method req = MethodToolsCall then
            (if \<not> validSession (ar_Header r) b then (counter, b, bad_session (in_ID req))
             else case (case in_Params req of None \<Rightarrow> None | Some p \<Rightarrow> as_params env p) of
                    None \<Rightarrow> (counter, b, writeJSON [] 200 (errorResponse (in_ID req) (- 32602) ''invalid tools/call params''))
                  | Some params \<Rightarrow>
                      if par_Name params = [] then
                        (counter, b, writeJSON [] 200 (errorResponse (in_ID req) (- 32602) ''invalid tools/call params''))
                      else let auth = Header_Get (ar_Header r) ''authorization''; b = recordCall (par_Name params) auth b
                           in (counter, b, writeJSON [] 200 (rpc_response (in_ID req) (CallToolOut
                                \<lparr>ctr_Content = [(''text'', bk_ID b @ ''.'' @ par_Name params)],
                                 ctr_StructuredContent = JObj [(''server'', JStr (bk_ID b)), (''tool'', JStr (par_Name params)),
                                   (''auth_ok'', JBool (bk_ExpectedAuth b = [] \<or> auth = bk_ExpectedAuth b)), (''args'', par_Arguments params)],
                                 ctr_IsError = False\<rparr>))))
          else (counter, b, writeJSON [] 200 (errorResponse (in_ID req) (- 32601) (''unsupported method: '' @ in_Method req))))"

section \<open>The filter (filter.go)\<close>

text \<open>\<open>raw\<close> is the value of the environment variable, \<open>unmarshal\<close> the JSON decoder.\<close>

definition LoadProfileFromEnv :: "(string \<Rightarrow> string + Profile) \<Rightarrow> string \<Rightarrow> string + Profile" where
  "LoadProfileFromEnv unmarshal raw =
     (let env = ''MCP_PROFILE_ROUTER_PROFILE''
      in if TrimSpace raw = [] then Inl (env @ '' is required'')
         else case unmarshal raw of
                Inl err \<Rightarrow> Inl (''parse '' @ env @ '': '' @ err)
              | Inr profile \<Rightarrow> (case ValidateProfile profile of Some err \<Rightarrow> Inl (env @ '': '' @ err) | None \<Rightarrow> Inr profile))"

definition router_handler :: "request \<Rightarrow> header list \<Rightarrow> transitRequest option" where
  "router_handler r hs =
     (let path = stripQuery (Path r)
      in if path = ''/healthz'' \<or> path = ''/dump'' \<or> HasPrefix path ''/mcp/''
         then Some \<lparr>tr_method = Method r, tr_path = Path r, tr_headers = hs\<rparr> else None)"

text \<open>\<open>serve\<close> is the HTTP handler of the aggregator: the status, the body and the headers of its answer.\<close>

definition router_body :: "(transitRequest \<Rightarrow> bytes \<Rightarrow> int \<times> bytes \<times> header list) \<Rightarrow> transitRequest option \<Rightarrow> body_chunk \<Rightarrow> wop list" where
  "router_body serve ctx chunk =
     (case ctx of
        None \<Rightarrow> []
      | Some req \<Rightarrow>
          if \<not> BC_EndStream chunk \<or> tr_path req = [] then []
          else case serve (req\<lparr>tr_headers := filter (\<lambda>h. \<not> HasPrefix (fst h) '':'') (tr_headers req)\<rparr>) (BC_Data chunk) of
                 (st, b, hs) \<Rightarrow> [OpSendLocalResponse st b hs])"

section \<open>Properties\<close>

fun backend_run :: "mcp_env \<Rightarrow> agg_request list \<Rightarrow> uint64 \<Rightarrow> Backend \<Rightarrow> uint64 \<times> Backend" where
  "backend_run env [] counter b = (counter, b)"
| "backend_run env (r # rs) counter b = (let (counter, b, _) = backend_handleMCP env r counter b in backend_run env rs counter b)"

text \<open>A server never forgets a session, and knows none but those it issued.\<close>

lemma handle_sessions:
  "bk_sessions (fst (snd (backend_handleMCP env r counter b))) =
     (if \<exists>req. ar_Body r = Some req \<and> in_Method req = MethodInitialize then insert (fst (newSessionID (bk_ID b) counter)) (bk_sessions b)
      else bk_sessions b)"
  "bk_ID (fst (snd (backend_handleMCP env r counter b))) = bk_ID b"
  by (auto simp: backend_handleMCP_def createSession_def recordList_def recordCall_def Let_def newSessionID_def
      split: option.split)

lemma run_keeps_sessions: "sid \<in> bk_sessions b \<Longrightarrow> sid \<in> bk_sessions (snd (backend_run env rs counter b))"
proof (induction rs arbitrary: counter b)
  case (Cons r rs)
  obtain c' b' rep where h: "backend_handleMCP env r counter b = (c', b', rep)" by (cases "backend_handleMCP env r counter b")
  have "sid \<in> bk_sessions b'" using handle_sessions(1) [of env r counter b] Cons.prems h by (auto split: if_splits)
  then show ?case using Cons.IH h by simp
qed simp

text \<open>The session that \<open>initialize\<close> answers opens the server to every later call that carries it, whatever requests come
  in between: a well-formed call is answered with the tool's result, under the server's own name, and counted.\<close>

lemma issued_session_is_accepted:
  assumes "ar_Body r0 = Some req0" "in_Method req0 = MethodInitialize" "backend_handleMCP env r0 counter b = (c1, b1, rep)"
    "backend_run env rs c1 b1 = (c2, b2)" "Header_Get (ar_Header r) SessionIDHeader = Header_Get (rp_Header rep) SessionIDHeader"
    "ar_Body r = Some req" "in_Method req = MethodToolsCall" "in_Params req = Some p" "as_params env p = Some params" "par_Name params \<noteq> []"
    "backend_handleMCP env r c2 b2 = (c3, b3, answer)"
  shows "\<exists>out. rs_Result (rp_Body answer) = Some (CallToolOut out) \<and> ctr_Content out = [(''text'', bk_ID b2 @ ''.'' @ par_Name params)] \<and>
    bk_callCalls b3 (par_Name params) = Some (int64 ((case bk_callCalls b2 (par_Name params) of None \<Rightarrow> 0 | Some n \<Rightarrow> n) + 1))"
proof -
  let ?sid = "fst (newSessionID (bk_ID b) counter)"
  have "Header_Get (rp_Header rep) SessionIDHeader = ?sid" "?sid \<in> bk_sessions b1"
    using assms(1-3) by (auto simp: backend_handleMCP_def createSession_def Let_def Header_Get_session newSessionID_def)
  moreover have "?sid \<noteq> []" by (simp add: newSessionID_def Let_def)
  moreover have "?sid \<in> bk_sessions b2" using run_keeps_sessions [of ?sid b1 env rs c1] calculation(2) assms(4) by simp
  ultimately have "validSession (ar_Header r) b2" using assms(5) by (simp add: validSession_def)
  then show ?thesis using assms(6-11)
    by (auto simp: backend_handleMCP_def mcp_names Let_def writeJSON_def rpc_response_def recordCall_def)
qed

text \<open>Without a session a server answers no list and no call, and counts nothing.\<close>

lemma no_session_no_service:
  assumes "\<not> validSession (ar_Header r) b" "ar_Body r = Some req" "in_Method req \<noteq> MethodInitialize"
  shows "fst (snd (backend_handleMCP env r counter b)) = b \<and> rs_Result (rp_Body (snd (snd (backend_handleMCP env r counter b)))) = None"
  using assms by (simp add: backend_handleMCP_def bad_session_def writeJSON_def errorResponse_def)

text \<open>Requests outside the router's own paths pass through the filter untouched.\<close>

lemma egress_passes_through:
  assumes "stripQuery (Path r) \<noteq> ''/healthz''" "stripQuery (Path r) \<noteq> ''/dump''" "\<not> HasPrefix (stripQuery (Path r)) ''/mcp/''"
  shows "router_body serve (router_handler r hs) chunk = []"
  using assms by (simp add: router_handler_def router_body_def Let_def)

text \<open>A request of the router's paths is answered once, when its body ends, and the handler sees no pseudo header.\<close>

lemma router_answers_at_end:
  assumes "HasPrefix (stripQuery (Path r)) ''/mcp/''" "Path r \<noteq> []" "BC_EndStream chunk"
  shows "\<exists>req st b hs'. router_body serve (router_handler r hs) chunk = [OpSendLocalResponse st b hs'] \<and> serve req (BC_Data chunk) = (st, b, hs') \<and>
    (\<forall>h\<in>set (tr_headers req). \<not> HasPrefix (fst h) '':'')"
  using assms by (auto simp: router_handler_def router_body_def Let_def split: prod.split)

end
