(* ===== verification/Cluster_Calls.thy ===== *)
theory Cluster_Calls
  imports Cluster_ABI Host_Selection
begin

text \<open>
  What remains of \<^verbatim>\<open>src/down/abi_impl/cluster.go\<close>: the calls of the cluster handle that pass their arguments on
  to Envoy, and the exported function by which Envoy asks a load balancer for a host. The C calls are logged;
  what they answer is an argument. \<open>Host_Selection\<close> follows one asynchronous selection from here on.
\<close>

section \<open>The cluster handle\<close>

datatype envoy_cluster_call =
    C_update_host_health HostPtr HostHealth
  | C_pre_init_complete

definition handle_UpdateHostHealth :: "HostPtr \<Rightarrow> HostHealth \<Rightarrow> envoy_cluster_call list \<Rightarrow> envoy_cluster_call list" where
  "handle_UpdateHostHealth host health log = log @ [C_update_host_health host health]"

definition handle_PreInitComplete :: "envoy_cluster_call list \<Rightarrow> envoy_cluster_call list" where
  "handle_PreInitComplete log = log @ [C_pre_init_complete]"

definition handle_FindHostByAddress :: "(string \<Rightarrow> HostPtr) \<Rightarrow> string \<Rightarrow> HostPtr" where
  "handle_FindHostByAddress find_host addr = find_host addr"

section \<open>Choosing a host\<close>

text \<open>\<open>lb_choose\<close> is the user's \<open>ChooseHost\<close>: a host, null if there is none, and possibly a completion. The two outputs are the
  host and the asynchronous handle; then the table of handles, the completion, and the calls that \<open>SetFinishFn\<close>
  makes at once when the selection was settled in the meantime. \<open>tok\<close> is the address \<open>record\<close> obtains.\<close>

record choose_answer =
  ca_host :: HostPtr
  ca_handle :: nat
  ca_asyncs :: "unit manager"
  ca_completion :: "completion option"
  ca_calls :: "lb_call list"

definition on_cluster_lb_choose_host ::
    "(nat \<Rightarrow> HostPtr \<times> completion option) \<Rightarrow> nat \<Rightarrow> nat \<Rightarrow> 'f cluster_abi \<Rightarrow> unit manager \<Rightarrow> choose_answer" where
  "on_cluster_lb_choose_host lb_choose tok ptr s handles =
     (let none = \<lparr>ca_host = 0, ca_handle = 0, ca_asyncs = handles, ca_completion = None, ca_calls = []\<rparr>
      in case manager_unwrap ptr (lb_table s) of
           None \<Rightarrow> none
         | Some lb \<Rightarrow>
             (case lb_choose lb of
                (host, Some c) \<Rightarrow>
                  (let handles = manager_record tok () handles; (c, fns) = SetFinishFn tok c
                   in none\<lparr>ca_handle := tok, ca_asyncs := handles, ca_completion := Some c, ca_calls := fns\<rparr>)
              | (host, None) \<Rightarrow> if host \<noteq> 0 then none\<lparr>ca_host := host\<rparr> else none))"

text \<open>Envoy never gets a host and a handle at the same time, and neither from a balancer that was destroyed.\<close>

lemma choose_host_answers_one:
  "ca_host (on_cluster_lb_choose_host lb_choose tok ptr s handles) = 0 \<or> ca_handle (on_cluster_lb_choose_host lb_choose tok ptr s handles) = 0"
  by (simp add: on_cluster_lb_choose_host_def Let_def split: option.split prod.split)

lemma destroyed_lb_answers_nothing:
  assumes "manager_ok (lb_table s)"
  shows "on_cluster_lb_choose_host lb_choose tok ptr (on_cluster_lb_destroy ptr s) handles =
    \<lparr>ca_host = 0, ca_handle = 0, ca_asyncs = handles, ca_completion = None, ca_calls = []\<rparr>"
proof -
  have "manager_unwrap ptr (lb_table (on_cluster_lb_destroy ptr s)) = None"
    using assms by (simp add: on_cluster_lb_destroy_def log_abi_def mgr.unwrap_remove split: option.split)
  then show ?thesis by (simp add: on_cluster_lb_choose_host_def)
qed

text \<open>The handle is known until the selection settles, also when it settled before Envoy got the handle: then the call
  that frees it is made by \<open>SetFinishFn\<close> itself, and exactly once.\<close>

lemma choose_host_owns_handle:
  assumes "manager_unwrap ptr (lb_table s) = Some lb" "lb_choose lb = (host, Some c)" "finishFn c = None" "tok \<noteq> 0" "manager_ok handles"
  defines "a \<equiv> on_cluster_lb_choose_host lb_choose tok ptr s handles"
  shows "ca_handle a = tok" "manager_unwrap tok (ca_asyncs a) = Some ()"
    "comp_done c \<Longrightarrow> ca_calls a = [FinishFn tok] \<and> finishFn (the (ca_completion a)) = None"
    "\<not> comp_done c \<Longrightarrow> ca_calls a = [] \<and> finishFn (the (ca_completion a)) = Some tok"
  using assms by (simp_all add: on_cluster_lb_choose_host_def SetFinishFn_def mgr.unwrap_record split: prod.split)

end
