(* ===== verification/Owned_Copies.thy ===== *)
theory Owned_Copies
  imports Envoy_Buffers
begin

text \<open>
  The copies that outlive a callback (\<^verbatim>\<open>src/up/async.go\<close>): the response of a callout is in Envoy's memory and only valid while
  the callback runs, so \<open>Writer.Do\<close> copies it into Go's memory before it sends it to the waiting goroutine. Go's
  allocator is a mark: memory from the mark on is free, and an allocation moves it. The header accessors of a
  request (\<^verbatim>\<open>src/up/request.go\<close>) copy too.
\<close>

section \<open>Copies\<close>

record heap =
  hp_mem :: memory
  hp_mark :: nat

definition store :: "memory \<Rightarrow> nat \<Rightarrow> bytes \<Rightarrow> memory" where
  "store m p s = (\<lambda>a. if p \<le> a \<and> a < p + length s then s ! (a - p) else m a)"

definition allocate :: "bytes \<Rightarrow> heap \<Rightarrow> nat \<times> heap" where
  "allocate s h = (hp_mark h, \<lparr>hp_mem = store (hp_mem h) (hp_mark h) s, hp_mark = hp_mark h + length s\<rparr>)"

text \<open>\<open>ToBytes\<close> returns a fresh slice with the bytes of the buffer; its address is used only if it is not empty.\<close>

definition copyUnsafeEnvoyBuffer :: "sdk_buffer \<Rightarrow> envoy_buffer \<Rightarrow> heap \<Rightarrow> envoy_buffer \<times> heap" where
  "copyUnsafeEnvoyBuffer sdk raw h =
     (let owned = sdk_ToBytes sdk (hp_mem h) raw
      in if owned = [] then (zero_buffer, h)
         else let (p, h) = allocate owned h in (\<lparr>buf_ptr = p, buf_len = of_nat (length owned)\<rparr>, h))"

fun copy_each :: "sdk_buffer \<Rightarrow> envoy_buffer list \<Rightarrow> heap \<Rightarrow> envoy_buffer list \<times> heap" where
  "copy_each sdk [] h = ([], h)"
| "copy_each sdk (b # bs) h =
     (let (c, h) = copyUnsafeEnvoyBuffer sdk b h; (cs, h) = copy_each sdk bs h in (c # cs, h))"

definition copyUnsafeEnvoyBuffers :: "sdk_buffer \<Rightarrow> envoy_buffer list option \<Rightarrow> heap \<Rightarrow> envoy_buffer list option \<times> heap" where
  "copyUnsafeEnvoyBuffers sdk raw h =
     (case raw of None \<Rightarrow> (None, h) | Some bs \<Rightarrow> (let (cs, h) = copy_each sdk bs h in (Some cs, h)))"

fun copy_pairs :: "sdk_buffer \<Rightarrow> (envoy_buffer \<times> envoy_buffer) list \<Rightarrow> heap \<Rightarrow> (envoy_buffer \<times> envoy_buffer) list \<times> heap" where
  "copy_pairs sdk [] h = ([], h)"
| "copy_pairs sdk ((k, v) # ps) h =
     (let (k, h) = copyUnsafeEnvoyBuffer sdk k h; (v, h) = copyUnsafeEnvoyBuffer sdk v h; (ps, h) = copy_pairs sdk ps h
      in ((k, v) # ps, h))"

definition copyUnsafeEnvoyHeaderBuffers ::
    "sdk_buffer \<Rightarrow> (envoy_buffer \<times> envoy_buffer) list option \<Rightarrow> heap \<Rightarrow> (envoy_buffer \<times> envoy_buffer) list option \<times> heap" where
  "copyUnsafeEnvoyHeaderBuffers sdk raw h =
     (case raw of None \<Rightarrow> (None, h) | Some ps \<Rightarrow> (let (ps, h) = copy_pairs sdk ps h in (Some ps, h)))"

section \<open>Header accessors of a request\<close>

text \<open>Envoy's header map: all headers, and the first value of a name, a buffer of length 0 if there is none.\<close>

record header_map =
  hm_GetAll :: "(envoy_buffer \<times> envoy_buffer) list"
  hm_GetOne :: "string \<Rightarrow> envoy_buffer"

definition Request_AllHeaders :: "sdk_buffer \<Rightarrow> memory \<Rightarrow> header_map option \<Rightarrow> header list" where
  "Request_AllHeaders sdk m headers =
     (case headers of None \<Rightarrow> [] | Some hm \<Rightarrow> map (\<lambda>(k, v). (sdk_ToString sdk m k, sdk_ToString sdk m v)) (hm_GetAll hm))"

definition Request_Header :: "sdk_buffer \<Rightarrow> memory \<Rightarrow> header_map option \<Rightarrow> string \<Rightarrow> string" where
  "Request_Header sdk m headers nm =
     (case headers of
        None \<Rightarrow> []
      | Some hm \<Rightarrow> (let v = hm_GetOne hm nm in if buf_len v = 0 then [] else sdk_ToString sdk m v))"

section \<open>Lemmas\<close>

text \<open>What the SDK documents of \<open>ToBytes\<close>: it returns a copy of the bytes of the buffer.\<close>

definition sdk_copies :: "sdk_buffer \<Rightarrow> bool" where
  "sdk_copies sdk \<longleftrightarrow> (\<forall>m b. sdk_ToBytes sdk m b = load m (buf_ptr b) (unat (buf_len b)))"

definition below :: "nat \<Rightarrow> envoy_buffer \<Rightarrow> bool" where
  "below n b \<longleftrightarrow> buf_ptr b + unat (buf_len b) \<le> n"

text \<open>Envoy may change its memory, which lies below \<open>n\<close>, but not Go's, up to the mark.\<close>

definition go_memory_kept :: "nat \<Rightarrow> heap \<Rightarrow> memory \<Rightarrow> bool" where
  "go_memory_kept n h m \<longleftrightarrow> (\<forall>a. n \<le> a \<and> a < hp_mark h \<longrightarrow> m a = hp_mem h a)"

lemma load_agree: "(\<And>a. p \<le> a \<Longrightarrow> a < p + n \<Longrightarrow> m a = m' a) \<Longrightarrow> load m p n = load m' p n"
  by (rule load_cong) simp

lemma copy_one:
  assumes "sdk_copies sdk" "below n raw" "n \<le> hp_mark h" "copyUnsafeEnvoyBuffer sdk raw h = (c, h')"
  shows "hp_mark h \<le> hp_mark h'" "\<And>a. a < hp_mark h \<Longrightarrow> hp_mem h' a = hp_mem h a"
    "sdk_ToBytes sdk (hp_mem h') c = sdk_ToBytes sdk (hp_mem h) raw"
    "buf_len c = 0 \<or> hp_mark h \<le> buf_ptr c \<and> buf_ptr c + unat (buf_len c) \<le> hp_mark h'"
proof -
  let ?o = "sdk_ToBytes sdk (hp_mem h) raw"
  have len: "length ?o = unat (buf_len raw)" using assms(1) by (simp add: sdk_copies_def)
  have u: "unat (of_nat (length ?o) :: uint64) = length ?o" unfolding len by simp
  show "hp_mark h \<le> hp_mark h'" "\<And>a. a < hp_mark h \<Longrightarrow> hp_mem h' a = hp_mem h a"
    "buf_len c = 0 \<or> hp_mark h \<le> buf_ptr c \<and> buf_ptr c + unat (buf_len c) \<le> hp_mark h'"
    using assms(4) u by (auto simp: copyUnsafeEnvoyBuffer_def allocate_def store_def Let_def zero_buffer_def split: if_splits)
  have "load (store (hp_mem h) p ?o) p (length ?o) = ?o" for p
    by (rule nth_equalityI) (simp_all add: store_def)
  moreover have "sdk_ToBytes sdk m zero_buffer = []" for m using assms(1) by (simp add: sdk_copies_def zero_buffer_def)
  moreover have "sdk_ToBytes sdk m \<lparr>buf_ptr = p, buf_len = of_nat (length ?o)\<rparr> = load m p (length ?o)" for m p
    using assms(1) u by (simp add: sdk_copies_def)
  ultimately show "sdk_ToBytes sdk (hp_mem h') c = ?o"
    using assms(4) by (auto simp: copyUnsafeEnvoyBuffer_def allocate_def Let_def split: if_splits)
qed

lemma copy_each_keeps:
  assumes "sdk_copies sdk" "\<forall>b\<in>set raw. below n b" "n \<le> hp_mark h" "copy_each sdk raw h = (cs, h')"
  shows "hp_mark h \<le> hp_mark h' \<and> (\<forall>a<hp_mark h. hp_mem h' a = hp_mem h a)"
  using assms(2-4)
proof (induction raw arbitrary: h cs)
  case (Cons b bs)
  obtain c h1 where c: "copyUnsafeEnvoyBuffer sdk b h = (c, h1)" by fastforce
  have one: "hp_mark h \<le> hp_mark h1" "\<And>a. a < hp_mark h \<Longrightarrow> hp_mem h1 a = hp_mem h a"
    using copy_one(1,2) [OF assms(1) _ _ c, of n] Cons.prems by auto
  obtain cs1 where "copy_each sdk bs h1 = (cs1, h')" using Cons.prems(3) c by (auto split: prod.splits)
  then have "hp_mark h1 \<le> hp_mark h' \<and> (\<forall>a<hp_mark h1. hp_mem h' a = hp_mem h1 a)"
    using Cons.IH [of h1 cs1] Cons.prems one(1) by simp
  then show ?case using one by (metis order_less_le_trans order_trans)
qed simp

text \<open>Every copy shows the bytes that its original had when the callback ran, whatever Envoy does with its memory
  afterwards, while the original would show the new bytes.\<close>

lemma copies_outlive_the_callback:
  assumes "sdk_copies sdk" "\<forall>b\<in>set raw. below n b" "n \<le> hp_mark h" "copy_each sdk raw h = (cs, h')" "go_memory_kept n h' m"
  shows "map (sdk_ToBytes sdk m) cs = map (sdk_ToBytes sdk (hp_mem h)) raw"
  using assms(2-5)
proof (induction raw arbitrary: h cs)
  case (Cons b bs)
  obtain c h1 where c: "copyUnsafeEnvoyBuffer sdk b h = (c, h1)" by fastforce
  obtain cs' where cs: "copy_each sdk bs h1 = (cs', h')" "cs = c # cs'" using Cons.prems(3) c by (auto split: prod.splits)
  note one = copy_one [OF assms(1) _ Cons.prems(2) c]
  have below: "below n b" "\<forall>b\<in>set bs. below n b" using Cons.prems(1) by simp_all
  have rest: "map (sdk_ToBytes sdk m) cs' = map (sdk_ToBytes sdk (hp_mem h1)) bs"
    using Cons.IH [OF below(2) _ cs(1) Cons.prems(4)] one(1) [OF below(1)] Cons.prems(2) by simp
  have same: "sdk_ToBytes sdk (hp_mem h1) b' = sdk_ToBytes sdk (hp_mem h) b'" if "below n b'" for b'
    using assms(1) that one(2) [OF below(1)] Cons.prems(2) unfolding sdk_copies_def below_def
    by (auto intro!: load_agree)
  have keep: "hp_mark h1 \<le> hp_mark h' \<and> (\<forall>a<hp_mark h1. hp_mem h' a = hp_mem h1 a)"
    using copy_each_keeps [OF assms(1) below(2) _ cs(1)] one(1) [OF below(1)] Cons.prems(2) by simp
  have "sdk_ToBytes sdk m c = sdk_ToBytes sdk (hp_mem h1) c"
  proof (cases "buf_len c = 0")
    case True
    then show ?thesis using assms(1) by (simp add: sdk_copies_def)
  next
    case False
    then have in_go: "hp_mark h \<le> buf_ptr c" "buf_ptr c + unat (buf_len c) \<le> hp_mark h1" using one(4) [OF below(1)] by simp_all
    have "load m (buf_ptr c) (unat (buf_len c)) = load (hp_mem h1) (buf_ptr c) (unat (buf_len c))"
    proof (rule load_agree)
      fix a assume a: "buf_ptr c \<le> a" "a < buf_ptr c + unat (buf_len c)"
      then have "n \<le> a" "a < hp_mark h1" "a < hp_mark h'" using in_go Cons.prems(2) keep by linarith+
      then show "m a = hp_mem h1 a" using Cons.prems(4) keep by (simp add: go_memory_kept_def)
    qed
    then show ?thesis using assms(1) by (simp add: sdk_copies_def)
  qed
  then show ?case using cs(2) rest one(3) [OF below(1)] same below by simp
qed simp

end
