(* ===== verification/Route_Hosts.thy ===== *)
theory Route_Hosts
  imports LB_Views
begin

text \<open>
  What the routing clusters of \<^verbatim>\<open>src/examples\<close> have in common: the resolution of a configured target to an address,
  and the loop that makes the addresses of a configuration known to Envoy. Envoy's table of hosts is a parameter,
  a record of the three calls the clusters make on it over an arbitrary state; the clauses of \<open>directory_ok\<close> are what
  \<^verbatim>\<open>src/down/abi_impl/abi.h\<close> says of them. \<^verbatim>\<open>net.SplitHostPort\<close> and the resolver are parameters too.
\<close>

section \<open>Targets\<close>

text \<open>An IP address: its dotted form if it is an IPv4 address, and its text.\<close>

record ip_addr =
  ip_To4 :: "string option"
  ip_String :: string

record net =
  SplitHostPort :: "string \<Rightarrow> string + string \<times> string"
  LookupIPAddr :: "string \<Rightarrow> string + ip_addr list"

definition JoinHostPort :: "string \<Rightarrow> string \<Rightarrow> string" where
  "JoinHostPort host port =
     (if CHR '':'' \<in> set host \<or> CHR ''%'' \<in> set host then ''['' @ host @ '']:'' @ port else host @ '':'' @ port)"

text \<open>The first IPv4 address, else the first address.\<close>

definition resolveTarget :: "net \<Rightarrow> string \<Rightarrow> string + string" where
  "resolveTarget nw target =
     (case SplitHostPort nw target of
        Inl err \<Rightarrow> Inl (''invalid target '' @ target @ '': '' @ err)
      | Inr (host, port) \<Rightarrow>
          (case LookupIPAddr nw host of
             Inl err \<Rightarrow> Inl (''resolve '' @ host @ '': '' @ err)
           | Inr addrs \<Rightarrow>
               (case find (\<lambda>a. ip_To4 a \<noteq> None) addrs of
                  Some a \<Rightarrow> Inr (JoinHostPort (the (ip_To4 a)) port)
                | None \<Rightarrow>
                    (case addrs of
                       [] \<Rightarrow> Inl (''resolve '' @ host @ '': no addresses'')
                     | a # _ \<Rightarrow> Inr (JoinHostPort (ip_String a) port)))))"

section \<open>Envoy's hosts\<close>

record 'e directory =
  dir_Find :: "'e \<Rightarrow> string \<Rightarrow> HostPtr"
  dir_Add :: "HostSpec list \<Rightarrow> 'e \<Rightarrow> HostPtr list \<times> 'e"
  dir_Health :: "HostPtr \<Rightarrow> HostHealth \<Rightarrow> 'e \<Rightarrow> 'e"

text \<open>One pointer per specification, null when Envoy refuses; a host that was accepted is found under its
  address; hosts stay known, and their health has nothing to do with it.\<close>

definition directory_ok :: "'e directory \<Rightarrow> bool" where
  "directory_ok d \<longleftrightarrow>
     (\<forall>specs e. length (fst (dir_Add d specs e)) = length specs) \<and>
     (\<forall>specs e i. i < length specs \<and> fst (dir_Add d specs e) ! i \<noteq> 0 \<longrightarrow>
        dir_Find d (snd (dir_Add d specs e)) (Address (specs ! i)) \<noteq> 0) \<and>
     (\<forall>specs e a. dir_Find d e a \<noteq> 0 \<longrightarrow> dir_Find d (snd (dir_Add d specs e)) a = dir_Find d e a) \<and>
     (\<forall>p h e a. dir_Find d (dir_Health d p h e) a = dir_Find d e a)"

text \<open>Envoy accepts every address it is given.\<close>

definition accepts_all :: "'e directory \<Rightarrow> bool" where
  "accepts_all d \<longleftrightarrow> (\<forall>specs e. 0 \<notin> set (fst (dir_Add d specs e)))"

lemmas directory_rules = directory_ok_def accepts_all_def

text \<open>Envoy accepts one address, whenever it is offered.\<close>

definition accepts :: "'e directory \<Rightarrow> string \<Rightarrow> bool" where
  "accepts d addr \<longleftrightarrow> (\<forall>specs e i. i < length specs \<and> Address (specs ! i) = addr \<longrightarrow> fst (dir_Add d specs e) ! i \<noteq> 0)"

definition addr_spec :: "string \<Rightarrow> HostSpec" where
  "addr_spec addr = \<lparr>Address = addr, Hostname = [], Weight = 0, Metadata = []\<rparr>"

lemma addr_spec_Address [simp]: "Address (addr_spec addr) = addr"
  by (simp add: addr_spec_def)

section \<open>Making an address known\<close>

text \<open>The body of the loops: \<open>None\<close> when \<open>AddHosts\<close> returns no pointer at all.\<close>

definition ensure_host :: "'e directory \<Rightarrow> string \<Rightarrow> 'e \<Rightarrow> (HostPtr \<times> 'e) option" where
  "ensure_host d addr e =
     (let host = dir_Find d e addr
      in if host = 0
         then (case dir_Add d [addr_spec addr] e of
                 ([], e1) \<Rightarrow> None
               | (host # _, e1) \<Rightarrow> Some (host, dir_Health d host HostHealthy e1))
         else Some (host, e))"

text \<open>The loop over the addresses of a snapshot: whether it reached the end, the table of remembered hosts, and
  Envoy's state. Leaving the loop early keeps what was done so far.\<close>

fun ensure_hosts :: "'e directory \<Rightarrow> string list \<Rightarrow> (string \<rightharpoonup> HostPtr) \<Rightarrow> 'e \<Rightarrow> bool \<times> (string \<rightharpoonup> HostPtr) \<times> 'e" where
  "ensure_hosts d [] hosts e = (True, hosts, e)"
| "ensure_hosts d (addr # addrs) hosts e =
     (case ensure_host d addr e of
        None \<Rightarrow> (False, hosts, snd (dir_Add d [addr_spec addr] e))
      | Some (host, e1) \<Rightarrow> ensure_hosts d addrs (hosts(addr \<mapsto> host)) e1)"

lemma ensure_host_some:
  assumes "directory_ok d"
  shows "\<exists>host e1. ensure_host d addr e = Some (host, e1) \<and> (\<forall>a. dir_Find d e a \<noteq> 0 \<longrightarrow> dir_Find d e1 a = dir_Find d e a) \<and>
    (accepts_all d \<longrightarrow> dir_Find d e1 addr \<noteq> 0)"
proof (cases "dir_Find d e addr = 0")
  case True
  obtain ptrs e1 where a: "dir_Add d [addr_spec addr] e = (ptrs, e1)" by fastforce
  have "length ptrs = 1" using assms a unfolding directory_ok_def by (metis One_nat_def fst_conv length_Cons list.size(3))
  then obtain p where p: "ptrs = [p]" by (cases ptrs) auto
  have "\<forall>specs e i. i < length specs \<and> fst (dir_Add d specs e) ! i \<noteq> 0 \<longrightarrow>
      dir_Find d (snd (dir_Add d specs e)) (Address (specs ! i)) \<noteq> 0" using assms by (simp add: directory_ok_def)
  from this [rule_format, of 0 "[addr_spec addr]" e] have "dir_Find d e1 addr \<noteq> 0" if "p \<noteq> 0"
    using that by (simp add: a p)
  moreover have "dir_Find d e1 a' = dir_Find d e a'" if "dir_Find d e a' \<noteq> 0" for a'
    using assms a that unfolding directory_ok_def by (metis snd_conv)
  moreover have "accepts_all d \<longrightarrow> p \<noteq> 0" using a p unfolding accepts_all_def by (metis fst_conv list.set_intros(1))
  moreover have "dir_Find d (dir_Health d p HostHealthy e1) a' = dir_Find d e1 a'" for a'
    using assms unfolding directory_ok_def by blast
  ultimately show ?thesis using True a p by (auto simp: ensure_host_def)
qed (auto simp: ensure_host_def)

lemma ensure_hosts_ok:
  assumes "directory_ok d"
  shows "\<exists>hosts' e'. ensure_hosts d addrs hosts e = (True, hosts', e') \<and>
    (\<forall>a. dir_Find d e a \<noteq> 0 \<longrightarrow> dir_Find d e' a = dir_Find d e a) \<and>
    (accepts_all d \<longrightarrow> (\<forall>a\<in>set addrs. dir_Find d e' a \<noteq> 0))"
proof (induction addrs arbitrary: hosts e)
  case (Cons addr addrs)
  obtain host e1 where 1: "ensure_host d addr e = Some (host, e1)" "\<forall>a. dir_Find d e a \<noteq> 0 \<longrightarrow> dir_Find d e1 a = dir_Find d e a"
    "accepts_all d \<longrightarrow> dir_Find d e1 addr \<noteq> 0"
    using ensure_host_some [OF assms, of addr e] by blast
  obtain hosts' e' where 2: "ensure_hosts d addrs (hosts(addr \<mapsto> host)) e1 = (True, hosts', e')"
    "\<forall>a. dir_Find d e1 a \<noteq> 0 \<longrightarrow> dir_Find d e' a = dir_Find d e1 a" "accepts_all d \<longrightarrow> (\<forall>a\<in>set addrs. dir_Find d e' a \<noteq> 0)"
    using Cons.IH [of "hosts(addr \<mapsto> host)" e1] by blast
  show ?case using 1 2 by auto
qed simp

text \<open>Because \<open>AddHosts\<close> answers one pointer per address, the loop always reaches its end: the early return on an
  empty answer never happens, and a refused address is only visible as a null pointer.\<close>

lemma ensure_hosts_never_stops_early: "directory_ok d \<Longrightarrow> fst (ensure_hosts d addrs hosts e)"
  using ensure_hosts_ok [of d addrs hosts e] by auto

section \<open>A directory\<close>

text \<open>Envoy as an association list of addresses and pointers, refusing the addresses in a list.\<close>

definition list_add :: "string list \<Rightarrow> HostSpec list \<Rightarrow> (string \<times> nat) list \<Rightarrow> HostPtr list \<times> (string \<times> nat) list" where
  "list_add refused specs e =
     (if list_ex (\<lambda>s. Address s \<in> set refused) specs then (replicate (length specs) 0, e)
      else (map (\<lambda>i. Suc (length e + i)) [0..<length specs],
            e @ map (\<lambda>i. (Address (specs ! i), length e + i)) [0..<length specs]))"

definition list_directory :: "string list \<Rightarrow> (string \<times> nat) list directory" where
  "list_directory refused =
     \<lparr>dir_Find = (\<lambda>e a. case map_of e a of Some p \<Rightarrow> Suc p | None \<Rightarrow> 0), dir_Add = list_add refused, dir_Health = (\<lambda>_ _ e. e)\<rparr>"

lemma list_directory_accepts: "accepts_all (list_directory [])"
proof -
  have "\<not> list_ex (\<lambda>s :: HostSpec. False) specs" for specs by (induction specs) auto
  then show ?thesis by (auto simp: accepts_all_def list_directory_def list_add_def)
qed

lemma list_directory_accepts_addr: "accepts (list_directory []) addr"
  by (auto simp: accepts_def list_directory_def list_add_def list_ex_iff)

lemma list_add_finds:
  assumes "i < length specs" "fst (list_add refused specs e) ! i \<noteq> 0"
  shows "map_of (snd (list_add refused specs e)) (Address (specs ! i)) \<noteq> None"
proof -
  have "\<not> list_ex (\<lambda>s. Address s \<in> set refused) specs" using assms by (auto simp: list_add_def split: if_splits)
  then have "(Address (specs ! i), length e + i) \<in> set (snd (list_add refused specs e))" using assms(1) by (simp add: list_add_def)
  then show ?thesis by (metis fst_conv image_eqI map_of_eq_None_iff)
qed

lemma list_directory_ok: "directory_ok (list_directory refused)"
proof -
  have "length (fst (list_add refused specs e)) = length specs" for specs e by (simp add: list_add_def)
  moreover have "map_of (snd (list_add refused specs e)) a = map_of e a" if "map_of e a \<noteq> None" for specs e a
    using that by (auto simp: list_add_def map_add_def split: option.splits)
  ultimately show ?thesis
    unfolding directory_ok_def list_directory_def using list_add_finds [of _ _ refused] by (fastforce split: option.splits)
qed

text \<open>A balancer's handle with a given lookup, and a context with given headers, for the examples.\<close>

definition plain_handle :: "(string \<Rightarrow> HostPtr) \<Rightarrow> ClusterLBHandle" where
  "plain_handle look = (dymClusterLBHandle (\<lambda>_. CHR 0x00) (ps_calls (\<lambda>_. zero_buffer) [] (\<lambda>_. [])))\<lparr>FindHostByAddress := look\<rparr>"

definition plain_context :: "(string \<rightharpoonup> string) \<Rightarrow> LBContext" where
  "plain_context hs = \<lparr>GetAllHeaders = Inr [], GetOverrideHost = ([], False),
     GetHeader = (\<lambda>k. case hs k of Some v \<Rightarrow> (v, True) | None \<Rightarrow> ([], False)), ComputeHashKey = (0, False),
     GetHostSelectionRetryCount = 0, ShouldSelectAnotherHost = (\<lambda>_ _ _. False)\<rparr>"

lemma plain_simps [simp]:
  "FindHostByAddress (plain_handle look) = look"
  "GetHeader (plain_context hs) k = (case hs k of Some v \<Rightarrow> (v, True) | None \<Rightarrow> ([], False))"
  by (simp_all add: plain_handle_def plain_context_def)

end
