(* ===== verification/Body_Router.thy ===== *)
theory Body_Router
  imports Host_Selection Route_Hosts
begin

text \<open>
  The body router of \<^verbatim>\<open>src/examples/cluster-async-router\<close>: the upstream of a request is named by its body, which
  arrives after Envoy has asked for a host. The filter mints a token and registers a pending decision under it;
  the balancer finds the decision by the token and suspends the request; a goroutine waits for the body, and the
  main thread completes the selection. The streams, goroutines and balancers share one registry, so the model
  holds all of them and interleaves their steps. A pointer to a decision or a completion is its index in a list.
  \<open>Resolve\<close> publishes the result and then closes the channel; the only reader waits for the channel, so both are one
  step. What \<open>encoding/json\<close> makes of a body is a parameter.
\<close>

section \<open>Pending decisions\<close>

record BodyResult =
  res_Upstream :: string
  res_Err :: string

record Pending =
  pd_res :: "BodyResult option"
  pd_done :: bool

definition newPending :: Pending where
  "newPending = \<lparr>pd_res = None, pd_done = False\<rparr>"

definition pending_Resolve :: "BodyResult \<Rightarrow> Pending \<Rightarrow> bool \<times> Pending" where
  "pending_Resolve r p = (case pd_res p of None \<Rightarrow> (True, p\<lparr>pd_res := Some r, pd_done := True\<rparr>) | Some _ \<Rightarrow> (False, p))"

definition pending_Result :: "Pending \<Rightarrow> BodyResult \<times> bool" where
  "pending_Result p = (case pd_res p of None \<Rightarrow> (\<lparr>res_Upstream = [], res_Err = []\<rparr>, False) | Some r \<Rightarrow> (r, True))"

text \<open>\<open>unmarshal\<close> answers the \<open>target\<close> of a JSON object, empty if it has none, and nothing for any other text.\<close>

definition ExtractTarget :: "(bytes \<Rightarrow> string option) \<Rightarrow> bytes \<Rightarrow> string + string" where
  "ExtractTarget unmarshal data =
     (if data = [] then Inl ''empty body''
      else case unmarshal data of
             None \<Rightarrow> Inl ''invalid json''
           | Some target \<Rightarrow> if target = [] then Inl ''missing target'' else Inr target)"

section \<open>The state\<close>

text \<open>The goroutine \<open>waitAndComplete\<close>, by the place it has reached: waiting for the channel, before the lock, after
  it, returned. The arguments are the balancer, the token, the decision and the completion.\<close>

datatype waiter =
    Parked nat string nat nat
  | Deleted nat nat nat
  | Alive nat nat
  | Returned

text \<open>A completion is stored with the stream whose request it suspends. \<open>br_scheduled\<close> are the functions waiting for
  the main thread, \<open>br_cancels\<close> the calls of \<open>CancelHostSelection\<close> that Envoy's callback has still to make. The last
  two fields are a log: the bodies that were parsed, and the calls made on Envoy and the balancer.\<close>

record body_router =
  br_tokenSeq :: uint64
  br_registry :: "string \<rightharpoonup> nat"
  br_pendings :: "Pending list"
  br_contexts :: "(nat \<times> string \<times> nat) list"
  br_filterState :: "nat \<rightharpoonup> string"
  br_waiters :: "nat \<Rightarrow> nat set"
  br_comps :: "(nat \<times> completion) list"
  br_tasks :: "waiter list"
  br_scheduled :: "(nat \<times> HostPtr \<times> string) list"
  br_cancels :: "(nat \<times> nat) list"
  br_parsed :: "(nat \<times> bytes) list"
  br_calls :: "(nat \<times> lb_call) list"

definition new_body_router :: body_router where
  "new_body_router = \<lparr>br_tokenSeq = 0, br_registry = Map.empty, br_pendings = [], br_contexts = [], br_filterState = Map.empty,
     br_waiters = (\<lambda>_. {}), br_comps = [], br_tasks = [], br_scheduled = [], br_cancels = [], br_parsed = [], br_calls = []\<rparr>"

section \<open>The filter\<close>

definition digit36 :: "nat \<Rightarrow> char" where
  "digit36 d = ''0123456789abcdefghijklmnopqrstuvwxyz'' ! d"

fun FormatUint36 :: "nat \<Rightarrow> string" where
  "FormatUint36 n = (if n < 36 then [digit36 n] else FormatUint36 (n div 36) @ [digit36 (n mod 36)])"

declare FormatUint36.simps [simp del]

definition token_of :: "uint64 \<Rightarrow> string" where
  "token_of n = ''tr-'' @ FormatUint36 (unat n)"

definition mintToken :: "body_router \<Rightarrow> string \<times> body_router" where
  "mintToken s = (let n = br_tokenSeq s + 1 in (token_of n, s\<lparr>br_tokenSeq := n\<rparr>))"

definition pending_Register :: "string \<Rightarrow> body_router \<Rightarrow> nat \<times> body_router" where
  "pending_Register token s =
     (case br_registry s token of
        Some p \<Rightarrow> (p, s)
      | None \<Rightarrow> (let p = length (br_pendings s)
                 in (p, s\<lparr>br_registry := (br_registry s)(token \<mapsto> p), br_pendings := br_pendings s @ [newPending]\<rparr>)))"

definition pending_Lookup :: "string \<Rightarrow> body_router \<Rightarrow> nat option" where
  "pending_Lookup token s = br_registry s token"

definition pending_Delete :: "string \<Rightarrow> body_router \<Rightarrow> body_router" where
  "pending_Delete token s = s\<lparr>br_registry := (br_registry s)(token := None)\<rparr>"

text \<open>\<open>has_context\<close>: the request carries the stream's context slot.\<close>

definition br_requestHandler :: "nat \<Rightarrow> bool \<Rightarrow> body_router \<Rightarrow> body_router" where
  "br_requestHandler st has_context s =
     (if \<not> has_context then s
      else let (token, s1) = mintToken s; (p, s2) = pending_Register token s1
           in s2\<lparr>br_contexts := br_contexts s2 @ [(st, token, p)], br_filterState := (br_filterState s2)(st \<mapsto> token)\<rparr>)"

definition target_result :: "(bytes \<Rightarrow> string option) \<Rightarrow> bytes \<Rightarrow> BodyResult" where
  "target_result unmarshal data =
     (case ExtractTarget unmarshal data of
        Inl err \<Rightarrow> \<lparr>res_Upstream = [], res_Err = err\<rparr>
      | Inr target \<Rightarrow> \<lparr>res_Upstream = target, res_Err = []\<rparr>)"

definition br_bodyHandler :: "(bytes \<Rightarrow> string option) \<Rightarrow> nat \<Rightarrow> bytes \<Rightarrow> bool \<Rightarrow> body_router \<Rightarrow> body_router" where
  "br_bodyHandler unmarshal st data end_stream s =
     (if \<not> end_stream then s
      else case map_of (br_contexts s) st of
             None \<Rightarrow> s
           | Some (token, p) \<Rightarrow>
               s\<lparr>br_pendings := (br_pendings s)[p := snd (pending_Resolve (target_result unmarshal data) (br_pendings s ! p))],
                 br_parsed := br_parsed s @ [(st, data)]\<rparr>)"

section \<open>The cluster\<close>

record hostEntry =
  he_Name :: string
  he_Address :: string
  he_SNI :: string
  he_Bucket :: string

fun check_host_entries :: "nat \<Rightarrow> hostEntry list \<Rightarrow> string option" where
  "check_host_entries i [] = None"
| "check_host_entries i (h # hs) =
     (if he_Name h = [] \<or> he_Address h = [] then Some (''cluster-async-router: host '' @ Itoa i @ '' requires name and address'')
      else check_host_entries (Suc i) hs)"

definition async_factory_Create :: "(bytes \<Rightarrow> string + hostEntry list) \<Rightarrow> bytes \<Rightarrow> string + hostEntry list" where
  "async_factory_Create unmarshal cfg =
     (if cfg = [] then Inl ''cluster-async-router: config required''
      else case unmarshal cfg of
             Inl err \<Rightarrow> Inl (''cluster-async-router: parse config: '' @ err)
           | Inr [] \<Rightarrow> Inl ''cluster-async-router: config must include at least one host''
           | Inr hosts \<Rightarrow> (case check_host_entries 0 hosts of Some err \<Rightarrow> Inl err | None \<Rightarrow> Inr hosts))"

text \<open>\<open>resolveHostAddr\<close>: \<open>is_ip\<close> is \<^verbatim>\<open>net.ParseIP\<close>, \<open>lookup\<close> the resolver (\<open>None\<close> for an error).\<close>

definition resolveHostAddr :: "(string \<Rightarrow> string + string \<times> string) \<Rightarrow> (string \<Rightarrow> bool) \<Rightarrow> (string \<Rightarrow> string list option) \<Rightarrow> string \<Rightarrow> string" where
  "resolveHostAddr split is_ip lookup addr =
     (case split addr of
        Inl _ \<Rightarrow> addr
      | Inr (host, port) \<Rightarrow>
          if is_ip host then addr
          else case lookup host of
                 None \<Rightarrow> addr
               | Some [] \<Rightarrow> addr
               | Some (ip # _) \<Rightarrow> JoinHostPort ip port)"

definition entry_spec :: "(string \<Rightarrow> string) \<Rightarrow> hostEntry \<Rightarrow> HostSpec" where
  "entry_spec resolve he =
     \<lparr>Address = resolve (he_Address he), Hostname = he_SNI he, Weight = 0,
      Metadata = (if he_SNI he \<noteq> [] then [(''sni'', he_SNI he)] else []) @ (if he_Bucket he \<noteq> [] then [(''bucket'', he_Bucket he)] else [])\<rparr>"

text \<open>\<open>Init\<close>, over Envoy's hosts: the table of names, and Envoy's state.\<close>

fun async_Init :: "'e directory \<Rightarrow> (string \<Rightarrow> string) \<Rightarrow> hostEntry list \<Rightarrow> (string \<rightharpoonup> HostPtr) \<Rightarrow> 'e \<Rightarrow> (string \<rightharpoonup> HostPtr) \<times> 'e" where
  "async_Init d resolve [] byName e = (byName, e)"
| "async_Init d resolve (he # hs) byName e =
     (case dir_Add d [entry_spec resolve he] e of
        ([], e1) \<Rightarrow> async_Init d resolve hs byName e1
      | (p # _, e1) \<Rightarrow> async_Init d resolve hs (byName(he_Name he \<mapsto> p)) (dir_Health d p HostHealthy e1))"

section \<open>The balancer\<close>

text \<open>\<open>ctx\<close> is what \<open>GetFilterState\<close> answers for the token's key, if there is a context. The answer is the completion.\<close>

definition br_ChooseHost :: "nat \<Rightarrow> nat \<Rightarrow> string option option \<Rightarrow> body_router \<Rightarrow> nat option \<times> body_router" where
  "br_ChooseHost lb st ctx s =
     (case ctx of
        None \<Rightarrow> (None, s)
      | Some None \<Rightarrow> (None, s)
      | Some (Some token) \<Rightarrow>
          if token = [] then (None, s)
          else case pending_Lookup token s of
                 None \<Rightarrow> (None, s)
               | Some p \<Rightarrow>
                   (let c = length (br_comps s)
                    in (Some c, s\<lparr>br_comps := br_comps s @ [(st, NewCompletion)],
                                  br_waiters := (br_waiters s)(lb := insert c (br_waiters s lb)),
                                  br_tasks := br_tasks s @ [Parked lb token p c]\<rparr>)))"

text \<open>The function that \<open>waitAndComplete\<close> schedules: the arguments of its call of \<open>Complete\<close>.\<close>

definition decision :: "(string \<rightharpoonup> HostPtr) \<Rightarrow> BodyResult \<Rightarrow> HostPtr \<times> string" where
  "decision byName res =
     (if res_Err res \<noteq> [] then (0, res_Err res)
      else let host = (case byName (res_Upstream res) of None \<Rightarrow> 0 | Some h \<Rightarrow> h)
           in if host = 0 then (0, ''unknown_upstream'') else (host, []))"

text \<open>One stretch of the goroutine: from the channel to the lock, the locked part, and the rest.\<close>

definition advance_waiter :: "(string \<rightharpoonup> HostPtr) \<Rightarrow> nat \<Rightarrow> body_router \<Rightarrow> body_router" where
  "advance_waiter byName i s =
     (if length (br_tasks s) \<le> i then s
      else case br_tasks s ! i of
        Parked lb token p c \<Rightarrow>
          (if pd_done (br_pendings s ! p) then (pending_Delete token s)\<lparr>br_tasks := (br_tasks s)[i := Deleted lb p c]\<rparr> else s)
      | Deleted lb p c \<Rightarrow>
          s\<lparr>br_waiters := (br_waiters s)(lb := br_waiters s lb - {c}),
            br_tasks := (br_tasks s)[i := if c \<in> br_waiters s lb then Alive p c else Returned]\<rparr>
      | Alive p c \<Rightarrow>
          s\<lparr>br_scheduled := br_scheduled s @ [(c, decision byName (fst (pending_Result (br_pendings s ! p))))],
            br_tasks := (br_tasks s)[i := Returned]\<rparr>
      | Returned \<Rightarrow> s)"

text \<open>The main thread runs the next scheduled function.\<close>

definition br_run_scheduled :: "body_router \<Rightarrow> body_router" where
  "br_run_scheduled s =
     (case br_scheduled s of
        [] \<Rightarrow> s
      | (c, host, err) # rest \<Rightarrow>
          (let (won, comp', fns) = completion_Complete host err (snd (br_comps s ! c))
           in s\<lparr>br_scheduled := rest, br_comps := (br_comps s)[c := (fst (br_comps s ! c), comp')],
                br_calls := br_calls s @ map (Pair c) fns\<rparr>))"

text \<open>Envoy cancels: the completion decides, and if the cancellation wins the balancer is told.\<close>

definition cancel_selection :: "nat \<Rightarrow> nat \<Rightarrow> body_router \<Rightarrow> body_router" where
  "cancel_selection lb c s =
     (let (won, comp', fns) = completion_Cancel (snd (br_comps s ! c))
      in if won then s\<lparr>br_comps := (br_comps s)[c := (fst (br_comps s ! c), comp')], br_calls := br_calls s @ map (Pair c) fns,
                       br_cancels := br_cancels s @ [(lb, c)]\<rparr>
         else s)"

definition br_CancelHostSelection :: "body_router \<Rightarrow> body_router" where
  "br_CancelHostSelection s =
     (case br_cancels s of
        [] \<Rightarrow> s
      | (lb, c) # rest \<Rightarrow>
          s\<lparr>br_cancels := rest, br_waiters := (br_waiters s)(lb := br_waiters s lb - {c}),
            br_calls := br_calls s @ [(c, SelectorCancel)]\<rparr>)"

section \<open>Interleavings\<close>

text \<open>A stream has one headers callback. Everything else may happen at any time, any number of times.\<close>

inductive br_step :: "(bytes \<Rightarrow> string option) \<Rightarrow> (string \<rightharpoonup> HostPtr) \<Rightarrow> body_router \<Rightarrow> body_router \<Rightarrow> bool" for u byName where
  headers: "map_of (br_contexts s) st = None \<Longrightarrow> br_step u byName s (br_requestHandler st has_context s)"
| body: "br_step u byName s (br_bodyHandler u st data end_stream s)"
| choose: "ctx = None \<or> ctx = Some (br_filterState s st) \<Longrightarrow> br_step u byName s (snd (br_ChooseHost lb st ctx s))"
| advance: "br_step u byName s (advance_waiter byName i s)"
| main: "br_step u byName s (br_run_scheduled s)"
| cancel: "c < length (br_comps s) \<Longrightarrow> br_step u byName s (cancel_selection lb c s)"
| told: "br_step u byName s (br_CancelHostSelection s)"

inductive br_run :: "(bytes \<Rightarrow> string option) \<Rightarrow> (string \<rightharpoonup> HostPtr) \<Rightarrow> body_router \<Rightarrow> body_router \<Rightarrow> bool" for u byName where
  br_refl: "br_run u byName s s"
| br_trans: "br_run u byName s s' \<Longrightarrow> br_step u byName s' s'' \<Longrightarrow> br_run u byName s s''"

section \<open>Tokens\<close>

lemma digit36_inj: "a < 36 \<Longrightarrow> b < 36 \<Longrightarrow> digit36 a = digit36 b \<Longrightarrow> a = b"
proof -
  have "distinct ''0123456789abcdefghijklmnopqrstuvwxyz''" by simp
  then show "a < 36 \<Longrightarrow> b < 36 \<Longrightarrow> digit36 a = digit36 b \<Longrightarrow> a = b"
    unfolding digit36_def by (subst (asm) nth_eq_iff_index_eq) auto
qed

lemma FormatUint36_nonempty: "FormatUint36 n \<noteq> []" "[] \<noteq> FormatUint36 n"
  by (subst FormatUint36.simps, simp)+

lemma FormatUint36_inj: "FormatUint36 m = FormatUint36 n \<Longrightarrow> m = n"
proof (induction m arbitrary: n rule: FormatUint36.induct)
  case (1 m)
  have split: "FormatUint36 k = (if k < 36 then [] else FormatUint36 (k div 36)) @ [digit36 (k mod 36)]" for k
    by (subst FormatUint36.simps) simp
  have eq: "(if m < 36 then [] else FormatUint36 (m div 36)) = (if n < 36 then [] else FormatUint36 (n div 36))"
      "digit36 (m mod 36) = digit36 (n mod 36)"
    using "1.prems" split [of m] split [of n] by simp_all
  have last: "m mod 36 = n mod 36" using digit36_inj eq(2) by simp
  show ?case
  proof (cases "m < 36")
    case True
    then show ?thesis using eq(1) last FormatUint36_nonempty by (auto split: if_splits)
  next
    case False
    then have "FormatUint36 (m div 36) = FormatUint36 (n div 36)" using eq(1) FormatUint36_nonempty by (auto split: if_splits)
    then have "m div 36 = n div 36" by (rule "1.IH" [OF False])
    then show ?thesis using last by (metis div_mult_mod_eq)
  qed
qed

lemma token_of_inj: "token_of m = token_of n \<longleftrightarrow> m = n"
  using FormatUint36_inj [of "unat m" "unat n"] by (auto simp: token_of_def word_unat_eq_iff)

lemma token_of_nonempty: "token_of n \<noteq> []"
  by (simp add: token_of_def)

section \<open>Invariant\<close>

text \<open>What a decision holds after the parsed bodies: the result of the first.\<close>

definition pending_after :: "(bytes \<Rightarrow> string option) \<Rightarrow> bytes option \<Rightarrow> Pending" where
  "pending_after u b = (case b of None \<Rightarrow> newPending | Some d \<Rightarrow> \<lparr>pd_res = Some (target_result u d), pd_done = True\<rparr>)"

definition streams_ok :: "(bytes \<Rightarrow> string option) \<Rightarrow> body_router \<Rightarrow> bool" where
  "streams_ok u s \<longleftrightarrow>
     length (br_pendings s) = length (br_contexts s) \<and> unat (br_tokenSeq s) = length (br_contexts s) \<and>
     distinct (map fst (br_contexts s)) \<and>
     (\<forall>p<length (br_contexts s). snd (br_contexts s ! p) = (token_of (of_nat (Suc p)), p)) \<and>
     (\<forall>tok p. br_registry s tok = Some p \<longrightarrow> p < length (br_contexts s) \<and> tok = token_of (of_nat (Suc p))) \<and>
     (\<forall>st tok p. (st, tok, p) \<in> set (br_contexts s) \<longrightarrow> br_pendings s ! p = pending_after u (map_of (br_parsed s) st)) \<and>
     (\<forall>st. map_of (br_contexts s) st = None \<longrightarrow> map_of (br_parsed s) st = None) \<and>
     (\<forall>st tok. br_filterState s st = Some tok \<longrightarrow> (\<exists>p. (st, tok, p) \<in> set (br_contexts s)))"

definition owner_of :: "body_router \<Rightarrow> nat \<Rightarrow> nat" where
  "owner_of s c = fst (br_comps s ! c)"

text \<open>A completion of a stream carries what that stream's first body decides.\<close>

definition decided :: "(bytes \<Rightarrow> string option) \<Rightarrow> (string \<rightharpoonup> HostPtr) \<Rightarrow> body_router \<Rightarrow> nat \<Rightarrow> HostPtr \<times> string \<Rightarrow> bool" where
  "decided u byName s c he \<longleftrightarrow> c < length (br_comps s) \<and>
     (\<exists>d. map_of (br_parsed s) (owner_of s c) = Some d \<and> he = decision byName (target_result u d))"

fun task_ok :: "body_router \<Rightarrow> waiter \<Rightarrow> bool" where
  "task_ok s (Parked lb tok p c) \<longleftrightarrow> c < length (br_comps s) \<and> (owner_of s c, tok, p) \<in> set (br_contexts s)"
| "task_ok s (Deleted lb p c) \<longleftrightarrow> c < length (br_comps s) \<and> (\<exists>tok. (owner_of s c, tok, p) \<in> set (br_contexts s)) \<and>
     map_of (br_parsed s) (owner_of s c) \<noteq> None"
| "task_ok s (Alive p c) \<longleftrightarrow> c < length (br_comps s) \<and> (\<exists>tok. (owner_of s c, tok, p) \<in> set (br_contexts s)) \<and>
     map_of (br_parsed s) (owner_of s c) \<noteq> None"
| "task_ok s Returned \<longleftrightarrow> True"

definition selections_ok :: "(bytes \<Rightarrow> string option) \<Rightarrow> (string \<rightharpoonup> HostPtr) \<Rightarrow> body_router \<Rightarrow> bool" where
  "selections_ok u byName s \<longleftrightarrow>
     (\<forall>t\<in>set (br_tasks s). task_ok s t) \<and>
     (\<forall>(c, he)\<in>set (br_scheduled s). decided u byName s c he) \<and>
     (\<forall>c h e. (c, CompleteFn h e) \<in> set (br_calls s) \<longrightarrow> decided u byName s c (h, e))"

text \<open>What later steps keep: the streams, the owners of completions, and the first body of a stream.\<close>

definition continues :: "body_router \<Rightarrow> body_router \<Rightarrow> bool" where
  "continues s s' \<longleftrightarrow> (\<exists>cs. br_contexts s' = br_contexts s @ cs) \<and> (\<exists>bs. br_parsed s' = br_parsed s @ bs) \<and>
     length (br_comps s) \<le> length (br_comps s') \<and> (\<forall>c<length (br_comps s). owner_of s' c = owner_of s c)"

lemmas br_ops = br_requestHandler_def mintToken_def pending_Register_def br_bodyHandler_def br_ChooseHost_def
  advance_waiter_def pending_Delete_def br_run_scheduled_def cancel_selection_def br_CancelHostSelection_def

lemma continues_refl [simp]: "continues s s"
  by (simp add: continues_def)

lemma fst_update_snd [simp]: "fst (xs[i := (fst (xs ! i), y)] ! j) = fst (xs ! j)"
  by (cases "i < length xs"; cases "i = j") (simp_all add: list_update_beyond)

lemma step_continues: "br_step u byName s s' \<Longrightarrow> continues s s'"
  by (induction rule: br_step.induct)
    (auto simp: continues_def br_ops owner_of_def Let_def nth_append nth_list_update completion_Complete_def completion_Cancel_def
      split: option.splits waiter.splits list.splits prod.splits if_splits)


lemma run_continues: "br_run u byName s s' \<Longrightarrow> continues s s'"
proof (induction rule: br_run.induct)
  case (br_trans s s' s'')
  then show ?case using step_continues [OF br_trans(2)] by (auto simp: continues_def)
qed simp

lemma continues_parsed: "continues s s' \<Longrightarrow> map_of (br_parsed s) st = Some d \<Longrightarrow> map_of (br_parsed s') st = Some d"
  by (auto simp: continues_def map_add_def)

lemma continues_decided: "continues s s' \<Longrightarrow> decided u byName s c he \<Longrightarrow> decided u byName s' c he"
  by (auto simp: decided_def continues_parsed) (auto simp: continues_def map_add_def)

lemma continues_task_ok: "continues s s' \<Longrightarrow> task_ok s t \<Longrightarrow> task_ok s' t"
  using continues_parsed [of s s'] by (cases t) (auto simp: continues_def)

lemma streams_ok_entry:
  assumes "streams_ok u s" "(st, tok, p) \<in> set (br_contexts s)"
  shows "p < length (br_contexts s)" "tok = token_of (of_nat (Suc p))" "map_of (br_contexts s) st = Some (tok, p)"
    "br_contexts s ! p = (st, tok, p)"
proof -
  obtain i where i: "i < length (br_contexts s)" "br_contexts s ! i = (st, tok, p)" using assms(2) by (auto simp: in_set_conv_nth)
  then have "(tok, p) = (token_of (of_nat (Suc i)), i)" using assms(1) unfolding streams_ok_def by (metis snd_conv)
  then show "p < length (br_contexts s)" "tok = token_of (of_nat (Suc p))" "br_contexts s ! p = (st, tok, p)" using i by auto
  show "map_of (br_contexts s) st = Some (tok, p)" using assms by (simp add: streams_ok_def)
qed

lemma streams_ok_same:
  assumes "streams_ok u s" "br_contexts s' = br_contexts s" "br_pendings s' = br_pendings s" "br_tokenSeq s' = br_tokenSeq s"
    "br_parsed s' = br_parsed s" "br_filterState s' = br_filterState s" "br_registry s' \<subseteq>\<^sub>m br_registry s"
  shows "streams_ok u s'"
proof -
  have "br_registry s tok = Some p" if "br_registry s' tok = Some p" for tok p
    using assms(7) that by (metis domI map_le_def)
  then show ?thesis using assms(1) unfolding streams_ok_def assms(2-6) by blast
qed

lemma streams_ok_body:
  assumes "streams_ok u s"
  shows "streams_ok u (br_bodyHandler u st data end_stream s)"
proof (cases "end_stream \<and> map_of (br_contexts s) st \<noteq> None")
  case True
  then obtain tok p where m: "map_of (br_contexts s) st = Some (tok, p)" by auto
  let ?s = "br_bodyHandler u st data end_stream s"
  have s': "?s = s\<lparr>br_pendings := (br_pendings s)[p := snd (pending_Resolve (target_result u data) (br_pendings s ! p))],
      br_parsed := br_parsed s @ [(st, data)]\<rparr>" using True m by (simp add: br_bodyHandler_def)
  have e: "(st, tok, p) \<in> set (br_contexts s)" using m by (rule map_of_SomeD)
  have "br_pendings ?s ! q = pending_after u (map_of (br_parsed ?s) st')" if "(st', tok', q) \<in> set (br_contexts s)" for st' tok' q
  proof (cases "st' = st")
    case True
    then have q: "q = p" using streams_ok_entry(3) [OF assms that] m by simp
    have "p < length (br_pendings s)" using streams_ok_entry(1) [OF assms e] assms by (simp add: streams_ok_def)
    moreover have "br_pendings s ! p = pending_after u (map_of (br_parsed s) st)" using assms e unfolding streams_ok_def by blast
    ultimately show ?thesis using True q
      by (auto simp: s' pending_after_def pending_Resolve_def newPending_def map_add_def split: option.splits)
  next
    case False
    then have "q \<noteq> p" using streams_ok_entry(4) [OF assms that] streams_ok_entry(4) [OF assms e] by auto
    moreover have "br_pendings s ! q = pending_after u (map_of (br_parsed s) st')" using assms that unfolding streams_ok_def by blast
    ultimately show ?thesis using False by (simp add: s' map_add_def split: option.split)
  qed
  then show ?thesis using assms m by (auto simp: streams_ok_def s' map_add_def split: option.splits)
qed (use assms in \<open>auto simp: br_bodyHandler_def split: option.splits\<close>)


lemma streams_ok_headers:
  assumes "streams_ok u s" "map_of (br_contexts s) st = None" "length (br_contexts (br_requestHandler st has_context s)) < 2 ^ 64"
  shows "streams_ok u (br_requestHandler st has_context s)"
proof (cases has_context)
  case True
  let ?n = "length (br_contexts s)"
  let ?tok = "token_of (of_nat (Suc ?n))"
  have n: "Suc ?n < 2 ^ 64" using assms(3) True by (auto simp: br_ops Let_def split: option.splits)
  have seq: "br_tokenSeq s = of_nat ?n" using assms(1) by (metis streams_ok_def of_nat_unat ucast_id)
  have fresh: "br_registry s ?tok = None"
  proof (rule ccontr)
    assume "br_registry s ?tok \<noteq> None"
    then obtain p where "p < ?n" "?tok = token_of (of_nat (Suc p))" using assms(1) unfolding streams_ok_def by blast
    then show False using n by (auto simp: token_of_inj word_unat_eq_iff unat_of_nat simp del: of_nat_Suc)
  qed
  have s': "br_requestHandler st has_context s = s\<lparr>br_tokenSeq := of_nat (Suc ?n), br_registry := (br_registry s)(?tok \<mapsto> ?n),
      br_pendings := br_pendings s @ [newPending], br_contexts := br_contexts s @ [(st, ?tok, ?n)],
      br_filterState := (br_filterState s)(st \<mapsto> ?tok)\<rparr>"
    using True fresh seq assms(1) by (simp add: br_ops Let_def streams_ok_def add.commute)
  have "(br_pendings s @ [newPending]) ! p = pending_after u (map_of (br_parsed s) st')"
    if "(st', tok, p) \<in> set (br_contexts s @ [(st, ?tok, ?n)])" for st' tok p
  proof (cases "(st', tok, p) \<in> set (br_contexts s)")
    case True
    then show ?thesis using streams_ok_entry(1) [OF assms(1) True] assms(1) by (simp add: streams_ok_def nth_append)
  next
    case False
    then have "st' = st" "p = ?n" using that by auto
    moreover have "map_of (br_parsed s) st = None" using assms(1,2) by (simp add: streams_ok_def)
    ultimately show ?thesis using assms(1) by (simp add: streams_ok_def pending_after_def nth_append)
  qed
  moreover have "st \<notin> fst ` set (br_contexts s)" using assms(2) by (simp add: map_of_eq_None_iff)
  moreover have "unat (of_nat (Suc ?n) :: uint64) = Suc ?n" using n by (simp add: unat_of_nat del: of_nat_Suc)
  ultimately show ?thesis using assms(1)
    by (auto simp: streams_ok_def s' nth_append less_Suc_eq map_add_def simp del: of_nat_Suc split: option.splits)
qed (use assms in \<open>simp add: br_requestHandler_def\<close>)

lemma streams_ok_step:
  assumes "br_step u byName s s'" "streams_ok u s" "length (br_contexts s') < 2 ^ 64"
  shows "streams_ok u s'"
  using assms
proof (induction rule: br_step.induct)
  case (headers s st has_context)
  then show ?case by (simp add: streams_ok_headers)
next
  case (body s st data end_stream)
  then show ?case by (simp add: streams_ok_body)
next
  case (choose ctx s st lb)
  then show ?case by (elim streams_ok_same) (auto simp: br_ChooseHost_def Let_def split: option.split)
next
  case (advance s i)
  then show ?case by (elim streams_ok_same) (auto simp: advance_waiter_def pending_Delete_def map_le_def split: waiter.split)
next
  case (main s)
  then show ?case by (elim streams_ok_same) (auto simp: br_run_scheduled_def Let_def split: list.split prod.split)
next
  case (cancel c s lb)
  then show ?case by (elim streams_ok_same) (auto simp: cancel_selection_def Let_def split: prod.split)
next
  case (told s)
  then show ?case by (elim streams_ok_same) (auto simp: br_CancelHostSelection_def split: list.split prod.split)
qed


lemma registered_entry:
  assumes "streams_ok u s" "length (br_contexts s) < 2 ^ 64" "br_filterState s st = Some tok" "br_registry s tok = Some p"
  shows "(st, tok, p) \<in> set (br_contexts s)"
proof -
  obtain q where q: "(st, tok, q) \<in> set (br_contexts s)" using assms(1,3) unfolding streams_ok_def by blast
  have "p < length (br_contexts s)" "tok = token_of (of_nat (Suc p))" using assms(1,4) unfolding streams_ok_def by blast+
  moreover have "q < length (br_contexts s)" "tok = token_of (of_nat (Suc q))" using streams_ok_entry [OF assms(1) q] by blast+
  ultimately have "p = q" using assms(2)
    by (auto simp: token_of_inj word_unat_eq_iff unat_of_nat simp del: of_nat_Suc)
  then show ?thesis using q by simp
qed

lemma selections_ok_continues:
  assumes "selections_ok u byName s" "continues s s'"
    "\<And>t. t \<in> set (br_tasks s') \<Longrightarrow> t \<in> set (br_tasks s) \<or> task_ok s' t"
    "\<And>c he. (c, he) \<in> set (br_scheduled s') \<Longrightarrow> (c, he) \<in> set (br_scheduled s) \<or> decided u byName s' c he"
    "\<And>c h e. (c, CompleteFn h e) \<in> set (br_calls s') \<Longrightarrow> (c, CompleteFn h e) \<in> set (br_calls s) \<or> decided u byName s c (h, e)"
  shows "selections_ok u byName s'"
  unfolding selections_ok_def
proof (intro conjI ballI allI impI)
  show "task_ok s' t" if "t \<in> set (br_tasks s')" for t
    using assms(3) [OF that] assms(1) continues_task_ok [OF assms(2)] by (auto simp: selections_ok_def)
  show "case x of (c, he) \<Rightarrow> decided u byName s' c he" if "x \<in> set (br_scheduled s')" for x
    using assms(4) [of "fst x" "snd x"] that assms(1) continues_decided [OF assms(2)] by (cases x) (auto simp: selections_ok_def)
  show "decided u byName s' c (h, e)" if "(c, CompleteFn h e) \<in> set (br_calls s')" for c h e
    using assms(5) [OF that] assms(1) continues_decided [OF assms(2)] by (auto simp: selections_ok_def)
qed

lemma task_decision:
  assumes "streams_ok u s" "c < length (br_comps s)" "(owner_of s c, tok, p) \<in> set (br_contexts s)" "map_of (br_parsed s) (owner_of s c) \<noteq> None"
  shows "decided u byName s c (decision byName (fst (pending_Result (br_pendings s ! p))))"
proof -
  have "br_pendings s ! p = pending_after u (map_of (br_parsed s) (owner_of s c))" using assms(1,3) unfolding streams_ok_def by blast
  then show ?thesis using assms(2,4) by (auto simp: decided_def pending_after_def pending_Result_def)
qed

lemma selections_ok_advance:
  assumes "streams_ok u s" "selections_ok u byName s"
  shows "selections_ok u byName (advance_waiter byName i s)"
proof (cases "i < length (br_tasks s)")
  case True
  let ?s = "advance_waiter byName i s"
  have ext: "continues s ?s" by (rule step_continues [OF br_step.advance])
  have ok: "task_ok s (br_tasks s ! i)" using assms(2) True by (simp add: selections_ok_def)
  have upd: "t \<in> set ((br_tasks s)[i := t']) \<Longrightarrow> t = t' \<or> t \<in> set (br_tasks s)" for t t'
    using set_update_subset_insert by fastforce
  show ?thesis
  proof (rule selections_ok_continues [OF assms(2) ext])
    fix t assume t: "t \<in> set (br_tasks ?s)"
    show "t \<in> set (br_tasks s) \<or> task_ok ?s t"
    proof (cases "br_tasks s ! i")
      case (Parked lb tok p c)
      have "pd_done (br_pendings s ! p) \<Longrightarrow> map_of (br_parsed s) (owner_of s c) \<noteq> None"
        using ok Parked assms(1) unfolding streams_ok_def
        by (auto simp: pending_after_def newPending_def split: option.splits)
      then have "pd_done (br_pendings s ! p) \<Longrightarrow> task_ok ?s (Deleted lb p c)"
        using ok Parked by (intro continues_task_ok [OF ext]) auto
      then show ?thesis using t Parked True upd by (fastforce simp: advance_waiter_def split: if_splits)
    next
      case (Deleted lb p c)
      then have "task_ok ?s (Alive p c)" using ok by (intro continues_task_ok [OF ext]) auto
      then show ?thesis using t Deleted True upd by (fastforce simp: advance_waiter_def split: if_splits)
    qed (use t True upd in \<open>fastforce simp: advance_waiter_def\<close>)+
  next
    fix c he assume he: "(c, he) \<in> set (br_scheduled ?s)"
    show "(c, he) \<in> set (br_scheduled s) \<or> decided u byName ?s c he"
    proof (cases "br_tasks s ! i")
      case (Alive p c')
      then have "decided u byName ?s c' (decision byName (fst (pending_Result (br_pendings s ! p))))"
        using ok task_decision [OF assms(1)] by (intro continues_decided [OF ext]) auto
      then show ?thesis using he Alive True by (auto simp: advance_waiter_def)
    qed (use he True in \<open>auto simp: advance_waiter_def pending_Delete_def split: if_splits\<close>)
  qed (use True in \<open>auto simp: advance_waiter_def pending_Delete_def split: waiter.splits if_splits\<close>)
qed (use assms in \<open>simp add: advance_waiter_def\<close>)

lemma new_completion_calls:
  "CompleteFn h e \<in> set (snd (snd (completion_Complete host err c))) \<Longrightarrow> h = host \<and> e = err"
  "CompleteFn h e \<notin> set (snd (snd (completion_Cancel c)))"
  by (auto simp: completion_Complete_def completion_Cancel_def finish_calls_def split: if_splits option.splits)

lemma br_run_scheduled_calls:
  assumes "selections_ok u byName s" "(c, CompleteFn h e) \<in> set (br_calls (br_run_scheduled s))"
  shows "(c, CompleteFn h e) \<in> set (br_calls s) \<or> decided u byName s c (h, e)"
proof (cases "br_scheduled s")
  case (Cons x rest)
  obtain c' host err where x: "x = (c', host, err)" by (cases x)
  obtain won comp' fns where f: "completion_Complete host err (snd (br_comps s ! c')) = (won, comp', fns)" by (cases "completion_Complete host err (snd (br_comps s ! c'))")
  have "decided u byName s c' (host, err)" using assms(1) Cons x by (auto simp: selections_ok_def)
  then show ?thesis
    using assms(2) new_completion_calls(1) [of h e host err "snd (br_comps s ! c')"]
    by (auto simp: br_run_scheduled_def Cons x f)
qed (use assms(2) in \<open>simp add: br_run_scheduled_def\<close>)

lemma requestHandler_frame:
  "br_tasks (br_requestHandler st has_context s) = br_tasks s" "br_scheduled (br_requestHandler st has_context s) = br_scheduled s"
  "br_calls (br_requestHandler st has_context s) = br_calls s" "br_cancels (br_requestHandler st has_context s) = br_cancels s"
  "br_comps (br_requestHandler st has_context s) = br_comps s"
  by (cases has_context; simp add: br_requestHandler_def mintToken_def pending_Register_def Let_def split: option.split)+

lemma selections_ok_step:
  assumes "br_step u byName s s'" "streams_ok u s" "selections_ok u byName s" "length (br_contexts s) < 2 ^ 64"
  shows "selections_ok u byName s'"
  using assms step_continues [OF assms(1)]
proof (induction rule: br_step.induct)
  case (choose ctx s st lb)
  show ?case
  proof (rule selections_ok_continues [OF choose(3,5)])
    fix t assume "t \<in> set (br_tasks (snd (br_ChooseHost lb st ctx s)))"
    then show "t \<in> set (br_tasks s) \<or> task_ok (snd (br_ChooseHost lb st ctx s)) t"
      using choose(1) registered_entry [OF choose(2,4)]
      by (auto simp: br_ChooseHost_def pending_Lookup_def owner_of_def Let_def nth_append split: option.splits if_splits)
  qed (auto simp: br_ChooseHost_def Let_def split: option.splits if_splits)
next
  case (advance s i)
  then show ?case by (simp add: selections_ok_advance)
next
  case (main s)
  show ?case
  proof (rule selections_ok_continues [OF main(2,4)])
    fix c h e assume "(c, CompleteFn h e) \<in> set (br_calls (br_run_scheduled s))"
    then show "(c, CompleteFn h e) \<in> set (br_calls s) \<or> decided u byName s c (h, e)"
      by (rule br_run_scheduled_calls [OF main(2)])
  qed (auto simp: br_run_scheduled_def Let_def split: list.splits prod.splits)
next
  case (cancel c s lb)
  show ?case
  proof (rule selections_ok_continues [OF cancel(3,5)])
    fix c' h e assume "(c', CompleteFn h e) \<in> set (br_calls (cancel_selection lb c s))"
    then show "(c', CompleteFn h e) \<in> set (br_calls s) \<or> decided u byName s c' (h, e)"
      using new_completion_calls(2) [of h e "snd (br_comps s ! c)"]
      by (cases "completion_Cancel (snd (br_comps s ! c))") (auto simp: cancel_selection_def split: if_splits)
  qed (auto simp: cancel_selection_def Let_def split: prod.splits if_splits)
next
  case (headers s st has_context)
  then show ?case
    by (intro selections_ok_continues [OF headers(3,5)]) (simp_all add: requestHandler_frame)
next
  case (body s st data end_stream)
  then show ?case by (intro selections_ok_continues [OF body(2,4)]) (auto simp: br_bodyHandler_def split: option.splits if_splits)
next
  case (told s)
  then show ?case by (intro selections_ok_continues [OF told(2,4)]) (auto simp: br_CancelHostSelection_def split: list.splits)
qed


section \<open>Settlement\<close>

definition settles :: "nat \<Rightarrow> nat \<times> lb_call \<Rightarrow> bool" where
  "settles c x \<longleftrightarrow> fst x = c \<and> (is_CompleteFn (snd x) \<or> snd x = SelectorCancel)"

definition settlements :: "body_router \<Rightarrow> nat \<Rightarrow> nat" where
  "settlements s c = length (filter (settles c) (br_calls s)) + length (filter (\<lambda>x. snd x = c) (br_cancels s))"

definition br_settled_once :: "body_router \<Rightarrow> bool" where
  "br_settled_once s \<longleftrightarrow>
     (\<forall>(st, k)\<in>set (br_comps s). completeFn k \<and> \<not> cancelFn k \<and> finishFn k = None) \<and>
     (\<forall>c. settlements s c = of_bool (c < length (br_comps s) \<and> comp_done (snd (br_comps s ! c))))"

lemma settled_same:
  assumes "br_settled_once s" "br_comps s' = br_comps s" "br_calls s' = br_calls s" "br_cancels s' = br_cancels s"
  shows "br_settled_once s'"
  using assms by (simp add: br_settled_once_def settlements_def)

lemma ChooseHost_cases:
  "snd (br_ChooseHost lb st ctx s) = s \<or>
   br_comps (snd (br_ChooseHost lb st ctx s)) = br_comps s @ [(st, NewCompletion)] \<and>
   br_calls (snd (br_ChooseHost lb st ctx s)) = br_calls s \<and> br_cancels (snd (br_ChooseHost lb st ctx s)) = br_cancels s"
  by (auto simp: br_ChooseHost_def Let_def split: option.split)

lemma settled_append:
  assumes "br_settled_once s" "br_comps s' = br_comps s @ [(st, NewCompletion)]" "br_calls s' = br_calls s" "br_cancels s' = br_cancels s"
  shows "br_settled_once s'"
proof -
  have "settlements s' c = settlements s c" for c using assms(3,4) by (simp add: settlements_def)
  moreover have "settlements s (length (br_comps s)) = 0" using assms(1) by (simp add: br_settled_once_def)
  ultimately show ?thesis using assms(1,2)
    by (auto simp: br_settled_once_def nth_append NewCompletion_def SetCompleteFn_def new_completion_def)
qed

lemma settled_complete:
  assumes "br_settled_once s" "c < length (br_comps s)" "br_scheduled s = (c, host, err) # rest"
  shows "br_settled_once (br_run_scheduled s)"
proof -
  obtain st k where k: "br_comps s ! c = (st, k)" by fastforce
  have shape: "completeFn k" "finishFn k = None" "\<not> cancelFn k"
    using assms(1) nth_mem [OF assms(2)] by (auto simp: br_settled_once_def k)
  have old: "\<forall>c'. settlements s c' = of_bool (c' < length (br_comps s) \<and> comp_done (snd (br_comps s ! c')))"
    "\<forall>(st, k)\<in>set (br_comps s). completeFn k \<and> \<not> cancelFn k \<and> finishFn k = None"
    using assms(1) by (simp_all add: br_settled_once_def)
  show ?thesis
  proof (cases "comp_done k")
    case True
    then have "(br_comps s)[c := (st, k)] = br_comps s" using k by (metis list_update_id)
    then show ?thesis using assms(1,3) k True
      by (simp add: br_run_scheduled_def completion_Complete_def br_settled_once_def settlements_def)
  next
    case False
    let ?k = "k\<lparr>comp_done := True\<rparr>"
    have s': "br_comps (br_run_scheduled s) = (br_comps s)[c := (st, ?k)]"
      "br_calls (br_run_scheduled s) = br_calls s @ [(c, CompleteFn host err)]" "br_cancels (br_run_scheduled s) = br_cancels s"
      using assms(3) k False shape by (simp_all add: br_run_scheduled_def completion_Complete_def finish_calls_def)
    have "settlements (br_run_scheduled s) c' = of_bool (c' < length (br_comps s) \<and> comp_done (snd ((br_comps s)[c := (st, ?k)] ! c')))" for c'
      using old(1) [rule_format, of c'] assms(2) k False
      by (auto simp: settlements_def s' settles_def nth_list_update)
    moreover have "\<forall>(st, k)\<in>set ((br_comps s)[c := (st, ?k)]). completeFn k \<and> \<not> cancelFn k \<and> finishFn k = None"
      using old(2) shape set_update_subset_insert [of "br_comps s" c "(st, ?k)"] by fastforce
    ultimately show ?thesis by (simp add: br_settled_once_def s')
  qed
qed

lemma settled_cancel:
  assumes "br_settled_once s" "c < length (br_comps s)"
  shows "br_settled_once (cancel_selection lb c s)"
proof -
  obtain st k where k: "br_comps s ! c = (st, k)" by fastforce
  have shape: "completeFn k" "finishFn k = None" "\<not> cancelFn k"
    using assms(1) nth_mem [OF assms(2)] by (auto simp: br_settled_once_def k)
  have old: "\<forall>c'. settlements s c' = of_bool (c' < length (br_comps s) \<and> comp_done (snd (br_comps s ! c')))"
    "\<forall>(st, k)\<in>set (br_comps s). completeFn k \<and> \<not> cancelFn k \<and> finishFn k = None"
    using assms(1) by (simp_all add: br_settled_once_def)
  show ?thesis
  proof (cases "comp_done k")
    case False
    let ?k = "k\<lparr>comp_done := True\<rparr>" and ?s = "cancel_selection lb c s"
    have s': "br_comps ?s = (br_comps s)[c := (st, ?k)]" "br_calls ?s = br_calls s" "br_cancels ?s = br_cancels s @ [(lb, c)]"
      using k False shape by (simp_all add: cancel_selection_def completion_Cancel_def finish_calls_def)
    have "settlements ?s c' = of_bool (c' < length (br_comps s) \<and> comp_done (snd ((br_comps s)[c := (st, ?k)] ! c')))" for c'
      using old(1) [rule_format, of c'] assms(2) k False by (auto simp: settlements_def s' nth_list_update)
    moreover have "\<forall>(st, k)\<in>set ((br_comps s)[c := (st, ?k)]). completeFn k \<and> \<not> cancelFn k \<and> finishFn k = None"
      using old(2) shape set_update_subset_insert [of "br_comps s" c "(st, ?k)"] by fastforce
    ultimately show ?thesis by (simp add: br_settled_once_def s')
  qed (use assms(1) k in \<open>simp add: cancel_selection_def completion_Cancel_def\<close>)
qed

lemma settled_step:
  assumes "br_step u byName s s'" "br_settled_once s" "selections_ok u byName s"
  shows "br_settled_once s'"
  using assms
proof (induction rule: br_step.induct)
  case (headers s st has_context)
  then show ?case by (intro settled_same [OF headers(2)]) (simp_all add: requestHandler_frame)
next
  case (body s st data end_stream)
  then show ?case by (intro settled_same [OF body(1)]) (auto simp: br_bodyHandler_def split: option.split)
next
  case (choose ctx s st lb)
  consider "snd (br_ChooseHost lb st ctx s) = s" | "br_comps (snd (br_ChooseHost lb st ctx s)) = br_comps s @ [(st, NewCompletion)]"
      "br_calls (snd (br_ChooseHost lb st ctx s)) = br_calls s" "br_cancels (snd (br_ChooseHost lb st ctx s)) = br_cancels s"
    using ChooseHost_cases [of lb st ctx s] by blast
  then show ?case
  proof cases
    case 1
    then show ?thesis using choose(2) by simp
  next
    case 2
    then show ?thesis by (rule settled_append [OF choose(2)])
  qed
next
  case (advance s i)
  then show ?case by (intro settled_same [OF advance(1)]) (auto simp: advance_waiter_def pending_Delete_def split: waiter.split)
next
  case (main s)
  show ?case
  proof (cases "br_scheduled s")
    case (Cons x rest)
    then obtain c host err where "br_scheduled s = (c, host, err) # rest" by (cases x) auto
    moreover from this have "c < length (br_comps s)" using main(2) by (auto simp: selections_ok_def decided_def)
    ultimately show ?thesis using main(1) by (intro settled_complete)
  qed (use main in \<open>simp add: br_run_scheduled_def\<close>)
next
  case (cancel c s lb)
  then show ?case by (simp add: settled_cancel)
next
  case (told s)
  have "settlements (br_CancelHostSelection s) c = settlements s c" for c
    by (cases "br_cancels s") (auto simp: br_CancelHostSelection_def settlements_def settles_def)
  moreover have "br_comps (br_CancelHostSelection s) = br_comps s" by (auto simp: br_CancelHostSelection_def split: list.split)
  ultimately show ?case using told(1) by (simp add: br_settled_once_def)
qed


section \<open>Reachable states\<close>

lemma new_body_router_ok:
  "streams_ok u new_body_router" "selections_ok u byName new_body_router" "br_settled_once new_body_router"
  by (simp_all add: streams_ok_def selections_ok_def br_settled_once_def settlements_def new_body_router_def)

lemma run_ok:
  assumes "br_run u byName s0 s" "s0 = new_body_router" "length (br_contexts s) < 2 ^ 64"
  shows "streams_ok u s \<and> selections_ok u byName s \<and> br_settled_once s"
  using assms
proof (induction rule: br_run.induct)
  case (br_trans s s' s'')
  have "length (br_contexts s') \<le> length (br_contexts s'')" using step_continues [OF br_trans(2)] by (auto simp: continues_def)
  then have "length (br_contexts s') < 2 ^ 64" using br_trans.prems(2) by simp
  with br_trans show ?case using streams_ok_step selections_ok_step settled_step by blast
qed (simp add: new_body_router_ok)

section \<open>Properties\<close>

text \<open>C17. Streams never mix, in whatever order headers, bodies, host selections, cancellations, goroutines and the main
  thread interleave: when the router completes the selection of a stream, it does so with the host that this
  stream's own first body names, or with the error that this body causes, and a selection is completed or cancelled
  at most once. It takes fewer than \<open>2^64\<close> streams, the range of the token counter.\<close>

theorem body_decides_the_host:
  assumes "br_run u byName new_body_router s" "length (br_contexts s) < 2 ^ 64" "(c, CompleteFn h e) \<in> set (br_calls s)"
  shows "(\<exists>d. map_of (br_parsed s) (owner_of s c) = Some d \<and> (h, e) = decision byName (target_result u d)) \<and>
    length (filter (settles c) (br_calls s)) = 1"
proof -
  have ok: "selections_ok u byName s" "br_settled_once s" using run_ok [OF assms(1) refl assms(2)] by blast+
  have "filter (settles c) (br_calls s) \<noteq> []" using assms(3) by (force simp: filter_empty_conv settles_def)
  moreover have "settlements s c \<le> 1" using ok(2) by (simp add: br_settled_once_def)
  ultimately have "length (filter (settles c) (br_calls s)) = 1"
    by (cases "filter (settles c) (br_calls s)") (simp_all add: settlements_def)
  then show ?thesis using ok(1) assms(3) by (auto simp: selections_ok_def decided_def)
qed

definition demo_hosts :: "string \<rightharpoonup> HostPtr" where
  "demo_hosts = [''a'' \<mapsto> 7, ''b'' \<mapsto> 8]"

definition demo_two_streams :: body_router where
  "demo_two_streams = br_requestHandler 2 True (br_requestHandler 1 True new_body_router)"

definition demo_suspended :: body_router where
  "demo_suspended = snd (br_ChooseHost 0 2 (Some (Some ''tr-2'')) (snd (br_ChooseHost 0 1 (Some (Some ''tr-1'')) demo_two_streams)))"

definition demo_routed :: body_router where
  "demo_routed = br_run_scheduled (advance_waiter demo_hosts 1 (advance_waiter demo_hosts 1 (advance_waiter demo_hosts 1
     (br_bodyHandler Some 2 ''b'' True (br_bodyHandler Some 1 ''x'' False demo_suspended)))))"

lemma demo_suspended_run: "br_run Some demo_hosts new_body_router demo_suspended"
proof -
  have "br_run Some demo_hosts new_body_router demo_two_streams" unfolding demo_two_streams_def
    by (rule br_trans [OF br_trans [OF br_refl br_step.headers] br_step.headers]) (code_simp, code_simp)
  then show ?thesis unfolding demo_suspended_def
    by (rule br_trans [OF br_trans [OF _ br_step.choose] br_step.choose]) (code_simp, code_simp)
qed

lemma demo_routed_run: "br_run Some demo_hosts new_body_router demo_routed"
  unfolding demo_routed_def
  by (intro br_trans [OF _ br_step.main] br_trans [OF _ br_step.advance] br_trans [OF _ br_step.body] demo_suspended_run)

theorem body_decides_the_host_witness:
  "(\<exists>d. map_of (br_parsed demo_routed) (owner_of demo_routed 1) = Some d \<and>
     (8, []) = decision demo_hosts (target_result Some d)) \<and> length (filter (settles 1) (br_calls demo_routed)) = 1"
proof (rule body_decides_the_host [OF demo_routed_run])
  have "length (br_contexts demo_routed) = 2" by code_simp
  then show "length (br_contexts demo_routed) < 2 ^ 64" by simp
  show "(1, CompleteFn 8 []) \<in> set (br_calls demo_routed)" by code_simp
qed


text \<open>A selection whose body never ends is never forgotten: the goroutine stays parked and the registry keeps the
  token as long as the stream's body is not parsed, whatever else happens, its cancellation included.\<close>

lemma parked_not_done:
  assumes "streams_ok u s" "task_ok s (Parked lb tok p c)" "map_of (br_parsed s) (owner_of s c) = None"
  shows "\<not> pd_done (br_pendings s ! p)"
proof -
  have "br_pendings s ! p = pending_after u None" using assms unfolding streams_ok_def by (metis task_ok.simps(1))
  then show ?thesis by (simp add: pending_after_def newPending_def)
qed

lemma registry_after_advance:
  assumes "streams_ok u s" "length (br_contexts s) < 2 ^ 64" "\<forall>t\<in>set (br_tasks s). task_ok s t"
    "br_registry s tok = Some p" "\<not> pd_done (br_pendings s ! p)"
  shows "br_registry (advance_waiter byName j s) tok = Some p"
proof (cases "j < length (br_tasks s) \<and> (\<exists>lb tok' q c. br_tasks s ! j = Parked lb tok' q c \<and> pd_done (br_pendings s ! q))")
  case True
  then obtain lb tok' q c where j: "br_tasks s ! j = Parked lb tok' q c" "pd_done (br_pendings s ! q)" by blast
  then have "task_ok s (Parked lb tok' q c)" using True assms(3) nth_mem by metis
  then have "tok' = token_of (of_nat (Suc q))" "q < length (br_contexts s)" using streams_ok_entry [OF assms(1)] by auto
  moreover have "tok = token_of (of_nat (Suc p))" "p < length (br_contexts s)" using assms(1,4) unfolding streams_ok_def by blast+
  moreover have "p \<noteq> q" using assms(5) j(2) by auto
  ultimately have "tok' \<noteq> tok" using assms(2) by (auto simp: token_of_inj word_unat_eq_iff unat_of_nat simp del: of_nat_Suc)
  then show ?thesis using assms(4) True j by (simp add: advance_waiter_def pending_Delete_def)
qed (use assms(4) in \<open>auto simp: advance_waiter_def split: waiter.split\<close>)

lemma parked_step:
  assumes "br_step u byName s s'" "streams_ok u s" "selections_ok u byName s" "length (br_contexts s) < 2 ^ 64"
    "i < length (br_tasks s)" "br_tasks s ! i = Parked lb tok p c" "br_registry s tok = Some p" "map_of (br_parsed s) (owner_of s c) = None"
  shows "i < length (br_tasks s') \<and> br_tasks s' ! i = Parked lb tok p c \<and> br_registry s' tok = Some p"
  using assms
proof (induction rule: br_step.induct)
  case (headers s st has_context)
  then show ?case by (auto simp: br_ops Let_def split: option.split)
next
  case (body s st data end_stream)
  then show ?case by (simp add: br_bodyHandler_def split: option.split)
next
  case (choose ctx s st lb')
  then show ?case by (auto simp: br_ChooseHost_def Let_def nth_append split: option.split)
next
  case (advance s j)
  have tasks: "\<forall>t\<in>set (br_tasks s). task_ok s t" using advance(2) by (simp add: selections_ok_def)
  then have "task_ok s (Parked lb tok p c)" using advance(4,5) nth_mem by metis
  then have nd: "\<not> pd_done (br_pendings s ! p)" using advance(1,7) parked_not_done by blast
  have "br_tasks (advance_waiter byName j s) ! i = Parked lb tok p c"
    using advance(4,5) nd by (cases "j = i") (auto simp: advance_waiter_def pending_Delete_def split: waiter.split)
  then show ?case using advance(4) registry_after_advance [OF advance(1,3) tasks advance(6) nd]
    by (auto simp: advance_waiter_def pending_Delete_def split: waiter.split)
next
  case (main s)
  then show ?case by (auto simp: br_run_scheduled_def Let_def split: list.split prod.split)
next
  case (cancel c' s lb')
  then show ?case by (auto simp: cancel_selection_def Let_def split: prod.split)
next
  case (told s)
  then show ?case by (auto simp: br_CancelHostSelection_def split: list.split)
qed

lemma abandoned_selection_waits_forever:
  assumes "br_run u byName s s'" "br_run u byName new_body_router s" "length (br_contexts s') < 2 ^ 64"
    "i < length (br_tasks s)" "br_tasks s ! i = Parked lb tok p c" "br_registry s tok = Some p" "map_of (br_parsed s') (owner_of s c) = None"
  shows "br_tasks s' ! i = Parked lb tok p c \<and> br_registry s' tok = Some p"
proof -
  have "br_run u byName new_body_router s' \<and> i < length (br_tasks s') \<and> br_tasks s' ! i = Parked lb tok p c \<and> br_registry s' tok = Some p"
    using assms
  proof (induction rule: br_run.induct)
    case (br_trans s s1 s2)
    have e: "continues s s1" "continues s1 s2" using run_continues br_trans(1) step_continues br_trans(2) by blast+
    then have len: "length (br_contexts s1) < 2 ^ 64" using br_trans.prems(2) by (auto simp: continues_def)
    moreover have none: "map_of (br_parsed s1) (owner_of s c) = None"
      using continues_parsed [OF e(2)] br_trans.prems(6) by (metis option.exhaust option.simps(3))
    ultimately have ih: "br_run u byName new_body_router s1" "i < length (br_tasks s1)" "br_tasks s1 ! i = Parked lb tok p c" "br_registry s1 tok = Some p"
      using br_trans by blast+
    have ok: "streams_ok u s1" "selections_ok u byName s1" using run_ok [OF ih(1) refl len] by blast+
    have s: "selections_ok u byName s" using run_ok [OF br_trans.prems(1) refl] e(1) len by (auto simp: continues_def)
    have "c < length (br_comps s)" using s br_trans.prems(3,4) nth_mem by (fastforce simp: selections_ok_def)
    then have "owner_of s1 c = owner_of s c" using e(1) by (simp add: continues_def)
    then show ?case using parked_step [OF br_trans(2) ok len ih(2-4)] none br_run.br_trans [OF ih(1) br_trans(2)] by simp
  qed simp
  then show ?thesis by blast
qed

lemma abandoned_selection_waits_forever_example:
  "br_tasks (br_CancelHostSelection (cancel_selection 0 0 demo_suspended)) ! 0 = Parked 0 ''tr-1'' 0 0 \<and>
   br_registry (br_CancelHostSelection (cancel_selection 0 0 demo_suspended)) ''tr-1'' = Some 0"
  by code_simp

text \<open>The decision is deleted when its selection is decided, so a second selection for the same request, as a retry makes
  it, finds none and fails.\<close>

lemma retry_finds_no_decision:
  assumes "i < length (br_tasks s)" "br_tasks s ! i = Parked lb tok p c" "pd_done (br_pendings s ! p)"
  shows "br_ChooseHost lb' st (Some (Some tok)) (advance_waiter byName i s) = (None, advance_waiter byName i s)"
  using assms by (simp add: br_ChooseHost_def advance_waiter_def pending_Delete_def pending_Lookup_def)

text \<open>A parsed body reaches its selection: three stretches of the goroutine and then the main thread settle it.\<close>

lemma br_run_scheduled_drains:
  assumes "length pre = n" "br_scheduled s = pre @ (c, he) # post"
  shows "br_scheduled ((br_run_scheduled ^^ n) s) = (c, he) # post \<and> length (br_comps ((br_run_scheduled ^^ n) s)) = length (br_comps s)"
  using assms
proof (induction n arbitrary: s pre)
  case (Suc n)
  then obtain x pre' where pre: "pre = x # pre'" "length pre' = n" by (cases pre) auto
  have "br_scheduled (br_run_scheduled s) = pre' @ (c, he) # post" "length (br_comps (br_run_scheduled s)) = length (br_comps s)"
    using Suc.prems pre by (auto simp: br_run_scheduled_def Let_def split: prod.split)
  then show ?case using Suc.IH [OF pre(2), of "br_run_scheduled s"] by (simp add: funpow_swap1)
qed simp

lemma decided_selection_settles:
  fixes byName :: "string \<rightharpoonup> HostPtr"
  assumes "i < length (br_tasks s)" "br_tasks s ! i = Parked lb tok p c" "pd_done (br_pendings s ! p)"
    "c \<in> br_waiters s lb" "c < length (br_comps s)"
  defines "s3 \<equiv> advance_waiter byName i (advance_waiter byName i (advance_waiter byName i s))"
  shows "comp_done (snd (br_comps ((br_run_scheduled ^^ Suc (length (br_scheduled s))) s3) ! c))"
proof -
  have "br_scheduled s3 = br_scheduled s @ (c, decision byName (fst (pending_Result (br_pendings s ! p)))) # []"
    "length (br_comps s3) = length (br_comps s)"
    using assms by (simp_all add: advance_waiter_def pending_Delete_def)
  then have "br_scheduled ((br_run_scheduled ^^ length (br_scheduled s)) s3) = [(c, decision byName (fst (pending_Result (br_pendings s ! p))))]"
    "length (br_comps ((br_run_scheduled ^^ length (br_scheduled s)) s3)) = length (br_comps s)"
    using br_run_scheduled_drains [OF refl, of s3 "br_scheduled s"] by simp_all
  then show ?thesis using assms(5)
    by (auto simp: br_run_scheduled_def completion_Complete_def Let_def split: prod.splits)
qed

end
