(* ===== verification/Example_Clusters.thy ===== *)
theory Example_Clusters
  imports Route_Hosts LB_Policies Filter_State
begin

text \<open>
  Four more clusters of \<^verbatim>\<open>src/examples\<close>: hosts from a static list (\<^verbatim>\<open>cluster\<close>), a host named by filter state
  (\<^verbatim>\<open>cluster-filter-state\<close>), hosts resolved per model (\<^verbatim>\<open>cluster-dfp\<close>), and hosts discovered at run time with a
  round-robin balancer (\<^verbatim>\<open>cluster-group\<close>). Envoy's hosts are those of \<^verbatim>\<open>Route_Hosts\<close> and \<^verbatim>\<open>Host_Set\<close>.
\<close>

section \<open>Static hosts\<close>

text \<open>The parser of a host list; the two packages differ in the name they put in front of an error.\<close>

fun static_hosts :: "string \<Rightarrow> nat \<Rightarrow> (string \<times> uint32) list \<Rightarrow> HostSpec list \<Rightarrow> string + HostSpec list" where
  "static_hosts pkg i [] hosts = Inr hosts"
| "static_hosts pkg i ((addr, w) # rest) hosts =
     (if addr = [] then Inl (pkg @ '': host '' @ Itoa i @ '' address is required'')
      else static_hosts pkg (Suc i) rest (hosts @ [\<lparr>Address = addr, Hostname = [], Weight = w, Metadata = []\<rparr>]))"

definition static_parseHosts :: "string \<Rightarrow> (bytes \<Rightarrow> string + (string \<times> uint32) list) \<Rightarrow> bytes \<Rightarrow> string + HostSpec list" where
  "static_parseHosts pkg unmarshal config =
     (if config = [] then Inl (pkg @ '': config must include at least one host'')
      else case unmarshal config of
             Inl err \<Rightarrow> Inl (pkg @ '': parse config: '' @ err)
           | Inr [] \<Rightarrow> Inl (pkg @ '': config must include at least one host'')
           | Inr hosts \<Rightarrow> static_hosts pkg 0 hosts [])"

definition staticHostsFactory_Create :: "(bytes \<Rightarrow> string + (string \<times> uint32) list) \<Rightarrow> bytes \<Rightarrow> string + HostSpec list" where
  "staticHostsFactory_Create unmarshal config = static_parseHosts ''cluster'' unmarshal config"

fun mark_healthy :: "'e directory \<Rightarrow> HostPtr list \<Rightarrow> 'e \<Rightarrow> 'e" where
  "mark_healthy d [] e = e"
| "mark_healthy d (p # ps) e = mark_healthy d ps (dir_Health d p HostHealthy e)"

text \<open>\<open>Init\<close>: the pointers the cluster keeps, and Envoy's state when initialization is complete.\<close>

definition staticHostsCluster_Init :: "'e directory \<Rightarrow> HostSpec list \<Rightarrow> 'e \<Rightarrow> HostPtr list \<times> 'e" where
  "staticHostsCluster_Init d hosts e = (case dir_Add d hosts e of (ptrs, e1) \<Rightarrow> (ptrs, mark_healthy d ptrs e1))"

definition firstHealthyClusterLB_ChooseHost :: "'r ClusterLBHandle_scheme \<Rightarrow> HostPtr" where
  "firstHealthyClusterLB_ChooseHost h = (if HealthyHostCount h 0 = 0 then 0 else HealthyHost h 0 0)"

section \<open>The host named by filter state\<close>

definition filterStateWriter :: "(string \<Rightarrow> string) \<Rightarrow> wop list" where
  "filterStateWriter header =
     (let target = header ''x-target-host'' in if target \<noteq> [] then [OpSetFilterState ''transit.target_host'' target] else [])"

definition filterStateFactory_Create :: "(bytes \<Rightarrow> string + (string \<times> uint32) list) \<Rightarrow> bytes \<Rightarrow> string + HostSpec list" where
  "filterStateFactory_Create unmarshal config = static_parseHosts ''cluster-filter-state'' unmarshal config"

fun match_target :: "string \<Rightarrow> HostSpec list \<Rightarrow> HostPtr list \<Rightarrow> HostPtr option" where
  "match_target target (spec # specs) (p # ps) = (if Address spec = target then Some p else match_target target specs ps)"
| "match_target target specs ps = None"

text \<open>\<open>fs\<close> is what \<open>GetFilterState\<close> answers, if there is a context.\<close>

definition filterStateRouterLB_ChooseHost ::
  "HostSpec list \<Rightarrow> HostPtr list \<Rightarrow> 'r ClusterLBHandle_scheme \<Rightarrow> (string \<Rightarrow> string \<times> bool) option \<Rightarrow> HostPtr"
where
  "filterStateRouterLB_ChooseHost hosts ptrs h ctx =
     (let fallback = (if HealthyHostCount h 0 = 0 then 0 else HealthyHost h 0 0)
      in case ctx of
           None \<Rightarrow> fallback
         | Some get \<Rightarrow>
             (case get ''transit.target_host'' of (target, ok) \<Rightarrow>
                if ok \<and> target \<noteq> []
                then case match_target target hosts ptrs of
                       Some p \<Rightarrow> p
                     | None \<Rightarrow> (let ptr = FindHostByAddress h target in if ptr \<noteq> 0 then ptr else fallback)
                else fallback))"

section \<open>Hosts per model\<close>

record dfpConfig =
  dfp_TimeoutMillis :: int
  dfp_Models :: "(string \<times> string) list"

definition dfp_timeout :: "dfpConfig \<Rightarrow> int" where
  "dfp_timeout c = (if dfp_TimeoutMillis c \<le> 0 then 250 * Millisecond else int64 (dfp_TimeoutMillis c * Millisecond))"

definition dfp_parseConfig :: "(bytes \<Rightarrow> string + dfpConfig) \<Rightarrow> bytes \<Rightarrow> string + dfpConfig" where
  "dfp_parseConfig unmarshal config =
     (if config = [] then Inr \<lparr>dfp_TimeoutMillis = 0, dfp_Models = []\<rparr>
      else case unmarshal config of Inl err \<Rightarrow> Inl (''cluster-dfp: parse config: '' @ err) | Inr cfg \<Rightarrow> Inr cfg)"

fun resolveModels :: "net \<Rightarrow> (string \<times> string) list \<Rightarrow> (string \<times> string) list" where
  "resolveModels nw [] = []"
| "resolveModels nw ((model, target) # rest) =
     (case resolveTarget nw target of Inl _ \<Rightarrow> resolveModels nw rest | Inr addr \<Rightarrow> (model, addr) # resolveModels nw rest)"

text \<open>An address for which \<open>AddHosts\<close> returns no pointer is skipped.\<close>

fun applyResolved :: "'e directory \<Rightarrow> (string \<times> string) list \<Rightarrow> (string \<rightharpoonup> string) \<Rightarrow> 'e \<Rightarrow> (string \<rightharpoonup> string) \<times> 'e" where
  "applyResolved d [] addrs e = (addrs, e)"
| "applyResolved d ((model, addr) # rest) addrs e =
     (case ensure_host d addr e of
        None \<Rightarrow> applyResolved d rest addrs (snd (dir_Add d [addr_spec addr] e))
      | Some (host, e1) \<Rightarrow> applyResolved d rest (addrs(model \<mapsto> addr)) e1)"

definition dfpCluster_Init :: "'e directory \<Rightarrow> net \<Rightarrow> (string \<times> string) list \<Rightarrow> 'e \<Rightarrow> (string \<rightharpoonup> string) \<times> 'e" where
  "dfpCluster_Init d nw targets e = applyResolved d (resolveModels nw targets) Map.empty e"

definition dfpLB_ChooseHost :: "(string \<rightharpoonup> string) \<Rightarrow> ClusterLBHandle \<Rightarrow> LBContext \<Rightarrow> HostPtr" where
  "dfpLB_ChooseHost addrs h ctx =
     (case GetHeader ctx ''x-model'' of (model, ok) \<Rightarrow>
        if \<not> ok \<or> model = [] then 0
        else case addrs model of None \<Rightarrow> 0 | Some addr \<Rightarrow> FindHostByAddress h addr)"

section \<open>Discovered hosts\<close>

record discoveryConfig =
  dc_DiscoveryURL :: string
  dc_RefreshMS :: int

definition refreshInterval :: "discoveryConfig \<Rightarrow> int" where
  "refreshInterval c = (if dc_RefreshMS c \<le> 0 then 5 * Second else int64 (dc_RefreshMS c * Millisecond))"

definition discoveryFactory_Create :: "(bytes \<Rightarrow> string + discoveryConfig) \<Rightarrow> bytes \<Rightarrow> string + discoveryConfig" where
  "discoveryFactory_Create unmarshal config =
     (case unmarshal config of
        Inl err \<Rightarrow> Inl (''cluster-group: parse config: '' @ err)
      | Inr cfg \<Rightarrow> if dc_DiscoveryURL cfg = [] then Inl ''cluster-group: discovery_url is required'' else Inr cfg)"

record discoveryCluster =
  dk_known :: "(string \<times> HostPtr) list"
  dk_log :: "string host_log"

fun discovery_add :: "(string host_log \<Rightarrow> HostSpec list \<Rightarrow> HostPtr list) \<Rightarrow> string list \<Rightarrow> discoveryCluster \<Rightarrow> discoveryCluster outcome" where
  "discovery_add add [] c = Inr c"
| "discovery_add add (addr # addrs) c =
     (if map_of (dk_known c) addr \<noteq> None then discovery_add add addrs c
      else let ptrs = add (dk_log c) [addr_spec addr]
           in case ptrs of
                [] \<Rightarrow> Inl (Panic ''runtime error: index out of range [0] with length 0'')
              | p # _ \<Rightarrow> discovery_add add addrs
                  (c\<lparr>dk_known := dk_known c @ [(addr, p)],
                     dk_log := dk_log c @ [EAddHosts [addr_spec addr] ptrs, EUpdateHostHealth p HostHealthy]\<rparr>))"

fun discovery_remove :: "string set \<Rightarrow> (string \<times> HostPtr) list \<Rightarrow> discoveryCluster \<Rightarrow> discoveryCluster" where
  "discovery_remove want [] c = c"
| "discovery_remove want ((addr, ptr) # rest) c =
     (if addr \<in> want then discovery_remove want rest c
      else discovery_remove want rest
        (c\<lparr>dk_known := filter (\<lambda>(a, _). a \<noteq> addr) (dk_known c), dk_log := dk_log c @ [ERemoveHosts [ptr]]\<rparr>))"

text \<open>\<open>order\<close> is the order in which the set of wanted addresses is iterated over.\<close>

definition applyHostsDirect ::
  "(string host_log \<Rightarrow> HostSpec list \<Rightarrow> HostPtr list) \<Rightarrow> string list \<Rightarrow> string list \<Rightarrow> discoveryCluster \<Rightarrow> discoveryCluster outcome"
where
  "applyHostsDirect add order addrs c =
     obind (discovery_add add order c) (\<lambda>c1. Inr (discovery_remove (set addrs) (dk_known c1) c1))"

text \<open>Go's \<open>%\<close> has the sign of its left operand.\<close>

definition go_rem :: "int \<Rightarrow> int \<Rightarrow> int" where
  "go_rem a b = (if a < 0 then - ((- a) mod abs b) else a mod abs b)"

text \<open>The host, and the counter after \<open>counter.Add(1)\<close>.\<close>

definition roundRobinLB_ChooseHost :: "uint64 \<Rightarrow> 'r ClusterLBHandle_scheme \<Rightarrow> HostPtr \<times> uint64" where
  "roundRobinLB_ChooseHost counter h =
     (let n = HealthyHostCount h 0
      in if n = 0 then (0, counter)
         else let c1 = counter + 1; idx = go_rem (sint (c1 - 1)) n in (HealthyHost h 0 idx, c1))"

fun round_robin_picks :: "nat \<Rightarrow> uint64 \<Rightarrow> 'r ClusterLBHandle_scheme \<Rightarrow> HostPtr list" where
  "round_robin_picks 0 counter h = []"
| "round_robin_picks (Suc k) counter h =
     (case roundRobinLB_ChooseHost counter h of (p, c1) \<Rightarrow> p # round_robin_picks k c1 h)"

section \<open>Discovery keeps Envoy and the table of known hosts together\<close>

text \<open>What \<^verbatim>\<open>abi.h\<close> promises of \<open>AddHosts\<close>: one pointer per specification, null for a host Envoy refuses, and for
  the others pointers of their own that no host in use has.\<close>

definition answers_nullable :: "HostPtr set \<Rightarrow> HostSpec list \<Rightarrow> HostPtr list \<Rightarrow> bool" where
  "answers_nullable L specs ptrs \<longleftrightarrow>
     length ptrs = length specs \<and> distinct (filter (\<lambda>p. p \<noteq> 0) ptrs) \<and> (\<forall>p\<in>set ptrs. p \<noteq> 0 \<longrightarrow> p \<notin> L)"

text \<open>Every address is known once, no two of them share a host, and the hosts Envoy has are the pointers that are
  not null.\<close>

definition discovery_ok :: "discoveryCluster \<Rightarrow> bool" where
  "discovery_ok c \<longleftrightarrow> distinct (map fst (dk_known c)) \<and> distinct (filter (\<lambda>p. p \<noteq> 0) (map snd (dk_known c))) \<and>
     live (dk_log c) - {0} = snd ` set (dk_known c) - {0}"

lemma nonnull_pointers_apart:
  "distinct (filter (\<lambda>p. p \<noteq> 0) (map snd xs)) \<Longrightarrow> distinct (map fst xs) \<Longrightarrow> (a, p) \<in> set xs \<Longrightarrow> (b, p) \<in> set xs \<Longrightarrow>
     p \<noteq> (0 :: HostPtr) \<Longrightarrow> a = b"
  by (induction xs) (force split: if_splits)+

lemma distinct_nonnull_filter:
  "distinct (filter (\<lambda>p. p \<noteq> 0) (map snd xs)) \<Longrightarrow> distinct (filter (\<lambda>p. p \<noteq> (0 :: HostPtr)) (map snd (filter Q xs)))"
  by (induction xs) (auto split: if_splits)


lemma discovery_add_ok:
  assumes "\<And>l specs. answers_nullable (live l) specs (add l specs)"
  shows "discovery_ok c \<Longrightarrow> \<exists>c'. discovery_add add order c = Inr c' \<and> discovery_ok c' \<and>
    fst ` set (dk_known c') = fst ` set (dk_known c) \<union> set order \<and> (\<forall>a p. map_of (dk_known c) a = Some p \<longrightarrow> map_of (dk_known c') a = Some p) \<and>
    (\<forall>a p. map_of (dk_known c) a = None \<and> map_of (dk_known c') a = Some p \<longrightarrow> (\<exists>l. add l [addr_spec a] = [p]))"
proof (induction order arbitrary: c)
  case (Cons addr order)
  show ?case
  proof (cases "map_of (dk_known c) addr")
    case (Some p)
    have "addr \<in> fst ` set (dk_known c)" using Some by (metis map_of_SomeD fst_conv image_eqI)
    then show ?thesis using Cons.IH [OF Cons.prems] Some by (simp add: insert_absorb)
  next
    case None
    let ?ptrs = "add (dk_log c) [addr_spec addr]"
    have a: "answers_nullable (live (dk_log c)) [addr_spec addr] ?ptrs" by (rule assms)
    then obtain p where p: "?ptrs = [p]" "p \<noteq> 0 \<Longrightarrow> p \<notin> live (dk_log c)"
      by (cases ?ptrs) (auto simp: answers_nullable_def)
    let ?c = "c\<lparr>dk_known := dk_known c @ [(addr, p)], dk_log := dk_log c @ [EAddHosts [addr_spec addr] [p], EUpdateHostHealth p HostHealthy]\<rparr>"
    have "live (dk_log ?c) = insert p (live (dk_log c))" by (simp add: live_def)
    moreover have "addr \<notin> fst ` set (dk_known c)" using None by (simp add: map_of_eq_None_iff)
    moreover have l: "live (dk_log c) - {0} = snd ` set (dk_known c) - {0}" using Cons.prems by (simp add: discovery_ok_def)
    moreover have "distinct (filter (\<lambda>p. p \<noteq> 0) (map snd (dk_known ?c)))"
    proof (cases "p = 0")
      case False
      then have "p \<notin> snd ` set (dk_known c) - {0}" using p(2) unfolding l [symmetric] by simp
      then have "p \<notin> set (filter (\<lambda>p. p \<noteq> 0) (map snd (dk_known c)))" by simp
      then show ?thesis using Cons.prems False by (simp add: discovery_ok_def)
    qed (use Cons.prems in \<open>simp add: discovery_ok_def\<close>)
    ultimately have ok: "discovery_ok ?c" using Cons.prems unfolding discovery_ok_def by (simp add: insert_Diff_if)
    have "discovery_add add (addr # order) c = discovery_add add order ?c" using None p(1) by (simp add: Let_def)
    moreover have "map_of (dk_known c) a' = Some q \<longrightarrow> map_of (dk_known ?c) a' = Some q" for a' q by (simp add: map_add_def)
    moreover obtain c' where c': "discovery_add add order ?c = Inr c'" "discovery_ok c'"
        "fst ` set (dk_known c') = fst ` set (dk_known ?c) \<union> set order" "\<forall>a p. map_of (dk_known ?c) a = Some p \<longrightarrow> map_of (dk_known c') a = Some p"
        "\<forall>a p. map_of (dk_known ?c) a = None \<and> map_of (dk_known c') a = Some p \<longrightarrow> (\<exists>l. add l [addr_spec a] = [p])"
      using Cons.IH [OF ok] by blast
    moreover have "\<exists>l. add l [addr_spec a'] = [q]" if "map_of (dk_known c) a' = None" "map_of (dk_known c') a' = Some q" for a' q
    proof (cases "a' = addr")
      case True
      then have "map_of (dk_known ?c) a' = Some p" using None by (simp add: map_add_def)
      then show ?thesis using c'(4) that(2) True p(1) by auto
    next
      case False
      then have "map_of (dk_known ?c) a' = None" using that(1) by (simp add: map_add_def)
      then show ?thesis using c'(5) that(2) by blast
    qed
    ultimately show ?thesis by (intro exI [of _ c']) auto
  qed
qed auto

lemma discovery_remove_ok:
  assumes "discovery_ok c" "distinct (map fst gone)" "set gone \<subseteq> set (dk_known c)"
  shows "discovery_ok (discovery_remove want gone c) \<and>
    dk_known (discovery_remove want gone c) = filter (\<lambda>(a, _). a \<in> want \<or> a \<notin> fst ` set gone) (dk_known c)"
  using assms
proof (induction gone arbitrary: c)
  case (Cons x gone)
  obtain addr ptr where x: "x = (addr, ptr)" by (cases x)
  show ?case
  proof (cases "addr \<in> want")
    case True
    have "(\<lambda>(a, _). a \<in> want \<or> a \<notin> fst ` set (x # gone)) = (\<lambda>(a, _ :: HostPtr). a \<in> want \<or> a \<notin> fst ` set gone)"
      using True x by (auto simp: fun_eq_iff)
    then show ?thesis using Cons.IH [of c] Cons.prems True x by simp
  next
    case False
    let ?c = "c\<lparr>dk_known := filter (\<lambda>(a, _). a \<noteq> addr) (dk_known c), dk_log := dk_log c @ [ERemoveHosts [ptr]]\<rparr>"
    have d: "distinct (map fst (dk_known c))" "distinct (filter (\<lambda>p. p \<noteq> 0) (map snd (dk_known c)))" and m: "(addr, ptr) \<in> set (dk_known c)"
      and l: "live (dk_log c) - {0} = snd ` set (dk_known c) - {0}"
      using Cons.prems x by (auto simp: discovery_ok_def)
    have "a = addr \<longleftrightarrow> q = ptr" if "(a, q) \<in> set (dk_known c)" "q \<noteq> 0" for a q
      using that d m eq_key_imp_eq_value [of "dk_known c" addr q ptr] nonnull_pointers_apart [OF d(2,1), of a q addr] by auto
    then have "snd ` {x \<in> set (dk_known c). fst x \<noteq> addr} - {0} = snd ` set (dk_known c) - {0} - {ptr}" by force
    moreover have "live (dk_log ?c) - {0} = live (dk_log c) - {0} - {ptr}" by auto
    ultimately have ok: "discovery_ok ?c"
      using d l distinct_nonnull_filter [OF d(2)] by (simp add: discovery_ok_def distinct_map_filter case_prod_beta)
    have sub: "set gone \<subseteq> set (dk_known ?c)" using Cons.prems(2,3) x by force
    have "filter (\<lambda>(a, _). a \<in> want \<or> a \<notin> fst ` set gone) (dk_known ?c) = filter (\<lambda>(a, _). a \<in> want \<or> a \<notin> fst ` set (x # gone)) (dk_known c)"
      using False x by (auto simp: intro!: filter_cong)
    then show ?thesis using Cons.IH [OF ok _ sub] Cons.prems(2) False x by simp
  qed
qed (auto simp: case_prod_beta)

section \<open>Round robin\<close>

lemma sint_small:
  assumes "unat (w :: uint64) < 2 ^ 63"
  shows "sint w = int (unat w)"
proof -
  have "int (unat w) < int (2 ^ 63)" using assms by (simp only: of_nat_less_iff)
  then have "int (unat w) < 2 ^ 63" by simp
  moreover have "- (2 ^ 63) \<le> int (unat w)" by (rule order_trans [of _ 0]) simp_all
  ultimately have "int64 (int (unat w)) = int (unat w)" by (intro int64_id)
  then show ?thesis by (simp add: int64_def)
qed

lemma unat_Suc64: "unat (w :: uint64) + 1 < 2 ^ 64 \<Longrightarrow> unat (w + 1) = unat w + 1"
  by (simp add: unat_word_ariths)

context cluster_lb_interface
begin

lemma round_robin_pick:
  assumes "ok c ps" "healthy (ps 0) \<noteq> []" "unat k < 2 ^ 63"
  shows "roundRobinLB_ChooseHost k (handle c) = (eh_ptr (healthy (ps 0) ! (unat k mod length (healthy (ps 0)))), k + 1)"
proof -
  let ?n = "length (healthy (ps 0))"
  have n: "0 < ?n" "HealthyHostCount (handle c) 0 = int ?n" using assms(2) healthy_count [OF assms(1)] by simp_all
  have i: "go_rem (sint k) (int ?n) = int (unat k mod ?n)" using assms(3) by (simp add: go_rem_def sint_small zmod_int)
  have "?n < 2 ^ 63" using bounded [OF assms(1), of 0] length_healthy [of "ps 0"] by simp
  then have "unat k mod ?n < 2 ^ 63" using mod_less_divisor [OF n(1), of "unat k"] by linarith
  then have "int_range (int (unat k mod ?n))" by (simp add: int_range_def)
  then show ?thesis
    using n i by (simp add: roundRobinLB_ChooseHost_def healthy_ptr [OF assms(1)] at_int_def)
qed

lemma round_robin_picks_eq:
  assumes "ok c ps" "healthy (ps 0) \<noteq> []"
  shows "unat k + m \<le> 2 ^ 63 \<Longrightarrow> round_robin_picks m k (handle c) =
    map (\<lambda>i. eh_ptr (healthy (ps 0) ! ((unat k + i) mod length (healthy (ps 0))))) [0..<m]"
proof (induction m arbitrary: k)
  case (Suc m)
  have k: "unat k < 2 ^ 63" "unat (k + 1) = unat k + 1" using Suc.prems unat_Suc64 [of k] by simp_all
  have "round_robin_picks (Suc m) k (handle c) =
      eh_ptr (healthy (ps 0) ! (unat k mod length (healthy (ps 0)))) # round_robin_picks m (k + 1) (handle c)"
    by (simp add: round_robin_pick [OF assms k(1)])
  also have "\<dots> = eh_ptr (healthy (ps 0) ! (unat k mod length (healthy (ps 0)))) #
      map (\<lambda>i. eh_ptr (healthy (ps 0) ! ((unat k + Suc i) mod length (healthy (ps 0))))) [0..<m]"
    using Suc.IH [of "k + 1"] Suc.prems k(2) by simp
  also have "\<dots> = map (\<lambda>i. eh_ptr (healthy (ps 0) ! ((unat k + i) mod length (healthy (ps 0))))) [0..<Suc m]"
    by (simp add: upt_conv_Cons map_Suc_upt [symmetric] del: upt_Suc)
  finally show ?case .
qed simp

lemma round_robin_round:
  assumes "ok c ps" "unat k + length (healthy (ps 0)) \<le> 2 ^ 63"
  shows "round_robin_picks (length (healthy (ps 0))) k (handle c) = rotate (unat k) (map eh_ptr (healthy (ps 0)))"
proof (cases "healthy (ps 0) = []")
  case False
  show ?thesis
    by (rule nth_equalityI) (simp_all add: round_robin_picks_eq [OF assms(1) False assms(2)] nth_rotate False)
qed simp

text \<open>Once the counter has passed \<open>2^63\<close> the remainder is negative, and a negative index finds no host.\<close>

lemma round_robin_negative:
  assumes "ok c ps" "go_rem (sint k) (int (length (healthy (ps 0)))) < 0" "int_range (go_rem (sint k) (int (length (healthy (ps 0)))))"
    and "healthy (ps 0) \<noteq> []"
  shows "fst (roundRobinLB_ChooseHost k (handle c)) = 0"
  using assms by (simp add: roundRobinLB_ChooseHost_def healthy_count [OF assms(1)] healthy_ptr [OF assms(1)] at_int_def Let_def)

end

section \<open>Properties\<close>

text \<open>C21. Discovery and Envoy never drift apart: from any state in which the hosts Envoy has are exactly the
  non-null pointers of the known addresses, applying a list of addresses, whatever duplicates it has, in whatever
  order the set is iterated and whichever hosts Envoy refuses, ends without a panic in such a state again, with
  exactly the listed addresses known. An address that is still wanted keeps its pointer, and a new one has the
  pointer Envoy answered for it: a host of its own, or null if Envoy refused it. Of \<open>AddHosts\<close> it is assumed only
  that it answers one pointer per host, null or not used by another.\<close>

theorem discovery_tracks_envoy:
  assumes "discovery_ok c" "set order = set addrs" "\<forall>l specs. answers_nullable (live l) specs (add l specs)"
  shows "\<exists>c'. applyHostsDirect add order addrs c = Inr c' \<and>
    distinct (map fst (dk_known c')) \<and> distinct (filter (\<lambda>p. p \<noteq> 0) (map snd (dk_known c'))) \<and>
    fst ` set (dk_known c') = set addrs \<and> live (dk_log c') - {0} = snd ` set (dk_known c') - {0} \<and>
    (\<forall>a\<in>set addrs. case map_of (dk_known c) a of
       Some p \<Rightarrow> map_of (dk_known c') a = Some p
     | None \<Rightarrow> \<exists>l p. add l [addr_spec a] = [p] \<and> map_of (dk_known c') a = Some p)"
proof -
  obtain c1 where 1: "discovery_add add order c = Inr c1" "discovery_ok c1"
      "fst ` set (dk_known c1) = fst ` set (dk_known c) \<union> set order" "\<forall>a p. map_of (dk_known c) a = Some p \<longrightarrow> map_of (dk_known c1) a = Some p"
      "\<forall>a p. map_of (dk_known c) a = None \<and> map_of (dk_known c1) a = Some p \<longrightarrow> (\<exists>l. add l [addr_spec a] = [p])"
    using discovery_add_ok [of add c order] assms(1,3) by blast
  let ?c = "discovery_remove (set addrs) (dk_known c1) c1"
  have "discovery_ok ?c \<and> dk_known ?c = filter (\<lambda>(a, _). a \<in> set addrs \<or> a \<notin> fst ` set (dk_known c1)) (dk_known c1)"
    by (rule discovery_remove_ok) (use 1(2) in \<open>simp_all add: discovery_ok_def\<close>)
  moreover have "filter (\<lambda>(a, _). a \<in> set addrs \<or> a \<notin> fst ` set (dk_known c1)) (dk_known c1) = filter (\<lambda>(a, _). a \<in> set addrs) (dk_known c1)"
    by (rule filter_cong) (auto intro: rev_image_eqI)
  ultimately have 2: "discovery_ok ?c" "dk_known ?c = filter (\<lambda>(a, _). a \<in> set addrs) (dk_known c1)" by simp_all
  have "fst ` {x \<in> set (dk_known c1). fst x \<in> set addrs} = fst ` set (dk_known c1) \<inter> set addrs" by auto
  then have keys: "fst ` set (dk_known ?c) = set addrs" using 2(2) 1(3) assms(2) by (auto simp: case_prod_beta)
  have "map_of (filter (\<lambda>(a, _). a \<in> set addrs) xs) a = (if a \<in> set addrs then map_of xs a else None)" for xs :: "(string \<times> HostPtr) list" and a
    by (induction xs) auto
  then have look: "map_of (dk_known ?c) a = map_of (dk_known c1) a" if "a \<in> set addrs" for a using 2(2) that by simp
  have "map_of (dk_known c1) a \<noteq> None" if "a \<in> set addrs" for a
    using that 1(3) assms(2) by (simp add: map_of_eq_None_iff)
  then have "\<forall>a\<in>set addrs. case map_of (dk_known c) a of Some p \<Rightarrow> map_of (dk_known ?c) a = Some p
     | None \<Rightarrow> \<exists>l p. add l [addr_spec a] = [p] \<and> map_of (dk_known ?c) a = Some p"
    using 1(4,5) look by (fastforce split: option.split)
  then show ?thesis using 1(1) 2(1) keys by (simp add: applyHostsDirect_def discovery_ok_def)
qed


definition demo_known :: discoveryCluster where
  "demo_known = \<lparr>dk_known = [(''a'', 1), (''b'', 2)], dk_log = [EAddHosts [addr_spec ''a'', addr_spec ''b''] [1, 2]]\<rparr>"

text \<open>An Envoy that refuses one address.\<close>

definition demo_refusing :: "string host_log \<Rightarrow> HostSpec list \<Rightarrow> HostPtr list" where
  "demo_refusing l specs = (if addr_spec ''bad'' \<in> set specs then replicate (length specs) 0 else demo_add_hosts l specs)"

lemma demo_refusing_ok: "answers_nullable (live l) specs (demo_refusing l specs)"
  using demo_answers_ok [of l specs] by (auto simp: answers_nullable_def answers_ok_def demo_refusing_def)

theorem discovery_tracks_envoy_witness:
  "\<exists>c'. applyHostsDirect demo_refusing [''bad'', ''b''] [''b'', ''bad'', ''b''] demo_known = Inr c' \<and>
     map_of (dk_known c') ''b'' = Some 2 \<and> map_of (dk_known c') ''bad'' = Some 0"
proof -
  have d: "discovery_ok demo_known" by (auto simp: discovery_ok_def demo_known_def live_def)
  have s: "set [''bad'', ''b''] = set [''b'', ''bad'', ''b'']" by auto
  have r: "\<forall>l specs. answers_nullable (live l) specs (demo_refusing l specs)" by (simp add: demo_refusing_ok)
  obtain c' where c': "applyHostsDirect demo_refusing [''bad'', ''b''] [''b'', ''bad'', ''b''] demo_known = Inr c'"
      "\<forall>a\<in>set [''b'', ''bad'', ''b'']. case map_of (dk_known demo_known) a of
         Some p \<Rightarrow> map_of (dk_known c') a = Some p
       | None \<Rightarrow> \<exists>l p. demo_refusing l [addr_spec a] = [p] \<and> map_of (dk_known c') a = Some p"
    using discovery_tracks_envoy [OF d s r] by blast
  then show ?thesis by (auto simp: demo_known_def demo_refusing_def)
qed


text \<open>C36. Round robin is fair and never out of range: on a host set that Envoy reports as documented, as many
  requests in a row as there are healthy hosts (and with the 64-bit counter still below \<open>2^63\<close>, where its
  conversion to \<open>int\<close> does not wrap) use every healthy host exactly once, in order, starting where the counter
  stands.\<close>

theorem round_robin_is_fair:
  assumes "documented m c ps" "unat k + length (healthy (ps 0)) \<le> 2 ^ 63"
  shows "round_robin_picks (length (healthy (ps 0))) k (dymClusterLBHandle m c) = rotate (unat k) (map eh_ptr (healthy (ps 0)))"
  using cluster_view.round_robin_round [of "(m, c)" ps k] assms by simp

theorem round_robin_is_fair_witness:
  "round_robin_picks 2 7 (dymClusterLBHandle demo_memory demo_calls) = [103, 102]"
proof -
  have "map eh_ptr (healthy (demo_ps 0)) = [102, 103]" "length (healthy (demo_ps 0)) = 2" by (simp_all add: demo_ps_def demo_host_def healthy_def)
  moreover have "rotate 7 [102, 103] = [103, 102 :: nat]" by code_simp
  ultimately show ?thesis using round_robin_is_fair [OF demo_documented, of 7] by simp
qed

end
