(* ===== verification/LLM_Decider.thy ===== *)
theory LLM_Decider
  imports Example_Clusters
begin

text \<open>
  The module of \<^verbatim>\<open>src/examples/llm-decider\<close>: a filter asks a judge model which tier should answer a request and writes
  the decision into its headers; a cluster, an upstream filter and an access logger read it there. The routing core
  (\<^verbatim>\<open>libsygo\<close>) and its codecs are not part of the repository: a decoded request, the outcome of a routing and the
  judge's messages are types of their own, and the functions between them parameters. Configured numbers that are
  only handed on are of a type of their own too.
\<close>

section \<open>Configuration (internal/config)\<close>

record 'd DeciderConfig =
  JudgeCluster :: string
  JudgePath :: string
  JudgeHost :: string
  JudgeTimeout :: int
  Cutoff :: 'd
  CapableModel :: string
  EfficientModel :: string
  JudgeModel :: string
  FailOpen :: bool

definition decider_env :: "(string \<Rightarrow> string) \<Rightarrow> string \<Rightarrow> string \<Rightarrow> string" where
  "decider_env getenv key fallback = (let v = getenv key in if v \<noteq> [] then v else fallback)"

text \<open>\<open>parse\<close> is \<^verbatim>\<open>strconv.Atoi\<close> or \<^verbatim>\<open>strconv.ParseFloat\<close>.\<close>

definition decider_envNum :: "(string \<Rightarrow> string) \<Rightarrow> (string \<Rightarrow> 'n option) \<Rightarrow> string \<Rightarrow> 'n \<Rightarrow> 'n" where
  "decider_envNum getenv parse key fallback =
     (let v = getenv key in if v \<noteq> [] then (case parse v of Some n \<Rightarrow> n | None \<Rightarrow> fallback) else fallback)"

definition decider_FromEnv :: "(string \<Rightarrow> string) \<Rightarrow> (string \<Rightarrow> int option) \<Rightarrow> (string \<Rightarrow> 'd option) \<Rightarrow> 'd \<Rightarrow> 'd DeciderConfig" where
  "decider_FromEnv getenv atoi parseFloat default_cutoff =
     \<lparr>JudgeCluster = decider_env getenv ''LLM_DECIDER_JUDGE_CLUSTER'' ''llm-decider-judge'',
      JudgePath = decider_env getenv ''LLM_DECIDER_JUDGE_PATH'' ''/v1/systemone'',
      JudgeHost = decider_env getenv ''LLM_DECIDER_JUDGE_HOST'' ''judge.local'',
      JudgeTimeout = int64 (decider_envNum getenv atoi ''LLM_DECIDER_JUDGE_TIMEOUT_MS'' 5000 * Millisecond),
      Cutoff = decider_envNum getenv parseFloat ''LLM_DECIDER_CUTOFF'' default_cutoff,
      CapableModel = decider_env getenv ''LLM_DECIDER_CAPABLE_MODEL'' ''smart'',
      EfficientModel = decider_env getenv ''LLM_DECIDER_EFFICIENT_MODEL'' ''cheap'',
      JudgeModel = decider_env getenv ''LLM_DECIDER_JUDGE_MODEL'' ''jev-latest'',
      FailOpen = (decider_env getenv ''LLM_DECIDER_FAIL_OPEN'' ''true'' \<noteq> ''false'')\<rparr>"

record 'd routing_profile =
  rp_ID :: string
  rp_Algorithm :: string
  rp_Mode :: string
  rp_FailOpen :: bool
  rp_SessionAffinity :: bool
  rp_JudgeType :: string
  rp_JudgeCutoff :: 'd
  rp_Candidates :: "(string \<times> string) list"
  rp_Evidence :: string

definition quoted :: "string \<Rightarrow> string" where
  "quoted s = [CHR 0x22] @ s @ [CHR 0x22]"

definition decider_Profile :: "'d DeciderConfig \<Rightarrow> 'd routing_profile" where
  "decider_Profile c =
     \<lparr>rp_ID = ''llm-decider/default'', rp_Algorithm = ''llm_classifier'', rp_Mode = ''capability'', rp_FailOpen = FailOpen c,
      rp_SessionAffinity = True, rp_JudgeType = ''decision'', rp_JudgeCutoff = Cutoff c,
      rp_Candidates = [(''a'', CapableModel c), (''b'', EfficientModel c)],
      rp_Evidence = ''{'' @ quoted ''candidates'' @ '':{'' @
        quoted ''a'' @ '':'' @ quoted ''Capable tier: used when the efficient tier is likely to fail the task'' @ '','' @
        quoted ''b'' @ '':'' @ quoted ''Efficient tier: used when it is likely to succeed'' @ ''}}''\<rparr>"

definition decider_Models :: "'d DeciderConfig \<Rightarrow> (string \<times> string list) list" where
  "decider_Models c =
     [(''capable'', [CapableModel c]), (''efficient'', [EfficientModel c]), (''judge'', [JudgeModel c]),
      (''any'', [EfficientModel c, CapableModel c])]"

section \<open>The filter\<close>

definition HeaderDecidedModel :: string where "HeaderDecidedModel = ''x-llm-decided-model''"
definition HeaderDecisionSource :: string where "HeaderDecisionSource = ''x-llm-decision-source''"
definition HeaderDecisionError :: string where "HeaderDecisionError = ''x-llm-decision-error''"
definition HeaderSession :: string where "HeaderSession = ''x-switchyard-session-id''"

lemmas decider_headers = HeaderDecidedModel_def HeaderDecisionSource_def HeaderDecisionError_def HeaderSession_def

text \<open>The context slot: \<open>None\<close> without one, otherwise the string in it, if it holds one.\<close>

type_synonym slot = "string option option"

definition sessionHandler :: "(string \<Rightarrow> string) \<Rightarrow> slot \<Rightarrow> slot" where
  "sessionHandler header ctx = (case ctx of None \<Rightarrow> None | Some _ \<Rightarrow> Some (Some (header HeaderSession)))"

definition requestFromBody :: "(bytes \<Rightarrow> string + 'r) \<Rightarrow> ('r \<Rightarrow> 'm list) \<Rightarrow> bytes \<Rightarrow> string + 'r" where
  "requestFromBody decode messages body =
     (if body = [] then Inl ''request has no body to decide on''
      else case decode body of
             Inl err \<Rightarrow> Inl (''normalizing request body: '' @ err)
           | Inr request \<Rightarrow>
               if messages request = []
               then Inl (''request body must carry a non-empty '' @ quoted ''messages'' @ '' array'')
               else Inr request)"

record routing_outcome =
  oc_Error :: string
  oc_Model :: string
  oc_Evidence :: bytes
  oc_Latched :: bool

text \<open>\<open>source_of\<close>: the member \<open>source\<close> of the evidence, \<open>None\<close> if it is not a JSON object.\<close>

definition decisionSource :: "(bytes \<Rightarrow> string option) \<Rightarrow> routing_outcome \<Rightarrow> string" where
  "decisionSource source_of oc =
     (case source_of (oc_Evidence oc) of
        Some s \<Rightarrow> if s \<noteq> [] then s else if oc_Latched oc then ''retained'' else []
      | None \<Rightarrow> if oc_Latched oc then ''retained'' else [])"

definition applyOutcome :: "(bytes \<Rightarrow> string option) \<Rightarrow> routing_outcome \<Rightarrow> wop list" where
  "applyOutcome source_of oc =
     (if oc_Error oc \<noteq> [] then [OpSetRequestHeader HeaderDecisionError (oc_Error oc)]
      else OpSetRequestHeader HeaderDecidedModel (oc_Model oc) #
           (let source = decisionSource source_of oc in if source \<noteq> [] then [OpSetRequestHeader HeaderDecisionSource source] else []))"

text \<open>What the body handler does: nothing yet, Writer calls, or a goroutine that routes a turn of a session.\<close>

datatype 'r decide = Waiting | Refused "wop list" | Route 'r string

definition decideHandler :: "(bytes \<Rightarrow> string + 'r) \<Rightarrow> ('r \<Rightarrow> 'm list) \<Rightarrow> bytes \<Rightarrow> bool \<Rightarrow> slot \<Rightarrow> 'r decide" where
  "decideHandler decode messages data end_stream ctx =
     (if \<not> end_stream then Waiting
      else case requestFromBody decode messages data of
             Inl err \<Rightarrow> Refused [OpSetRequestHeader HeaderDecisionError err]
           | Inr request \<Rightarrow> Route request (case ctx of Some (Some s) \<Rightarrow> s | _ \<Rightarrow> []))"

section \<open>The judge\<close>

text \<open>\<^verbatim>\<open>Duration.Milliseconds\<close>, and its conversion to \<open>uint64\<close>.\<close>

definition timeout_millis :: "int \<Rightarrow> uint64" where
  "timeout_millis d = word_of_int (sgn d * (\<bar>d\<bar> div Millisecond))"

fun result_code :: "HTTPCalloutResult \<Rightarrow> nat" where
  "result_code HTTPCalloutSuccess = 0"
| "result_code HTTPCalloutReset = 1"
| "result_code HTTPCalloutExceedResponseBufferLimit = 2"
| "result_code (HTTPCalloutUnknown r) = unat r"

definition judge_request :: "'d DeciderConfig \<Rightarrow> bytes \<Rightarrow> callout_request" where
  "judge_request c body =
     \<lparr>Cluster = JudgeCluster c,
      Headers = [('':method'', ''POST''), ('':path'', JudgePath c), ('':scheme'', ''http''), (''host'', JudgeHost c),
        (''content-type'', ''application/json'')],
      Body = body, TimeoutMillis = timeout_millis (JudgeTimeout c)\<rparr>"

text \<open>\<open>do_call\<close> is what \<open>Writer.Do\<close> returns.\<close>

definition judgeDecider_Call ::
    "('q \<Rightarrow> string + bytes) \<Rightarrow> (bytes \<Rightarrow> 'q \<Rightarrow> string + 'p) \<Rightarrow> (callout_request \<Rightarrow> string + callout_done) \<Rightarrow> 'd DeciderConfig \<Rightarrow> 'q \<Rightarrow> string + 'p" where
  "judgeDecider_Call encode decode do_call c request =
     (case encode request of
        Inl err \<Rightarrow> Inl (''encoding judge request: '' @ err)
      | Inr body \<Rightarrow>
          (case do_call (judge_request c body) of
             Inl err \<Rightarrow> Inl (''judge callout: '' @ err)
           | Inr (res, hs, chunks) \<Rightarrow>
               if res \<noteq> HTTPCalloutSuccess then Inl (''judge callout failed with result '' @ Itoa (result_code res))
               else case decode (concat chunks) request of
                      Inl err \<Rightarrow> Inl (''decoding judge response: '' @ err)
                    | Inr decoded \<Rightarrow> Inr decoded))"

section \<open>The cluster\<close>

record clusterHost =
  ch_Address :: string
  ch_Model :: string
  ch_Hostname :: string

fun check_cluster_hosts :: "nat \<Rightarrow> clusterHost list \<Rightarrow> string option" where
  "check_cluster_hosts i [] = None"
| "check_cluster_hosts i (h # hs) =
     (if ch_Address h = [] then Some (''llm-decider cluster: host '' @ Itoa i @ '' address is required'')
      else if ch_Model h = [] then Some (''llm-decider cluster: host '' @ Itoa i @ '' model is required'')
      else check_cluster_hosts (Suc i) hs)"

definition parseClusterHosts :: "(bytes \<Rightarrow> string + clusterHost list) \<Rightarrow> bytes \<Rightarrow> string + clusterHost list" where
  "parseClusterHosts unmarshal config =
     (if config = [] then Inl ''llm-decider cluster: config must include at least one host''
      else case unmarshal config of
             Inl err \<Rightarrow> Inl (''llm-decider cluster: parse config: '' @ err)
           | Inr [] \<Rightarrow> Inl ''llm-decider cluster: config must include at least one host''
           | Inr hosts \<Rightarrow> (case check_cluster_hosts 0 hosts of Some err \<Rightarrow> Inl err | None \<Rightarrow> Inr hosts))"

definition model_spec :: "clusterHost \<Rightarrow> HostSpec" where
  "model_spec h = \<lparr>Address = ch_Address h, Hostname = ch_Hostname h, Weight = 0, Metadata = [(''model'', ch_Model h)]\<rparr>"

fun model_table :: "(clusterHost \<times> HostPtr) list \<Rightarrow> (string \<rightharpoonup> HostPtr) \<Rightarrow> string \<rightharpoonup> HostPtr" where
  "model_table [] t = t"
| "model_table ((h, p) # hs) t = model_table hs (t(ch_Model h \<mapsto> p))"

definition modelCluster_Init :: "'e directory \<Rightarrow> clusterHost list \<Rightarrow> 'e \<Rightarrow> (string \<rightharpoonup> HostPtr) \<times> 'e" where
  "modelCluster_Init d hosts e =
     (case dir_Add d (map model_spec hosts) e of
        (ptrs, e1) \<Rightarrow> (model_table (zip hosts ptrs) Map.empty, mark_healthy d ptrs e1))"

fun lb_headerValue :: "header list \<Rightarrow> string \<Rightarrow> string" where
  "lb_headerValue [] nm = []"
| "lb_headerValue ((k, v) # hs) nm = (if k = nm then v else lb_headerValue hs nm)"

text \<open>\<open>hs\<close> is what \<open>GetAllHeaders\<close> answers.\<close>

definition modelClusterLB_ChooseHost :: "(string \<rightharpoonup> HostPtr) \<Rightarrow> 'r ClusterLBHandle_scheme \<Rightarrow> header list \<Rightarrow> HostPtr" where
  "modelClusterLB_ChooseHost byModel h hs =
     (if HealthyHostCount h 0 = 0 then 0
      else let model = lb_headerValue hs HeaderDecidedModel
           in if model \<noteq> [] \<and> byModel model \<noteq> None then the (byModel model) else HealthyHost h 0 0)"

section \<open>The other surfaces\<close>

definition decider_upstreamHandler :: "(string \<Rightarrow> string) \<Rightarrow> wop list" where
  "decider_upstreamHandler header =
     (let model = header HeaderDecidedModel; source = header HeaderDecisionSource
      in if model = [] then []
         else OpSetRequestHeader ''x-llm-target-model'' model #
              (if source \<noteq> [] then [OpSetRequestHeader ''x-llm-decision-source'' source] else []))"

definition firstHealthyPolicy_ChooseHost :: "'r LBHandle_scheme \<Rightarrow> choice" where
  "firstHealthyPolicy_ChooseHost lb = (if HealthyHostCount lb 0 = 0 then (False, 0, 0) else (True, 0, 0))"

text \<open>The values the logger prints; \<open>get\<close> is \<open>GetHeader\<close> on the request headers. A header
  that is not there reads as empty. The type of the end of a downstream stream is 6.\<close>

definition decisionAccessLogger_OnLog :: "(string \<Rightarrow> string option) \<Rightarrow> uint32 \<Rightarrow> nat \<Rightarrow> (string \<times> string \<times> string \<times> uint32) option" where
  "decisionAccessLogger_OnLog get code logType =
     (let or_empty = (\<lambda>x. case x of None \<Rightarrow> [] | Some v \<Rightarrow> v)
      in if logType \<noteq> 6 then None
         else if get HeaderDecidedModel = None then None
         else Some (or_empty (get HeaderDecidedModel), or_empty (get HeaderDecisionSource), or_empty (get HeaderDecisionError), code))"

section \<open>Properties\<close>

text \<open>Every model the judge can select is in the pool the selection is resolved against.\<close>

lemma candidates_are_routable: "snd ` set (rp_Candidates (decider_Profile c)) \<subseteq> set (the (map_of (decider_Models c) ''any''))"
  by (auto simp: decider_Profile_def decider_Models_def)

text \<open>The timeout of the judge arrives in Envoy as configured, as long as it is not negative and fits; a negative one
  becomes a wait of half a billion years.\<close>

lemma timeout_millis_roundtrip: "0 \<le> ms \<Longrightarrow> ms < 9223372036854 \<Longrightarrow> uint (timeout_millis (int64 (ms * Millisecond))) = ms"
  by (subst int64_id) (auto simp: timeout_millis_def Millisecond_def uint_word_of_int sgn_mult abs_mult sgn_if)

lemma negative_timeout_wraps: "0 < ms \<Longrightarrow> ms < 9223372036854 \<Longrightarrow> uint (timeout_millis (int64 (- ms * Millisecond))) = 2 ^ 64 - ms"
proof -
  assume ms: "0 < ms" "ms < 9223372036854"
  have "timeout_millis (int64 (- ms * Millisecond)) = word_of_int (- ms)"
    using ms by (subst int64_id) (auto simp: timeout_millis_def Millisecond_def sgn_mult abs_mult sgn_if)
  moreover have "(- ms) mod 2 ^ 64 = 2 ^ 64 - ms" using ms by (simp add: zmod_zminus1_eq_if)
  ultimately show ?thesis by (simp only: uint_word_of_int) simp
qed

lemma negative_timeout_example:
  "uint (TimeoutMillis (judge_request (decider_FromEnv (\<lambda>k. if k = ''LLM_DECIDER_JUDGE_TIMEOUT_MS'' then ''-1'' else []) (\<lambda>_. Some (- 1)) (\<lambda>_. None) ()) [])) = 2 ^ 64 - 1"
  using negative_timeout_wraps [of 1] by (simp add: judge_request_def decider_FromEnv_def decider_envNum_def)

lemma find_snoc: "find P (xs @ [y]) = (case find P xs of Some z \<Rightarrow> Some z | None \<Rightarrow> if P y then Some y else None)"
  by (induction xs) auto

lemma find_SomeD: "find P xs = Some x \<Longrightarrow> x \<in> set xs \<and> P x"
  by (induction xs) (auto split: if_splits)

lemma model_table_last:
  "model_table hs t m = (case find (\<lambda>x. ch_Model (fst x) = m) (rev hs) of Some x \<Rightarrow> Some (snd x) | None \<Rightarrow> t m)"
proof (induction hs arbitrary: t)
  case (Cons x hs)
  obtain h p where x: "x = (h, p)" by (cases x)
  show ?case using Cons.IH by (simp add: x find_snoc split: option.split)
qed simp

text \<open>A decision reaches its host: when the filter's decision is the first header of its name, and the decided model is the
  model of exactly one configured host, the cluster chooses the pointer Envoy returned for that host.\<close>

lemma decided_model_gets_its_host:
  assumes "HealthyHostCount h 0 \<noteq> 0" "lb_headerValue hs HeaderDecidedModel = ch_Model (hosts ! i)" "ch_Model (hosts ! i) \<noteq> []"
    "distinct (map ch_Model hosts)" "i < length hosts" "directory_ok d"
  shows "modelClusterLB_ChooseHost (fst (modelCluster_Init d hosts e)) h hs = fst (dir_Add d (map model_spec hosts) e) ! i"
proof -
  obtain ptrs e1 where a: "dir_Add d (map model_spec hosts) e = (ptrs, e1)" by fastforce
  have len: "length ptrs = length hosts" using assms(6) a unfolding directory_ok_def by (metis fst_conv length_map)
  have mem: "(hosts ! i, ptrs ! i) \<in> set (zip hosts ptrs)" using assms(5) len by (auto simp: set_zip)
  have "find (\<lambda>x. ch_Model (fst x) = ch_Model (hosts ! i)) (rev (zip hosts ptrs)) = Some (hosts ! i, ptrs ! i)"
  proof (cases "find (\<lambda>x. ch_Model (fst x) = ch_Model (hosts ! i)) (rev (zip hosts ptrs))")
    case None
    then show ?thesis using mem by (auto simp: find_None_iff)
  next
    case (Some x)
    then have x: "x \<in> set (zip hosts ptrs)" "ch_Model (fst x) = ch_Model (hosts ! i)"
      using find_SomeD by fastforce+
    then obtain j where j: "j < length hosts" "x = (hosts ! j, ptrs ! j)" using len by (auto simp: set_zip)
    then have "i = j" using x(2) assms(4,5) by (metis distinct_conv_nth fst_conv length_map nth_map)
    then show ?thesis using Some j by simp
  qed
  then have "fst (modelCluster_Init d hosts e) (ch_Model (hosts ! i)) = Some (ptrs ! i)"
    by (simp add: modelCluster_Init_def a model_table_last)
  then show ?thesis using assms(1-3) a by (simp add: modelClusterLB_ChooseHost_def)
qed

text \<open>A turn that fails leaves the decided model alone: nothing the filter does then touches that header, so the value a
  client sent in it reaches the cluster and decides.\<close>

lemma failure_leaves_client_model:
  "oc_Error oc \<noteq> [] \<Longrightarrow> OpSetRequestHeader HeaderDecidedModel v \<notin> set (applyOutcome source_of oc) \<and>
     OpRemoveRequestHeader HeaderDecidedModel \<notin> set (applyOutcome source_of oc)"
  "decideHandler decode messages data end_stream ctx = Refused ops \<Longrightarrow>
     OpSetRequestHeader HeaderDecidedModel v \<notin> set ops \<and> OpRemoveRequestHeader HeaderDecidedModel \<notin> set ops"
  by (auto simp: applyOutcome_def decideHandler_def decider_headers split: if_splits sum.splits)

text \<open>A judge call yields a verdict only from a successful callout, decoded against the request that was asked.\<close>

lemma judge_verdict_is_decoded:
  assumes "judgeDecider_Call encode decode do_call c request = Inr verdict"
  shows "\<exists>body hs chunks. encode request = Inr body \<and> do_call (judge_request c body) = Inr (HTTPCalloutSuccess, hs, chunks) \<and>
    decode (concat chunks) request = Inr verdict"
  using assms by (auto simp: judgeDecider_Call_def split: sum.splits prod.splits if_splits)

end
