(* ===== verification/WS_Proxy.thy ===== *)
theory WS_Proxy
  imports MCP_Types
begin

text \<open>
  The WebSocket proxy of \<^verbatim>\<open>src/examples/ws-proxy\<close>: the upstream filter that replaces credentials, the request with which the
  proxy dials, the tap that watches the frames of a session, the two pumps that carry them, and the record written
  at the end. The propagation of trace headers of \<^verbatim>\<open>src/examples/trace-propagation\<close> is the same. The sockets are parameters:
  the frames that are read until reading fails, and how many of the writes succeed. What \<^verbatim>\<open>encoding/json\<close> makes of a
  frame is a parameter too.
\<close>

section \<open>Credentials (auth.go)\<close>

record AuthConfig =
  StripHeaders :: "string list"
  InjectHeaders :: "(string \<times> string) list"

definition DefaultAuthConfig :: AuthConfig where
  "DefaultAuthConfig =
     \<lparr>StripHeaders = [''authorization'', ''x-api-key''], InjectHeaders = [(''authorization'', ''Bearer ${OPENAI_API_KEY}'')]\<rparr>"

definition HasSuffix :: "string \<Rightarrow> string \<Rightarrow> bool" where
  "HasSuffix s t \<longleftrightarrow> length t \<le> length s \<and> drop (length s - length t) s = t"

definition resolveValue :: "(string \<Rightarrow> string) \<Rightarrow> string \<Rightarrow> string" where
  "resolveValue getenv v =
     (if \<not> HasPrefix v ''${'' \<or> \<not> HasSuffix v ''}'' then v
      else let val = getenv (take (length v - 3) (drop 2 v)) in if val \<noteq> [] then val else v)"

definition ws_auth :: "(string \<Rightarrow> string) \<Rightarrow> AuthConfig \<Rightarrow> wop list" where
  "ws_auth getenv cfg =
     map (\<lambda>h. OpSetRequestHeader h []) (StripHeaders cfg) @
     concat (map (\<lambda>(k, v). let resolved = resolveValue getenv v in if resolved \<noteq> v then [OpSetRequestHeader k resolved] else [])
       (InjectHeaders cfg))"

section \<open>Trace headers\<close>

definition traceHeaders :: "string list" where
  "traceHeaders = [''traceparent'', ''tracestate'', ''x-request-id'']"

definition CopyTraceHeaders :: "header list \<Rightarrow> header list \<Rightarrow> header list" where
  "CopyTraceHeaders dst src = foldl (\<lambda>dst h. let v = Header_Get src h in if v \<noteq> [] then Header_Set h v dst else dst) dst traceHeaders"

section \<open>Dialing (ws_proxy.go)\<close>

record WSProxy =
  wp_upstreamURL :: string
  wp_authHeader :: string
  wp_authValue :: string
  wp_egressURL :: string

definition NewProxy :: "string \<Rightarrow> string \<Rightarrow> string \<Rightarrow> WSProxy" where
  "NewProxy url hdr val = \<lparr>wp_upstreamURL = url, wp_authHeader = hdr, wp_authValue = val, wp_egressURL = []\<rparr>"

definition dial_request :: "WSProxy \<Rightarrow> header list \<Rightarrow> string \<Rightarrow> string \<times> header list" where
  "dial_request p inbound path =
     (let (base, hs) =
        (if wp_egressURL p \<noteq> [] then (wp_egressURL p, [])
         else (wp_upstreamURL p,
               if wp_authHeader p \<noteq> [] \<and> wp_authValue p \<noteq> [] then Header_Set (wp_authHeader p) (wp_authValue p) [] else []))
      in (base @ path, CopyTraceHeaders hs inbound))"

section \<open>The tap\<close>

definition Contains :: "bytes \<Rightarrow> bytes \<Rightarrow> bool" where
  "Contains s t \<longleftrightarrow> list_ex (\<lambda>i. HasPrefix (drop i s) t) [0..<Suc (length s)]"

record SessionTap =
  tap_model :: string
  tap_input :: uint32
  tap_output :: uint32

definition NewSessionTap :: SessionTap where
  "NewSessionTap = \<lparr>tap_model = [], tap_input = 0, tap_output = 0\<rparr>"

text \<open>The parsers answer the members of a frame, absent ones as their zero values, and nothing for an invalid one.\<close>

record frame_json =
  as_create :: "bytes \<Rightarrow> (string \<times> string) option"
  as_completed :: "bytes \<Rightarrow> (string \<times> uint32 \<times> uint32) option"

definition FeedClient :: "frame_json \<Rightarrow> bytes \<Rightarrow> SessionTap \<Rightarrow> SessionTap" where
  "FeedClient js data t =
     (if tap_model t \<noteq> [] then t
      else if \<not> Contains data ''response.create'' then t
      else case as_create js data of
             Some (ty, model) \<Rightarrow> if ty = ''response.create'' \<and> model \<noteq> [] then t\<lparr>tap_model := model\<rparr> else t
           | None \<Rightarrow> t)"

definition FeedUpstream :: "frame_json \<Rightarrow> bytes \<Rightarrow> SessionTap \<Rightarrow> SessionTap" where
  "FeedUpstream js data t =
     (if \<not> Contains data ''response.completed'' then t
      else case as_completed js data of
             Some (ty, i, out) \<Rightarrow> if ty = ''response.completed'' then t\<lparr>tap_input := i, tap_output := out\<rparr> else t
           | None \<Rightarrow> t)"

section \<open>The pumps\<close>

text \<open>One direction of a session: the frames read, each with whether it is text, until reading fails with \<open>read_err\<close>, and
  the number of writes that succeed, after which a write fails with \<open>write_err\<close>. The result is the tap, the frames that
  were written, and the error the goroutine sends.\<close>

fun pump ::
    "(bytes \<Rightarrow> SessionTap \<Rightarrow> SessionTap) \<Rightarrow> string \<times> string \<Rightarrow> string \<times> string \<Rightarrow> (bool \<times> bytes) list \<Rightarrow> nat \<Rightarrow> SessionTap \<Rightarrow>
      SessionTap \<times> (bool \<times> bytes) list \<times> string" where
  "pump feed (rname, rerr) w [] n t = (t, [], rname @ '': '' @ rerr)"
| "pump feed r (wname, werr) ((is_text, data) # frames) n t =
     (let t = (if is_text then feed data t else t)
      in case n of
           0 \<Rightarrow> (t, [], wname @ '': '' @ werr)
         | Suc n \<Rightarrow> (let (t, out, err) = pump feed r (wname, werr) frames n t in (t, (is_text, data) # out, err)))"

definition client_pump :: "frame_json \<Rightarrow> string \<Rightarrow> string \<Rightarrow> (bool \<times> bytes) list \<Rightarrow> nat \<Rightarrow> SessionTap \<Rightarrow> SessionTap \<times> (bool \<times> bytes) list \<times> string" where
  "client_pump js rerr werr = pump (FeedClient js) (''client read'', rerr) (''upstream write'', werr)"

definition upstream_pump :: "frame_json \<Rightarrow> string \<Rightarrow> string \<Rightarrow> (bool \<times> bytes) list \<Rightarrow> nat \<Rightarrow> SessionTap \<Rightarrow> SessionTap \<times> (bool \<times> bytes) list \<times> string" where
  "upstream_pump js rerr werr = pump (FeedUpstream js) (''upstream read'', rerr) (''client write'', werr)"

section \<open>The session record (observability.go)\<close>

record SessionRecord =
  sr_Path :: string
  sr_Model :: string
  sr_InputTokens :: uint32
  sr_OutputTokens :: uint32
  sr_DurationMS :: int
  sr_Result :: string
  sr_Reason :: string

text \<open>The record that is logged; \<open>elapsed\<close> is in milliseconds.\<close>

definition recordActorSession :: "string \<Rightarrow> SessionTap \<Rightarrow> int \<Rightarrow> string option \<Rightarrow> SessionRecord" where
  "recordActorSession path t elapsed err =
     \<lparr>sr_Path = path, sr_Model = tap_model t, sr_InputTokens = tap_input t, sr_OutputTokens = tap_output t, sr_DurationMS = elapsed,
      sr_Result = (if err = None then ''ok'' else ''error''), sr_Reason = (case err of None \<Rightarrow> [] | Some e \<Rightarrow> e)\<rparr>"

text \<open>The end of a session: \<open>ServeHTTP\<close> takes the first error that a pump sends.\<close>

definition session_end :: "string \<Rightarrow> SessionTap \<Rightarrow> int \<Rightarrow> string \<Rightarrow> SessionRecord" where
  "session_end path t elapsed firstErr = recordActorSession path t elapsed (Some firstErr)"

section \<open>Properties\<close>

text \<open>The upstream filter never injects the provider's credential: its default value does not begin with the reference to
  the variable, so it is not expanded, and a value that was not expanded is not injected.\<close>

lemma ws_auth_never_injects:
  "ws_auth getenv DefaultAuthConfig = [OpSetRequestHeader ''authorization'' [], OpSetRequestHeader ''x-api-key'' []]"
  by (simp add: ws_auth_def DefaultAuthConfig_def resolveValue_def HasPrefix_def)

text \<open>A bare reference is expanded.\<close>

lemma resolveValue_reference:
  "getenv nm \<noteq> [] \<Longrightarrow> resolveValue getenv (''${'' @ nm @ ''}'') = getenv nm"
  by (simp add: resolveValue_def HasPrefix_def HasSuffix_def)

text \<open>No session is ever recorded as ok: a session ends when a pump sends its error.\<close>

lemma session_is_never_ok: "sr_Result (session_end path t elapsed firstErr) = ''error''"
  by (simp add: session_end_def recordActorSession_def)

text \<open>A pump writes the frames it read, unchanged and in order, up to the first failure, and always ends with an error.\<close>

lemma pump_forwards:
  "fst (snd (pump feed r w frames n t)) = take n frames \<and> snd (snd (pump feed r w frames n t)) \<noteq> []"
proof (induction frames arbitrary: n t)
  case Nil
  then show ?case by (cases r) simp
next
  case (Cons f frames)
  obtain is_text data where f: "f = (is_text, data)" by (cases f)
  obtain wname werr where w: "w = (wname, werr)" by (cases w)
  show ?case
  proof (cases n)
    case (Suc m)
    then show ?thesis using Cons.IH [of m "if is_text then feed data t else t"] by (cases is_text) (auto simp: f w split: prod.splits)
  qed (simp add: f w)
qed

text \<open>The tap keeps the first model of a session and the last usage.\<close>

definition names_model :: "frame_json \<Rightarrow> bytes \<Rightarrow> string option" where
  "names_model js data =
     (case as_create js data of
        Some (ty, model) \<Rightarrow> if Contains data ''response.create'' \<and> ty = ''response.create'' \<and> model \<noteq> [] then Some model else None
      | None \<Rightarrow> None)"

definition names_usage :: "frame_json \<Rightarrow> bytes \<Rightarrow> (uint32 \<times> uint32) option" where
  "names_usage js data =
     (case as_completed js data of
        Some (ty, i, out) \<Rightarrow> if Contains data ''response.completed'' \<and> ty = ''response.completed'' then Some (i, out) else None
      | None \<Rightarrow> None)"

lemma FeedClient_keeps: "tap_model t \<noteq> [] \<Longrightarrow> foldl (\<lambda>t d. FeedClient js d t) t ds = t"
  by (induction ds) (simp_all add: FeedClient_def)

lemma tap_keeps_first_model:
  "tap_model (foldl (\<lambda>t d. FeedClient js d t) NewSessionTap ds) = (case List.map_filter (names_model js) ds of [] \<Rightarrow> [] | m # _ \<Rightarrow> m)"
proof (induction ds)
  case (Cons d ds)
  show ?case
  proof (cases "names_model js d")
    case None
    then have "FeedClient js d NewSessionTap = NewSessionTap"
      by (auto simp: FeedClient_def names_model_def NewSessionTap_def split: option.splits if_splits)
    then show ?thesis using Cons None by (simp add: map_filter_simps)
  next
    case (Some m)
    then have "FeedClient js d NewSessionTap = NewSessionTap\<lparr>tap_model := m\<rparr>" "m \<noteq> []"
      by (auto simp: FeedClient_def names_model_def NewSessionTap_def split: option.splits if_splits)
    then show ?thesis using Some FeedClient_keeps [of "NewSessionTap\<lparr>tap_model := m\<rparr>" js ds] by (simp add: map_filter_simps)
  qed
qed (simp add: NewSessionTap_def map_filter_simps)

lemma tap_keeps_last_usage:
  "(\<lambda>t. (tap_input t, tap_output t)) (foldl (\<lambda>t d. FeedUpstream js d t) NewSessionTap ds) =
     (case rev (List.map_filter (names_usage js) ds) of [] \<Rightarrow> (0, 0) | u # _ \<Rightarrow> u)"
proof (induction ds rule: rev_induct)
  case (snoc d ds)
  have step: "(tap_input (FeedUpstream js d t), tap_output (FeedUpstream js d t)) =
      (case names_usage js d of Some u \<Rightarrow> u | None \<Rightarrow> (tap_input t, tap_output t))" for t
    by (auto simp: FeedUpstream_def names_usage_def split: option.splits if_splits)
  have "List.map_filter (names_usage js) (ds @ [d]) = List.map_filter (names_usage js) ds @ List.map_filter (names_usage js) [d]"
    by (simp add: List.map_filter_def)
  then show ?case using snoc step by (simp add: map_filter_simps split: option.splits)
qed (simp add: NewSessionTap_def map_filter_simps)

text \<open>Behind an egress listener the proxy sends no credential of its own, only trace headers.\<close>

lemma egress_sends_no_credential:
  assumes "wp_egressURL p \<noteq> []"
  shows "fst ` set (snd (dial_request p inbound path)) \<subseteq> set traceHeaders"
  using assms by (auto simp: dial_request_def CopyTraceHeaders_def traceHeaders_def Header_Set_def Let_def split: if_splits)

lemma direct_dial_sends_credential:
  assumes "wp_egressURL p = []" "wp_authHeader p \<noteq> []" "wp_authValue p \<noteq> []" "\<forall>h\<in>set traceHeaders. \<not> EqualFold h (wp_authHeader p)"
  shows "Header_Get (snd (dial_request p inbound path)) (wp_authHeader p) = wp_authValue p"
  using assms by (simp add: dial_request_def CopyTraceHeaders_def traceHeaders_def Header_Get_Set EqualFold_def Let_def)

end
