(* ===== verification/Model_Router.thy ===== *)
theory Model_Router
  imports Route_Hosts Filter_State
begin

text \<open>
  The model router of \<^verbatim>\<open>src/examples/cluster-router\<close>: a cluster whose hosts and routes come from a configuration that
  is fetched in the background, a balancer that picks the host of the model a request names, an upstream filter
  that adds the provider's credentials, and a filter that dumps the active configuration. Go maps are association
  lists where the code iterates over them, in the order of the iteration, and maps otherwise.
\<close>

section \<open>Configuration\<close>

definition defaultRouteHeader :: string where "defaultRouteHeader = ''x-model''"
definition tenantHeader :: string where "tenantHeader = ''x-tenant''"
definition debugPath :: string where "debugPath = ''/__cluster-router/config''"
definition defaultScope :: string where "defaultScope = ''default''"

record modelConfig =
  mc_Target :: string
  mc_Provider :: string
  mc_AuthHeader :: string
  mc_AuthRef :: string
  mc_Profile :: string
  mc_BYOKKeyID :: string

record authPolicy =
  au_Type :: string
  au_Header :: string
  au_TenantHeader :: string

type_synonym byok = "string \<rightharpoonup> (string \<rightharpoonup> string)"

record configSnapshot =
  cf_Version :: string
  cf_Models :: "(string \<times> modelConfig) list"
  cf_Auth :: "(string \<times> authPolicy) list"
  cf_BYOK :: byok

record routerConfig =
  rcf_Scope :: string
  rcf_RouteHeader :: string
  rcf_ConfigURL :: string
  rcf_RefreshMillis :: int
  rcf_TimeoutMillis :: int
  rcf_Initial :: configSnapshot

definition config_scope :: "routerConfig \<Rightarrow> string" where
  "config_scope c = (if rcf_Scope c = [] then defaultScope else rcf_Scope c)"

definition config_refresh :: "routerConfig \<Rightarrow> int" where
  "config_refresh c = (if rcf_RefreshMillis c \<le> 0 then Second else int64 (rcf_RefreshMillis c * Millisecond))"

definition config_timeout :: "routerConfig \<Rightarrow> int" where
  "config_timeout c = (if rcf_TimeoutMillis c \<le> 0 then 500 * Millisecond else int64 (rcf_TimeoutMillis c * Millisecond))"

definition config_routeHeader :: "routerConfig \<Rightarrow> string" where
  "config_routeHeader c = (if rcf_RouteHeader c = [] then defaultRouteHeader else rcf_RouteHeader c)"

record modelRoute =
  mr_Target :: string
  mr_Address :: string
  mr_Provider :: string
  mr_AuthHeader :: string
  mr_AuthRef :: string
  mr_Profile :: string
  mr_BYOKKeyID :: string

record routeSnapshot =
  sn_Version :: string
  sn_RouteHeader :: string
  sn_Models :: "(string \<times> modelRoute) list"
  sn_Auth :: "(string \<times> authPolicy) list"
  sn_BYOK :: byok

record routeStore =
  st_current :: routeSnapshot
  st_hosts :: "string \<rightharpoonup> HostPtr"

definition newRouteStore :: routeStore where
  "newRouteStore = \<lparr>st_current = \<lparr>sn_Version = [], sn_RouteHeader = defaultRouteHeader, sn_Models = [], sn_Auth = [], sn_BYOK = Map.empty\<rparr>,
     st_hosts = Map.empty\<rparr>"

text \<open>One store per scope, created on first use.\<close>

definition routeStoreForScope :: "string \<Rightarrow> (string \<rightharpoonup> routeStore) \<Rightarrow> routeStore \<times> (string \<rightharpoonup> routeStore)" where
  "routeStoreForScope sc stores =
     (let sc = (if sc = [] then defaultScope else sc)
      in case stores sc of
           Some st \<Rightarrow> (st, stores)
         | None \<Rightarrow> (newRouteStore, stores(sc \<mapsto> newRouteStore)))"

definition LookupModel :: "routeStore \<Rightarrow> string \<Rightarrow> modelRoute option" where
  "LookupModel st model = map_of (sn_Models (st_current st)) model"

text \<open>\<open>Publish\<close> stores a copy; values of the model are never changed in place, so the copy is the value.\<close>

definition Publish :: "routeSnapshot \<Rightarrow> routeStore \<Rightarrow> routeStore" where
  "Publish snap st = st\<lparr>st_current := snap\<rparr>"

definition parseRouterConfig :: "(bytes \<Rightarrow> string + routerConfig) \<Rightarrow> bytes \<Rightarrow> string + routerConfig" where
  "parseRouterConfig unmarshal config =
     (if config = [] then Inr \<lparr>rcf_Scope = [], rcf_RouteHeader = [], rcf_ConfigURL = [], rcf_RefreshMillis = 0, rcf_TimeoutMillis = 0,
        rcf_Initial = \<lparr>cf_Version = [], cf_Models = [], cf_Auth = [], cf_BYOK = Map.empty\<rparr>\<rparr>
      else case unmarshal config of Inl err \<Rightarrow> Inl (''cluster-router: parse config: '' @ err) | Inr cfg \<Rightarrow> Inr cfg)"

fun resolve_models :: "net \<Rightarrow> (string \<times> modelConfig) list \<Rightarrow> (string \<times> modelRoute) list \<Rightarrow> string + (string \<times> modelRoute) list" where
  "resolve_models nw [] out = Inr out"
| "resolve_models nw ((nm, model) # rest) out =
     (if mc_Target model = [] then Inl (''cluster-router: model '' @ nm @ '' target is required'')
      else case resolveTarget nw (mc_Target model) of
             Inl err \<Rightarrow> Inl err
           | Inr addr \<Rightarrow> resolve_models nw rest (out @ [(nm,
               \<lparr>mr_Target = mc_Target model, mr_Address = addr, mr_Provider = mc_Provider model, mr_AuthHeader = mc_AuthHeader model,
                mr_AuthRef = mc_AuthRef model, mr_Profile = mc_Profile model, mr_BYOKKeyID = mc_BYOKKeyID model\<rparr>)]))"

definition resolveConfigSnapshot :: "net \<Rightarrow> configSnapshot \<Rightarrow> string \<Rightarrow> string + routeSnapshot" where
  "resolveConfigSnapshot nw cfg rh =
     (let rh = (if rh = [] then defaultRouteHeader else rh)
      in case resolve_models nw (cf_Models cfg) [] of
           Inl err \<Rightarrow> Inl err
         | Inr models \<Rightarrow> Inr \<lparr>sn_Version = cf_Version cfg, sn_RouteHeader = rh, sn_Models = models, sn_Auth = cf_Auth cfg, sn_BYOK = cf_BYOK cfg\<rparr>)"

section \<open>The cluster\<close>

text \<open>What Envoy's main thread has still to do in the callback it is running, one statement per call that another
  thread could see between two others: the body of the loop of \<open>applySnapshot\<close> for one address (look the host up,
  add it, mark it healthy, remember it), \<open>Publish\<close>, and the two statements of \<open>Init\<close> after \<open>applySnapshot\<close>.\<close>

datatype main_stmt =
    ApRoute string
  | ApAdd string
  | ApHealth HostPtr
  | ApRemember string HostPtr
  | ApPublish routeSnapshot
  | ApPreInitComplete
  | ApStartFetchLoop

text \<open>A cluster with its store, the statements the main thread is in the middle of, the snapshots scheduled on that
  thread, whether its fetch loop runs, and Envoy's hosts. Worker threads read the store and Envoy's hosts between
  any two statements.\<close>

record 'e routerCluster =
  rc_cfg :: routerConfig
  rc_store :: routeStore
  rc_group :: bool
  rc_main :: "main_stmt list"
  rc_scheduled :: "routeSnapshot list"
  rc_ready :: bool
  rc_envoy :: 'e

definition NewCluster :: "routerConfig \<Rightarrow> routeStore \<Rightarrow> 'e \<Rightarrow> 'e routerCluster" where
  "NewCluster cfg st e = \<lparr>rc_cfg = cfg, rc_store = st, rc_group = False, rc_main = [], rc_scheduled = [], rc_ready = False, rc_envoy = e\<rparr>"

text \<open>The calls of \<open>applySnapshot\<close>, in the order it makes them: every host first, then \<open>Publish\<close>.\<close>

definition applySnapshot :: "routeSnapshot \<Rightarrow> main_stmt list" where
  "applySnapshot snap = map (\<lambda>(_, route). ApRoute (mr_Address route)) (sn_Models snap) @ [ApPublish snap]"

text \<open>The early \<open>return\<close> of \<open>applySnapshot\<close> skips what is left of it, up to and including its \<open>Publish\<close>; the
  statements of the caller stay.\<close>

fun return_apply :: "main_stmt list \<Rightarrow> main_stmt list" where
  "return_apply [] = []"
| "return_apply (ApPublish _ # rest) = rest"
| "return_apply (_ # rest) = return_apply rest"


definition startFetchLoop :: "'e routerCluster \<Rightarrow> 'e routerCluster" where
  "startFetchLoop c = (if rcf_ConfigURL (rc_cfg c) = [] \<or> rc_group c then c else c\<lparr>rc_group := True\<rparr>)"

definition routerCluster_Init :: "net \<Rightarrow> 'e routerCluster \<Rightarrow> 'e routerCluster" where
  "routerCluster_Init nw c = c\<lparr>rc_main :=
     (if cf_Models (rcf_Initial (rc_cfg c)) \<noteq> []
      then case resolveConfigSnapshot nw (rcf_Initial (rc_cfg c)) (config_routeHeader (rc_cfg c)) of
             Inr snap \<Rightarrow> applySnapshot snap
           | Inl _ \<Rightarrow> []
      else []) @ [ApPreInitComplete, ApStartFetchLoop]\<rparr>"

definition RememberHost :: "string \<Rightarrow> HostPtr \<Rightarrow> routeStore \<Rightarrow> routeStore" where
  "RememberHost addr host st = st\<lparr>st_hosts := (st_hosts st)(addr \<mapsto> host)\<rparr>"

text \<open>One statement of the main thread.\<close>

fun exec_stmt :: "'e directory \<Rightarrow> main_stmt \<Rightarrow> main_stmt list \<Rightarrow> 'e routerCluster \<Rightarrow> 'e routerCluster" where
  "exec_stmt d (ApRoute addr) rest c =
     (let host = dir_Find d (rc_envoy c) addr
      in c\<lparr>rc_main := (if host = 0 then ApAdd addr else ApRemember addr host) # rest\<rparr>)"
| "exec_stmt d (ApAdd addr) rest c =
     (case dir_Add d [addr_spec addr] (rc_envoy c) of
        ([], e) \<Rightarrow> c\<lparr>rc_main := return_apply rest, rc_envoy := e\<rparr>
      | (host # _, e) \<Rightarrow> c\<lparr>rc_main := ApHealth host # ApRemember addr host # rest, rc_envoy := e\<rparr>)"
| "exec_stmt d (ApHealth host) rest c = c\<lparr>rc_main := rest, rc_envoy := dir_Health d host HostHealthy (rc_envoy c)\<rparr>"
| "exec_stmt d (ApRemember addr host) rest c = c\<lparr>rc_main := rest, rc_store := RememberHost addr host (rc_store c)\<rparr>"
| "exec_stmt d (ApPublish snap) rest c = c\<lparr>rc_main := rest, rc_store := Publish snap (rc_store c)\<rparr>"
| "exec_stmt d ApPreInitComplete rest c = c\<lparr>rc_main := rest, rc_ready := True\<rparr>"
| "exec_stmt d ApStartFetchLoop rest c = startFetchLoop (c\<lparr>rc_main := rest\<rparr>)"

definition main_step :: "'e directory \<Rightarrow> 'e routerCluster \<Rightarrow> 'e routerCluster" where
  "main_step d c = (case rc_main c of [] \<Rightarrow> c | s # rest \<Rightarrow> exec_stmt d s rest c)"


text \<open>What a fetch brings: nothing usable (no response, a status other than 200, a body that does not decode), or
  a configuration, which is resolved and scheduled.\<close>

definition fetchOnce :: "net \<Rightarrow> configSnapshot option \<Rightarrow> 'e routerCluster \<Rightarrow> 'e routerCluster" where
  "fetchOnce nw fetched c =
     (case fetched of
        None \<Rightarrow> c
      | Some cfg \<Rightarrow>
          (case resolveConfigSnapshot nw cfg (config_routeHeader (rc_cfg c)) of
             Inl _ \<Rightarrow> c
           | Inr snap \<Rightarrow> c\<lparr>rc_scheduled := rc_scheduled c @ [snap]\<rparr>))"

definition routerCluster_stop :: "'e routerCluster \<Rightarrow> 'e routerCluster" where
  "routerCluster_stop c = (if rc_group c then c\<lparr>rc_group := False\<rparr> else c)"

definition routerLB_ChooseHost :: "routeStore \<Rightarrow> ClusterLBHandle \<Rightarrow> LBContext \<Rightarrow> HostPtr" where
  "routerLB_ChooseHost st h ctx =
     (let snap = st_current st;
          rh = (if sn_RouteHeader snap = [] then defaultRouteHeader else sn_RouteHeader snap);
          (model, ok) = GetHeader ctx rh
      in if \<not> ok \<or> model = [] then 0
         else case map_of (sn_Models snap) model of None \<Rightarrow> 0 | Some route \<Rightarrow> FindHostByAddress h (mr_Address route))"

section \<open>The filters\<close>

definition resolveAuthHeader :: "routeSnapshot \<Rightarrow> modelRoute \<Rightarrow> string \<Rightarrow> string" where
  "resolveAuthHeader snap route tenant =
     (if mr_AuthHeader route \<noteq> [] then mr_AuthHeader route
      else if mr_AuthRef route = [] then []
      else case map_of (sn_Auth snap) (mr_AuthRef route) of
             None \<Rightarrow> []
           | Some policy \<Rightarrow>
               if au_Type policy = ''static'' then au_Header policy
               else if au_Type policy = ''byok'' then
                 if tenant = [] then []
                 else case sn_BYOK snap tenant of
                        Some providers \<Rightarrow> (case providers (mr_Provider route) of Some h \<Rightarrow> h | None \<Rightarrow> [])
                      | None \<Rightarrow> []
               else [])"

definition set_if :: "string \<Rightarrow> string \<Rightarrow> wop list" where
  "set_if nm v = (if v \<noteq> [] then [OpSetRequestHeader nm v] else [])"

definition upstreamHeaderFilter :: "routeStore \<Rightarrow> (string \<Rightarrow> string) \<Rightarrow> wop list" where
  "upstreamHeaderFilter st header =
     (let snap = st_current st;
          rh = (if sn_RouteHeader snap = [] then defaultRouteHeader else sn_RouteHeader snap);
          model = header rh
      in if model = [] then []
         else case map_of (sn_Models snap) model of
                None \<Rightarrow> []
              | Some route \<Rightarrow>
                  set_if ''authorization'' (resolveAuthHeader snap route (header tenantHeader)) @
                  set_if ''x-llm-provider'' (mr_Provider route) @
                  set_if ''x-user-profile'' (mr_Profile route) @
                  set_if ''x-byok-key-id'' (mr_BYOKKeyID route) @
                  set_if ''x-cluster-router-version'' (sn_Version snap))"

record debugModel =
  dm_Target :: string
  dm_Address :: string
  dm_Provider :: string
  dm_AuthRef :: string
  dm_Profile :: string
  dm_BYOKKeyID :: string

record debugSnapshot =
  db_Version :: string
  db_RouteHeader :: string
  db_Models :: "(string \<times> debugModel) list"
  db_Auth :: "(string \<times> string \<times> bool) list"

definition DebugSnapshot :: "routeStore \<Rightarrow> debugSnapshot" where
  "DebugSnapshot st =
     (let snap = st_current st
      in \<lparr>db_Version = sn_Version snap,
          db_RouteHeader = (if sn_RouteHeader snap = [] then defaultRouteHeader else sn_RouteHeader snap),
          db_Models = map (\<lambda>(nm, r). (nm, \<lparr>dm_Target = mr_Target r, dm_Address = mr_Address r, dm_Provider = mr_Provider r,
             dm_AuthRef = mr_AuthRef r, dm_Profile = mr_Profile r, dm_BYOKKeyID = mr_BYOKKeyID r\<rparr>)) (sn_Models snap),
          db_Auth = map (\<lambda>(nm, a). (nm, au_Type a, True)) (sn_Auth snap)\<rparr>)"

definition json_content_type :: "header list" where
  "json_content_type = [(''content-type'', ''application/json'')]"

definition debugHandler :: "(debugSnapshot \<Rightarrow> string + bytes) \<Rightarrow> routeStore \<Rightarrow> string \<Rightarrow> wop list" where
  "debugHandler marshal st path =
     (if path \<noteq> debugPath then []
      else case marshal (DebugSnapshot st) of
             Inl _ \<Rightarrow> [OpSendLocalResponse 500 (''{'' @ [CHR 0x22] @ ''error'' @ [CHR 0x22] @ '':'' @ [CHR 0x22] @ ''marshal config'' @ [CHR 0x22] @ ''}'') json_content_type]
           | Inr b \<Rightarrow> [OpSendLocalResponse 200 b json_content_type])"

section \<open>Every published route has a host\<close>

text \<open>The steps of a cluster: its callbacks and the scheduled snapshots, which the idle main thread takes up, the
  main thread's statements one by one, fetches of the loop, and changes of Envoy's own that lose no host.\<close>

inductive router_step :: "'e directory \<Rightarrow> net \<Rightarrow> 'e routerCluster \<Rightarrow> 'e routerCluster \<Rightarrow> bool" for d nw where
  Init: "rc_main c = [] \<Longrightarrow> router_step d nw c (routerCluster_Init nw c)"
| ServerInitialized: "rc_main c = [] \<Longrightarrow> router_step d nw c (startFetchLoop c)"
| Fetch: "rc_group c \<Longrightarrow> router_step d nw c (fetchOnce nw fetched c)"
| Scheduled: "rc_main c = [] \<Longrightarrow> rc_scheduled c = snap # rest \<Longrightarrow>
    router_step d nw c (c\<lparr>rc_scheduled := rest, rc_main := applySnapshot snap\<rparr>)"
| Main: "router_step d nw c (main_step d c)"
| Stop: "rc_main c = [] \<Longrightarrow> router_step d nw c (routerCluster_stop c)"
| Envoy: "(\<forall>a. dir_Find d (rc_envoy c) a \<noteq> 0 \<longrightarrow> dir_Find d e a \<noteq> 0) \<Longrightarrow> router_step d nw c (c\<lparr>rc_envoy := e\<rparr>)"

inductive router_run :: "'e directory \<Rightarrow> net \<Rightarrow> 'e routerCluster \<Rightarrow> 'e routerCluster \<Rightarrow> bool" for d nw where
  run_start: "router_run d nw c c"
| run_step: "router_run d nw c c1 \<Longrightarrow> router_step d nw c1 c2 \<Longrightarrow> router_run d nw c c2"

lemma run_main_steps: "router_run d nw c c1 \<Longrightarrow> router_run d nw c ((main_step d ^^ n) c1)"
  by (induction n) (auto intro: run_step Main)

text \<open>The statements of \<open>applySnapshot\<close> do come to an end, and together they are the loop of \<open>ensure_hosts\<close> followed
  by \<open>Publish\<close>, unless the loop was left early.\<close>

definition apply_result :: "'e directory \<Rightarrow> routeSnapshot \<Rightarrow> main_stmt list \<Rightarrow> 'e routerCluster \<Rightarrow> 'e routerCluster" where
  "apply_result d snap k c =
     (case ensure_hosts d (map (\<lambda>(_, route). mr_Address route) (sn_Models snap)) (st_hosts (rc_store c)) (rc_envoy c) of
        (completed, hosts, e) \<Rightarrow>
          c\<lparr>rc_main := k, rc_store := (if completed then Publish snap else id) ((rc_store c)\<lparr>st_hosts := hosts\<rparr>), rc_envoy := e\<rparr>)"


lemma main_step_Cons: "rc_main c = s # rest \<Longrightarrow> main_step d c = exec_stmt d s rest c"
  by (simp add: main_step_def)


lemma return_apply_routes [simp]: "return_apply (map (\<lambda>(_, route). ApRoute (mr_Address route)) ms @ ApPublish snap # k) = k"
  by (induction ms) auto

lemma steps_more: "(\<exists>n. (f ^^ n) (f x) = y) \<Longrightarrow> \<exists>n. (f ^^ n) x = y"
  by (metis funpow_Suc_right comp_apply)

lemma apply_loop_runs:
  "rc_main c = map (\<lambda>(_, route). ApRoute (mr_Address route)) ms @ ApPublish snap # k \<Longrightarrow>
   \<exists>n. (main_step d ^^ n) c =
     (case ensure_hosts d (map (\<lambda>(_, route). mr_Address route) ms) (st_hosts (rc_store c)) (rc_envoy c) of
        (completed, hosts, e) \<Rightarrow> c\<lparr>rc_main := k, rc_store := (if completed then Publish snap else id) ((rc_store c)\<lparr>st_hosts := hosts\<rparr>), rc_envoy := e\<rparr>)"
proof (induction ms arbitrary: c)
  case Nil
  then show ?case by (intro exI [of _ "Suc 0"]) (simp add: main_step_Cons)
next
  case (Cons m ms)
  let ?rest = "map (\<lambda>(_, route). ApRoute (mr_Address route)) ms @ ApPublish snap # k"
  let ?R = "\<lambda>ms c. case ensure_hosts d (map (\<lambda>(_, route). mr_Address route) ms) (st_hosts (rc_store c)) (rc_envoy c) of
        (completed, hosts, e) \<Rightarrow> c\<lparr>rc_main := k, rc_store := (if completed then Publish snap else id) ((rc_store c)\<lparr>st_hosts := hosts\<rparr>), rc_envoy := e\<rparr>"
  obtain nm route where m: "m = (nm, route)" by (cases m)
  let ?a = "mr_Address route"
  have c: "rc_main c = ApRoute ?a # ?rest" using Cons.prems m by simp
  obtain ps e where add: "dir_Add d [addr_spec ?a] (rc_envoy c) = (ps, e)" by fastforce
  consider (found) "dir_Find d (rc_envoy c) ?a \<noteq> 0" | (none) "dir_Find d (rc_envoy c) ?a = 0" "ps = []"
    | (added) p ps' where "dir_Find d (rc_envoy c) ?a = 0" "ps = p # ps'" by (cases ps) auto
  then show ?case
  proof cases
    case found
    let ?c = "c\<lparr>rc_main := ?rest, rc_store := RememberHost ?a (dir_Find d (rc_envoy c) ?a) (rc_store c)\<rparr>"
    have "main_step d (main_step d c) = ?c" using found c by (simp add: main_step_def)
    then have "\<exists>n. (main_step d ^^ n) c = (main_step d ^^ n') ?c" for n'
      by (metis steps_more)
    moreover obtain n where "(main_step d ^^ n) ?c = ?R ms ?c" using Cons.IH [of ?c] by auto
    ultimately have "\<exists>n. (main_step d ^^ n) c = ?R ms ?c" by metis
    moreover have "?R ms ?c = ?R (m # ms) c" using found by (simp add: m ensure_host_def RememberHost_def split: prod.splits)
    ultimately show ?thesis by simp
  next
    case none
    have "main_step d (main_step d c) = c\<lparr>rc_main := k, rc_envoy := e\<rparr>" using none c add by (simp add: main_step_def)
    then show ?thesis using none add by (intro exI [of _ "Suc (Suc 0)"]) (simp add: m ensure_host_def)
  next
    case added
    let ?c = "c\<lparr>rc_main := ?rest, rc_store := RememberHost ?a p (rc_store c), rc_envoy := dir_Health d p HostHealthy e\<rparr>"
    have "main_step d (main_step d (main_step d (main_step d c))) = ?c" using added c add by (simp add: main_step_def)
    then have "\<exists>n. (main_step d ^^ n) c = (main_step d ^^ n') ?c" for n'
      by (metis steps_more)
    moreover obtain n where "(main_step d ^^ n) ?c = ?R ms ?c" using Cons.IH [of ?c] by auto
    ultimately have "\<exists>n. (main_step d ^^ n) c = ?R ms ?c" by metis
    moreover have "?R ms ?c = ?R (m # ms) c" using added add by (simp add: m ensure_host_def RememberHost_def split: prod.splits)
    ultimately show ?thesis by simp
  qed
qed

lemma apply_statements_run:
  "\<exists>n. (main_step d ^^ n) (c\<lparr>rc_main := applySnapshot snap @ k\<rparr>) = apply_result d snap k c"
  using apply_loop_runs [of "c\<lparr>rc_main := applySnapshot snap @ k\<rparr>" "sn_Models snap" snap k d]
  by (auto simp: applySnapshot_def apply_result_def split: prod.splits)


text \<open>The invariant: every published route whose address Envoy accepts is known to Envoy, and so will be every
  route of the snapshot a pending \<open>Publish\<close> is about, by the statements before it.\<close>

fun covered :: "(string \<Rightarrow> bool) \<Rightarrow> main_stmt list \<Rightarrow> bool" where
  "covered K [] \<longleftrightarrow> True"
| "covered K (ApPublish snap # rest) \<longleftrightarrow> list_all (\<lambda>(_, route). K (mr_Address route)) (sn_Models snap) \<and> covered K rest"
| "covered K (ApRoute addr # rest) \<longleftrightarrow> covered (\<lambda>a. a = addr \<or> K a) rest"
| "covered K (ApAdd addr # rest) \<longleftrightarrow> covered (\<lambda>a. a = addr \<or> K a) rest"
| "covered K (_ # rest) \<longleftrightarrow> covered K rest"

lemma covered_mono: "covered K ss \<Longrightarrow> (\<And>a. K a \<Longrightarrow> L a) \<Longrightarrow> covered L ss"
proof (induction K ss arbitrary: L rule: covered.induct)
  case (3 K addr rest)
  have "covered (\<lambda>a. a = addr \<or> L a) rest" by (rule "3.IH") (use 3 in auto)
  then show ?case by simp
next
  case (4 K addr rest)
  have "covered (\<lambda>a. a = addr \<or> L a) rest" by (rule "4.IH") (use 4 in auto)
  then show ?case by simp
qed (auto simp: list_all_iff)

lemma covered_routes: "covered K (map (\<lambda>(_, route). ApRoute (mr_Address route)) ms @ rest) \<longleftrightarrow>
    covered (\<lambda>a. a \<in> (\<lambda>(_, route). mr_Address route) ` set ms \<or> K a) rest"
proof (induction ms arbitrary: K)
  case (Cons m ms)
  show ?case by (cases m) (simp add: Cons.IH disj_ac eq_commute)
qed simp

lemma applySnapshot_covered [simp]: "covered K (applySnapshot snap)"
  by (auto simp: applySnapshot_def covered_routes list_all_iff)

lemma covered_append [simp]: "covered K (ss @ [ApPreInitComplete, ApStartFetchLoop]) \<longleftrightarrow> covered K ss"
  by (induction K ss rule: covered.induct) auto

definition known :: "'e directory \<Rightarrow> 'e \<Rightarrow> string \<Rightarrow> bool" where
  "known d e addr \<longleftrightarrow> (accepts d addr \<longrightarrow> dir_Find d e addr \<noteq> 0)"

definition routes_known :: "'e directory \<Rightarrow> 'e routerCluster \<Rightarrow> bool" where
  "routes_known d c \<longleftrightarrow> list_all (\<lambda>(_, route). known d (rc_envoy c) (mr_Address route)) (sn_Models (st_current (rc_store c))) \<and>
     covered (known d (rc_envoy c)) (rc_main c)"

text \<open>Adding hosts makes the accepted ones known and loses none.\<close>

lemma add_makes_known:
  assumes "directory_ok d" "dir_Add d [addr_spec addr] e = (ps, e1)"
  obtains p where "ps = [p]" "known d e1 addr" "\<And>a. known d e a \<Longrightarrow> known d e1 a"
proof -
  have "length ps = 1" using assms unfolding directory_ok_def by (metis One_nat_def fst_conv length_Cons list.size(3))
  then obtain p where p: "ps = [p]" by (cases ps) auto
  have keep: "dir_Find d e a \<noteq> 0 \<Longrightarrow> dir_Find d e1 a = dir_Find d e a" for a
    using assms unfolding directory_ok_def by (metis snd_conv)
  have "\<forall>specs e i. i < length specs \<and> fst (dir_Add d specs e) ! i \<noteq> 0 \<longrightarrow>
      dir_Find d (snd (dir_Add d specs e)) (Address (specs ! i)) \<noteq> 0" using assms(1) by (simp add: directory_ok_def)
  from this [rule_format, of 0 "[addr_spec addr]" e] have "p \<noteq> 0 \<Longrightarrow> dir_Find d e1 addr \<noteq> 0" by (simp add: assms(2) p)
  moreover have "accepts d addr \<Longrightarrow> p \<noteq> 0"
    unfolding accepts_def by (drule spec [of _ "[addr_spec addr]"], drule spec [of _ e], drule spec [of _ 0]) (simp add: assms(2) p)
  ultimately show ?thesis using p keep by (intro that [of p]) (auto simp: known_def)
qed

lemma known_Health [simp]: "directory_ok d \<Longrightarrow> known d (dir_Health d p h e) = known d e"
  unfolding directory_ok_def known_def by presburger

lemma startFetchLoop_fields [simp]:
  "rc_envoy (startFetchLoop c) = rc_envoy c" "rc_store (startFetchLoop c) = rc_store c" "rc_main (startFetchLoop c) = rc_main c"
  by (simp_all add: startFetchLoop_def)

lemma exec_stmt_known:
  assumes "directory_ok d" "rc_main c = s # rest" "routes_known d c"
  shows "routes_known d (exec_stmt d s rest c) \<and> (\<forall>a. known d (rc_envoy c) a \<longrightarrow> known d (rc_envoy (exec_stmt d s rest c)) a)"
proof (cases s)
  case (ApRoute addr)
  have "covered (\<lambda>a. a = addr \<or> known d (rc_envoy c) a) rest" using assms(2,3) ApRoute by (simp add: routes_known_def)
  moreover have "dir_Find d (rc_envoy c) addr \<noteq> 0 \<Longrightarrow> (\<lambda>a. a = addr \<or> known d (rc_envoy c) a) = known d (rc_envoy c)"
    by (auto simp: known_def)
  ultimately show ?thesis using assms(3) ApRoute by (auto simp: routes_known_def Let_def)
next
  case (ApAdd addr)
  obtain ps e where a: "dir_Add d [addr_spec addr] (rc_envoy c) = (ps, e)" by fastforce
  obtain p where p: "ps = [p]" "known d e addr" "\<And>a. known d (rc_envoy c) a \<Longrightarrow> known d e a"
    using add_makes_known [OF assms(1) a] by blast
  have "covered (\<lambda>a. a = addr \<or> known d (rc_envoy c) a) rest" using assms(2,3) ApAdd by (simp add: routes_known_def)
  then have "covered (known d e) rest" by (rule covered_mono) (use p in auto)
  then show ?thesis using assms(3) ApAdd a p by (auto simp: routes_known_def list_all_iff)
qed (use assms in \<open>auto simp: routes_known_def RememberHost_def Publish_def\<close>)

lemma router_step_known:
  "router_step d nw c c' \<Longrightarrow> directory_ok d \<Longrightarrow> routes_known d c \<Longrightarrow>
     routes_known d c' \<and> (\<forall>a. known d (rc_envoy c) a \<longrightarrow> known d (rc_envoy c') a)"
proof (induction rule: router_step.induct)
  case (Main c)
  then show ?case using exec_stmt_known [of d c] by (auto simp: main_step_def split: list.split)
next
  case (Envoy c e)
  then have more: "known d (rc_envoy c) a \<Longrightarrow> known d e a" for a by (auto simp: known_def)
  have "covered (known d (rc_envoy c)) (rc_main c)" using Envoy by (simp add: routes_known_def)
  then have "covered (known d e) (rc_main c)" by (rule covered_mono) (rule more)
  then show ?case using Envoy more by (auto simp: routes_known_def list_all_iff)
qed (auto simp: routes_known_def routerCluster_Init_def fetchOnce_def routerCluster_stop_def split: option.split sum.split)

lemma router_run_known:
  "router_run d nw c c' \<Longrightarrow> directory_ok d \<Longrightarrow> routes_known d c \<Longrightarrow>
     routes_known d c' \<and> (\<forall>a. known d (rc_envoy c) a \<longrightarrow> known d (rc_envoy c') a)"
  by (induction rule: router_run.induct) (auto dest: router_step_known)


section \<open>A configuration\<close>

definition demo_route :: "string \<Rightarrow> modelRoute" where
  "demo_route addr = \<lparr>mr_Target = addr, mr_Address = addr, mr_Provider = ''p'', mr_AuthHeader = ''secret'', mr_AuthRef = [], mr_Profile = [], mr_BYOKKeyID = []\<rparr>"

definition demo_snapshot :: routeSnapshot where
  "demo_snapshot = \<lparr>sn_Version = ''1'', sn_RouteHeader = defaultRouteHeader, sn_Models = [(''m'', demo_route ''10.0.0.1:80'')], sn_Auth = [], sn_BYOK = Map.empty\<rparr>"

definition demo_net :: net where
  "demo_net = \<lparr>SplitHostPort = (\<lambda>t. Inr (t, ''80'')), LookupIPAddr = (\<lambda>h. Inr [\<lparr>ip_To4 = None, ip_String = ''::1''\<rparr>, \<lparr>ip_To4 = Some ''10.0.0.1'', ip_String = ''10.0.0.1''\<rparr>])\<rparr>"

definition demo_config :: routerConfig where
  "demo_config = \<lparr>rcf_Scope = [], rcf_RouteHeader = [], rcf_ConfigURL = [], rcf_RefreshMillis = 0, rcf_TimeoutMillis = 0,
     rcf_Initial = \<lparr>cf_Version = ''1'', cf_Models = [(''m'', \<lparr>mc_Target = ''t'', mc_Provider = ''p'', mc_AuthHeader = [], mc_AuthRef = ''a'',
       mc_Profile = [], mc_BYOKKeyID = []\<rparr>)], cf_Auth = [(''a'', \<lparr>au_Type = ''byok'', au_Header = [], au_TenantHeader = []\<rparr>)],
       cf_BYOK = [''acme'' \<mapsto> [''p'' \<mapsto> ''Bearer k'']]\<rparr>\<rparr>"

text \<open>The cluster of that configuration after some statements of its \<open>Init\<close>.\<close>

definition demo_cluster :: "nat \<Rightarrow> (string \<times> nat) list routerCluster" where
  "demo_cluster n = (main_step (list_directory []) ^^ n) (routerCluster_Init demo_net (NewCluster demo_config newRouteStore []))"

definition without_credentials :: "routeSnapshot \<Rightarrow> routeSnapshot" where
  "without_credentials s = s\<lparr>sn_Models := map (\<lambda>(nm, r). (nm, r\<lparr>mr_AuthHeader := []\<rparr>)) (sn_Models s),
     sn_Auth := map (\<lambda>(nm, a). (nm, a\<lparr>au_Header := [], au_TenantHeader := []\<rparr>)) (sn_Auth s), sn_BYOK := Map.empty\<rparr>"

section \<open>Properties\<close>

text \<open>C20. A request for a configured model always gets a host: at any moment of a router cluster's life, between any
  two calls its main thread makes while it applies a snapshot, and whatever configurations were fetched, failed to
  resolve or are still waiting, the balancer on a worker thread finds a host in Envoy for each model of the
  configuration it reads, also when the main thread and Envoy have gone on between its reading the configuration
  and its looking the host up; because a snapshot is published only after all its hosts were added. Envoy must
  accept the address of the route asked for (one it refuses is published without a host), Envoy drops no host on
  its own, and no other cluster publishes in the same scope.\<close>

theorem published_routes_have_hosts:
  assumes "directory_ok d" "router_run d nw (NewCluster cfg newRouteStore e) c" "router_run d nw c later"
    and "FindHostByAddress h = dir_Find d (rc_envoy later)"
    and "GetHeader ctx (if sn_RouteHeader (st_current (rc_store c)) = [] then defaultRouteHeader else sn_RouteHeader (st_current (rc_store c))) = (model, True)"
    and "model \<noteq> []" "LookupModel (rc_store c) model = Some route" "accepts d (mr_Address route)"
  shows "routerLB_ChooseHost (rc_store c) h ctx = dir_Find d (rc_envoy later) (mr_Address route) \<and>
    routerLB_ChooseHost (rc_store c) h ctx \<noteq> 0"
proof -
  have "routes_known d (NewCluster cfg newRouteStore e)" by (simp add: routes_known_def NewCluster_def newRouteStore_def)
  then have k: "routes_known d c" using router_run_known [OF assms(2,1)] by blast
  have r: "map_of (sn_Models (st_current (rc_store c))) model = Some route" using assms(7) by (simp add: LookupModel_def)
  have "known d (rc_envoy c) (mr_Address route)" using k map_of_SomeD [OF r] by (auto simp: routes_known_def list_all_iff)
  then have "known d (rc_envoy later) (mr_Address route)" using router_run_known [OF assms(3,1) k] by blast
  then have "dir_Find d (rc_envoy later) (mr_Address route) \<noteq> 0" using assms(8) by (simp add: known_def)
  then show ?thesis using assms(4-6) r by (simp add: routerLB_ChooseHost_def Let_def)
qed

theorem published_routes_have_hosts_witness:
  "routerLB_ChooseHost (rc_store (demo_cluster 5)) (plain_handle (dir_Find (list_directory []) (rc_envoy (demo_cluster 5)))) (plain_context [''x-model'' \<mapsto> ''m'']) \<noteq> 0"
proof (rule published_routes_have_hosts [OF list_directory_ok _ run_start, where model = "''m''", THEN conjunct2])
  show "router_run (list_directory []) demo_net (NewCluster demo_config newRouteStore []) (demo_cluster 5)"
    unfolding demo_cluster_def by (rule run_main_steps [OF run_step [OF run_start Init]]) (simp add: NewCluster_def)
  have "sn_RouteHeader (st_current (rc_store (demo_cluster 5))) = ''x-model''" by code_simp
  then show "GetHeader (plain_context [''x-model'' \<mapsto> ''m''])
      (if sn_RouteHeader (st_current (rc_store (demo_cluster 5))) = [] then defaultRouteHeader else sn_RouteHeader (st_current (rc_store (demo_cluster 5)))) = (''m'', True)"
    by simp
  show "LookupModel (rc_store (demo_cluster 5)) ''m'' = Some (the (LookupModel (rc_store (demo_cluster 5)) ''m''))" by code_simp
  show "accepts (list_directory []) (mr_Address (the (LookupModel (rc_store (demo_cluster 5)) ''m'')))"
    by (rule list_directory_accepts_addr)
qed simp_all


text \<open>The dump of the active configuration shows no credential: two configurations that differ in nothing but
  the authorization headers of their routes, the headers of their authentication policies and the keys of their
  tenants have the same dump, so nothing about those values can be read off it.\<close>

lemma dump_shows_no_credential:
  assumes "without_credentials (st_current s) = without_credentials (st_current t)"
  shows "DebugSnapshot s = DebugSnapshot t"
proof -
  have same: "DebugSnapshot s = DebugSnapshot (s\<lparr>st_current := without_credentials (st_current s)\<rparr>)" for s
    by (simp add: DebugSnapshot_def without_credentials_def Let_def o_def case_prod_beta)
  show ?thesis by (subst (1 2) same) (simp add: assms DebugSnapshot_def)
qed

lemma dump_shows_no_credential_example:
  "DebugSnapshot (newRouteStore\<lparr>st_current := demo_snapshot\<rparr>) =
   DebugSnapshot (newRouteStore\<lparr>st_current := demo_snapshot\<lparr>sn_Models := [(''m'', (demo_route ''10.0.0.1:80'')\<lparr>mr_AuthHeader := ''other''\<rparr>)]\<rparr>\<rparr>)"
  by (rule dump_shows_no_credential) (simp add: without_credentials_def demo_snapshot_def demo_route_def)

text \<open>Keys of tenants stay apart: which authorization header a request gets depends on the keys of its own
  tenant only; and when the route names a policy of type \<open>byok\<close> and no literal header, a request without a tenant
  gets none and a request of a tenant gets exactly that tenant's key for the provider.\<close>

lemma tenant_keys_stay_apart:
  "resolveAuthHeader snap route tenant =
     resolveAuthHeader (snap\<lparr>sn_BYOK := (if tenant = [] then Map.empty else (sn_BYOK snap) |` {tenant})\<rparr>) route tenant \<and>
   (mr_AuthHeader route = [] \<and> mr_AuthRef route \<noteq> [] \<and> map_option au_Type (map_of (sn_Auth snap) (mr_AuthRef route)) = Some ''byok'' \<longrightarrow>
      resolveAuthHeader snap route tenant =
        (if tenant = [] then [] else case Option.bind (sn_BYOK snap tenant) (\<lambda>ps. ps (mr_Provider route)) of Some h \<Rightarrow> h | None \<Rightarrow> []))"
proof
  show "resolveAuthHeader snap route tenant =
     resolveAuthHeader (snap\<lparr>sn_BYOK := (if tenant = [] then Map.empty else (sn_BYOK snap) |` {tenant})\<rparr>) route tenant"
    by (simp add: resolveAuthHeader_def split: option.split)
  show "mr_AuthHeader route = [] \<and> mr_AuthRef route \<noteq> [] \<and> map_option au_Type (map_of (sn_Auth snap) (mr_AuthRef route)) = Some ''byok'' \<longrightarrow>
      resolveAuthHeader snap route tenant =
        (if tenant = [] then [] else case Option.bind (sn_BYOK snap tenant) (\<lambda>ps. ps (mr_Provider route)) of Some h \<Rightarrow> h | None \<Rightarrow> [])"
    by (auto simp: resolveAuthHeader_def split: option.split)
qed

definition demo_byok :: "routeSnapshot" where
  "demo_byok = \<lparr>sn_Version = [], sn_RouteHeader = [], sn_Models = [], sn_Auth = [(''a'', \<lparr>au_Type = ''byok'', au_Header = [], au_TenantHeader = []\<rparr>)],
     sn_BYOK = [''acme'' \<mapsto> [''p'' \<mapsto> ''Bearer k''], ''umbrella'' \<mapsto> [''p'' \<mapsto> ''Bearer u'']]\<rparr>"

lemma tenant_keys_stay_apart_example:
  "resolveAuthHeader demo_byok ((demo_route [])\<lparr>mr_AuthHeader := [], mr_AuthRef := ''a''\<rparr>) ''acme'' = ''Bearer k''"
  using tenant_keys_stay_apart [of demo_byok "(demo_route [])\<lparr>mr_AuthHeader := [], mr_AuthRef := ''a''\<rparr>" "''acme''", THEN conjunct2]
  by (simp add: demo_byok_def demo_route_def)

text \<open>When Envoy refuses the address of a route, the snapshot is published all the same, and requests for the
  model get no host.\<close>

lemma refused_route_is_published:
  "let c = (main_step (list_directory [''10.0.0.1:80'']) ^^ 5) ((NewCluster cfg newRouteStore [])\<lparr>rc_main := applySnapshot demo_snapshot\<rparr>)
   in rc_main c = [] \<and> st_current (rc_store c) = demo_snapshot \<and> dir_Find (list_directory [''10.0.0.1:80'']) (rc_envoy c) ''10.0.0.1:80'' = 0"
  by (simp add: applySnapshot_def demo_snapshot_def demo_route_def NewCluster_def newRouteStore_def main_step_def list_directory_def
      list_add_def addr_spec_def Publish_def RememberHost_def Let_def eval_nat_numeral)


end
