(* ===== verification/Shard_Router.thy ===== *)
theory Shard_Router
  imports Route_Hosts Filter_State "HOL-Library.Multiset"
begin

text \<open>
  The shard router of \<^verbatim>\<open>src/examples/cluster-shard-router\<close>: a request is reduced to a tag (a header, a hash of a key, or
  a tenant), the tag picks the shard with the longest matching prefix, the balancer returns the shard's host, and
  an upstream filter writes the decision into the request. A Go map that is iterated over is an association list
  in the order of the iteration. The case mapping and trimming of \<^verbatim>\<open>strings\<close> and SHA-256 are parameters.
\<close>

section \<open>Configuration\<close>

record str_lib =
  lib_ToLower :: "string \<Rightarrow> string"
  lib_TrimSpace :: "string \<Rightarrow> string"
  lib_Sum256 :: "bytes \<Rightarrow> bytes"

definition normalizeToken :: "str_lib \<Rightarrow> string \<Rightarrow> string" where
  "normalizeToken L v = lib_ToLower L (lib_TrimSpace L v)"

definition tagHeader :: string where "tagHeader = ''x-transit-tag''"
definition tagSourceHeader :: string where "tagSourceHeader = ''x-transit-tag-source''"
definition byokKeyIDHeader :: string where "byokKeyIDHeader = ''x-byok-key-id''"
definition userKeyHeader :: string where "userKeyHeader = ''x-user-key''"
definition shardTenantHeader :: string where "shardTenantHeader = ''x-tenant''"
definition shardHeader :: string where "shardHeader = ''x-transit-l1-shard''"
definition targetHeader :: string where "targetHeader = ''x-transit-l1-target''"
definition versionHeader :: string where "versionHeader = ''x-cluster-shard-router-version''"
definition defaultShardName :: string where "defaultShardName = ''default''"

lemmas shard_names = tagHeader_def tagSourceHeader_def byokKeyIDHeader_def userKeyHeader_def shardTenantHeader_def
  shardHeader_def targetHeader_def versionHeader_def

record shardConfig =
  sc_Target :: string
  sc_Prefixes :: "string list"
  sc_Shard :: string
  sc_Status :: string

record shardConfigSnapshot =
  scs_Version :: string
  scs_DefaultShard :: string
  scs_Shards :: "(string \<times> shardConfig) list"

record shardRoute =
  sr_Name :: string
  sr_Shard :: string
  sr_Target :: string
  sr_Address :: string
  sr_Prefixes :: "string list"
  sr_Status :: string

record shardSnapshot =
  ss_Version :: string
  ss_DefaultShard :: string
  ss_Shards :: "(string \<times> shardRoute) list"

record shardStore =
  so_current :: shardSnapshot
  so_hosts :: "string \<rightharpoonup> HostPtr"

definition newShardStore :: shardStore where
  "newShardStore = \<lparr>so_current = \<lparr>ss_Version = [], ss_DefaultShard = [], ss_Shards = []\<rparr>, so_hosts = Map.empty\<rparr>"

fun normalize_loop :: "str_lib \<Rightarrow> string list \<Rightarrow> string set \<Rightarrow> string list \<Rightarrow> string list" where
  "normalize_loop L [] seen out = out"
| "normalize_loop L (p # ps) seen out =
     (let p = normalizeToken L p
      in if p = [] \<or> p \<in> seen then normalize_loop L ps seen out
         else normalize_loop L ps (insert p seen) (out @ [p]))"

definition normalizePrefixes :: "str_lib \<Rightarrow> string list \<Rightarrow> string list" where
  "normalizePrefixes L ps = normalize_loop L ps {} []"

text \<open>\<^verbatim>\<open>m[k] = v\<close> on a map that is iterated over later.\<close>

definition assoc_set :: "string \<Rightarrow> 'v \<Rightarrow> (string \<times> 'v) list \<Rightarrow> (string \<times> 'v) list" where
  "assoc_set k v m = filter (\<lambda>(k', _). k' \<noteq> k) m @ [(k, v)]"

fun resolve_shards ::
  "str_lib \<Rightarrow> net \<Rightarrow> (string \<times> shardConfig) list \<Rightarrow> (string \<times> shardRoute) list \<Rightarrow> string + (string \<times> shardRoute) list"
where
  "resolve_shards L nw [] out = Inr out"
| "resolve_shards L nw ((nm, shard) # rest) out =
     (let routeName = normalizeToken L nm
      in if routeName = [] then Inl ''cluster-shard-router: shard name is required''
         else if sc_Target shard = [] then Inl (''cluster-shard-router: shard '' @ nm @ '' target is required'')
         else case resolveTarget nw (sc_Target shard) of
                Inl err \<Rightarrow> Inl err
              | Inr addr \<Rightarrow>
                  (let sh = normalizeToken L (sc_Shard shard); ps = normalizePrefixes L (sc_Prefixes shard);
                       route = \<lparr>sr_Name = routeName, sr_Shard = (if sh = [] then routeName else sh), sr_Target = sc_Target shard,
                         sr_Address = addr, sr_Prefixes = (if ps = [] \<and> routeName \<noteq> defaultShardName then [routeName] else ps),
                         sr_Status = normalizeToken L (sc_Status shard)\<rparr>
                   in resolve_shards L nw rest (assoc_set routeName route out)))"

definition resolveShardSnapshot :: "str_lib \<Rightarrow> net \<Rightarrow> shardConfigSnapshot \<Rightarrow> string + shardSnapshot" where
  "resolveShardSnapshot L nw cfg =
     (let ds = normalizeToken L (scs_DefaultShard cfg); ds = (if ds = [] then defaultShardName else ds)
      in case resolve_shards L nw (scs_Shards cfg) [] of
           Inl err \<Rightarrow> Inl err
         | Inr shards \<Rightarrow>
             if map_of shards ds = None \<and> shards \<noteq> [] then Inl (''cluster-shard-router: default shard '' @ ds @ '' is not configured'')
             else Inr \<lparr>ss_Version = scs_Version cfg, ss_DefaultShard = ds, ss_Shards = shards\<rparr>)"

section \<open>Choosing a shard\<close>

definition shard_active :: "shardRoute \<Rightarrow> bool" where
  "shard_active r \<longleftrightarrow> sr_Status r = [] \<or> sr_Status r = ''active''"

fun scan_prefixes :: "string \<Rightarrow> shardRoute \<Rightarrow> string list \<Rightarrow> shardRoute option \<times> nat \<Rightarrow> shardRoute option \<times> nat" where
  "scan_prefixes tag route [] st = st"
| "scan_prefixes tag route (p # ps) (best, bestLen) =
     (if HasPrefix tag p \<and> length p > bestLen then scan_prefixes tag route ps (Some route, length p)
      else scan_prefixes tag route ps (best, bestLen))"

fun scan_routes :: "string \<Rightarrow> (string \<times> shardRoute) list \<Rightarrow> shardRoute option \<times> nat \<Rightarrow> shardRoute option \<times> nat" where
  "scan_routes tag [] st = st"
| "scan_routes tag ((_, route) # rest) st =
     (if \<not> shard_active route then scan_routes tag rest st
      else scan_routes tag rest (scan_prefixes tag route (sr_Prefixes route) st))"

definition chooseShard :: "str_lib \<Rightarrow> shardSnapshot \<Rightarrow> string \<Rightarrow> shardRoute option" where
  "chooseShard L snap tag =
     (case scan_routes (normalizeToken L tag) (ss_Shards snap) (None, 0) of
        (Some best, _) \<Rightarrow> Some best
      | (None, _) \<Rightarrow> map_of (ss_Shards snap) (ss_DefaultShard snap))"

definition hex_of :: "bytes \<Rightarrow> string" where
  "hex_of bs = concat (map (\<lambda>b. [hex_digit (of_char b div 16), hex_digit (of_char b mod 16)]) bs)"

definition hashTag :: "str_lib \<Rightarrow> string \<Rightarrow> string" where
  "hashTag L v = hex_of (lib_Sum256 L v)"

definition deriveTag :: "str_lib \<Rightarrow> (string \<Rightarrow> string) \<Rightarrow> string \<times> string" where
  "deriveTag L getHeader =
     (let tag = normalizeToken L (getHeader tagHeader); keyID = lib_TrimSpace L (getHeader byokKeyIDHeader);
          userKey = lib_TrimSpace L (getHeader userKeyHeader); tenant = normalizeToken L (getHeader shardTenantHeader)
      in if tag \<noteq> [] then (tag, ''tag'')
         else if keyID \<noteq> [] then (hashTag L keyID, ''byok-key-id'')
         else if userKey \<noteq> [] then (hashTag L userKey, ''user-key'')
         else if tenant \<noteq> [] then (tenant, ''tenant'')
         else ([], []))"

record shardDecision =
  de_Tag :: string
  de_Source :: string
  de_Route :: shardRoute

definition Decide :: "str_lib \<Rightarrow> shardStore \<Rightarrow> (string \<Rightarrow> string) \<Rightarrow> shardDecision option" where
  "Decide L st getHeader =
     (let snap = so_current st;
          (tag, source) = (case deriveTag L getHeader of (tag, source) \<Rightarrow> if tag = [] then (ss_DefaultShard snap, ''default'') else (tag, source))
      in case chooseShard L snap tag of
           None \<Rightarrow> None
         | Some route \<Rightarrow> Some \<lparr>de_Tag = tag, de_Source = source, de_Route = route\<rparr>)"

section \<open>The cluster and the filter\<close>

definition shard_applySnapshot :: "'e directory \<Rightarrow> shardSnapshot \<Rightarrow> shardStore \<times> 'e \<Rightarrow> shardStore \<times> 'e" where
  "shard_applySnapshot d snap x =
     (case x of (st, e) \<Rightarrow>
        case ensure_hosts d (map (\<lambda>(_, route). sr_Address route) (ss_Shards snap)) (so_hosts st) e of
          (completed, hosts, e1) \<Rightarrow>
            (let st1 = st\<lparr>so_hosts := hosts\<rparr> in (if completed then st1\<lparr>so_current := snap\<rparr> else st1, e1)))"

definition shardLB_ChooseHost :: "str_lib \<Rightarrow> shardStore \<Rightarrow> ClusterLBHandle \<Rightarrow> LBContext \<Rightarrow> HostPtr" where
  "shardLB_ChooseHost L st h ctx =
     (case Decide L st (\<lambda>nm. fst (GetHeader ctx nm)) of
        None \<Rightarrow> 0
      | Some decision \<Rightarrow> FindHostByAddress h (sr_Address (de_Route decision)))"

definition shard_upstreamHeaderFilter :: "str_lib \<Rightarrow> shardStore \<Rightarrow> (string \<Rightarrow> string) \<Rightarrow> wop list" where
  "shard_upstreamHeaderFilter L st header =
     (case Decide L st header of
        None \<Rightarrow> []
      | Some decision \<Rightarrow>
          [OpSetRequestHeader tagHeader (de_Tag decision), OpSetRequestHeader tagSourceHeader (de_Source decision),
           OpSetRequestHeader shardHeader (sr_Shard (de_Route decision)), OpSetRequestHeader targetHeader (sr_Target (de_Route decision))] @
          (if ss_Version (so_current st) \<noteq> [] then [OpSetRequestHeader versionHeader (ss_Version (so_current st))] else []))"

text \<open>What a sequence of header writes leaves behind, as the next attempt of the request sees it.\<close>

fun written :: "wop list \<Rightarrow> (string \<Rightarrow> string) \<Rightarrow> string \<Rightarrow> string" where
  "written (OpSetRequestHeader nm v # ops) h = written ops (h(nm := v))"
| "written _ h = h"

section \<open>The longest prefix wins\<close>

lemma scan_prefixes_inv:
  assumes "scan_prefixes tag r ps (best, n) = (best', n')"
  shows "n \<le> n'" "\<And>p. p \<in> set ps \<Longrightarrow> HasPrefix tag p \<Longrightarrow> length p \<le> n'"
    "(best', n') = (best, n) \<or> best' = Some r \<and> n < n' \<and> (\<exists>p\<in>set ps. HasPrefix tag p \<and> length p = n')"
proof -
  have "n \<le> n' \<and> (\<forall>p\<in>set ps. HasPrefix tag p \<longrightarrow> length p \<le> n') \<and>
    ((best', n') = (best, n) \<or> best' = Some r \<and> n < n' \<and> (\<exists>p\<in>set ps. HasPrefix tag p \<and> length p = n'))"
    using assms
  proof (induction ps arbitrary: best n)
    case (Cons p ps)
    show ?case
    proof (cases "HasPrefix tag p \<and> n < length p")
      case True
      then have "scan_prefixes tag r ps (Some r, length p) = (best', n')" using Cons.prems by simp
      from Cons.IH [OF this] True show ?thesis by auto
    next
      case False
      then have "scan_prefixes tag r ps (best, n) = (best', n')" using Cons.prems by (simp only: scan_prefixes.simps if_False)
      from Cons.IH [OF this] False show ?thesis by auto
    qed
  qed simp
  then show "n \<le> n'" "\<And>p. p \<in> set ps \<Longrightarrow> HasPrefix tag p \<Longrightarrow> length p \<le> n'"
    "(best', n') = (best, n) \<or> best' = Some r \<and> n < n' \<and> (\<exists>p\<in>set ps. HasPrefix tag p \<and> length p = n')" by auto
qed

text \<open>A route that competes for a tag, with the length of the prefix it competes with.\<close>

definition competes :: "string \<Rightarrow> (string \<times> shardRoute) list \<Rightarrow> shardRoute \<Rightarrow> nat \<Rightarrow> bool" where
  "competes tag shards r n \<longleftrightarrow> r \<in> snd ` set shards \<and> shard_active r \<and> (\<exists>p\<in>set (sr_Prefixes r). HasPrefix tag p \<and> length p = n) \<and> 0 < n"

lemma scan_routes_inv:
  "scan_routes tag shards (best, n) = (best', n') \<Longrightarrow> n \<le> n' \<and> (\<forall>r m. competes tag shards r m \<longrightarrow> m \<le> n') \<and>
     ((best', n') = (best, n) \<or> (\<exists>r. best' = Some r \<and> competes tag shards r n'))"
proof (induction shards arbitrary: best n)
  case (Cons x shards)
  obtain k r where x: "x = (k, r)" by (cases x)
  show ?case
  proof (cases "shard_active r")
    case True
    obtain b1 n1 where s: "scan_prefixes tag r (sr_Prefixes r) (best, n) = (b1, n1)" by fastforce
    note p = scan_prefixes_inv [OF s]
    have "scan_routes tag shards (b1, n1) = (best', n')" using Cons.prems True x s by simp
    note ih = Cons.IH [OF this]
    have "m \<le> n'" if "competes tag (x # shards) r' m" for r' m
    proof (cases "r' = r")
      case True
      then show ?thesis using that p(2) ih by (force simp: competes_def)
    next
      case False
      then show ?thesis using that ih x by (auto simp: competes_def)
    qed
    moreover have "(best', n') = (best, n) \<or> (\<exists>r. best' = Some r \<and> competes tag (x # shards) r n')"
      using ih p(1,3) True x by (auto simp: competes_def)
    ultimately show ?thesis using ih p(1) by simp
  next
    case False
    then have "scan_routes tag shards (best, n) = (best', n')" using Cons.prems x by simp
    from Cons.IH [OF this] False x show ?thesis by (auto simp: competes_def)
  qed
qed (simp add: competes_def)

lemma chooseShard_cases:
  shows "(\<exists>r n. chooseShard L snap tag = Some r \<and> competes (normalizeToken L tag) (ss_Shards snap) r n \<and>
      (\<forall>r' m. competes (normalizeToken L tag) (ss_Shards snap) r' m \<longrightarrow> m \<le> n)) \<or>
    (\<nexists>r n. competes (normalizeToken L tag) (ss_Shards snap) r n) \<and> chooseShard L snap tag = map_of (ss_Shards snap) (ss_DefaultShard snap)"
proof -
  obtain b n where s: "scan_routes (normalizeToken L tag) (ss_Shards snap) (None, 0) = (b, n)" by fastforce
  note inv = scan_routes_inv [OF s]
  show ?thesis
  proof (cases b)
    case None
    then have "n = 0" using inv by auto
    then have "\<nexists>r n. competes (normalizeToken L tag) (ss_Shards snap) r n" using inv by (auto simp: competes_def)
    then show ?thesis using s None by (simp add: chooseShard_def)
  next
    case (Some r)
    then have "competes (normalizeToken L tag) (ss_Shards snap) r n" using inv by auto
    then show ?thesis using s Some inv by (auto simp: chooseShard_def)
  qed
qed

section \<open>Normal tags\<close>

text \<open>What the router relies on in the library: normalizing twice is normalizing once, lower-case hexadecimal text is
  normal, and a hash is never empty.\<close>

definition lib_ok :: "str_lib \<Rightarrow> bool" where
  "lib_ok L \<longleftrightarrow> (\<forall>v. normalizeToken L (normalizeToken L v) = normalizeToken L v) \<and>
     (\<forall>bs. normalizeToken L (hex_of bs) = hex_of bs) \<and> normalizeToken L defaultShardName = defaultShardName \<and>
     (\<forall>v. lib_Sum256 L v \<noteq> [])"

lemma hashTag_normal: "lib_ok L \<Longrightarrow> normalizeToken L (hashTag L v) = hashTag L v \<and> hashTag L v \<noteq> []"
proof -
  assume "lib_ok L"
  moreover then have "hex_of (lib_Sum256 L v) \<noteq> []" by (cases "lib_Sum256 L v") (auto simp: lib_ok_def hex_of_def)
  ultimately show ?thesis by (simp add: lib_ok_def hashTag_def)
qed

lemma resolved_default:
  "lib_ok L \<Longrightarrow> resolveShardSnapshot L nw cfg = Inr snap \<Longrightarrow>
     normalizeToken L (ss_DefaultShard snap) = ss_DefaultShard snap \<and> ss_DefaultShard snap \<noteq> []"
  by (auto simp: resolveShardSnapshot_def lib_ok_def Let_def defaultShardName_def split: sum.splits if_splits)

lemma deriveTag_normal:
  assumes "lib_ok L"
  shows "normalizeToken L (fst (deriveTag L h)) = fst (deriveTag L h) \<or> fst (deriveTag L h) = []"
  using assms hashTag_normal [OF assms] by (auto simp: deriveTag_def lib_ok_def Let_def)

text \<open>The tag of a decision: normal, not empty, and what the shard was chosen by.\<close>

lemma Decide_tag:
  assumes "lib_ok L" "resolveShardSnapshot L nw cfg = Inr (so_current st)" "Decide L st h = Some d"
  shows "normalizeToken L (de_Tag d) = de_Tag d" "de_Tag d \<noteq> []" "chooseShard L (so_current st) (de_Tag d) = Some (de_Route d)"
proof -
  obtain tag source where t: "deriveTag L h = (tag, source)" by fastforce
  have "normalizeToken L tag = tag \<or> tag = []" using deriveTag_normal [OF assms(1), of h] t by simp
  then show "normalizeToken L (de_Tag d) = de_Tag d" "de_Tag d \<noteq> []" "chooseShard L (so_current st) (de_Tag d) = Some (de_Route d)"
    using assms(3) resolved_default [OF assms(1,2)] by (auto simp: Decide_def t Let_def split: if_splits option.splits)
qed

lemma written_tag:
  "Decide L st h = Some d \<Longrightarrow> written (shard_upstreamHeaderFilter L st h) h tagHeader = de_Tag d"
  by (simp add: shard_upstreamHeaderFilter_def shard_names)

section \<open>Properties\<close>

text \<open>C31. The shard of a tag is the active shard with the longest prefix of the tag among its prefixes; only when no
  active shard has a prefix of it is it the default shard. As long as no two active shards share a prefix, this
  determines the shard: however Go happens to iterate over the map of shards, the choice is the same.\<close>

theorem longest_prefix_wins:
  assumes "set (ss_Shards snap') = set (ss_Shards snap)" "ss_DefaultShard snap' = ss_DefaultShard snap"
    and "distinct (map fst (ss_Shards snap))" "distinct (map fst (ss_Shards snap'))"
    and "\<forall>r\<in>snd ` set (ss_Shards snap). \<forall>r'\<in>snd ` set (ss_Shards snap).
      shard_active r \<and> shard_active r' \<and> set (sr_Prefixes r) \<inter> set (sr_Prefixes r') \<noteq> {} \<longrightarrow> r = r'"
  shows "chooseShard L snap' tag = chooseShard L snap tag \<and>
    ((\<exists>r n. chooseShard L snap tag = Some r \<and> competes (normalizeToken L tag) (ss_Shards snap) r n \<and>
        (\<forall>r' m. competes (normalizeToken L tag) (ss_Shards snap) r' m \<longrightarrow> m \<le> n)) \<or>
     (\<nexists>r n. competes (normalizeToken L tag) (ss_Shards snap) r n) \<and> chooseShard L snap tag = map_of (ss_Shards snap) (ss_DefaultShard snap))"
proof -
  let ?t = "normalizeToken L tag"
  have same: "competes ?t (ss_Shards snap') r n = competes ?t (ss_Shards snap) r n" for r n
    using assms(1) by (simp add: competes_def)
  have unique: "r = r'" if comp: "competes ?t (ss_Shards snap) r n" "competes ?t (ss_Shards snap) r' n" for r r' n
  proof -
    obtain p q where "p \<in> set (sr_Prefixes r)" "q \<in> set (sr_Prefixes r')" "HasPrefix ?t p" "HasPrefix ?t q" "length p = n" "length q = n"
      using comp by (auto simp: competes_def)
    then have "p \<in> set (sr_Prefixes r) \<inter> set (sr_Prefixes r')" by (auto simp: HasPrefix_def)
    then have "set (sr_Prefixes r) \<inter> set (sr_Prefixes r') \<noteq> {}" by blast
    moreover have "r \<in> snd ` set (ss_Shards snap)" "r' \<in> snd ` set (ss_Shards snap)" "shard_active r" "shard_active r'"
      using that by (simp_all add: competes_def)
    ultimately show ?thesis using assms(5) by blast
  qed
  have m: "map_of (ss_Shards snap') = map_of (ss_Shards snap)" using assms(1,3,4) by (metis map_of_inject_set)
  note c = chooseShard_cases [of L snap tag] and c' = chooseShard_cases [of L snap' tag, unfolded same assms(2) m]
  have "chooseShard L snap' tag = chooseShard L snap tag"
  proof (cases "\<exists>r n. competes ?t (ss_Shards snap) r n")
    case True
    then obtain r n r' n' where "chooseShard L snap tag = Some r" "chooseShard L snap' tag = Some r'"
      "competes ?t (ss_Shards snap) r n" "competes ?t (ss_Shards snap) r' n'" "n \<le> n'" "n' \<le> n"
      using c c' by blast
    then show ?thesis using unique [of r n r'] by simp
  next
    case False
    then show ?thesis using c c' by auto
  qed
  then show ?thesis using c by blast
qed

text \<open>A second look changes nothing: when a request that was routed and rewritten by the upstream filter is routed
  again (a retry) by the same snapshot, it has the same tag and goes to the same shard, whichever header the tag
  was taken from the first time.\<close>

lemma rewritten_request_keeps_its_shard:
  assumes "lib_ok L" "resolveShardSnapshot L nw cfg = Inr (so_current st)" "Decide L st h = Some d"
  shows "\<exists>d'. Decide L st (written (shard_upstreamHeaderFilter L st h) h) = Some d' \<and> de_Tag d' = de_Tag d \<and> de_Route d' = de_Route d"
proof -
  let ?h = "written (shard_upstreamHeaderFilter L st h) h"
  note tag = Decide_tag [OF assms]
  have "deriveTag L ?h = (de_Tag d, ''tag'')" using tag(1,2) by (simp add: deriveTag_def written_tag [OF assms(3)] Let_def)
  then have "Decide L st ?h = Some \<lparr>de_Tag = de_Tag d, de_Source = ''tag'', de_Route = de_Route d\<rparr>"
    using tag(2,3) by (simp add: Decide_def Let_def)
  then show ?thesis by simp
qed

text \<open>Two active shards with the same prefix: the order of the iteration decides.\<close>

definition demo_shard :: "string \<Rightarrow> string \<Rightarrow> shardRoute" where
  "demo_shard nm stt = \<lparr>sr_Name = nm, sr_Shard = nm, sr_Target = nm @ '':80'', sr_Address = nm @ '':80'', sr_Prefixes = [''eu''], sr_Status = stt\<rparr>"

definition demo_lib :: str_lib where
  "demo_lib = \<lparr>lib_ToLower = (\<lambda>s. s), lib_TrimSpace = (\<lambda>s. s), lib_Sum256 = (\<lambda>s. ''h'')\<rparr>"

definition demo_shards :: "(string \<times> shardRoute) list \<Rightarrow> shardSnapshot" where
  "demo_shards ss = \<lparr>ss_Version = ''1'', ss_DefaultShard = ''a'', ss_Shards = ss\<rparr>"

lemma shared_prefix_depends_on_order:
  "chooseShard demo_lib (demo_shards [(''a'', demo_shard ''a'' []), (''b'', demo_shard ''b'' [])]) ''eu-1'' \<noteq>
   chooseShard demo_lib (demo_shards [(''b'', demo_shard ''b'' []), (''a'', demo_shard ''a'' [])]) ''eu-1''"
  by code_simp

text \<open>A shard that is not active keeps receiving what matches no other, as long as it is the default.\<close>

lemma inactive_default_is_chosen:
  "chooseShard demo_lib (demo_shards [(''a'', demo_shard ''a'' ''draining'')]) ''eu-1'' = Some (demo_shard ''a'' ''draining'')"
  by code_simp

theorem longest_prefix_wins_witness:
  "chooseShard demo_lib (demo_shards [(''b'', (demo_shard ''b'' [])\<lparr>sr_Prefixes := [''eu-1'']\<rparr>), (''a'', demo_shard ''a'' [])]) ''eu-17'' =
   chooseShard demo_lib (demo_shards [(''a'', demo_shard ''a'' []), (''b'', (demo_shard ''b'' [])\<lparr>sr_Prefixes := [''eu-1'']\<rparr>)]) ''eu-17''"
  by (rule longest_prefix_wins [THEN conjunct1]) (auto simp: demo_shards_def demo_shard_def)

lemma demo_lib_ok: "lib_ok demo_lib"
  by (simp add: lib_ok_def demo_lib_def normalizeToken_def)

definition demo_shard_net :: net where
  "demo_shard_net = \<lparr>SplitHostPort = (\<lambda>t. Inr (t, ''80'')), LookupIPAddr = (\<lambda>h. Inr [\<lparr>ip_To4 = Some h, ip_String = h\<rparr>])\<rparr>"

definition demo_shard_config :: shardConfigSnapshot where
  "demo_shard_config = \<lparr>scs_Version = ''1'', scs_DefaultShard = ''a'', scs_Shards = [(''a'', \<lparr>sc_Target = ''a'', sc_Prefixes = [], sc_Shard = [], sc_Status = []\<rparr>)]\<rparr>"

definition demo_shard_store :: shardStore where
  "demo_shard_store = \<lparr>so_current = (case resolveShardSnapshot demo_lib demo_shard_net demo_shard_config of Inr s \<Rightarrow> s), so_hosts = Map.empty\<rparr>"

definition demo_headers :: "string \<Rightarrow> string" where
  "demo_headers nm = (if nm = ''x-user-key'' then ''k'' else [])"

lemma rewritten_request_keeps_its_shard_example:
  "\<exists>d'. Decide demo_lib demo_shard_store (written (shard_upstreamHeaderFilter demo_lib demo_shard_store demo_headers) demo_headers) = Some d' \<and>
     de_Tag d' = ''68'' \<and> sr_Name (de_Route d') = ''a''"
proof -
  have r: "resolveShardSnapshot demo_lib demo_shard_net demo_shard_config = Inr (so_current demo_shard_store)" by code_simp
  have d: "Decide demo_lib demo_shard_store demo_headers = Some (the (Decide demo_lib demo_shard_store demo_headers))" by code_simp
  have v: "de_Tag (the (Decide demo_lib demo_shard_store demo_headers)) = ''68''" "sr_Name (de_Route (the (Decide demo_lib demo_shard_store demo_headers))) = ''a''"
    by code_simp+
  show ?thesis using rewritten_request_keeps_its_shard [OF demo_lib_ok r d] v by metis
qed

end
