(* ===== verification/SSE_Tap.thy ===== *)
theory SSE_Tap
  imports Ring_Buffer Filter_State
begin

text \<open>
  The filter of \<^verbatim>\<open>src/examples/sse-tap\<close>: it watches a stream of server-sent events, keeps its first 8 and its last 64
  KiB in a \<open>HeadTail\<close> buffer, and at the end extracts the token usage from them. What \<^verbatim>\<open>encoding/json\<close> makes of the data
  of an event is a parameter. In a chunk, \<open>Data\<close> is nil exactly if it holds no byte.
\<close>

section \<open>Lines\<close>

definition TrimRight_cr :: "bytes \<Rightarrow> bytes" where
  "TrimRight_cr s = rev (dropWhile (\<lambda>c. c = CHR 0x0D) (rev s))"

text \<open>The lines that \<open>scanLines\<close> passes to its callback: those that end in a newline.\<close>

function scanLines :: "bytes \<Rightarrow> bytes list" where
  "scanLines s = (if CHR 0x0A \<in> set s
     then TrimRight_cr (takeWhile (\<lambda>c. c \<noteq> CHR 0x0A) s) # scanLines (drop 1 (dropWhile (\<lambda>c. c \<noteq> CHR 0x0A) s))
     else [])"
  by pat_completeness auto
termination
proof (relation "measure length")
  fix s :: bytes
  assume "CHR 0x0A \<in> set s"
  then have "dropWhile (\<lambda>c. c \<noteq> CHR 0x0A) s \<noteq> []" by auto
  moreover have "length (dropWhile (\<lambda>c. c \<noteq> CHR 0x0A) s) \<le> length s" by (rule length_dropWhile_le)
  ultimately show "(drop 1 (dropWhile (\<lambda>c. c \<noteq> CHR 0x0A) s), s) \<in> measure length" by (cases "dropWhile (\<lambda>c. c \<noteq> CHR 0x0A) s") auto
qed simp

declare scanLines.simps [simp del]

section \<open>Usage\<close>

record TokenUsage =
  tu_Input :: uint32
  tu_Output :: uint32

text \<open>Decoding the data of an event: \<open>None\<close> when it does not decode; the usage of a chunk may be absent.\<close>

record chunk_usage =
  cu_PromptTokens :: uint32
  cu_CompletionTokens :: uint32
  cu_InputTokens :: uint32
  cu_OutputTokens :: uint32

record sse_json =
  js_message :: "bytes \<Rightarrow> uint32 option"
  js_chunk :: "bytes \<Rightarrow> chunk_usage option option"
  js_delta :: "bytes \<Rightarrow> uint32 option"

definition head_line :: "sse_json \<Rightarrow> bytes \<Rightarrow> TokenUsage \<times> bytes \<Rightarrow> TokenUsage \<times> bytes" where
  "head_line J ln st =
     (case st of (u, curEvent) \<Rightarrow>
        if HasPrefix ln ''event: '' then (u, drop 7 ln)
        else if tu_Input u = 0 \<and> curEvent = ''message_start'' \<and> HasPrefix ln ''data: ''
        then (case js_message J (drop 6 ln) of
                Some n \<Rightarrow> if n > 0 then (u\<lparr>tu_Input := n\<rparr>, curEvent) else (u, curEvent)
              | None \<Rightarrow> (u, curEvent))
        else (u, curEvent))"

definition tail_line :: "sse_json \<Rightarrow> bytes \<Rightarrow> TokenUsage \<times> bytes \<Rightarrow> TokenUsage \<times> bytes" where
  "tail_line J ln st =
     (case st of (u, curEvent) \<Rightarrow>
        if \<not> HasPrefix ln ''data: '' \<and> \<not> HasPrefix ln ''event: '' then (u, curEvent)
        else if HasPrefix ln ''event: '' then (u, drop 7 ln)
        else let d = drop 6 ln
             in if d = ''[DONE]'' then (u, curEvent)
                else let u1 = (if tu_Input u = 0 \<or> tu_Output u = 0
                               then case js_chunk J d of
                                      Some (Some ck) \<Rightarrow>
                                        (let v = (if tu_Input u = 0 then u\<lparr>tu_Input := cu_PromptTokens ck + cu_InputTokens ck\<rparr> else u)
                                         in if tu_Output v = 0 then v\<lparr>tu_Output := cu_CompletionTokens ck + cu_OutputTokens ck\<rparr> else v)
                                    | _ \<Rightarrow> u
                               else u);
                         u2 = (if curEvent = ''message_delta'' \<and> tu_Output u1 = 0
                               then case js_delta J d of Some n \<Rightarrow> u1\<lparr>tu_Output := n\<rparr> | None \<Rightarrow> u1
                               else u1)
                     in (u2, curEvent))"

definition ExtractUsage :: "sse_json \<Rightarrow> bytes \<Rightarrow> bytes \<Rightarrow> TokenUsage" where
  "ExtractUsage J h t =
     (let u = fst (fold (head_line J) (scanLines h) (\<lparr>tu_Input = 0, tu_Output = 0\<rparr>, []))
      in fst (fold (tail_line J) (scanLines t) (u, [])))"

section \<open>The response observer\<close>

record ringState =
  rs_ring :: "headtail option"
  rs_skip :: bool

definition bytes_contains :: "bytes \<Rightarrow> bytes \<Rightarrow> bool" where
  "bytes_contains s p \<longleftrightarrow> list_ex (\<lambda>i. take (length p) (drop i s) = p) [0..<Suc (length s)]"

definition usage_ops :: "uint64 \<Rightarrow> uint64 \<Rightarrow> TokenUsage \<Rightarrow> wop list" where
  "usage_ops inputTokensID outputTokensID u =
     (if tu_Input u > 0 then [OpIncrementCounterLabels inputTokensID (ucast (tu_Input u)) []] else []) @
     (if tu_Output u > 0 then [OpIncrementCounterLabels outputTokensID (ucast (tu_Output u)) []] else []) @
     [OpSetMetadata ''sse_tap'' ''input_tokens'' (VUint 32 (unat (tu_Input u))),
      OpSetMetadata ''sse_tap'' ''output_tokens'' (VUint 32 (unat (tu_Output u)))]"

text \<open>One call with the stream's context: the new context and the Writer calls made.\<close>

definition tapResponse ::
  "sse_json \<Rightarrow> uint64 \<Rightarrow> uint64 \<Rightarrow> response_chunk \<Rightarrow> ringState option \<Rightarrow> (ringState option \<times> wop list) outcome"
where
  "tapResponse J inID outID chunk ctx =
     (if RC_Data chunk = [] \<and> \<not> RC_EndStream chunk
      then if \<not> bytes_contains (RC_ContentType chunk) ''text/event-stream''
           then Inr (Some \<lparr>rs_ring = None, rs_skip = True\<rparr>, [])
           else obind (NewHeadTail (8 * 1024) (64 * 1024)) (\<lambda>ht. Inr (Some \<lparr>rs_ring = Some ht, rs_skip = False\<rparr>, []))
      else case ctx of
             None \<Rightarrow> Inr (ctx, [])
           | Some s \<Rightarrow>
               if rs_skip s then Inr (ctx, [])
               else case rs_ring s of
                      None \<Rightarrow> Inl nil_dereference
                    | Some ht0 \<Rightarrow>
                        (case (if RC_Data chunk \<noteq> [] then HeadTail_Write (RC_Data chunk) ht0 else Some ht0) of
                           None \<Rightarrow> Inl Hang
                         | Some ht \<Rightarrow>
                             if \<not> RC_EndStream chunk then Inr (Some (s\<lparr>rs_ring := Some ht\<rparr>), [])
                             else (case HeadTail_Tail ht of (t, ht1) \<Rightarrow>
                                     Inr (Some (s\<lparr>rs_ring := Some ht1\<rparr>), usage_ops inID outID (ExtractUsage J (HeadTail_Head ht) t)))))"

fun tap_run :: "sse_json \<Rightarrow> uint64 \<Rightarrow> uint64 \<Rightarrow> response_chunk list \<Rightarrow> ringState option \<Rightarrow> (ringState option \<times> wop list) outcome" where
  "tap_run J a b [] ctx = Inr (ctx, [])"
| "tap_run J a b (chunk # chunks) ctx =
     obind (tapResponse J a b chunk ctx) (\<lambda>(ctx1, ops). obind (tap_run J a b chunks ctx1) (\<lambda>(ctx2, ops'). Inr (ctx2, ops @ ops')))"

section \<open>However the stream is cut\<close>

definition body_part :: "bytes \<Rightarrow> bool \<Rightarrow> response_chunk" where
  "body_part d fin = \<lparr>RC_StatusCode = 0, RC_HasHeaders = False, RC_Data = d, RC_EndStream = fin, RC_ContentEncoding = [],
     RC_ContentType = ''text/event-stream''\<rparr>"

lemma HeadTail_Writes_append:
  "HeadTail_Writes (ps @ qs) ht = Option.bind (HeadTail_Writes ps ht) (HeadTail_Writes qs)"
  by (induction ps arbitrary: ht) (auto split: bind_split)

lemma tap_run_parts:
  "[] \<notin> set ds \<Longrightarrow> HeadTail_Writes ds ht = Some ht' \<Longrightarrow>
     tap_run J a b (map (\<lambda>d. body_part d False) ds @ rest) (Some \<lparr>rs_ring = Some ht, rs_skip = False\<rparr>) =
     tap_run J a b rest (Some \<lparr>rs_ring = Some ht', rs_skip = False\<rparr>)"
proof (induction ds arbitrary: ht)
  case (Cons d ds)
  then obtain ht1 where ht1: "HeadTail_Write d ht = Some ht1" "HeadTail_Writes ds ht1 = Some ht'" by (auto simp: bind_eq_Some_conv)
  have "tapResponse J a b (body_part d False) (Some \<lparr>rs_ring = Some ht, rs_skip = False\<rparr>) = Inr (Some \<lparr>rs_ring = Some ht1, rs_skip = False\<rparr>, [])"
    using Cons.prems(1) ht1(1) by (auto simp: tapResponse_def body_part_def)
  then show ?case using Cons.IH [OF _ ht1(2)] Cons.prems(1) by (simp add: obind_def split: sum.split)
qed simp

lemma tap_run_end:
  assumes "HeadTail_Writes [d] ht = Some ht'"
  shows "\<exists>ctx. tap_run J a b [body_part d True] (Some \<lparr>rs_ring = Some ht, rs_skip = False\<rparr>) =
    Inr (ctx, usage_ops a b (ExtractUsage J (HeadTail_Head ht') (fst (HeadTail_Tail ht'))))"
proof -
  have "HeadTail_Write d ht = Some ht'" using assms by (auto simp: bind_eq_Some_conv)
  moreover have "d = [] \<Longrightarrow> ht' = ht" using assms by (auto simp: HeadTail_Write_def Let_def go_copy_def go_copy_n_def)
  ultimately show ?thesis by (auto simp: tapResponse_def body_part_def split: prod.split)
qed

lemma event_stream_type: "bytes_contains ''text/event-stream'' ''text/event-stream''"
  by code_simp

lemma tap_run_headers:
  "\<exists>ht. NewHeadTail (8 * 1024) (64 * 1024) = Inr ht \<and>
     tap_run J a b (body_part [] False # chunks) ctx = tap_run J a b chunks (Some \<lparr>rs_ring = Some ht, rs_skip = False\<rparr>)"
proof -
  obtain ht where ht: "NewHeadTail (8 * 1024) (64 * 1024) = Inr ht" by (simp add: NewHeadTail_def NewRing_def)
  have "tapResponse J a b (body_part [] False) ctx = Inr (Some \<lparr>rs_ring = Some ht, rs_skip = False\<rparr>, [])"
    using ht by (simp add: tapResponse_def body_part_def event_stream_type)
  then show ?thesis using ht by (auto simp: obind_def split: sum.split)
qed

lemma tap_whole_stream:
  assumes "[] \<notin> set ds"
  shows "\<exists>ctx'. tap_run J a b (body_part [] False # map (\<lambda>d. body_part d False) ds @ [body_part d True]) ctx =
    Inr (ctx', usage_ops a b (ExtractUsage J (take 8192 (concat ds @ d)) (last_n 65536 (concat ds @ d))))"
proof -
  obtain ht where ht: "NewHeadTail (8 * 1024) (64 * 1024) = Inr ht" and
    start: "tap_run J a b (body_part [] False # map (\<lambda>d. body_part d False) ds @ [body_part d True]) ctx =
      tap_run J a b (map (\<lambda>d. body_part d False) ds @ [body_part d True]) (Some \<lparr>rs_ring = Some ht, rs_skip = False\<rparr>)"
    using tap_run_headers [of J a b "map (\<lambda>d. body_part d False) ds @ [body_part d True]" ctx] by blast
  obtain ht' where ht': "HeadTail_Writes (ds @ [d]) ht = Some ht'" "HeadTail_Head ht' = take 8192 (concat ds @ d)"
      "fst (HeadTail_Tail ht') = last_n 65536 (concat ds @ d)"
    using headtail_keeps_both_ends [OF _ _ ht, of "ds @ [d]"] by auto
  then obtain ht1 where ht1: "HeadTail_Writes ds ht = Some ht1" "HeadTail_Writes [d] ht1 = Some ht'"
    unfolding HeadTail_Writes_append bind_eq_Some_conv by blast
  show ?thesis unfolding start tap_run_parts [OF assms ht1(1)] using tap_run_end [OF ht1(2), of J a b] ht' by simp
qed

text \<open>Text after the last newline is never looked at.\<close>

lemma scanLines_unterminated:
  assumes "CHR 0x0A \<notin> set v"
  shows "scanLines (u @ CHR 0x0A # v) = scanLines (u @ [CHR 0x0A])"
proof (induction "length u" arbitrary: u rule: less_induct)
  case less
  show ?case
  proof (cases "CHR 0x0A \<in> set u")
    case True
    then obtain x y where u: "u = x @ CHR 0x0A # y" "CHR 0x0A \<notin> set x" by (metis split_list_first)
    have cut: "takeWhile (\<lambda>c. c \<noteq> CHR 0x0A) (x @ CHR 0x0A # z) = x" "dropWhile (\<lambda>c. c \<noteq> CHR 0x0A) (x @ CHR 0x0A # z) = CHR 0x0A # z" for z
      using u(2) by (subst takeWhile_append2, auto) (subst dropWhile_append2, auto)
    show ?thesis using less [of y] u(1) by (subst (1 2) scanLines.simps) (simp add: cut)
  next
    case False
    then have cut: "takeWhile (\<lambda>c. c \<noteq> CHR 0x0A) (u @ CHR 0x0A # z) = u" "dropWhile (\<lambda>c. c \<noteq> CHR 0x0A) (u @ CHR 0x0A # z) = CHR 0x0A # z" for z
      by (subst takeWhile_append2, auto) (subst dropWhile_append2, auto)
    have "scanLines z = []" if "CHR 0x0A \<notin> set z" for z using that by (simp add: scanLines.simps)
    then show ?thesis using assms by (subst (1 2) scanLines.simps) (simp add: cut)
  qed
qed



section \<open>Properties\<close>

text \<open>The chunks after the last empty one.\<close>

definition after_empty :: "bytes list \<Rightarrow> bytes list" where
  "after_empty ds = rev (takeWhile (\<lambda>d. d \<noteq> []) (rev ds))"

lemma takeWhile_stop: "\<not> P x \<Longrightarrow> takeWhile P (zs @ x # ws) = takeWhile P zs"
  by (induction zs) simp_all

lemma after_empty_split: "after_empty (xs @ [] # ys) = after_empty ys"
  by (simp add: after_empty_def takeWhile_stop)

lemma after_empty_none: "[] \<notin> set ds \<Longrightarrow> after_empty ds = ds"
proof -
  assume "[] \<notin> set ds"
  then have "takeWhile (\<lambda>d. d \<noteq> []) (rev ds) = rev ds" by (intro takeWhile_eq_all_conv [THEN iffD2]) auto
  then show ?thesis unfolding after_empty_def by (simp only: rev_rev_ident)
qed

lemma tap_any_chunks:
  "\<exists>ctx'. tap_run J a b (body_part [] False # map (\<lambda>d. body_part d False) ds @ [body_part d True]) ctx =
    Inr (ctx', usage_ops a b (ExtractUsage J (take 8192 (concat (after_empty ds) @ d)) (last_n 65536 (concat (after_empty ds) @ d))))"
proof (induction "length ds" arbitrary: ds ctx rule: less_induct)
  case less
  show ?case
  proof (cases "[] \<in> set ds")
    case False
    then show ?thesis using tap_whole_stream by (simp add: after_empty_none)
  next
    case True
    then obtain xs ys where ds: "ds = xs @ [] # ys" "[] \<notin> set xs" by (metis split_list_first)
    let ?rest = "body_part [] False # map (\<lambda>d. body_part d False) ys @ [body_part d True]"
    obtain ht where ht: "NewHeadTail (8 * 1024) (64 * 1024) = Inr ht" and
      start: "tap_run J a b (body_part [] False # map (\<lambda>d. body_part d False) xs @ ?rest) ctx =
        tap_run J a b (map (\<lambda>d. body_part d False) xs @ ?rest) (Some \<lparr>rs_ring = Some ht, rs_skip = False\<rparr>)"
      using tap_run_headers [of J a b "map (\<lambda>d. body_part d False) xs @ ?rest" ctx] by blast
    obtain ht' where ht': "HeadTail_Writes xs ht = Some ht'" using headtail_keeps_both_ends [OF _ _ ht, of xs] by auto
    have "length ys < length ds" by (simp add: ds)
    from less [OF this, of "Some \<lparr>rs_ring = Some ht', rs_skip = False\<rparr>"]
    show ?thesis using start tap_run_parts [OF ds(2) ht'] by (simp add: ds(1) after_empty_split)
  qed
qed

text \<open>A body chunk without data in the middle of the stream looks like the headers: the observer starts over, and
  what came before is lost.\<close>

lemma empty_chunk_starts_over:
  "\<exists>ctx'. tap_run J a b (body_part [] False # map (\<lambda>d. body_part d False) (ds @ [[]]) @ [body_part d True]) ctx =
    Inr (ctx', usage_ops a b (ExtractUsage J (take 8192 d) (last_n 65536 d)))"
  using tap_any_chunks [of J a b "ds @ [[]]" d ctx] by (simp add: after_empty_def)

text \<open>C33. The usage that is reported for a stream does not depend on how its bytes were cut into chunks, with one
  exception. For response headers of an event stream followed by any chunks and a last one, the observer returns from
  every call, writes nothing before the end, and then reports exactly what \<open>ExtractUsage\<close> finds in the first 8192 and
  the last 65536 bytes of what followed the last empty chunk before the end; that is the whole body if no chunk
  before the last is empty. An empty chunk starts the observer over, as the response headers do.\<close>

theorem tap_ignores_chunking:
  "(\<exists>ctx'. tap_run J a b (body_part [] False # map (\<lambda>d. body_part d False) ds @ [body_part d True]) ctx =
     Inr (ctx', usage_ops a b (ExtractUsage J (take 8192 (concat (after_empty ds) @ d)) (last_n 65536 (concat (after_empty ds) @ d))))) \<and>
   ([] \<notin> set ds \<longrightarrow> after_empty ds = ds)"
  using tap_any_chunks after_empty_none by blast

definition demo_sse :: sse_json where
  "demo_sse = \<lparr>js_message = (\<lambda>_. None),
     js_chunk = (\<lambda>d. if d = ''u'' then Some (Some \<lparr>cu_PromptTokens = 3, cu_CompletionTokens = 5, cu_InputTokens = 0, cu_OutputTokens = 0\<rparr>) else None),
     js_delta = (\<lambda>_. None)\<rparr>"

theorem tap_ignores_chunking_witness:
  "\<exists>ctx'. tap_run demo_sse 1 2 (body_part [] False # map (\<lambda>d. body_part d False) [''dat'', ''a: u'' @ [CHR 0x0D]] @ [body_part [CHR 0x0A] True]) None =
    Inr (ctx', usage_ops 1 2 \<lparr>tu_Input = 3, tu_Output = 5\<rparr>)"
proof -
  have "ExtractUsage demo_sse (''data: u'' @ [CHR 0x0D, CHR 0x0A]) (''data: u'' @ [CHR 0x0D, CHR 0x0A]) = \<lparr>tu_Input = 3, tu_Output = 5\<rparr>" by code_simp
  moreover have "\<exists>ctx'. tap_run demo_sse 1 2 (body_part [] False # map (\<lambda>d. body_part d False) [''dat'', ''a: u'' @ [CHR 0x0D]] @ [body_part [CHR 0x0A] True]) None =
      Inr (ctx', usage_ops 1 2 (ExtractUsage demo_sse (take 8192 (concat [''dat'', ''a: u'' @ [CHR 0x0D]] @ [CHR 0x0A])) (last_n 65536 (concat [''dat'', ''a: u'' @ [CHR 0x0D]] @ [CHR 0x0A]))))"
    using tap_ignores_chunking [of demo_sse 1 2 "[''dat'', ''a: u'' @ [CHR 0x0D]]" "[CHR 0x0A]" None] by (metis insert_iff list.set(1) list.set(2) list.distinct(1) append_is_Nil_conv empty_iff)
  ultimately show ?thesis by (simp add: last_n_short)
qed

end
