(* ===== verification/Example_Filters.thy ===== *)
theory Example_Filters
  imports Filter_Factory Content_Encoding
begin

text \<open>
  Filters of \<^verbatim>\<open>src/examples\<close> written against the Writer: rate limiting (\<^verbatim>\<open>ratelimit\<close>, \<^verbatim>\<open>grpc-callout\<close>), authentication by
  callout (\<^verbatim>\<open>jwt-callout\<close>, \<^verbatim>\<open>async-callout\<close>), middleware (\<^verbatim>\<open>filter-chain\<close>), static content (\<^verbatim>\<open>spa\<close>) and small request
  filters. A handler that starts a callout is a plan: the callout, what its callback does with the answer, and what
  the handler does when the callout could not be started. The codecs of JSON and protobuf are parameters.
\<close>

datatype plan =
    Direct "wop list"
  | CallHTTP callout_request "callout_done \<Rightarrow> wop list" "wop list"
  | CallGRPC grpc_request "grpc_response \<Rightarrow> wop list" "wop list"

definition plain_text :: header where "plain_text = (''content-type'', ''text/plain'')"
definition json_text :: header where "json_text = (''content-type'', ''application/json'')"

text \<open>A JSON object with one member, as the filters write it in their sources.\<close>

definition json_error :: "string \<Rightarrow> bytes" where
  "json_error m = ''{'' @ [CHR 0x22] @ ''error'' @ [CHR 0x22] @ '':'' @ [CHR 0x22] @ m @ [CHR 0x22] @ ''}''"

section \<open>Rate limiting: the policy\<close>

record Entry =
  en_Key :: string
  en_Value :: string
  en_Header :: string
  en_FilterState :: string

type_synonym descriptor = "(string \<times> string) list"

record RateConfig =
  rl_Cluster :: string
  rl_Authority :: string
  rl_Domain :: string
  rl_TimeoutMillis :: uint64
  rl_FailureMode :: string
  rl_Descriptors :: "Entry list list"
  rl_BuildDescriptors :: "((string \<Rightarrow> string) \<Rightarrow> (string \<Rightarrow> string \<times> bool) \<Rightarrow> string + descriptor list) option"

definition entry_sources :: "Entry \<Rightarrow> nat" where
  "entry_sources e = length (filter (\<lambda>v. v \<noteq> []) [en_Value e, en_Header e, en_FilterState e])"

definition header_blank :: "string \<Rightarrow> bool" where
  "header_blank h \<longleftrightarrow> list_ex (\<lambda>c. c \<in> {CHR '' '', CHR 0x09, CHR 0x0D, CHR 0x0A}) h"

fun check_entries :: "(string \<Rightarrow> string) \<Rightarrow> nat \<Rightarrow> nat \<Rightarrow> Entry list \<Rightarrow> string option" where
  "check_entries lower i j [] = None"
| "check_entries lower i j (e # es) =
     (if TrimSpace (en_Key e) = [] \<or> entry_sources e \<noteq> 1
      then Some (''descriptor '' @ Itoa i @ '' entry '' @ Itoa j @ '' needs a key and exactly one nonempty value, header or filter_state'')
      else if en_Header e \<noteq> lower (en_Header e) \<or> header_blank (en_Header e)
      then Some (''descriptor '' @ Itoa i @ '' entry '' @ Itoa j @ '' header must be lowercase without whitespace'')
      else check_entries lower i (Suc j) es)"

fun check_descriptors :: "(string \<Rightarrow> string) \<Rightarrow> nat \<Rightarrow> Entry list list \<Rightarrow> string option" where
  "check_descriptors lower i [] = None"
| "check_descriptors lower i (es # ds) =
     (if es = [] then Some (''descriptor '' @ Itoa i @ '' is empty'')
      else case check_entries lower i 0 es of Some e \<Rightarrow> Some e | None \<Rightarrow> check_descriptors lower (Suc i) ds)"

text \<open>A descriptor builder reads the request through its headers and its filter state.
  \<open>Compile\<close>: \<open>lower\<close> is \<^verbatim>\<open>strings.ToLower\<close>. The copy it makes of the descriptors is the value itself here.\<close>

definition Compile :: "(string \<Rightarrow> string) \<Rightarrow> RateConfig \<Rightarrow> string + RateConfig" where
  "Compile lower c =
     (if TrimSpace (rl_Cluster c) = [] \<or> TrimSpace (rl_Domain c) = [] then Inl ''cluster and domain are required''
      else let c = (if rl_TimeoutMillis c = 0 then c\<lparr>rl_TimeoutMillis := 50\<rparr> else c)
           in if rl_TimeoutMillis c > 60000 then Inl ''timeout_ms must be at most 60000''
              else let c = (if rl_FailureMode c = [] then c\<lparr>rl_FailureMode := ''closed''\<rparr> else c)
                   in if rl_FailureMode c \<noteq> ''closed'' \<and> rl_FailureMode c \<noteq> ''open'' then Inl ''failure_mode must be closed or open''
                      else if (rl_Descriptors c = []) = Option.is_none (rl_BuildDescriptors c) then Inl ''provide either descriptors or BuildDescriptors''
                      else case check_descriptors lower 0 (rl_Descriptors c) of Some e \<Rightarrow> Inl e | None \<Rightarrow> Inr c)"

text \<open>\<open>decode\<close> reads one configuration object with known fields only; \<open>eof\<close> says whether nothing follows it.\<close>

definition rate_Decode :: "(string \<Rightarrow> string) \<Rightarrow> (bytes \<Rightarrow> string + RateConfig) \<Rightarrow> (bytes \<Rightarrow> bool) \<Rightarrow> bytes \<Rightarrow> string + RateConfig" where
  "rate_Decode lower decode eof bs =
     (case decode bs of
        Inl e \<Rightarrow> Inl e
      | Inr c \<Rightarrow> if \<not> eof bs then Inl ''expected one JSON config object'' else Compile lower c)"

section \<open>Rate limiting: a request\<close>

record RateLimitRequest =
  rlr_Domain :: string
  rlr_HitsAddend :: uint32
  rlr_Descriptors :: "descriptor list"

fun entry_values :: "(string \<Rightarrow> string) \<Rightarrow> (string \<Rightarrow> string \<times> bool) \<Rightarrow> Entry list \<Rightarrow> descriptor \<Rightarrow> string + descriptor" where
  "entry_values hdr st [] out = Inr out"
| "entry_values hdr st (e # es) out =
     (let v = en_Value e;
          v = (if en_Header e \<noteq> [] then hdr (en_Header e) else v);
          v = (if en_FilterState e \<noteq> [] then fst (st (en_FilterState e)) else v)
      in if v = [] then Inl (''descriptor '' @ en_Key e @ '' is unavailable'')
         else entry_values hdr st es (out @ [(en_Key e, v)]))"

fun request_descriptors :: "(string \<Rightarrow> string) \<Rightarrow> (string \<Rightarrow> string \<times> bool) \<Rightarrow> Entry list list \<Rightarrow> descriptor list \<Rightarrow> string + descriptor list" where
  "request_descriptors hdr st [] out = Inr out"
| "request_descriptors hdr st (es # ds) out =
     (case entry_values hdr st es [] of Inl e \<Rightarrow> Inl e | Inr d \<Rightarrow> request_descriptors hdr st ds (out @ [d]))"

definition Policy_request :: "RateConfig \<Rightarrow> (string \<Rightarrow> string) \<Rightarrow> (string \<Rightarrow> string \<times> bool) \<Rightarrow> string + RateLimitRequest" where
  "Policy_request c hdr st =
     (case request_descriptors hdr st (rl_Descriptors c) [] of
        Inl e \<Rightarrow> Inl e
      | Inr ds \<Rightarrow> Inr \<lparr>rlr_Domain = rl_Domain c, rlr_HitsAddend = 1, rlr_Descriptors = ds\<rparr>)"

fun check_built :: "descriptor list \<Rightarrow> string option" where
  "check_built [] = None"
| "check_built (d # ds) =
     (if d = [] then Some ''descriptor builder returned an empty descriptor''
      else if list_ex (\<lambda>(k, v). k = [] \<or> v = []) d then Some ''descriptor builder returned an invalid entry''
      else check_built ds)"

definition Policy_requestFor :: "RateConfig \<Rightarrow> (string \<Rightarrow> string) \<Rightarrow> (string \<Rightarrow> string \<times> bool) \<Rightarrow> string + RateLimitRequest" where
  "Policy_requestFor c hdr st =
     (case rl_BuildDescriptors c of
        None \<Rightarrow> Policy_request c hdr st
      | Some build \<Rightarrow>
          (case build hdr st of
             Inl e \<Rightarrow> Inl e
           | Inr ds \<Rightarrow>
               if ds = [] then Inl ''descriptor builder returned no descriptors''
               else case check_built ds of
                      Some e \<Rightarrow> Inl e
                    | None \<Rightarrow> Inr \<lparr>rlr_Domain = rl_Domain c, rlr_HitsAddend = 1, rlr_Descriptors = ds\<rparr>))"

datatype overall_code = RL_UNKNOWN | RL_OK | RL_OVER_LIMIT

record rls_codec =
  rls_Marshal :: "RateLimitRequest \<Rightarrow> string + bytes"
  rls_Unmarshal :: "bytes \<Rightarrow> overall_code option"

definition body_of :: "grpc_response \<Rightarrow> bytes" where
  "body_of r = (case G_Body r of Some b \<Rightarrow> b | None \<Rightarrow> [])"

definition Policy_responseStatus :: "rls_codec \<Rightarrow> RateConfig \<Rightarrow> grpc_response \<Rightarrow> int" where
  "Policy_responseStatus R c resp =
     (let failed = (if rl_FailureMode c = ''open'' then 0 else 503)
      in if G_Result resp = HTTPCalloutSuccess \<and> GRPCStatus resp = 0
         then case rls_Unmarshal R (body_of resp) of
                Some RL_OK \<Rightarrow> 0
              | Some RL_OVER_LIMIT \<Rightarrow> 429
              | _ \<Rightarrow> failed
         else failed)"

definition reject :: "int \<Rightarrow> string \<Rightarrow> wop list" where
  "reject code message = [OpSendLocalResponse code message [plain_text]]"

definition rate_callback :: "rls_codec \<Rightarrow> RateConfig \<Rightarrow> grpc_response \<Rightarrow> wop list" where
  "rate_callback R c resp =
     (let code = Policy_responseStatus R c resp
      in if code = 429 then reject code ''rate limit exceeded''
         else if code = 503 then reject code ''rate limit service unavailable''
         else [])"

text \<open>The handler, with the snapshot of the configuration it reads.\<close>

definition rate_handler :: "rls_codec \<Rightarrow> RateConfig option \<Rightarrow> (string \<Rightarrow> string) \<Rightarrow> (string \<Rightarrow> string \<times> bool) \<Rightarrow> plan" where
  "rate_handler R snapshot hdr st =
     (case snapshot of
        None \<Rightarrow> Direct (reject 503 ''rate limit config unavailable'')
      | Some c \<Rightarrow>
          if rl_Cluster c = [] then Direct (reject 503 ''rate limit config unavailable'')
          else case Policy_requestFor c hdr st of
                 Inl _ \<Rightarrow> Direct (reject 400 ''rate limit descriptor unavailable'')
               | Inr req \<Rightarrow>
                   (case rls_Marshal R req of
                      Inl _ \<Rightarrow> Direct (reject 500 ''rate limit request encoding failed'')
                    | Inr b \<Rightarrow>
                        CallGRPC \<lparr>G_Cluster = rl_Cluster c, G_Authority = rl_Authority c,
                            G_Method = ''/envoy.service.ratelimit.v3.RateLimitService/ShouldRateLimit'', G_Message = b,
                            G_TimeoutMillis = rl_TimeoutMillis c\<rparr>
                          (rate_callback R c)
                          (if rl_FailureMode c = ''closed'' then reject 503 ''rate limit service unavailable'' else [])))"

text \<open>The simpler filter of \<^verbatim>\<open>grpc-callout\<close>, which always fails open.\<close>

definition BuildRateLimitRequest :: "string \<Rightarrow> RateLimitRequest" where
  "BuildRateLimitRequest v = \<lparr>rlr_Domain = ''transit-grpc-callout'', rlr_HitsAddend = 1, rlr_Descriptors = [[(''body-key'', v)]]\<rparr>"

definition IsOverLimit :: "overall_code \<Rightarrow> bool" where
  "IsOverLimit code \<longleftrightarrow> code = RL_OVER_LIMIT"

definition grpc_body_callback :: "rls_codec \<Rightarrow> grpc_response \<Rightarrow> wop list" where
  "grpc_body_callback R resp =
     (if G_Result resp \<noteq> HTTPCalloutSuccess \<or> GRPCStatus resp \<noteq> 0 then []
      else case rls_Unmarshal R (body_of resp) of
             None \<Rightarrow> []
           | Some code \<Rightarrow>
               if IsOverLimit code
               then [OpSendLocalResponse 429 ''rate limit exceeded'' [plain_text, (''x-rls-status'', ''over-limit'')]] else [])"

definition grpc_bodyHandler :: "rls_codec \<Rightarrow> body_chunk \<Rightarrow> plan" where
  "grpc_bodyHandler R chunk =
     (if \<not> BC_EndStream chunk then Direct []
      else case rls_Marshal R (BuildRateLimitRequest (BC_Data chunk)) of
             Inl _ \<Rightarrow> Direct [OpSendLocalResponse 500 ''rls marshal error'' [plain_text]]
           | Inr b \<Rightarrow>
               CallGRPC \<lparr>G_Cluster = ''rls-service'', G_Authority = [],
                   G_Method = ''/envoy.service.ratelimit.v3.RateLimitService/ShouldRateLimit'', G_Message = b, G_TimeoutMillis = 1000\<rparr>
                 (grpc_body_callback R) [])"

section \<open>Authentication by callout\<close>

definition CutPrefix :: "string \<Rightarrow> string \<Rightarrow> string option" where
  "CutPrefix s p = (if take (length p) s = p then Some (drop (length p) s) else None)"

definition ParseBearer :: "string \<Rightarrow> string option" where
  "ParseBearer hdr = (case CutPrefix hdr ''Bearer '' of None \<Rightarrow> None | Some token \<Rightarrow> if token = [] then None else Some token)"

text \<open>\<open>introspect\<close> decodes the answer: whether the token is active, and its subject.\<close>

definition CheckIntrospection :: "(string \<Rightarrow> (bool \<times> string) option) \<Rightarrow> HTTPCalloutResult \<Rightarrow> string \<Rightarrow> int \<times> string \<times> bytes" where
  "CheckIntrospection introspect result b =
     (if result \<noteq> HTTPCalloutSuccess then (401, [], json_error ''introspection failed'')
      else case introspect b of
             None \<Rightarrow> (401, [], json_error ''token inactive'')
           | Some (active, sub) \<Rightarrow> if \<not> active then (401, [], json_error ''token inactive'') else (0, sub, []))"

text \<open>Both filters look at the first buffer of the answer only.\<close>

definition first_buffer :: "bytes list \<Rightarrow> bytes" where
  "first_buffer bs = (case bs of [] \<Rightarrow> [] | b # _ \<Rightarrow> b)"

definition jwt_callback :: "(string \<Rightarrow> (bool \<times> string) option) \<Rightarrow> callout_done \<Rightarrow> wop list" where
  "jwt_callback introspect d =
     (case d of (result, _, respBody) \<Rightarrow>
        case CheckIntrospection introspect result (first_buffer respBody) of (code, sub, errBody) \<Rightarrow>
          if code \<noteq> 0 then [OpSendLocalResponse code errBody [json_text]] else [OpSetRequestHeader ''x-jwt-sub'' sub])"

text \<open>\<open>marshal\<close> encodes the token as the body of the introspection request.\<close>

definition jwt_Handler :: "(string \<Rightarrow> bytes) \<Rightarrow> (string \<Rightarrow> (bool \<times> string) option) \<Rightarrow> (string \<Rightarrow> string) \<Rightarrow> plan" where
  "jwt_Handler marshal introspect hdr =
     (case ParseBearer (hdr ''authorization'') of
        None \<Rightarrow> Direct [OpSendLocalResponse 401 (json_error ''missing token'') [json_text]]
      | Some token \<Rightarrow>
          CallHTTP \<lparr>Cluster = ''token-introspection'',
              Headers = [('':method'', ''POST''), ('':path'', ''/introspect''), ('':scheme'', ''http''), (''host'', ''token-introspection.local''),
                         (''content-type'', ''application/json'')],
              Body = marshal token, TimeoutMillis = 300\<rparr>
            (jwt_callback introspect)
            [OpSendLocalResponse 401 (json_error ''introspection failed'') [json_text]])"

definition CheckAuth :: "HTTPCalloutResult \<Rightarrow> string \<Rightarrow> int \<times> bytes" where
  "CheckAuth result b =
     (if result \<noteq> HTTPCalloutSuccess then (503, json_error ''auth unavailable'')
      else if b \<noteq> ''ok'' then (403, json_error ''denied'')
      else (0, []))"

definition auth_callback :: "callout_done \<Rightarrow> wop list" where
  "auth_callback d =
     (case d of (result, _, b) \<Rightarrow>
        case CheckAuth result (first_buffer b) of (code, resp) \<Rightarrow>
          if code \<noteq> 0 then [OpSendLocalResponse code resp [json_text]] else [OpSetRequestHeader ''x-auth-checked'' ''true''])"

definition async_Handler :: plan where
  "async_Handler =
     CallHTTP \<lparr>Cluster = ''auth-service'',
         Headers = [('':method'', ''POST''), ('':path'', ''/check''), ('':scheme'', ''http''), (''host'', ''auth-service.local'')],
         Body = ''{'' @ [CHR 0x22] @ ''scope'' @ [CHR 0x22] @ '':'' @ [CHR 0x22] @ ''read'' @ [CHR 0x22] @ ''}'', TimeoutMillis = 250\<rparr>
       auth_callback
       [OpSendLocalResponse 503 (json_error ''auth unavailable'') [json_text]]"

section \<open>Request filters\<close>

definition ResolveHost :: "string \<Rightarrow> string \<Rightarrow> string \<Rightarrow> string option" where
  "ResolveHost hdr ha hb = (if hdr = ''a'' then Some ha else if hdr = ''b'' then Some hb else None)"

definition headerrouter_Handler :: "string \<Rightarrow> string \<Rightarrow> (string \<Rightarrow> string) \<Rightarrow> wop list" where
  "headerrouter_Handler hostA hostB hdr =
     (case ResolveHost (hdr ''x-route-to'') hostA hostB of None \<Rightarrow> [] | Some addr \<Rightarrow> [OpSetUpstreamOverrideHost addr False])"

text \<open>A JSON object is a map from names to values; \<open>parse\<close> and \<open>print\<close> are its codec.\<close>

definition TransformBody :: "(bytes \<Rightarrow> (string \<rightharpoonup> 'j) option) \<Rightarrow> ((string \<rightharpoonup> 'j) \<Rightarrow> bytes option) \<Rightarrow> bytes \<Rightarrow> bytes option" where
  "TransformBody parse print bs =
     (if bs = [] then None
      else case parse bs of
             None \<Rightarrow> None
           | Some m \<Rightarrow>
               (case m ''message'' of
                  None \<Rightarrow> None
                | Some v \<Rightarrow> print ((m(''message'' := None))(''text'' \<mapsto> v))))"

definition bodytransform_onBody :: "(bytes \<Rightarrow> (string \<rightharpoonup> 'j) option) \<Rightarrow> ((string \<rightharpoonup> 'j) \<Rightarrow> bytes option) \<Rightarrow> body_chunk \<Rightarrow> wop list" where
  "bodytransform_onBody parse print chunk =
     (case TransformBody parse print (BC_Data chunk) of None \<Rightarrow> [] | Some out \<Rightarrow> [OpSetRequestBody out])"

text \<open>The middleware of \<^verbatim>\<open>filter-chain\<close>: a handler sees the request and its headers; \<open>info\<close> is the number of the
  log level.\<close>

type_synonym req_handler = "request \<Rightarrow> (string \<Rightarrow> string) \<Rightarrow> wop list"

definition WithLogging :: "nat \<Rightarrow> req_handler \<Rightarrow> req_handler" where
  "WithLogging info nxt = (\<lambda>r hdr. OpLog info (''filter-chain: '' @ Method r @ '' '' @ Path r) # nxt r hdr)"

definition WithRequiredHeader :: "string \<Rightarrow> req_handler \<Rightarrow> req_handler" where
  "WithRequiredHeader nm nxt = (\<lambda>r hdr. if hdr nm = [] then [OpSendLocalResponse 401 (json_error ''missing required header'') [json_text]] else nxt r hdr)"

definition WithStampHeader :: "string \<Rightarrow> string \<Rightarrow> req_handler \<Rightarrow> req_handler" where
  "WithStampHeader nm v nxt = (\<lambda>r hdr. nxt r hdr @ [OpSetRequestHeader nm v])"

definition filter_chain :: "nat \<Rightarrow> req_handler" where
  "filter_chain info = Chain (\<lambda>r hdr. []) [WithLogging info, WithRequiredHeader ''x-api-key'', WithStampHeader ''x-filtered'' ''true'']"

text \<open>The handler of \<^verbatim>\<open>metadata\<close>; \<open>tier\<close> is the metadata of the route, if it has the key.\<close>

definition metadata_handle :: "nat \<Rightarrow> string option \<Rightarrow> wop list" where
  "metadata_handle info route =
     (let tier = (case route of Some v \<Rightarrow> v | None \<Rightarrow> []); tier = (if tier = [] then ''standard'' else tier)
      in [OpSetFilterState ''meta.tier'' tier, OpSetMetadata ''example.routing'' ''tier'' (VString tier), OpLog info (''metadata-router: tier='' @ tier)])"

definition resolveTierIndex :: "string \<Rightarrow> int" where
  "resolveTierIndex tier = (if tier = ''premium'' then 1 else 0)"

section \<open>Static content\<close>

definition cacheControl :: "string \<Rightarrow> string" where
  "cacheControl path = (if take 8 path = ''/assets/'' then ''public, max-age=31536000, immutable'' else ''no-cache'')"

definition path_of :: "string \<Rightarrow> string" where
  "path_of p = takeWhile (\<lambda>c. c \<noteq> CHR ''?'') p"

text \<open>\<open>files\<close> is the embedded file system, \<open>mime\<close> the content type of a path.\<close>

definition SPAHandler :: "(string \<rightharpoonup> bytes) \<Rightarrow> (string \<Rightarrow> string) \<Rightarrow> bytes \<Rightarrow> request \<Rightarrow> wop list" where
  "SPAHandler files mime indexHTML r =
     (let path = path_of (Path r)
      in case files (''ui/dist'' @ path) of
           Some d \<Rightarrow>
             (let ct = (if mime path = [] then ''application/octet-stream'' else mime path)
              in [OpSendLocalResponse 200 d [(''content-type'', ct), (''cache-control'', cacheControl path)]])
         | None \<Rightarrow> [OpSendLocalResponse 200 indexHTML [(''content-type'', ''text/html; charset=utf-8''), (''cache-control'', ''no-cache'')]])"

datatype api_reply = ApiHello string string | ApiTime | ApiNotFound string

definition api_route :: "request \<Rightarrow> (int \<times> api_reply) option" where
  "api_route r =
     (let path = Path r
      in if path = ''/api/hello'' \<or> HasPrefix path ''/api/hello?'' then Some (200, ApiHello (FilterName r) path)
         else if path = ''/api/time'' \<or> HasPrefix path ''/api/time?'' then Some (200, ApiTime)
         else if HasPrefix path ''/api/'' then Some (404, ApiNotFound path)
         else None)"

definition APIHandler :: "(api_reply \<Rightarrow> bytes) \<Rightarrow> request \<Rightarrow> wop list" where
  "APIHandler marshal r = (case api_route r of None \<Rightarrow> [] | Some (st, v) \<Rightarrow> [OpSendLocalResponse st (marshal v) [json_text]])"

section \<open>What a compiled policy guarantees\<close>

definition valid_entry :: "(string \<Rightarrow> string) \<Rightarrow> Entry \<Rightarrow> bool" where
  "valid_entry lower e \<longleftrightarrow> TrimSpace (en_Key e) \<noteq> [] \<and> entry_sources e = 1 \<and> en_Header e = lower (en_Header e) \<and> \<not> header_blank (en_Header e)"

definition valid_policy :: "(string \<Rightarrow> string) \<Rightarrow> RateConfig \<Rightarrow> bool" where
  "valid_policy lower p \<longleftrightarrow> TrimSpace (rl_Cluster p) \<noteq> [] \<and> TrimSpace (rl_Domain p) \<noteq> [] \<and>
     1 \<le> rl_TimeoutMillis p \<and> rl_TimeoutMillis p \<le> 60000 \<and> rl_FailureMode p \<in> {''closed'', ''open''} \<and>
     (rl_Descriptors p = [] \<longleftrightarrow> rl_BuildDescriptors p \<noteq> None) \<and>
     list_all (\<lambda>es. es \<noteq> [] \<and> list_all (valid_entry lower) es) (rl_Descriptors p)"

lemma check_entries_None: "check_entries lower i j es = None \<longleftrightarrow> list_all (valid_entry lower) es"
  by (induction es arbitrary: j) (auto simp: valid_entry_def)

lemma check_descriptors_None: "check_descriptors lower i ds = None \<longleftrightarrow> list_all (\<lambda>es. es \<noteq> [] \<and> list_all (valid_entry lower) es) ds"
proof (induction ds arbitrary: i)
  case (Cons es ds)
  show ?case using Cons.IH [of "Suc i"] check_entries_None [of lower i 0 es] by (cases "check_entries lower i 0 es") auto
qed simp

text \<open>The two defaults \<open>Compile\<close> fills in.\<close>

definition with_defaults :: "RateConfig \<Rightarrow> RateConfig" where
  "with_defaults c = c\<lparr>rl_TimeoutMillis := (if rl_TimeoutMillis c = 0 then 50 else rl_TimeoutMillis c),
     rl_FailureMode := (if rl_FailureMode c = [] then ''closed'' else rl_FailureMode c)\<rparr>"

lemma Compile_cases:
  "Compile lower c = (if valid_policy lower (with_defaults c) then Inr (with_defaults c) else Inl (projl (Compile lower c)))"
proof -
  let ?t = "if rl_TimeoutMillis c = 0 then 50 else rl_TimeoutMillis c"
  have "1 \<le> ?t" by (auto simp: word_le_nat_alt Suc_le_eq unat_gt_0)
  moreover have "with_defaults c = (let c = (if rl_TimeoutMillis c = 0 then c\<lparr>rl_TimeoutMillis := 50\<rparr> else c)
      in if rl_FailureMode c = [] then c\<lparr>rl_FailureMode := ''closed''\<rparr> else c)"
    by (simp add: with_defaults_def Let_def)
  ultimately show ?thesis
    using check_descriptors_None [of lower 0 "rl_Descriptors c"]
    by (cases "check_descriptors lower 0 (rl_Descriptors c)")
      (auto simp: Compile_def Let_def valid_policy_def with_defaults_def Option.is_none_def not_less split: if_splits)
qed

section \<open>Properties\<close>

text \<open>C35. A compiled policy is well formed, and only a well-formed configuration compiles: \<open>Compile\<close> succeeds exactly
  if the configuration, with a timeout of 50 ms and fail-closed mode filled in where they are absent, names a
  cluster and a domain that are not blank, a timeout between 1 and 60000 ms, a known failure mode, either
  descriptors or a builder, and in every descriptor at least one entry, each with a key and exactly one source,
  with header names in lower case; and the policy is then that configuration.\<close>

theorem compile_accepts_exactly_valid:
  "(Compile lower c = Inr p) \<longleftrightarrow> p = with_defaults c \<and> valid_policy lower p"
  by (subst Compile_cases) auto


definition demo_policy :: RateConfig where
  "demo_policy = \<lparr>rl_Cluster = ''rls'', rl_Authority = [], rl_Domain = ''d'', rl_TimeoutMillis = 50, rl_FailureMode = ''closed'',
     rl_Descriptors = [[\<lparr>en_Key = ''tenant'', en_Value = [], en_Header = ''x-tenant'', en_FilterState = []\<rparr>]], rl_BuildDescriptors = None\<rparr>"

definition demo_rls :: rls_codec where
  "demo_rls = \<lparr>rls_Marshal = (\<lambda>r. Inr (rlr_Domain r)), rls_Unmarshal = (\<lambda>b. if b = ''ok'' then Some RL_OK else None)\<rparr>"


text \<open>A token that is not active, or could not be checked, never passes; an active one passes with its subject.\<close>

lemma jwt_admits_only_active_tokens:
  "(jwt_callback introspect (result, hs, bs) = [OpSetRequestHeader ''x-jwt-sub'' sub]) \<longleftrightarrow>
     result = HTTPCalloutSuccess \<and> introspect (first_buffer bs) = Some (True, sub)"
  "(\<exists>code b. 400 \<le> code \<and> jwt_callback introspect (result, hs, bs) = [OpSendLocalResponse code b [json_text]]) \<longleftrightarrow>
     \<not> (result = HTTPCalloutSuccess \<and> (\<exists>sub. introspect (first_buffer bs) = Some (True, sub)))"
  by (auto simp: jwt_callback_def CheckIntrospection_def split: option.splits if_splits)

text \<open>The answer of the authentication service may come in several buffers; only the first is compared.\<close>

lemma auth_ignores_later_buffers: "auth_callback (HTTPCalloutSuccess, hs, ''ok'' # rest) = [OpSetRequestHeader ''x-auth-checked'' ''true'']"
  by (simp add: auth_callback_def CheckAuth_def first_buffer_def)

text \<open>The chain: without a key the request is answered with 401 and not stamped.\<close>

lemma filter_chain_behaviour:
  "filter_chain info r hdr = OpLog info (''filter-chain: '' @ Method r @ '' '' @ Path r) #
     (if hdr ''x-api-key'' = [] then [OpSendLocalResponse 401 (json_error ''missing required header'') [json_text]]
      else [OpSetRequestHeader ''x-filtered'' ''true''])"
  by (simp add: filter_chain_def Chain_foldr WithLogging_def WithRequiredHeader_def WithStampHeader_def)

text \<open>The transformation moves the member and touches nothing else.\<close>

lemma TransformBody_moves:
  assumes "TransformBody parse print bs = Some out" "parse bs = Some m" "\<And>m b. print m = Some b \<Longrightarrow> parse b = Some m"
  shows "\<exists>m'. parse out = Some m' \<and> m' ''text'' = m ''message'' \<and> m' ''message'' = None \<and> (\<forall>k. k \<notin> {''text'', ''message''} \<longrightarrow> m' k = m k)"
  using assms by (auto simp: TransformBody_def split: if_splits option.splits)

end
