(* ===== verification/Spec2Isabelle.thy ===== *)
theory Spec2Isabelle
  imports Ring_Buffer Background_Group Pipeline_Config Content_Encoding Callout_Theorems Request_Theorems
    Host_Refresh Cluster_Handle Host_Selection Router Cluster_ABI Extension_ABI Finalized_Streams
    Writer_Helpers Exchange_Hooks Sidecar LB_Policies Cluster_Metrics Logger_Views Test_Fakes MCP_Aggregator
    MCP_Catalog MCP_Backend Cluster_Calls Owned_Copies Body_Router LLM_Decider WS_Proxy Model_Router Shard_Router Example_Clusters SSE_Tap Example_Filters
begin

text \<open>
  A verification library for transit, a Go SDK for Envoy dynamic modules. The package \<^verbatim>\<open>src/up\<close> is what
  users program against: HTTP filters, clusters, load balancers, access loggers and the helpers around
  them. The package \<^verbatim>\<open>src/down\<close> holds the contracts and registries below it, and \<^verbatim>\<open>src/down/abi_impl\<close> the
  functions Envoy calls and the C callbacks it offers.

  \<^bold>\<open>Conventions.\<close> A Go string and a byte slice are both a \<^typ>\<open>string\<close>, one \<^typ>\<open>char\<close> a byte. Machine
  integers are words, or integers with the wrap-around written out (\<open>int64\<close>). A computation that may panic
  or not return has an \<open>outcome\<close> (\<^verbatim>\<open>Transit_Prelude\<close>). Envoy and its SDK are not part of the repository: what
  the code calls on them is logged, and what they answer is a parameter, with what is relied on stated as a
  hypothesis. User callbacks of a stream are scripts of Writer calls (\<open>wop\<close>) or parameters; every statement
  quantifies over them. Concurrency is made of steps: an operation is split where it releases a lock or
  where another goroutine can run, an inductive relation interleaves the steps, and invariants are proved by
  rule induction.

  \<^bold>\<open>The HTTP filter\<close> (\<^verbatim>\<open>up/filter.go\<close>, \<^verbatim>\<open>up/writer.go\<close>, \<^verbatim>\<open>up/async.go\<close>, \<^verbatim>\<open>up/grpc.go\<close>, \<^verbatim>\<open>up/metadata.go\<close>,
  \<^verbatim>\<open>up/stream_object.go\<close>, \<^verbatim>\<open>down/stream_object.go\<close>, \<^verbatim>\<open>up/up.go\<close>). \<^verbatim>\<open>Filter_State\<close> has the data, \<^verbatim>\<open>Writer_Ops\<close>
  the mutations and \<open>flush\<close>, \<^verbatim>\<open>Callouts\<close> the asynchronous calls and the Active/Paused/Done/Flushed handoff,
  \<^verbatim>\<open>Filter_Callbacks\<close> the stream callbacks and the goroutine of \<open>Writer.Go\<close>, \<^verbatim>\<open>Stream_Objects\<close> the bags,
  \<^verbatim>\<open>Grpc_Codec\<close> the framing, \<^verbatim>\<open>Registries\<close> and \<^verbatim>\<open>Filter_Factory\<close> registration and the middleware chain.
  \<^verbatim>\<open>Script_Frames\<close>, \<^verbatim>\<open>Handoff\<close> and \<^verbatim>\<open>Stream_Steps\<close> prove what every callback, answer and goroutine step keeps of
  a stream; \<^verbatim>\<open>Stream_Theorems\<close>, \<^verbatim>\<open>Callout_Theorems\<close> and \<^verbatim>\<open>Request_Theorems\<close> draw the properties: the request is
  resumed at most once and by its owner, completion is final, a header callback that ends with a callout has the
  same effect whether Envoy answers at once or later, scripts reach the request only through \<open>flush\<close>, \<open>flush\<close>
  applies and empties the queues or sends the pending local reply and nothing else, batches settle once in
  request order, a pending callout holds the request (except behind a streaming body handler), the content
  length is that of the body the callback leaves. Two computations are bounded by fuel: \<open>HTTPCalloutSequence\<close>, which may step
  for ever when Envoy answers every callout at once (\<open>env_fuel\<close>; running out is the outcome \<open>Hang\<close>), and the
  minting of a bag nonce, which retries until it finds a free one (\<open>mint_bag\<close>; as much fuel as there are
  bags, plus one, is enough, \<open>mint_bag_enough\<close>).

  \<^bold>\<open>Finalized streams and loggers\<close> (\<^verbatim>\<open>up/stream_finalized.go\<close>, \<^verbatim>\<open>down/response_flags.go\<close>,
  \<^verbatim>\<open>down/abi_impl/access_logger.go\<close>, \<^verbatim>\<open>up/access_logger.go\<close>, \<^verbatim>\<open>down/abi_impl/lb_policy.go\<close>).
  \<^verbatim>\<open>Finalized_Streams\<close>: a registered stream gets its callback once with its own state, and two streams with one
  request id do not; the rendering of response flags loses nothing. \<^verbatim>\<open>Extension_ABI\<close>: the exported functions of
  load-balancing policies and access loggers.

  \<^bold>\<open>Clusters\<close> (\<^verbatim>\<open>up/host_set.go\<close>, \<^verbatim>\<open>up/host_refresh_loop.go\<close>, \<^verbatim>\<open>down/abi_impl/cluster.go\<close>,
  \<^verbatim>\<open>down/abi_impl/internal.go\<close>, \<^verbatim>\<open>down/cluster.go\<close>, \<^verbatim>\<open>up/stream_promise.go\<close>, \<^verbatim>\<open>up/async_host_selector.go\<close>).
  \<^verbatim>\<open>Host_Set\<close>: \<open>Apply\<close> keeps the published map, the hosts Envoy holds and the log of calls consistent, and no
  reader ever sees a removed host. \<^verbatim>\<open>Host_Refresh\<close>: the loop applies at most one snapshot at a time, never panics,
  and applies nothing after \<open>Stop\<close>. \<^verbatim>\<open>Token_Table\<close>: the sharded table of the objects given to Envoy implements a
  map; the locale \<open>token_table\<close> is what the ABI layers use of it. \<^verbatim>\<open>Cluster_Handle\<close>: the arrays of \<open>AddHosts\<close> and
  the functions scheduled on the main thread, whose contract is the locale \<open>main_thread\<close>. \<^verbatim>\<open>Cluster_ABI\<close>: a
  destroyed cluster is never called again. \<^verbatim>\<open>Cluster_Calls\<close>: the host selection that Envoy starts, which answers a host
  or a handle and never both. \<^verbatim>\<open>Stream_Promise\<close> and \<^verbatim>\<open>Host_Selection\<close>: callbacks fire once, a selection
  is completed or cancelled at most once, its handle is freed, and once its promise is resolved it is settled in
  every interleaving.

  \<^bold>\<open>Helpers.\<close> \<^verbatim>\<open>Background_Group\<close> (\<^verbatim>\<open>up/group.go\<close>, \<^verbatim>\<open>up/cluster_group.go\<close>, \<^verbatim>\<open>up/watch.go\<close>): \<open>Stop\<close> waits for
  every goroutine and no order of events deadlocks; \<open>RunRetry\<close> returns exactly on cancellation.
  \<^verbatim>\<open>Sidecar\<close> (\<^verbatim>\<open>up/sidecar.go\<close>, \<^verbatim>\<open>up/admin.go\<close>, and the loading of configurations in \<^verbatim>\<open>up/filter.go\<close>): the
  lifecycle of the server that runs as a group actor, and what a second load does to it; the loads of one filter
  configuration share a group, so replacing a configuration stops the goroutines of the new one. \<^verbatim>\<open>Writer_Helpers\<close> (\<^verbatim>\<open>up/writer.go\<close>, \<^verbatim>\<open>up/metadata.go\<close>, \<^verbatim>\<open>up/stream_key.go\<close>): \<open>Do\<close>,
  the log handler, typed metadata and stream objects, and that the objects a filter stores reach the load
  balancer. \<^verbatim>\<open>Exchange_Hooks\<close> (\<^verbatim>\<open>up/exchange_hooks.go\<close>): streams that recycle slots through one pool never see
  each other's state.
  \<^verbatim>\<open>Pipeline_Config\<close> (\<^verbatim>\<open>up/pipeline_config.go\<close> and its poll and file parts): the snapshot is the last good value;
  two concurrent refreshes can strand it. \<^verbatim>\<open>Content_Encoding\<close> (\<^verbatim>\<open>up/compress/compress.go\<close>), \<^verbatim>\<open>Router\<close>
  (\<^verbatim>\<open>up/router.go\<close>), \<^verbatim>\<open>Ring_Buffer\<close> (\<^verbatim>\<open>up/buffer/buffer.go\<close>): encodings, the routing rule, and the buffers
  that keep the last, or the first and the last, bytes of a stream.

  \<^bold>\<open>Views of Envoy\<close> (\<^verbatim>\<open>down/abi_impl/internal.go\<close>, \<^verbatim>\<open>up/buffer.go\<close>, \<^verbatim>\<open>down/abi_impl/cluster.go\<close>,
  \<^verbatim>\<open>down/abi_impl/lb_policy.go\<close>, \<^verbatim>\<open>down/abi_impl/access_logger.go\<close>, \<^verbatim>\<open>up/cluster.go\<close>, \<^verbatim>\<open>up/lb.go\<close>,
  \<^verbatim>\<open>up/access_logger.go\<close>, \<^verbatim>\<open>up/testutil\<close>). \<^verbatim>\<open>Envoy_Buffers\<close>: strings are copied out of Envoy's memory, slices alias it.
  \<^verbatim>\<open>Owned_Copies\<close> (\<^verbatim>\<open>up/async.go\<close>): the copies made in a callback outlive it.
  \<^verbatim>\<open>LB_Views\<close>: the handles and contexts of load balancers; the locales \<open>lb_interface\<close> and \<open>cluster_lb_interface\<close> are
  what a balancer relies on, and are interpreted on the handles over a documented Envoy. \<^verbatim>\<open>Cluster_Metrics\<close> and
  \<^verbatim>\<open>Logger_Views\<close>: the metric adapters and the properties of a finished stream, with the integer conversions written
  out. \<^verbatim>\<open>Test_Fakes\<close>: the doubles of the unit tests; the log of a run gives on the fake what it gives on Envoy.

  \<^bold>\<open>Example balancers, clusters and routers\<close> (\<^verbatim>\<open>examples/lb-policy*\<close>, \<^verbatim>\<open>examples/cluster*\<close>). \<^verbatim>\<open>LB_Policies\<close>: a policy
  declines exactly when no host is healthy and otherwise names a healthy one; but two policies search an index
  among all hosts and answer it as one among the healthy hosts, which can be a different host. \<^verbatim>\<open>Route_Hosts\<close> has the loop that makes configured addresses known to Envoy.
  \<^verbatim>\<open>Model_Router\<close>: a published route always has its host, at every point of the main thread's work, if Envoy
  accepts its address. \<^verbatim>\<open>Shard_Router\<close>: the longest matching prefix wins, and
  the upstream filter keeps the shard of a request. \<^verbatim>\<open>Example_Clusters\<close>: discovery tracks the hosts of Envoy, refused ones included, and the
  round robin is fair up to the wrap-around of its counter. \<^verbatim>\<open>Body_Router\<close> (\<^verbatim>\<open>examples/cluster-async-router\<close>): a
  selection that waits for the body of its request is settled by that body only, over all interleavings of all
  streams. \<^verbatim>\<open>LLM_Decider\<close> (\<^verbatim>\<open>examples/llm-decider\<close>): a decided model reaches its host.

  \<^bold>\<open>The MCP routers\<close> (\<^verbatim>\<open>examples/mcp-profile-router\<close>, \<^verbatim>\<open>examples/mcp-profile-gateway\<close>, \<^verbatim>\<open>examples/mcp-catalog-router\<close>).
  \<^verbatim>\<open>Session_Codec\<close>: composite sessions decode to what was encoded. \<^verbatim>\<open>MCP_Types\<close>: messages, headers, and the locale
  \<open>tool_namespace\<close>, the contract between the tools a client is shown and the calls it makes, which the profile
  router (\<^verbatim>\<open>MCP_Aggregator\<close>) and the gateway (\<^verbatim>\<open>MCP_Gateway\<close>) both interpret: a listed tool can be called and
  reaches its owner, and no other server, under the session that server issued. The gateway sends to a server no credential but the one configured for
  it, and its two implementations agree (\<^verbatim>\<open>MCP_Gateway_Net\<close>). \<^verbatim>\<open>MCP_Catalog\<close>: the router behind the gateway.
  \<^verbatim>\<open>MCP_Backend\<close>: the demonstration server, which accepts the sessions it issued, and the filter of the profile router.

  \<^bold>\<open>Example filters\<close> (\<^verbatim>\<open>examples/sse-tap\<close>, \<^verbatim>\<open>ratelimit\<close>, \<^verbatim>\<open>grpc-callout\<close>, \<^verbatim>\<open>jwt-callout\<close>, \<^verbatim>\<open>async-callout\<close>, \<^verbatim>\<open>spa\<close>
  and others). \<^verbatim>\<open>SSE_Tap\<close>: the extracted usage does not depend on how the stream is cut into chunks, except that an empty
  chunk starts it over.
  \<^verbatim>\<open>Example_Filters\<close>: the compiler of rate-limit rules accepts exactly the valid configurations, and a request is
  admitted only after the service it depends on has said so, or when the policy fails open. \<^verbatim>\<open>WS_Proxy\<close> (\<^verbatim>\<open>examples/ws-proxy\<close>): frames are carried
  unchanged and in order; the credential filter never injects what it is configured with.

  \<^bold>\<open>Not modelled.\<close> The C entry points and the attribute and metadata getters of filters, which forward one call to
  Envoy; the serving of HTTP (multiplexers, listeners) by the sidecar and by the demo servers; the set-up of file
  watchers; type aliases; the examples that only log or forward, the user interface of \<^verbatim>\<open>request-ui\<close>, the
  integrations and the end-to-end tests: input and output, or no state of the program.
\<close>

end
